(* ===== verification/Prelude86.thy ===== *)
theory Prelude86
  imports Main "HOL-Library.Word"
begin

text \<open>
  Shared vocabulary of the development: the fixed-width integer types of the C code, the
  bit-mask idioms it uses (\<open>x & (1 << n)\<close>, \<open>x |= (1 << n)\<close>, \<open>x &= ~(1 << n)\<close>), the byte
  pair idiom of the 8-bit bus (a 16-bit register written or read as low byte, then high byte),
  iteration of a step function and the lemmas on them that every component uses.
\<close>

unbundle bit_operations_syntax

type_synonym u8 = "8 word"
type_synonym u16 = "16 word"
type_synonym u32 = "32 word"
type_synonym u64 = "64 word"

named_theorems mask_simps \<open>reading single bits out of masked words\<close>
named_theorems wf_intros \<open>preservation of component invariants\<close>

subsection \<open>Single bits of a word\<close>

text \<open>\<open>1 << n\<close> in the width of the register it is combined with.\<close>

definition bitmask :: "nat \<Rightarrow> 'a::len word" where
  "bitmask n = push_bit n 1"

text \<open>C truth of \<open>w & (1 << n)\<close>.\<close>

definition tst :: "'a::len word \<Rightarrow> nat \<Rightarrow> bool" where
  "tst w n \<longleftrightarrow> w AND bitmask n \<noteq> 0"

lemma bit_bitmask [mask_simps]:
  "bit (bitmask n :: 'a::len word) m \<longleftrightarrow> m = n \<and> n < LENGTH('a)"
  by (auto simp: bitmask_def push_bit_eq_mult bit_exp_iff)

lemma tst_iff_bit [mask_simps]: "tst w n \<longleftrightarrow> bit w n"
proof
  assume "tst w n"
  then obtain m where "bit (w AND bitmask n) m"
    by (metis tst_def bit_0_eq bit_eq_iff bot_apply bot_bool_def)
  then show "bit w n" by (auto simp: bit_and_iff bit_bitmask)
next
  assume b: "bit w n"
  then have "bit (w AND bitmask n) n"
    by (auto simp: bit_and_iff bit_bitmask dest: bit_imp_le_length)
  then show "tst w n" by (auto simp: tst_def)
qed

lemma tst_or [mask_simps]: "tst (w OR v) n \<longleftrightarrow> tst w n \<or> tst v n"
  by (simp add: tst_iff_bit bit_or_iff)

lemma tst_and [mask_simps]: "tst (w AND v) n \<longleftrightarrow> tst w n \<and> tst v n"
  by (simp add: tst_iff_bit bit_and_iff)

lemma tst_not [mask_simps]: "n < LENGTH('a) \<Longrightarrow> tst (NOT w) n \<longleftrightarrow> \<not> tst (w :: 'a::len word) n"
  by (simp add: tst_iff_bit bit_not_iff)

lemma tst_bitmask [mask_simps]:
  "tst (bitmask m :: 'a::len word) n \<longleftrightarrow> n = m \<and> m < LENGTH('a)"
  by (simp add: tst_iff_bit bit_bitmask)

lemma tst_zero [simp]: "\<not> tst 0 n"
  by (simp add: tst_def)

lemma tst_set [simp]: "n < LENGTH('a) \<Longrightarrow> tst ((w :: 'a::len word) OR bitmask n) n"
  by (simp add: tst_iff_bit bit_or_iff bit_bitmask)

lemma tst_clear [simp]: "\<not> tst ((w :: 'a::len word) AND NOT (bitmask n)) n"
  by (auto simp: tst_iff_bit bit_and_iff bit_not_iff bit_bitmask)

lemma word_eqI_tst:
  assumes "\<And>n. n < LENGTH('a) \<Longrightarrow> tst (v :: 'a::len word) n = tst w n"
  shows "v = w"
  by (rule bit_word_eqI) (use assms in \<open>simp add: tst_iff_bit\<close>)

lemma not_tst_all_imp_zero:
  "(\<And>n. n < LENGTH('a) \<Longrightarrow> \<not> tst (w :: 'a::len word) n) \<Longrightarrow> w = 0"
  by (rule word_eqI_tst) simp

lemma nonzero_tst: "(w :: 'a::len word) \<noteq> 0 \<Longrightarrow> \<exists>n < LENGTH('a). tst w n"
  using not_tst_all_imp_zero by blast

subsection \<open>A 16-bit value as two bytes\<close>

definition lo8 :: "u16 \<Rightarrow> u8" where "lo8 w = ucast w"
definition hi8 :: "u16 \<Rightarrow> u8" where "hi8 w = ucast (drop_bit 8 w)"
definition word16 :: "u8 \<Rightarrow> u8 \<Rightarrow> u16" where
  "word16 lo hi = ucast lo OR push_bit 8 (ucast hi)"

text \<open>\<open>(w & 0xff00) | v\<close> and \<open>(w & 0x00ff) | (v << 8)\<close>.\<close>

definition set_lo8 :: "u16 \<Rightarrow> u8 \<Rightarrow> u16" where
  "set_lo8 w v = (w AND 0xff00) OR ucast v"
definition set_hi8 :: "u16 \<Rightarrow> u8 \<Rightarrow> u16" where
  "set_hi8 w v = (w AND 0x00ff) OR push_bit 8 (ucast v)"

lemma bit_ff00: "bit (0xff00 :: u16) n \<longleftrightarrow> 8 \<le> n \<and> n < 16"
proof -
  have eq: "(0xff00 :: u16) = push_bit 8 (mask 8)" by (simp add: mask_eq_exp_minus_1)
  show ?thesis unfolding eq by (simp only: bit_push_bit_iff bit_mask_iff) auto
qed

lemma bit_00ff: "bit (0x00ff :: u16) n \<longleftrightarrow> n < 8"
proof -
  have eq: "(0x00ff :: u16) = mask 8" by (simp add: mask_eq_exp_minus_1)
  show ?thesis unfolding eq by (simp only: bit_mask_iff) auto
qed

lemmas byte_bits = bit_ucast_iff bit_drop_bit_eq comp_apply bit_or_iff bit_and_iff bit_push_bit_iff
  bit_ff00 bit_00ff

lemma lo8_word16 [simp]: "lo8 (word16 lo hi) = lo"
  by (rule bit_word_eqI) (simp add: lo8_def word16_def byte_bits)

lemma hi8_word16 [simp]: "hi8 (word16 lo hi) = hi"
  by (rule bit_word_eqI) (auto simp: hi8_def word16_def byte_bits dest: bit_imp_le_length)

lemma word16_lo8_hi8 [simp]: "word16 (lo8 w) (hi8 w) = w"
  by (rule bit_word_eqI) (auto simp: lo8_def hi8_def word16_def byte_bits)

lemma lo8_set_lo8 [simp]: "lo8 (set_lo8 w v) = v"
  by (rule bit_word_eqI, simp only: lo8_def hi8_def set_lo8_def set_hi8_def byte_bits)
    (auto dest: bit_imp_le_length)

lemma hi8_set_lo8 [simp]: "hi8 (set_lo8 w v) = hi8 w"
  by (rule bit_word_eqI, simp only: lo8_def hi8_def set_lo8_def set_hi8_def byte_bits)
    (auto dest: bit_imp_le_length)

lemma lo8_set_hi8 [simp]: "lo8 (set_hi8 w v) = lo8 w"
  by (rule bit_word_eqI, simp only: lo8_def hi8_def set_lo8_def set_hi8_def byte_bits)
    (auto dest: bit_imp_le_length)

lemma hi8_set_hi8 [simp]: "hi8 (set_hi8 w v) = v"
  by (rule bit_word_eqI, simp only: lo8_def hi8_def set_lo8_def set_hi8_def byte_bits)
    (auto dest: bit_imp_le_length)

lemma u16_eqI: "lo8 v = lo8 w \<Longrightarrow> hi8 v = hi8 w \<Longrightarrow> v = w"
  by (metis word16_lo8_hi8)

lemma set_hi8_set_lo8 [simp]: "set_hi8 (set_lo8 w lo) hi = word16 lo hi"
  by (rule u16_eqI) simp_all

subsection \<open>The two-write protocol of a 16-bit register behind an 8-bit port\<close>

text \<open>
  Several parts of the machine (the data ports of the interval timer in access mode 3, the
  address and count ports of the DMA controller) receive a 16-bit value as two byte writes to
  one port, told apart by a flip-flop. The contract: with the flip-flop clear a write replaces
  the low byte and sets it, with the flip-flop set it replaces the high byte and clears it.
\<close>

locale byte_pair_port =
  fixes ok :: "'s \<Rightarrow> bool"
    and wr :: "u8 \<Rightarrow> 's \<Rightarrow> 's"
    and reg :: "'s \<Rightarrow> u16"
    and flipflop :: "'s \<Rightarrow> bool"
  assumes ok_wr: "ok s \<Longrightarrow> ok (wr v s)"
    and ff_wr: "ok s \<Longrightarrow> flipflop (wr v s) = (\<not> flipflop s)"
    and lo_wr: "ok s \<Longrightarrow> \<not> flipflop s \<Longrightarrow> reg (wr v s) = set_lo8 (reg s) v"
    and hi_wr: "ok s \<Longrightarrow> flipflop s \<Longrightarrow> reg (wr v s) = set_hi8 (reg s) v"
begin

definition write_pair :: "u16 \<Rightarrow> 's \<Rightarrow> 's" where
  "write_pair w s = wr (hi8 w) (wr (lo8 w) s)"

lemma write_pair_reg: "ok s \<Longrightarrow> \<not> flipflop s \<Longrightarrow> reg (write_pair w s) = w"
  by (simp add: write_pair_def hi_wr lo_wr ok_wr ff_wr)

lemma write_pair_flipflop: "ok s \<Longrightarrow> flipflop (write_pair w s) = flipflop s"
  by (simp add: write_pair_def ok_wr ff_wr)

lemma write_pair_ok: "ok s \<Longrightarrow> ok (write_pair w s)"
  by (simp add: write_pair_def ok_wr)

text \<open>With the flip-flop out of step the bytes land the wrong way round.\<close>

lemma write_pair_swapped:
  "ok s \<Longrightarrow> flipflop s \<Longrightarrow> reg (write_pair w s) = word16 (hi8 w) (lo8 w)"
  by (rule u16_eqI) (simp_all add: write_pair_def hi_wr lo_wr ok_wr ff_wr)

end

lemma less_3_cases: "(i :: nat) < 3 \<Longrightarrow> i = 0 \<or> i = 1 \<or> i = 2"
  by arith

subsection \<open>Iterating a step\<close>

lemma funpow_invariant:
  assumes "I s" and "\<And>t. I t \<Longrightarrow> I (f t)"
  shows "I ((f ^^ n) s)"
  using assms by (induction n) auto

lemma fold_invariant:
  assumes "I s" and "\<And>e t. I t \<Longrightarrow> I (step e t)"
  shows "I (fold step es s)"
  using assms by (induction es arbitrary: s) auto

end
