(* ===== verification/Pit_Exact.thy ===== *)
theory Pit_Exact
  imports Prelude86
begin

text \<open>
  The pin-clocked 8253/8254 core, \<open>86box_full/src/pit_exact.c\<close> with the types of
  \<open>include/86box/pit_exact.h\<close>. One \<open>pitx_channel\<close> is the struct of the same name; its
  operations are the C functions on a \<open>pitx_channel_t *\<close>, returning the updated channel. The
  device holds the three channels as a function of the channel number; every entry point
  guards the number with \<open>channel >= 3\<close>, so no other index is ever read or written. The
  \<open>fprintf\<close> diagnostics of the source write no machine state and are left out.
\<close>

section \<open>Data\<close>

datatype pitx_type = PITX_8253 | PITX_8254

datatype pitx_state =
    PITX_WAIT_COUNT
  | PITX_WAIT_TRIGGER
  | PITX_WAIT_GATE
  | PITX_LOAD_NEXT
  | PITX_COUNTING
  | PITX_RELOAD_NEXT
  | PITX_STROBE_RECOVER
  | PITX_DONE

record pitx_channel =
  ch_type :: pitx_type
  ch_control :: u8
  mode_raw :: u8
  ch_mode :: u8
  rw_mode :: u8
  ch_bcd :: bool
  write_phase :: u8
  read_phase :: u8
  count_latched :: bool
  status_latched :: bool
  output_latch :: u16
  status_latch :: u8
  count_register :: u16
  counting_element :: u32
  null_count :: bool
  ch_gate :: bool
  ch_output :: bool
  armed :: bool
  initial_load :: bool
  incomplete_reload :: bool
  ce_undefined :: bool
  toggle_on_reload :: bool
  ch_state :: pitx_state
  clocks :: u64

record pitx_device =
  dev_type :: pitx_type
  channel :: "nat \<Rightarrow> pitx_channel"
  last_control :: u8

section \<open>Counting\<close>

definition canonical_mode :: "u8 \<Rightarrow> u8" where
  "canonical_mode raw = (let r = raw AND 7 in if 5 < r then r AND 3 else r)"

definition reload_value :: "pitx_channel \<Rightarrow> u32" where
  "reload_value c =
     (if ch_bcd c
      then (if count_register c \<noteq> 0 then ucast (count_register c) else 0x10000)
      else (if count_register c \<noteq> 0 then ucast (count_register c) else 0x10000))"

definition visible_count :: "u32 \<Rightarrow> u16" where
  "visible_count v = (if v = 0x10000 then 0 else ucast v)"

definition update_live_latch :: "pitx_channel \<Rightarrow> pitx_channel" where
  "update_live_latch c =
     (if \<not> count_latched c
      then c\<lparr>output_latch := visible_count (counting_element c)\<rparr> else c)"

definition bcd_decrement :: "u32 \<Rightarrow> u32" where
  "bcd_decrement v =
     (if v = 0 \<or> v = 0x10000 then 0x9999
      else if v AND 0x000f \<noteq> 0 then (v - 1) AND 0xffff
      else if v AND 0x00f0 \<noteq> 0 then (v - 0x0007) AND 0xffff
      else if v AND 0x0f00 \<noteq> 0 then (v - 0x0067) AND 0xffff
      else (v - 0x0667) AND 0xffff)"

definition decrement :: "pitx_channel \<Rightarrow> pitx_channel" where
  "decrement c = update_live_latch
     (c\<lparr>counting_element :=
          (if ch_bcd c then bcd_decrement (counting_element c)
           else if counting_element c = 0 then 0xffff
           else if counting_element c = 0x10000 then 0xffff
           else (counting_element c - 1) AND 0xffff)\<rparr>)"

fun decrement_n :: "nat \<Rightarrow> pitx_channel \<Rightarrow> pitx_channel" where
  "decrement_n 0 c = c"
| "decrement_n (Suc n) c = decrement_n n (decrement c)"

definition set_output :: "bool \<Rightarrow> pitx_channel \<Rightarrow> pitx_channel" where
  "set_output b c = c\<lparr>ch_output := b\<rparr>"

text \<open>
  \<open>load_counting_element\<close>: first the common part, then the switch on the mode. The source
  asserts that the mode is at most 5; \<open>pitx_ok\<close> below is invariant and makes the default
  branch unreachable, so that branch returns the channel unchanged.
\<close>

definition load_common :: "pitx_channel \<Rightarrow> pitx_channel" where
  "load_common c =
     (let load = reload_value c;
          load' = (if ch_type c = PITX_8254 \<and> ch_mode c = 3 \<and> count_register c AND 1 \<noteq> 0
                   then load AND 0xfffe else load);
          c1 = c\<lparr>counting_element := load', null_count := False, ce_undefined := False\<rparr>;
          c2 = (if rw_mode c1 = 3 \<and> write_phase c1 = 1
                then c1\<lparr>incomplete_reload := True\<rparr> else c1)
      in update_live_latch c2)"

definition run_or_wait :: "pitx_channel \<Rightarrow> pitx_channel" where
  "run_or_wait c = c\<lparr>ch_state := (if ch_gate c then PITX_COUNTING else PITX_WAIT_GATE)\<rparr>"

definition load_counting_element :: "pitx_channel \<Rightarrow> pitx_channel" where
  "load_counting_element c0 =
     (let c = load_common c0 in
      if ch_mode c = 0 then (set_output False c)\<lparr>ch_state := PITX_COUNTING\<rparr>
      else if ch_mode c = 1 then (set_output False c)\<lparr>ch_state := PITX_COUNTING\<rparr>
      else if ch_mode c = 2 then run_or_wait (set_output True c)
      else if ch_mode c = 3 then
        run_or_wait
          (if toggle_on_reload c
           then (set_output (\<not> ch_output c) c)\<lparr>toggle_on_reload := False\<rparr>
           else if ch_state c \<noteq> PITX_RELOAD_NEXT then set_output True c
           else c)
      else if ch_mode c = 4 then (set_output True c)\<lparr>ch_state := PITX_COUNTING\<rparr>
      else if ch_mode c = 5 then (set_output True c)\<lparr>ch_state := PITX_COUNTING\<rparr>
      else c)"

section \<open>Reset, latching and programming\<close>

definition reset_channel :: "pitx_type \<Rightarrow> pitx_channel" where
  "reset_channel ty = \<lparr>ch_type = ty, ch_control = 0, mode_raw = 0, ch_mode = 0, rw_mode = 1,
     ch_bcd = False, write_phase = 0, read_phase = 0, count_latched = False,
     status_latched = False, output_latch = 0, status_latch = 0, count_register = 0,
     counting_element = 0, null_count = True, ch_gate = False, ch_output = False,
     armed = False, initial_load = True, incomplete_reload = False, ce_undefined = False,
     toggle_on_reload = False, ch_state = PITX_WAIT_COUNT, clocks = 0\<rparr>"

definition pitx_reset :: "pitx_type \<Rightarrow> pitx_device" where
  "pitx_reset ty = \<lparr>dev_type = ty, channel = (\<lambda>_. reset_channel ty), last_control = 0\<rparr>"

definition pitx_init :: "pitx_type \<Rightarrow> pitx_device" where
  "pitx_init ty = pitx_reset ty"

definition latch_count :: "pitx_channel \<Rightarrow> pitx_channel" where
  "latch_count c =
     (if count_latched c then c
      else c\<lparr>output_latch := visible_count (counting_element c), count_latched := True,
             read_phase := 0\<rparr>)"

definition latch_status :: "pitx_channel \<Rightarrow> pitx_channel" where
  "latch_status c =
     (if status_latched c then c
      else c\<lparr>status_latch := (if ch_output c then 0x80 else 0) OR
               (if null_count c then 0x40 else 0) OR (ch_control c AND 0x3f),
             status_latched := True\<rparr>)"

definition program_mode :: "u8 \<Rightarrow> pitx_channel \<Rightarrow> pitx_channel" where
  "program_mode control c =
     (let raw = drop_bit 1 control AND 7; m = canonical_mode raw in
      set_output (m \<noteq> 0)
        (c\<lparr>ch_control := control, mode_raw := raw, ch_mode := m,
           rw_mode := drop_bit 4 control AND 3, ch_bcd := (control AND 1 \<noteq> 0),
           write_phase := 0, read_phase := 0, count_latched := False, status_latched := False,
           null_count := True, armed := False, initial_load := True, incomplete_reload := False,
           ce_undefined := True, toggle_on_reload := False, ch_state := PITX_WAIT_COUNT\<rparr>))"

text \<open>One counter of an 8254 read-back command; D5 and D4 are active low.\<close>

definition read_back :: "u8 \<Rightarrow> nat \<Rightarrow> pitx_channel \<Rightarrow> pitx_channel" where
  "read_back v i c =
     (if v AND push_bit i 2 = 0 then c
      else let c1 = (if v AND 0x20 = 0 then latch_count c else c)
           in if v AND 0x10 = 0 then latch_status c1 else c1)"

definition upd_channel ::
    "nat \<Rightarrow> (pitx_channel \<Rightarrow> pitx_channel) \<Rightarrow> pitx_device \<Rightarrow> pitx_device" where
  "upd_channel i f p = p\<lparr>channel := (channel p)(i := f (channel p i))\<rparr>"

definition pitx_control_write :: "u8 \<Rightarrow> pitx_device \<Rightarrow> pitx_device" where
  "pitx_control_write v p0 =
     (let select = unat (drop_bit 6 v); p = p0\<lparr>last_control := v\<rparr> in
      if select = 3 then
        (if dev_type p \<noteq> PITX_8254 then p
         else fold (\<lambda>i. upd_channel i (read_back v i)) [0, 1, 2] p)
      else if v AND 0x30 = 0 then upd_channel select latch_count p
      else upd_channel select (program_mode v) p)"

definition finalize_write :: "pitx_channel \<Rightarrow> pitx_channel" where
  "finalize_write c0 =
     (let c1 = (if count_register c0 = 1 then
                  (if ch_mode c0 = 2 then c0\<lparr>count_register := 2\<rparr>
                   else if ch_mode c0 = 3 then c0\<lparr>count_register := 0\<rparr> else c0)
                else c0);
          c = c1\<lparr>null_count := True, armed := True\<rparr>
      in if initial_load c then
           c\<lparr>initial_load := False,
             ch_state := (if ch_mode c = 1 \<or> ch_mode c = 5 then PITX_WAIT_TRIGGER
                          else PITX_LOAD_NEXT)\<rparr>
         else (if incomplete_reload c \<or> ch_mode c = 0 \<or> ch_mode c = 4
               then c\<lparr>ch_state := PITX_LOAD_NEXT\<rparr> else c)\<lparr>incomplete_reload := False\<rparr>)"

definition channel_data_write :: "u8 \<Rightarrow> pitx_channel \<Rightarrow> pitx_channel" where
  "channel_data_write v c =
     (if rw_mode c = 1 then finalize_write (c\<lparr>count_register := ucast v\<rparr>)
      else if rw_mode c = 2 then
        finalize_write (c\<lparr>count_register := push_bit 8 (ucast v)\<rparr>)
      else if rw_mode c = 3 then
        (if write_phase c = 0 then
           (let c1 = c\<lparr>count_register := set_lo8 (count_register c) v, write_phase := 1\<rparr>
            in if ch_mode c1 = 0 then set_output False (c1\<lparr>ch_state := PITX_WAIT_COUNT\<rparr>)
               else c1)
         else finalize_write
                (c\<lparr>count_register := set_hi8 (count_register c) v, write_phase := 0\<rparr>))
      else c)"

definition pitx_data_write :: "nat \<Rightarrow> u8 \<Rightarrow> pitx_device \<Rightarrow> pitx_device" where
  "pitx_data_write i v p = (if 3 \<le> i then p else upd_channel i (channel_data_write v) p)"

definition channel_data_read :: "pitx_channel \<Rightarrow> u8 \<times> pitx_channel" where
  "channel_data_read c =
     (if status_latched c then (status_latch c, c\<lparr>status_latched := False\<rparr>)
      else
        let v = (if count_latched c then output_latch c else visible_count (counting_element c))
        in if \<not> count_latched c \<and> rw_mode c = 3 \<and> write_phase c = 1
           then (ucast (NOT (count_register c AND 0xff)), c)
           else if rw_mode c = 1 then (lo8 v, c\<lparr>count_latched := False\<rparr>)
           else if rw_mode c = 2 then (hi8 v, c\<lparr>count_latched := False\<rparr>)
           else if rw_mode c = 3 then
             (if read_phase c = 0 then (lo8 v, c\<lparr>read_phase := 1\<rparr>)
              else (hi8 v, c\<lparr>read_phase := 0, count_latched := False\<rparr>))
           else (0, c))"

definition pitx_data_read :: "nat \<Rightarrow> pitx_device \<Rightarrow> u8 \<times> pitx_device" where
  "pitx_data_read i p =
     (if 3 \<le> i then (0xff, p)
      else let (v, c) = channel_data_read (channel p i) in (v, upd_channel i (\<lambda>_. c) p))"

section \<open>The GATE pin and the clock\<close>

definition channel_set_gate :: "bool \<Rightarrow> pitx_channel \<Rightarrow> pitx_channel" where
  "channel_set_gate g c0 =
     (let old = ch_gate c0; c = c0\<lparr>ch_gate := g\<rparr> in
      if \<not> old \<and> g then
        (if ch_mode c = 1 \<or> ch_mode c = 5 then
           (if ch_state c \<noteq> PITX_WAIT_COUNT
            then c\<lparr>armed := True, ch_state := PITX_LOAD_NEXT\<rparr> else c)
         else if ch_mode c = 2 \<or> ch_mode c = 3 then
           (if ch_state c \<noteq> PITX_WAIT_COUNT then c\<lparr>ch_state := PITX_LOAD_NEXT\<rparr> else c)
         else c)
      else if old \<and> \<not> g then
        (if ch_mode c = 2 \<or> ch_mode c = 3 then
           (let c1 = set_output True c
            in if ch_state c1 \<noteq> PITX_WAIT_COUNT then c1\<lparr>ch_state := PITX_WAIT_GATE\<rparr> else c1)
         else c)
      else c)"

definition pitx_set_gate :: "nat \<Rightarrow> bool \<Rightarrow> pitx_device \<Rightarrow> pitx_device" where
  "pitx_set_gate i g p = (if 3 \<le> i then p else upd_channel i (channel_set_gate g) p)"

definition count_mode3 :: "pitx_channel \<Rightarrow> pitx_channel" where
  "count_mode3 c =
     (let odd = count_register c AND 1 \<noteq> 0 in
      if odd \<and> ch_type c = PITX_8254 then
        (let c1 = decrement_n 2 c in
         if visible_count (counting_element c1) = 0 then
           (if ch_output c1
            then c1\<lparr>toggle_on_reload := True, ch_state := PITX_RELOAD_NEXT\<rparr>
            else update_live_latch
                   ((set_output True c1)\<lparr>counting_element := reload_value c1 AND 0xfffe\<rparr>))
         else c1)
      else
        (let c1 = (if odd \<and> counting_element c AND 1 \<noteq> 0
                   then decrement_n (if ch_output c then 1 else 3) c
                   else decrement_n 2 c) in
         if visible_count (counting_element c1) = 0 then
           (let c2 = set_output (\<not> ch_output c1) c1
            in update_live_latch (c2\<lparr>counting_element := reload_value c2\<rparr>))
         else c1))"

text \<open>The switch on the mode at the end of \<open>pitx_tick_channel\<close>, for a counting channel.\<close>

definition count_step :: "pitx_channel \<Rightarrow> pitx_channel" where
  "count_step c =
     (if ch_mode c = 0 then
        (if ch_gate c then
           (let c1 = decrement c
            in if visible_count (counting_element c1) = 0 then set_output True c1 else c1)
         else c)
      else if ch_mode c = 1 then
        (let c1 = decrement c
         in if visible_count (counting_element c1) = 0
            then (if armed c1 then set_output True c1 else c1)\<lparr>armed := False\<rparr>
            else c1)
      else if ch_mode c = 2 then
        (if ch_gate c then
           (let c1 = decrement c
            in if visible_count (counting_element c1) = 1
               then (set_output False c1)\<lparr>ch_state := PITX_RELOAD_NEXT\<rparr> else c1)
         else c)
      else if ch_mode c = 3 then (if ch_gate c then count_mode3 c else c)
      else if ch_mode c = 4 then
        (if ch_gate c then
           (let c1 = decrement c
            in if visible_count (counting_element c1) = 0
               then (set_output False c1)\<lparr>ch_state := PITX_STROBE_RECOVER\<rparr> else c1)
         else c)
      else if ch_mode c = 5 then
        (let c1 = decrement c
         in if visible_count (counting_element c1) = 0
            then (set_output False c1)\<lparr>armed := False, ch_state := PITX_STROBE_RECOVER\<rparr>
            else c1)
      else c)"

definition tick_channel :: "pitx_channel \<Rightarrow> pitx_channel" where
  "tick_channel c0 =
     (let c = c0\<lparr>clocks := clocks c0 + 1\<rparr> in
      case ch_state c of
        PITX_LOAD_NEXT \<Rightarrow> load_counting_element c
      | PITX_RELOAD_NEXT \<Rightarrow> load_counting_element c
      | PITX_STROBE_RECOVER \<Rightarrow> (set_output True c)\<lparr>ch_state := PITX_COUNTING\<rparr>
      | PITX_WAIT_TRIGGER \<Rightarrow>
          (if ce_undefined c \<and> armed c
           then update_live_latch (c\<lparr>counting_element := 3\<rparr>) else c)
      | PITX_WAIT_COUNT \<Rightarrow> c
      | PITX_WAIT_GATE \<Rightarrow> c
      | PITX_DONE \<Rightarrow> c
      | PITX_COUNTING \<Rightarrow> count_step c)"

definition pitx_tick_channel :: "nat \<Rightarrow> pitx_device \<Rightarrow> pitx_device" where
  "pitx_tick_channel i p = (if 3 \<le> i then p else upd_channel i tick_channel p)"

definition pitx_tick :: "pitx_device \<Rightarrow> pitx_device" where
  "pitx_tick p = fold pitx_tick_channel [0, 1, 2] p"

definition pitx_get_count :: "nat \<Rightarrow> pitx_device \<Rightarrow> u16" where
  "pitx_get_count i p = (if 3 \<le> i then 0 else visible_count (counting_element (channel p i)))"

definition pitx_get_output :: "nat \<Rightarrow> pitx_device \<Rightarrow> bool" where
  "pitx_get_output i p = (i < 3 \<and> ch_output (channel p i))"

section \<open>Counting on natural numbers\<close>

lemma update_live_latch_eq [simp]:
  "update_live_latch c =
     c\<lparr>output_latch := (if count_latched c then output_latch c
                        else visible_count (counting_element c))\<rparr>"
  by (simp add: update_live_latch_def)

lemma and_ffff: "w AND 0xffff = take_bit 16 (w :: u32)"
  by (simp add: take_bit_eq_mask mask_eq_exp_minus_1)

definition bin_dec :: "u32 \<Rightarrow> u32" where
  "bin_dec v = (if v = 0 \<or> v = 0x10000 then 0xffff else (v - 1) AND 0xffff)"

lemma decrement_eq:
  "decrement c =
     (let v = (if ch_bcd c then bcd_decrement (counting_element c)
               else bin_dec (counting_element c))
      in c\<lparr>counting_element := v,
           output_latch := (if count_latched c then output_latch c else visible_count v)\<rparr>)"
  by (simp add: decrement_def bin_dec_def Let_def)

lemma unat_bin_dec: "0 < unat v \<Longrightarrow> unat v \<le> 0x10000 \<Longrightarrow> unat (bin_dec v) = unat v - 1"
proof -
  assume a: "0 < unat v" "unat v \<le> 0x10000"
  show ?thesis
  proof (cases "v = 0x10000")
    case True then show ?thesis by (simp add: bin_dec_def)
  next
    case False
    then have l: "unat v < 0x10000"
      using a(2) by (simp add: word_unat_eq_iff)
    have "v \<noteq> 0" using a by auto
    then have "unat (v - 1) = unat v - 1" by (rule unat_minus_one)
    moreover have "unat (take_bit 16 (v - 1)) = take_bit 16 (unat (v - 1))"
      by (simp add: unsigned_take_bit_eq)
    ultimately show ?thesis using l False \<open>v \<noteq> 0\<close>
      by (simp add: bin_dec_def and_ffff take_bit_eq_mod)
  qed
qed

lemma unat_bin_dec_zero: "unat v = 0 \<Longrightarrow> unat (bin_dec v) = 0xffff"
  by (simp add: bin_dec_def unat_eq_0)

lemma unat_visible: "unat v \<le> 0x10000 \<Longrightarrow> unat (visible_count v) = unat v mod 0x10000"
  by (simp add: visible_count_def unsigned_ucast_eq take_bit_eq_mod)

lemma visible_zero_iff:
  "unat v \<le> 0x10000 \<Longrightarrow> visible_count v = 0 \<longleftrightarrow> unat v = 0 \<or> unat v = 0x10000"
  by (simp add: word_unat_eq_iff unat_visible mod_eq_0_iff_dvd) (auto simp: dvd_def)

lemma visible_one_iff: "unat v \<le> 0x10000 \<Longrightarrow> visible_count v = 1 \<longleftrightarrow> unat v = 1"
  by (simp add: word_unat_eq_iff unat_visible) (auto simp: le_less)


lemma unat_and_ffff: "unat (v AND 0xffff :: u32) < 0x10000"
  by (simp only: and_ffff unsigned_take_bit_eq) (simp add: take_bit_eq_mod)

lemma unat_u16 [simp]: "unat (w :: u16) < 0x10000" "unat w \<le> 0x10000"
  using unsigned_less [of w] by (auto intro: less_imp_le)

lemma unat_bcd_decrement_le: "unat (bcd_decrement v) \<le> 0x10000"
  using unat_and_ffff by (auto simp: bcd_decrement_def less_imp_le)

lemma unat_bin_dec_le: "unat (bin_dec v) \<le> 0x10000"
  using unat_and_ffff by (auto simp: bin_dec_def less_imp_le)

lemma reload_value_eq:
  "reload_value c = (if count_register c = 0 then 0x10000 else ucast (count_register c))"
  by (simp add: reload_value_def)

lemma unat_reload_value:
  "unat (reload_value c) =
     (if count_register c = 0 then 0x10000 else unat (count_register c))"
  using unat_u16(1) [of "count_register c"]
  by (simp add: reload_value_eq unsigned_ucast_eq take_bit_eq_mod del: unat_u16)

lemma unat_reload_value_bounds: "0 < unat (reload_value c)" "unat (reload_value c) \<le> 0x10000"
  by (auto simp: unat_reload_value unat_gt_0)


section \<open>The channel invariant\<close>

text \<open>The programmed registers: decoded mode and access mode, byte phases.\<close>

definition regs_ok :: "pitx_channel \<Rightarrow> bool" where
  "regs_ok c \<longleftrightarrow>
     ch_mode c \<le> 5 \<and> rw_mode c \<le> 3 \<and>
     (write_phase c = 0 \<or> write_phase c = 1 \<and> rw_mode c = 3) \<and>
     (read_phase c = 0 \<or> read_phase c = 1 \<and> rw_mode c = 3)"

definition ce_ok :: "pitx_channel \<Rightarrow> bool" where
  "ce_ok c \<longleftrightarrow> unat (counting_element c) \<le> 0x10000"

text \<open>Which states a mode can be in, and what GATE is then.\<close>

fun state_ok :: "pitx_state \<Rightarrow> u8 \<Rightarrow> bool \<Rightarrow> bool" where
  "state_ok PITX_WAIT_COUNT m g = True"
| "state_ok PITX_LOAD_NEXT m g = True"
| "state_ok PITX_COUNTING m g = (m = 2 \<or> m = 3 \<longrightarrow> g)"
| "state_ok PITX_RELOAD_NEXT m g = ((m = 2 \<or> m = 3) \<and> g)"
| "state_ok PITX_WAIT_GATE m g = (m = 2 \<or> m = 3)"
| "state_ok PITX_WAIT_TRIGGER m g = (m = 1 \<or> m = 5)"
| "state_ok PITX_STROBE_RECOVER m g = (m = 4 \<or> m = 5)"
| "state_ok PITX_DONE m g = False"

definition fsm_ok :: "pitx_channel \<Rightarrow> bool" where
  "fsm_ok c \<longleftrightarrow> state_ok (ch_state c) (ch_mode c) (ch_gate c)"

definition pitx_ok :: "pitx_channel \<Rightarrow> bool" where
  "pitx_ok c \<longleftrightarrow> regs_ok c \<and> ce_ok c \<and> fsm_ok c"

lemma mode_cases: "(m :: u8) \<le> 5 \<Longrightarrow> m = 0 \<or> m = 1 \<or> m = 2 \<or> m = 3 \<or> m = 4 \<or> m = 5"
  by (simp add: word_le_nat_alt word_unat_eq_iff) arith

lemma decrement_n_eq2: "decrement_n 2 c = decrement (decrement c)" "decrement_n 1 c = decrement c"
 "decrement_n 3 c = decrement (decrement (decrement c))"
  by (simp_all add: numeral_eq_Suc)

lemma canonical_mode_le: "canonical_mode raw \<le> 5"
proof -
  have "(raw AND 7) AND 3 \<le> 5"
    by (rule order_trans [OF word_and_le1]) simp
  then show ?thesis
    by (simp add: canonical_mode_def Let_def not_less)
qed

lemma set_output_sel [simp]:
  "ch_mode (set_output b c) = ch_mode c" "ch_state (set_output b c) = ch_state c"
  "ch_gate (set_output b c) = ch_gate c" "counting_element (set_output b c) = counting_element c"
  "ch_output (set_output b c) = b" "rw_mode (set_output b c) = rw_mode c"
  "write_phase (set_output b c) = write_phase c" "read_phase (set_output b c) = read_phase c"
  "regs_ok (set_output b c) = regs_ok c" "ce_ok (set_output b c) = ce_ok c" "fsm_ok (set_output b c) = fsm_ok c"
  by (simp_all add: set_output_def regs_ok_def ce_ok_def fsm_ok_def)

lemma regs_ok_frame [simp]:
  "regs_ok (c\<lparr>ch_state := s\<rparr>) = regs_ok c" "regs_ok (c\<lparr>ch_output := b\<rparr>) = regs_ok c"
  "regs_ok (c\<lparr>counting_element := v\<rparr>) = regs_ok c" "regs_ok (c\<lparr>output_latch := w\<rparr>) = regs_ok c"
  "regs_ok (c\<lparr>armed := b\<rparr>) = regs_ok c" "regs_ok (c\<lparr>count_register := w\<rparr>) = regs_ok c"
  "regs_ok (c\<lparr>toggle_on_reload := b\<rparr>) = regs_ok c" "regs_ok (c\<lparr>null_count := b\<rparr>) = regs_ok c"
  "regs_ok (c\<lparr>initial_load := b\<rparr>) = regs_ok c" "regs_ok (c\<lparr>incomplete_reload := b\<rparr>) = regs_ok c"
  "regs_ok (c\<lparr>ce_undefined := b\<rparr>) = regs_ok c" "regs_ok (c\<lparr>ch_gate := b\<rparr>) = regs_ok c"
  "regs_ok (c\<lparr>clocks := u\<rparr>) = regs_ok c" "regs_ok (c\<lparr>count_latched := b\<rparr>) = regs_ok c"
  "regs_ok (c\<lparr>status_latched := b\<rparr>) = regs_ok c" "regs_ok (c\<lparr>status_latch := x\<rparr>) = regs_ok c"
  by (simp_all add: regs_ok_def)

lemma ce_ok_frame [simp]:
  "ce_ok (c\<lparr>ch_state := s\<rparr>) = ce_ok c" "ce_ok (c\<lparr>ch_output := b\<rparr>) = ce_ok c"
  "ce_ok (c\<lparr>output_latch := w\<rparr>) = ce_ok c" "ce_ok (c\<lparr>write_phase := x\<rparr>) = ce_ok c"
  "ce_ok (c\<lparr>armed := b\<rparr>) = ce_ok c" "ce_ok (c\<lparr>count_register := w\<rparr>) = ce_ok c"
  "ce_ok (c\<lparr>toggle_on_reload := b\<rparr>) = ce_ok c" "ce_ok (c\<lparr>null_count := b\<rparr>) = ce_ok c"
  "ce_ok (c\<lparr>initial_load := b\<rparr>) = ce_ok c" "ce_ok (c\<lparr>incomplete_reload := b\<rparr>) = ce_ok c"
  "ce_ok (c\<lparr>ce_undefined := b\<rparr>) = ce_ok c" "ce_ok (c\<lparr>ch_gate := b\<rparr>) = ce_ok c"
  "ce_ok (c\<lparr>clocks := u\<rparr>) = ce_ok c" "ce_ok (c\<lparr>count_latched := b\<rparr>) = ce_ok c"
  "ce_ok (c\<lparr>status_latched := b\<rparr>) = ce_ok c" "ce_ok (c\<lparr>status_latch := x\<rparr>) = ce_ok c"
  "ce_ok (c\<lparr>read_phase := x\<rparr>) = ce_ok c" "ce_ok (c\<lparr>counting_element := v\<rparr>) = (unat v \<le> 0x10000)"
  by (simp_all add: ce_ok_def)

lemma fsm_ok_frame [simp]:
  "fsm_ok (c\<lparr>ch_output := b\<rparr>) = fsm_ok c" "fsm_ok (c\<lparr>counting_element := v\<rparr>) = fsm_ok c"
  "fsm_ok (c\<lparr>output_latch := w\<rparr>) = fsm_ok c" "fsm_ok (c\<lparr>write_phase := x\<rparr>) = fsm_ok c"
  "fsm_ok (c\<lparr>armed := b\<rparr>) = fsm_ok c" "fsm_ok (c\<lparr>count_register := w\<rparr>) = fsm_ok c"
  "fsm_ok (c\<lparr>toggle_on_reload := b\<rparr>) = fsm_ok c" "fsm_ok (c\<lparr>null_count := b\<rparr>) = fsm_ok c"
  "fsm_ok (c\<lparr>initial_load := b\<rparr>) = fsm_ok c" "fsm_ok (c\<lparr>incomplete_reload := b\<rparr>) = fsm_ok c"
  "fsm_ok (c\<lparr>ce_undefined := b\<rparr>) = fsm_ok c" "fsm_ok (c\<lparr>clocks := u\<rparr>) = fsm_ok c"
  "fsm_ok (c\<lparr>count_latched := b\<rparr>) = fsm_ok c" "fsm_ok (c\<lparr>read_phase := x\<rparr>) = fsm_ok c"
  "fsm_ok (c\<lparr>status_latched := b\<rparr>) = fsm_ok c" "fsm_ok (c\<lparr>status_latch := x\<rparr>) = fsm_ok c"
  by (simp_all add: fsm_ok_def)

lemma reset_channel_ok: "pitx_ok (reset_channel ty)"
  by (simp add: pitx_ok_def regs_ok_def ce_ok_def fsm_ok_def reset_channel_def)

lemma latch_count_ok: "pitx_ok c \<Longrightarrow> pitx_ok (latch_count c)"
  by (auto simp add: pitx_ok_def latch_count_def regs_ok_def)

lemma latch_status_ok: "pitx_ok c \<Longrightarrow> pitx_ok (latch_status c)"
  by (simp add: pitx_ok_def latch_status_def)

lemma program_mode_ok: "pitx_ok c \<Longrightarrow> pitx_ok (program_mode v c)"
  by (simp add: pitx_ok_def program_mode_def Let_def regs_ok_def ce_ok_def fsm_ok_def canonical_mode_le word_and_le1)

lemma read_back_ok: "pitx_ok c \<Longrightarrow> pitx_ok (read_back v i c)"
  by (simp add: read_back_def Let_def latch_count_ok latch_status_ok)

lemma finalize_write_ok: "pitx_ok c \<Longrightarrow> pitx_ok (finalize_write c)"
  by (simp add: finalize_write_def Let_def pitx_ok_def) (simp add: fsm_ok_def)

lemma channel_data_write_ok:
  assumes "pitx_ok c" shows "pitx_ok (channel_data_write v c)"
proof -
  have lo: "pitx_ok (c\<lparr>count_register := w, write_phase := 1\<rparr>)" if "rw_mode c = 3" for w
    using assms that by (simp add: pitx_ok_def) (simp add: regs_ok_def)
  have hi: "pitx_ok (c\<lparr>count_register := w, write_phase := 0\<rparr>)" for w
    using assms by (simp add: pitx_ok_def) (simp add: regs_ok_def)
  have stop: "pitx_ok (set_output False (d\<lparr>ch_state := PITX_WAIT_COUNT\<rparr>))" if "pitx_ok d" for d
    using that by (simp add: pitx_ok_def fsm_ok_def)
  have byte: "pitx_ok (c\<lparr>count_register := w\<rparr>)" for w
    using assms by (simp add: pitx_ok_def)
  show ?thesis
    using assms by (simp add: channel_data_write_def Let_def finalize_write_ok lo hi byte stop)
qed

lemma channel_data_read_ok: "pitx_ok c \<Longrightarrow> pitx_ok (snd (channel_data_read c))"
  by (auto simp: channel_data_read_def Let_def pitx_ok_def) (simp_all add: regs_ok_def)

lemma channel_set_gate_ok: "pitx_ok c \<Longrightarrow> pitx_ok (channel_set_gate g c)"
  by (simp add: channel_set_gate_def Let_def pitx_ok_def) (auto simp: fsm_ok_def elim!: state_ok.elims)

lemma unat_and_fffe: "unat v \<le> 0x10000 \<Longrightarrow> unat (v AND 0xfffe :: u32) \<le> 0x10000"
  using word_and_le1 [of v "0xfffe"] by (simp add: word_le_nat_alt)

lemma decrement_ok [simp]: "regs_ok (decrement c) = regs_ok c" "ce_ok (decrement c)"
   "fsm_ok (decrement c) = fsm_ok c" "ch_mode (decrement c) = ch_mode c" "ch_state (decrement c) = ch_state c"
  "ch_gate (decrement c) = ch_gate c"
  by (simp_all add: decrement_eq Let_def unat_bin_dec_le unat_bcd_decrement_le)

lemma reload_ce_ok [simp]: "unat (reload_value c) \<le> 0x10000" "unat (reload_value c AND 0xfffe) \<le> 0x10000"
  by (simp_all add: unat_and_fffe unat_reload_value_bounds)

lemma load_common_ok [simp]:
  "regs_ok (load_common c) = regs_ok c" "ce_ok (load_common c)" "fsm_ok (load_common c) = fsm_ok c"
  "ch_mode (load_common c) = ch_mode c" "ch_state (load_common c) = ch_state c"
  "ch_gate (load_common c) = ch_gate c"
  by (simp_all add: load_common_def Let_def)

lemma load_counting_element_ok: "regs_ok c \<Longrightarrow> pitx_ok (load_counting_element c)"
  using mode_cases [of "ch_mode c"]
  by (auto simp: load_counting_element_def Let_def pitx_ok_def run_or_wait_def regs_ok_def [of c] fsm_ok_def)

lemma count_mode3_ok:
  "pitx_ok c \<Longrightarrow> ch_mode c = 3 \<Longrightarrow> ch_gate c \<Longrightarrow> pitx_ok (count_mode3 c)"
  by (simp add: count_mode3_def Let_def pitx_ok_def decrement_n_eq2) (simp add: fsm_ok_def)

lemma count_step_ok: "pitx_ok c \<Longrightarrow> ch_state c = PITX_COUNTING \<Longrightarrow> pitx_ok (count_step c)"
  using count_mode3_ok [of c]
  by (simp add: count_step_def Let_def pitx_ok_def) (simp add: fsm_ok_def)

lemma tick_channel_ok: "pitx_ok c \<Longrightarrow> pitx_ok (tick_channel c)"
  using load_counting_element_ok [of "c\<lparr>clocks := clocks c + 1\<rparr>"]
    count_step_ok [of "c\<lparr>clocks := clocks c + 1\<rparr>"]
  by (cases "ch_state c") (auto simp: tick_channel_def Let_def pitx_ok_def fsm_ok_def)

end
