(* ===== verification/Pit_Timing.thy ===== *)
theory Pit_Timing
  imports Pit_Exact
begin

text \<open>
  What the counters of \<open>Pit_Exact\<close> do over time. The wave forms of the periodic modes 2 and 3
  are phase cycles: a predicate that says which clock of its period a channel is in, advanced by
  every clock, and a pattern that gives OUT for each phase. The one-shot and strobe modes 0, 1,
  4 and 5 follow a position that only grows. Then the byte protocols of the data port: count
  writes, the count latch, and BCD counting.
\<close>

section \<open>Phase cycles\<close>

locale phase_cycle =
  fixes step :: "'s \<Rightarrow> 's"
    and out :: "'s \<Rightarrow> bool"
    and at :: "nat \<Rightarrow> 's \<Rightarrow> bool"
    and period :: nat
    and pat :: "nat \<Rightarrow> bool"
  assumes at_lt: "at j s \<Longrightarrow> j < period"
    and at_step: "at j s \<Longrightarrow> at (Suc j mod period) (step s)"
    and at_out: "at j s \<Longrightarrow> out s = pat j"
begin

lemma at_steps: "at j s \<Longrightarrow> at ((j + k) mod period) ((step ^^ k) s)"
proof (induction k)
  case 0
  then show ?case using at_lt by simp
next
  case (Suc k)
  from at_step [OF Suc.IH [OF Suc.prems]] show ?case by (simp add: mod_Suc_eq)
qed

lemma out_steps: "at j s \<Longrightarrow> out ((step ^^ k) s) = pat ((j + k) mod period)"
  using at_out [OF at_steps] .

lemma out_periodic: "at j s \<Longrightarrow> out ((step ^^ (k + period)) s) = out ((step ^^ k) s)"
  by (simp add: out_steps add.assoc [symmetric])

lemma edges_per_period:
  assumes "at 0 s"
  shows "card {k. k < period \<and> \<not> out ((step ^^ k) s) \<and> out ((step ^^ Suc k) s)} =
         card {i. i < period \<and> \<not> pat i \<and> pat (Suc i mod period)}"
proof -
  have "out ((step ^^ k) s) = pat k" if "k < period" for k
    using out_steps [OF assms, of k] that by simp
  moreover have "out ((step ^^ Suc k) s) = pat (Suc k mod period)" for k
    using out_steps [OF assms, of "Suc k"] by simp
  ultimately show ?thesis by (metis (mono_tags, lifting))
qed

end

lemma decrement_sel [simp]:
  "ch_type (decrement c) = ch_type c" "ch_bcd (decrement c) = ch_bcd c"
  "count_register (decrement c) = count_register c" "ch_output (decrement c) = ch_output c"
  "armed (decrement c) = armed c" "toggle_on_reload (decrement c) = toggle_on_reload c"
  "rw_mode (decrement c) = rw_mode c" "write_phase (decrement c) = write_phase c"
  "count_latched (decrement c) = count_latched c"
  by (simp_all add: decrement_eq Let_def)

lemma ce_decrement:
  "\<not> ch_bcd c \<Longrightarrow> counting_element (decrement c) = bin_dec (counting_element c)"
  by (simp add: decrement_eq Let_def)

lemma unat_ce_decrement:
  "\<not> ch_bcd c \<Longrightarrow> 0 < unat (counting_element c) \<Longrightarrow> unat (counting_element c) \<le> 0x10000 \<Longrightarrow>
   unat (counting_element (decrement c)) = unat (counting_element c) - 1"
  by (simp add: ce_decrement unat_bin_dec)

lemma reload_value_cong [simp]:
  "reload_value (c\<lparr>counting_element := v\<rparr>) = reload_value c"
  "reload_value (c\<lparr>ch_state := st\<rparr>) = reload_value c"
  "reload_value (c\<lparr>ch_output := b\<rparr>) = reload_value c"
  "reload_value (c\<lparr>output_latch := w\<rparr>) = reload_value c"
  "reload_value (c\<lparr>clocks := u\<rparr>) = reload_value c"
  "reload_value (c\<lparr>armed := b\<rparr>) = reload_value c"
  "reload_value (c\<lparr>toggle_on_reload := b\<rparr>) = reload_value c"
  "reload_value (c\<lparr>null_count := b\<rparr>) = reload_value c"
  "reload_value (c\<lparr>ce_undefined := b\<rparr>) = reload_value c"
  "reload_value (c\<lparr>incomplete_reload := b\<rparr>) = reload_value c"
  "reload_value (decrement c) = reload_value c"
  by (simp_all add: reload_value_eq)

lemma load_common_sel [simp]:
  "ch_type (load_common c) = ch_type c" "ch_bcd (load_common c) = ch_bcd c"
  "count_register (load_common c) = count_register c" "ch_output (load_common c) = ch_output c"
  "armed (load_common c) = armed c" "toggle_on_reload (load_common c) = toggle_on_reload c"
  "reload_value (load_common c) = reload_value c"
  "counting_element (load_common c) =
     (if ch_type c = PITX_8254 \<and> ch_mode c = 3 \<and> count_register c AND 1 \<noteq> 0
      then reload_value c AND 0xfffe else reload_value c)"
  by (auto simp add: load_common_def Let_def reload_value_eq)

section \<open>Mode 2: the rate generator\<close>

text \<open>The channel is in clock \<open>j\<close> of a mode 2 period of \<open>n\<close> clocks.\<close>

definition rate_at :: "nat \<Rightarrow> nat \<Rightarrow> pitx_channel \<Rightarrow> bool" where
  "rate_at n j c \<longleftrightarrow> 2 \<le> n \<and> j < n \<and> ch_mode c = 2 \<and> ch_gate c \<and> \<not> ch_bcd c \<and>
     unat (reload_value c) = n \<and> unat (counting_element c) = n - j \<and>
     ch_output c = (Suc j \<noteq> n) \<and>
     ch_state c = (if Suc j = n then PITX_RELOAD_NEXT else PITX_COUNTING)"

lemma rate_load:
  assumes "ch_mode c = 2" "ch_gate c" "\<not> ch_bcd c" "2 \<le> unat (reload_value c)"
    and "ch_state c = PITX_LOAD_NEXT \<or> ch_state c = PITX_RELOAD_NEXT"
  shows "rate_at (unat (reload_value c)) 0 (tick_channel c)"
  using assms
  by (auto simp: rate_at_def tick_channel_def Let_def load_counting_element_def
      run_or_wait_def set_output_def)

lemma rate_step: "rate_at n j c \<Longrightarrow> rate_at n (Suc j mod n) (tick_channel c)"
proof (cases "Suc j = n")
  case True
  assume "rate_at n j c"
  then show ?thesis using True rate_load [of c] by (auto simp: rate_at_def)
next
  case False
  assume r: "rate_at n j c"
  then have n: "n \<le> 0x10000" using unat_reload_value_bounds(2) [of c] by (auto simp: rate_at_def)
  let ?c = "c\<lparr>clocks := clocks c + 1\<rparr>"
  have d: "unat (counting_element (decrement ?c)) = n - Suc j"
    using r n by (subst unat_ce_decrement) (auto simp: rate_at_def)
  then have v: "visible_count (counting_element (decrement ?c)) = 1 \<longleftrightarrow> n - Suc j = 1"
    using n by (subst visible_one_iff) auto
  show ?thesis using r False d v
    by (auto simp: rate_at_def tick_channel_def count_step_def Let_def set_output_def)
qed

interpretation rate: phase_cycle tick_channel ch_output "rate_at n" n "\<lambda>j. Suc j \<noteq> n" for n
  by unfold_locales (auto simp: rate_step, auto simp: rate_at_def)

section \<open>Mode 3: the square wave generator\<close>

lemma and_1_ne_0_iff: "(w :: 'a::len word) AND 1 \<noteq> 0 \<longleftrightarrow> odd (unat w)"
proof -
  have "w AND 1 \<noteq> 0 \<longleftrightarrow> bit w 0"
    using tst_iff_bit [of w 0] by (simp add: tst_def bitmask_def)
  also have "\<dots> \<longleftrightarrow> bit (unat w) 0" by (simp add: bit_unsigned_iff)
  finally show ?thesis by (simp add: bit_0)
qed

lemma nat_and_fffe: "x < 0x10000 \<Longrightarrow> (x AND 0xfffe :: nat) = 2 * (x div 2)"
proof -
  assume x: "x < 0x10000"
  have m: "(0xfffe :: nat) = push_bit 1 (mask 15)" by (simp add: mask_eq_exp_minus_1)
  have "x = take_bit 16 x" using x by (simp add: take_bit_eq_mod)
  then have lt: "i < 16" if "bit x i" for i using that by (metis bit_take_bit_iff)
  have "(x AND 0xfffe :: nat) = push_bit 1 (drop_bit 1 x)"
    unfolding m
    by (intro bit_eqI, simp only: bit_and_iff bit_push_bit_iff bit_mask_iff bit_drop_bit_eq comp_apply)
      (auto simp: possible_bit_def dest: lt)
  then show ?thesis by (simp add: push_bit_eq_mult drop_bit_eq_div)
qed

lemma unat_and_fffe_eq:
  "unat (w :: u32) < 0x10000 \<Longrightarrow> unat (w AND 0xfffe) = 2 * (unat w div 2)"
  by (simp add: unsigned_and_eq nat_and_fffe)

lemma odd_count_register:
  "count_register c AND 1 \<noteq> 0 \<longleftrightarrow> odd (unat (reload_value c))"
  by (auto simp: and_1_ne_0_iff unat_reload_value)

text \<open>CE at clock \<open>j\<close> of a period of \<open>n\<close>.\<close>

definition sq_high :: "nat \<Rightarrow> nat" where "sq_high n = (n + 1) div 2"

definition sq_ce :: "pitx_type \<Rightarrow> nat \<Rightarrow> nat \<Rightarrow> nat" where
  "sq_ce ty n j =
     (let h = sq_high n; i = (if j < h then j else j - h) in
      if even n then n - 2 * i
      else if ty = PITX_8254 then n - 1 - 2 * i
      else if i = 0 then n
      else if j < h then n + 1 - 2 * i else n - 1 - 2 * i)"

definition sq_at :: "nat \<Rightarrow> nat \<Rightarrow> pitx_channel \<Rightarrow> bool" where
  "sq_at n j c \<longleftrightarrow> 2 \<le> n \<and> j < n \<and> ch_mode c = 3 \<and> ch_gate c \<and> \<not> ch_bcd c \<and>
     unat (reload_value c) = n \<and> unat (counting_element c) = sq_ce (ch_type c) n j \<and>
     ch_output c = (j < sq_high n) \<and>
     (let defer = (ch_type c = PITX_8254 \<and> odd n \<and> Suc j = sq_high n)
      in toggle_on_reload c = defer \<and>
         ch_state c = (if defer then PITX_RELOAD_NEXT else PITX_COUNTING))"


lemma sq_load:
  assumes "ch_mode c = 3" "ch_gate c" "\<not> ch_bcd c" "2 \<le> unat (reload_value c)"
    and "ch_state c = PITX_LOAD_NEXT" "\<not> toggle_on_reload c"
  shows "sq_at (unat (reload_value c)) 0 (tick_channel c)"
proof -
  let ?n = "unat (reload_value c)"
  have odd_lt: "odd ?n \<Longrightarrow> ?n < 0x10000"
    using unat_reload_value_bounds(2) [of c] by (metis even_numeral le_neq_implies_less)
  have h: "0 < sq_high ?n" "Suc 0 = sq_high ?n \<longleftrightarrow> ?n = 2" using assms(4) by (auto simp: sq_high_def)
  have "unat (reload_value c AND 0xfffe) = ?n - 1" if "odd ?n"
    using odd_lt [OF that] that by (simp add: unat_and_fffe_eq)
  then show ?thesis
    using assms h
    by (auto simp: sq_at_def sq_ce_def tick_channel_def Let_def load_counting_element_def
        run_or_wait_def set_output_def odd_count_register)
qed

lemma sq_reload:
  assumes "sq_at n j c" "ch_state c = PITX_RELOAD_NEXT"
  shows "sq_at n (Suc j) (tick_channel c)"
proof -
  from assms have s: "ch_type c = PITX_8254" "odd n" "Suc j = sq_high n" "toggle_on_reload c"
     and n: "unat (reload_value c) = n" "2 \<le> n"
    by (auto simp: sq_at_def Let_def split: if_splits)
  have odd_lt: "n < 0x10000"
    using unat_reload_value_bounds(2) [of c] s n by (metis even_numeral le_neq_implies_less)
  have "unat (reload_value c AND 0xfffe) = n - 1"
    using odd_lt n s by (simp add: unat_and_fffe_eq)
  moreover have "Suc j < n" using s(2) n(2) unfolding s(3) sq_high_def by presburger
  ultimately show ?thesis
    using assms s n
    by (auto simp: sq_at_def sq_ce_def tick_channel_def Let_def load_counting_element_def
        run_or_wait_def set_output_def odd_count_register)
qed

lemma unat_ce_decrement2:
  assumes "\<not> ch_bcd c" "2 \<le> unat (counting_element c)" "unat (counting_element c) \<le> 0x10000"
  shows "unat (counting_element (decrement (decrement c))) = unat (counting_element c) - 2"
  using assms by (simp add: unat_ce_decrement)

lemma unat_ce_decrement3:
  assumes "\<not> ch_bcd c" "3 \<le> unat (counting_element c)" "unat (counting_element c) \<le> 0x10000"
  shows "unat (counting_element (decrement (decrement (decrement c)))) = unat (counting_element c) - 3"
  using assms by (simp add: unat_ce_decrement)


lemma mode3_step_8254_odd:
  assumes "ch_type c = PITX_8254" "odd (unat (reload_value c))" "\<not> ch_bcd c"
    and "2 \<le> unat (counting_element c)" "unat (counting_element c) \<le> 0x10000" "3 \<le> unat (reload_value c)"
  defines "d \<equiv> count_mode3 c" and "v \<equiv> unat (counting_element c) - 2"
  shows "unat (counting_element d) =
           (if v = 0 \<and> \<not> ch_output c then unat (reload_value c) - 1 else v)"
    and "ch_output d = (ch_output c \<or> v = 0)"
    and "toggle_on_reload d = (toggle_on_reload c \<or> v = 0 \<and> ch_output c)"
    and "ch_state d = (if v = 0 \<and> ch_output c then PITX_RELOAD_NEXT else ch_state c)"
    and "ch_type d = ch_type c" "ch_mode d = ch_mode c" "ch_gate d = ch_gate c"
        "ch_bcd d = ch_bcd c" "reload_value d = reload_value c"
proof -
  have u: "unat (counting_element (decrement (decrement c))) = v"
    using unat_ce_decrement2 [of c] assms by simp
  have vz: "visible_count (counting_element (decrement (decrement c))) = 0 \<longleftrightarrow> v = 0"
    using u assms(5) by (subst visible_zero_iff) (auto simp: v_def)
  have "unat (reload_value c) < 0x10000"
    using unat_reload_value_bounds(2) [of c] assms(2) by (metis even_numeral le_neq_implies_less)
  then have f: "unat (reload_value c AND 0xfffe) = unat (reload_value c) - 1"
    using assms(2) by (simp add: unat_and_fffe_eq)
  note simps = d_def count_mode3_def Let_def odd_count_register assms(1,2) decrement_n_eq2 vz
    set_output_def u f
  show "unat (counting_element d) =
           (if v = 0 \<and> \<not> ch_output c then unat (reload_value c) - 1 else v)"
    by (simp add: simps)
  show "ch_output d = (ch_output c \<or> v = 0)" by (simp add: simps)
  show "toggle_on_reload d = (toggle_on_reload c \<or> v = 0 \<and> ch_output c)" by (simp add: simps)
  show "ch_state d = (if v = 0 \<and> ch_output c then PITX_RELOAD_NEXT else ch_state c)"
    by (simp add: simps)
  show "ch_type d = ch_type c" "ch_mode d = ch_mode c" "ch_gate d = ch_gate c"
    "ch_bcd d = ch_bcd c" "reload_value d = reload_value c"
    by (simp_all add: simps)
qed

lemma mode3_step_plain:
  assumes plain: "ch_type c = PITX_8253 \<or> even (unat (reload_value c))" and "\<not> ch_bcd c"
    and dec_def: "dec = (if odd (unat (reload_value c)) \<and> odd (unat (counting_element c))
                 then (if ch_output c then 1 else 3) else 2)"
    and le: "dec \<le> unat (counting_element c)" "unat (counting_element c) \<le> 0x10000"
  defines "d \<equiv> count_mode3 c" and "v \<equiv> unat (counting_element c) - dec"
  shows "unat (counting_element d) = (if v = 0 then unat (reload_value c) else v)"
    and "ch_output d = (if v = 0 then \<not> ch_output c else ch_output c)"
    and "toggle_on_reload d = toggle_on_reload c" and "ch_state d = ch_state c"
    and "ch_type d = ch_type c" "ch_mode d = ch_mode c" "ch_gate d = ch_gate c"
        "ch_bcd d = ch_bcd c" "reload_value d = reload_value c"
proof -
  have u: "unat (counting_element (decrement_n dec c)) = v"
    using unat_ce_decrement [of c] unat_ce_decrement2 [of c] unat_ce_decrement3 [of c] assms(2) le
    unfolding v_def dec_def by (auto simp: decrement_n_eq2 split: if_splits)
  have vz: "visible_count (counting_element (decrement_n dec c)) = 0 \<longleftrightarrow> v = 0"
    using u le by (subst visible_zero_iff) (auto simp: v_def dec_def split: if_splits)
  have np: "\<not> (count_register c AND 1 \<noteq> 0 \<and> ch_type c = PITX_8254)"
    using plain by (auto simp: odd_count_register)
  have dn: "(if count_register c AND 1 \<noteq> 0 \<and> counting_element c AND 1 \<noteq> 0
             then decrement_n (if ch_output c then 1 else 3) c else decrement_n 2 c)
            = decrement_n dec c"
    unfolding odd_count_register and_1_ne_0_iff [of "counting_element c"] by (simp add: dec_def)
  have sel: "ch_output (decrement_n k c) = ch_output c" "toggle_on_reload (decrement_n k c) = toggle_on_reload c"
     "ch_state (decrement_n k c) = ch_state c" "ch_type (decrement_n k c) = ch_type c"
     "ch_mode (decrement_n k c) = ch_mode c" "ch_gate (decrement_n k c) = ch_gate c"
     "ch_bcd (decrement_n k c) = ch_bcd c" "reload_value (decrement_n k c) = reload_value c" for k
    by (induction k arbitrary: c) simp_all
  have d: "d = (let c1 = decrement_n dec c in
         if v = 0 then
           (let c2 = set_output (\<not> ch_output c1) c1
            in update_live_latch (c2\<lparr>counting_element := reload_value c2\<rparr>))
         else c1)"
    unfolding d_def count_mode3_def Let_def if_not_P [OF np] dn vz ..
  note simps = d Let_def set_output_def sel u
  show "unat (counting_element d) = (if v = 0 then unat (reload_value c) else v)"
    by (simp add: simps)
  show "ch_output d = (if v = 0 then \<not> ch_output c else ch_output c)" by (simp add: simps)
  show "toggle_on_reload d = toggle_on_reload c" "ch_state d = ch_state c"
    "ch_type d = ch_type c" "ch_mode d = ch_mode c" "ch_gate d = ch_gate c"
    "ch_bcd d = ch_bcd c" "reload_value d = reload_value c"
    by (simp_all add: simps)
qed

lemma tick_mode3:
  "ch_state c = PITX_COUNTING \<Longrightarrow> ch_mode c = 3 \<Longrightarrow> ch_gate c \<Longrightarrow>
   tick_channel c = count_mode3 (c\<lparr>clocks := clocks c + 1\<rparr>)"
  by (simp add: tick_channel_def count_step_def Let_def)


lemma sq_ce_le: "sq_ce ty n j \<le> n"
  by (auto simp: sq_ce_def Let_def)

lemma sq_at_ce_le: "sq_at n j c \<Longrightarrow> unat (counting_element c) \<le> 0x10000"
  using unat_reload_value_bounds(2) [of c] sq_ce_le [of "ch_type c" n j]
  by (auto simp: sq_at_def)

lemma sq_atD:
  assumes "sq_at n j c"
  shows "2 \<le> n" "j < n" "ch_mode c = 3" "ch_gate c" "\<not> ch_bcd c" "unat (reload_value c) = n"
    "unat (counting_element c) = sq_ce (ch_type c) n j" "ch_output c = (j < sq_high n)"
    "unat (counting_element c) \<le> 0x10000"
  using assms sq_at_ce_le [OF assms] by (auto simp: sq_at_def)

lemma tick3_plain:
  assumes "ch_state c = PITX_COUNTING" "ch_mode c = 3" "ch_gate c"
    and "ch_type c = PITX_8253 \<or> even (unat (reload_value c))" "\<not> ch_bcd c"
    and dec: "dec = (if odd (unat (reload_value c)) \<and> odd (unat (counting_element c))
                     then (if ch_output c then 1 else 3) else 2)"
    and "dec \<le> unat (counting_element c)" "unat (counting_element c) \<le> 0x10000"
  defines "d \<equiv> tick_channel c"
  shows "unat (counting_element d) =
           (if unat (counting_element c) = dec then unat (reload_value c)
            else unat (counting_element c) - dec)"
    and "ch_output d = (if unat (counting_element c) = dec then \<not> ch_output c else ch_output c)"
    and "toggle_on_reload d = toggle_on_reload c" and "ch_state d = ch_state c"
    and "ch_type d = ch_type c" "ch_mode d = ch_mode c" "ch_gate d = ch_gate c"
        "ch_bcd d = ch_bcd c" "reload_value d = reload_value c"
proof -
  let ?c = "c\<lparr>clocks := clocks c + 1\<rparr>"
  have d: "d = count_mode3 ?c" unfolding d_def by (rule tick_mode3) fact+
  have pre: "dec = (if odd (unat (reload_value ?c)) \<and> odd (unat (counting_element ?c))
                    then (if ch_output ?c then 1 else 3) else 2)"
    by (simp add: dec)
  have z: "unat (counting_element c) - dec = 0 \<longleftrightarrow> unat (counting_element c) = dec"
    using assms(7) by linarith
  note st = mode3_step_plain [of ?c, OF _ _ pre]
  show "unat (counting_element d) =
           (if unat (counting_element c) = dec then unat (reload_value c)
            else unat (counting_element c) - dec)"
    using st(1) assms(4,5,7,8) z unfolding d by simp
  show "ch_output d = (if unat (counting_element c) = dec then \<not> ch_output c else ch_output c)"
    using st(2) assms(4,5,7,8) z unfolding d by simp
  show "toggle_on_reload d = toggle_on_reload c" "ch_state d = ch_state c"
    "ch_type d = ch_type c" "ch_mode d = ch_mode c" "ch_gate d = ch_gate c"
    "ch_bcd d = ch_bcd c" "reload_value d = reload_value c"
    using st(3-9) assms(4,5,7,8) unfolding d by simp_all
qed

lemma sq_atI:
  assumes "sq_at n j c" "j' < n" "ch_mode d = ch_mode c" "ch_gate d = ch_gate c" "ch_bcd d = ch_bcd c"
    "reload_value d = reload_value c" "ch_type d = ch_type c"
    and "unat (counting_element d) = sq_ce (ch_type c) n j'"
    and "ch_output d = (j' < sq_high n)"
    and "toggle_on_reload d = (ch_type c = PITX_8254 \<and> odd n \<and> Suc j' = sq_high n)"
    and "ch_state d = (if ch_type c = PITX_8254 \<and> odd n \<and> Suc j' = sq_high n
                       then PITX_RELOAD_NEXT else PITX_COUNTING)"
  shows "sq_at n j' d"
  using assms by (simp add: sq_at_def)

lemma sq_high_even: "sq_high (2 * m) = m" by (simp add: sq_high_def)
lemma sq_high_odd: "sq_high (2 * m + 1) = Suc m" by (simp add: sq_high_def)

lemma sq_ce_even: "sq_ce ty (2 * m) j = (if j < m then 2 * m - 2 * j else 2 * m - 2 * (j - m))"
  by (simp add: sq_ce_def Let_def sq_high_even)

lemma sq_ce_odd_8254:
  "sq_ce PITX_8254 (2 * m + 1) j = (if j < Suc m then 2 * m - 2 * j else 2 * m - 2 * (j - Suc m))"
  unfolding sq_ce_def sq_high_odd by (simp add: Let_def)

lemma sq_ce_odd_8253:
  "sq_ce PITX_8253 (2 * m + 1) j =
     (if j = 0 \<or> j = Suc m then 2 * m + 1
      else if j < Suc m then 2 * m + 2 - 2 * j else 2 * m - 2 * (j - Suc m))"
  unfolding sq_ce_def sq_high_odd by (auto simp add: Let_def)

lemma sq_step_8254_odd:
  assumes s: "sq_at n j c" and c: "ch_state c = PITX_COUNTING" "ch_type c = PITX_8254" and n: "n = 2 * m + 1"
  shows "sq_at n (Suc j mod n) (tick_channel c)"
proof -
  let ?c = "c\<lparr>clocks := clocks c + 1\<rparr>"
  note D = sq_atD [OF s, unfolded n c sq_high_odd sq_ce_odd_8254]
  have nd: "j \<noteq> m" "\<not> toggle_on_reload c"
    using s c by (auto simp: n sq_at_def Let_def sq_high_odd [simplified] split: if_splits)
  have ge: "2 \<le> unat (counting_element c)" using D(2,7) nd(1) by (auto split: if_splits)
  have "1 \<le> m" using D(1) by simp
  then have p: "odd (unat (reload_value ?c))" "2 \<le> unat (counting_element ?c)"
    "unat (counting_element ?c) \<le> 0x10000" "3 \<le> unat (reload_value ?c)"
    using D(6,9) ge by simp_all
  note st = mode3_step_8254_odd [OF _ p(1) _ p(2-4), simplified, OF c(2) D(5)]
  have eq: "tick_channel c = count_mode3 ?c" using tick_mode3 c D(3,4) by blast
  consider (high) "j < m" | (low) "m < j" "Suc j < n" | (last) "j = 2 * m"
    using D(2) nd n by linarith
  then show ?thesis
  proof cases
    case high
    then have "Suc j mod n = Suc j" using n by simp
    moreover have "sq_at n (Suc j) (tick_channel c)"
      unfolding eq using high nd D(5,7,8) c(1)
      by (intro sq_atI [OF s]) (auto simp: st n c sq_high_odd [simplified] sq_ce_odd_8254 [simplified])
    ultimately show ?thesis by simp
  next
    case low
    then have "Suc j mod n = Suc j" by simp
    moreover have "sq_at n (Suc j) (tick_channel c)"
      unfolding eq using low nd D(5,7,8) c(1)
      by (intro sq_atI [OF s]) (auto simp: st n c sq_high_odd [simplified] sq_ce_odd_8254 [simplified])
    ultimately show ?thesis by simp
  next
    case last
    then have "Suc j mod n = 0" using n by simp
    moreover have "sq_at n 0 (tick_channel c)"
      unfolding eq using last nd D(5-8) c(1) \<open>1 \<le> m\<close>
      by (intro sq_atI [OF s]) (auto simp: st n c sq_high_odd [simplified] sq_ce_odd_8254 [simplified])
    ultimately show ?thesis by simp
  qed
qed

lemma sq_step_even:
  assumes s: "sq_at n j c" and n: "n = 2 * m"
  shows "sq_at n (Suc j mod n) (tick_channel c)"
proof -
  let ?c = "c\<lparr>clocks := clocks c + 1\<rparr>"
  note D = sq_atD [OF s, unfolded n sq_high_even sq_ce_even]
  have nd: "ch_state c = PITX_COUNTING" "\<not> toggle_on_reload c" using s n by (auto simp: sq_at_def Let_def)
  have ev: "even (unat (counting_element c))" "even (unat (reload_value c))" "2 \<le> unat (counting_element c)"
    using D(2,6,7) by (auto split: if_splits)
  note st = tick3_plain [OF nd(1) D(3,4) disjI2 [OF ev(2)] D(5) _ ev(3) D(9)]
  show ?thesis
  proof (cases "Suc j = n")
    case True
    then have "sq_at n 0 (tick_channel c)"
      using D(1,6-8) nd n ev
      by (intro sq_atI [OF s]) (auto simp: st sq_high_even sq_ce_even)
    with True show ?thesis by simp
  next
    case False
    then have "Suc j < n" using D(2) n by simp
    then have "sq_at n (Suc j) (tick_channel c)"
      using D(1,6-8) nd n ev
      by (intro sq_atI [OF s]) (auto simp: st sq_high_even sq_ce_even)
    with \<open>Suc j < n\<close> show ?thesis by simp
  qed
qed

lemma sq_step_8253_odd:
  assumes s: "sq_at n j c" and n: "n = 2 * m + 1" and c: "ch_type c = PITX_8253"
  shows "sq_at n (Suc j mod n) (tick_channel c)"
proof -
  let ?c = "c\<lparr>clocks := clocks c + 1\<rparr>"
  note D = sq_atD [OF s, unfolded n c sq_high_odd sq_ce_odd_8253]
  have nd: "ch_state c = PITX_COUNTING" "\<not> toggle_on_reload c" using s c by (auto simp: sq_at_def Let_def)
  have od: "odd (unat (reload_value c)) = True" using D(6) by simp
  let ?dec = "if odd (unat (counting_element c)) then if ch_output c then 1 else 3 else (2::nat)"
  have m: "1 \<le> m" using D(1) by simp
  have le: "?dec \<le> unat (counting_element c)" using D(2,7,8) m by (auto split: if_splits)
  note st = tick3_plain [OF nd(1) D(3,4) disjI1 [OF c] D(5) _ le D(9)]
  show ?thesis
  proof (cases "Suc j = n")
    case True
    then have "sq_at n 0 (tick_channel c)"
      using D(6-8) nd n c m od
      by (intro sq_atI [OF s]) (auto simp: st c n sq_high_odd [simplified] sq_ce_odd_8253 [simplified])
    with True show ?thesis by simp
  next
    case False
    then have "Suc j < n" using D(2) n by simp
    then have "sq_at n (Suc j) (tick_channel c)"
      using D(6-8) nd n c m od
      by (intro sq_atI [OF s]) (auto simp: st c n sq_high_odd [simplified] sq_ce_odd_8253 [simplified])
    with \<open>Suc j < n\<close> show ?thesis by simp
  qed
qed

lemma sq_step: "sq_at n j c \<Longrightarrow> sq_at n (Suc j mod n) (tick_channel c)"
proof (cases "ch_state c = PITX_COUNTING")
  case True
  assume a: "sq_at n j c"
  show ?thesis
  proof (cases "even n")
    case True
    then show ?thesis using sq_step_even [OF a] by (elim evenE) blast
  next
    case False
    then obtain m where "n = 2 * m + 1" by (elim oddE)
    then show ?thesis using sq_step_8254_odd [OF a True] sq_step_8253_odd [OF a] by (cases "ch_type c") blast+
  qed
next
  case False
  assume a: "sq_at n j c"
  with False have r: "ch_state c = PITX_RELOAD_NEXT" "Suc j = sq_high n" by (auto simp: sq_at_def Let_def split: if_splits)
  have "2 \<le> n" "Suc j = (n + 1) div 2" using sq_atD(1) [OF a] r(2) by (simp_all add: sq_high_def)
  then have "Suc j < n" by presburger
  then show ?thesis using sq_reload [OF a r(1)] by simp
qed

interpretation square: phase_cycle tick_channel ch_output "sq_at n" n "\<lambda>j. j < sq_high n" for n
  by unfold_locales (auto simp: sq_step, auto simp: sq_at_def)

section \<open>Modes 0, 1, 4 and 5\<close>

lemma tick_counting:
  "ch_state c = PITX_COUNTING \<Longrightarrow> tick_channel c = count_step (c\<lparr>clocks := clocks c + 1\<rparr>)"
  by (simp add: tick_channel_def Let_def)

lemma tick_load:
  "ch_state c = PITX_LOAD_NEXT \<Longrightarrow> tick_channel c = load_counting_element (c\<lparr>clocks := clocks c + 1\<rparr>)"
  by (simp add: tick_channel_def Let_def)

lemma visible_dec_zero:
  assumes "\<not> ch_bcd c" "unat (counting_element c) = Suc v" "v < 0x10000"
  shows "visible_count (counting_element (decrement c)) = 0 \<longleftrightarrow> v = 0"
  using assms by (subst visible_zero_iff) (auto simp: unat_ce_decrement)

definition once_at :: "nat \<Rightarrow> nat \<Rightarrow> pitx_channel \<Rightarrow> bool" where
  "once_at n k c \<longleftrightarrow> (ch_mode c = 0 \<and> ch_gate c \<or> ch_mode c = 1) \<and> \<not> ch_bcd c \<and>
     ch_state c = PITX_COUNTING \<and> n \<le> 0x10000 \<and>
     (if k < n then unat (counting_element c) = n - k \<and> \<not> ch_output c \<and> (ch_mode c = 1 \<longrightarrow> armed c)
      else ch_output c)"

lemma once_step:
  assumes a: "once_at n k c" shows "once_at n (Suc k) (tick_channel c)"
proof -
  let ?c = "c\<lparr>clocks := clocks c + 1\<rparr>"
  have b: "\<not> ch_bcd c" "ch_state c = PITX_COUNTING" "n \<le> 0x10000" using a by (simp_all add: once_at_def)
  have m: "ch_mode c = 0 \<and> ch_gate c \<or> ch_mode c = 1" using a by (simp add: once_at_def)
  show ?thesis
  proof (cases "k < n")
    case True
    with a have u: "unat (counting_element c) = n - k" "\<not> ch_output c" "ch_mode c = 1 \<longrightarrow> armed c"
      by (simp_all add: once_at_def)
    have d: "unat (counting_element (decrement ?c)) = n - Suc k"
      using u b True by (subst unat_ce_decrement) auto
    have v: "visible_count (counting_element (decrement ?c)) = 0 \<longleftrightarrow> Suc k = n"
      using d b True by (subst visible_zero_iff) auto
    show ?thesis
      using m b u d True unfolding tick_counting [OF b(2)]
      by (elim disjE) (simp_all add: once_at_def count_step_def Let_def set_output_def v)
  next
    case False
    then have "ch_output c" using a by (simp add: once_at_def)
    with False m b show ?thesis
      unfolding tick_counting [OF b(2)] by (elim disjE) (simp_all add: once_at_def count_step_def Let_def set_output_def)
  qed
qed

lemma once_steps: "once_at n k c \<Longrightarrow> once_at n (k + i) ((tick_channel ^^ i) c)"
  by (induction i) (auto dest: once_step)

lemma once_load:
  assumes "ch_state c = PITX_LOAD_NEXT" "\<not> ch_bcd c"
    and "ch_mode c = 0 \<and> ch_gate c \<or> ch_mode c = 1 \<and> armed c"
  shows "once_at (unat (reload_value c)) 0 (tick_channel c)"
  using assms unat_reload_value_bounds [of c]
  by (auto simp: once_at_def tick_load load_counting_element_def Let_def set_output_def)

definition strobe_at :: "nat \<Rightarrow> nat \<Rightarrow> pitx_channel \<Rightarrow> bool" where
  "strobe_at n k c \<longleftrightarrow> (ch_mode c = 4 \<and> ch_gate c \<or> ch_mode c = 5) \<and> \<not> ch_bcd c \<and>
     n \<le> 0x10000 \<and> ch_output c = (k \<noteq> n) \<and>
     ch_state c = (if k = n then PITX_STROBE_RECOVER else PITX_COUNTING) \<and>
     unat (counting_element c) =
       (if k \<le> n then n - k else if k = Suc n then 0 else 0x10000 - (k - Suc n))"

lemma strobe_step:
  assumes a: "strobe_at n k c" and lt: "k < n + 0x10000"
  shows "strobe_at n (Suc k) (tick_channel c)"
proof -
  let ?c = "c\<lparr>clocks := clocks c + 1\<rparr>"
  have b: "\<not> ch_bcd c" "n \<le> 0x10000" and m: "ch_mode c = 4 \<and> ch_gate c \<or> ch_mode c = 5"
    using a by (simp_all add: strobe_at_def)
  show ?thesis
  proof (cases "k = n")
    case True
    with a show ?thesis by (auto simp: strobe_at_def tick_channel_def Let_def set_output_def)
  next
    case False
    with a have st: "ch_state c = PITX_COUNTING" "ch_output c" by (simp_all add: strobe_at_def)
    let ?w = "if k < n then n - Suc k else 0x10000 - (k - n)"
    have d: "unat (counting_element (decrement ?c)) = ?w"
    proof (cases "k = Suc n")
      case True
      with a show ?thesis by (simp add: strobe_at_def ce_decrement b unat_bin_dec_zero)
    next
      case f: False
      then show ?thesis using a False lt b
        by (subst unat_ce_decrement) (auto simp: strobe_at_def)
    qed
    have v: "visible_count (counting_element (decrement ?c)) = 0 \<longleftrightarrow> Suc k = n"
      using d b lt False by (subst visible_zero_iff) auto
    show ?thesis
      using m b st d False lt unfolding tick_counting [OF st(1)]
      by (elim disjE) (simp_all add: strobe_at_def count_step_def Let_def set_output_def v)
  qed
qed

lemma strobe_steps:
  "strobe_at n k c \<Longrightarrow> k + i \<le> n + 0x10000 \<Longrightarrow> strobe_at n (k + i) ((tick_channel ^^ i) c)"
  by (induction i) (auto dest: strobe_step)

lemma strobe_load:
  assumes "ch_state c = PITX_LOAD_NEXT" "\<not> ch_bcd c"
    and "ch_mode c = 4 \<and> ch_gate c \<or> ch_mode c = 5"
  shows "strobe_at (unat (reload_value c)) 0 (tick_channel c)"
  using assms unat_reload_value_bounds [of c]
  by (auto simp: strobe_at_def tick_load load_counting_element_def Let_def set_output_def)

lemma tick_type: "ch_type (tick_channel c) = ch_type c"
proof -
  have dn: "ch_type (decrement_n k c) = ch_type c" for k c
    by (induction k arbitrary: c) simp_all
  show ?thesis
    by (cases "ch_state c")
      (simp_all add: tick_channel_def Let_def count_step_def load_counting_element_def
        run_or_wait_def count_mode3_def set_output_def dn)
qed

section \<open>The wave forms\<close>

text \<open>Mode 2 is a rate generator. A channel of either chip type that has a count of
  \<open>n\<close> (at least 2) pending with GATE high drives OUT, from the clock that loads the count on, low
  for exactly the last clock of every \<open>n\<close> clocks and high otherwise, for ever.\<close>

theorem mode2_rate_generator:
  assumes "ch_mode c = 2" and "ch_gate c" and "\<not> ch_bcd c"
    and "ch_state c = PITX_LOAD_NEXT" and "n = unat (reload_value c)" and "2 \<le> n"
  shows "ch_output ((tick_channel ^^ Suc k) c) \<longleftrightarrow> k mod n \<noteq> n - 1"
proof -
  have "rate_at n 0 (tick_channel c)" using rate_load [of c] assms by simp
  from rate.out_steps [OF this, of k] show ?thesis using assms(6)
    by (auto simp: funpow_swap1)
qed

definition sample_mode2 :: pitx_channel where
  "sample_mode2 = (channel_data_write 4 (program_mode 0x14 (channel_set_gate True
     (reset_channel PITX_8254))))"

lemma sample_mode2_sel:
  "ch_mode sample_mode2 = 2" "ch_gate sample_mode2" "\<not> ch_bcd sample_mode2"
  "ch_state sample_mode2 = PITX_LOAD_NEXT" "4 = unat (reload_value sample_mode2)"
  by (simp_all add: sample_mode2_def channel_data_write_def program_mode_def channel_set_gate_def
      reset_channel_def Let_def canonical_mode_def set_output_def finalize_write_def reload_value_def)

lemma mode2_rate_generator_witness:
  "\<not> ch_output ((tick_channel ^^ Suc 3) sample_mode2) \<and>
   ch_output ((tick_channel ^^ Suc 4) sample_mode2)"
  using mode2_rate_generator [OF sample_mode2_sel, of 3] mode2_rate_generator [OF sample_mode2_sel, of 4]
  by (simp del: funpow.simps)

text \<open>Mode 3 is a square wave generator, on both chip types and for even and odd counts
  alike, although the chips count differently: OUT is high for the first \<open>(n + 1) div 2\<close> clocks
  of every period of \<open>n\<close> clocks and low for the other \<open>n div 2\<close>.\<close>

theorem mode3_square_wave:
  assumes "ch_mode c = 3" and "ch_gate c" and "\<not> ch_bcd c" and "\<not> toggle_on_reload c"
    and "ch_state c = PITX_LOAD_NEXT" and "n = unat (reload_value c)" and "2 \<le> n"
  shows "ch_output ((tick_channel ^^ Suc k) c) \<longleftrightarrow> k mod n < (n + 1) div 2"
proof -
  have "sq_at n 0 (tick_channel c)" using sq_load [of c] assms by simp
  from square.out_steps [OF this, of k] show ?thesis
    by (simp add: funpow_swap1 sq_high_def)
qed

definition sample_mode3 :: pitx_channel where
  "sample_mode3 = (channel_data_write 5 (program_mode 0x16 (channel_set_gate True
     (reset_channel PITX_8254))))"

lemma sample_mode3_sel:
  "ch_mode sample_mode3 = 3" "ch_gate sample_mode3" "\<not> ch_bcd sample_mode3"
  "\<not> toggle_on_reload sample_mode3"
  "ch_state sample_mode3 = PITX_LOAD_NEXT" "5 = unat (reload_value sample_mode3)"
  by (simp_all add: sample_mode3_def channel_data_write_def program_mode_def channel_set_gate_def
      reset_channel_def Let_def canonical_mode_def set_output_def finalize_write_def reload_value_def)

lemma mode3_square_wave_witness:
  "ch_output ((tick_channel ^^ Suc 2) sample_mode3) \<and>
   \<not> ch_output ((tick_channel ^^ Suc 3) sample_mode3)"
  using mode3_square_wave [OF sample_mode3_sel, of 2] mode3_square_wave [OF sample_mode3_sel, of 3]
  by (simp del: funpow.simps)

text \<open>Modes 0 and 1 end once. With a count of \<open>n\<close> loaded (mode 0 with GATE high, mode 1
  triggered), OUT goes low at the loading clock, rises exactly \<open>n\<close> clocks later and stays high
  however often the counting element wraps round.\<close>

theorem one_shot_terminal_count:
  assumes "ch_mode c = 0 \<and> ch_gate c \<or> ch_mode c = 1 \<and> armed c" and "\<not> ch_bcd c"
    and "ch_state c = PITX_LOAD_NEXT"
  shows "ch_output ((tick_channel ^^ Suc k) c) \<longleftrightarrow> unat (reload_value c) \<le> k"
  using once_steps [OF once_load [OF assms(3,2,1)], of k]
  by (auto simp: once_at_def funpow_swap1 split: if_splits)

definition sample_mode0 :: pitx_channel where
  "sample_mode0 = (channel_data_write 3 (program_mode 0x10 (channel_set_gate True
     (reset_channel PITX_8253))))"

lemma sample_mode0_sel:
  "ch_mode sample_mode0 = 0 \<and> ch_gate sample_mode0 \<or> ch_mode sample_mode0 = 1 \<and> armed sample_mode0"
  "\<not> ch_bcd sample_mode0" "ch_state sample_mode0 = PITX_LOAD_NEXT" "unat (reload_value sample_mode0) = 3"
  by (simp_all add: sample_mode0_def channel_data_write_def program_mode_def channel_set_gate_def
      reset_channel_def Let_def canonical_mode_def set_output_def finalize_write_def reload_value_def)

lemma one_shot_terminal_count_witness:
  "\<not> ch_output ((tick_channel ^^ Suc 2) sample_mode0) \<and> ch_output ((tick_channel ^^ Suc 3) sample_mode0)"
  using one_shot_terminal_count [OF sample_mode0_sel(1-3), of 2]
    one_shot_terminal_count [OF sample_mode0_sel(1-3), of 3]
  by (simp only: sample_mode0_sel(4)) simp

text \<open>Modes 4 and 5 strobe once. After a count of \<open>n\<close> is loaded OUT is high except for a
  single clock, the \<open>n\<close>-th after the load, for at least the whole range of the counting
  element (65536 further clocks).\<close>

theorem strobe_single_pulse:
  assumes "ch_mode c = 4 \<and> ch_gate c \<or> ch_mode c = 5" and "\<not> ch_bcd c"
    and "ch_state c = PITX_LOAD_NEXT" and "k \<le> unat (reload_value c) + 0x10000"
  shows "ch_output ((tick_channel ^^ Suc k) c) \<longleftrightarrow> k \<noteq> unat (reload_value c)"
  using strobe_steps [OF strobe_load [OF assms(3,2,1)], of k] assms(4)
  by (auto simp: strobe_at_def funpow_swap1)

definition sample_mode4 :: pitx_channel where
  "sample_mode4 = (channel_data_write 3 (program_mode 0x18 (channel_set_gate True
     (reset_channel PITX_8253))))"

lemma sample_mode4_sel:
  "ch_mode sample_mode4 = 4 \<and> ch_gate sample_mode4 \<or> ch_mode sample_mode4 = 5"
  "\<not> ch_bcd sample_mode4" "ch_state sample_mode4 = PITX_LOAD_NEXT" "unat (reload_value sample_mode4) = 3"
  by (simp_all add: sample_mode4_def channel_data_write_def program_mode_def channel_set_gate_def
      reset_channel_def Let_def canonical_mode_def set_output_def finalize_write_def reload_value_def)

lemma strobe_single_pulse_witness:
  "\<not> ch_output ((tick_channel ^^ Suc 3) sample_mode4) \<and> ch_output ((tick_channel ^^ Suc 4) sample_mode4)"
  using strobe_single_pulse [OF sample_mode4_sel(1-3), of 3]
    strobe_single_pulse [OF sample_mode4_sel(1-3), of 4]
  by (simp only: sample_mode4_sel(4)) simp

lemma gate_pulse:
  assumes "ch_gate c" "ch_mode c = 3" "ch_state c \<noteq> PITX_WAIT_COUNT"
  shows "channel_set_gate True (channel_set_gate False c) =
     c\<lparr>ch_gate := True, ch_output := True, ch_state := PITX_LOAD_NEXT\<rparr>"
  using assms by (simp add: channel_set_gate_def Let_def set_output_def)

lemma mode3_load_output:
  assumes "ch_mode c = 3" "ch_state c = PITX_LOAD_NEXT"
  shows "ch_output (tick_channel c) = (if toggle_on_reload c then \<not> ch_output c else True)"
  using assms by (simp add: tick_load load_counting_element_def Let_def set_output_def run_or_wait_def)

lemma sq_at_toggle:
  "sq_at n j c \<Longrightarrow> toggle_on_reload c = (ch_type c = PITX_8254 \<and> odd n \<and> Suc j = sq_high n)"
  "sq_at n j c \<Longrightarrow> ch_state c \<noteq> PITX_WAIT_COUNT"
  by (auto simp: sq_at_def Let_def)

text \<open>A gate pulse restarts a running square wave with OUT high, except on an 8254 with an
  odd count in the last clock of the high half: there the deferred toggle survives the pulse
  and the restarted period begins low.\<close>

theorem gate_pulse_restart:
  assumes "sq_at n j c"
  shows "ch_output (tick_channel (channel_set_gate True (channel_set_gate False c))) \<longleftrightarrow>
     \<not> (ch_type c = PITX_8254 \<and> odd n \<and> Suc j = (n + 1) div 2)"
  using sq_at_toggle [OF assms] sq_atD(3,4) [OF assms]
  by (simp add: gate_pulse mode3_load_output sq_high_def)

lemma gate_pulse_restart_witness:
  "\<not> ch_output (tick_channel (channel_set_gate True (channel_set_gate False
      ((tick_channel ^^ Suc 2) sample_mode3))))"
proof -
  have "sq_at 5 0 (tick_channel sample_mode3)"
    using sq_load [of sample_mode3] sample_mode3_sel by simp
  from square.at_steps [OF this, of 2] have a: "sq_at 5 2 ((tick_channel ^^ Suc 2) sample_mode3)"
    by (simp only: funpow_Suc_right comp_apply) (simp add: numeral_2_eq_2)
  have "ch_type ((tick_channel ^^ Suc 2) sample_mode3) = PITX_8254"
    by (rule funpow_invariant [of "\<lambda>c. ch_type c = PITX_8254"])
      (simp_all add: sample_mode3_def channel_data_write_def program_mode_def channel_set_gate_def
      reset_channel_def Let_def canonical_mode_def set_output_def finalize_write_def tick_type)
  with gate_pulse_restart [OF a] show ?thesis by simp
qed

end
