(* ===== verification/Pit_Bus.thy ===== *)
theory Pit_Bus
  imports Pit_Timing
begin

text \<open>
  The channels of \<open>Pit_Exact\<close> seen from the bus: what a clock leaves alone, the count latch,
  the two-byte count writes as an instance of \<open>byte_pair_port\<close>, BCD counting, and the device
  as a whole, its operations keeping the channel invariant and its counters running the wave
  form they were programmed for.
\<close>

section \<open>What a clock leaves alone\<close>

definition programming :: "pitx_channel \<Rightarrow> pitx_type \<times> u8 \<times> u8 \<times> u8 \<times> bool \<times> u8 \<times> u8 \<times> u16 \<times> bool" where
  "programming c = (ch_type c, ch_control c, ch_mode c, rw_mode c, ch_bcd c, write_phase c,
     read_phase c, count_register c, ch_gate c)"

definition latches :: "pitx_channel \<Rightarrow> bool \<times> bool \<times> u8 \<times> u16 option" where
  "latches c = (count_latched c, status_latched c, status_latch c,
     if count_latched c then Some (output_latch c) else None)"

lemma keeps_basic:
  "programming (set_output b c) = programming c" "latches (set_output b c) = latches c"
  "programming (c\<lparr>ch_state := st\<rparr>) = programming c" "latches (c\<lparr>ch_state := st\<rparr>) = latches c"
  "programming (c\<lparr>armed := b\<rparr>) = programming c" "latches (c\<lparr>armed := b\<rparr>) = latches c"
  "programming (c\<lparr>clocks := u\<rparr>) = programming c" "latches (c\<lparr>clocks := u\<rparr>) = latches c"
  "programming (c\<lparr>counting_element := v\<rparr>) = programming c"
  "latches (c\<lparr>counting_element := v\<rparr>) = latches c"
  "programming (c\<lparr>toggle_on_reload := b\<rparr>) = programming c"
  "latches (c\<lparr>toggle_on_reload := b\<rparr>) = latches c"
  "programming (update_live_latch c) = programming c" "latches (update_live_latch c) = latches c"
  "programming (decrement c) = programming c" "latches (decrement c) = latches c"
  "programming (load_common c) = programming c" "latches (load_common c) = latches c"
  by (auto simp: programming_def latches_def set_output_def decrement_eq Let_def load_common_def)

lemma keeps_decrement_n:
  "programming (decrement_n k c) = programming c" "latches (decrement_n k c) = latches c"
  by (induction k arbitrary: c) (simp_all add: keeps_basic)

lemma keeps_tick:
  "programming (tick_channel c) = programming c" "latches (tick_channel c) = latches c"
proof -
  note defs = tick_channel_def Let_def count_step_def load_counting_element_def run_or_wait_def
    count_mode3_def
  show "programming (tick_channel c) = programming c"
    by (cases "ch_state c") (simp_all add: defs keeps_basic keeps_decrement_n del: update_live_latch_eq)
  show "latches (tick_channel c) = latches c"
    by (cases "ch_state c") (simp_all add: defs keeps_basic keeps_decrement_n del: update_live_latch_eq)
qed

lemma keeps_ticks:
  "programming ((tick_channel ^^ n) c) = programming c"
  "latches ((tick_channel ^^ n) c) = latches c"
  by (induction n) (simp_all add: keeps_tick)

section \<open>Reading back\<close>

lemma read_latched:
  assumes "latches c = (True, False, x, Some w)" "rw_mode c = 3" "read_phase c \<le> 1"
  shows "channel_data_read c =
     (if read_phase c = 0 then (lo8 w, c\<lparr>read_phase := 1\<rparr>)
      else (hi8 w, c\<lparr>read_phase := 0, count_latched := False\<rparr>))"
  using assms by (auto simp add: latches_def channel_data_read_def split: if_splits)

text \<open>The count latch freezes what software reads. When the counter latch command meets a
  channel in two-byte access mode, the two data reads that follow return the low and the high
  byte of the count at the moment of the command, whatever number of clocks passes before and
  between them, and the second one releases the latch.\<close>

theorem latched_count_survives_clocks:
  assumes "rw_mode c = 3" "\<not> count_latched c" "\<not> status_latched c"
    and "channel_data_read ((tick_channel ^^ m) (latch_count c)) = (lo, c1)"
    and "channel_data_read ((tick_channel ^^ n) c1) = (hi, c2)"
  shows "word16 lo hi = visible_count (counting_element c) \<and> \<not> count_latched c2"
proof -
  let ?w = "visible_count (counting_element c)"
  let ?d = "(tick_channel ^^ m) (latch_count c)"
  have "latches (latch_count c) = (True, False, status_latch c, Some ?w)"
    "programming (latch_count c) = programming (c\<lparr>read_phase := 0\<rparr>)"
    using assms by (simp_all add: latches_def latch_count_def programming_def)
  then have l: "latches ?d = (True, False, status_latch c, Some ?w)"
    and p: "programming ?d = programming (c\<lparr>read_phase := 0\<rparr>)"
    by (simp_all add: keeps_ticks)
  from p have "rw_mode ?d = 3" "read_phase ?d = 0" using assms by (simp_all add: programming_def)
  with l assms(4) have lo: "lo = lo8 ?w" and c1: "c1 = ?d\<lparr>read_phase := 1\<rparr>"
    by (simp_all add: read_latched [OF l])
  let ?e = "(tick_channel ^^ n) c1"
  have "latches c1 = latches ?d" "rw_mode c1 = 3" "read_phase c1 = 1"
    using \<open>rw_mode ?d = 3\<close> by (simp_all add: c1 latches_def)
  then have l2: "latches ?e = (True, False, status_latch c, Some ?w)"
    and "rw_mode ?e = 3" "read_phase ?e = 1"
    using keeps_ticks [of n c1] l by (simp_all add: programming_def)
  with assms(5) have hi: "hi = hi8 ?w" and c2: "c2 = ?e\<lparr>read_phase := 0, count_latched := False\<rparr>"
    by (simp_all add: read_latched [OF l2])
  show ?thesis by (simp add: lo hi c2)
qed

definition sample_latch :: pitx_channel where
  "sample_latch = (reset_channel PITX_8254)\<lparr>ch_mode := 2, ch_gate := True, rw_mode := 3,
     count_register := 0x1234, counting_element := 0x1100, ch_state := PITX_COUNTING\<rparr>"

lemma latched_count_survives_clocks_witness:
  "\<exists>lo c1 hi c2. channel_data_read ((tick_channel ^^ 7) (latch_count sample_latch)) = (lo, c1) \<and>
     channel_data_read ((tick_channel ^^ 5) c1) = (hi, c2) \<and> word16 lo hi = 0x1100"
proof -
  obtain lo c1 where 1: "channel_data_read ((tick_channel ^^ 7) (latch_count sample_latch)) = (lo, c1)"
    by (metis surj_pair)
  obtain hi c2 where 2: "channel_data_read ((tick_channel ^^ 5) c1) = (hi, c2)" by (metis surj_pair)
  have "rw_mode sample_latch = 3" "\<not> count_latched sample_latch" "\<not> status_latched sample_latch"
    "visible_count (counting_element sample_latch) = 0x1100"
    by (simp_all add: sample_latch_def reset_channel_def visible_count_def)
  with latched_count_survives_clocks [OF _ _ _ 1 2] 1 2 show ?thesis by auto
qed

section \<open>Writing a count\<close>

definition free_port :: "pitx_channel \<Rightarrow> bool" where
  "free_port c \<longleftrightarrow> rw_mode c = 3 \<and> (write_phase c = 0 \<or> write_phase c = 1) \<and> ch_mode c \<noteq> 2 \<and> ch_mode c \<noteq> 3"

lemma finalize_write_sel:
  "rw_mode (finalize_write c) = rw_mode c" "write_phase (finalize_write c) = write_phase c"
  "ch_mode (finalize_write c) = ch_mode c"
  "count_register (finalize_write c) =
     (if count_register c = 1 \<and> ch_mode c = 2 then 2
      else if count_register c = 1 \<and> ch_mode c = 3 then 0 else count_register c)"
  by (simp_all add: finalize_write_def Let_def)

interpretation data_port: byte_pair_port free_port channel_data_write count_register
  "\<lambda>c. write_phase c = 1"
  by unfold_locales
    (auto simp: free_port_def channel_data_write_def Let_def finalize_write_sel set_output_def)


section \<open>Counting in BCD\<close>

definition bcd_of :: "nat \<Rightarrow> u32" where
  "bcd_of n = word_of_nat (n mod 10 + 16 * (n div 10 mod 10) + 256 * (n div 100 mod 10) +
     4096 * (n div 1000 mod 10))"

lemma digit_decomp:
  assumes "n < 10000"
  obtains a b c d where "n = a + 10 * b + 100 * c + 1000 * d" "a < 10" "b < 10" "c < 10" "d < (10::nat)"
proof
  show "n = n mod 10 + 10 * (n div 10 mod 10) + 100 * (n div 100 mod 10) + 1000 * (n div 1000)"
  proof -
    have "n = 10 * (n div 10) + n mod 10" by simp
    moreover have "n div 10 = 10 * (n div 100) + n div 10 mod 10"
      using mult_div_mod_eq [of 10 "n div 10"] by (simp add: div_mult2_eq [symmetric] )
    moreover have "n div 100 = 10 * (n div 1000) + n div 100 mod 10"
      using mult_div_mod_eq [of 10 "n div 100"] by (simp add: div_mult2_eq [symmetric] )
    ultimately show ?thesis by linarith
  qed
qed (use assms in auto)

lemma base_split:
  fixes a k x :: nat
  assumes "a < k"
  shows "(a + k * x) mod k = a" "(a + k * x) div k = x"
  using assms by simp_all

lemma unat_bcd_digits:
  assumes l: "a < 10" "b < 10" "c < 10" "d < (10::nat)"
  shows "unat (bcd_of (a + 10 * b + 100 * c + 1000 * d)) = a + 16 * b + 256 * c + 4096 * d"
proof -
  let ?n = "a + 10 * (b + 10 * (c + 10 * d))"
  have n: "a + 10 * b + 100 * c + 1000 * d = ?n" by simp
  have q1: "?n div 10 = b + 10 * (c + 10 * d)" by (rule base_split [OF l(1)])
  have q2: "?n div 100 = c + 10 * d"
    using div_mult2_eq [of ?n 10 10] q1 base_split(2) [OF l(2), of "c + 10 * d"] by simp
  have q3: "?n div 1000 = d"
    using div_mult2_eq [of ?n 100 10] q2 base_split(2) [OF l(3), of d] by simp
  have "?n mod 10 = a" "?n div 10 mod 10 = b" "?n div 100 mod 10 = c" "?n div 1000 mod 10 = d"
    unfolding q1 q2 q3 using l by (simp_all only: base_split mod_less)
  then have "bcd_of ?n = word_of_nat (a + 16 * b + 256 * c + 4096 * d)"
    by (simp only: bcd_of_def)
  moreover have "a + 16 * b + 256 * c + 4096 * d < 2 ^ LENGTH(32)" using l by simp
  ultimately show ?thesis unfolding n by (simp only: unat_of_nat mod_less)
qed

lemma and_nibble_iff:
  "(w :: u32) AND push_bit k (mask 4) = 0 \<longleftrightarrow> take_bit 4 (drop_bit k w) = 0" if "k \<le> 8"
proof -
  have "w AND push_bit k (mask 4) = push_bit k (take_bit 4 (drop_bit k w))"
    by (rule bit_word_eqI)
      (simp only: bit_and_iff bit_push_bit_iff bit_mask_iff bit_take_bit_iff bit_drop_bit_eq comp_apply, auto)
  moreover have "push_bit k (take_bit 4 (drop_bit k w)) = 0 \<longleftrightarrow> take_bit 4 (drop_bit k w) = 0"
  proof
    assume "push_bit k (take_bit 4 (drop_bit k w)) = 0"
    then have "drop_bit k (push_bit k (take_bit 4 (drop_bit k w))) = 0" by simp
    moreover have "drop_bit k (push_bit k (take_bit 4 (drop_bit k w))) = take_bit 4 (drop_bit k w)"
      by (rule bit_word_eqI)
        (use that in \<open>simp only: bit_and_iff bit_push_bit_iff bit_mask_iff bit_take_bit_iff bit_drop_bit_eq comp_apply, auto\<close>)
    ultimately show "take_bit 4 (drop_bit k w) = 0" by simp
  qed simp
  ultimately show ?thesis by simp
qed

lemma nibble_mask:
  fixes w :: u32
  shows "w AND 0x000f = 0 \<longleftrightarrow> unat w mod 16 = 0"
    and "w AND 0x00f0 = 0 \<longleftrightarrow> unat w div 16 mod 16 = 0"
    and "w AND 0x0f00 = 0 \<longleftrightarrow> unat w div 256 mod 16 = 0"
proof -
  have t: "take_bit 4 (drop_bit k w) = 0 \<longleftrightarrow> unat w div 2 ^ k mod 16 = 0" for k
    using unsigned_less [where 'a = nat, of w] by (subst word_unat_eq_iff) (simp only: unsigned_take_bit_eq unsigned_drop_bit_eq, simp add: take_bit_eq_mod drop_bit_eq_div)
  have m: "(0x000f :: u32) = push_bit 0 (mask 4)" "(0x00f0 :: u32) = push_bit 4 (mask 4)"
     "(0x0f00 :: u32) = push_bit 8 (mask 4)" by (simp_all add: mask_eq_exp_minus_1)
  show "w AND 0x000f = 0 \<longleftrightarrow> unat w mod 16 = 0" using t [of 0] unfolding m by (subst and_nibble_iff) simp_all
  show "w AND 0x00f0 = 0 \<longleftrightarrow> unat w div 16 mod 16 = 0" using t [of 4] unfolding m by (subst and_nibble_iff) simp_all
  show "w AND 0x0f00 = 0 \<longleftrightarrow> unat w div 256 mod 16 = 0" using t [of 8] unfolding m by (subst and_nibble_iff) simp_all
qed

lemma unat_sub_ffff:
  assumes "unat (w :: u32) < 0x10000" "unat v \<le> unat w"
  shows "unat ((w - v) AND 0xffff) = unat w - unat v"
proof -
  have m: "(0xffff :: u32) = mask 16" by (simp add: mask_eq_exp_minus_1)
  have "unat ((w - v) AND 0xffff) = unat (w - v) mod 2 ^ 16"
    unfolding m take_bit_eq_mask [symmetric] by (simp only: unsigned_take_bit_eq) (simp add: take_bit_eq_mod)
  also have "unat (w - v) = unat w - unat v" using assms(2) by (simp add: unat_sub word_le_nat_alt)
  finally show ?thesis using assms by simp
qed

text \<open>A BCD counter counts down in decimal: on the BCD image of any \<open>n\<close> below 10000
  \<open>pitx_bcd_decrement\<close> gives the image of \<open>n - 1\<close>, and of 9999 from 0; borrows run through
  every digit.\<close>

theorem bcd_decrement_correct:
  assumes "n < 10000"
  shows "bcd_decrement (bcd_of n) = bcd_of ((n + 9999) mod 10000)"
proof (cases "n = 0")
  case True
  then show ?thesis by (simp add: bcd_of_def bcd_decrement_def)
next
  case False
  obtain a b c d where n: "n = a + 10 * b + 100 * c + 1000 * d"
    and l: "a < 10" "b < 10" "c < 10" "d < 10"
    using digit_decomp [OF assms] by blast
  let ?w = "bcd_of n"
  have u: "unat ?w = a + 16 * b + 256 * c + 4096 * d" unfolding n by (rule unat_bcd_digits [OF l])
  have ub: "unat ?w < 0x10000" using u l by linarith
  have e: "(n + 9999) mod 10000 = n - 1" using False assms by (simp add: mod_if)
  have nz: "?w \<noteq> 0" "?w \<noteq> 0x10000" using False ub u n by (auto simp: word_unat_eq_iff)
  have u': "unat ?w = a + 16 * (b + 16 * (c + 16 * d))" using u by simp
  have l16: "a < 16" "b < 16" "c < 16" using l by simp_all
  have q: "unat ?w div 16 = b + 16 * (c + 16 * d)" unfolding u' by (rule base_split [OF l16(1)])
  have q2: "unat ?w div 256 = c + 16 * d"
    using div_mult2_eq [of "unat ?w" 16 16] q base_split(2) [OF l16(2), of "c + 16 * d"] by simp
  have m: "unat ?w mod 16 = a" "unat ?w div 16 mod 16 = b" "unat ?w div 256 mod 16 = c"
    unfolding q q2 by (simp_all only: u' base_split [OF l16(1)] base_split [OF l16(2)] base_split [OF l16(3)])
  have main: "(?w - v) AND 0xffff = bcd_of (n - 1)"
    if "n - 1 = a' + 10 * b' + 100 * c' + 1000 * d'" "a' < 10" "b' < 10" "c' < 10" "d' < 10"
       "unat ?w = a' + 16 * b' + 256 * c' + 4096 * d' + unat v" for v a' b' c' d'
    using that ub by (simp only: word_unat_eq_iff unat_sub_ffff unat_bcd_digits le_add2 add_diff_cancel_right')
  have nib: "?w AND 0x000f = 0 \<longleftrightarrow> a = 0" "?w AND 0x00f0 = 0 \<longleftrightarrow> b = 0" "?w AND 0x0f00 = 0 \<longleftrightarrow> c = 0"
    by (simp_all only: nibble_mask m)
  consider "a \<noteq> 0" | "a = 0" "b \<noteq> 0" | "a = 0" "b = 0" "c \<noteq> 0" | "a = 0" "b = 0" "c = 0" "d \<noteq> 0"
    using False n by auto
  then have "bcd_decrement ?w = bcd_of (n - 1)"
  proof cases
    case 1
    have "(?w - 1) AND 0xffff = bcd_of (n - 1)"
      by (rule main [of "a - 1" b c d]) (use 1 n l u in simp_all)
    with 1 show ?thesis by (simp only: bcd_decrement_def nz nib if_False if_True simp_thms)
  next
    case 2
    have "(?w - 0x0007) AND 0xffff = bcd_of (n - 1)"
      by (rule main [of 9 "b - 1" c d]) (use 2 n l u in simp_all)
    with 2 show ?thesis by (simp only: bcd_decrement_def nz nib if_False if_True simp_thms)
  next
    case 3
    have "(?w - 0x0067) AND 0xffff = bcd_of (n - 1)"
      by (rule main [of 9 9 "c - 1" d]) (use 3 n l u in simp_all)
    with 3 show ?thesis by (simp only: bcd_decrement_def nz nib if_False if_True simp_thms)
  next
    case 4
    have "(?w - 0x0667) AND 0xffff = bcd_of (n - 1)"
      by (rule main [of 9 9 9 "d - 1"]) (use 4 n l u in simp_all)
    with 4 show ?thesis by (simp only: bcd_decrement_def nz nib if_False if_True simp_thms)
  qed
  then show ?thesis by (simp only: e)
qed

lemma bcd_decrement_correct_witness: "bcd_decrement 0x1000 = 0x0999"
  using bcd_decrement_correct [of 1000] by (simp add: bcd_of_def)

section \<open>The device\<close>

text \<open>Everything the bus, the GATE lines and the clock input can do to the device.\<close>

datatype pitx_op = Control u8 | Write nat u8 | Read nat | Gate nat bool | Tick | Tick_channel nat

primrec pitx_exec :: "pitx_op \<Rightarrow> pitx_device \<Rightarrow> pitx_device" where
  "pitx_exec (Control v) p = pitx_control_write v p"
| "pitx_exec (Write i v) p = pitx_data_write i v p"
| "pitx_exec (Read i) p = snd (pitx_data_read i p)"
| "pitx_exec (Gate i g) p = pitx_set_gate i g p"
| "pitx_exec Tick p = pitx_tick p"
| "pitx_exec (Tick_channel i) p = pitx_tick_channel i p"

definition pitx_dev_ok :: "pitx_device \<Rightarrow> bool" where
  "pitx_dev_ok p \<longleftrightarrow> (\<forall>i. pitx_ok (channel p i))"

lemma upd_channel_ok [wf_intros]:
  "pitx_dev_ok p \<Longrightarrow> (\<And>c. pitx_ok c \<Longrightarrow> pitx_ok (f c)) \<Longrightarrow> pitx_dev_ok (upd_channel i f p)"
  by (simp add: pitx_dev_ok_def upd_channel_def)

lemma last_control_ok: "pitx_dev_ok (p\<lparr>last_control := v\<rparr>) = pitx_dev_ok p"
  by (simp add: pitx_dev_ok_def)

lemma pitx_exec_ok: "pitx_dev_ok p \<Longrightarrow> pitx_dev_ok (pitx_exec a p)"
proof (cases a)
  case (Control v)
  assume "pitx_dev_ok p"
  then show ?thesis unfolding Control
    by (auto simp: pitx_control_write_def Let_def last_control_ok
        intro!: wf_intros read_back_ok latch_count_ok program_mode_ok)
next
  case (Write i v)
  assume "pitx_dev_ok p"
  then show ?thesis unfolding Write
    by (auto simp: pitx_data_write_def intro!: wf_intros channel_data_write_ok)
next
  case (Read i)
  assume p: "pitx_dev_ok p"
  then have "pitx_ok (snd (channel_data_read (channel p i)))"
    by (intro channel_data_read_ok) (simp add: pitx_dev_ok_def)
  with p show ?thesis unfolding Read
    by (simp add: pitx_data_read_def split_beta Let_def pitx_dev_ok_def upd_channel_def)
next
  case (Gate i g)
  assume "pitx_dev_ok p"
  then show ?thesis unfolding Gate
    by (auto simp: pitx_set_gate_def intro!: wf_intros channel_set_gate_ok)
next
  case Tick
  assume "pitx_dev_ok p"
  then show ?thesis unfolding Tick
    by (auto simp: pitx_tick_def pitx_tick_channel_def intro!: wf_intros tick_channel_ok)
next
  case (Tick_channel i)
  assume "pitx_dev_ok p"
  then show ?thesis unfolding Tick_channel
    by (auto simp: pitx_tick_channel_def intro!: wf_intros tick_channel_ok)
qed

text \<open>C28: From reset on, no sequence of control writes, count writes, reads, gate changes and
  clocks takes a channel out of its invariant: the mode is 0 to 5, the byte phases belong to the
  access mode, the counting element is at most 65536 and the counting state fits the mode and
  the gate. So the assertion on the mode in \<open>load_counting_element\<close> cannot fail and the state
  \<open>PITX_DONE\<close> is never reached.\<close>

theorem pitx_ops_keep_invariant: "pitx_ok (channel (fold pitx_exec ops (pitx_reset ty)) i)"
proof -
  have "pitx_dev_ok (fold pitx_exec ops (pitx_reset ty))"
  proof (rule fold_invariant)
    show "pitx_dev_ok (pitx_reset ty)" by (simp add: pitx_dev_ok_def pitx_reset_def reset_channel_ok)
  qed (rule pitx_exec_ok)
  then show ?thesis by (simp add: pitx_dev_ok_def)
qed

lemma channel_pitx_tick: "i < 3 \<Longrightarrow> channel (pitx_tick p) i = tick_channel (channel p i)"
  by (auto simp: pitx_tick_def pitx_tick_channel_def upd_channel_def dest: less_3_cases)

lemma channel_pitx_ticks:
  "i < 3 \<Longrightarrow> channel ((pitx_tick ^^ k) p) i = (tick_channel ^^ k) (channel p i)"
  by (induction k) (simp_all add: channel_pitx_tick)

text \<open>The control word that selects counter \<open>i\<close>, two-byte access, mode \<open>m\<close>, binary.\<close>

definition control_word :: "nat \<Rightarrow> nat \<Rightarrow> u8" where
  "control_word i m = word_of_nat (64 * i + 0x30 + 2 * m)"

definition program_counter :: "nat \<Rightarrow> nat \<Rightarrow> u16 \<Rightarrow> pitx_device \<Rightarrow> pitx_device" where
  "program_counter i m w p =
     pitx_data_write i (hi8 w) (pitx_data_write i (lo8 w) (pitx_control_write (control_word i m) p))"

text \<open>The period a count programs in the periodic modes.\<close>

definition period_of :: "nat \<Rightarrow> u16 \<Rightarrow> nat" where
  "period_of m w = (if w = 0 then 0x10000 else if w = 1 then (if m = 2 then 2 else 0x10000) else unat w)"

lemma control_word_fields:
  assumes "i < 3" "m = 2 \<or> m = 3"
  shows "unat (drop_bit 6 (control_word i m)) = i" "control_word i m AND 0x30 \<noteq> 0"
    "canonical_mode (drop_bit 1 (control_word i m) AND 7) = word_of_nat m"
    "drop_bit 4 (control_word i m) AND 3 = 3" "control_word i m AND 1 = 0"
  using less_3_cases [OF assms(1)] assms(2)
  by (auto simp: control_word_def canonical_mode_def)

lemma control_write_word:
  assumes "i < 3" "m = 2 \<or> m = 3"
  shows "channel (pitx_control_write (control_word i m) p) i =
     program_mode (control_word i m) (channel p i)"
  using assms(1)
  by (simp add: pitx_control_write_def control_word_fields [OF assms] upd_channel_def Let_def)

lemma program_counter_channel:
  assumes "i < 3" "m = 2 \<or> m = 3"
  shows "channel (program_counter i m w p) i =
     channel_data_write (hi8 w) (channel_data_write (lo8 w) (program_mode (control_word i m) (channel p i)))"
  using assms(1) control_write_word [OF assms]
  by (simp add: program_counter_def pitx_data_write_def upd_channel_def)

lemma program_mode_word:
  assumes "i < 3" "m = 2 \<or> m = 3" and "d = program_mode (control_word i m) c"
  shows "ch_mode d = word_of_nat m" "rw_mode d = 3" "\<not> ch_bcd d" "write_phase d = 0" "initial_load d"
    "ch_gate d = ch_gate c" "\<not> toggle_on_reload d"
  unfolding assms(3)
  by (simp_all add: program_mode_def control_word_fields [OF assms(1,2)] Let_def set_output_def
      del: One_nat_def)

text \<open>Two data bytes complete a count: in the periodic modes with the replacements for 1.\<close>

lemma write_count:
  assumes "rw_mode c = 3" "write_phase c = 0" "initial_load c" "ch_mode c = word_of_nat m" "m = 2 \<or> m = 3"
    and "d = channel_data_write (hi8 w) (channel_data_write (lo8 w) c)"
  shows "ch_mode d = ch_mode c" "ch_gate d = ch_gate c" "ch_bcd d = ch_bcd c"
    "toggle_on_reload d = toggle_on_reload c" "ch_state d = PITX_LOAD_NEXT"
    "count_register d = (if w = 1 then (if m = 2 then 2 else 0) else w)"
  using assms(1-5) unfolding assms(6)
  by (auto simp: channel_data_write_def Let_def finalize_write_def)

text \<open>C12: Programming a periodic counter whose gate is high works end to end. Writing the control word for counter
  \<open>i\<close>, mode 2 or 3, two-byte binary access, and then the count as low and high byte makes the
  counter run, from whatever it did before, with the period the count stands for: 65536 for 0,
  the value itself from 2 on, and for 1 a period of 2 in mode 2 and of 65536 in mode 3.\<close>

theorem programmed_counter_runs:
  assumes "i < 3" and "m = 2 \<or> m = 3" and "ch_gate (channel p i)"
  shows "pitx_get_output i ((pitx_tick ^^ Suc k) (program_counter i m w p)) \<longleftrightarrow>
     (if m = 2 then k mod period_of m w \<noteq> period_of m w - 1
      else k mod period_of m w < (period_of m w + 1) div 2)"
proof -
  let ?c = "program_mode (control_word i m) (channel p i)"
  let ?d = "channel_data_write (hi8 w) (channel_data_write (lo8 w) ?c)"
  note c = program_mode_word [OF assms(1,2) refl, of "channel p i"]
  note d = write_count [OF c(2,4,5,1) assms(2) refl, of w]
  have mode: "ch_mode ?d = word_of_nat m" "ch_gate ?d" "\<not> ch_bcd ?d" "\<not> toggle_on_reload ?d"
    using c d assms(3) by simp_all
  have per: "period_of m w = unat (reload_value ?d)"
    by (simp add: period_of_def unat_reload_value d(6))
  have two: "2 \<le> period_of m w"
    using unat_gt_0 [of w] by (auto simp: period_of_def word_unat_eq_iff)
  have out: "pitx_get_output i ((pitx_tick ^^ Suc k) (program_counter i m w p)) =
      ch_output ((tick_channel ^^ Suc k) ?d)"
    using assms(1,2) by (simp add: pitx_get_output_def channel_pitx_ticks program_counter_channel del: funpow.simps)
  show ?thesis
    using rate.out_steps [OF rate_load [of ?d], of k] square.out_steps [OF sq_load [of ?d], of k]
      assms(2) mode d(5) per two
    unfolding out by (auto simp: funpow_swap1 sq_high_def)
qed

lemma programmed_counter_runs_witness:
  "pitx_get_output 2 ((pitx_tick ^^ Suc 2) (program_counter 2 3 5 (pitx_set_gate 2 True (pitx_init PITX_8253)))) \<and>
   \<not> pitx_get_output 2 ((pitx_tick ^^ Suc 3) (program_counter 2 3 5 (pitx_set_gate 2 True (pitx_init PITX_8253))))"
proof -
  have "ch_gate (channel (pitx_set_gate 2 True (pitx_init PITX_8253)) 2)"
    by (simp add: pitx_set_gate_def upd_channel_def channel_set_gate_def pitx_init_def pitx_reset_def
        reset_channel_def Let_def)
  from programmed_counter_runs [OF _ _ this, of 3 2 5] programmed_counter_runs [OF _ _ this, of 3 3 5]
  show ?thesis by (simp add: period_of_def del: funpow.simps)
qed

text \<open>The read-back command belongs to the 8254: on an 8253 a control word with both select
  bits set changes no counter, and on an 8254 it latches exactly the selected counters, the
  count unless D5 and the status unless D4 is set, leaving latches that hold an unread value.\<close>

theorem read_back_command:
  assumes "drop_bit 6 v = 3" and "i < 3"
  shows "channel (pitx_control_write v p) i =
     (if dev_type p = PITX_8253 \<or> v AND push_bit i 2 = 0 then channel p i
      else (if v AND 0x10 = 0 then latch_status else id)
             ((if v AND 0x20 = 0 then latch_count else id) (channel p i)))"
  using less_3_cases [OF assms(2)] assms(1)
  by (cases "dev_type p")
    (auto simp: pitx_control_write_def Let_def upd_channel_def read_back_def)

lemma read_back_command_witness:
  "channel (pitx_control_write 0xc2 (pitx_init PITX_8254)) 0 =
     latch_status (latch_count (reset_channel PITX_8254))"
  using read_back_command [of "0xc2" 0 "pitx_init PITX_8254"]
  by (simp add: pitx_init_def pitx_reset_def)

text \<open>A 16-bit count reaches the count register of a channel in two-byte access mode as it
  was sent, low byte first, and leaves the byte phase where it was; if the channel was waiting
  for the high byte the two bytes are exchanged (modes without a replacement for 1).\<close>

theorem two_byte_count_write:
  assumes "free_port c"
  shows "count_register (channel_data_write (hi8 w) (channel_data_write (lo8 w) c)) =
       (if write_phase c = 0 then w else word16 (hi8 w) (lo8 w)) \<and>
     write_phase (channel_data_write (hi8 w) (channel_data_write (lo8 w) c)) = write_phase c"
  using assms data_port.write_pair_reg [of c w] data_port.write_pair_swapped [of c w]
    data_port.write_pair_flipflop [of c w] data_port.write_pair_ok [of c w]
  by (auto simp: data_port.write_pair_def free_port_def)

lemma two_byte_count_write_witness:
  "count_register (channel_data_write 0x12 (channel_data_write 0x34
     ((reset_channel PITX_8253)\<lparr>rw_mode := 3\<rparr>))) = 0x1234"
proof -
  have "free_port ((reset_channel PITX_8253)\<lparr>rw_mode := 3\<rparr>)"
    by (simp add: free_port_def reset_channel_def)
  moreover have "hi8 0x1234 = 0x12" "lo8 0x1234 = 0x34" by (simp_all add: lo8_def hi8_def)
  ultimately show ?thesis using two_byte_count_write [of _ "0x1234"]
    by (simp add: reset_channel_def)
qed

end
