(* ===== verification/Pic.thy ===== *)
theory Pic
  imports Prelude86
begin

text \<open>
  The 8259 interrupt controllers, \<open>86box_full/src/pic.c\<close> with \<open>include/86box/pic.h\<close>. The two
  \<open>pic_t\<close> structs and the static variables of the file are one record \<open>pics\<close>; a \<open>pic_t *\<close> is a
  \<open>pic_id\<close>, and \<open>slaves[i]\<close>, which the code only ever sets to \<open>&pic2\<close> or leaves \<open>NULL\<close>, is a
  predicate on inputs. Flags the code stores as 0 or 1 are \<open>bool\<close>. Calls that leave the file
  (timer, SMI, ACPI, CPU fast-off, the I/O table, the gate of the interval timer) are recorded in
  the list \<open>outcalls\<close>, newest first. The capped \<open>fprintf\<close> traces write no machine state and are
  left out, as are the fields of \<open>pic_t\<close> that no function of the file uses.
\<close>

section \<open>Data\<close>

datatype icw_state = STATE_NONE | STATE_ICW2 | STATE_ICW3 | STATE_ICW4

record pic =
  icw1 :: u8
  icw2 :: u8
  icw3 :: u8
  icw4 :: u8
  imr :: u8
  isr :: u8
  irr :: u8
  ocw2 :: u8
  ocw3 :: u8
  int_pending :: bool
  is_master :: bool
  elcr :: u8
  pic_state :: icw_state
  ack_bytes :: u8
  priority :: u8
  special_mask_mode :: bool
  auto_eoi_rotate :: bool
  interrupt :: u8
  data_bus :: u8
  lines :: "nat \<Rightarrow> u32"
  pic_at :: bool
  zenith :: bool
  slaves :: "nat \<Rightarrow> bool"

datatype pic_id = PIC1 | PIC2

datatype update_kind = Update_xt | Update_at

datatype pic_outcall =
    Timer_on_auto nat
  | Timer_add
  | Smi_raise
  | Acpi_rtc_status bool
  | Cpu_fast_off_advance
  | Latch_io_handler bool
  | Pit_set_gate0 bool

datatype pic_error = Null_slave | Fatal_no_slave_irq | Undefined_shift

record pics =
  pic1 :: pic
  pic2 :: pic
  smi_irq_mask :: u16
  smi_irq_status :: u16
  latched_irqs :: u16
  shadow :: bool
  elcr_enabled :: bool
  tmr_inited :: bool
  pic_pci :: bool
  kbd_latch :: bool
  mouse_latch :: bool
  force_xt_imr_timing :: bool
  update_pending_fn :: "update_kind option"
  is286 :: bool
  cpu_fast_off_flags :: u32
  pit_dev1_present :: bool
  outcalls :: "pic_outcall list"

fun get_pic :: "pic_id \<Rightarrow> pics \<Rightarrow> pic" where
  "get_pic PIC1 s = pic1 s"
| "get_pic PIC2 s = pic2 s"

fun upd_pic :: "pic_id \<Rightarrow> (pic \<Rightarrow> pic) \<Rightarrow> pics \<Rightarrow> pics" where
  "upd_pic PIC1 f s = s\<lparr>pic1 := f (pic1 s)\<rparr>"
| "upd_pic PIC2 f s = s\<lparr>pic2 := f (pic2 s)\<rparr>"

definition outcall :: "pic_outcall \<Rightarrow> pics \<Rightarrow> pics" where
  "outcall e s = s\<lparr>outcalls := e # outcalls s\<rparr>"

text \<open>Continue after a step that may fail.\<close>

fun and_then :: "'e + 'a \<Rightarrow> ('a \<Rightarrow> 'e + 'b) \<Rightarrow> 'e + 'b" where
  "and_then (Inl e) f = Inl e"
| "and_then (Inr a) f = f a"

section \<open>SMI masks and ELCR\<close>

definition pic_reset_smi_irq_mask :: "pics \<Rightarrow> pics" where
  "pic_reset_smi_irq_mask s = s\<lparr>smi_irq_mask := 0\<rparr>"

definition pic_set_smi_irq_mask :: "int \<Rightarrow> bool \<Rightarrow> pics \<Rightarrow> pics" where
  "pic_set_smi_irq_mask irq on s =
     (if 0 \<le> irq \<and> irq \<le> 15 then
        s\<lparr>smi_irq_mask := (if on then smi_irq_mask s OR bitmask (nat irq)
                           else smi_irq_mask s AND NOT (bitmask (nat irq)))\<rparr>
      else s)"

definition pic_clear_smi_irq_status :: "int \<Rightarrow> pics \<Rightarrow> pics" where
  "pic_clear_smi_irq_status irq s =
     (if 0 \<le> irq \<and> irq \<le> 15 then
        s\<lparr>smi_irq_status := smi_irq_status s AND NOT (bitmask (nat irq))\<rparr> else s)"

definition pic_elcr_write :: "u16 \<Rightarrow> u8 \<Rightarrow> pic_id \<Rightarrow> pics \<Rightarrow> pics" where
  "pic_elcr_write port val dev s =
     upd_pic dev (\<lambda>d. d\<lparr>elcr := val AND (if port AND 1 \<noteq> 0 then 0xde else 0xf8)\<rparr>) s"

definition pic_elcr_read :: "pic_id \<Rightarrow> pics \<Rightarrow> u8" where
  "pic_elcr_read dev s = elcr (get_pic dev s)"

definition pic_elcr_set_enabled :: "bool \<Rightarrow> pics \<Rightarrow> pics" where
  "pic_elcr_set_enabled enabled s = s\<lparr>elcr_enabled := enabled\<rparr>"

definition pic_level_triggered :: "pics \<Rightarrow> pic \<Rightarrow> nat \<Rightarrow> bool" where
  "pic_level_triggered s d irq =
     (if elcr_enabled s then tst (elcr d) irq else icw1 d AND 8 \<noteq> 0)"

definition picint_is_level :: "nat \<Rightarrow> pics \<Rightarrow> bool" where
  "picint_is_level irq s = pic_level_triggered s (if 7 < irq then pic2 s else pic1 s) (irq mod 8)"

section \<open>Finding the best interrupt\<close>

definition pic_cascade_mode :: "pic \<Rightarrow> bool" where
  "pic_cascade_mode d \<longleftrightarrow> icw1 d AND 2 = 0"

text \<open>
  \<open>1 << channel\<close> is undefined in C from 32 on; the operands to its left are evaluated first.
\<close>

definition pic_slave_on :: "pic \<Rightarrow> u8 \<Rightarrow> pic_error + bool" where
  "pic_slave_on d ch =
     (if pic_cascade_mode d \<and> (is_master d \<or> icw4 d AND 0x0c = 0x0c) then
        (if 32 \<le> ch then Inl Undefined_shift else Inr (tst (icw3 d) (unat ch)))
      else Inr False)"

text \<open>The level examined in round \<open>i\<close> of the priority loops.\<close>

definition level_at :: "pic \<Rightarrow> nat \<Rightarrow> nat" where
  "level_at d i = unat ((word_of_nat i + priority d) AND 7)"

fun scan_best :: "pic \<Rightarrow> nat list \<Rightarrow> nat option" where
  "scan_best d [] = None"
| "scan_best d (i # is) =
     (let j = level_at d i in
      if tst (isr d) j then None
      else if pic_state d = STATE_NONE \<and> tst (irr d AND NOT (imr d)) j then Some j
      else scan_best d is)"

definition best_interrupt :: "pic \<Rightarrow> nat option" where
  "best_interrupt d = scan_best d [0..<8]"

definition find_best_interrupt :: "pic_id \<Rightarrow> pics \<Rightarrow> nat option \<times> pics" where
  "find_best_interrupt dev s =
     (let d = get_pic dev s; ret = best_interrupt d;
          intr = (case ret of None \<Rightarrow> 0x17 | Some j \<Rightarrow> word_of_nat j);
          s1 = upd_pic dev (\<lambda>d. d\<lparr>interrupt := intr\<rparr>) s;
          n = unat (if dev = PIC2 then intr + 8 else intr)
      in (ret, if pic_at d \<and> ret \<noteq> None \<and> tst (cpu_fast_off_flags s) n
               then outcall Cpu_fast_off_advance s1 else s1))"

definition refresh_pending :: "pic_id \<Rightarrow> pics \<Rightarrow> pics" where
  "refresh_pending dev s =
     (let (ret, s1) = find_best_interrupt dev s
      in upd_pic dev (\<lambda>d. d\<lparr>int_pending := (ret \<noteq> None)\<rparr>) s1)"

definition pic_update_pending_xt :: "pics \<Rightarrow> pics" where
  "pic_update_pending_xt s =
     (if interrupt (pic1 s) AND 0x20 = 0 then refresh_pending PIC1 s else s)"

definition pic_update_pending_at :: "pics \<Rightarrow> pics" where
  "pic_update_pending_at s =
     (if interrupt (pic1 s) AND 0x20 = 0 then
        (let s1 = refresh_pending PIC2 s;
             b = bitmask (unat (icw3 (pic2 s1)));
             s2 = upd_pic PIC1 (\<lambda>d. d\<lparr>irr := (if int_pending (pic2 s1) then irr d OR b
                                               else irr d AND NOT b)\<rparr>) s1
         in refresh_pending PIC1 s2)
      else s)"

definition update_pending :: "pics \<Rightarrow> pics" where
  "update_pending s = (case update_pending_fn s of
       Some Update_xt \<Rightarrow> pic_update_pending_xt s
     | Some Update_at \<Rightarrow> pic_update_pending_at s
     | None \<Rightarrow> s)"

definition pic_callback :: "pics \<Rightarrow> pics" where
  "pic_callback s = update_pending s"

section \<open>Reset\<close>

definition pic_zero :: pic where
  "pic_zero = \<lparr>icw1 = 0, icw2 = 0, icw3 = 0, icw4 = 0, imr = 0, isr = 0, irr = 0, ocw2 = 0,
     ocw3 = 0, int_pending = False, is_master = False, elcr = 0, pic_state = STATE_NONE,
     ack_bytes = 0, priority = 0, special_mask_mode = False, auto_eoi_rotate = False,
     interrupt = 0, data_bus = 0, lines = (\<lambda>_. 0), pic_at = False, zenith = False,
     slaves = (\<lambda>_. False)\<rparr>"

definition pic_reset :: "bool \<Rightarrow> bool \<Rightarrow> pics \<Rightarrow> pics" where
  "pic_reset is_at is_zenith s =
     (let s1 = (if tmr_inited s then outcall (Timer_on_auto 0) s else s);
          s2 = outcall Timer_add s1
      in s2\<lparr>pic1 := pic_zero\<lparr>is_master := True, interrupt := 0x17, pic_at := is_at,
                           zenith := is_zenith, slaves := (\<lambda>i. is_at \<and> i = 2)\<rparr>,
            pic2 := pic_zero\<lparr>interrupt := 0x17, pic_at := is_at, zenith := is_zenith\<rparr>,
            tmr_inited := True,
            update_pending_fn := Some (if is_at then Update_at else Update_xt),
            smi_irq_mask := 0, smi_irq_status := 0, shadow := False, pic_pci := False\<rparr>)"

definition pic_set_shadow :: "bool \<Rightarrow> pics \<Rightarrow> pics" where
  "pic_set_shadow sh s = s\<lparr>shadow := sh\<rparr>"

definition pic_set_force_xt_imr_timing :: "bool \<Rightarrow> pics \<Rightarrow> pics" where
  "pic_set_force_xt_imr_timing enable s = s\<lparr>force_xt_imr_timing := enable\<rparr>"

definition pic_set_pci_flag :: "bool \<Rightarrow> pics \<Rightarrow> pics" where
  "pic_set_pci_flag pci s = s\<lparr>pic_pci := pci\<rparr>"

section \<open>Acknowledge and end of interrupt\<close>

definition acknowledge :: "pics \<Rightarrow> pic \<Rightarrow> pic" where
  "acknowledge s d =
     (let n = unat (interrupt d AND 7); d1 = d\<lparr>isr := isr d OR bitmask n\<rparr>
      in if \<not> pic_level_triggered s d1 n \<or> lines d1 n = 0
         then d1\<lparr>irr := irr d1 AND NOT (bitmask n)\<rparr> else d1)"

definition pic_acknowledge :: "pic_id \<Rightarrow> pics \<Rightarrow> pics" where
  "pic_acknowledge dev s = upd_pic dev (acknowledge s) s"

fun scan_isr :: "pic \<Rightarrow> nat list \<Rightarrow> u8" where
  "scan_isr d [] = 0xff"
| "scan_isr d (i # is) =
     (let j = level_at d i in
      if tst (isr d) j \<and> (\<not> special_mask_mode d \<or> \<not> tst (imr d) j) then word_of_nat j
      else scan_isr d is)"

definition pic_non_specific_find :: "pic \<Rightarrow> u8" where
  "pic_non_specific_find d = scan_isr d [0..<8]"

definition pic_action :: "pic_id \<Rightarrow> u8 \<Rightarrow> bool \<Rightarrow> bool \<Rightarrow> pics \<Rightarrow> pics" where
  "pic_action dev irq eoi rot s =
     (if irq \<noteq> 0xff then
        update_pending (upd_pic dev (\<lambda>d.
          d\<lparr>isr := (if eoi then isr d AND NOT (bitmask (unat irq)) else isr d),
            priority := (if rot then (irq + 1) AND 7 else priority d)\<rparr>) s)
      else s)"

definition pic_auto_non_specific_eoi :: "pic_id \<Rightarrow> pics \<Rightarrow> pics" where
  "pic_auto_non_specific_eoi dev s =
     (let d = get_pic dev s in
      if icw4 d AND 2 \<noteq> 0
      then pic_action dev (pic_non_specific_find d) True (auto_eoi_rotate d) s else s)"

definition pic_command :: "pic_id \<Rightarrow> pics \<Rightarrow> pics" where
  "pic_command dev s =
     (let d = get_pic dev s in
      if ocw2 d AND 0x60 \<noteq> 0 then
        pic_action dev (if ocw2 d AND 0x40 \<noteq> 0 then ocw2 d AND 7 else pic_non_specific_find d)
          (ocw2 d AND 0x20 \<noteq> 0) (ocw2 d AND 0x80 \<noteq> 0) s
      else upd_pic dev (\<lambda>d. d\<lparr>auto_eoi_rotate := (ocw2 d AND 0x80 \<noteq> 0)\<rparr>) s)"

section \<open>Raising and lowering requests\<close>

text \<open>Requests on inputs that carry a slave are dropped; on AT class IRQ 2 becomes IRQ 9.\<close>

fun strip_slaves :: "pic \<Rightarrow> nat list \<Rightarrow> u16 \<Rightarrow> u16" where
  "strip_slaves m [] num = num"
| "strip_slaves m (i # is) num =
     strip_slaves m is
       (if tst (icw3 m) i \<and> tst num i then
          (let n1 = num AND NOT (bitmask i)
           in if pic_at m \<and> i = 2 then n1 OR bitmask 9 else n1)
        else num)"

text \<open>One pass of the loop over the inputs of a level request.\<close>

definition level_step :: "u16 \<Rightarrow> bool \<Rightarrow> bool \<Rightarrow> nat \<Rightarrow> u16 \<times> pics \<Rightarrow> u16 \<times> pics" where
  "level_step num on irq_state i = (\<lambda>(ls, s).
     (let dev = (if i < 8 then PIC1 else PIC2); b = i mod 8 in
      if tst num i then
        (let s1 = (if irq_state \<noteq> on then
                     upd_pic dev (\<lambda>d. d\<lparr>lines := (lines d)(b :=
                       (if on then lines d b + 1 else lines d b - 1))\<rparr>) s
                   else s);
             d = get_pic dev s1
         in (if \<not> pic_level_triggered s1 d b \<or>
                (irq_state \<noteq> on \<and> lines d b = (if on then 1 else 0))
             then ls OR bitmask i else ls, s1))
      else (ls, s)))"

definition raise_irqs :: "u16 \<Rightarrow> pics \<Rightarrow> pics" where
  "raise_irqs num s =
     (let s1 = (if smi_irq_mask s AND num \<noteq> 0
                then (outcall Smi_raise s)\<lparr>smi_irq_status := smi_irq_status s OR num\<rparr> else s);
          s2 = (if num AND 0xff00 \<noteq> 0 then
                  upd_pic PIC2 (\<lambda>d. d\<lparr>irr := irr d OR hi8 num\<rparr>)
                    (if num AND 0x1000 \<noteq> 0 \<and> mouse_latch s1
                     then s1\<lparr>latched_irqs := latched_irqs s1 OR 0x1000\<rparr> else s1)
                else s1)
      in if num AND 0x00ff \<noteq> 0 then
           upd_pic PIC1 (\<lambda>d. d\<lparr>irr := irr d OR lo8 num\<rparr>)
             (if kbd_latch s2 \<and> num AND 0x0002 \<noteq> 0
              then s2\<lparr>latched_irqs := latched_irqs s2 OR 0x0002\<rparr> else s2)
         else s2)"

definition lower_irqs :: "u16 \<Rightarrow> pics \<Rightarrow> pics" where
  "lower_irqs num s =
     (let s1 = s\<lparr>smi_irq_status := smi_irq_status s AND NOT num\<rparr>;
          s2 = (if num AND 0xff00 \<noteq> 0 then
                  upd_pic PIC2 (\<lambda>d. d\<lparr>irr := irr d AND NOT (hi8 num)\<rparr>)
                    (if num AND 0x1000 \<noteq> 0 \<and> mouse_latch s1
                     then s1\<lparr>latched_irqs := latched_irqs s1 AND 0xefff\<rparr> else s1)
                else s1)
      in if num AND 0x00ff \<noteq> 0 then
           upd_pic PIC1 (\<lambda>d. d\<lparr>irr := irr d AND NOT (lo8 num)\<rparr>)
             (if kbd_latch s2 \<and> num AND 0x0002 \<noteq> 0
              then s2\<lparr>latched_irqs := latched_irqs s2 AND 0xfffd\<rparr> else s2)
         else s2)"

definition picint_common :: "u16 \<Rightarrow> bool \<Rightarrow> bool \<Rightarrow> bool \<Rightarrow> pics \<Rightarrow> pics \<times> bool" where
  "picint_common num0 level on irq_state s0 =
     (if update_pending_fn s0 = None then (s0, irq_state)
      else
        let has_slaves = icw3 (pic1 s0) \<noteq> 0;
            num = strip_slaves (pic1 s0) [0..<8] num0
        in if num = 0 then (s0, irq_state)
           else
             let (num1, s1) = (if level
                               then fold (level_step num on irq_state)
                                      [0..<(if has_slaves then 16 else 8)] (0, s0)
                               else (num, s0));
                 irq_state' = (if level \<and> irq_state \<noteq> on then on else irq_state);
                 num2 = (if has_slaves then num1 else num1 AND 0x00ff);
                 s2 = (if num2 AND 0x0100 \<noteq> 0 then outcall (Acpi_rtc_status on) s1 else s1)
             in if num2 \<noteq> 0
                then (update_pending (if on then raise_irqs num2 s2 else lower_irqs num2 s2),
                      irq_state')
                else (s2, irq_state'))"

text \<open>The wrappers of \<open>pic.h\<close> for edge requests.\<close>

definition picint :: "u16 \<Rightarrow> pics \<Rightarrow> pics" where
  "picint num s = fst (picint_common num False True False s)"

definition picintc :: "u16 \<Rightarrow> pics \<Rightarrow> pics" where
  "picintc num s = fst (picint_common num False False False s)"

section \<open>The bus\<close>

definition pic_latch_read :: "pics \<Rightarrow> u8 \<times> pics" where
  "pic_latch_read s =
     (let s1 = (if kbd_latch s \<and> latched_irqs s AND 0x0002 \<noteq> 0 then picintc 0x0002 s else s);
          s2 = (if mouse_latch s1 \<and> latched_irqs s1 AND 0x1000 \<noteq> 0 then picintc 0x1000 s1 else s1)
      in (0xff, s2))"

definition pic_read_icw :: "pic_id \<Rightarrow> u8 \<Rightarrow> pics \<Rightarrow> u8" where
  "pic_read_icw dev icw s =
     (let d = get_pic dev s in
      if icw = 0 then icw1 d else if icw = 1 then icw2 d else if icw = 2 then icw3 d
      else if icw = 3 then icw4 d else 0xff)"

definition pic_read_ocw :: "pic_id \<Rightarrow> u8 \<Rightarrow> pics \<Rightarrow> u8" where
  "pic_read_ocw dev ocw s =
     (let d = get_pic dev s in
      if ocw = 0 then ocw2 d else if ocw = 1 then ocw3 d else 0xff)"

definition shadow_byte :: "pic \<Rightarrow> u16 \<Rightarrow> u8" where
  "shadow_byte d addr =
     (if addr AND 1 \<noteq> 0 then drop_bit 3 (icw2 d AND 0xf8)
      else push_bit 4 (drop_bit 5 (ocw3 d AND 0x20)) OR push_bit 3 (drop_bit 7 (ocw2 d AND 0x80))
        OR push_bit 2 (drop_bit 4 (icw4 d AND 0x10)) OR push_bit 1 (drop_bit 1 (icw4 d AND 0x02))
        OR drop_bit 3 (icw4 d AND 0x08))"

definition poll_read :: "pic_id \<Rightarrow> pics \<Rightarrow> pics" where
  "poll_read dev s0 =
     (let s1 = upd_pic dev (\<lambda>d. d\<lparr>interrupt := interrupt d AND NOT 0x20\<rparr>) s0;
          s2 = (if int_pending (get_pic dev s1) then
                  update_pending (upd_pic dev (\<lambda>d. d\<lparr>int_pending := False\<rparr>)
                    (pic_acknowledge dev
                      (upd_pic dev (\<lambda>d. d\<lparr>data_bus := 0x80 OR (interrupt d AND 7)\<rparr>) s1)))
                else upd_pic dev (\<lambda>d. d\<lparr>data_bus := 0\<rparr>) s1)
      in upd_pic dev (\<lambda>d. d\<lparr>ocw3 := ocw3 d AND NOT 0x04\<rparr>) s2)"

definition pic_read :: "u16 \<Rightarrow> pic_id \<Rightarrow> pics \<Rightarrow> u8 \<times> pics" where
  "pic_read addr dev s =
     (let s2 =
        (if shadow s then upd_pic dev (\<lambda>d. d\<lparr>data_bus := shadow_byte d addr\<rparr>) s
         else
           let s1 = upd_pic dev (\<lambda>d. d\<lparr>data_bus := irr d\<rparr>) s; d = get_pic dev s1 in
           if ocw3 d AND 0x04 \<noteq> 0 then poll_read dev s1
           else if addr AND 1 \<noteq> 0 then upd_pic dev (\<lambda>d. d\<lparr>data_bus := imr d\<rparr>) s1
           else if ocw3 d AND 0x02 \<noteq> 0 \<and> ocw3 d AND 0x01 \<noteq> 0
           then upd_pic dev (\<lambda>d. d\<lparr>data_bus := isr d\<rparr>) s1
           else s1)
      in (data_bus (get_pic dev s2), s2))"

definition icw1_write :: "u8 \<Rightarrow> pic \<Rightarrow> pic" where
  "icw1_write val d =
     d\<lparr>icw1 := val, icw2 := 0, icw3 := 0, icw4 := (if val AND 1 = 0 then 0 else icw4 d),
       ocw2 := 0, ocw3 := 0,
       irr := fold (\<lambda>i w. if 0 < lines d i then w OR bitmask i else w) [0..<8] 0,
       imr := 0, isr := 0, ack_bytes := 0, priority := 0, auto_eoi_rotate := False,
       special_mask_mode := False, interrupt := 0x17, int_pending := False,
       pic_state := STATE_ICW2\<rparr>"

definition ocw3_write :: "u8 \<Rightarrow> pic \<Rightarrow> pic" where
  "ocw3_write val d =
     d\<lparr>ocw3 := val,
       interrupt := (if val AND 0x04 \<noteq> 0 then interrupt d OR 0x20 else interrupt d),
       special_mask_mode := (if val AND 0x40 \<noteq> 0 then val AND 0x20 \<noteq> 0
                             else special_mask_mode d)\<rparr>"

definition imr_write :: "u8 \<Rightarrow> pic_id \<Rightarrow> pics \<Rightarrow> pics" where
  "imr_write val dev s0 =
     (let s = upd_pic dev (\<lambda>d. d\<lparr>imr := val\<rparr>) s0 in
      if is286 s \<and> \<not> force_xt_imr_timing s \<or> zenith (get_pic dev s) then update_pending s
      else if force_xt_imr_timing s then outcall (Timer_on_auto 1) s
      else outcall (Timer_on_auto 0) s)"

definition pic_write :: "u16 \<Rightarrow> u8 \<Rightarrow> pic_id \<Rightarrow> pics \<Rightarrow> pics" where
  "pic_write addr val dev s0 =
     (let s = upd_pic dev (\<lambda>d. d\<lparr>data_bus := val\<rparr>) s0; d = get_pic dev s;
          after = (if icw1 d AND 1 \<noteq> 0 then STATE_ICW4 else STATE_NONE) in
      if addr AND 1 \<noteq> 0 then
        (case pic_state d of
           STATE_ICW2 \<Rightarrow> upd_pic dev (\<lambda>d. d\<lparr>icw2 := val,
             pic_state := (if pic_cascade_mode d then STATE_ICW3 else after)\<rparr>) s
         | STATE_ICW3 \<Rightarrow> upd_pic dev (\<lambda>d. d\<lparr>icw3 := val, pic_state := after\<rparr>) s
         | STATE_ICW4 \<Rightarrow> upd_pic dev (\<lambda>d. d\<lparr>icw4 := val, pic_state := STATE_NONE\<rparr>) s
         | STATE_NONE \<Rightarrow> imr_write val dev s)
      else if val AND 0x10 \<noteq> 0 then
        (if pic_pci s \<and> val AND 0xe0 \<noteq> 0 then s
         else update_pending (upd_pic dev (icw1_write val) s))
      else if val AND 0x08 \<noteq> 0 then upd_pic dev (ocw3_write val) s
      else pic_command dev (upd_pic dev (\<lambda>d. d\<lparr>ocw2 := val\<rparr>) s))"

section \<open>Latches and initialisation\<close>

definition pic_kbd_latch :: "bool \<Rightarrow> pics \<Rightarrow> pics" where
  "pic_kbd_latch enable s =
     (let s1 = (if (enable \<or> mouse_latch s) \<noteq> (kbd_latch s \<or> mouse_latch s)
                then outcall (Latch_io_handler (enable \<or> mouse_latch s)) s else s);
          s2 = s1\<lparr>kbd_latch := enable\<rparr>
      in if enable then s2 else picintc 0x0002 s2)"

definition pic_mouse_latch :: "bool \<Rightarrow> pics \<Rightarrow> pics" where
  "pic_mouse_latch enable s =
     (let s1 = (if (kbd_latch s \<or> enable) \<noteq> (kbd_latch s \<or> mouse_latch s)
                then outcall (Latch_io_handler (kbd_latch s \<or> enable)) s else s);
          s2 = s1\<lparr>mouse_latch := enable\<rparr>
      in if enable then s2 else picintc 0x1000 s2)"

definition pic_reset_hard :: "bool \<Rightarrow> bool \<Rightarrow> bool \<Rightarrow> pics \<Rightarrow> pics" where
  "pic_reset_hard is_at is_zenith ps2_kbc s =
     (let s1 = (pic_reset is_at is_zenith s)\<lparr>kbd_latch := False, mouse_latch := False, latched_irqs := 0\<rparr>
      in pic_mouse_latch ps2_kbc (pic_kbd_latch ps2_kbc s1))"

definition pic_toggle_latch :: "bool \<Rightarrow> pics \<Rightarrow> pics" where
  "pic_toggle_latch is_ps2 s =
     (let s1 = (pic_mouse_latch False (pic_kbd_latch False s))
                 \<lparr>kbd_latch := False, mouse_latch := False, latched_irqs := 0\<rparr>
      in if is_ps2 then pic_mouse_latch True (pic_kbd_latch True s1) else s1)"

definition pic_init :: "bool \<Rightarrow> bool \<Rightarrow> bool \<Rightarrow> pics \<Rightarrow> pics" where
  "pic_init is_at is_zenith ps2_kbc s =
     (pic_reset_hard is_at is_zenith ps2_kbc s)\<lparr>shadow := False\<rparr>"

definition pic2_init :: "pics \<Rightarrow> pics" where
  "pic2_init s = upd_pic PIC1 (\<lambda>d. d\<lparr>slaves := (slaves d)(2 := True)\<rparr>) s"

section \<open>The acknowledge cycle\<close>

definition pic_i86_mode :: "pic \<Rightarrow> bool" where
  "pic_i86_mode d \<longleftrightarrow> icw4 d AND 1 \<noteq> 0"

text \<open>
  \<open>pic_irq_ack_read\<close> calls itself on \<open>slaves[intr]\<close>; \<open>sub\<close> stands for that call. The data bus
  takes the value the slave returns.
\<close>

definition ack_read_with ::
    "(nat \<Rightarrow> pics \<Rightarrow> pic_error + u8 \<times> pics) \<Rightarrow> pic_id \<Rightarrow> u8 \<Rightarrow> pics \<Rightarrow> pic_error + u8 \<times> pics" where
  "ack_read_with sub dev phase s =
     (let d = get_pic dev s; slave = interrupt d AND 0x40 \<noteq> 0; intr = interrupt d AND 0x07;
          put = (\<lambda>v s. upd_pic dev (\<lambda>d. d\<lparr>data_bus := v\<rparr>) s);
          byte = (\<lambda>v s. if slave then and_then (sub (unat intr) s) (\<lambda>(v', s'). Inr (put v' s'))
                        else Inr (put v s));
          ret = (\<lambda>s. Inr (data_bus (get_pic dev s), s));
          eoi = (\<lambda>s. ret (pic_auto_non_specific_eoi dev s))
      in if phase = 0 then
           and_then
             (byte (if pic_i86_mode d then 0xff else 0xcd)
                (pic_acknowledge dev (upd_pic dev (\<lambda>d. d\<lparr>interrupt := interrupt d OR 0x20\<rparr>) s))) ret
         else if pic_i86_mode d then
           and_then
             (byte (intr + (icw2 d AND 0xf8)) (upd_pic dev (\<lambda>d. d\<lparr>int_pending := False\<rparr>) s)) eoi
         else if phase = 1 then
           and_then
             (byte (if icw1 d AND 0x04 \<noteq> 0 then push_bit 2 intr + (icw1 d AND 0xe0)
                    else push_bit 3 intr + (icw1 d AND 0xc0)) s) ret
         else if phase = 2 then
           and_then
             (byte (icw2 d) (upd_pic dev (\<lambda>d. d\<lparr>int_pending := False\<rparr>) s)) eoi
         else ret s)"

definition slave_ack_read :: "u8 \<Rightarrow> pics \<Rightarrow> pic_error + u8 \<times> pics" where
  "slave_ack_read phase = ack_read_with
     (\<lambda>i s. if slaves (pic2 s) i then Inr (0, s) else Inl Null_slave) PIC2 phase"

definition pic_irq_ack_read :: "u8 \<Rightarrow> pics \<Rightarrow> pic_error + u8 \<times> pics" where
  "pic_irq_ack_read phase = ack_read_with
     (\<lambda>i s. if slaves (pic1 s) i then slave_ack_read phase s else Inl Null_slave) PIC1 phase"

text \<open>One acknowledge byte: the read, the byte counter, and the end of the cycle.\<close>

definition ack_byte :: "pics \<Rightarrow> pic_error + u8 \<times> pics" where
  "ack_byte s =
     and_then (pic_irq_ack_read (ack_bytes (pic1 s)) s) (\<lambda>(ret, s1).
       let n = (ack_bytes (pic1 s1) + 1) mod (if pic_i86_mode (pic1 s1) then 2 else 3);
           s2 = upd_pic PIC1 (\<lambda>d. d\<lparr>ack_bytes := n\<rparr>) s1
       in if n = 0 then
            (let s3 = (if interrupt (pic1 s2) AND 0x40 \<noteq> 0
                       then upd_pic PIC2 (\<lambda>d. d\<lparr>interrupt := 0x17\<rparr>) s2 else s2)
             in Inr (ret, update_pending (upd_pic PIC1 (\<lambda>d. d\<lparr>interrupt := 0x17\<rparr>) s3)))
          else Inr (ret, s2))"

definition pic_irq_ack :: "pics \<Rightarrow> pic_error + u8 \<times> pics" where
  "pic_irq_ack s =
     (let m = pic1 s in
      and_then
        (if ack_bytes m = 0 \<and> int_pending m then
           and_then (pic_slave_on m (interrupt m)) (\<lambda>sel.
             if \<not> sel then Inr s
             else if \<not> slaves m (unat (interrupt m)) then Inl Null_slave
             else if \<not> int_pending (pic2 s) then Inl Fatal_no_slave_irq
             else Inr (upd_pic PIC1 (\<lambda>d. d\<lparr>interrupt := interrupt d OR 0x40\<rparr>) s))
         else Inr s)
        ack_byte)"

definition picinterrupt :: "pics \<Rightarrow> pic_error + u8 \<times> pics" where
  "picinterrupt s =
     (let m = pic1 s in
      and_then
        (if int_pending m then
           and_then (pic_slave_on m (interrupt m)) (\<lambda>sel.
             if \<not> sel then Inr s
             else if \<not> slaves m (unat (interrupt m)) then Inl Null_slave
             else if \<not> int_pending (pic2 s)
             then Inr (upd_pic PIC2 (\<lambda>d. d\<lparr>int_pending := True, interrupt := 0x07\<rparr>) s)
             else Inr (upd_pic PIC1 (\<lambda>d. d\<lparr>interrupt := interrupt d OR 0x40\<rparr>) s))
         else Inr (upd_pic PIC1 (\<lambda>d. d\<lparr>int_pending := True, interrupt := 0x07\<rparr>) s))
        (\<lambda>s1.
          let s2 = (if interrupt (pic1 s1) = 0 \<and> pit_dev1_present s1
                    then outcall (Pit_set_gate0 False) s1 else s1)
          in and_then (ack_byte s2) (\<lambda>(_, s3). ack_byte s3)))"

end
