(* ===== verification/Priority.thy ===== *)
theory Priority
  imports Prelude86
begin

text \<open>
  Priority resolution. The interrupt controller and the DMA controller both walk their lines in
  an order that may rotate and take the first that qualifies. The contract of such a walk is
  stated once: the order visits every line exactly once, so a line is picked iff it qualifies and
  no line of smaller rank does.
\<close>

definition first_line :: "nat \<Rightarrow> (nat \<Rightarrow> nat) \<Rightarrow> (nat \<Rightarrow> bool) \<Rightarrow> nat option" where
  "first_line n line P = find P (map line [0..<n])"

locale priority_order =
  fixes n :: nat
    and line :: "nat \<Rightarrow> nat"
    and rank :: "nat \<Rightarrow> nat"
  assumes line_lt: "i < n \<Longrightarrow> line i < n"
    and rank_lt: "j < n \<Longrightarrow> rank j < n"
    and rank_line: "i < n \<Longrightarrow> rank (line i) = i"
    and line_rank: "j < n \<Longrightarrow> line (rank j) = j"
begin

lemma pick_None: "first_line n line P = None \<longleftrightarrow> (\<forall>j < n. \<not> P j)"
proof -
  have "first_line n line P = None \<longleftrightarrow> (\<forall>i < n. \<not> P (line i))"
    by (auto simp: first_line_def find_None_iff)
  also have "\<dots> \<longleftrightarrow> (\<forall>j < n. \<not> P j)"
    using line_lt rank_lt line_rank by metis
  finally show ?thesis .
qed

lemma pick_Some:
  "first_line n line P = Some j \<longleftrightarrow> j < n \<and> P j \<and> (\<forall>k < n. rank k < rank j \<longrightarrow> \<not> P k)"
proof
  assume "first_line n line P = Some j"
  then obtain i where i: "i < n" "j = line i" "P j" and before: "\<And>k. k < i \<Longrightarrow> \<not> P (line k)"
    by (fastforce simp: first_line_def find_Some_iff)
  have "\<not> P k" if "k < n" "rank k < rank j" for k
    using before [of "rank k"] that i line_rank rank_line by force
  with i show "j < n \<and> P j \<and> (\<forall>k < n. rank k < rank j \<longrightarrow> \<not> P k)" using line_lt by blast
next
  assume j: "j < n \<and> P j \<and> (\<forall>k < n. rank k < rank j \<longrightarrow> \<not> P k)"
  then have "first_line n line P \<noteq> None" unfolding pick_None by blast
  then obtain j' where j': "first_line n line P = Some j'" by blast
  then obtain i where i: "i < n" "j' = line i" "P j'" and before: "\<And>k. k < i \<Longrightarrow> \<not> P (line k)"
    by (fastforce simp: first_line_def find_Some_iff)
  have "\<not> rank j' < rank j" using i j line_lt by auto
  moreover have "\<not> rank j < i"
  proof
    assume "rank j < i"
    from before [OF this] j line_rank show False by auto
  qed
  ultimately have "rank j = i" using i rank_line by fastforce
  then show "first_line n line P = Some j" using j' i j line_rank by auto
qed

lemma pick_unique: "first_line n line P = Some j \<Longrightarrow> k < n \<Longrightarrow> P k \<Longrightarrow> rank j \<le> rank k"
  unfolding pick_Some using not_less by blast

end

text \<open>A rotation of \<open>n\<close> lines by \<open>p\<close> is such an order.\<close>

lemma rotation_order:
  assumes "0 < n"
  shows "priority_order n (\<lambda>i. (i + p) mod n) (\<lambda>j. (j + (n - p mod n)) mod n)"
proof
  have p: "p mod n < n" using assms by simp
  have e: "((i + p) mod n + (n - p mod n)) mod n = i mod n" for i
  proof -
    have "((i + p) mod n + (n - p mod n)) mod n = (i + p + (n - p mod n)) mod n"
      by (rule mod_add_left_eq)
    also have "\<dots> = (i + p mod n + (n - p mod n)) mod n"
      by (metis add.commute mod_add_left_eq add.left_commute)
    also have "\<dots> = (i + n) mod n" using p by simp
    finally show ?thesis by simp
  qed
  have f: "((j + (n - p mod n)) mod n + p) mod n = j mod n" for j
  proof -
    have "((j + (n - p mod n)) mod n + p) mod n = (j + (n - p mod n) + p) mod n"
      by (rule mod_add_left_eq)
    also have "\<dots> = (j + (n - p mod n) + p mod n) mod n"
      by (rule mod_add_right_eq [symmetric])
    also have "\<dots> = (j + n) mod n" using p by simp
    finally show ?thesis by simp
  qed
  fix i
  assume i: "i < n"
  show "(i + p) mod n < n" "(i + (n - p mod n)) mod n < n" using assms by simp_all
  show "((i + p) mod n + (n - p mod n)) mod n = i" "((i + (n - p mod n)) mod n + p) mod n = i"
    using e [of i] f [of i] i by simp_all
qed

end
