(* ===== verification/Pic_Service.thy ===== *)
theory Pic_Service
  imports Pic Priority
begin

text \<open>
  What the interrupt controllers of \<open>Pic\<close> promise: the resolution of priorities, the service
  cycle from request to end of interrupt on an XT class machine, the initialisation sequence,
  sharing of level triggered lines, and what happens outside the sequences the code expects.
\<close>

section \<open>Priorities\<close>

lemma unat_and_7: "unat ((w :: u8) AND 7) = unat w mod 8"
proof -
  have m: "(7 :: u8) = mask 3" by (simp add: mask_eq_exp_minus_1)
  show ?thesis unfolding m take_bit_eq_mask [symmetric]
    by (simp only: unsigned_take_bit_eq) (simp add: take_bit_eq_mod)
qed

lemma level_at_eq: "i < 8 \<Longrightarrow> level_at d i = (i + unat (priority d)) mod 8"
proof -
  assume "i < 8"
  have "unat (word_of_nat i + priority d) = (i + unat (priority d)) mod 256"
    using \<open>i < 8\<close> by (simp add: unat_word_ariths unat_of_nat)
  then show ?thesis unfolding level_at_def unat_and_7 by (simp add: mod_mod_cancel)
qed

definition level_rank :: "pic \<Rightarrow> nat \<Rightarrow> nat" where
  "level_rank d j = (j + (8 - unat (priority d) mod 8)) mod 8"

lemma levels_order: "priority_order 8 (level_at d) (level_rank d)"
  using rotation_order [of 8 "unat (priority d)"]
  by (simp add: priority_order_def level_at_eq level_rank_def [abs_def])

interpretation levels: priority_order 8 "level_at d" "level_rank d" for d
  by (rule levels_order)

definition requested :: "pic \<Rightarrow> nat \<Rightarrow> bool" where
  "requested d j \<longleftrightarrow> pic_state d = STATE_NONE \<and> tst (irr d) j \<and> \<not> tst (imr d) j"

lemma tst_irr_imr: "j < 8 \<Longrightarrow> tst (irr d AND NOT (imr d)) j \<longleftrightarrow> tst (irr d) j \<and> \<not> tst (imr d) j"
  by (simp add: tst_and tst_not)

lemma scan_best_eq:
  assumes "\<forall>i \<in> set is. i < 8"
  shows "scan_best d is =
    (case find (\<lambda>j. tst (isr d) j \<or> requested d j) (map (level_at d) is) of
       None \<Rightarrow> None | Some j \<Rightarrow> if tst (isr d) j then None else Some j)"
  using assms
proof (induction "is")
  case (Cons i "is")
  then have "level_at d i < 8" using levels.line_lt by simp
  with Cons show ?case by (auto simp: Let_def requested_def tst_irr_imr)
qed simp

lemma best_interrupt_first:
  "best_interrupt d =
    (case first_line 8 (level_at d) (\<lambda>j. tst (isr d) j \<or> requested d j) of
       None \<Rightarrow> None | Some j \<Rightarrow> if tst (isr d) j then None else Some j)"
  by (simp add: best_interrupt_def scan_best_eq first_line_def)

lemma best_interrupt_iff:
  "best_interrupt d = Some j \<longleftrightarrow>
     j < 8 \<and> requested d j \<and> \<not> tst (isr d) j \<and>
     (\<forall>k < 8. level_rank d k < level_rank d j \<longrightarrow> \<not> tst (isr d) k \<and> \<not> requested d k)"
proof -
  have "best_interrupt d = Some j \<longleftrightarrow>
    first_line 8 (level_at d) (\<lambda>j. tst (isr d) j \<or> requested d j) = Some j \<and> \<not> tst (isr d) j"
    unfolding best_interrupt_first by (auto split: option.splits)
  then show ?thesis unfolding levels.pick_Some by auto
qed

text \<open>C10: The request the controller answers is the right one: \<open>find_best_interrupt\<close> picks level
  \<open>j\<close> exactly when \<open>j\<close> is requested and not masked, no initialisation is under way, \<open>j\<close> is not in
  service, and no level of higher (rotated) priority is in service or requested. The mask does
  not hide a level in service, not even in special mask mode.\<close>

theorem best_interrupt_highest:
  "best_interrupt d = Some j \<longleftrightarrow>
     j < 8 \<and> requested d j \<and> \<not> tst (isr d) j \<and>
     (\<forall>k < 8. level_rank d k < level_rank d j \<longrightarrow> \<not> tst (isr d) k \<and> \<not> requested d k)"
  by (rule best_interrupt_iff)

lemma best_interrupt_highest_witness:
  "requested (pic_zero\<lparr>irr := 0x14\<rparr>) 2 \<and> \<not> requested (pic_zero\<lparr>irr := 0x14\<rparr>) 0"
proof -
  have "best_interrupt (pic_zero\<lparr>irr := 0x14\<rparr>) = Some 2" by code_simp
  moreover have "level_rank (pic_zero\<lparr>irr := 0x14\<rparr>) 0 < level_rank (pic_zero\<lparr>irr := 0x14\<rparr>) 2" by code_simp
  ultimately show ?thesis unfolding best_interrupt_highest by simp
qed

lemma best_interrupt_lt: "best_interrupt d = Some j \<Longrightarrow> j < 8"
  unfolding best_interrupt_first by (auto simp: levels.pick_Some split: option.splits if_splits)

lemma scan_isr_eq:
  "scan_isr d is =
    (case find (\<lambda>j. tst (isr d) j \<and> (\<not> special_mask_mode d \<or> \<not> tst (imr d) j)) (map (level_at d) is) of
       None \<Rightarrow> 0xff | Some j \<Rightarrow> word_of_nat j)"
  by (induction "is") (auto simp: Let_def)

lemma non_specific_first:
  "pic_non_specific_find d =
    (case first_line 8 (level_at d) (\<lambda>j. tst (isr d) j \<and> (\<not> special_mask_mode d \<or> \<not> tst (imr d) j)) of
       None \<Rightarrow> 0xff | Some j \<Rightarrow> word_of_nat j)"
  by (simp add: pic_non_specific_find_def scan_isr_eq first_line_def)

section \<open>The service cycle of an XT class machine\<close>

lemma scan_best_frame [simp]:
  "scan_best (d\<lparr>interrupt := v\<rparr>) is = scan_best d is"
  "scan_best (d\<lparr>int_pending := b\<rparr>) is = scan_best d is"
  "scan_best (d\<lparr>data_bus := v\<rparr>) is = scan_best d is"
  "scan_best (d\<lparr>ack_bytes := v\<rparr>) is = scan_best d is"
  "scan_best (d\<lparr>ocw2 := v\<rparr>) is = scan_best d is"
  by (induction "is") (simp_all add: level_at_def Let_def)

lemma best_interrupt_frame [simp]:
  "best_interrupt (d\<lparr>interrupt := v\<rparr>) = best_interrupt d"
  "best_interrupt (d\<lparr>int_pending := b\<rparr>) = best_interrupt d"
  "best_interrupt (d\<lparr>data_bus := v\<rparr>) = best_interrupt d"
  "best_interrupt (d\<lparr>ack_bytes := v\<rparr>) = best_interrupt d"
  "best_interrupt (d\<lparr>ocw2 := v\<rparr>) = best_interrupt d"
  by (simp_all add: best_interrupt_def)

text \<open>The controller with its INT output and pending level up to date.\<close>

definition settle :: "pic \<Rightarrow> pic" where
  "settle d = d\<lparr>interrupt := (case best_interrupt d of None \<Rightarrow> 0x17 | Some j \<Rightarrow> word_of_nat j),
                int_pending := (best_interrupt d \<noteq> None)\<rparr>"

lemma settle_frame [simp]:
  "isr (settle d) = isr d" "irr (settle d) = irr d" "imr (settle d) = imr d"
  "icw1 (settle d) = icw1 d" "icw2 (settle d) = icw2 d" "icw3 (settle d) = icw3 d"
  "icw4 (settle d) = icw4 d" "pic_state (settle d) = pic_state d" "priority (settle d) = priority d"
  "ack_bytes (settle d) = ack_bytes d" "special_mask_mode (settle d) = special_mask_mode d"
  "ocw2 (settle d) = ocw2 d" "ocw3 (settle d) = ocw3 d" "lines (settle d) = lines d"
  "zenith (settle d) = zenith d" "data_bus (settle d) = data_bus d" "elcr (settle d) = elcr d" "slaves (settle d) = slaves d"
  "is_master (settle d) = is_master d"
  "best_interrupt (settle d) = best_interrupt d" "settle (settle d) = settle d"
  "int_pending (settle d) = (best_interrupt d \<noteq> None)"
  "settle (d\<lparr>interrupt := v\<rparr>) = settle d" "settle (d\<lparr>int_pending := b\<rparr>) = settle d"
  "settle ((settle d)\<lparr>data_bus := w\<rparr>) = settle (d\<lparr>data_bus := w\<rparr>)"
  by (simp_all add: settle_def)

lemma pic1_refresh [simp]: "pic1 (refresh_pending PIC1 s) = settle (pic1 s)"
  by (simp add: refresh_pending_def find_best_interrupt_def Let_def settle_def outcall_def)

lemma refresh_frame [simp]:
  "update_pending_fn (refresh_pending d s) = update_pending_fn s"
  "elcr_enabled (refresh_pending d s) = elcr_enabled s"
  by (cases d; simp add: refresh_pending_def find_best_interrupt_def Let_def outcall_def)+

lemma pic1_update_pending:
  "update_pending_fn s = Some Update_xt \<Longrightarrow>
   pic1 (update_pending s) = (if interrupt (pic1 s) AND 0x20 = 0 then settle (pic1 s) else pic1 s)"
  by (simp add: update_pending_def pic_update_pending_xt_def)

lemma update_pending_frame [simp]:
  "update_pending_fn (update_pending s) = update_pending_fn s"
  "elcr_enabled (update_pending s) = elcr_enabled s"
  by (simp_all add: update_pending_def pic_update_pending_xt_def pic_update_pending_at_def Let_def
      split: option.split update_kind.split)

text \<open>
  An XT class machine between two interrupt cycles: one controller, single and 8086 mode, edge
  triggered, no automatic end of interrupt, initialised, not frozen.
\<close>

definition xt_ready :: "pics \<Rightarrow> bool" where
  "xt_ready s \<longleftrightarrow> update_pending_fn s = Some Update_xt \<and> \<not> elcr_enabled s \<and>
     (let d = pic1 s in
        \<not> pic_cascade_mode d \<and> pic_i86_mode d \<and> icw1 d AND 8 = 0 \<and> icw4 d AND 2 = 0 \<and>
        ack_bytes d = 0 \<and> \<not> special_mask_mode d \<and> settle d = d)"

lemma less_8_cases:
  "(j :: nat) < 8 \<Longrightarrow> j = 0 \<or> j = 1 \<or> j = 2 \<or> j = 3 \<or> j = 4 \<or> j = 5 \<or> j = 6 \<or> j = 7"
  by arith

lemma irq_number_bits:
  assumes "j < 8"
  shows "(word_of_nat j :: u8) AND 0x40 = 0" "(word_of_nat j :: u8) AND 0x20 = 0"
    "((word_of_nat j :: u8) OR 0x20) AND 0x40 = 0" "((word_of_nat j :: u8) OR 0x20) AND 7 = word_of_nat j"
    "unat (word_of_nat j :: u8) = j"
  using less_8_cases [OF assms] by auto

text \<open>What serving level \<open>j\<close> does to the controller.\<close>

definition served :: "nat \<Rightarrow> pic \<Rightarrow> pic" where
  "served j d = d\<lparr>isr := isr d OR bitmask j, irr := irr d AND NOT (bitmask j),
                 data_bus := word_of_nat j + (icw2 d AND 0xf8)\<rparr>"

lemma settled_interrupt:
  assumes "settle d = d" "best_interrupt d = Some j"
  shows "interrupt d = word_of_nat j" "int_pending d"
proof -
  have "interrupt d = interrupt (settle d)" "int_pending d = int_pending (settle d)" using assms by simp_all
  then show "interrupt d = word_of_nat j" "int_pending d" by (simp_all add: settle_def assms(2))
qed

lemma ack_first:
  assumes "xt_ready s" "best_interrupt (pic1 s) = Some j" and d: "d = pic1 s"
  shows "ack_byte s = Inr (0xff, s\<lparr>pic1 := d\<lparr>interrupt := word_of_nat j OR 0x20,
     isr := isr d OR bitmask j, irr := irr d AND NOT (bitmask j), data_bus := 0xff, ack_bytes := 1\<rparr>\<rparr>)"
proof -
  have j: "j < 8" by (rule best_interrupt_lt [OF assms(2)])
  have r: "settle d = d" "pic_i86_mode d" "icw1 d AND 8 = 0" "ack_bytes d = 0" "\<not> elcr_enabled s"
    using assms by (simp_all add: xt_ready_def Let_def)
  have i: "interrupt d = word_of_nat j" by (rule settled_interrupt [OF r(1)]) (simp add: assms)
  show ?thesis
    using r i d
    by (simp add: ack_byte_def pic_irq_ack_read_def ack_read_with_def Let_def irq_number_bits [OF j]
        pic_acknowledge_def acknowledge_def pic_level_triggered_def pic_i86_mode_def)
qed

lemma ack_second:
  assumes "update_pending_fn s = Some Update_xt" "j < 8" "d = pic1 s"
    and "interrupt d = word_of_nat j OR 0x20" "ack_bytes d = 1" "pic_i86_mode d" "icw4 d AND 2 = 0"
  shows "ack_byte s = Inr (word_of_nat j + (icw2 d AND 0xf8),
     update_pending (s\<lparr>pic1 := d\<lparr>int_pending := False,
       data_bus := word_of_nat j + (icw2 d AND 0xf8), ack_bytes := 0, interrupt := 0x17\<rparr>\<rparr>))"
  using assms
  by (simp add: ack_byte_def pic_irq_ack_read_def ack_read_with_def Let_def irq_number_bits [OF assms(2)]
      pic_i86_mode_def pic_auto_non_specific_eoi_def)

lemma picinterrupt_xt:
  assumes "xt_ready s" "best_interrupt (pic1 s) = Some j"
  shows "\<exists>s'. picinterrupt s = Inr (word_of_nat j + (icw2 (pic1 s) AND 0xf8), s') \<and>
     pic1 s' = settle (served j (pic1 s)) \<and> update_pending_fn s' = Some Update_xt \<and>
     \<not> elcr_enabled s'"
proof -
  let ?d = "pic1 s"
  have j: "j < 8" by (rule best_interrupt_lt [OF assms(2)])
  have r: "settle ?d = ?d" "update_pending_fn s = Some Update_xt" "\<not> elcr_enabled s" "\<not> pic_cascade_mode ?d"
    "pic_i86_mode ?d" "icw4 ?d AND 2 = 0" "ack_bytes ?d = 0"
    using assms by (simp_all add: xt_ready_def Let_def)
  note i = settled_interrupt [OF r(1) assms(2)]
  let ?s2 = "if interrupt ?d = 0 \<and> pit_dev1_present s then outcall (Pit_set_gate0 False) s else s"
  have p: "picinterrupt s = and_then (ack_byte ?s2) (\<lambda>(_, s3). ack_byte s3)"
    using i r(4) by (simp add: picinterrupt_def pic_slave_on_def Let_def)
  have s2: "xt_ready ?s2" "pic1 ?s2 = ?d" "update_pending_fn ?s2 = Some Update_xt" "\<not> elcr_enabled ?s2"
    using assms(1) r by (simp_all add: xt_ready_def outcall_def Let_def)
  define s3 where "s3 = ?s2\<lparr>pic1 := ?d\<lparr>interrupt := word_of_nat j OR 0x20,
     isr := isr ?d OR bitmask j, irr := irr ?d AND NOT (bitmask j), data_bus := 0xff, ack_bytes := 1\<rparr>\<rparr>"
  have f: "ack_byte ?s2 = Inr (0xff, s3)"
    unfolding s3_def by (rule ack_first [OF s2(1)]) (simp_all add: s2 assms)
  have s3: "update_pending_fn s3 = Some Update_xt" "\<not> elcr_enabled s3" using s2 by (simp_all add: s3_def)
  define s4 where "s4 = s3\<lparr>pic1 := (pic1 s3)\<lparr>int_pending := False,
     data_bus := word_of_nat j + (icw2 ?d AND 0xf8), ack_bytes := 0, interrupt := 0x17\<rparr>\<rparr>"
  have g: "ack_byte s3 = Inr (word_of_nat j + (icw2 ?d AND 0xf8), update_pending s4)"
    unfolding s4_def using ack_second [OF s3(1) j refl] r by (simp add: s3_def pic_i86_mode_def)
  have u: "update_pending_fn s4 = Some Update_xt" "\<not> elcr_enabled s4" using s3 by (simp_all add: s4_def)
  have "pic1 (update_pending s4) = settle (pic1 s4)"
    using u by (simp add: pic1_update_pending s4_def)
  also have "\<dots> = settle (served j ?d)"
    using r(7) by (simp add: s4_def s3_def served_def settle_def best_interrupt_def)
  finally show ?thesis using u by (simp add: p f g)
qed

lemma xt_ready_served:
  assumes "xt_ready s" "pic1 s' = settle (served j (pic1 s))" "update_pending_fn s' = Some Update_xt"
    "\<not> elcr_enabled s'"
  shows "xt_ready s'"
  using assms by (simp add: xt_ready_def Let_def served_def pic_cascade_mode_def pic_i86_mode_def)

lemma acknowledge_cycle_facts:
  assumes "xt_ready s" and "best_interrupt (pic1 s) = Some j"
  shows "\<exists>s'. picinterrupt s = Inr (word_of_nat j + (icw2 (pic1 s) AND 0xf8), s') \<and>
     isr (pic1 s') = isr (pic1 s) OR bitmask j \<and> irr (pic1 s') = irr (pic1 s) AND NOT (bitmask j) \<and>
     xt_ready s'"
  using picinterrupt_xt [OF assms] xt_ready_served [OF assms(1)] by (fastforce simp: served_def)

text \<open>The acknowledge cycle on an XT class machine. When the controller has a best request
  \<open>j\<close>, the two acknowledge bytes of \<open>picinterrupt\<close> cannot fail, return the vector
  \<open>(ICW2 & 0xf8) + j\<close>, move \<open>j\<close> from the request to the in-service register and leave the
  controller ready for the next cycle.\<close>

theorem interrupt_acknowledge_cycle:
  assumes "xt_ready s" and "best_interrupt (pic1 s) = Some j"
  shows "\<exists>s'. picinterrupt s = Inr (word_of_nat j + (icw2 (pic1 s) AND 0xf8), s') \<and>
     isr (pic1 s') = isr (pic1 s) OR bitmask j \<and> irr (pic1 s') = irr (pic1 s) AND NOT (bitmask j) \<and>
     xt_ready s'"
  by (rule acknowledge_cycle_facts [OF assms])

lemma non_specific_finds_served:
  assumes "best_interrupt d = Some j" "\<not> special_mask_mode d"
  shows "pic_non_specific_find (served j d) = word_of_nat j"
proof -
  note b = best_interrupt_iff [THEN iffD1, OF assms(1)]
  have f: "level_at (served j d) = level_at d" "level_rank (served j d) = level_rank d"
    by (auto simp: level_at_def level_rank_def served_def)
  have "first_line 8 (level_at (served j d)) (tst (isr (served j d))) = Some j"
    unfolding levels.pick_Some f using b by (auto simp: served_def tst_or tst_bitmask)
  then show ?thesis using assms(2) by (simp add: non_specific_first served_def)
qed

lemma or_bitmask_clear:
  "\<not> tst w j \<Longrightarrow> (w OR bitmask j) AND NOT (bitmask j) = (w :: u8)"
  by (rule word_eqI_tst) (auto simp: tst_or tst_and tst_not tst_bitmask)

lemma eoi_write:
  assumes "update_pending_fn s = Some Update_xt" "pic1 s = settle d"
    and "pic_non_specific_find d = word_of_nat j" "j < 8"
  shows "isr (pic1 (pic_write 0x20 0x20 PIC1 s)) = isr d AND NOT (bitmask j)"
    and "irr (pic1 (pic_write 0x20 0x20 PIC1 s)) = irr d"
proof -
  have l: "level_at ((settle d)\<lparr>data_bus := v, ocw2 := w\<rparr>) = level_at d" for v w
    by (simp add: fun_eq_iff level_at_def)
  have scan: "scan_isr ((settle d)\<lparr>data_bus := v, ocw2 := w\<rparr>) is = scan_isr d is" for v w "is"
    by (induction "is") (auto simp: l Let_def)
  have "(word_of_nat j :: u8) \<noteq> 0xff" using less_8_cases [OF assms(4)] by auto
  then show "isr (pic1 (pic_write 0x20 0x20 PIC1 s)) = isr d AND NOT (bitmask j)"
    "irr (pic1 (pic_write 0x20 0x20 PIC1 s)) = irr d"
    using assms irq_number_bits(5) [OF assms(4)]
    by (simp_all add: pic_write_def Let_def pic_command_def pic_non_specific_find_def scan pic_action_def
        pic1_update_pending)
qed

text \<open>An end of interrupt retires exactly the interrupt just served: the non-specific EOI
  command (0x20 written to port 0x20) after an acknowledge cycle restores the in-service
  register to its value before the cycle, whatever other levels were and are in service.\<close>

theorem eoi_undoes_acknowledge:
  assumes "xt_ready s" and "best_interrupt (pic1 s) = Some j" and "picinterrupt s = Inr (v, s')"
  shows "isr (pic1 (pic_write 0x20 0x20 PIC1 s')) = isr (pic1 s)"
proof -
  from picinterrupt_xt [OF assms(1,2)] assms(3)
  have s': "pic1 s' = settle (served j (pic1 s))" "update_pending_fn s' = Some Update_xt" by auto
  have "\<not> special_mask_mode (pic1 s)" using assms(1) by (simp add: xt_ready_def Let_def)
  note n = non_specific_finds_served [OF assms(2) this]
  note b = best_interrupt_iff [THEN iffD1, OF assms(2)]
  have "isr (pic1 (pic_write 0x20 0x20 PIC1 s')) = isr (served j (pic1 s)) AND NOT (bitmask j)"
    by (rule eoi_write(1) [OF s'(2,1) n]) (use b in simp)
  then show ?thesis using b by (simp add: served_def or_bitmask_clear)
qed

section \<open>Requests\<close>

lemma strip_slaves_none: "icw3 m = 0 \<Longrightarrow> strip_slaves m is num = num"
  by (induction "is" arbitrary: num) simp_all

lemma pic1_raise:
  "num AND 0x00ff \<noteq> 0 \<Longrightarrow> pic1 (raise_irqs num s) = (pic1 s)\<lparr>irr := irr (pic1 s) OR lo8 num\<rparr>"
  by (simp add: raise_irqs_def Let_def outcall_def)

lemma pic1_lower:
  "num AND 0x00ff \<noteq> 0 \<Longrightarrow> pic1 (lower_irqs num s) = (pic1 s)\<lparr>irr := irr (pic1 s) AND NOT (lo8 num)\<rparr>"
  by (simp add: lower_irqs_def Let_def)

lemma irqs_frame [simp]:
  "update_pending_fn (raise_irqs num s) = update_pending_fn s"
  "elcr_enabled (raise_irqs num s) = elcr_enabled s"
  "update_pending_fn (lower_irqs num s) = update_pending_fn s"
  "elcr_enabled (lower_irqs num s) = elcr_enabled s"
  by (simp_all add: raise_irqs_def lower_irqs_def Let_def outcall_def)

lemma irq_mask_bits:
  assumes "i < 8"
  shows "(bitmask i :: u16) AND 0x00ff = bitmask i" "(bitmask i :: u16) \<noteq> 0"
    "(bitmask i :: u16) AND 0x0100 = 0" "lo8 (bitmask i) = bitmask i"
  using less_8_cases [OF assms] by (auto simp: bitmask_def lo8_def)

lemma strip_slaves_clear:
  "(\<And>i. i \<in> set is \<Longrightarrow> \<not> (tst (icw3 m) i \<and> tst num i)) \<Longrightarrow> strip_slaves m is num = num"
  by (induction "is" arbitrary: num) auto

lemma pic1_picint_unslaved:
  assumes "i < 8" "update_pending_fn s = Some Update_xt" "\<not> tst (icw3 (pic1 s)) i"
    and "interrupt (pic1 s) AND 0x20 = 0"
  shows "pic1 (picint (bitmask i) s) = settle ((pic1 s)\<lparr>irr := irr (pic1 s) OR bitmask i\<rparr>)"
    and "update_pending_fn (picint (bitmask i) s) = Some Update_xt"
proof -
  have "strip_slaves (pic1 s) [0..<8] (bitmask i) = bitmask i"
    using assms(3) by (intro strip_slaves_clear) (auto simp: tst_bitmask)
  then show "pic1 (picint (bitmask i) s) = settle ((pic1 s)\<lparr>irr := irr (pic1 s) OR bitmask i\<rparr>)"
    "update_pending_fn (picint (bitmask i) s) = Some Update_xt"
    using assms
    by (simp_all add: picint_def picint_common_def Let_def irq_mask_bits pic1_raise pic1_update_pending)
qed

lemma pic1_picint:
  assumes "i < 8" "update_pending_fn s = Some Update_xt" "icw3 (pic1 s) = 0" "interrupt (pic1 s) AND 0x20 = 0"
  shows "pic1 (picint (bitmask i) s) = settle ((pic1 s)\<lparr>irr := irr (pic1 s) OR bitmask i\<rparr>)"
    and "update_pending_fn (picint (bitmask i) s) = Some Update_xt"
    and "elcr_enabled (picint (bitmask i) s) = elcr_enabled s"
  using assms
  by (simp_all add: picint_def picint_common_def Let_def strip_slaves_none irq_mask_bits pic1_raise
      pic1_update_pending)

lemma settled_unfrozen: "settle d = d \<Longrightarrow> interrupt d AND 0x20 = 0"
proof -
  assume "settle d = d"
  then have "interrupt d = (case best_interrupt d of None \<Rightarrow> 0x17 | Some j \<Rightarrow> word_of_nat j)"
    by (metis settle_def pic.select_convs(18) pic.surjective pic.update_convs(10) pic.update_convs(18))
  then show ?thesis by (auto split: option.splits dest!: best_interrupt_lt irq_number_bits(2))
qed

text \<open>C15: From pin to vector. On an idle, initialised XT class controller with no slave
  inputs, an edge request on an unmasked line \<open>i\<close> makes the next acknowledge cycle return the
  vector of line \<open>i\<close>.\<close>

theorem edge_request_reaches_cpu:
  assumes "xt_ready s" and "icw3 (pic1 s) = 0" and "pic_state (pic1 s) = STATE_NONE"
    and "isr (pic1 s) = 0" and "irr (pic1 s) = 0" and "\<not> tst (imr (pic1 s)) i" and "i < 8"
  shows "\<exists>s'. picinterrupt (picint (bitmask i) s) = Inr (word_of_nat i + (icw2 (pic1 s) AND 0xf8), s') \<and>
     isr (pic1 s') = bitmask i \<and> irr (pic1 s') = 0"
proof -
  have r: "settle (pic1 s) = pic1 s" "update_pending_fn s = Some Update_xt"
    using assms(1) by (simp_all add: xt_ready_def Let_def)
  note p = pic1_picint [OF assms(7) r(2) assms(2) settled_unfrozen [OF r(1)]]
  have ready: "xt_ready (picint (bitmask i) s)"
    using assms(1) p by (simp add: xt_ready_def Let_def pic_cascade_mode_def pic_i86_mode_def)
  have best: "best_interrupt (pic1 (picint (bitmask i) s)) = Some i"
    unfolding best_interrupt_iff
    using assms by (auto simp: p requested_def tst_bitmask)
  from acknowledge_cycle_facts [OF ready best] obtain s' where
    "picinterrupt (picint (bitmask i) s) = Inr (word_of_nat i + (icw2 (pic1 s) AND 0xf8), s')"
    "isr (pic1 s') = bitmask i" "irr (pic1 s') = 0"
    using assms by (auto simp: p)
  then show ?thesis by blast
qed

section \<open>A booted machine\<close>

definition pics_blank :: pics where
  "pics_blank = \<lparr>pic1 = pic_zero, pic2 = pic_zero, smi_irq_mask = 0, smi_irq_status = 0,
     latched_irqs = 0, shadow = False, elcr_enabled = False, tmr_inited = False, pic_pci = False,
     kbd_latch = False, mouse_latch = False, force_xt_imr_timing = True, update_pending_fn = None,
     is286 = True, cpu_fast_off_flags = 0, pit_dev1_present = False, outcalls = []\<rparr>"

text \<open>An XT class machine after reset and the initialisation its BIOS performs.\<close>

definition xt_boot :: pics where
  "xt_boot = pic_write 0x21 0x09 PIC1 (pic_write 0x21 0x08 PIC1 (pic_write 0x20 0x13 PIC1
     (pic_reset False False pics_blank)))"

lemma best_none: "isr d = 0 \<Longrightarrow> irr d = 0 \<Longrightarrow> best_interrupt d = None"
  unfolding best_interrupt_first by (auto simp: levels.pick_Some requested_def split: option.splits)

lemma xt_boot_pic1:
  "pic1 xt_boot = pic_zero\<lparr>is_master := True, interrupt := 0x17, icw1 := 0x13, icw2 := 0x08,
     icw4 := 0x09, data_bus := 0x09\<rparr>"
  "update_pending_fn xt_boot = Some Update_xt" "elcr_enabled xt_boot = False"
  "pit_dev1_present xt_boot = False" "shadow xt_boot = False"
proof -
  have z: "fold (\<lambda>i w. if 0 < lines pic_zero i then w OR bitmask i else w) [0..<8] 0 = (0 :: u8)"
    by (rule fold_invariant [of "\<lambda>w. w = 0"]) (simp_all add: pic_zero_def)
  note defs = xt_boot_def pic_write_def pic_reset_def Let_def outcall_def icw1_write_def
    pics_blank_def pic_cascade_mode_def update_pending_def pic_update_pending_xt_def
    refresh_pending_def find_best_interrupt_def
  have b: "best_interrupt d = None" if "irr d = 0" "isr d = 0" for d using that best_none by blast
  show "update_pending_fn xt_boot = Some Update_xt" "elcr_enabled xt_boot = False"
    "pit_dev1_present xt_boot = False" "shadow xt_boot = False"
    by (simp_all add: defs b z pic_zero_def)
  show "pic1 xt_boot = pic_zero\<lparr>is_master := True, interrupt := 0x17, icw1 := 0x13, icw2 := 0x08,
     icw4 := 0x09, data_bus := 0x09\<rparr>"
    using z by (simp add: defs b pic_zero_def)
qed

lemma xt_boot_ready: "xt_ready xt_boot"
  using best_none [of "pic1 xt_boot"]
  by (simp add: xt_ready_def xt_boot_pic1 Let_def settle_def pic_cascade_mode_def pic_i86_mode_def
      pic_zero_def)

lemma edge_request_reaches_cpu_witness:
  "\<exists>s'. picinterrupt (picint (bitmask 6) xt_boot) = Inr (0x0e, s') \<and> isr (pic1 s') = 0x40"
proof -
  have "icw3 (pic1 xt_boot) = 0" "pic_state (pic1 xt_boot) = STATE_NONE" "isr (pic1 xt_boot) = 0"
    "irr (pic1 xt_boot) = 0" "\<not> tst (imr (pic1 xt_boot)) 6" "icw2 (pic1 xt_boot) = 8"
    by (simp_all add: xt_boot_pic1 pic_zero_def)
  with edge_request_reaches_cpu [OF xt_boot_ready, of 6] show ?thesis by (auto simp: bitmask_def)
qed

text \<open>Lines 2 and 6 are requested at once.\<close>

definition xt_two_requests :: pics where
  "xt_two_requests = picint (bitmask 2) (picint (bitmask 6) xt_boot)"

lemma xt_two_requests_ready: "xt_ready xt_two_requests" "best_interrupt (pic1 xt_two_requests) = Some 2"
  "icw2 (pic1 xt_two_requests) = 8" "isr (pic1 xt_two_requests) = 0"
proof -
  have u: "update_pending_fn xt_boot = Some Update_xt" "icw3 (pic1 xt_boot) = 0"
     "interrupt (pic1 xt_boot) AND 0x20 = 0"
    by (simp_all add: xt_boot_pic1 pic_zero_def)
  note p = pic1_picint [OF _ u, of 6]
  define t where "t = picint (bitmask 6) xt_boot"
  have t: "pic1 t = settle ((pic1 xt_boot)\<lparr>irr := irr (pic1 xt_boot) OR bitmask 6\<rparr>)"
    "update_pending_fn t = Some Update_xt" "elcr_enabled t = elcr_enabled xt_boot"
    using p by (simp_all add: t_def)
  have fz: "interrupt (pic1 t) AND 0x20 = 0" unfolding t(1) by (rule settled_unfrozen) simp
  have i3: "icw3 (pic1 t) = 0" by (simp add: t(1) u)
  note q = pic1_picint [OF _ t(2) i3 fz, of 2]
  have w: "xt_two_requests = picint (bitmask 2) t" by (simp add: xt_two_requests_def t_def)
  show "xt_ready xt_two_requests" "icw2 (pic1 xt_two_requests) = 8" "isr (pic1 xt_two_requests) = 0"
    using q by (simp_all add: w xt_ready_def t xt_boot_pic1 Let_def pic_cascade_mode_def pic_i86_mode_def
      pic_zero_def)
  show "best_interrupt (pic1 xt_two_requests) = Some 2"
    unfolding w best_interrupt_iff
    by (auto simp: q t xt_boot_pic1 pic_zero_def requested_def tst_or tst_bitmask level_rank_def)
qed

lemma interrupt_acknowledge_cycle_witness:
  "\<exists>s'. picinterrupt xt_two_requests = Inr (0x0a, s') \<and> isr (pic1 s') = 0x04"
  using interrupt_acknowledge_cycle [OF xt_two_requests_ready(1,2)]
  by (auto simp: xt_two_requests_ready bitmask_def)

lemma eoi_undoes_acknowledge_witness:
  "\<exists>v s'. picinterrupt xt_two_requests = Inr (v, s') \<and> isr (pic1 (pic_write 0x20 0x20 PIC1 s')) = 0"
proof -
  obtain v s' where "picinterrupt xt_two_requests = Inr (v, s')"
    using picinterrupt_xt [OF xt_two_requests_ready(1,2)] by blast
  with eoi_undoes_acknowledge [OF xt_two_requests_ready(1,2) this] show ?thesis
    by (auto simp: xt_two_requests_ready)
qed

section \<open>Sharing a level triggered line\<close>

lemma level_step_other: "\<not> tst num k \<Longrightarrow> level_step num on st k x = x"
  by (cases x) (simp add: level_step_def)

lemma fold_level_step:
  assumes "i < 8"
  shows "fold (level_step (bitmask i) on st) [0..<8] x = level_step (bitmask i) on st i x"
proof -
  have other: "fold (level_step (bitmask i) on st) ks x = x" if "i \<notin> set ks" for ks x
    using that by (induction ks arbitrary: x) (auto simp: level_step_other tst_bitmask)
  have "[0..<8] = [0..<i] @ i # [Suc i..<8]"
    using upt_add_eq_append [of 0 i "8 - i"] assms by (simp add: upt_conv_Cons)
  then show ?thesis by (simp add: other)
qed

text \<open>The XT class controller with line \<open>i\<close> level triggered and no slave inputs.\<close>

definition level_line :: "nat \<Rightarrow> pics \<Rightarrow> bool" where
  "level_line i s \<longleftrightarrow> update_pending_fn s = Some Update_xt \<and> icw3 (pic1 s) = 0 \<and>
     pic_level_triggered s (pic1 s) i"

lemma level_triggered_cong:
  "icw1 d = icw1 e \<Longrightarrow> elcr d = elcr e \<Longrightarrow> elcr_enabled s = elcr_enabled t \<Longrightarrow>
   pic_level_triggered s d i = pic_level_triggered t e i"
  by (simp add: pic_level_triggered_def)

lemma pic1_update_frame:
  assumes "update_pending_fn s = Some Update_xt"
  shows "irr (pic1 (update_pending s)) = irr (pic1 s)" "lines (pic1 (update_pending s)) = lines (pic1 s)"
    "icw1 (pic1 (update_pending s)) = icw1 (pic1 s)" "elcr (pic1 (update_pending s)) = elcr (pic1 s)"
    "icw3 (pic1 (update_pending s)) = icw3 (pic1 s)"
  by (simp_all add: pic1_update_pending [OF assms] settle_def)

lemma level_request:
  assumes "level_line i s" "i < 8" and r: "(s', st') = picint_common (bitmask i) True on st s"
  shows "level_line i s'" "st' = on"
    and "lines (pic1 s') i = (if st = on then lines (pic1 s) i
           else if on then lines (pic1 s) i + 1 else lines (pic1 s) i - 1)"
    and "tst (irr (pic1 s')) i =
           (if st \<noteq> on \<and> lines (pic1 s') i = (if on then 1 else 0) then on
            else tst (irr (pic1 s)) i)"
proof -
  have a: "update_pending_fn s = Some Update_xt" "icw3 (pic1 s) = 0" "pic_level_triggered s (pic1 s) i"
    using assms(1) by (simp_all add: level_line_def)
  let ?n = "if on then lines (pic1 s) i + 1 else lines (pic1 s) i - 1"
  let ?s1 = "if st = on then s else s\<lparr>pic1 := (pic1 s)\<lparr>lines := (lines (pic1 s))(i := ?n)\<rparr>\<rparr>"
  let ?hit = "st \<noteq> on \<and> lines (pic1 ?s1) i = (if on then 1 else 0)"
  have ls: "level_step (bitmask i) on st i (0, s) = (if ?hit then bitmask i else 0, ?s1)"
    using a(3) assms(2)
    by (cases "st = on"; cases on; simp add: level_step_def Let_def tst_bitmask pic_level_triggered_def)
  have st: "st' = on" and s': "s' = (if ?hit then update_pending
      (if on then raise_irqs (bitmask i) ?s1 else lower_irqs (bitmask i) ?s1) else ?s1)"
    using r a(1,2) assms(2)
    by (auto simp: picint_common_def Let_def strip_slaves_none irq_mask_bits fold_level_step ls split: if_splits)
  show "st' = on" by (rule st)
  have b: "update_pending_fn ?s1 = Some Update_xt" using a by simp
  have u: "irr (pic1 s') = (if ?hit then (if on then irr (pic1 s) OR bitmask i
             else irr (pic1 s) AND NOT (bitmask i)) else irr (pic1 s))"
     "lines (pic1 s') = lines (pic1 ?s1)" "icw1 (pic1 s') = icw1 (pic1 s)" "elcr (pic1 s') = elcr (pic1 s)"
     "icw3 (pic1 s') = icw3 (pic1 s)" "update_pending_fn s' = Some Update_xt" "elcr_enabled s' = elcr_enabled s"
    using b assms(2) unfolding s'
    by (auto simp: pic1_update_frame pic1_raise pic1_lower irq_mask_bits a)
  show "level_line i s'"
    using u a level_triggered_cong [of "pic1 s'" "pic1 s" s' s i] by (simp add: level_line_def)
  show l: "lines (pic1 s') i = (if st = on then lines (pic1 s) i
           else if on then lines (pic1 s) i + 1 else lines (pic1 s) i - 1)"
    by (simp add: u)
  show "tst (irr (pic1 s')) i =
           (if st \<noteq> on \<and> lines (pic1 s') i = (if on then 1 else 0) then on
            else tst (irr (pic1 s)) i)"
    using assms(2) by (auto simp: u tst_or tst_bitmask)
qed

text \<open>
  Devices that share the line: each passes its own \<open>irq_state\<close> flag, the function updates it.
  A run is a list of requests, device and direction.
\<close>

fun share_step :: "nat \<Rightarrow> nat \<times> bool \<Rightarrow> (nat \<Rightarrow> bool) \<times> pics \<Rightarrow> (nat \<Rightarrow> bool) \<times> pics" where
  "share_step i (dev, on) (tab, s) =
     (let (s', st') = picint_common (bitmask i) True on (tab dev) s in (tab(dev := st'), s'))"

definition wants :: "(nat \<times> bool) list \<Rightarrow> nat \<Rightarrow> bool" where
  "wants reqs dev = fold (\<lambda>(d, on) t. t(d := on)) reqs (\<lambda>_. False) dev"

definition shared_inv :: "nat \<Rightarrow> (nat \<Rightarrow> bool) \<times> pics \<Rightarrow> bool" where
  "shared_inv i = (\<lambda>(tab, s). level_line i s \<and> {d. tab d} \<subseteq> {..<0xffffffff} \<and>
     unat (lines (pic1 s) i) = card {d. tab d} \<and> (tst (irr (pic1 s)) i \<longleftrightarrow> (\<exists>d. tab d)))"

lemma shared_step:
  assumes inv: "shared_inv i (tab, s)" and "i < 8" "dev < 0xffffffff"
  shows "shared_inv i (share_step i (dev, on) (tab, s))"
    and "fst (share_step i (dev, on) (tab, s)) = tab(dev := on)"
proof -
  obtain s' st' where p: "picint_common (bitmask i) True on (tab dev) s = (s', st')" by fastforce
  have l: "level_line i s" and sub: "{d. tab d} \<subseteq> {..<0xffffffff}"
    and c: "unat (lines (pic1 s) i) = card {d. tab d}" and q: "tst (irr (pic1 s)) i \<longleftrightarrow> (\<exists>d. tab d)"
    using inv by (simp_all add: shared_inv_def)
  note r = level_request [OF l assms(2) p [symmetric]]
  have fin: "finite {d. tab d}" using sub finite_subset by blast
  have "card ({d. tab d} \<union> {dev}) \<le> card {..<(0xffffffff :: nat)}"
    by (rule card_mono) (use sub assms(3) in auto)
  then have bound: "card (insert dev {d. tab d}) \<le> 0xffffffff" by simp
  have step: "share_step i (dev, on) (tab, s) = (tab(dev := on), s')" using p r(2) by simp
  then show "fst (share_step i (dev, on) (tab, s)) = tab(dev := on)" by simp
  have sub': "{d. (tab(dev := on)) d} \<subseteq> {..<0xffffffff}" using sub assms(3) by (auto split: if_splits)
  have main: "unat (lines (pic1 s') i) = card {d. (tab(dev := on)) d} \<and>
      (tst (irr (pic1 s')) i \<longleftrightarrow> (\<exists>d. (tab(dev := on)) d))"
  proof (cases "tab dev = on")
    case True
    then have "tab(dev := on) = tab" by auto
    with True r c q show ?thesis by simp
  next
    case False
    show ?thesis
    proof (cases on)
      case True
      then have n: "dev \<notin> {d. tab d}" using False by simp
      have set: "{d. (tab(dev := on)) d} = insert dev {d. tab d}" using True by auto
      have cd: "card (insert dev {d. tab d}) = Suc (card {d. tab d})" using n fin by simp
      have "unat (lines (pic1 s) i + 1) = Suc (unat (lines (pic1 s) i))"
        using bound unfolding cd c [symmetric] by (subst unat_word_ariths) simp
      then have u: "unat (lines (pic1 s') i) = Suc (card {d. tab d})" using r(3) True False c by simp
      moreover have "lines (pic1 s') i = 1 \<longleftrightarrow> card {d. tab d} = 0"
        using u by (simp add: word_unat_eq_iff)
      ultimately show ?thesis using r(4) True False q set cd fin by auto
    next
      case f: False
      then have n: "dev \<in> {d. tab d}" using False by simp
      have set: "{d. (tab(dev := on)) d} = {d. tab d} - {dev}" using f by auto
      have cd: "card ({d. tab d} - {dev}) = card {d. tab d} - 1" using n fin by simp
      have pos: "0 < card {d. tab d}" using n fin card_gt_0_iff by blast
      then have "unat (lines (pic1 s) i - 1) = unat (lines (pic1 s) i) - 1"
        unfolding c [symmetric] by (intro unat_minus_one) auto
      then have u: "unat (lines (pic1 s') i) = card {d. tab d} - 1" using r(3) f False c by simp
      moreover have "lines (pic1 s') i = 0 \<longleftrightarrow> card ({d. tab d} - {dev}) = 0"
        using u cd by (simp add: word_unat_eq_iff)
      moreover have "(\<exists>d. (tab(dev := on)) d) \<longleftrightarrow> card ({d. tab d} - {dev}) \<noteq> 0"
        using fin unfolding set [symmetric] by (metis (mono_tags, lifting) Collect_empty_eq card_eq_0_iff finite_Diff set)
      moreover have "\<exists>d. tab d" using n by blast
      moreover have "tst (irr (pic1 s')) i = (if lines (pic1 s') i = 0 then False else tst (irr (pic1 s)) i)"
        using r(4) f False by simp
      ultimately show ?thesis unfolding set using cd q by simp
    qed
  qed
  show "shared_inv i (share_step i (dev, on) (tab, s))"
    unfolding step shared_inv_def prod.case using main sub' r(1) by blast
qed

text \<open>A shared level triggered line is the OR of its devices. Starting from a line nobody
  holds, after any sequence of raise and lower requests by devices that each keep their own
  \<open>irq_state\<close>, repeated requests included, the request bit is set iff some device's last request
  was a raise: the line falls only when the last device lets go.\<close>

theorem shared_line_is_or:
  assumes "level_line i s" and "i < 8" and "lines (pic1 s) i = 0" and "\<not> tst (irr (pic1 s)) i"
    and "\<forall>(dev, on) \<in> set reqs. dev < 0xffffffff"
  shows "tst (irr (pic1 (snd (fold (share_step i) reqs (\<lambda>_. False, s))))) i \<longleftrightarrow>
     (\<exists>dev. wants reqs dev)"
proof -
  have run: "shared_inv i (fold (share_step i) rs ts) \<and>
      fst (fold (share_step i) rs ts) = fold (\<lambda>(d, on) t. t(d := on)) rs (fst ts)"
    if "shared_inv i ts" "\<forall>(dev, on) \<in> set rs. dev < 0xffffffff" for rs ts
    using that
  proof (induction rs arbitrary: ts)
    case (Cons r rs)
    obtain dev on tab t where rt: "r = (dev, on)" "ts = (tab, t)" by (metis surj_pair)
    with Cons.prems have "shared_inv i (tab, t)" "dev < 0xffffffff" by simp_all
    note st = shared_step [OF this(1) assms(2) this(2), of on]
    have "\<forall>(dev, on) \<in> set rs. dev < 0xffffffff" using Cons.prems(2) by simp
    from Cons.IH [OF st(1) this] st(2) show ?case unfolding rt by simp
  qed simp
  have "shared_inv i (\<lambda>_. False, s)" using assms(1,3,4) by (simp add: shared_inv_def)
  from run [OF this assms(5)] show ?thesis
    by (auto simp: shared_inv_def wants_def split: prod.splits)
qed

lemma shared_line_is_or_witness:
  "tst (irr (pic1 (snd (fold (share_step 5) [(0, True), (1, True), (0, False)]
     (\<lambda>_. False, xt_boot\<lparr>pic1 := (pic1 xt_boot)\<lparr>icw1 := 0x1b\<rparr>\<rparr>))))) 5"
proof (rule shared_line_is_or [THEN iffD2])
  show "level_line 5 (xt_boot\<lparr>pic1 := (pic1 xt_boot)\<lparr>icw1 := 0x1b\<rparr>\<rparr>)"
    by (simp add: level_line_def xt_boot_pic1 pic_zero_def pic_level_triggered_def)
  have "wants [(0, True), (1, True), (0, False)] 1" by (simp add: wants_def)
  then show "\<exists>dev. wants [(0, True), (1, True), (0, False)] dev" ..
qed (simp_all add: xt_boot_pic1 pic_zero_def)

section \<open>Initialisation and poll\<close>

lemma upd_refresh_frame:
  "get_pic d (refresh_pending e s) = (if d = e then settle (get_pic d s) else get_pic d s)"
  by (cases d; cases e; simp add: refresh_pending_def find_best_interrupt_def Let_def settle_def outcall_def)

definition setup_of :: "pic \<Rightarrow> u8 \<times> u8 \<times> u8 \<times> u8 \<times> u8 \<times> u8 \<times> u8 \<times> icw_state \<times> bool" where
  "setup_of d = (icw1 d, icw2 d, icw3 d, icw4 d, imr d, isr d, priority d, pic_state d, zenith d)"

lemma setup_settle [simp]: "setup_of (settle d) = setup_of d"
  by (simp add: setup_of_def settle_def)

lemma setup_update_pending: "setup_of (get_pic dev (update_pending s)) = setup_of (get_pic dev s)"
  by (cases dev)
    (simp_all add: update_pending_def pic_update_pending_xt_def pic_update_pending_at_def
      upd_refresh_frame [of PIC1, simplified] upd_refresh_frame [of PIC2, simplified] Let_def
      setup_of_def split: option.split update_kind.split)

lemma pic_pci_update_pending: "pic_pci (update_pending s) = pic_pci s"
  by (simp add: update_pending_def pic_update_pending_xt_def pic_update_pending_at_def Let_def
      refresh_pending_def find_best_interrupt_def outcall_def split: option.split update_kind.split)

text \<open>The initialisation sequence as a program performs it.\<close>

definition icw_sequence :: "u8 \<Rightarrow> u8 \<Rightarrow> u8 \<Rightarrow> u8 \<Rightarrow> pic_id \<Rightarrow> pics \<Rightarrow> pics" where
  "icw_sequence v1 v2 v3 v4 dev s =
     (let s2 = pic_write 0x21 v2 dev (pic_write 0x20 v1 dev s);
          s3 = (if v1 AND 2 = 0 then pic_write 0x21 v3 dev s2 else s2)
      in if v1 AND 1 \<noteq> 0 then pic_write 0x21 v4 dev s3 else s3)"

lemma get_upd [simp]: "get_pic dev (upd_pic dev f s) = f (get_pic dev s)"
  by (cases dev) simp_all

lemma icw1_setup:
  assumes "v1 AND 0x10 \<noteq> 0" "\<not> (pic_pci s \<and> v1 AND 0xe0 \<noteq> 0)"
  shows "setup_of (get_pic dev (pic_write 0x20 v1 dev s)) =
    (v1, 0, 0, if v1 AND 1 = 0 then 0 else icw4 (get_pic dev s), 0, 0, 0, STATE_ICW2, zenith (get_pic dev s))"
proof -
  have pci: "pic_pci (upd_pic dev f s) = pic_pci s" for f by (cases dev) simp_all
  have np: "(pic_pci s \<and> v1 AND 0xe0 \<noteq> 0) = False" using assms(2) by simp
  have w: "pic_write 0x20 v1 dev s = update_pending (upd_pic dev (icw1_write v1)
      (upd_pic dev (\<lambda>d. d\<lparr>data_bus := v1\<rparr>) s))"
    using assms(1) np by (auto simp add: pic_write_def Let_def pci)
  show ?thesis unfolding w setup_update_pending get_upd by (simp add: setup_of_def icw1_write_def)
qed

text \<open>The initialisation sequence takes exactly the words ICW1 announces: ICW2 always, ICW3
  unless ICW1 says single, ICW4 if ICW1 asks for it. Afterwards the controller, master or
  slave, whatever its state before, has these words (0 for those not sent), an empty mask and
  in-service register, fixed priority, and is out of initialisation.\<close>

theorem icw_sequence_initialises:
  assumes "v1 AND 0x10 \<noteq> 0" and "\<not> (pic_pci s \<and> v1 AND 0xe0 \<noteq> 0)"
  shows "setup_of (get_pic dev (icw_sequence v1 v2 v3 v4 dev s)) =
     (v1, v2, if v1 AND 2 = 0 then v3 else 0, if v1 AND 1 \<noteq> 0 then v4 else 0, 0, 0, 0, STATE_NONE,
      zenith (get_pic dev s))"
proof -
  let ?s1 = "pic_write 0x20 v1 dev s"
  have s1: "icw1 (get_pic dev ?s1) = v1" "pic_state (get_pic dev ?s1) = STATE_ICW2"
    "icw3 (get_pic dev ?s1) = 0" "v1 AND 1 = 0 \<Longrightarrow> icw4 (get_pic dev ?s1) = 0"
    "imr (get_pic dev ?s1) = 0" "isr (get_pic dev ?s1) = 0" "priority (get_pic dev ?s1) = 0"
    "zenith (get_pic dev ?s1) = zenith (get_pic dev s)"
    using icw1_setup [OF assms, of dev] by (simp_all add: setup_of_def)
  show ?thesis
    by (cases "v1 AND 1 = 0"; cases "v1 AND 2 = 0")
      (simp_all add: icw_sequence_def Let_def pic_write_def [of "0x21"] s1 setup_of_def pic_cascade_mode_def)
qed

lemma icw_sequence_initialises_witness:
  "setup_of (pic1 (icw_sequence 0x13 8 0 9 PIC1 xt_two_requests)) =
     (0x13, 8, 0, 9, 0, 0, 0, STATE_NONE, zenith (pic1 xt_two_requests))"
  using icw_sequence_initialises [of "0x13" "xt_two_requests" PIC1 8 0 9]
  by simp

text \<open>A poll is an acknowledge without vector: OCW3 with the poll bit, then a read, on an XT
  class controller with a best request \<open>j\<close> returns \<open>0x80 + j\<close> and moves \<open>j\<close> into service as
  the acknowledge cycle does.\<close>

theorem poll_acknowledges:
  assumes "xt_ready s" and "best_interrupt (pic1 s) = Some j" and "\<not> shadow s"
    and "pic_read 0x20 PIC1 (pic_write 0x20 0x0c PIC1 s) = (v, s')"
  shows "v = 0x80 OR word_of_nat j \<and> isr (pic1 s') = isr (pic1 s) OR bitmask j \<and>
     irr (pic1 s') = irr (pic1 s) AND NOT (bitmask j) \<and> ocw3 (pic1 s') AND 0x04 = 0"
proof -
  have j: "j < 8" by (rule best_interrupt_lt [OF assms(2)])
  have r: "settle (pic1 s) = pic1 s" "update_pending_fn s = Some Update_xt" "\<not> elcr_enabled s"
    "icw1 (pic1 s) AND 8 = 0"
    using assms(1) by (simp_all add: xt_ready_def Let_def)
  note i = settled_interrupt [OF r(1) assms(2)]
  have b: "((word_of_nat j :: u8) OR 0x20) AND - 33 = word_of_nat j" "(word_of_nat j :: u8) AND 7 = word_of_nat j"
    using less_8_cases [OF j] by auto
  show ?thesis
    using assms(3,4) r i
    by (auto simp: pic_write_def Let_def ocw3_write_def pic_read_def poll_read_def pic_acknowledge_def
        acknowledge_def pic_level_triggered_def irq_number_bits [OF j] b pic1_update_pending)
qed

lemma shadow_picint: "shadow (picint num s) = shadow s"
proof -
  have u: "shadow (update_pending s) = shadow s" for s
    by (simp add: update_pending_def pic_update_pending_xt_def pic_update_pending_at_def Let_def
      refresh_pending_def find_best_interrupt_def outcall_def split: option.split update_kind.split)
  have r: "shadow (raise_irqs n s) = shadow s" for n s
    by (simp add: raise_irqs_def Let_def outcall_def)
  show ?thesis by (simp add: picint_def picint_common_def Let_def u r outcall_def)
qed

lemma poll_acknowledges_witness:
  "\<exists>v s'. pic_read 0x20 PIC1 (pic_write 0x20 0x0c PIC1 xt_two_requests) = (v, s') \<and> v = 0x82"
proof -
  obtain v s' where e: "pic_read 0x20 PIC1 (pic_write 0x20 0x0c PIC1 xt_two_requests) = (v, s')" by fastforce
  have "\<not> shadow xt_two_requests" by (simp add: xt_two_requests_def shadow_picint xt_boot_pic1)
  from poll_acknowledges [OF xt_two_requests_ready(1,2) this e] e show ?thesis by simp
qed

section \<open>Outside the expected sequences\<close>

text \<open>A poll command that is not followed by its read makes the next interrupt cycle shift by
  32 or more. On a master in cascade mode with a request pending, writing OCW3 with the poll bit
  freezes \<open>interrupt\<close> with bit 5 set, and \<open>picinterrupt\<close> then evaluates
  \<open>icw3 & (1 << interrupt)\<close>, which C leaves undefined (and would index \<open>slaves\<close> beyond its
  eight entries).\<close>

theorem unread_poll_breaks_acknowledge:
  assumes "int_pending (pic1 s)" and "pic_cascade_mode (pic1 s)" and "is_master (pic1 s)"
  shows "picinterrupt (pic_write 0x20 0x0c PIC1 s) = Inl Undefined_shift"
proof -
  have "(0x20 :: u8) \<le> v OR 0x20" for v
  proof -
    have "(v OR 0x20) AND 0x20 = 0x20" by (rule bit_word_eqI) (auto simp: bit_and_iff bit_or_iff)
    then show ?thesis using word_and_le1 [of "v OR 0x20" "0x20"] word_and_le2 [of "v OR 0x20" "0x20"] by simp
  qed
  then show ?thesis using assms
    by (simp add: pic_write_def Let_def ocw3_write_def picinterrupt_def pic_slave_on_def
        pic_cascade_mode_def)
qed

lemma unread_poll_breaks_acknowledge_witness:
  "picinterrupt (pic_write 0x20 0x0c PIC1
     (pics_blank\<lparr>pic1 := pic_zero\<lparr>is_master := True, int_pending := True\<rparr>\<rparr>)) = Inl Undefined_shift"
  by (rule unread_poll_breaks_acknowledge) (simp_all add: pic_cascade_mode_def pic_zero_def)

text \<open>An XT class machine, which has no second controller, programmed for cascade mode with a
  slave on line 0, while line 0 is raised between ICW2 and ICW3 and line 1 afterwards.\<close>

definition xt_cascade_run :: "pics \<Rightarrow> pics" where
  "xt_cascade_run s =
     (let s1 = pic_write 0x21 0x08 PIC1 (pic_write 0x20 0x11 PIC1 (pic_reset False False s));
          s2 = pic_write 0x21 0x01 PIC1 (pic_write 0x21 0x01 PIC1 (picint (bitmask 0) s1))
      in picint (bitmask 1) s2)"

lemma pic_write_setup_byte:
  "pic_state (get_pic dev s) = STATE_ICW2 \<Longrightarrow> pic_write 0x21 v dev s =
     upd_pic dev (\<lambda>d. d\<lparr>icw2 := v, pic_state := (if pic_cascade_mode d then STATE_ICW3
       else if icw1 d AND 1 \<noteq> 0 then STATE_ICW4 else STATE_NONE)\<rparr>)
       (upd_pic dev (\<lambda>d. d\<lparr>data_bus := v\<rparr>) s)"
  "pic_state (get_pic dev s) = STATE_ICW3 \<Longrightarrow> pic_write 0x21 v dev s =
     upd_pic dev (\<lambda>d. d\<lparr>icw3 := v, pic_state := (if icw1 d AND 1 \<noteq> 0 then STATE_ICW4
       else STATE_NONE)\<rparr>) (upd_pic dev (\<lambda>d. d\<lparr>data_bus := v\<rparr>) s)"
  "pic_state (get_pic dev s) = STATE_ICW4 \<Longrightarrow> pic_write 0x21 v dev s =
     upd_pic dev (\<lambda>d. d\<lparr>icw4 := v, pic_state := STATE_NONE\<rparr>) (upd_pic dev (\<lambda>d. d\<lparr>data_bus := v\<rparr>) s)"
  by (cases dev; simp add: pic_write_def Let_def)+

lemma xt_cascade_start:
  assumes "s1 = pic_write 0x21 0x08 PIC1 (pic_write 0x20 0x11 PIC1 (pic_reset False False s))"
  shows "pic1 s1 = pic_zero\<lparr>is_master := True, interrupt := 0x17, icw1 := 0x11, icw2 := 0x08,
      pic_state := STATE_ICW3, data_bus := 0x08\<rparr>"
    and "update_pending_fn s1 = Some Update_xt"
proof -
  let ?r = "pic_reset False False s"
  let ?w = "pic_write 0x20 0x11 PIC1 ?r"
  have r: "update_pending_fn ?r = Some Update_xt" "pic_pci ?r = False"
    "pic1 ?r = pic_zero\<lparr>is_master := True, interrupt := 0x17\<rparr>"
    by (simp_all add: pic_reset_def Let_def outcall_def pic_zero_def)
  have z: "icw1_write 0x11 ((pic1 ?r)\<lparr>data_bus := 0x11\<rparr>) =
    pic_zero\<lparr>is_master := True, interrupt := 0x17, icw1 := 0x11, pic_state := STATE_ICW2, data_bus := 0x11\<rparr>"
  proof -
    have "fold (\<lambda>i w. if 0 < (lines pic_zero i) then w OR bitmask i else w) [0..<8] 0 = (0 :: u8)"
      by (rule fold_invariant [of "\<lambda>w. w = 0"]) (simp_all add: pic_zero_def)
    then show ?thesis by (simp add: r icw1_write_def) (simp add: pic_zero_def)
  qed
  have n: "settle (pic_zero\<lparr>is_master := True, interrupt := 0x17, icw1 := 0x11, pic_state := STATE_ICW2,
      data_bus := 0x11\<rparr>) = pic_zero\<lparr>is_master := True, interrupt := 0x17, icw1 := 0x11,
      pic_state := STATE_ICW2, data_bus := 0x11\<rparr>"
    by (simp add: settle_def best_none pic_zero_def)
  have w: "?w = update_pending (?r\<lparr>pic1 := icw1_write 0x11 ((pic1 ?r)\<lparr>data_bus := 0x11\<rparr>)\<rparr>)"
    by (simp add: pic_write_def Let_def r)
  have "pic1 ?w = pic_zero\<lparr>is_master := True, interrupt := 0x17, icw1 := 0x11, pic_state := STATE_ICW2,
      data_bus := 0x11\<rparr>" "update_pending_fn ?w = Some Update_xt"
    unfolding w z by (simp_all add: pic1_update_pending r n)
  then show "pic1 s1 = pic_zero\<lparr>is_master := True, interrupt := 0x17, icw1 := 0x11, icw2 := 0x08,
      pic_state := STATE_ICW3, data_bus := 0x08\<rparr>" "update_pending_fn s1 = Some Update_xt"
    unfolding assms by (simp_all add: pic_write_setup_byte pic_cascade_mode_def pic_zero_def)
qed

lemma null_slave:
  assumes "int_pending (pic1 s)" "pic_cascade_mode (pic1 s)" "is_master (pic1 s)" "interrupt (pic1 s) = 0"
    and "tst (icw3 (pic1 s)) 0" "\<not> slaves (pic1 s) 0"
  shows "picinterrupt s = Inl Null_slave"
  using assms by (simp add: picinterrupt_def pic_slave_on_def Let_def)

text \<open>C30: A guest can make the emulator follow a null pointer. On an XT class machine every
  \<open>slaves[i]\<close> is \<open>NULL\<close>, but nothing keeps a program from announcing a slave in ICW3: with the
  initialisation sequence 11 08 01 01 and IRQ 0 arriving between its second and third byte, the
  next interrupt cycle dereferences \<open>slaves[0]\<close>, from any earlier machine state.\<close>

theorem cascade_without_slave_faults: "picinterrupt (xt_cascade_run s) = Inl Null_slave"
proof -
  define s1 where "s1 = pic_write 0x21 0x08 PIC1 (pic_write 0x20 0x11 PIC1 (pic_reset False False s))"
  note a = xt_cascade_start [OF s1_def]
  have k: "\<not> tst (icw3 (pic1 s1)) 0" "interrupt (pic1 s1) AND 0x20 = 0" by (simp_all add: a pic_zero_def)
  define t where "t = picint (bitmask 0) s1"
  note q = pic1_picint_unslaved [of 0 s1, OF _ a(2) k]
  have t: "pic1 t = settle ((pic1 s1)\<lparr>irr := bitmask 0\<rparr>)" "update_pending_fn t = Some Update_xt"
    using q by (simp_all add: t_def a pic_zero_def)
  define u where "u = pic_write 0x21 0x01 PIC1 (pic_write 0x21 0x01 PIC1 t)"
  have "pic_state (pic1 t) = STATE_ICW3" "icw1 (pic1 t) = 0x11" by (simp_all add: t a)
  then have u: "pic1 u = (pic1 t)\<lparr>icw3 := 1, icw4 := 1, pic_state := STATE_NONE, data_bus := 1\<rparr>"
    "update_pending_fn u = Some Update_xt"
    by (simp_all add: u_def pic_write_setup_byte t)
  have "best_interrupt (pic1 t) = None"
  proof (rule ccontr)
    assume "best_interrupt (pic1 t) \<noteq> None"
    then obtain j where "best_interrupt (pic1 t) = Some j" by blast
    then have "pic_state (pic1 t) = STATE_NONE" unfolding best_interrupt_iff requested_def by simp
    then show False by (simp add: t a)
  qed
  then have f: "interrupt (pic1 u) AND 0x20 = 0" unfolding u(1) by (simp add: t settle_def)
  have k2: "\<not> tst (icw3 (pic1 u)) 1" by (simp add: u tst_def bitmask_def)
  have r: "xt_cascade_run s = picint (bitmask 1) u"
    by (simp add: xt_cascade_run_def Let_def u_def t_def s1_def)
  note v = pic1_picint_unslaved [of 1 u, OF _ u(2) k2 f]
  have p1: "pic1 (xt_cascade_run s) = settle ((pic1 u)\<lparr>irr := bitmask 0 OR bitmask 1\<rparr>)"
    using v(1) by (simp add: r u t)
  have best: "best_interrupt ((pic1 u)\<lparr>irr := bitmask 0 OR bitmask 1\<rparr>) = Some 0"
    unfolding best_interrupt_iff
    by (auto simp: requested_def tst_or tst_bitmask u t a pic_zero_def level_rank_def)
  have e: "settle (pic1 (xt_cascade_run s)) = pic1 (xt_cascade_run s)"
    "best_interrupt (pic1 (xt_cascade_run s)) = Some 0"
    by (simp_all only: p1 settle_frame best)
  have "pic_cascade_mode (pic1 (xt_cascade_run s))" "is_master (pic1 (xt_cascade_run s))"
    "tst (icw3 (pic1 (xt_cascade_run s))) 0" "\<not> slaves (pic1 (xt_cascade_run s)) 0"
    by (simp_all add: p1 u t a pic_zero_def pic_cascade_mode_def tst_def bitmask_def)
  with settled_interrupt [OF e] show ?thesis by (intro null_slave) simp_all
qed

end
