(* ===== verification/Dma.thy ===== *)
theory Dma
  imports Prelude86 Priority
begin

text \<open>
  The XT side of the DMA controller, \<open>86box_full/src/dma.c\<close>: the registers of the first 8237,
  the page registers, the cycle-aware 8237 path (\<open>dma_xt8237_*\<close>) and the DRAM refresh request
  latch. The file's globals are one record; fields of \<open>dma_t\<close> the XT path never touches are left
  out. Channel numbers are naturals (the code's guards reject negative ones). Entry points that
  dispatch on \<open>dma_xt8237_active()\<close> return \<open>None\<close> where the code takes the AT, PS/2 or bus
  master path, which is not modelled here. Physical memory as DMA sees it is a flat store of
  bytes; bus time charged to the CPU is a log. The request slot of the 8088 adapter that
  \<open>m808x_86box_dma_try_request_ex\<close> and its cancel function manage
  (\<open>cpu/808x_marty_86box.c\<close>) is part of the state: it is taken, or free, or past the point of
  cancelling. Diagnostic traces are left out.
\<close>

section \<open>Data\<close>

record dma_chan =
  d_mode :: u8
  d_page :: u8
  d_page_l :: u8
  d_page_h :: u8
  d_cb :: u16
  d_ab :: u32
  d_ac :: u32
  d_cc :: int
  d_size :: int
  d_transfer_mode :: u16
  d_ext_mode :: u8

record xt8237 =
  sw_request :: u8
  demand_active :: u8
  block_active :: u8
  external_eop :: u8
  last_service :: nat
  temp :: u8
  dack :: u8
  in_mem_to_mem :: bool

datatype bus_charge = Sub_cycles nat | Refreshread

record dma_sys =
  chan :: "nat \<Rightarrow> dma_chan"
  dma_e :: u8
  dma_m :: u8
  dmaregs :: "nat \<Rightarrow> nat \<Rightarrow> u8"
  dma_wp :: "nat \<Rightarrow> bool"
  dma_stat :: u8
  dma_stat_rq :: u8
  dma_stat_rq_pc :: u8
  dma_stat_adv_pend :: u8
  dma_command :: "nat \<Rightarrow> u8"
  dma_req_is_soft :: bool
  dma_advanced :: bool
  dma_at :: bool
  dma_buffer :: "nat \<Rightarrow> u8"
  dma_mask :: u32
  is_ps2 :: bool
  xt :: xt8237
  refresh_queued :: bool
  refresh_scheduled :: bool
  dma_force_xt :: bool
  ibm5550 :: bool
  phys :: "u32 \<Rightarrow> u8"
  m808x_active :: bool
  m808x_req :: bool
  m808x_granted :: bool
  charges :: "bus_charge list"

definition upd_chan :: "nat \<Rightarrow> (dma_chan \<Rightarrow> dma_chan) \<Rightarrow> dma_sys \<Rightarrow> dma_sys" where
  "upd_chan ch f s = s\<lparr>chan := (chan s)(ch := f (chan s ch))\<rparr>"

definition upd_xt :: "(xt8237 \<Rightarrow> xt8237) \<Rightarrow> dma_sys \<Rightarrow> dma_sys" where
  "upd_xt f s = s\<lparr>xt := f (xt s)\<rparr>"

definition charge :: "bus_charge \<Rightarrow> dma_sys \<Rightarrow> dma_sys" where
  "charge e s = s\<lparr>charges := e # charges s\<rparr>"

section \<open>Which controller this is\<close>

definition dma_set_force_xt :: "bool \<Rightarrow> dma_sys \<Rightarrow> dma_sys" where
  "dma_set_force_xt enable s = s\<lparr>dma_force_xt := enable\<rparr>"

definition dma_page_is_xt :: "dma_sys \<Rightarrow> bool" where
  "dma_page_is_xt s \<longleftrightarrow> dma_force_xt s \<or> \<not> dma_at s"

definition dma_xt8237_active :: "dma_sys \<Rightarrow> bool" where
  "dma_xt8237_active s =
     (if dma_force_xt s then \<not> dma_advanced s \<and> \<not> is_ps2 s
      else \<not> dma_at s \<and> \<not> dma_advanced s \<and> \<not> is_ps2 s)"

section \<open>Arbitration\<close>

definition dma_xt8237_raw_requests :: "dma_sys \<Rightarrow> u8" where
  "dma_xt8237_raw_requests s = (dma_stat_rq_pc s OR sw_request (xt s)) AND 0x0f"

definition dma_xt8237_service_requests :: "dma_sys \<Rightarrow> u8" where
  "dma_xt8237_service_requests s =
     (dma_xt8237_raw_requests s OR demand_active (xt s) OR block_active (xt s)) AND 0x0f"

text \<open>The orders in which the priority loops try the channels.\<close>

definition fixed_line :: "nat \<Rightarrow> nat" where
  "fixed_line i = i"

definition rotating_line :: "nat \<Rightarrow> nat \<Rightarrow> nat" where
  "rotating_line prev i = (prev + Suc i) mod 4"

definition dma_xt8237_priority_pick :: "u8 \<Rightarrow> dma_sys \<Rightarrow> nat option" where
  "dma_xt8237_priority_pick req s =
     (let r = req AND NOT (dma_m s AND 0x0f) AND (dma_e s AND 0x0f) in
      if r = 0 \<or> dma_command s 0 AND 0x04 \<noteq> 0 then None
      else
        let owner = r AND (demand_active (xt s) OR block_active (xt s)) in
        if owner \<noteq> 0 then first_line 4 fixed_line (tst owner)
        else if dma_command s 0 AND 0x10 \<noteq> 0
        then first_line 4 (rotating_line (last_service (xt s))) (tst r)
        else first_line 4 fixed_line (tst r))"

definition dma_xt8237_can_service :: "nat \<Rightarrow> dma_sys \<Rightarrow> bool" where
  "dma_xt8237_can_service ch s =
     (if 3 < ch then False
      else if dma_command s 0 AND 0x04 \<noteq> 0 then False
      else if \<not> tst (dma_e s) ch then False
      else if tst (dma_m s) ch then False
      else
        let r0 = dma_xt8237_service_requests s;
            r = (if ch \<noteq> 0 \<and> \<not> dma_req_is_soft s then r0 AND bitmask ch else r0)
        in if \<not> tst r ch then False
           else if drop_bit 6 (d_mode (chan s ch)) AND 3 = 3 then False
           else dma_xt8237_priority_pick r s = Some ch)"

definition dma_xt8237_release_owner :: "nat \<Rightarrow> dma_sys \<Rightarrow> dma_sys" where
  "dma_xt8237_release_owner ch s =
     upd_xt (\<lambda>x. x\<lparr>demand_active := demand_active x AND NOT (bitmask ch),
                   block_active := block_active x AND NOT (bitmask ch),
                   dack := dack x AND NOT (bitmask ch),
                   last_service := (if dma_command s 0 AND 0x10 \<noteq> 0 then ch
                                    else last_service x)\<rparr>) s"

definition service_mode :: "nat \<Rightarrow> dma_sys \<Rightarrow> u8" where
  "service_mode ch s = drop_bit 6 (d_mode (chan s ch)) AND 3"

definition dma_xt8237_begin_service :: "nat \<Rightarrow> dma_sys \<Rightarrow> dma_sys" where
  "dma_xt8237_begin_service ch s =
     upd_xt (\<lambda>x. x\<lparr>dack := bitmask ch,
        demand_active := (if service_mode ch s = 0 then demand_active x OR bitmask ch
                          else demand_active x),
        block_active := (if service_mode ch s = 2 then block_active x OR bitmask ch
                         else block_active x)\<rparr>) s"

definition dma_xt8237_charge_bus :: "nat \<Rightarrow> dma_sys \<Rightarrow> dma_sys" where
  "dma_xt8237_charge_bus ch s =
     (if ch = 0 then (if \<not> m808x_active s then charge Refreshread s else s)
      else charge (Sub_cycles (if dma_command s 0 AND 0x08 \<noteq> 0 then 4 else 5)) s)"

section \<open>One transfer\<close>

definition next_address :: "u8 \<Rightarrow> u32 \<Rightarrow> u32 \<Rightarrow> u32" where
  "next_address mode msk ac =
     (ac AND 0xffff0000 AND msk) OR
     ((if mode AND 0x20 \<noteq> 0 then ac - 1 else ac + 1) AND 0xffff)"

definition dma_xt8237_advance_address :: "nat \<Rightarrow> dma_sys \<Rightarrow> dma_sys" where
  "dma_xt8237_advance_address ch s =
     upd_chan ch (\<lambda>c. c\<lparr>d_ac := next_address (d_mode c) (dma_mask s) (d_ac c)\<rparr>) s"

definition dma_xt8237_finish_transfer :: "nat \<Rightarrow> dma_sys \<Rightarrow> bool \<times> dma_sys" where
  "dma_xt8237_finish_transfer ch s0 =
     (let s = upd_chan ch (\<lambda>c. c\<lparr>d_cc := d_cc c - 1\<rparr>) s0;
          b = bitmask ch;
          terminal = (d_cc (chan s ch) < 0 \<or> external_eop (xt s) AND b \<noteq> 0)
      in if terminal then
           let s1 = upd_xt (\<lambda>x. x\<lparr>sw_request := sw_request x AND NOT b,
                                  external_eop := external_eop x AND NOT b\<rparr>)
                      (s\<lparr>dma_stat := dma_stat s OR b,
                         dma_stat_adv_pend := dma_stat_adv_pend s AND NOT b\<rparr>);
               s2 = (if d_mode (chan s1 ch) AND 0x10 \<noteq> 0
                     then upd_chan ch (\<lambda>c. c\<lparr>d_cc := int (unat (d_cb c)), d_ac := d_ab c\<rparr>) s1
                     else s1\<lparr>dma_m := dma_m s1 OR b\<rparr>)
           in (True, dma_xt8237_release_owner ch s2)
         else if service_mode ch s = 1 then
           (False, upd_xt (\<lambda>x. x\<lparr>dack := dack x AND NOT b,
                                 last_service := (if dma_command s 0 AND 0x10 \<noteq> 0 then ch
                                                  else last_service x)\<rparr>) s)
         else (False, s))"

definition xt8237_clear :: xt8237 where
  "xt8237_clear = \<lparr>sw_request = 0, demand_active = 0, block_active = 0, external_eop = 0,
     last_service = 3, temp = 0, dack = 0, in_mem_to_mem = False\<rparr>"

definition dma_xt8237_master_clear :: "dma_sys \<Rightarrow> dma_sys" where
  "dma_xt8237_master_clear s =
     s\<lparr>dma_wp := (dma_wp s)(0 := False), dma_command := (dma_command s)(0 := 0),
       dma_stat := dma_stat s AND 0xf0, dma_stat_rq := dma_stat_rq s AND 0xf0,
       dma_stat_adv_pend := dma_stat_adv_pend s AND 0xf0, dma_m := dma_m s OR 0x0f,
       xt := xt8237_clear,
       dma_stat_rq_pc := (if refresh_queued s then dma_stat_rq_pc s OR 0x01
                          else dma_stat_rq_pc s)\<rparr>"

definition dma_get_drq :: "nat \<Rightarrow> dma_sys \<Rightarrow> bool" where
  "dma_get_drq ch s \<longleftrightarrow> ch \<le> 7 \<and> tst (dma_stat_rq_pc s) ch"

definition dma_set_eop :: "nat \<Rightarrow> bool \<Rightarrow> dma_sys \<Rightarrow> dma_sys" where
  "dma_set_eop ch on s =
     (if 3 < ch then s
      else upd_xt (\<lambda>x. x\<lparr>external_eop := (if on then external_eop x OR bitmask ch
                                          else external_eop x AND NOT (bitmask ch))\<rparr>) s)"

text \<open>\<open>_dma_read\<close> and \<open>_dma_write\<close> outside the bus master mode.\<close>

definition dma_read_mem :: "u32 \<Rightarrow> dma_sys \<Rightarrow> u8" where
  "dma_read_mem a s = phys s a"

definition dma_write_mem :: "u32 \<Rightarrow> u8 \<Rightarrow> dma_sys \<Rightarrow> dma_sys" where
  "dma_write_mem a v s = s\<lparr>phys := (phys s)(a := v)\<rparr>"

section \<open>The pull interface of the devices\<close>

definition DMA_NODATA :: int where "DMA_NODATA = -1"
definition DMA_OVER :: int where "DMA_OVER = 0x10000"
definition DMA_VERIFY :: int where "DMA_VERIFY = 0x20000"

text \<open>
  The channel operations and the refresh logic call each other: a completed transfer of channels
  1 to 3 reconciles the refresh request, which may perform a transfer of channel 0. The
  operations therefore take the reconciling step as an argument; for channel 0 they never use it.
\<close>

definition reconcile_after :: "(dma_sys \<Rightarrow> dma_sys) \<Rightarrow> nat \<Rightarrow> dma_sys \<Rightarrow> dma_sys" where
  "reconcile_after rec ch s = (if ch \<noteq> 0 \<and> refresh_queued s then rec s else s)"

definition advance_with :: "(dma_sys \<Rightarrow> dma_sys) \<Rightarrow> nat \<Rightarrow> dma_sys \<Rightarrow> bool \<times> dma_sys" where
  "advance_with rec ch s =
     (if 3 < ch then (False, s)
      else
        let (tc, s1) = (if tst (dma_stat_adv_pend s) ch
                        then dma_xt8237_finish_transfer ch
                               (s\<lparr>dma_stat_adv_pend := dma_stat_adv_pend s AND NOT (bitmask ch)\<rparr>)
                        else (False, s))
        in (tc, reconcile_after rec ch s1))"

definition read_data :: "nat \<Rightarrow> dma_sys \<Rightarrow> int" where
  "read_data ch s =
     (if d_mode (chan s ch) AND 0x0c = 0 then DMA_VERIFY
      else int (unat (dma_read_mem (d_ac (chan s ch)) s)))"

text \<open>Service of one byte: DACK, bus time, the data, the next address, the request status.\<close>

definition serve :: "nat \<Rightarrow> dma_sys \<Rightarrow> dma_sys" where
  "serve ch s =
     (let s1 = dma_xt8237_advance_address ch
                 (dma_xt8237_charge_bus ch (dma_xt8237_begin_service ch s))
      in s1\<lparr>dma_stat_rq := dma_stat_rq s1 OR bitmask ch\<rparr>)"

definition read_with :: "(dma_sys \<Rightarrow> dma_sys) \<Rightarrow> nat \<Rightarrow> dma_sys \<Rightarrow> int \<times> dma_sys" where
  "read_with rec ch s0 =
     (if 3 < ch then (DMA_NODATA, s0)
      else
        let s = (if tst (dma_stat_adv_pend s0) ch then snd (advance_with rec ch s0) else s0);
            type = d_mode (chan s ch) AND 0x0c
        in if \<not> dma_xt8237_can_service ch s then (DMA_NODATA, s)
           else if type \<noteq> 0x08 \<and> type \<noteq> 0 then (DMA_NODATA, s)
           else
             let v = read_data ch s; (tc, s1) = dma_xt8237_finish_transfer ch (serve ch s)
             in (if tc then v OR DMA_OVER else v, reconcile_after rec ch s1))"

definition read_only_with :: "(dma_sys \<Rightarrow> dma_sys) \<Rightarrow> nat \<Rightarrow> dma_sys \<Rightarrow> int \<times> dma_sys" where
  "read_only_with rec ch s0 =
     (let type = d_mode (chan s0 ch) AND 0x0c in
      if \<not> dma_xt8237_can_service ch s0 then (DMA_NODATA, s0)
      else if type \<noteq> 0x08 \<and> type \<noteq> 0 then (DMA_NODATA, s0)
      else
        let s = (if tst (dma_stat_adv_pend s0) ch then snd (advance_with rec ch s0) else s0);
            s1 = serve ch s
        in (if type = 0 then DMA_VERIFY else int (unat (dma_read_mem (d_ac (chan s ch)) s)),
            s1\<lparr>dma_stat_adv_pend := dma_stat_adv_pend s1 OR bitmask ch\<rparr>))"

definition write_with :: "(dma_sys \<Rightarrow> dma_sys) \<Rightarrow> nat \<Rightarrow> u8 \<Rightarrow> dma_sys \<Rightarrow> int \<times> dma_sys" where
  "write_with rec ch v s =
     (let type = d_mode (chan s ch) AND 0x0c in
      if 3 < ch then (DMA_NODATA, s)
      else if \<not> dma_xt8237_can_service ch s then (DMA_NODATA, s)
      else if type \<noteq> 0x04 \<and> type \<noteq> 0 then (DMA_NODATA, s)
      else
        let s1 = (if type = 0x04 then dma_write_mem (d_ac (chan s ch)) v s else s);
            s2 = serve ch s1;
            (tc, s3) = dma_xt8237_finish_transfer ch
               (s2\<lparr>dma_stat_adv_pend := dma_stat_adv_pend s2 AND NOT (bitmask ch)\<rparr>)
        in (if tc then DMA_OVER else 0, reconcile_after rec ch s3))"

section \<open>DRAM refresh\<close>

text \<open>The DREQ pin of a channel, without the reconciliation \<open>dma_set_drq\<close> ends with.\<close>

definition set_drq_pin :: "nat \<Rightarrow> bool \<Rightarrow> dma_sys \<Rightarrow> dma_sys" where
  "set_drq_pin ch on s =
     (let b = bitmask ch; r = dma_stat_rq_pc s AND NOT b;
          s1 = s\<lparr>dma_stat_rq_pc := (if on then r OR b else r)\<rparr>
      in if dma_xt8237_active s1 \<and> ch < 4 \<and> \<not> on \<and> demand_active (xt s1) AND b \<noteq> 0
         then dma_xt8237_release_owner ch s1 else s1)"

text \<open>
  \<open>dma_xt_refresh_dack\<close> clears \<open>dma_xt_refresh_queued\<close> before its \<open>dma_set_drq(0, 0)\<close>, so that
  call cannot reconcile.
\<close>

definition dma_xt_refresh_dack :: "dma_sys \<Rightarrow> dma_sys" where
  "dma_xt_refresh_dack s =
     (let s1 = (if \<not> m808x_active s then snd (read_with id 0 s)
                else
                  let t1 = (if tst (dma_stat_adv_pend s) 0 then snd (advance_with id 0 s) else s);
                      t2 = dma_xt8237_advance_address 0 (dma_xt8237_begin_service 0 t1)
                  in snd (dma_xt8237_finish_transfer 0
                       (t2\<lparr>dma_stat_rq := dma_stat_rq t2 OR 0x01,
                           dma_stat_adv_pend := dma_stat_adv_pend t2 AND NOT 0x01\<rparr>)))
      in set_drq_pin 0 False (s1\<lparr>refresh_queued := False, refresh_scheduled := False\<rparr>))"

text \<open>The request slot of the 8088 adapter.\<close>

definition m808x_try_request :: "dma_sys \<Rightarrow> bool \<times> dma_sys" where
  "m808x_try_request s =
     (if \<not> m808x_active s \<or> m808x_req s then (False, s) else (True, s\<lparr>m808x_req := True\<rparr>))"

definition m808x_cancel_request :: "dma_sys \<Rightarrow> bool \<times> dma_sys" where
  "m808x_cancel_request s =
     (if \<not> m808x_active s \<or> m808x_granted s \<or> \<not> m808x_req s then (False, s)
      else (True, s\<lparr>m808x_req := False\<rparr>))"

definition dma_xt_refresh_try_schedule :: "dma_sys \<Rightarrow> dma_sys" where
  "dma_xt_refresh_try_schedule s =
     (if \<not> refresh_queued s \<or> refresh_scheduled s then s
      else if \<not> dma_xt8237_active s \<or> \<not> dma_xt8237_can_service 0 s then s
      else if m808x_active s then
        (let (ok, s1) = m808x_try_request s
         in if ok then s1\<lparr>refresh_scheduled := True\<rparr> else s1)
      else dma_xt_refresh_dack (s\<lparr>refresh_scheduled := True\<rparr>))"

definition dma_xt_refresh_reconcile :: "dma_sys \<Rightarrow> dma_sys" where
  "dma_xt_refresh_reconcile s =
     (let serviceable = (refresh_queued s \<and> dma_xt8237_active s \<and> dma_xt8237_can_service 0 s);
          s1 = (if refresh_scheduled s \<and> \<not> serviceable \<and> m808x_active s then
                  (let (ok, t) = m808x_cancel_request s
                   in if ok then t\<lparr>refresh_scheduled := False\<rparr> else t)
                else s)
      in if serviceable \<and> \<not> refresh_scheduled s1 then dma_xt_refresh_try_schedule s1 else s1)"

definition dma_set_drq :: "nat \<Rightarrow> bool \<Rightarrow> dma_sys \<Rightarrow> dma_sys" where
  "dma_set_drq ch on s =
     (if 7 < ch then s
      else
        let s1 = set_drq_pin ch on s
        in if dma_xt8237_active s1 \<and> refresh_queued s1 then dma_xt_refresh_reconcile s1 else s1)"

definition dma_xt_refresh_request :: "dma_sys \<Rightarrow> dma_sys" where
  "dma_xt_refresh_request s =
     (if \<not> refresh_queued s then dma_set_drq 0 True (s\<lparr>refresh_queued := True\<rparr>)
      else dma_xt_refresh_reconcile s)"

text \<open>DACK0 from the adapter: it frees its slot, then calls back.\<close>

definition m808x_dack :: "dma_sys \<Rightarrow> dma_sys" where
  "m808x_dack s = (if m808x_req s then dma_xt_refresh_dack (s\<lparr>m808x_req := False\<rparr>) else s)"

section \<open>The public channel operations\<close>

abbreviation xt_advance :: "nat \<Rightarrow> dma_sys \<Rightarrow> bool \<times> dma_sys" where
  "xt_advance \<equiv> advance_with dma_xt_refresh_reconcile"

abbreviation xt_read :: "nat \<Rightarrow> dma_sys \<Rightarrow> int \<times> dma_sys" where
  "xt_read \<equiv> read_with dma_xt_refresh_reconcile"

abbreviation xt_write :: "nat \<Rightarrow> u8 \<Rightarrow> dma_sys \<Rightarrow> int \<times> dma_sys" where
  "xt_write \<equiv> write_with dma_xt_refresh_reconcile"

definition dma_channel_readable :: "nat \<Rightarrow> dma_sys \<Rightarrow> bool option" where
  "dma_channel_readable ch s =
     (if \<not> dma_xt8237_active s then None
      else if \<not> dma_xt8237_can_service ch s then Some False
      else Some (d_mode (chan s ch) AND 0x0c = 0x08 \<or> d_mode (chan s ch) AND 0x0c = 0))"

definition dma_channel_read_only :: "nat \<Rightarrow> dma_sys \<Rightarrow> (int \<times> dma_sys) option" where
  "dma_channel_read_only ch s =
     (if \<not> dma_xt8237_active s then None else Some (read_only_with dma_xt_refresh_reconcile ch s))"

definition dma_channel_advance :: "nat \<Rightarrow> dma_sys \<Rightarrow> (bool \<times> dma_sys) option" where
  "dma_channel_advance ch s = (if \<not> dma_xt8237_active s then None else Some (xt_advance ch s))"

definition dma_channel_read :: "nat \<Rightarrow> dma_sys \<Rightarrow> (int \<times> dma_sys) option" where
  "dma_channel_read ch s = (if \<not> dma_xt8237_active s then None else Some (xt_read ch s))"

definition dma_channel_write :: "nat \<Rightarrow> u16 \<Rightarrow> dma_sys \<Rightarrow> (int \<times> dma_sys) option" where
  "dma_channel_write ch v s =
     (if \<not> dma_xt8237_active s then None else Some (xt_write ch (lo8 v) s))"

section \<open>Software requests\<close>

text \<open>
  The loop of \<open>dma_block_transfer\<close> counts with a 16-bit variable up to and including \<open>cb\<close>, so it
  need not end: it is a partial function, \<open>None\<close> being a loop that runs for ever.
\<close>

definition block_body :: "nat \<Rightarrow> u16 \<Rightarrow> dma_sys \<Rightarrow> dma_sys" where
  "block_body ch i s =
     (if d_mode (chan s ch) AND 0x8c = 0x84 then snd (xt_write ch (dma_buffer s (unat i)) s)
      else if d_mode (chan s ch) AND 0x8c = 0x88 then
        (let (v, s1) = xt_read ch s
         in s1\<lparr>dma_buffer := (dma_buffer s1)(unat i := word_of_int v)\<rparr>)
      else s)"

partial_function (option) block_loop :: "nat \<Rightarrow> u16 \<Rightarrow> dma_sys \<Rightarrow> dma_sys option" where
  "block_loop ch i s =
     (if i \<le> d_cb (chan s ch) then block_loop ch (i + 1) (block_body ch i s) else Some s)"

definition dma_block_transfer :: "nat \<Rightarrow> dma_sys \<Rightarrow> dma_sys option" where
  "dma_block_transfer ch s =
     map_option (\<lambda>t. t\<lparr>dma_req_is_soft := False\<rparr>) (block_loop ch 0 (s\<lparr>dma_req_is_soft := True\<rparr>))"

text \<open>One byte from memory to memory: channel 0 reads, channel 1 writes and counts.\<close>

definition m2m_step :: "dma_sys \<Rightarrow> bool \<times> dma_sys" where
  "m2m_step s =
     (let s1 = charge (Sub_cycles (if dma_command s 0 AND 0x08 \<noteq> 0 then 8 else 10)) s;
          s2 = upd_xt (\<lambda>x. x\<lparr>temp := dma_read_mem (d_ac (chan s1 0)) s1\<rparr>) s1;
          s3 = dma_write_mem (d_ac (chan s2 1)) (temp (xt s2)) s2;
          s4 = (if dma_command s3 0 AND 0x02 = 0 then dma_xt8237_advance_address 0 s3 else s3);
          s5 = upd_chan 1 (\<lambda>c. c\<lparr>d_cc := d_cc c - 1\<rparr>) (dma_xt8237_advance_address 1 s4)
      in if d_cc (chan s5 1) < 0 \<or> external_eop (xt s5) AND 0x02 \<noteq> 0 then
           let s6 = upd_xt (\<lambda>x. x\<lparr>external_eop := external_eop x AND NOT 0x02,
                                  sw_request := sw_request x AND NOT 0x01\<rparr>)
                      (s5\<lparr>dma_stat := dma_stat s5 OR 0x02\<rparr>);
               s7 = (if d_mode (chan s6 1) AND 0x10 \<noteq> 0 then
                       upd_chan 0 (\<lambda>c. c\<lparr>d_ac := d_ab c\<rparr>)
                         (upd_chan 1 (\<lambda>c. c\<lparr>d_cc := int (unat (d_cb c)), d_ac := d_ab c\<rparr>) s6)
                     else s6\<lparr>dma_m := dma_m s6 OR 0x02\<rparr>)
           in (True, dma_xt8237_release_owner 0 s7)
         else (False, s5))"

lemma m2m_step_count:
  "m2m_step s = (False, t) \<Longrightarrow> 0 \<le> d_cc (chan t 1) \<and> d_cc (chan t 1) = d_cc (chan s 1) - 1"
  by (auto simp: m2m_step_def Let_def upd_chan_def upd_xt_def charge_def dma_write_mem_def
      dma_xt8237_advance_address_def split: if_splits)

function m2m_loop :: "dma_sys \<Rightarrow> bool \<times> dma_sys" where
  "m2m_loop s =
     (case m2m_step s of
        (True, t) \<Rightarrow> (True, t)
      | (False, t) \<Rightarrow> (if service_mode 0 t = 2 \<and> dma_xt8237_can_service 0 t
                       then m2m_loop t else (False, t)))"
  by pat_completeness auto
termination
  by (relation "measure (\<lambda>s. nat (d_cc (chan s 1) + 1))") (auto dest!: m2m_step_count [OF sym])

declare m2m_loop.simps [simp del]

definition dma_xt8237_mem_to_mem :: "dma_sys \<Rightarrow> bool \<times> dma_sys" where
  "dma_xt8237_mem_to_mem s =
     (if in_mem_to_mem (xt s) then (False, s)
      else if dma_command s 0 AND 0x01 = 0 then (False, s)
      else if \<not> dma_xt8237_can_service 0 s then (False, s)
      else
        let s1 = dma_xt8237_begin_service 0 (upd_xt (\<lambda>x. x\<lparr>in_mem_to_mem := True\<rparr>) s);
            (terminal, s2) = m2m_loop s1;
            s3 = (if service_mode 0 s2 = 1 then dma_xt8237_release_owner 0 s2 else s2)
        in (terminal, upd_xt (\<lambda>x. x\<lparr>in_mem_to_mem := False\<rparr>) s3))"

section \<open>The registers\<close>

definition put_reg :: "nat \<Rightarrow> nat \<Rightarrow> u8 \<Rightarrow> dma_sys \<Rightarrow> dma_sys" where
  "put_reg bank i v s = s\<lparr>dmaregs := (dmaregs s)(bank := (dmaregs s bank)(i := v))\<rparr>"

text \<open>The address and count cases of \<open>dma_write_legacy\<close>, which both paths share.\<close>

definition flip_wp :: "dma_sys \<Rightarrow> dma_sys" where
  "flip_wp s = s\<lparr>dma_wp := (dma_wp s)(0 := \<not> dma_wp s 0)\<rparr>"

definition address_write :: "nat \<Rightarrow> u8 \<Rightarrow> dma_sys \<Rightarrow> dma_sys" where
  "address_write ch val s0 =
     (let s = flip_wp s0 in
      upd_chan ch (\<lambda>c. let ab = (if dma_wp s 0
                                 then (d_ab c AND 0xffffff00 AND dma_mask s) OR ucast val
                                 else (d_ab c AND 0xffff00ff AND dma_mask s) OR
                                      push_bit 8 (ucast val))
                       in c\<lparr>d_ab := ab, d_ac := ab\<rparr>) s)"

definition count_write :: "nat \<Rightarrow> u8 \<Rightarrow> dma_sys \<Rightarrow> dma_sys" where
  "count_write ch val s0 =
     (let s = flip_wp s0 in
      upd_chan ch (\<lambda>c. let cb = (if dma_wp s 0 then set_lo8 (d_cb c) val else set_hi8 (d_cb c) val)
                       in c\<lparr>d_cb := cb, d_cc := int (unat cb)\<rparr>) s)"

definition port_write :: "u16 \<Rightarrow> u8 \<Rightarrow> dma_sys \<Rightarrow> dma_sys" where
  "port_write addr val s =
     (let r = unat (addr AND 0x0f); ch = (r div 2) mod 4 in
      if r < 8 then (if even r then address_write ch val else count_write ch val)
                      (put_reg 0 r val s)
      else s)"

text \<open>The request register (port 9) can start a transfer that never ends.\<close>

definition request_write :: "u8 \<Rightarrow> dma_sys \<Rightarrow> dma_sys option" where
  "request_write val s =
     (let ch = unat (val AND 3); b = bitmask ch in
      if val AND 4 \<noteq> 0 then
        (let s1 = upd_xt (\<lambda>x. x\<lparr>sw_request := sw_request x OR b\<rparr>) s
         in if ch = 0 \<and> dma_command s1 0 AND 0x01 \<noteq> 0 then Some (snd (dma_xt8237_mem_to_mem s1))
            else dma_block_transfer ch s1)
      else
        (let s1 = upd_xt (\<lambda>x. x\<lparr>sw_request := sw_request x AND NOT b\<rparr>) s
         in Some (if demand_active (xt s1) AND b \<noteq> 0 then dma_xt8237_release_owner ch s1 else s1)))"

definition mask_write :: "u8 \<Rightarrow> dma_sys \<Rightarrow> dma_sys" where
  "mask_write val s =
     (let ch = unat (val AND 3); b = bitmask ch in
      if val AND 4 \<noteq> 0 then dma_xt8237_release_owner ch (s\<lparr>dma_m := dma_m s OR b\<rparr>)
      else s\<lparr>dma_m := dma_m s AND NOT b\<rparr>)"

definition mode_write :: "u8 \<Rightarrow> dma_sys \<Rightarrow> dma_sys" where
  "mode_write val s =
     (let ch = unat (val AND 3); b = bitmask ch in
      upd_xt (\<lambda>x. x\<lparr>demand_active := demand_active x AND NOT b,
                    block_active := block_active x AND NOT b,
                    external_eop := external_eop x AND NOT b, dack := dack x AND NOT b\<rparr>)
        (upd_chan ch (\<lambda>c. c\<lparr>d_mode := val\<rparr>) s))"

definition command_write :: "u8 \<Rightarrow> dma_sys \<Rightarrow> dma_sys" where
  "command_write val s =
     (let s1 = s\<lparr>dma_command := (dma_command s)(0 := val)\<rparr>
      in if val AND 0x04 \<noteq> 0
         then upd_xt (\<lambda>x. x\<lparr>demand_active := 0, block_active := 0, dack := 0\<rparr>) s1 else s1)"

definition mask_all_write :: "u8 \<Rightarrow> dma_sys \<Rightarrow> dma_sys" where
  "mask_all_write val s =
     (let m = (dma_m s AND 0xf0) OR (val AND 0x0f)
      in upd_xt (\<lambda>x. x\<lparr>demand_active := demand_active x AND NOT m,
                       block_active := block_active x AND NOT m, dack := dack x AND NOT m\<rparr>)
           (s\<lparr>dma_m := m\<rparr>))"

datatype dma_write_result = At_path | Never_returns | Done dma_sys

definition dma_write :: "u16 \<Rightarrow> u8 \<Rightarrow> dma_sys \<Rightarrow> dma_write_result" where
  "dma_write addr val s0 =
     (if \<not> dma_xt8237_active s0 then At_path
      else
        let r = unat (addr AND 0x0f);
            s = put_reg 0 r val s0;
            ret = (if r = 0x08 then Some (command_write val s)
                   else if r = 0x09 then request_write val s
                   else if r = 0x0a then Some (mask_write val s)
                   else if r = 0x0b then Some (mode_write val s)
                   else if r = 0x0c then Some (s\<lparr>dma_wp := (dma_wp s)(0 := False)\<rparr>)
                   else if r = 0x0d then Some (dma_xt8237_master_clear s)
                   else if r = 0x0e then Some (s\<lparr>dma_m := dma_m s AND 0xf0\<rparr>)
                   else if r = 0x0f then Some (mask_all_write val s)
                   else Some (port_write addr val s))
        in case ret of None \<Rightarrow> Never_returns | Some t \<Rightarrow> Done (dma_xt_refresh_reconcile t))"

text \<open>The count is read through \<open>count & 0xff\<close> and \<open>count >> 8\<close> of a signed \<open>int\<close>.\<close>

definition port_read :: "u16 \<Rightarrow> dma_sys \<Rightarrow> u8 \<times> dma_sys" where
  "port_read addr s0 =
     (let r = unat (addr AND 0x0f); ch = (r div 2) mod 4 in
      if r < 8 then
        (let s = flip_wp s0; c = chan s ch
         in (if even r then (if dma_wp s 0 then ucast (d_ac c) else ucast (drop_bit 8 (d_ac c)))
             else (if dma_wp s 0 then word_of_int (d_cc c mod 256)
                   else word_of_int (d_cc c div 256)), s))
      else (dmaregs s0 0 r, s0))"

definition dma_read :: "u16 \<Rightarrow> dma_sys \<Rightarrow> (u8 \<times> dma_sys) option" where
  "dma_read addr s =
     (if \<not> dma_xt8237_active s then None
      else if addr AND 0x0f = 0x08 then
        Some (push_bit 4 (dma_xt8237_raw_requests s) OR (dma_stat s AND 0x0f),
              s\<lparr>dma_stat := dma_stat s AND NOT 0x0f\<rparr>)
      else if addr AND 0x0f = 0x0d then Some (temp (xt s), s)
      else Some (port_read addr s))"

section \<open>Page registers and reset\<close>

definition convert :: "nat \<Rightarrow> nat" where
  "convert i = [8, 2, 3, 1, 8, 8, 8, 0] ! i"

definition page_channel :: "bool \<Rightarrow> nat \<Rightarrow> nat" where
  "page_channel is5550 a =
     (if is5550 then (if 4 \<le> a then 8 else a)
      else if 8 \<le> a then convert (a mod 8) OR 4
      else convert (a mod 8))"

definition set_page :: "u32 \<Rightarrow> u32 \<Rightarrow> u8 \<Rightarrow> u32 \<Rightarrow> u32" where
  "set_page keep msk page a = (a AND keep AND msk) OR push_bit 16 (ucast page)"

definition dma_page_write :: "u16 \<Rightarrow> u8 \<Rightarrow> dma_sys \<Rightarrow> dma_sys" where
  "dma_page_write addr val s0 =
     (let a = unat (addr AND 0x0f); s = put_reg 2 a val s0; ch = page_channel (ibm5550 s) a in
      if ch < 8 then
        (let page = (if 4 < ch then val AND 0xfe
                     else if dma_page_is_xt s then val AND 0x0f else val);
             keep = (if 4 < ch then 0xff01ffff else 0xff00ffff)
         in upd_chan ch (\<lambda>c. c\<lparr>d_page_l := val, d_page := page,
               d_ab := set_page keep (dma_mask s) page (d_ab c),
               d_ac := set_page keep (dma_mask s) page (d_ac c)\<rparr>) s)
      else s)"

text \<open>
  \<open>quirk\<close> is the source's test for the WD76C10 BIOS code that times itself through these ports.
\<close>

definition dma_page_read :: "bool \<Rightarrow> nat \<Rightarrow> u16 \<Rightarrow> dma_sys \<Rightarrow> u8" where
  "dma_page_read quirk busspeed addr s =
     (if addr AND 0xfffc = 0x80 \<and> quirk then
        (if addr = 0x81 then (if 25000000 \<le> busspeed then 0x98
                              else if 20000000 \<le> busspeed then 0xe0 else 0x80)
         else if addr = 0x82 then (if 25000000 \<le> busspeed then 0x08
                                   else if 20000000 \<le> busspeed then 0x06 else 0x05)
         else 0xff)
      else
        let a = unat (addr AND 0x0f); ch = page_channel False a
        in if ch < 8 then d_page_l (chan s ch) else dmaregs s 2 a)"

definition dma_high_page_write :: "u16 \<Rightarrow> u8 \<Rightarrow> dma_sys \<Rightarrow> dma_sys" where
  "dma_high_page_write addr val s =
     (let ch = page_channel False (unat (addr AND 0x0f)) in
      if ch < 8 then
        upd_chan ch (\<lambda>c. c\<lparr>d_page_h := val,
          d_ab := ((d_ab c AND 0xffffff) OR push_bit 24 (ucast val)) AND dma_mask s,
          d_ac := ((d_ac c AND 0xffffff) OR push_bit 24 (ucast val)) AND dma_mask s\<rparr>) s
      else s)"

definition dma_high_page_read :: "u16 \<Rightarrow> dma_sys \<Rightarrow> u8" where
  "dma_high_page_read addr s =
     (let ch = page_channel False (unat (addr AND 0x0f))
      in if ch < 8 then d_page_h (chan s ch) else 0xff)"

definition dma_set_params :: "bool \<Rightarrow> u32 \<Rightarrow> dma_sys \<Rightarrow> dma_sys" where
  "dma_set_params advanced msk s = s\<lparr>dma_advanced := advanced, dma_mask := msk\<rparr>"

definition dma_set_mask :: "u32 \<Rightarrow> dma_sys \<Rightarrow> dma_sys" where
  "dma_set_mask msk s =
     s\<lparr>dma_mask := msk,
       chan := (\<lambda>i. if i < 8 then (chan s i)\<lparr>d_ab := d_ab (chan s i) AND msk,
                                            d_ac := d_ac (chan s i) AND msk\<rparr> else chan s i)\<rparr>"

definition dma_set_at :: "bool \<Rightarrow> dma_sys \<Rightarrow> dma_sys" where
  "dma_set_at at s = s\<lparr>dma_at := at\<rparr>"

definition dma_ext_mode_write :: "u16 \<Rightarrow> u8 \<Rightarrow> dma_sys \<Rightarrow> dma_sys" where
  "dma_ext_mode_write addr val s =
     (let ch0 = unat (val AND 3); ch = (if addr = 0x4d6 then ch0 + 4 else ch0);
          k = drop_bit 2 val AND 3
      in upd_chan ch (\<lambda>c. c\<lparr>d_ext_mode := val AND 0x7c,
           d_transfer_mode := (if k = 0 then 0x0101 else if k = 1 then 0x0202
                               else if k = 2 then 0x0201 else 0x0102)\<rparr>) s)"

definition zero_chan :: "nat \<Rightarrow> dma_chan" where
  "zero_chan c = \<lparr>d_mode = 0, d_page = 0, d_page_l = 0, d_page_h = 0, d_cb = 0, d_ab = 0,
     d_ac = 0, d_cc = 0, d_size = (if 4 \<le> c then 1 else 0),
     d_transfer_mode = (if 4 \<le> c then 0x0202 else 0x0101), d_ext_mode = 0\<rparr>"

definition dma_reset_legacy :: "bool \<Rightarrow> dma_sys \<Rightarrow> dma_sys" where
  "dma_reset_legacy is286 s =
     s\<lparr>dma_wp := (\<lambda>_. False), dma_m := 0, dma_e := 0xff,
       dmaregs := (dmaregs s)(0 := (\<lambda>i. if i < 16 then 0 else dmaregs s 0 i),
                              1 := (\<lambda>i. if i < 16 then 0 else dmaregs s 1 i)),
       chan := (\<lambda>c. if c < 8 then zero_chan c else chan s c),
       dma_stat := 0, dma_stat_rq := 0, dma_stat_rq_pc := 0, dma_stat_adv_pend := 0,
       dma_req_is_soft := False, dma_advanced := False, dma_buffer := (\<lambda>_. 0),
       dma_mask := 0x00ffffff, dma_at := is286\<rparr>"

definition dma_reset :: "bool \<Rightarrow> dma_sys \<Rightarrow> dma_sys" where
  "dma_reset is286 s0 =
     (let s = (dma_reset_legacy is286 s0)
                \<lparr>dma_command := (\<lambda>_. 0), xt := xt8237_clear, refresh_queued := False,
                 refresh_scheduled := False\<rparr>
      in if dma_page_is_xt s then s\<lparr>dma_m := (dma_m s AND 0xf0) OR 0x0f\<rparr> else s)"

definition dma_init :: "bool \<Rightarrow> dma_sys \<Rightarrow> dma_sys" where
  "dma_init is286 s = (dma_reset is286 s)\<lparr>is_ps2 := False\<rparr>"

end
