(* ===== verification/Dma_Transfer.thy ===== *)
theory Dma_Transfer
  imports Dma
begin

text \<open>
  What the XT side of the DMA controller promises: what a transfer leaves alone, where its bytes
  go, when it ends, how far it reaches, which channel is served, the two-byte registers, software
  requests and the refresh latch.
\<close>

section \<open>What a transfer leaves alone\<close>

type_synonym dma_config = "u32 \<times> bool \<times> bool \<times> bool \<times> bool \<times> u8 \<times> u8 \<times> bool \<times> bool \<times>
   (nat \<Rightarrow> u16 \<times> u8 \<times> u32 \<times> u8)"

definition config :: "dma_sys \<Rightarrow> dma_config" where
  "config s = (dma_mask s, dma_force_xt s, dma_advanced s, is_ps2 s, dma_at s, dma_e s,
     dma_command s 0, m808x_active s, dma_req_is_soft s,
     \<lambda>c. (d_cb (chan s c), d_mode (chan s c), d_ab (chan s c), d_page (chan s c)))"

lemma config_eqD:
  assumes "config t = config s"
  shows "dma_mask t = dma_mask s" "dma_force_xt t = dma_force_xt s" "dma_advanced t = dma_advanced s"
    "is_ps2 t = is_ps2 s" "dma_at t = dma_at s" "dma_e t = dma_e s" "dma_command t 0 = dma_command s 0"
    "m808x_active t = m808x_active s" "dma_req_is_soft t = dma_req_is_soft s"
    "d_cb (chan t c) = d_cb (chan s c)" "d_mode (chan t c) = d_mode (chan s c)"
    "d_ab (chan t c) = d_ab (chan s c)" "d_page (chan t c) = d_page (chan s c)"
    "dma_xt8237_active t = dma_xt8237_active s"
  using assms by (simp_all add: config_def dma_xt8237_active_def fun_eq_iff)

lemma config_xt [simp]: "config (upd_xt f s) = config s"
  by (simp add: config_def upd_xt_def)

lemma config_charge [simp]: "config (charge e s) = config s"
  by (simp add: config_def charge_def)

lemma config_fields [simp]:
  "config (s\<lparr>dma_m := v\<rparr>) = config s" "config (s\<lparr>dma_stat := v\<rparr>) = config s"
  "config (s\<lparr>dma_stat_rq := v\<rparr>) = config s" "config (s\<lparr>dma_stat_rq_pc := v\<rparr>) = config s"
  "config (s\<lparr>dma_stat_adv_pend := v\<rparr>) = config s" "config (s\<lparr>phys := p\<rparr>) = config s"
  "config (s\<lparr>refresh_queued := b\<rparr>) = config s" "config (s\<lparr>refresh_scheduled := b\<rparr>) = config s"
  "config (s\<lparr>m808x_req := b\<rparr>) = config s" "config (s\<lparr>dma_buffer := q\<rparr>) = config s"
  "config (s\<lparr>dmaregs := r\<rparr>) = config s" "config (s\<lparr>dma_wp := w\<rparr>) = config s"
  by (simp_all add: config_def)

lemma config_chan:
  "(\<And>c. (d_cb (f c), d_mode (f c), d_ab (f c), d_page (f c)) = (d_cb c, d_mode c, d_ab c, d_page c)) \<Longrightarrow>
   config (upd_chan ch f s) = config s"
  by (auto simp add: config_def upd_chan_def fun_eq_iff)

lemma config_advance_address [simp]: "config (dma_xt8237_advance_address ch s) = config s"
  by (simp add: dma_xt8237_advance_address_def config_chan)

lemma config_release [simp]: "config (dma_xt8237_release_owner ch s) = config s"
  by (simp add: dma_xt8237_release_owner_def)

lemma config_begin [simp]: "config (dma_xt8237_begin_service ch s) = config s"
  by (simp add: dma_xt8237_begin_service_def)

lemma config_charge_bus [simp]: "config (dma_xt8237_charge_bus ch s) = config s"
  by (simp add: dma_xt8237_charge_bus_def)

lemma config_serve [simp]: "config (serve ch s) = config s"
  by (simp add: serve_def Let_def)

lemma config_write_mem [simp]: "config (dma_write_mem a v s) = config s"
  by (simp add: dma_write_mem_def)

lemma config_finish [simp]: "config (snd (dma_xt8237_finish_transfer ch s)) = config s"
  by (simp add: dma_xt8237_finish_transfer_def Let_def config_chan)

lemma config_after: "(\<And>t. config (rec t) = config t) \<Longrightarrow> config (reconcile_after rec ch s) = config s"
  by (simp add: reconcile_after_def)

lemma config_advance:
  assumes "\<And>t. config (rec t) = config t"
  shows "config (snd (advance_with rec ch s)) = config s"
  using config_finish [of ch "s\<lparr>dma_stat_adv_pend := dma_stat_adv_pend s AND NOT (bitmask ch)\<rparr>"]
  by (simp add: advance_with_def split_beta Let_def config_after assms)

lemma config_read:
  assumes "\<And>t. config (rec t) = config t"
  shows "config (snd (read_with rec ch s)) = config s"
  by (simp add: read_with_def split_beta Let_def config_after config_advance assms)

lemma config_read_only:
  assumes "\<And>t. config (rec t) = config t"
  shows "config (snd (read_only_with rec ch s)) = config s"
  by (simp add: read_only_with_def split_beta Let_def config_after config_advance assms)

lemma config_write:
  assumes "\<And>t. config (rec t) = config t"
  shows "config (snd (write_with rec ch v s)) = config s"
  by (simp add: write_with_def split_beta Let_def config_after assms)

lemma config_drq_pin [simp]: "config (set_drq_pin ch on s) = config s"
  by (simp add: set_drq_pin_def Let_def)

lemma config_dack [simp]: "config (dma_xt_refresh_dack s) = config s"
  by (simp add: dma_xt_refresh_dack_def Let_def config_read config_advance)

lemma config_try [simp]: "config (dma_xt_refresh_try_schedule s) = config s"
  by (simp add: dma_xt_refresh_try_schedule_def m808x_try_request_def Let_def split_beta)

lemma config_reconcile [simp]: "config (dma_xt_refresh_reconcile s) = config s"
  by (simp add: dma_xt_refresh_reconcile_def m808x_cancel_request_def Let_def split_beta)

lemma config_set_drq [simp]: "config (dma_set_drq ch on s) = config s"
  by (simp add: dma_set_drq_def Let_def)

lemma config_refresh_request [simp]: "config (dma_xt_refresh_request s) = config s"
  by (simp add: dma_xt_refresh_request_def)

lemma config_block_body [simp]: "config (block_body ch i s) = config s"
  using config_read [of dma_xt_refresh_reconcile ch s]
  by (simp add: block_body_def config_write split_beta Let_def)

lemma config_m2m [simp]: "config (snd (m2m_step s)) = config s"
  by (simp add: m2m_step_def Let_def config_chan)

section \<open>Arbitration\<close>

definition rotating_rank :: "nat \<Rightarrow> nat \<Rightarrow> nat" where
  "rotating_rank prev j = (j + (4 - Suc prev mod 4)) mod 4"

lemma rotating_order: "priority_order 4 (rotating_line prev) (rotating_rank prev)"
proof -
  have "rotating_line prev = (\<lambda>i. (i + Suc prev) mod 4)"
    by (simp add: rotating_line_def fun_eq_iff add.commute)
  then show ?thesis using rotation_order [of 4 "Suc prev"] by (simp add: rotating_rank_def [abs_def])
qed

interpretation rotating: priority_order 4 "rotating_line prev" "rotating_rank prev" for prev
  by (rule rotating_order)

interpretation fixed: priority_order 4 fixed_line fixed_line
  by unfold_locales (simp_all add: fixed_line_def)

text \<open>A channel that may be served: requested, enabled and not masked.\<close>

definition eligible :: "u8 \<Rightarrow> dma_sys \<Rightarrow> nat \<Rightarrow> bool" where
  "eligible req s ch \<longleftrightarrow> tst req ch \<and> tst (dma_e s) ch \<and> \<not> tst (dma_m s) ch"

lemma less_4_cases: "(i :: nat) < 4 \<Longrightarrow> i = 0 \<or> i = 1 \<or> i = 2 \<or> i = 3"
  by arith

lemma tst_0f: "tst (0x0f :: u8) k \<longleftrightarrow> k < 4"
proof -
  have e: "(0x0f :: u8) = mask 4" by (simp add: mask_eq_exp_minus_1)
  show ?thesis unfolding tst_iff_bit e by (simp only: bit_mask_iff) auto
qed

lemma tst_lt: "tst (w :: u8) k \<Longrightarrow> k < 8"
  by (auto simp: tst_iff_bit dest: bit_imp_le_length)

lemma tst_enabled:
  "tst (req AND NOT (dma_m s AND 0x0f) AND (dma_e s AND 0x0f)) k \<longleftrightarrow> k < 4 \<and> eligible req s k"
proof (cases "k < 8")
  case True
  then show ?thesis by (simp only: tst_and tst_not [of k, where 'a = 8, simplified] tst_0f eligible_def) auto
next
  case False
  then show ?thesis by (auto simp only: tst_and eligible_def dest: tst_lt)
qed

text \<open>The rank in force: fixed, or rotating behind the channel served last.\<close>

definition rank_in_force :: "dma_sys \<Rightarrow> nat \<Rightarrow> nat" where
  "rank_in_force s = (if dma_command s 0 AND 0x10 \<noteq> 0 then rotating_rank (last_service (xt s))
                      else fixed_line)"

text \<open>Arbitration is by priority. With the controller enabled and no channel holding the
  bus in demand or block mode, the channel picked is the eligible one (requested, enabled, not
  masked) of highest priority: by number, or, with rotating priority selected, counted from the
  channel after the one served last. No channel is picked iff none of the four is eligible.\<close>

theorem priority_pick_highest:
  assumes "dma_command s 0 AND 0x04 = 0" and "demand_active (xt s) = 0" and "block_active (xt s) = 0"
  shows "case dma_xt8237_priority_pick req s of
     None \<Rightarrow> \<forall>k < 4. \<not> eligible req s k
   | Some ch \<Rightarrow> ch < 4 \<and> eligible req s ch \<and>
       (\<forall>k < 4. rank_in_force s k < rank_in_force s ch \<longrightarrow> \<not> eligible req s k)"
proof -
  define r where "r = req AND NOT (dma_m s AND 0x0f) AND (dma_e s AND 0x0f)"
  have t: "tst r k \<longleftrightarrow> k < 4 \<and> eligible req s k" for k unfolding r_def by (rule tst_enabled)
  have z: "r = 0 \<Longrightarrow> \<not> eligible req s k" if "k < 4" for k using t that by auto
  have pick: "dma_xt8237_priority_pick req s =
     (if r = 0 then None
      else if dma_command s 0 AND 0x10 \<noteq> 0
      then first_line 4 (rotating_line (last_service (xt s))) (tst r)
      else first_line 4 fixed_line (tst r))"
    unfolding dma_xt8237_priority_pick_def Let_def r_def [symmetric] using assms by simp
  show ?thesis
  proof (cases "dma_command s 0 AND 0x10 \<noteq> 0")
    case True
    then show ?thesis unfolding pick using z
      by (auto split: option.split simp: rank_in_force_def rotating.pick_Some rotating.pick_None t)
  next
    case False
    then show ?thesis unfolding pick using z
      by (auto split: option.split simp: rank_in_force_def fixed.pick_Some fixed.pick_None t)
  qed
qed

text \<open>A peripheral channel is served whenever its own request, mask and mode allow it.\<close>

lemma pick_single:
  assumes "ch < 4"
  shows "dma_xt8237_priority_pick (r0 AND bitmask ch) s = Some ch \<longleftrightarrow>
     dma_command s 0 AND 0x04 = 0 \<and> eligible r0 s ch"
proof -
  define r where "r = (r0 AND bitmask ch) AND NOT (dma_m s AND 0x0f) AND (dma_e s AND 0x0f)"
  have t: "tst r k \<longleftrightarrow> k = ch \<and> eligible r0 s ch" for k
    unfolding r_def tst_enabled using assms by (auto simp: eligible_def tst_and tst_bitmask)
  note pick = dma_xt8237_priority_pick_def [of "r0 AND bitmask ch" s, folded r_def, unfolded Let_def]
  show ?thesis
  proof (cases "eligible r0 s ch")
    case True
    have nz: "r \<noteq> 0" using t [of ch] True by auto
    have f: "first_line 4 l (tst r) = Some ch" if "priority_order 4 l rk" for l rk
      unfolding priority_order.pick_Some [OF that] using t True assms by auto
    let ?o = "r AND (demand_active (xt s) OR block_active (xt s))"
    have o: "tst ?o k \<Longrightarrow> k = ch" for k using t by (auto simp: tst_and)
    have "first_line 4 fixed_line (tst ?o) = Some ch" if "?o \<noteq> 0"
    proof -
      from nonzero_tst [OF that] obtain k where "tst ?o k" by blast
      then have "tst ?o ch" using o by blast
      then show ?thesis unfolding fixed.pick_Some using assms by (auto dest!: o)
    qed
    then show ?thesis
      using nz f [OF rotating_order] f [OF fixed.priority_order_axioms] True
      by (simp add: pick)
  next
    case False
    then have "r = 0" using t by (intro not_tst_all_imp_zero) blast
    then show ?thesis using False by (simp add: pick)
  qed
qed

lemma can_service_peripheral:
  assumes "0 < ch" "ch < 4" "\<not> dma_req_is_soft s"
  shows "dma_xt8237_can_service ch s \<longleftrightarrow>
     dma_command s 0 AND 0x04 = 0 \<and> eligible (dma_xt8237_service_requests s) s ch \<and> service_mode ch s \<noteq> 3"
  using assms pick_single [OF assms(2), of "dma_xt8237_service_requests s" s]
  by (auto simp: dma_xt8237_can_service_def Let_def eligible_def service_mode_def tst_and tst_bitmask)

definition dma_blank :: dma_sys where
  "dma_blank = \<lparr>chan = zero_chan, dma_e = 0, dma_m = 0, dmaregs = (\<lambda>_ _. 0), dma_wp = (\<lambda>_. False),
     dma_stat = 0, dma_stat_rq = 0, dma_stat_rq_pc = 0, dma_stat_adv_pend = 0,
     dma_command = (\<lambda>_. 0), dma_req_is_soft = False, dma_advanced = False, dma_at = False,
     dma_buffer = (\<lambda>_. 0), dma_mask = 0, is_ps2 = False, xt = xt8237_clear, refresh_queued = False,
     refresh_scheduled = False, dma_force_xt = True, ibm5550 = False, phys = (\<lambda>_. 0),
     m808x_active = False, m808x_req = False, m808x_granted = False, charges = []\<rparr>"

text \<open>The controller of an accelerated XT after reset: a 286 or better CPU on an XT board.\<close>

definition dma_boot :: dma_sys where
  "dma_boot = dma_init True dma_blank"

lemma dma_boot_sel [simp]:
  "dma_e dma_boot = 0xff" "dma_m dma_boot = 0x0f" "dma_command dma_boot = (\<lambda>_. 0)"
  "xt dma_boot = xt8237_clear" "dma_mask dma_boot = 0xffffff" "dma_force_xt dma_boot"
  "\<not> dma_advanced dma_boot" "\<not> is_ps2 dma_boot" "\<not> refresh_queued dma_boot" "\<not> refresh_scheduled dma_boot"
  "c < 8 \<Longrightarrow> chan dma_boot c = zero_chan c" "dma_stat_rq_pc dma_boot = 0" "\<not> dma_req_is_soft dma_boot"
  "dma_wp dma_boot = (\<lambda>_. False)" "\<not> m808x_active dma_boot" "dma_stat_adv_pend dma_boot = 0"
  by (simp_all add: dma_boot_def dma_init_def dma_reset_def dma_reset_legacy_def Let_def dma_blank_def
      dma_page_is_xt_def)

lemma priority_pick_highest_witness:
  "case dma_xt8237_priority_pick 0x0c (dma_boot\<lparr>dma_m := 0\<rparr>) of
     None \<Rightarrow> \<forall>k < 4. \<not> eligible 0x0c (dma_boot\<lparr>dma_m := 0\<rparr>) k
   | Some ch \<Rightarrow> ch < 4 \<and> eligible 0x0c (dma_boot\<lparr>dma_m := 0\<rparr>) ch \<and>
       (\<forall>k < 4. rank_in_force (dma_boot\<lparr>dma_m := 0\<rparr>) k < rank_in_force (dma_boot\<lparr>dma_m := 0\<rparr>) ch \<longrightarrow>
         \<not> eligible 0x0c (dma_boot\<lparr>dma_m := 0\<rparr>) k)"
  by (rule priority_pick_highest) (simp_all add: xt8237_clear_def)

section \<open>Software requests\<close>

lemma block_body_cb: "d_cb (chan (block_body ch i s) ch) = d_cb (chan s ch)"
  by (rule config_eqD(10) [OF config_block_body])

lemma unat_lt_u16: "unat (w :: u16) \<le> 65535"
  using unsigned_less [where 'a = nat, of w] by simp

lemma block_loop_runs_away:
  assumes "block_loop ch i s = Some t"
  shows "d_cb (chan s ch) \<noteq> 0xffff"
proof (rule block_loop.raw_induct [where P = "\<lambda>ch i s t. d_cb (chan s ch) \<noteq> 0xffff", OF _ assms])
  fix loop c j u w
  assume ih: "\<And>c j u w. loop c j u = Some w \<Longrightarrow> d_cb (chan u c) \<noteq> 0xffff"
    and eq: "(if j \<le> d_cb (chan u c) then loop c (j + 1) (block_body c j u) else Some u) = Some w"
  show "d_cb (chan u c) \<noteq> 0xffff"
  proof
    assume a: "d_cb (chan u c) = 0xffff"
    then have "j \<le> d_cb (chan u c)" by (simp add: word_le_nat_alt unat_lt_u16)
    with eq have "loop c (j + 1) (block_body c j u) = Some w" by simp
    from ih [OF this] show False using a by (simp add: block_body_cb)
  qed
qed

lemma block_loop_ends:
  assumes "d_cb (chan s ch) \<noteq> 0xffff"
  shows "\<exists>t. block_loop ch i s = Some t"
  using assms
proof (induction "unat (d_cb (chan s ch)) + 1 - unat i" arbitrary: i s rule: less_induct)
  case less
  show ?case
  proof (cases "i \<le> d_cb (chan s ch)")
    case True
    have "unat (d_cb (chan s ch)) < 0xffff"
      using less.prems unat_lt_u16 [of "d_cb (chan s ch)"] by (auto simp: le_less word_unat_eq_iff)
    with True have i: "unat i < 0xffff" by (simp add: word_le_nat_alt)
    then have "unat (i + 1) = unat i + 1" by (subst unat_word_ariths) simp
    with True have "unat (d_cb (chan (block_body ch i s) ch)) + 1 - unat (i + 1) <
        unat (d_cb (chan s ch)) + 1 - unat i"
      by (simp add: block_body_cb word_le_nat_alt)
    from less.hyps [OF this] less.prems obtain t where "block_loop ch (i + 1) (block_body ch i s) = Some t"
      by (auto simp: block_body_cb)
    with True show ?thesis by (subst block_loop.simps) auto
  next
    case False
    then show ?thesis by (subst block_loop.simps) auto
  qed
qed

text \<open>A software request returns unless the block is a full 64K. Writing a request for a
  channel (other than a memory to memory request) to port 9 ends in a state with the request
  served when the base count is below 0xffff; with a base count of 0xffff the loop of
  \<open>dma_block_transfer\<close>, whose 16-bit counter never exceeds the count, runs for ever.\<close>

theorem software_request_returns:
  assumes "dma_xt8237_active s" and "unat (v AND 3) = ch" and "v AND 4 \<noteq> 0"
    and "\<not> (ch = 0 \<and> dma_command s 0 AND 0x01 \<noteq> 0)"
  shows "dma_write 0x09 v s = Never_returns \<longleftrightarrow> d_cb (chan s ch) = 0xffff"
proof -
  let ?s = "upd_xt (\<lambda>x. x\<lparr>sw_request := sw_request x OR bitmask ch\<rparr>) (put_reg 0 9 v s)"
  let ?t = "?s\<lparr>dma_req_is_soft := True\<rparr>"
  have c: "dma_command ?s 0 = dma_command s 0" "d_cb (chan ?t ch) = d_cb (chan s ch)"
    by (simp_all add: upd_xt_def put_reg_def)
  have "request_write v (put_reg 0 9 v s) = dma_block_transfer ch ?s"
    using assms(2-4) c(1) by (auto simp: request_write_def Let_def)
  moreover have "dma_block_transfer ch ?s = None \<longleftrightarrow> d_cb (chan s ch) = 0xffff"
    using block_loop_runs_away [of ch 0 ?t] block_loop_ends [of ?t ch 0] c(2)
    by (cases "block_loop ch 0 ?t") (auto simp: dma_block_transfer_def)
  ultimately show ?thesis
    using assms(1) by (auto simp: dma_write_def Let_def split: option.split)
qed

lemma software_request_returns_witness:
  "dma_write 0x09 0x06 (upd_chan 2 (\<lambda>c. c\<lparr>d_cb := 0xffff\<rparr>) dma_boot) = Never_returns"
proof -
  have "dma_xt8237_active (upd_chan 2 (\<lambda>c. c\<lparr>d_cb := 0xffff\<rparr>) dma_boot)"
    by (simp add: dma_xt8237_active_def upd_chan_def)
  from software_request_returns [OF this, of 6 2] show ?thesis by (simp add: upd_chan_def)
qed

section \<open>Addresses\<close>

text \<open>The address \<open>k\<close> transfers after \<open>a\<close>: the count runs inside the 64K page.\<close>

definition step_addr :: "u8 \<Rightarrow> u32 \<Rightarrow> nat \<Rightarrow> u32" where
  "step_addr mode a k = (a AND 0xffff0000) OR
     ((if mode AND 0x20 \<noteq> 0 then a - word_of_nat k else a + word_of_nat k) AND 0xffff)"

lemma ffff_take: "(w :: u32) AND 0xffff = take_bit 16 w"
  by (simp add: take_bit_eq_mask mask_eq_exp_minus_1)

lemma bit_ffff0000: "bit (0xffff0000 :: u32) n \<longleftrightarrow> 16 \<le> n \<and> n < 32"
proof -
  have eq: "(0xffff0000 :: u32) = push_bit 16 (mask 16)" by (simp add: mask_eq_exp_minus_1)
  show ?thesis unfolding eq by (simp only: bit_push_bit_iff bit_mask_iff) auto
qed

lemma page_offset_join:
  fixes a b :: u32
  shows "((a AND 0xffff0000) OR take_bit 16 b) AND 0xffff0000 = a AND 0xffff0000"
    and "take_bit 16 ((a AND 0xffff0000) OR take_bit 16 b) = take_bit 16 b"
    and "(a AND 0xffff0000) OR take_bit 16 a = a"
  by (rule bit_word_eqI, simp only: bit_and_iff bit_or_iff bit_take_bit_iff bit_ffff0000,
      auto dest: bit_imp_le_length)+

lemma page_of_join: "drop_bit 16 (((a :: u32) AND 0xffff0000) OR take_bit 16 b) = drop_bit 16 a"
proof (rule bit_word_eqI)
  fix n
  show "bit (drop_bit 16 ((a AND 0xffff0000) OR take_bit 16 b)) n = bit (drop_bit 16 a) n"
    unfolding bit_drop_bit_eq comp_apply bit_or_iff bit_and_iff bit_take_bit_iff bit_ffff0000
    using bit_imp_le_length [of a "16 + n"] by auto
qed

lemma unat_take16: "unat (take_bit 16 (w :: u32)) = unat w mod 0x10000"
  unfolding unsigned_take_bit_eq by (simp add: take_bit_eq_mod)

lemma take16_add:
  assumes "take_bit 16 (v :: u32) = take_bit 16 w"
  shows "take_bit 16 (v + c) = take_bit 16 (w + c)"
proof -
  have u: "unat (take_bit 16 (x + c)) = (unat x mod 0x10000 + unat c) mod 0x10000" for x
    unfolding unat_take16 by (simp add: unat_word_ariths mod_mod_cancel mod_simps)
  have "unat v mod 0x10000 = unat w mod 0x10000" using assms unat_take16 by metis
  then show ?thesis by (simp only: word_unat_eq_iff u)
qed

lemma take_bit_16_cong:
  assumes "take_bit 16 (v :: u32) = take_bit 16 w"
  shows "take_bit 16 (v + 1) = take_bit 16 (w + 1)" "take_bit 16 (v - 1) = take_bit 16 (w - 1)"
  using take16_add [OF assms, of 1] take16_add [OF assms, of "- 1"] by simp_all

lemma step_addr_0: "step_addr mode a 0 = a"
  by (simp add: step_addr_def ffff_take page_offset_join)

lemma step_addr_page: "drop_bit 16 (step_addr mode a k) = drop_bit 16 a"
  by (simp only: step_addr_def ffff_take page_of_join)

lemma next_step_addr:
  assumes "a AND 0xffff0000 AND m = a AND 0xffff0000"
  shows "next_address mode m (step_addr mode a k) = step_addr mode a (Suc k)"
proof -
  have j: "take_bit 16 ((a AND 0xffff0000) OR take_bit 16 w) = take_bit 16 w" for w
    by (rule page_offset_join)
  have up: "take_bit 16 (((a AND 0xffff0000) OR take_bit 16 (a + word_of_nat k)) + 1) =
      take_bit 16 (a + word_of_nat (Suc k))"
    using take_bit_16_cong(1) [OF j [of "a + word_of_nat k"]] by (simp add: algebra_simps)
  have down: "take_bit 16 (((a AND 0xffff0000) OR take_bit 16 (a - word_of_nat k)) - 1) =
      take_bit 16 (a - word_of_nat (Suc k))"
    using take_bit_16_cong(2) [OF j [of "a - word_of_nat k"]] by (simp add: algebra_simps)
  show ?thesis
    by (cases "mode AND 0x20 \<noteq> 0")
      (simp_all only: next_address_def step_addr_def ffff_take page_offset_join(1) up down
        if_True if_False simp_thms and.assoc [symmetric] assms [unfolded and.assoc [symmetric]])
qed

lemma take_bit_16_inj:
  assumes "take_bit 16 ((a :: u32) + word_of_nat j) = take_bit 16 (a + word_of_nat k)" "j < 0x10000" "k < 0x10000"
  shows "j = k"
proof -
  have "take_bit 16 (word_of_nat j :: u32) = take_bit 16 (word_of_nat k)"
    using take16_add [OF assms(1), of "- a"] by simp
  then have "unat (take_bit 16 (word_of_nat j :: u32)) = unat (take_bit 16 (word_of_nat k :: u32))" by simp
  with assms(2,3) show ?thesis unfolding unat_take16 by (simp add: unat_of_nat mod_mod_cancel)
qed

lemma step_addr_inj:
  assumes "step_addr mode a j = step_addr mode a k" "j < 0x10000" "k < 0x10000"
  shows "j = k"
proof -
  have t: "take_bit 16 (step_addr mode a i) =
      take_bit 16 (if mode AND 0x20 \<noteq> 0 then a - word_of_nat i else a + word_of_nat i)" for i
    by (simp only: step_addr_def ffff_take page_offset_join)
  have e: "take_bit 16 (if mode AND 0x20 \<noteq> 0 then a - word_of_nat j else a + word_of_nat j) =
      take_bit 16 (if mode AND 0x20 \<noteq> 0 then a - word_of_nat k else a + word_of_nat k)"
    using t assms(1) by metis
  show ?thesis
  proof (cases "mode AND 0x20 \<noteq> 0")
    case True
    with e have "take_bit 16 (a - word_of_nat j) = take_bit 16 (a - word_of_nat k)" by simp
    from take16_add [OF this, of "word_of_nat j + word_of_nat k - a"]
    have "take_bit 16 (0 + word_of_nat k :: u32) = take_bit 16 (0 + word_of_nat j)" by (simp add: algebra_simps)
    with take_bit_16_inj assms(2,3) show ?thesis by metis
  next
    case False
    with e show ?thesis using take_bit_16_inj [OF _ assms(2,3)] by simp
  qed
qed

section \<open>A device fills memory\<close>

text \<open>
  A peripheral channel (1 to 3) programmed for writing to memory, enabled, unmasked, its DREQ
  asserted, with no refresh request waiting.
\<close>

definition write_ready :: "nat \<Rightarrow> dma_sys \<Rightarrow> bool" where
  "write_ready ch s \<longleftrightarrow> 0 < ch \<and> ch < 4 \<and> \<not> dma_req_is_soft s \<and> dma_command s 0 AND 0x04 = 0 \<and>
     tst (dma_e s) ch \<and> \<not> tst (dma_m s) ch \<and> tst (dma_stat_rq_pc s) ch \<and> service_mode ch s \<noteq> 3 \<and>
     d_mode (chan s ch) AND 0x0c = 0x04 \<and> \<not> tst (external_eop (xt s)) ch \<and> \<not> refresh_queued s"

lemma write_ready_serves:
  assumes "write_ready ch s" shows "dma_xt8237_can_service ch s"
proof -
  have a: "0 < ch" "ch < 4" "\<not> dma_req_is_soft s" using assms by (simp_all add: write_ready_def)
  have "tst (dma_xt8237_service_requests s) ch"
    using assms by (simp add: write_ready_def dma_xt8237_service_requests_def dma_xt8237_raw_requests_def
        tst_and tst_or tst_0f)
  then show ?thesis unfolding can_service_peripheral [OF a]
    using assms by (simp add: write_ready_def eligible_def)
qed

lemma serve_sel [simp]:
  "phys (serve ch s) = phys s" "dma_m (serve ch s) = dma_m s" "dma_stat (serve ch s) = dma_stat s"
  "dma_stat_rq_pc (serve ch s) = dma_stat_rq_pc s" "refresh_queued (serve ch s) = refresh_queued s"
  "refresh_scheduled (serve ch s) = refresh_scheduled s" "external_eop (xt (serve ch s)) = external_eop (xt s)"
  "chan (serve ch s) = (chan s)(ch := (chan s ch)\<lparr>d_ac := next_address (d_mode (chan s ch)) (dma_mask s)
     (d_ac (chan s ch))\<rparr>)"
  by (simp_all add: serve_def Let_def dma_xt8237_begin_service_def dma_xt8237_charge_bus_def charge_def
      dma_xt8237_advance_address_def upd_chan_def upd_xt_def)

lemma finish_run:
  assumes "0 < d_cc (chan s ch)" "external_eop (xt s) AND bitmask ch = 0"
  defines "t \<equiv> snd (dma_xt8237_finish_transfer ch s)"
  shows "fst (dma_xt8237_finish_transfer ch s) = False"
    and "phys t = phys s" "dma_m t = dma_m s" "dma_stat t = dma_stat s" "dma_stat_rq_pc t = dma_stat_rq_pc s"
      "refresh_queued t = refresh_queued s" "external_eop (xt t) = external_eop (xt s)"
      "chan t = (chan s)(ch := (chan s ch)\<lparr>d_cc := d_cc (chan s ch) - 1\<rparr>)"
  using assms(1,2) unfolding t_def
  by (simp_all add: dma_xt8237_finish_transfer_def Let_def upd_chan_def upd_xt_def)

lemma finish_end:
  assumes "\<not> 0 < d_cc (chan s ch)"
  defines "t \<equiv> snd (dma_xt8237_finish_transfer ch s)" and "c \<equiv> chan s ch"
  shows "fst (dma_xt8237_finish_transfer ch s) = True"
    and "phys t = phys s" "dma_stat t = dma_stat s OR bitmask ch" "refresh_queued t = refresh_queued s"
      "dma_m t = (if d_mode c AND 0x10 \<noteq> 0 then dma_m s else dma_m s OR bitmask ch)"
      "d_mode c AND 0x10 \<noteq> 0 \<Longrightarrow> d_ac (chan t ch) = d_ab c \<and> d_cc (chan t ch) = int (unat (d_cb c))"
  using assms(1) unfolding t_def c_def
  by (simp_all add: dma_xt8237_finish_transfer_def Let_def upd_chan_def upd_xt_def dma_xt8237_release_owner_def)

text \<open>One byte, in the parts the rest of a transfer depends on.\<close>

lemma write_ready_cong:
  assumes "config t = config s" "dma_m t = dma_m s" "dma_stat_rq_pc t = dma_stat_rq_pc s"
    "external_eop (xt t) = external_eop (xt s)" "refresh_queued t = refresh_queued s"
  shows "write_ready ch t = write_ready ch s"
  using assms(2-5) config_eqD [OF assms(1)] by (simp add: write_ready_def service_mode_def)

lemma xt_write_ready:
  assumes "write_ready ch s" and u_def: "u = serve ch (dma_write_mem (d_ac (chan s ch)) v s)"
    and u'_def: "u' = u\<lparr>dma_stat_adv_pend := dma_stat_adv_pend u AND NOT (bitmask ch)\<rparr>"
  shows "xt_write ch v s = (if fst (dma_xt8237_finish_transfer ch u') then DMA_OVER else 0,
      reconcile_after dma_xt_refresh_reconcile ch (snd (dma_xt8237_finish_transfer ch u')))"
proof -
  have "ch < 4" "d_mode (chan s ch) AND 0x0c = 0x04" using assms(1) by (simp_all add: write_ready_def)
  then show ?thesis using write_ready_serves [OF assms(1)]
    unfolding write_with_def Let_def u'_def u_def by (simp add: split_beta)
qed

lemma write_step:
  assumes r: "write_ready ch s" and w: "xt_write ch v s = (ret, t)"
  defines "c \<equiv> chan s ch"
  shows "phys t = (phys s)(d_ac c := v)"
    and "ret = (if 0 < d_cc c then 0 else DMA_OVER)"
    and "0 < d_cc c \<Longrightarrow> write_ready ch t \<and> dma_m t = dma_m s \<and> dma_stat t = dma_stat s \<and>
       chan t ch = c\<lparr>d_ac := next_address (d_mode c) (dma_mask s) (d_ac c), d_cc := d_cc c - 1\<rparr>"
    and "\<not> 0 < d_cc c \<Longrightarrow> dma_stat t = dma_stat s OR bitmask ch \<and>
       dma_m t = (if d_mode c AND 0x10 \<noteq> 0 then dma_m s else dma_m s OR bitmask ch) \<and>
       (d_mode c AND 0x10 \<noteq> 0 \<longrightarrow> d_ac (chan t ch) = d_ab c \<and> d_cc (chan t ch) = int (unat (d_cb c)))"
    and "config t = config s"
proof -
  define u where "u = (serve ch (dma_write_mem (d_ac c) v s))"
  define u' where "u' = u\<lparr>dma_stat_adv_pend := dma_stat_adv_pend u AND NOT (bitmask ch)\<rparr>"
  have e: "external_eop (xt s) AND bitmask ch = 0" "\<not> refresh_queued s"
    using r by (simp_all add: write_ready_def tst_def)
  have u': "phys u' = (phys s)(d_ac c := v)" "dma_m u' = dma_m s" "dma_stat u' = dma_stat s"
    "dma_stat_rq_pc u' = dma_stat_rq_pc s" "refresh_queued u' = refresh_queued s"
    "external_eop (xt u') = external_eop (xt s)"
    "chan u' ch = c\<lparr>d_ac := next_address (d_mode c) (dma_mask s) (d_ac c)\<rparr>" "config u' = config s"
    by (simp_all add: u'_def u_def c_def dma_write_mem_def) 
  let ?f = "dma_xt8237_finish_transfer ch u'"
  have w': "ret = (if fst ?f then DMA_OVER else 0)"
    "t = reconcile_after dma_xt_refresh_reconcile ch (snd ?f)"
    using w xt_write_ready [OF r u_def [unfolded c_def] u'_def] by simp_all
  show "config t = config s" by (simp add: w' config_after u')
  have cc: "d_cc (chan u' ch) = d_cc c" by (simp add: u')
  have modes: "d_mode (chan u' ch) = d_mode c" "d_ab (chan u' ch) = d_ab c" "d_cb (chan u' ch) = d_cb c"
    by (simp_all add: u')
  {
    assume pos: "0 < d_cc c"
    have "0 < d_cc (chan u' ch)" "external_eop (xt u') AND bitmask ch = 0" using pos e by (simp_all add: u')
    note f = finish_run [OF this]
    have t: "t = snd ?f" using w'(2) f(6) e(2) by (simp add: reconcile_after_def u')
    have "write_ready ch t = write_ready ch s"
      by (rule write_ready_cong) (simp_all add: t f u')
    with f r have "phys t = (phys s)(d_ac c := v)" "ret = 0"
      "write_ready ch t \<and> dma_m t = dma_m s \<and> dma_stat t = dma_stat s \<and>
       chan t ch = c\<lparr>d_ac := next_address (d_mode c) (dma_mask s) (d_ac c), d_cc := d_cc c - 1\<rparr>"
      by (simp_all add: t u' w')
  }
  moreover {
    assume neg: "\<not> 0 < d_cc c"
    have "\<not> 0 < d_cc (chan u' ch)" using neg by (simp add: u')
    note f = finish_end [OF this]
    have t: "t = snd ?f" using w'(2) f(4) e(2) by (simp add: reconcile_after_def u')
    have "phys t = (phys s)(d_ac c := v)" "ret = DMA_OVER"
      "dma_stat t = dma_stat s OR bitmask ch \<and>
       dma_m t = (if d_mode c AND 0x10 \<noteq> 0 then dma_m s else dma_m s OR bitmask ch) \<and>
       (d_mode c AND 0x10 \<noteq> 0 \<longrightarrow> d_ac (chan t ch) = d_ab c \<and> d_cc (chan t ch) = int (unat (d_cb c)))"
      using f by (simp_all add: t u' w' modes)
  }
  ultimately show "phys t = (phys s)(d_ac c := v)" "ret = (if 0 < d_cc c then 0 else DMA_OVER)"
    "0 < d_cc c \<Longrightarrow> write_ready ch t \<and> dma_m t = dma_m s \<and> dma_stat t = dma_stat s \<and>
       chan t ch = c\<lparr>d_ac := next_address (d_mode c) (dma_mask s) (d_ac c), d_cc := d_cc c - 1\<rparr>"
    "\<not> 0 < d_cc c \<Longrightarrow> dma_stat t = dma_stat s OR bitmask ch \<and>
       dma_m t = (if d_mode c AND 0x10 \<noteq> 0 then dma_m s else dma_m s OR bitmask ch) \<and>
       (d_mode c AND 0x10 \<noteq> 0 \<longrightarrow> d_ac (chan t ch) = d_ab c \<and> d_cc (chan t ch) = int (unat (d_cb c)))"
    by (cases "0 < d_cc c"; simp)+
qed

fun put_bytes :: "nat \<Rightarrow> u8 list \<Rightarrow> dma_sys \<Rightarrow> int list \<times> dma_sys" where
  "put_bytes ch [] s = ([], s)"
| "put_bytes ch (v # vs) s =
     (let (r, t) = xt_write ch v s; (rs, u) = put_bytes ch vs t in (r # rs, u))"

text \<open>How a transfer of \<open>vs\<close> from position \<open>k\<close> of the page of \<open>a\<close> leaves the controller.\<close>

definition filled :: "nat \<Rightarrow> u32 \<Rightarrow> nat \<Rightarrow> u8 list \<Rightarrow> dma_sys \<Rightarrow> int list \<Rightarrow> dma_sys \<Rightarrow> bool" where
  "filled ch a k vs s rs t \<longleftrightarrow>
     (let c = chan s ch in
      rs = replicate (length vs - 1) 0 @ [DMA_OVER] \<and>
      (\<forall>i < length vs. phys t (step_addr (d_mode c) a (k + i)) = vs ! i) \<and>
      (\<forall>x. (\<forall>i < length vs. x \<noteq> step_addr (d_mode c) a (k + i)) \<longrightarrow> phys t x = phys s x) \<and>
      dma_stat t = dma_stat s OR bitmask ch \<and>
      dma_m t = (if d_mode c AND 0x10 \<noteq> 0 then dma_m s else dma_m s OR bitmask ch) \<and>
      (d_mode c AND 0x10 \<noteq> 0 \<longrightarrow> d_ac (chan t ch) = d_ab c \<and> d_cc (chan t ch) = int (unat (d_cb c))))"

lemma put_bytes_filled:
  assumes "write_ready ch s" "int (length vs) = d_cc (chan s ch) + 1" "vs \<noteq> []"
    and "put_bytes ch vs s = (rs, t)"
    and "a AND 0xffff0000 AND dma_mask s = a AND 0xffff0000"
    and "d_ac (chan s ch) = step_addr (d_mode (chan s ch)) a k" and "length vs + k \<le> 0x10000"
  shows "filled ch a k vs s rs t"
  using assms
proof (induction vs arbitrary: s rs k)
  case (Cons v vs)
  let ?c = "chan s ch"
  obtain r u where w: "xt_write ch v s = (r, u)" by fastforce
  obtain rs' where p: "put_bytes ch vs u = (rs', t)" "rs = r # rs'"
    using Cons.prems(4) w by (auto simp: Let_def split: prod.splits)
  note st = write_step [OF Cons.prems(1) w]
  note cf = config_eqD [OF st(5)]
  have ac: "d_ac ?c = step_addr (d_mode ?c) a k" by (rule Cons.prems(6))
  show ?case
  proof (cases vs)
    case Nil
    then have "\<not> 0 < d_cc ?c" using Cons.prems(2) by simp
    with st ac p Nil show ?thesis by (simp add: filled_def Let_def)
  next
    case (Cons w ws)
    then have pos: "0 < d_cc ?c" using Cons.prems(2) by simp
    note run = st(3) [OF pos]
    have "filled ch a (Suc k) vs u rs' t"
    proof (rule Cons.IH)
      show "write_ready ch u" "put_bytes ch vs u = (rs', t)" using run p by simp_all
      show "int (length vs) = d_cc (chan u ch) + 1" using run Cons.prems(2) by simp
      show "vs \<noteq> []" using Cons by simp
      show "a AND 0xffff0000 AND dma_mask u = a AND 0xffff0000" using Cons.prems(5) cf by simp
      show "d_ac (chan u ch) = step_addr (d_mode (chan u ch)) a (Suc k)"
        using run ac next_step_addr [OF Cons.prems(5), of "d_mode ?c" k] by simp
      show "length vs + Suc k \<le> 0x10000" using Cons.prems(7) by simp
    qed
    then have f: "rs' = replicate (length vs - 1) 0 @ [DMA_OVER]"
      "\<And>i. i < length vs \<Longrightarrow> phys t (step_addr (d_mode ?c) a (Suc k + i)) = vs ! i"
      "\<And>x. (\<And>i. i < length vs \<Longrightarrow> x \<noteq> step_addr (d_mode ?c) a (Suc k + i)) \<Longrightarrow> phys t x = phys u x"
      "dma_stat t = dma_stat u OR bitmask ch"
      "dma_m t = (if d_mode ?c AND 0x10 \<noteq> 0 then dma_m u else dma_m u OR bitmask ch)"
      "d_mode ?c AND 0x10 \<noteq> 0 \<Longrightarrow> d_ac (chan t ch) = d_ab ?c \<and> d_cc (chan t ch) = int (unat (d_cb ?c))"
      unfolding filled_def Let_def cf by blast+
    have first: "phys t (step_addr (d_mode ?c) a k) = v"
    proof -
      have "step_addr (d_mode ?c) a k \<noteq> step_addr (d_mode ?c) a (Suc k + i)" if "i < length vs" for i
        using step_addr_inj [of "d_mode ?c" a k "Suc k + i"] that Cons.prems(7) by auto
      then have "phys t (step_addr (d_mode ?c) a k) = phys u (step_addr (d_mode ?c) a k)" by (intro f(3)) blast
      then show ?thesis using st(1) ac by simp
    qed
    have bytes: "phys t (step_addr (d_mode ?c) a (k + i)) = (v # vs) ! i" if "i < length (v # vs)" for i
      using that first f(2) [of "i - 1"] by (cases i) simp_all
    have rest: "phys t x = phys s x" if "\<And>i. i < length (v # vs) \<Longrightarrow> x \<noteq> step_addr (d_mode ?c) a (k + i)" for x
    proof -
      have "phys t x = phys u x" using that [of "Suc i" for i] by (intro f(3)) fastforce
      then show ?thesis using st(1) ac that [of 0] by simp
    qed
    show ?thesis
      unfolding filled_def Let_def
      using f bytes rest run st(2) pos p(2) Cons by simp
  qed
qed simp

lemma step_addr_is_page_offset:
  "\<forall>i < n. x \<noteq> step_addr mode a i" if "drop_bit 16 x \<noteq> drop_bit 16 a" for x a :: u32
  using that step_addr_page [of mode a] by auto

text \<open>C4: A device fills memory where and as often as programmed. A peripheral channel set up for
  writing that is given \<open>n + 1\<close> bytes for a current count of \<open>n\<close> stores them one after the
  other from its current address on, up or down and wrapping inside the 64K page, changes no
  byte of any other page, signals the end with exactly the last byte, sets its terminal count
  bit, and then is masked or, with auto-initialise, reloaded with base address and count.\<close>

theorem device_fills_memory:
  assumes "write_ready ch s" and "put_bytes ch vs s = (rs, t)"
    and "int (length vs) = d_cc (chan s ch) + 1" and "vs \<noteq> []" and "length vs \<le> 0x10000"
    and "d_ac (chan s ch) AND 0xffff0000 AND dma_mask s = d_ac (chan s ch) AND 0xffff0000"
  defines "c \<equiv> chan s ch"
  shows "rs = replicate (length vs - 1) 0 @ [DMA_OVER] \<and>
     (\<forall>i < length vs. phys t (step_addr (d_mode c) (d_ac c) i) = vs ! i) \<and>
     (\<forall>x. drop_bit 16 x \<noteq> drop_bit 16 (d_ac c) \<longrightarrow> phys t x = phys s x) \<and>
     dma_stat t = dma_stat s OR bitmask ch \<and>
     (if d_mode c AND 0x10 = 0 then dma_m t = dma_m s OR bitmask ch
      else dma_m t = dma_m s \<and> d_ac (chan t ch) = d_ab c \<and> d_cc (chan t ch) = int (unat (d_cb c)))"
proof -
  have "filled ch (d_ac c) 0 vs s rs t"
    by (rule put_bytes_filled) (use assms in \<open>simp_all add: c_def step_addr_0\<close>)
  then have f: "rs = replicate (length vs - 1) 0 @ [DMA_OVER]"
    "\<forall>i < length vs. phys t (step_addr (d_mode c) (d_ac c) (0 + i)) = vs ! i"
    "\<forall>x. (\<forall>i < length vs. x \<noteq> step_addr (d_mode c) (d_ac c) (0 + i)) \<longrightarrow> phys t x = phys s x"
    "dma_stat t = dma_stat s OR bitmask ch"
    "dma_m t = (if d_mode c AND 0x10 \<noteq> 0 then dma_m s else dma_m s OR bitmask ch)"
    "d_mode c AND 0x10 \<noteq> 0 \<longrightarrow> d_ac (chan t ch) = d_ab c \<and> d_cc (chan t ch) = int (unat (d_cb c))"
    unfolding filled_def Let_def c_def by blast+
  then show ?thesis using step_addr_is_page_offset [of _ "d_ac c" "length vs" "d_mode c"] by simp
qed

definition dma_sample :: dma_sys where
  "dma_sample = (upd_chan 2 (\<lambda>c. c\<lparr>d_mode := 0x46, d_ac := 0x1ffff, d_ab := 0x1ffff, d_cc := 1, d_cb := 1\<rparr>)
     dma_boot)\<lparr>dma_m := 0x0b, dma_stat_rq_pc := 0x04\<rparr>"

lemma device_fills_memory_witness:
  "\<exists>t. put_bytes 2 [0xaa, 0xbb] dma_sample = ([0, DMA_OVER], t) \<and>
     phys t 0x1ffff = 0xaa \<and> phys t 0x10000 = 0xbb \<and> dma_m t = 0x0f"
proof -
  obtain rs t where p: "put_bytes 2 [0xaa, 0xbb] dma_sample = (rs, t)" by fastforce
  have m: "(4 :: u8) = bitmask 2" by (simp add: bitmask_def)
  have c: "chan dma_sample 2 = (zero_chan 2)\<lparr>d_mode := 0x46, d_ac := 0x1ffff, d_ab := 0x1ffff, d_cc := 1, d_cb := 1\<rparr>"
    by (simp add: dma_sample_def upd_chan_def)
  have "write_ready 2 dma_sample"
    unfolding write_ready_def service_mode_def c
    by (simp add: dma_sample_def upd_chan_def tst_def bitmask_def xt8237_clear_def)
  from device_fills_memory [OF this p]
  have f: "rs = [0, DMA_OVER]" "\<forall>i < 2. phys t (step_addr 0x46 0x1ffff i) = [0xaa, 0xbb] ! i"
    "dma_m t = dma_m dma_sample OR bitmask 2"
    by (simp_all add: c dma_sample_def upd_chan_def)
  from f(2) have "phys t (step_addr 0x46 0x1ffff 0) = 0xaa" "phys t (step_addr 0x46 0x1ffff 1) = 0xbb"
    by (simp_all add: less_2_cases_iff all_conj_distrib)
  then show ?thesis using p f by (simp add: step_addr_def dma_sample_def bitmask_def)
qed

section \<open>Reach\<close>

lemma lt20_iff: "(x :: u32) < 0x100000 \<longleftrightarrow> (\<forall>n. 20 \<le> n \<longrightarrow> \<not> bit x n)"
proof -
  have "take_bit 20 x = x \<longleftrightarrow> unat (take_bit 20 x) = unat x" by (simp only: word_unat_eq_iff)
  also have "\<dots> \<longleftrightarrow> unat x mod 0x100000 = unat x"
    unfolding unsigned_take_bit_eq by (simp add: take_bit_eq_mod)
  also have "\<dots> \<longleftrightarrow> x < 0x100000" by (simp add: word_less_nat_alt mod_eq_self_iff_div_eq_0 div_eq_0_iff)
  finally have "x < 0x100000 \<longleftrightarrow> take_bit 20 x = x" ..
  also have "take_bit 20 x = x \<longleftrightarrow> (\<forall>n. 20 \<le> n \<longrightarrow> \<not> bit x n)"
  proof
    assume e: "take_bit 20 x = x"
    have "bit x n = (n < 20 \<and> bit x n)" for n
      using bit_take_bit_iff [of 20 x n] by (simp only: e)
    then show "\<forall>n. 20 \<le> n \<longrightarrow> \<not> bit x n" by (metis not_le)
  next
    assume a: "\<forall>n. 20 \<le> n \<longrightarrow> \<not> bit x n"
    show "take_bit 20 x = x"
    proof (rule bit_word_eqI)
      fix n show "bit (take_bit 20 x) n = bit x n" using a by (metis bit_take_bit_iff not_le)
    qed
  qed
  finally show ?thesis .
qed

lemma bit_masks:
  "bit (0xffff :: u32) n \<longleftrightarrow> n < 16" "bit (0xff :: u32) n \<longleftrightarrow> n < 8"
proof -
  have "(0xffff :: u32) = mask 16" "(0xff :: u32) = mask 8" by (simp_all add: mask_eq_exp_minus_1)
  then show "bit (0xffff :: u32) n \<longleftrightarrow> n < 16" "bit (0xff :: u32) n \<longleftrightarrow> n < 8"
    by (simp_all only: bit_mask_iff) auto
qed

lemma reach_next: "a < 0x100000 \<Longrightarrow> next_address mode m a < 0x100000"
  unfolding lt20_iff next_address_def bit_or_iff bit_and_iff bit_masks by auto

lemma bit_byte_up: "bit (ucast (v :: u8) :: u32) n \<Longrightarrow> n < 8"
  by (simp only: bit_ucast_iff) (auto dest: bit_imp_le_length)

lemma reach_address:
  assumes "a < 0x100000"
  shows "(a AND k AND m) OR ucast (v :: u8) < (0x100000 :: u32)"
    and "(a AND k AND m) OR push_bit 8 (ucast v) < (0x100000 :: u32)"
  using assms unfolding lt20_iff bit_or_iff bit_and_iff bit_push_bit_iff
  by (auto dest: bit_byte_up)

lemma bit_nibble_up: "bit (ucast ((v :: u8) AND 0x0f) :: u32) n \<Longrightarrow> n < 4"
proof -
  assume "bit (ucast (v AND 0x0f) :: u32) n"
  then have "tst (v AND 0x0f) n" by (simp only: bit_ucast_iff tst_iff_bit)
  then show ?thesis by (simp only: tst_and tst_0f)
qed

lemma reach_page: "a < 0x100000 \<Longrightarrow> set_page k m (v AND 0x0f) a < 0x100000"
  unfolding lt20_iff set_page_def bit_or_iff bit_and_iff bit_push_bit_iff
  using bit_nibble_up [of v] by fastforce

definition reach :: "dma_sys \<Rightarrow> bool" where
  "reach s \<longleftrightarrow> (\<forall>c < 4. d_ab (chan s c) < 0x100000 \<and> d_ac (chan s c) < 0x100000)"

lemma reach_same: "chan t = chan s \<Longrightarrow> reach t = reach s"
  by (simp add: reach_def)

lemma reach_upd_chan [wf_intros]:
  assumes "reach s" "\<And>c. d_ab c < 0x100000 \<Longrightarrow> d_ac c < 0x100000 \<Longrightarrow>
      d_ab (f c) < 0x100000 \<and> d_ac (f c) < 0x100000"
  shows "reach (upd_chan ch f s)"
  using assms by (simp add: reach_def upd_chan_def)

lemma reach_frame [simp]:
  "reach (upd_xt f s) = reach s" "reach (charge e s) = reach s" "reach (dma_xt8237_release_owner ch s) = reach s"
  "reach (dma_xt8237_begin_service ch s) = reach s" "reach (dma_xt8237_charge_bus ch s) = reach s"
  "reach (dma_write_mem a v s) = reach s" "reach (put_reg b i v s) = reach s" "reach (set_drq_pin ch on s) = reach s"
  "reach (s\<lparr>dma_m := x\<rparr>) = reach s" "reach (s\<lparr>dma_stat := x\<rparr>) = reach s"
  "reach (s\<lparr>dma_stat_rq := x\<rparr>) = reach s" "reach (s\<lparr>dma_stat_rq_pc := x\<rparr>) = reach s"
  "reach (s\<lparr>dma_stat_adv_pend := x\<rparr>) = reach s" "reach (s\<lparr>refresh_queued := b'\<rparr>) = reach s"
  "reach (s\<lparr>refresh_scheduled := b'\<rparr>) = reach s" "reach (s\<lparr>m808x_req := b'\<rparr>) = reach s"
  "reach (s\<lparr>dma_req_is_soft := b'\<rparr>) = reach s" "reach (s\<lparr>dma_buffer := q\<rparr>) = reach s"
  "reach (s\<lparr>dma_wp := w\<rparr>) = reach s" "reach (s\<lparr>dma_command := r\<rparr>) = reach s"
  by (simp_all add: reach_def upd_xt_def charge_def dma_xt8237_release_owner_def set_drq_pin_def Let_def
      dma_xt8237_begin_service_def dma_xt8237_charge_bus_def dma_write_mem_def put_reg_def)

lemma reach_advance_address: "reach s \<Longrightarrow> reach (dma_xt8237_advance_address ch s)"
  by (simp add: dma_xt8237_advance_address_def reach_upd_chan reach_next)

lemma reach_serve: "reach s \<Longrightarrow> reach (serve ch s)"
  by (simp add: serve_def Let_def reach_advance_address)

lemma reach_finish: "reach s \<Longrightarrow> reach (snd (dma_xt8237_finish_transfer ch s))"
  by (simp add: dma_xt8237_finish_transfer_def Let_def reach_upd_chan)

lemma reach_after:
  "(\<And>t. reach t \<Longrightarrow> reach (rec t)) \<Longrightarrow> reach s \<Longrightarrow> reach (reconcile_after rec ch s)"
  by (simp add: reconcile_after_def)

lemma reach_advance:
  "(\<And>t. reach t \<Longrightarrow> reach (rec t)) \<Longrightarrow> reach s \<Longrightarrow> reach (snd (advance_with rec ch s))"
  using reach_finish [of "s\<lparr>dma_stat_adv_pend := dma_stat_adv_pend s AND NOT (bitmask ch)\<rparr>" ch]
  by (simp add: advance_with_def split_beta Let_def reach_after)

lemma reach_read:
  "(\<And>t. reach t \<Longrightarrow> reach (rec t)) \<Longrightarrow> reach s \<Longrightarrow> reach (snd (read_with rec ch s))"
  by (simp add: read_with_def split_beta Let_def reach_after reach_advance reach_serve reach_finish)

lemma reach_read_only:
  "(\<And>t. reach t \<Longrightarrow> reach (rec t)) \<Longrightarrow> reach s \<Longrightarrow> reach (snd (read_only_with rec ch s))"
  by (simp add: read_only_with_def split_beta Let_def reach_advance reach_serve)

lemma reach_write:
  "(\<And>t. reach t \<Longrightarrow> reach (rec t)) \<Longrightarrow> reach s \<Longrightarrow> reach (snd (write_with rec ch v s))"
  by (simp add: write_with_def split_beta Let_def reach_after reach_serve reach_finish)

lemma reach_dack: "reach s \<Longrightarrow> reach (dma_xt_refresh_dack s)"
  using reach_read [of id s 0]
  by (simp add: dma_xt_refresh_dack_def Let_def reach_advance reach_finish reach_advance_address)

lemma reach_try: "reach s \<Longrightarrow> reach (dma_xt_refresh_try_schedule s)"
  by (simp add: dma_xt_refresh_try_schedule_def m808x_try_request_def Let_def split_beta reach_dack)

lemma reach_reconcile: "reach s \<Longrightarrow> reach (dma_xt_refresh_reconcile s)"
  by (simp add: dma_xt_refresh_reconcile_def m808x_cancel_request_def Let_def split_beta reach_try)

lemma reach_set_drq: "reach s \<Longrightarrow> reach (dma_set_drq ch on s)"
  by (simp add: dma_set_drq_def Let_def reach_reconcile)

lemma reach_block_body: "reach s \<Longrightarrow> reach (block_body ch i s)"
  using reach_read [of dma_xt_refresh_reconcile s ch, OF reach_reconcile]
  by (simp add: block_body_def Let_def split_beta reach_write [OF reach_reconcile])

lemma reach_block_loop:
  assumes "block_loop ch i s = Some t" "reach s" shows "reach t"
proof -
  have "reach s \<longrightarrow> reach t"
  proof (rule block_loop.raw_induct [where P = "\<lambda>ch i s t. reach s \<longrightarrow> reach t", OF _ assms(1)])
    fix loop c j u w
    assume "\<And>c j u w. loop c j u = Some w \<Longrightarrow> reach u \<longrightarrow> reach w"
      and "(if j \<le> d_cb (chan u c) then loop c (j + 1) (block_body c j u) else Some u) = Some w"
    then show "reach u \<longrightarrow> reach w" using reach_block_body [of u c j] by (auto split: if_splits)
  qed
  with assms(2) show ?thesis by blast
qed

lemma reach_m2m_step: "reach s \<Longrightarrow> reach (snd (m2m_step s))"
  by (simp add: m2m_step_def Let_def reach_advance_address reach_upd_chan)

lemma reach_m2m_loop: "reach s \<Longrightarrow> reach (snd (m2m_loop s))"
proof (induction s rule: m2m_loop.induct)
  case (1 s)
  obtain b t where st: "m2m_step s = (b, t)" by fastforce
  then have "reach t" using reach_m2m_step [OF 1(2)] by simp
  then show ?case using 1(1) st by (subst m2m_loop.simps) (auto split: bool.split)
qed

lemma reach_mem_to_mem: "reach s \<Longrightarrow> reach (snd (dma_xt8237_mem_to_mem s))"
  by (simp add: dma_xt8237_mem_to_mem_def Let_def split_beta reach_m2m_loop)

lemma reach_port_write: "reach s \<Longrightarrow> reach (port_write addr v s)"
  by (auto simp: port_write_def Let_def address_write_def count_write_def flip_wp_def reach_address
      intro!: reach_upd_chan)

lemma reach_request_write: "reach s \<Longrightarrow> request_write v s = Some t \<Longrightarrow> reach t"
  by (auto simp: request_write_def Let_def dma_block_transfer_def reach_mem_to_mem
      dest: reach_block_loop split: if_splits)

lemma reach_control [simp]:
  "reach (command_write v s) = reach s" "reach (mask_write v s) = reach s"
  "reach (mask_all_write v s) = reach s" "reach (dma_xt8237_master_clear s) = reach s"
  by (simp_all add: command_write_def mask_write_def mask_all_write_def Let_def)
    (simp add: dma_xt8237_master_clear_def reach_def)

lemma reach_mode_write: "reach s \<Longrightarrow> reach (mode_write v s)"
  by (simp add: mode_write_def Let_def reach_upd_chan)

lemma reach_dma_write:
  assumes "reach s" "dma_write addr v s = Done t"
  shows "reach t"
proof -
  let ?r = "unat (addr AND 0x0f)"
  let ?s = "put_reg 0 ?r v s"
  have s: "reach ?s" using assms(1) by simp
  let ?ret = "if ?r = 0x08 then Some (command_write v ?s)
    else if ?r = 0x09 then request_write v ?s
    else if ?r = 0x0a then Some (mask_write v ?s)
    else if ?r = 0x0b then Some (mode_write v ?s)
    else if ?r = 0x0c then Some (?s\<lparr>dma_wp := (dma_wp ?s)(0 := False)\<rparr>)
    else if ?r = 0x0d then Some (dma_xt8237_master_clear ?s)
    else if ?r = 0x0e then Some (?s\<lparr>dma_m := dma_m ?s AND 0xf0\<rparr>)
    else if ?r = 0x0f then Some (mask_all_write v ?s)
    else Some (port_write addr v ?s)"
  have e: "dma_write addr v s = (if \<not> dma_xt8237_active s then At_path
      else case ?ret of None \<Rightarrow> Never_returns | Some t \<Rightarrow> Done (dma_xt_refresh_reconcile t))"
    unfolding dma_write_def Let_def ..
  obtain u where r: "?ret = Some u" and t: "t = dma_xt_refresh_reconcile u"
    using assms(2) unfolding e by (cases ?ret) (simp_all split: if_splits)
  have "reach u"
  proof (cases "?r = 0x09")
    case True
    then show ?thesis using r reach_request_write [OF s] by simp
  next
    case False
    then show ?thesis using r s reach_port_write [OF s, of addr v] reach_mode_write [OF s, of v]
      by (simp split: if_splits; clarsimp)
  qed
  then show ?thesis by (simp add: t reach_reconcile)
qed

text \<open>The machine: an XT board, whatever the CPU, without bus mastering.\<close>

definition xt_board :: "dma_sys \<Rightarrow> bool" where
  "xt_board s \<longleftrightarrow> dma_force_xt s \<and> \<not> dma_advanced s \<and> \<not> is_ps2 s \<and> reach s"

lemma xt_board_active: "xt_board s \<Longrightarrow> dma_xt8237_active s"
  by (simp add: xt_board_def dma_xt8237_active_def)

text \<open>Everything the bus, the devices and the clock of the refresh timer can do to the controller.\<close>

datatype dma_op =
    Port_write u16 u8
  | Port_read u16
  | Page_write u16 u8
  | Set_drq nat bool
  | Set_eop nat bool
  | Dev_read nat
  | Dev_read_only nat
  | Dev_advance nat
  | Dev_write nat u16
  | Refresh_request
  | Dack0
  | Set_at bool
  | Reset bool

text \<open>\<open>None\<close>: the operation does not return, or takes the path this theory does not model.\<close>

primrec dma_exec :: "dma_op \<Rightarrow> dma_sys \<Rightarrow> dma_sys option" where
  "dma_exec (Port_write a v) s = (case dma_write a v s of Done t \<Rightarrow> Some t | _ \<Rightarrow> None)"
| "dma_exec (Port_read a) s = map_option snd (dma_read a s)"
| "dma_exec (Page_write a v) s = Some (dma_page_write a v s)"
| "dma_exec (Set_drq ch b) s = Some (dma_set_drq ch b s)"
| "dma_exec (Set_eop ch b) s = Some (dma_set_eop ch b s)"
| "dma_exec (Dev_read ch) s = map_option snd (dma_channel_read ch s)"
| "dma_exec (Dev_read_only ch) s = map_option snd (dma_channel_read_only ch s)"
| "dma_exec (Dev_advance ch) s = map_option snd (dma_channel_advance ch s)"
| "dma_exec (Dev_write ch v) s = map_option snd (dma_channel_write ch v s)"
| "dma_exec Refresh_request s = Some (dma_xt_refresh_request s)"
| "dma_exec Dack0 s = Some (m808x_dack s)"
| "dma_exec (Set_at b) s = Some (dma_set_at b s)"
| "dma_exec (Reset b) s = Some (dma_reset b s)"

primrec dma_run :: "dma_op list \<Rightarrow> dma_sys \<Rightarrow> dma_sys option" where
  "dma_run [] s = Some s"
| "dma_run (a # as) s = Option.bind (dma_exec a s) (dma_run as)"

text \<open>The part of \<open>xt_board\<close> that says which machine this is.\<close>

definition xt_kind :: "dma_sys \<Rightarrow> bool" where
  "xt_kind s \<longleftrightarrow> dma_force_xt s \<and> \<not> dma_advanced s \<and> \<not> is_ps2 s"

lemma xt_board_alt: "xt_board s \<longleftrightarrow> xt_kind s \<and> reach s"
  by (auto simp: xt_board_def xt_kind_def)

lemma xt_kind_config: "config t = config s \<Longrightarrow> xt_kind t = xt_kind s"
  using config_eqD [of t s] by (simp add: xt_kind_def)

lemma reach_reset [simp]: "reach (dma_reset b s)"
  by (simp add: dma_reset_def dma_reset_legacy_def Let_def reach_def zero_chan_def)

lemma reach_page_write:
  assumes "reach s" "dma_page_is_xt s" shows "reach (dma_page_write addr v s)"
proof -
  have p: "dma_page_is_xt (put_reg 2 i v s)" for i
    using assms(2) by (simp add: dma_page_is_xt_def put_reg_def)
  have r: "reach (put_reg 2 i v s)" for i using assms(1) by simp
  have "reach (upd_chan ch f (put_reg 2 i v s))" if "4 < ch" for ch f i
    using r that by (simp add: reach_def upd_chan_def)
  then show ?thesis using r
    by (auto simp: dma_page_write_def Let_def p reach_page intro!: reach_upd_chan)
qed

lemma config_block_loop:
  assumes "block_loop ch i s = Some t" shows "config t = config s"
  by (rule block_loop.raw_induct [where P = "\<lambda>ch i s t. config t = config s", OF _ assms])
    (auto split: if_splits)

lemma config_m2m_loop: "config (snd (m2m_loop s)) = config s"
proof (induction s rule: m2m_loop.induct)
  case (1 s)
  obtain b t where st: "m2m_step s = (b, t)" by fastforce
  then have "config t = config s" using config_m2m [of s] by simp
  then show ?case using 1 st by (subst m2m_loop.simps) (auto split: bool.split)
qed

lemma config_mem_to_mem: "config (snd (dma_xt8237_mem_to_mem s)) = config s"
  by (simp add: dma_xt8237_mem_to_mem_def Let_def split_beta config_m2m_loop)

lemma xt_kind_frame [simp]:
  "xt_kind (upd_xt f s) = xt_kind s" "xt_kind (upd_chan ch g s) = xt_kind s"
  "xt_kind (put_reg b i v s) = xt_kind s" "xt_kind (dma_xt8237_release_owner ch s) = xt_kind s"
  "xt_kind (s\<lparr>dma_req_is_soft := b'\<rparr>) = xt_kind s" "xt_kind (flip_wp s) = xt_kind s"
  "xt_kind (command_write v s) = xt_kind s" "xt_kind (mask_write v s) = xt_kind s"
  "xt_kind (mask_all_write v s) = xt_kind s" "xt_kind (mode_write v s) = xt_kind s"
  "xt_kind (dma_xt8237_master_clear s) = xt_kind s" "xt_kind (port_write addr v s) = xt_kind s"
  "xt_kind (s\<lparr>dma_wp := w\<rparr>) = xt_kind s" "xt_kind (s\<lparr>dma_m := m\<rparr>) = xt_kind s"
  by (simp_all add: xt_kind_def upd_xt_def upd_chan_def put_reg_def dma_xt8237_release_owner_def
      flip_wp_def command_write_def mask_write_def mask_all_write_def mode_write_def Let_def
      dma_xt8237_master_clear_def port_write_def address_write_def count_write_def)

lemma xt_kind_block:
  assumes "dma_block_transfer ch s = Some t" shows "xt_kind t = xt_kind s"
proof -
  obtain u where "block_loop ch 0 (s\<lparr>dma_req_is_soft := True\<rparr>) = Some u" "t = u\<lparr>dma_req_is_soft := False\<rparr>"
    using assms by (auto simp: dma_block_transfer_def)
  then show ?thesis using xt_kind_config [OF config_block_loop] by simp
qed

lemma xt_kind_request_write: "request_write v s = Some t \<Longrightarrow> xt_kind t = xt_kind s"
  by (auto simp: request_write_def Let_def xt_kind_config [OF config_mem_to_mem]
      dest: xt_kind_block split: if_splits)

lemma dma_write_cases:
  assumes "dma_write addr v s = Done t"
  obtains u where "t = dma_xt_refresh_reconcile u" and
    "let s' = put_reg 0 (unat (addr AND 0x0f)) v s in
       request_write v s' = Some u \<or> u = command_write v s' \<or> u = mask_write v s' \<or>
       u = mode_write v s' \<or> u = s'\<lparr>dma_wp := (dma_wp s')(0 := False)\<rparr> \<or>
       u = dma_xt8237_master_clear s' \<or> u = s'\<lparr>dma_m := dma_m s' AND 0xf0\<rparr> \<or>
       u = mask_all_write v s' \<or> u = port_write addr v s'"
proof -
  let ?r = "unat (addr AND 0x0f)"
  define s' where "s' = put_reg 0 ?r v s"
  define r where "r = ?r"
  let ?ret = "if r = 0x08 then Some (command_write v s')
    else if r = 0x09 then request_write v s'
    else if r = 0x0a then Some (mask_write v s')
    else if r = 0x0b then Some (mode_write v s')
    else if r = 0x0c then Some (s'\<lparr>dma_wp := (dma_wp s')(0 := False)\<rparr>)
    else if r = 0x0d then Some (dma_xt8237_master_clear s')
    else if r = 0x0e then Some (s'\<lparr>dma_m := dma_m s' AND 0xf0\<rparr>)
    else if r = 0x0f then Some (mask_all_write v s')
    else Some (port_write addr v s')"
  have e: "dma_write addr v s = (if \<not> dma_xt8237_active s then At_path
      else case ?ret of None \<Rightarrow> Never_returns | Some t \<Rightarrow> Done (dma_xt_refresh_reconcile t))"
    unfolding dma_write_def Let_def s'_def r_def ..
  obtain u where r: "?ret = Some u" and t: "t = dma_xt_refresh_reconcile u"
    using assms unfolding e by (cases ?ret) (simp_all split: if_splits)
  have "request_write v s' = Some u \<or> u = command_write v s' \<or> u = mask_write v s' \<or>
       u = mode_write v s' \<or> u = s'\<lparr>dma_wp := (dma_wp s')(0 := False)\<rparr> \<or>
       u = dma_xt8237_master_clear s' \<or> u = s'\<lparr>dma_m := dma_m s' AND 0xf0\<rparr> \<or>
       u = mask_all_write v s' \<or> u = port_write addr v s'"
    using r by (simp split: if_splits)
  then show thesis using t unfolding s'_def by (intro that) (simp_all only: Let_def)
qed

lemma xt_kind_write:
  assumes "dma_write addr v s = Done t" shows "xt_kind t = xt_kind s"
proof -
  from dma_write_cases [OF assms] obtain u where t: "t = dma_xt_refresh_reconcile u"
    and u: "let s' = put_reg 0 (unat (addr AND 0x0f)) v s in
       request_write v s' = Some u \<or> u = command_write v s' \<or> u = mask_write v s' \<or>
       u = mode_write v s' \<or> u = s'\<lparr>dma_wp := (dma_wp s')(0 := False)\<rparr> \<or>
       u = dma_xt8237_master_clear s' \<or> u = s'\<lparr>dma_m := dma_m s' AND 0xf0\<rparr> \<or>
       u = mask_all_write v s' \<or> u = port_write addr v s'" .
  have "xt_kind u = xt_kind s" using u unfolding Let_def by (elim disjE) (simp_all add: xt_kind_request_write)
  then show ?thesis unfolding t using xt_kind_config [OF config_reconcile] by simp
qed

lemma xt_kind_reset: "xt_kind (dma_reset b s) \<longleftrightarrow> dma_force_xt s \<and> \<not> is_ps2 s"
  by (simp add: dma_reset_def Let_def xt_kind_def dma_reset_legacy_def)

lemma xt_board_exec:
  assumes "xt_board s" "dma_exec a s = Some t" shows "xt_board t"
proof -
  have k: "xt_kind s" and r: "reach s" and act: "dma_xt8237_active s"
    using assms(1) by (auto simp: xt_board_alt xt_board_active)
  note cfg = config_read [OF config_reconcile] config_read_only [OF config_reconcile]
    config_advance [OF config_reconcile] config_write [OF config_reconcile]
  show ?thesis
  proof (cases a)
    case (Port_write ad v)
    then have "dma_write ad v s = Done t" using assms(2) by (auto split: dma_write_result.splits)
    then show ?thesis using xt_kind_write reach_dma_write [OF r] k by (auto simp: xt_board_alt)
  next
    case (Port_read ad)
    then show ?thesis using assms(2) k r act
      by (auto simp: dma_read_def port_read_def Let_def xt_board_alt flip_wp_def split: if_splits)
        (simp_all add: xt_kind_def)
  next
    case (Page_write ad v)
    have "dma_page_is_xt s" using k by (simp add: xt_kind_def dma_page_is_xt_def)
    with Page_write show ?thesis using assms(2) k reach_page_write [OF r]
      by (auto simp: xt_board_alt dma_page_write_def Let_def)
  next
    case (Set_drq ch b)
    then show ?thesis using assms(2) k r reach_set_drq xt_kind_config [OF config_set_drq]
      by (auto simp: xt_board_alt)
  next
    case (Set_eop ch b)
    then show ?thesis using assms(2) k r by (auto simp: xt_board_alt dma_set_eop_def)
  next
    case (Dev_read ch)
    then show ?thesis using assms(2) k act reach_read [OF reach_reconcile r] xt_kind_config [OF cfg(1)]
      by (auto simp: xt_board_alt dma_channel_read_def)
  next
    case (Dev_read_only ch)
    then show ?thesis using assms(2) k act reach_read_only [OF reach_reconcile r] xt_kind_config [OF cfg(2)]
      by (auto simp: xt_board_alt dma_channel_read_only_def)
  next
    case (Dev_advance ch)
    then show ?thesis using assms(2) k act reach_advance [OF reach_reconcile r] xt_kind_config [OF cfg(3)]
      by (auto simp: xt_board_alt dma_channel_advance_def)
  next
    case (Dev_write ch v)
    then show ?thesis using assms(2) k act reach_write [OF reach_reconcile r] xt_kind_config [OF cfg(4)]
      by (auto simp: xt_board_alt dma_channel_write_def)
  next
    case Refresh_request
    then show ?thesis using assms(2) k r xt_kind_config [OF config_refresh_request]
      by (auto simp: xt_board_alt dma_xt_refresh_request_def reach_set_drq reach_reconcile)
  next
    case Dack0
    then show ?thesis using assms(2) k r reach_dack [of "s\<lparr>m808x_req := False\<rparr>"]
        xt_kind_config [OF config_dack, of "s\<lparr>m808x_req := False\<rparr>"]
      by (auto simp: xt_board_alt m808x_dack_def xt_kind_def split: if_splits)
  next
    case (Set_at b)
    then show ?thesis using assms(2) k r by (auto simp: xt_board_alt dma_set_at_def xt_kind_def reach_def)
  next
    case (Reset b)
    then have t: "t = dma_reset b s" using assms(2) by simp
    show ?thesis unfolding xt_board_alt t xt_kind_reset using k
      by (simp add: reach_reset xt_kind_def)
  qed
qed

lemma xt_board_run: "xt_board s \<Longrightarrow> dma_run as s = Some t \<Longrightarrow> xt_board t"
  by (induction as arbitrary: s) (auto simp: bind_eq_Some_conv dest: xt_board_exec)

text \<open>C25: DMA on an accelerated XT reaches 20 address bits. Once a device has called
  \<open>dma_set_force_xt\<close>, and whatever the CPU (\<open>is286\<close>, \<open>dma_set_at\<close>) and however often the
  controller is reset, no sequence of port and page writes, device transfers, requests, refresh
  cycles and memory to memory copies takes a base or current address of channels 0 to 3 to
  1 MB or beyond, and the XT controller stays in charge.\<close>

theorem forced_xt_dma_stays_below_1mb:
  assumes "dma_run ops (dma_init is286 (dma_set_force_xt True s)) = Some t" and "c < 4"
  shows "d_ab (chan t c) < 0x100000 \<and> d_ac (chan t c) < 0x100000 \<and> dma_xt8237_active t"
proof -
  have "xt_board (dma_init is286 (dma_set_force_xt True s))"
    by (simp add: xt_board_alt dma_init_def xt_kind_def dma_reset_def dma_reset_legacy_def Let_def
        dma_set_force_xt_def reach_def zero_chan_def)
  from xt_board_run [OF this assms(1)] have "xt_board t" .
  then show ?thesis using assms(2) by (simp add: xt_board_active) (simp add: xt_board_def reach_def)
qed

lemma forced_xt_dma_stays_below_1mb_witness:
  "\<exists>t. dma_run [Set_at True, Page_write 0x83 0x1f] (dma_init True (dma_set_force_xt True dma_blank)) = Some t \<and>
     d_ac (chan t 1) < 0x100000"
  using forced_xt_dma_stays_below_1mb [of "[Set_at True, Page_write 0x83 0x1f]" True dma_blank _ 1] by simp

end
