(* ===== verification/Dma_Refresh.thy ===== *)
theory Dma_Refresh
  imports Dma_Transfer
begin

text \<open>
  Programming a DMA channel through its byte ports (two more instances of \<open>byte_pair_port\<close>),
  and the DRAM refresh request latch: requests that cannot be served do not pile up, whether
  the refresh cycle is performed at once or handed to the 8088 adapter.
\<close>

section \<open>Programming a channel\<close>

text \<open>The XT path is in charge and no refresh request is outstanding.\<close>

definition quiet :: "dma_sys \<Rightarrow> bool" where
  "quiet s \<longleftrightarrow> dma_xt8237_active s \<and> \<not> refresh_queued s \<and> \<not> refresh_scheduled s \<and>
     dma_mask s AND 0xffff = 0xffff"

definition dma_out :: "u16 \<Rightarrow> u8 \<Rightarrow> dma_sys \<Rightarrow> dma_sys" where
  "dma_out addr v s = (case dma_write addr v s of Done t \<Rightarrow> t | _ \<Rightarrow> s)"

definition addr_port :: "nat \<Rightarrow> u16" where "addr_port ch = word_of_nat (2 * ch)"
definition count_port :: "nat \<Rightarrow> u16" where "count_port ch = word_of_nat (2 * ch + 1)"

lemma port_low:
  assumes "ch < 4"
  shows "unat (addr_port ch AND 0x0f) = 2 * ch" "unat (count_port ch AND 0x0f) = 2 * ch + 1"
  using less_4_cases [OF assms] by (auto simp: addr_port_def count_port_def)

lemma reconcile_quiet: "\<not> refresh_queued s \<Longrightarrow> \<not> refresh_scheduled s \<Longrightarrow> dma_xt_refresh_reconcile s = s"
  by (simp add: dma_xt_refresh_reconcile_def)

lemma queue_frame [simp]:
  "refresh_queued (put_reg b i v s) = refresh_queued s" "refresh_scheduled (put_reg b i v s) = refresh_scheduled s"
  "refresh_queued (count_write ch v s) = refresh_queued s" "refresh_scheduled (count_write ch v s) = refresh_scheduled s"
  "refresh_queued (address_write ch v s) = refresh_queued s"
  "refresh_scheduled (address_write ch v s) = refresh_scheduled s"
  by (simp_all add: put_reg_def count_write_def address_write_def Let_def upd_chan_def flip_wp_def)

lemma put_reg_twice [simp]: "put_reg b i v (put_reg b i v s) = put_reg b i v s"
  by (simp add: put_reg_def)

lemma dma_out_count:
  assumes "quiet s" "ch < 4"
  shows "dma_out (count_port ch) v s = count_write ch v (put_reg 0 (2 * ch + 1) v s)"
proof -
  have "2 * ch + 1 < 8" "(2 * ch + 1) div 2 mod 4 = ch" using assms(2) by auto
  then show ?thesis
    using assms(1) unfolding dma_out_def dma_write_def port_write_def Let_def port_low(2) [OF assms(2)]
    by (simp add: quiet_def reconcile_quiet)
qed

lemma dma_out_addr:
  assumes "quiet s" "ch < 4"
  shows "dma_out (addr_port ch) v s = address_write ch v (put_reg 0 (2 * ch) v s)"
proof -
  have "2 * ch < 8" "(2 * ch) div 2 mod 4 = ch" using assms(2) by auto
  then show ?thesis
    using assms(1) unfolding dma_out_def dma_write_def port_write_def Let_def port_low(1) [OF assms(2)]
    by (simp add: quiet_def reconcile_quiet)
qed

lemma quiet_frame [simp]:
  "quiet (put_reg b i v s) = quiet s" "quiet (count_write ch v s) = quiet s"
  "quiet (address_write ch v s) = quiet s"
  by (simp_all add: quiet_def dma_xt8237_active_def put_reg_def count_write_def address_write_def
      Let_def upd_chan_def flip_wp_def)

lemma wp_sel [simp]:
  "dma_wp (put_reg b i v s) = dma_wp s" "dma_wp (count_write ch v s) 0 = (\<not> dma_wp s 0)"
  "dma_wp (address_write ch v s) 0 = (\<not> dma_wp s 0)"
  by (simp_all add: put_reg_def count_write_def address_write_def Let_def upd_chan_def flip_wp_def)

text \<open>The low half of a 32-bit address as a 16-bit register.\<close>

definition low16 :: "u32 \<Rightarrow> u16" where "low16 a = ucast a"

lemma bit_ffffff00: "bit (0xffffff00 :: u32) n \<longleftrightarrow> 8 \<le> n \<and> n < 32"
proof -
  have e: "(0xffffff00 :: u32) = push_bit 8 (mask 24)" by (simp add: mask_eq_exp_minus_1)
  show ?thesis unfolding e by (simp only: bit_push_bit_iff bit_mask_iff) auto
qed

lemma bit_ffff00ff: "bit (0xffff00ff :: u32) n \<longleftrightarrow> n < 32 \<and> (n < 8 \<or> 16 \<le> n)"
proof -
  have e: "(0xffff00ff :: u32) = push_bit 16 (mask 16) OR mask 8" by (simp add: mask_eq_exp_minus_1)
  show ?thesis unfolding e by (simp only: bit_push_bit_iff bit_mask_iff bit_or_iff) auto
qed

lemma low16_mask:
  assumes "(m :: u32) AND 0xffff = 0xffff" "n < 16" shows "bit m n"
proof -
  have "(0xffff :: u32) = mask 16" by (simp add: mask_eq_exp_minus_1)
  then have "bit (m AND 0xffff) n" unfolding assms(1) using assms(2) by (simp only: bit_mask_iff) simp
  then show ?thesis by (simp only: bit_and_iff)
qed

lemma low16_set:
  assumes "(m :: u32) AND 0xffff = 0xffff"
  shows "low16 ((a AND 0xffffff00 AND m) OR ucast (v :: u8)) = set_lo8 (low16 a) v"
    and "low16 ((a AND 0xffff00ff AND m) OR push_bit 8 (ucast (v :: u8))) = set_hi8 (low16 a) v"
  by (rule bit_word_eqI, simp only: low16_def set_lo8_def set_hi8_def byte_bits bit_ffffff00 bit_ffff00ff,
      use low16_mask [OF assms] in \<open>auto dest: bit_imp_le_length\<close>)+

lemma chan_write [simp]:
  "chan (put_reg b i v s) = chan s"
  "dma_mask (put_reg b i v s) = dma_mask s"
  "d_cb (chan (count_write ch v s) ch) = (if dma_wp s 0 then set_hi8 else set_lo8) (d_cb (chan s ch)) v"
  "d_cc (chan (count_write ch v s) ch) = int (unat (d_cb (chan (count_write ch v s) ch)))"
  "d_ac (chan (address_write ch v s) ch) = d_ab (chan (address_write ch v s) ch)"
  "c \<noteq> ch \<Longrightarrow> chan (count_write ch v s) c = chan s c"
  "c \<noteq> ch \<Longrightarrow> chan (address_write ch v s) c = chan s c"
  "d_ab (chan (count_write ch v s) c) = d_ab (chan s c)"
  "d_ac (chan (count_write ch v s) c) = d_ac (chan s c)"
  "d_cb (chan (address_write ch v s) c) = d_cb (chan s c)"
  by (simp_all add: put_reg_def count_write_def address_write_def Let_def upd_chan_def flip_wp_def)

lemma low16_address_write:
  assumes "quiet s"
  shows "low16 (d_ab (chan (address_write ch v s) ch)) =
    (if dma_wp s 0 then set_hi8 else set_lo8) (low16 (d_ab (chan s ch))) v"
  using assms by (simp add: quiet_def address_write_def Let_def upd_chan_def flip_wp_def low16_set)

interpretation count_reg: byte_pair_port "\<lambda>s. quiet s \<and> ch < 4" "dma_out (count_port ch)"
  "\<lambda>s. d_cb (chan s ch)" "\<lambda>s. dma_wp s 0" for ch
  by unfold_locales (simp_all add: dma_out_count del: One_nat_def)

interpretation addr_reg: byte_pair_port "\<lambda>s. quiet s \<and> ch < 4" "dma_out (addr_port ch)"
  "\<lambda>s. low16 (d_ab (chan s ch))" "\<lambda>s. dma_wp s 0" for ch
  by unfold_locales (simp_all add: dma_out_addr low16_address_write)

definition dma_outs :: "(u16 \<times> u8) list \<Rightarrow> dma_sys \<Rightarrow> dma_sys" where
  "dma_outs = fold (\<lambda>(addr, v) s. dma_out addr v s)"

primrec dma_ins :: "u16 list \<Rightarrow> dma_sys \<Rightarrow> u8 list \<times> dma_sys" where
  "dma_ins [] s = ([], s)"
| "dma_ins (p # ps) s =
     (case dma_read p s of
        None \<Rightarrow> ([], s)
      | Some (v, t) \<Rightarrow> (let (vs, u) = dma_ins ps t in (v # vs, u)))"

lemma dma_read_port:
  assumes "dma_xt8237_active s" "ch < 4"
  shows "dma_read (addr_port ch) s = Some (if dma_wp s 0 then hi8 (low16 (d_ac (chan s ch)))
      else lo8 (low16 (d_ac (chan s ch))), flip_wp s)"
    and "dma_read (count_port ch) s = Some (if dma_wp s 0 then word_of_int (d_cc (chan s ch) div 256)
      else word_of_int (d_cc (chan s ch) mod 256), flip_wp s)"
proof -
  have a: "addr_port ch AND 0x0f \<noteq> 0x08" "addr_port ch AND 0x0f \<noteq> 0x0d"
    "count_port ch AND 0x0f \<noteq> 0x08" "count_port ch AND 0x0f \<noteq> 0x0d"
    using port_low [OF assms(2)] assms(2) by (auto simp del: One_nat_def)
  have d: "2 * ch + 1 < 8" "(2 * ch + 1) div 2 mod 4 = ch" "2 * ch < 8" "(2 * ch) div 2 mod 4 = ch"
    using assms(2) by auto
  have h: "hi8 (low16 w) = ucast (drop_bit 8 w)" "lo8 (low16 w) = ucast w" for w
    by (rule bit_word_eqI, simp only: low16_def hi8_def lo8_def byte_bits, auto)+
  show "dma_read (addr_port ch) s = Some (if dma_wp s 0 then hi8 (low16 (d_ac (chan s ch)))
      else lo8 (low16 (d_ac (chan s ch))), flip_wp s)"
    using assms(1) a d by (simp add: dma_read_def port_read_def Let_def port_low [OF assms(2)] h flip_wp_def)
  show "dma_read (count_port ch) s = Some (if dma_wp s 0 then word_of_int (d_cc (chan s ch) div 256)
      else word_of_int (d_cc (chan s ch) mod 256), flip_wp s)"
    using assms(1) a d
    by (simp add: dma_read_def port_read_def Let_def port_low [OF assms(2)] flip_wp_def del: One_nat_def)
qed

lemma count_bytes:
  "word_of_int (uint (n :: u16) mod 256) = lo8 n"
  "word_of_int (uint n div 256) = hi8 n"
proof -
  have "uint n mod 256 = uint (lo8 n)"
    by (simp add: lo8_def unsigned_ucast_eq take_bit_eq_mod)
  then show "word_of_int (uint n mod 256) = lo8 n" by simp
  have "uint n div 256 = uint (drop_bit 8 n)"
    unfolding unsigned_drop_bit_eq using uint_bounded [of n]
    by (simp add: drop_bit_eq_div take_bit_int_eq_self)
  then show "word_of_int (uint n div 256) = hi8 n" by (simp add: hi8_def)
qed

lemma dma_out_clear:
  assumes "quiet s"
  shows "dma_out 0x0c v s = (put_reg 0 12 v s)\<lparr>dma_wp := (dma_wp s)(0 := False)\<rparr>"
  using assms by (simp add: quiet_def dma_out_def dma_write_def Let_def reconcile_quiet dma_xt8237_active_def
      put_reg_def)

definition program_channel :: "nat \<Rightarrow> u16 \<Rightarrow> u16 \<Rightarrow> u8 \<Rightarrow> dma_sys \<Rightarrow> dma_sys" where
  "program_channel ch a n x = dma_outs [(0x0c, x), (addr_port ch, lo8 a), (addr_port ch, hi8 a),
     (count_port ch, lo8 n), (count_port ch, hi8 n)]"

text \<open>Programming an 8237 channel. Clearing the flip-flop and writing two address bytes and
  two count bytes leaves exactly these values in the base address (its 64K page kept) and base
  count, the current address and count equal to them, and every other channel untouched; and
  reading the four bytes back through the same ports returns what was written.\<close>

theorem programmed_channel_reads_back:
  assumes "quiet s" and ch: "ch < 4" and t_def: "t = program_channel ch a n x s"
  shows "low16 (d_ab (chan t ch)) = a \<and> d_ac (chan t ch) = d_ab (chan t ch) \<and>
     d_cb (chan t ch) = n \<and> d_cc (chan t ch) = int (unat n) \<and> (\<forall>c. c \<noteq> ch \<longrightarrow> chan t c = chan s c) \<and>
     fst (dma_ins [addr_port ch, addr_port ch, count_port ch, count_port ch] t) =
       [lo8 a, hi8 a, lo8 n, hi8 n]"
proof -
  define s0 where "s0 = dma_out 0x0c x s"
  define s1 where "s1 = dma_out (addr_port ch) (hi8 a) (dma_out (addr_port ch) (lo8 a) s0)"
  have t: "t = dma_out (count_port ch) (hi8 n) (dma_out (count_port ch) (lo8 n) s1)"
    by (simp add: t_def program_channel_def dma_outs_def s0_def s1_def)
  have q0: "quiet s0" "\<not> dma_wp s0 0" "chan s0 = chan s"
    using assms(1) by (simp_all add: s0_def dma_out_clear quiet_def put_reg_def dma_xt8237_active_def)
  have s1: "s1 = addr_reg.write_pair ch a s0" by (simp add: s1_def addr_reg.write_pair_def)
  have a: "quiet s1" "\<not> dma_wp s1 0" "low16 (d_ab (chan s1 ch)) = a"
    using addr_reg.write_pair_ok [of s0 ch a] addr_reg.write_pair_flipflop [of s0 ch a]
      addr_reg.write_pair_reg [of s0 ch a] q0 ch unfolding s1 by simp_all
  have ac: "d_ac (chan s1 ch) = d_ab (chan s1 ch)" "c \<noteq> ch \<Longrightarrow> chan s1 c = chan s c" for c
    using q0 ch by (simp_all add: s1_def dma_out_addr)
  have t': "t = count_reg.write_pair ch n s1" by (simp add: t count_reg.write_pair_def)
  have n: "quiet t" "\<not> dma_wp t 0" "d_cb (chan t ch) = n"
    using count_reg.write_pair_ok [of s1 ch n] count_reg.write_pair_flipflop [of s1 ch n]
      count_reg.write_pair_reg [of s1 ch n] a ch unfolding t' by simp_all
  have cc: "d_cc (chan t ch) = int (unat (d_cb (chan t ch)))" "d_ab (chan t ch) = d_ab (chan s1 ch)"
    "d_ac (chan t ch) = d_ac (chan s1 ch)" "c \<noteq> ch \<Longrightarrow> chan t c = chan s1 c" for c
    using a ch by (simp_all add: t dma_out_count)
  have act: "dma_xt8237_active t" using n by (simp add: quiet_def)
  then have "fst (dma_ins [addr_port ch, addr_port ch, count_port ch, count_port ch] t) =
       [lo8 a, hi8 a, lo8 n, hi8 n]"
    using n a ac cc ch by (simp add: dma_read_port Let_def split_beta flip_wp_def dma_xt8237_active_def count_bytes)
  then show ?thesis using a n ac cc by simp
qed

lemma programmed_channel_reads_back_witness:
  "fst (dma_ins [addr_port 2, addr_port 2, count_port 2, count_port 2]
     (program_channel 2 0x1234 0x01ff 0 dma_boot)) = [0x34, 0x12, 0xff, 0x01]"
proof -
  have "quiet dma_boot" by (simp add: quiet_def dma_xt8237_active_def)
  from programmed_channel_reads_back [where ch = 2 and a = "0x1234" and n = "0x01ff" and x = 0, OF this _ refl]
  show ?thesis by (simp add: lo8_def hi8_def)
qed

section \<open>The DRAM refresh latch\<close>

text \<open>Channel 0 set up for refresh and served first: fixed priority, no channel holding the bus.\<close>

definition refresh_setup :: "dma_sys \<Rightarrow> bool" where
  "refresh_setup s \<longleftrightarrow> dma_xt8237_active s \<and> dma_command s 0 AND 0x04 = 0 \<and> dma_command s 0 AND 0x10 = 0 \<and>
     tst (dma_e s) 0 \<and> service_mode 0 s \<noteq> 3 \<and>
     (d_mode (chan s 0) AND 0x0c = 0x08 \<or> d_mode (chan s 0) AND 0x0c = 0) \<and>
     demand_active (xt s) = 0 \<and> block_active (xt s) = 0 \<and> \<not> tst (dma_stat_adv_pend s) 0 \<and>
     external_eop (xt s) = 0"

definition with_request :: "dma_sys \<Rightarrow> dma_sys" where
  "with_request s = s\<lparr>refresh_queued := True,
     dma_stat_rq_pc := (dma_stat_rq_pc s AND NOT (bitmask 0)) OR bitmask 0\<rparr>"

lemma can_service_refresh:
  assumes "refresh_setup s" "tst (dma_stat_rq_pc s) 0"
  shows "dma_xt8237_can_service 0 s \<longleftrightarrow> \<not> tst (dma_m s) 0"
proof (cases "tst (dma_m s) 0")
  case True
  then show ?thesis by (simp add: dma_xt8237_can_service_def)
next
  case False
  let ?r = "dma_xt8237_service_requests s"
  define q where "q = ?r AND NOT (dma_m s AND 0x0f) AND (dma_e s AND 0x0f)"
  have r: "tst ?r 0"
    using assms(2) by (simp add: dma_xt8237_service_requests_def dma_xt8237_raw_requests_def tst_and tst_or tst_0f)
  then have q: "tst q 0"
    unfolding q_def tst_enabled using assms(1) False by (simp add: eligible_def refresh_setup_def)
  then have nz: "q \<noteq> 0" by auto
  have "dma_xt8237_priority_pick ?r s = first_line 4 fixed_line (tst q)"
    unfolding dma_xt8237_priority_pick_def Let_def q_def [symmetric]
    using assms(1) nz by (simp add: refresh_setup_def)
  also have "\<dots> = Some 0" unfolding fixed.pick_Some using q by (simp add: fixed_line_def)
  finally show ?thesis
    using assms(1) r False by (simp add: dma_xt8237_can_service_def Let_def refresh_setup_def service_mode_def)
qed

lemma reconcile_masked:
  "tst (dma_m s) 0 \<Longrightarrow> \<not> refresh_scheduled s \<Longrightarrow> dma_xt_refresh_reconcile s = s"
  by (simp add: dma_xt_refresh_reconcile_def dma_xt8237_can_service_def)

lemma with_request_sel [simp]:
  "refresh_queued (with_request s)" "refresh_scheduled (with_request s) = refresh_scheduled s"
  "dma_m (with_request s) = dma_m s" "tst (dma_stat_rq_pc (with_request s)) 0"
  "dma_xt8237_active (with_request s) = dma_xt8237_active s"
  "refresh_setup (with_request s) = refresh_setup s" "m808x_active (with_request s) = m808x_active s"
  "m808x_req (with_request s) = m808x_req s" "charges (with_request s) = charges s"
  "phys (with_request s) = phys s" "chan (with_request s) = chan s"
  by (simp_all add: with_request_def dma_xt8237_active_def refresh_setup_def service_mode_def)

lemma request_pin: "set_drq_pin 0 True (s\<lparr>refresh_queued := True\<rparr>) = with_request s"
  by (simp add: set_drq_pin_def Let_def with_request_def)

lemma refresh_request_new:
  "\<not> refresh_queued s \<Longrightarrow> dma_xt8237_active s \<Longrightarrow>
     dma_xt_refresh_request s = dma_xt_refresh_reconcile (with_request s)"
  by (simp add: dma_xt_refresh_request_def dma_set_drq_def request_pin)

lemma refresh_request_again:
  "refresh_queued s \<Longrightarrow> dma_xt_refresh_request s = dma_xt_refresh_reconcile s"
  by (simp add: dma_xt_refresh_request_def)

lemma masked_requests:
  assumes "refresh_setup s" "tst (dma_m s) 0" "\<not> refresh_queued s" "\<not> refresh_scheduled s"
  shows "(dma_xt_refresh_request ^^ Suc k) s = with_request s"
proof (induction k)
  case 0
  show ?case using assms by (simp add: refresh_request_new reconcile_masked refresh_setup_def)
next
  case (Suc k)
  have "(dma_xt_refresh_request ^^ Suc (Suc k)) s = dma_xt_refresh_request ((dma_xt_refresh_request ^^ Suc k) s)"
    by simp
  also have "\<dots> = with_request s" unfolding Suc.IH using assms by (simp add: refresh_request_again reconcile_masked)
  finally show ?case .
qed

lemma pin_low:
  "dma_stat_rq_pc (set_drq_pin 0 False s) = dma_stat_rq_pc s AND NOT (bitmask 0)"
  "refresh_queued (set_drq_pin 0 False s) = refresh_queued s"
  "refresh_scheduled (set_drq_pin 0 False s) = refresh_scheduled s"
  "charges (set_drq_pin 0 False s) = charges s" "phys (set_drq_pin 0 False s) = phys s"
  "chan (set_drq_pin 0 False s) = chan s" "m808x_req (set_drq_pin 0 False s) = m808x_req s"
  by (simp_all add: set_drq_pin_def Let_def dma_xt8237_release_owner_def upd_xt_def)

lemma finish_frame:
  "charges (snd (dma_xt8237_finish_transfer ch s)) = charges s"
  "phys (snd (dma_xt8237_finish_transfer ch s)) = phys s"
  "m808x_req (snd (dma_xt8237_finish_transfer ch s)) = m808x_req s"
  by (simp_all add: dma_xt8237_finish_transfer_def Let_def upd_chan_def upd_xt_def dma_xt8237_release_owner_def)

text \<open>One refresh cycle: the next row address, nothing in memory changed, the request gone.\<close>

definition refreshed :: "bus_charge list \<Rightarrow> dma_sys \<Rightarrow> dma_sys \<Rightarrow> bool" where
  "refreshed cs s t \<longleftrightarrow> charges t = cs @ charges s \<and> \<not> refresh_queued t \<and> \<not> refresh_scheduled t \<and>
     \<not> tst (dma_stat_rq_pc t) 0 \<and> phys t = phys s \<and>
     (0 < d_cc (chan s 0) \<longrightarrow>
       d_ac (chan t 0) = next_address (d_mode (chan s 0)) (dma_mask s) (d_ac (chan s 0)) \<and>
       d_cc (chan t 0) = d_cc (chan s 0) - 1)"

lemma dack_direct:
  assumes "refresh_setup s" "tst (dma_stat_rq_pc s) 0" "\<not> tst (dma_m s) 0" "\<not> m808x_active s"
  shows "refreshed [Refreshread] s (dma_xt_refresh_dack s)"
proof -
  have c: "dma_xt8237_can_service 0 s" using can_service_refresh [OF assms(1,2)] assms(3) by simp
  let ?u = "serve 0 s"
  have r: "snd (read_with id 0 s) = snd (dma_xt8237_finish_transfer 0 ?u)"
    using assms(1) c by (auto simp: read_with_def Let_def refresh_setup_def reconcile_after_def split_beta)
  have ch: "charges ?u = Refreshread # charges s"
    using assms(4) by (simp add: serve_def Let_def dma_xt8237_charge_bus_def charge_def upd_chan_def
        dma_xt8237_begin_service_def upd_xt_def dma_xt8237_advance_address_def)
  have f: "0 < d_cc (chan s 0) \<Longrightarrow> chan (snd (dma_xt8237_finish_transfer 0 ?u)) 0 =
      (chan s 0)\<lparr>d_ac := next_address (d_mode (chan s 0)) (dma_mask s) (d_ac (chan s 0)),
                 d_cc := d_cc (chan s 0) - 1\<rparr>"
    using finish_run(8) [of ?u 0] assms(1) by (simp add: refresh_setup_def)
  show ?thesis
    using assms(4) f by (simp add: dma_xt_refresh_dack_def Let_def refreshed_def pin_low r finish_frame ch)
qed

lemma dack_adapter:
  assumes "refresh_setup s" "m808x_active s"
  shows "refreshed [] s (dma_xt_refresh_dack s) \<and> m808x_req (dma_xt_refresh_dack s) = m808x_req s"
proof -
  define t where "t = dma_xt8237_advance_address 0 (dma_xt8237_begin_service 0 s)"
  define u where "u = t\<lparr>dma_stat_rq := dma_stat_rq t OR 0x01, dma_stat_adv_pend := dma_stat_adv_pend t AND NOT 0x01\<rparr>"
  have d: "dma_xt_refresh_dack s = set_drq_pin 0 False
      ((snd (dma_xt8237_finish_transfer 0 u))\<lparr>refresh_queued := False, refresh_scheduled := False\<rparr>)"
    using assms by (simp add: dma_xt_refresh_dack_def Let_def refresh_setup_def u_def t_def)
  have u: "charges u = charges s" "phys u = phys s" "m808x_req u = m808x_req s"
    "external_eop (xt u) = external_eop (xt s)"
    "chan u 0 = (chan s 0)\<lparr>d_ac := next_address (d_mode (chan s 0)) (dma_mask s) (d_ac (chan s 0))\<rparr>"
    by (simp_all add: u_def t_def dma_xt8237_advance_address_def dma_xt8237_begin_service_def upd_chan_def upd_xt_def)
  have f: "0 < d_cc (chan s 0) \<Longrightarrow> chan (snd (dma_xt8237_finish_transfer 0 u)) 0 =
      (chan s 0)\<lparr>d_ac := next_address (d_mode (chan s 0)) (dma_mask s) (d_ac (chan s 0)),
                 d_cc := d_cc (chan s 0) - 1\<rparr>"
    using finish_run(8) [of u 0] assms(1) by (simp add: refresh_setup_def u)
  show ?thesis using f by (simp add: d refreshed_def pin_low finish_frame u)
qed

lemma refresh_setup_frame [simp]:
  "refresh_setup (put_reg b i v s) = refresh_setup s" "refresh_setup (s\<lparr>dma_m := m\<rparr>) = refresh_setup s"
  "refresh_setup (s\<lparr>refresh_scheduled := b'\<rparr>) = refresh_setup s"
  "refresh_setup (s\<lparr>m808x_req := b'\<rparr>) = refresh_setup s"
  by (simp_all add: refresh_setup_def put_reg_def dma_xt8237_active_def service_mode_def)

lemma refreshed_cong:
  assumes "charges s' = charges s" "phys s' = phys s" "chan s' = chan s" "dma_mask s' = dma_mask s"
  shows "refreshed cs s' t = refreshed cs s t"
  using assms by (simp add: refreshed_def)

lemma reconcile_serves:
  assumes "refresh_setup s" "tst (dma_stat_rq_pc s) 0" "\<not> tst (dma_m s) 0" "\<not> m808x_active s"
    "refresh_queued s" "\<not> refresh_scheduled s"
  shows "dma_xt_refresh_reconcile s = dma_xt_refresh_dack (s\<lparr>refresh_scheduled := True\<rparr>)"
  using assms can_service_refresh [OF assms(1,2)]
  by (simp add: dma_xt_refresh_reconcile_def dma_xt_refresh_try_schedule_def refresh_setup_def)

text \<open>Refresh requests do not pile up. While channel 0 is masked, any positive number of rising
  edges of PIT counter 1 leaves the controller as one edge does: one request, latched. Unmasking
  the channel performs exactly one refresh cycle, which charges the bus once, steps the row
  address, touches no memory and clears the request.\<close>

theorem masked_refresh_requests_collapse:
  assumes "refresh_setup s" and "tst (dma_m s) 0" and "\<not> refresh_queued s" and "\<not> refresh_scheduled s"
    and "\<not> m808x_active s"
  shows "\<exists>t. dma_write 0x0a 0x00 ((dma_xt_refresh_request ^^ Suc k) s) = Done t \<and> refreshed [Refreshread] s t"
proof -
  let ?w = "with_request s"
  define s1 where "s1 = (put_reg 0 10 0 ?w)\<lparr>dma_m := dma_m s AND NOT (bitmask 0)\<rparr>"
  have s1: "refresh_setup s1" "tst (dma_stat_rq_pc s1) 0" "\<not> tst (dma_m s1) 0" "\<not> m808x_active s1"
    "refresh_queued s1" "\<not> refresh_scheduled s1"
    using assms with_request_sel(4) [of s]
    by (simp_all add: s1_def tst_clear) (simp_all add: put_reg_def)
  have "dma_write 0x0a 0x00 ?w = Done (dma_xt_refresh_reconcile s1)"
    using assms(1) by (simp add: dma_write_def Let_def mask_write_def s1_def refresh_setup_def put_reg_def)
  also have "\<dots> = Done (dma_xt_refresh_dack (s1\<lparr>refresh_scheduled := True\<rparr>))"
    using s1 by (simp add: reconcile_serves)
  finally have w: "dma_write 0x0a 0x00 ?w = Done (dma_xt_refresh_dack (s1\<lparr>refresh_scheduled := True\<rparr>))" .
  have "refreshed [Refreshread] (s1\<lparr>refresh_scheduled := True\<rparr>) (dma_xt_refresh_dack (s1\<lparr>refresh_scheduled := True\<rparr>))"
    by (rule dack_direct) (use s1 in simp_all)
  then have "refreshed [Refreshread] s (dma_xt_refresh_dack (s1\<lparr>refresh_scheduled := True\<rparr>))"
    by (subst (asm) refreshed_cong [of _ s]) (simp_all add: s1_def put_reg_def with_request_def)
  then show ?thesis using w masked_requests [OF assms(1-4)] by simp
qed

definition refresh_ready :: dma_sys where
  "refresh_ready = upd_chan 0 (\<lambda>c. c\<lparr>d_mode := 0x58, d_cb := 0xffff, d_cc := 0xffff\<rparr>) dma_boot"

lemma refresh_ready_setup: "refresh_setup refresh_ready"
  by (simp add: refresh_ready_def refresh_setup_def upd_chan_def dma_xt8237_active_def service_mode_def
      xt8237_clear_def tst_def bitmask_def)

lemma masked_refresh_requests_collapse_witness:
  "\<exists>t. dma_write 0x0a 0x00 ((dma_xt_refresh_request ^^ Suc 4) refresh_ready) = Done t \<and>
     refreshed [Refreshread] refresh_ready t"
  by (rule masked_refresh_requests_collapse [OF refresh_ready_setup])
    (simp_all add: refresh_ready_def upd_chan_def tst_def bitmask_def)

lemma can_service_pending:
  assumes "refresh_setup s" "\<not> tst (dma_m s) 0"
  shows "dma_xt8237_can_service 0 (with_request s)"
    "dma_xt8237_can_service 0 ((with_request s)\<lparr>m808x_req := True, refresh_scheduled := True\<rparr>)"
  using assms by (simp_all add: can_service_refresh)

lemma pending_requests:
  assumes "refresh_setup s" "\<not> tst (dma_m s) 0" "\<not> refresh_queued s" "\<not> refresh_scheduled s"
    "m808x_active s" "\<not> m808x_req s"
  shows "(dma_xt_refresh_request ^^ Suc k) s = (with_request s)\<lparr>m808x_req := True, refresh_scheduled := True\<rparr>"
proof (induction k)
  case 0
  have "dma_xt8237_active s" using assms(1) by (simp add: refresh_setup_def)
  then show ?case
    using assms can_service_pending [OF assms(1,2)]
    by (simp add: refresh_request_new dma_xt_refresh_reconcile_def dma_xt_refresh_try_schedule_def
        m808x_try_request_def)
next
  case (Suc k)
  let ?q = "(with_request s)\<lparr>m808x_req := True, refresh_scheduled := True\<rparr>"
  have act: "dma_xt8237_active ?q" using assms(1)
    by (simp add: refresh_setup_def dma_xt8237_active_def with_request_def)
  have "(dma_xt_refresh_request ^^ Suc (Suc k)) s = dma_xt_refresh_request ?q"
    using Suc.IH by (simp only: funpow.simps comp_apply)
  also have "\<dots> = ?q"
    using act assms can_service_pending [OF assms(1,2)]
    by (simp add: refresh_request_again dma_xt_refresh_reconcile_def)
  finally show ?case .
qed

text \<open>The refresh handshake with the 8088 adapter. With channel 0 ready and the adapter's
  request slot free, any positive number of refresh edges before DACK0 occupies the slot once;
  the acknowledge then performs one refresh cycle without charging bus time here (the adapter
  accounts for it) and frees the slot, the latch and the schedule, so that the next edge is
  accepted again.\<close>

theorem refresh_handshake:
  assumes "refresh_setup s" and "\<not> tst (dma_m s) 0" and "\<not> refresh_queued s" and "\<not> refresh_scheduled s"
    and "m808x_active s" and "\<not> m808x_req s"
  shows "(dma_xt_refresh_request ^^ Suc k) s = (with_request s)\<lparr>m808x_req := True, refresh_scheduled := True\<rparr> \<and>
    refreshed [] s (m808x_dack ((dma_xt_refresh_request ^^ Suc k) s)) \<and>
    \<not> m808x_req (m808x_dack ((dma_xt_refresh_request ^^ Suc k) s))"
proof -
  let ?q = "(with_request s)\<lparr>m808x_req := True, refresh_scheduled := True\<rparr>"
  have r: "(dma_xt_refresh_request ^^ Suc k) s = ?q"
    using pending_requests [OF assms] .
  let ?d = "?q\<lparr>m808x_req := False\<rparr>"
  have "refreshed [] ?d (dma_xt_refresh_dack ?d) \<and> m808x_req (dma_xt_refresh_dack ?d) = m808x_req ?d"
    by (rule dack_adapter) (use assms in simp_all)
  then have "refreshed [] s (dma_xt_refresh_dack ?d)" "\<not> m808x_req (dma_xt_refresh_dack ?d)"
    using refreshed_cong [of ?d s] by (simp_all add: with_request_def)
  then show ?thesis unfolding r by (simp add: m808x_dack_def)
qed

lemma refresh_handshake_witness:
  "refreshed [] (refresh_ready\<lparr>m808x_active := True, dma_m := 0\<rparr>)
     (m808x_dack ((dma_xt_refresh_request ^^ Suc 2) (refresh_ready\<lparr>m808x_active := True, dma_m := 0\<rparr>)))"
proof -
  let ?s = "refresh_ready\<lparr>m808x_active := True, dma_m := 0\<rparr>"
  have a: "refresh_setup ?s" using refresh_ready_setup by (simp add: refresh_setup_def dma_xt8237_active_def service_mode_def)
  have b: "\<not> refresh_queued ?s" "\<not> refresh_scheduled ?s" "\<not> m808x_req ?s"
    by (simp_all add: refresh_ready_def upd_chan_def dma_boot_def dma_init_def dma_reset_def Let_def
        dma_reset_legacy_def dma_blank_def)
  have c: "\<not> tst (dma_m ?s) 0" "m808x_active ?s" by simp_all
  show ?thesis using refresh_handshake [OF a c(1) b(1,2) c(2) b(3), of 2] by (elim conjE) assumption
qed

end
