(* ===== verification/Timer.thy ===== *)
theory Timer
  imports Prelude86 Complex_Main
begin

text \<open>
  The event timers every device hangs on: \<open>86box_full/src/timer.c\<close> and the inline functions of
  \<open>include/86box/timer.h\<close>. Enabled timers form a doubly linked list in a heap of \<open>pc_timer_t\<close>
  structs; addresses are naturals and a NULL link is \<open>None\<close>. Timestamps are 64-bit words compared
  by the sign of their difference, as the source does. A run is \<open>None\<close> when a loop of the code
  never ends, \<open>Some (Inl e)\<close> when it dereferences NULL or calls \<open>fatal\<close>, \<open>Some (Inr s)\<close> when it
  returns. The \<open>double\<close> of a long period is a real number; the one rounding operation on it,
  \<open>(uint64_t) (period * (double) TIMER_USEC)\<close>, is a parameter. Callbacks are a parameter too:
  they are the code of the devices.
\<close>

section \<open>State\<close>

record pc_timer =
  ts_integer :: u64
  ts_frac :: u32
  t_flags :: u32
  in_callback :: bool
  t_period :: real
  has_callback :: bool
  t_prev :: "nat option"
  t_next :: "nat option"

record tsys =
  timers :: "nat \<Rightarrow> pc_timer"
  timer_head :: "nat option"
  timer_target :: u64
  tsc :: u64
  timer_inited :: bool
  TIMER_USEC :: u64

datatype timer_err = Null_deref | Fatal_linked

type_synonym tres = "(timer_err + tsys) option"

definition TIMER_ENABLED :: u32 where "TIMER_ENABLED = 1"
definition TIMER_SPLIT :: u32 where "TIMER_SPLIT = 2"

definition flag :: "u32 \<Rightarrow> pc_timer \<Rightarrow> bool" where
  "flag f t \<longleftrightarrow> t_flags t AND f \<noteq> 0"

definition upd_timer :: "nat \<Rightarrow> (pc_timer \<Rightarrow> pc_timer) \<Rightarrow> tsys \<Rightarrow> tsys" where
  "upd_timer n f s = s\<lparr>timers := (timers s)(n := f (timers s n))\<rparr>"

definition continue :: "tres \<Rightarrow> (tsys \<Rightarrow> tres) \<Rightarrow> tres" where
  "continue m f = (case m of None \<Rightarrow> None | Some r \<Rightarrow> (case r of Inl e \<Rightarrow> Some (Inl e) | Inr s \<Rightarrow> f s))"

lemma continue_simps [simp]:
  "continue None f = None" "continue (Some (Inl e)) f = Some (Inl e)" "continue (Some (Inr s)) f = f s"
  by (simp_all add: continue_def)

text \<open>\<open>TIMER_LESS_THAN\<close> and its variants: the signed difference is not positive.\<close>

definition val_less :: "u64 \<Rightarrow> u64 \<Rightarrow> bool" where
  "val_less a b \<longleftrightarrow> sint (a - b) \<le> 0"

definition timer_less :: "tsys \<Rightarrow> nat \<Rightarrow> nat \<Rightarrow> bool" where
  "timer_less s a b = val_less (ts_integer (timers s a)) (ts_integer (timers s b))"

section \<open>The list of enabled timers\<close>

definition timer_disable :: "nat \<Rightarrow> tsys \<Rightarrow> timer_err + tsys" where
  "timer_disable n s0 =
     (let t = timers s0 n in
      if \<not> timer_inited s0 \<or> \<not> flag TIMER_ENABLED t then Inr s0
      else if t_next t = None \<and> t_prev t = None \<and> timer_head s0 \<noteq> Some n then Inl Null_deref
      else
        let s1 = upd_timer n (\<lambda>t. t\<lparr>t_flags := t_flags t AND NOT TIMER_ENABLED, in_callback := False\<rparr>) s0;
            s2 = (case t_prev (timers s1 n) of
                    Some p \<Rightarrow> upd_timer p (\<lambda>q. q\<lparr>t_next := t_next (timers s1 n)\<rparr>) s1
                  | None \<Rightarrow> s1\<lparr>timer_head := t_next (timers s1 n)\<rparr>);
            s3 = (case t_next (timers s2 n) of
                    Some m \<Rightarrow> upd_timer m (\<lambda>q. q\<lparr>t_prev := t_prev (timers s2 n)\<rparr>) s2
                  | None \<Rightarrow> s2)
        in Inr (upd_timer n (\<lambda>t. t\<lparr>t_prev := None, t_next := None\<rparr>) s3))"

text \<open>Linking the timer in front of a node.\<close>

definition link_before :: "nat \<Rightarrow> nat \<Rightarrow> tsys \<Rightarrow> tsys" where
  "link_before n node s0 =
     (let p = t_prev (timers s0 node);
          s1 = upd_timer n (\<lambda>t. t\<lparr>t_next := Some node, t_prev := p\<rparr>) s0;
          s2 = upd_timer node (\<lambda>t. t\<lparr>t_prev := Some n\<rparr>) s1
      in case t_prev (timers s2 n) of
           Some q \<Rightarrow> upd_timer q (\<lambda>t. t\<lparr>t_next := Some n\<rparr>) s2
         | None \<Rightarrow> s2\<lparr>timer_head := Some n, timer_target := ts_integer (timers s2 n)\<rparr>)"

definition link_after :: "nat \<Rightarrow> nat \<Rightarrow> tsys \<Rightarrow> tsys" where
  "link_after n node s =
     upd_timer n (\<lambda>t. t\<lparr>t_prev := Some node\<rparr>) (upd_timer node (\<lambda>t. t\<lparr>t_next := Some n\<rparr>) s)"

text \<open>The search loop follows \<open>next\<close> pointers, so it ends only on a list without cycles.\<close>

partial_function (option) enable_loop :: "nat \<Rightarrow> nat \<Rightarrow> tsys \<Rightarrow> tsys option" where
  "enable_loop n node s =
     (if timer_less s n node then Some (link_before n node s)
      else case t_next (timers s node) of
             None \<Rightarrow> Some (link_after n node s)
           | Some m \<Rightarrow> enable_loop n m s)"

definition timer_enable :: "nat \<Rightarrow> tsys \<Rightarrow> tres" where
  "timer_enable n s0 =
     continue (Some (if flag TIMER_ENABLED (timers s0 n) then timer_disable n s0 else Inr s0))
       (\<lambda>s. if t_next (timers s n) \<noteq> None \<or> t_prev (timers s n) \<noteq> None then Some (Inl Fatal_linked)
        else
          let s1 = upd_timer n (\<lambda>t. t\<lparr>t_flags := t_flags t OR TIMER_ENABLED\<rparr>) s
          in case timer_head s1 of
               None \<Rightarrow> Some (Inr ((upd_timer n (\<lambda>t. t\<lparr>t_next := None, t_prev := None\<rparr>) s1)
                                   \<lparr>timer_head := Some n, timer_target := ts_integer (timers s1 n)\<rparr>))
             | Some h \<Rightarrow> map_option Inr (enable_loop n h s1))"

definition timer_remove_head :: "tsys \<Rightarrow> timer_err + tsys" where
  "timer_remove_head s =
     (case timer_head s of
        None \<Rightarrow> Inr s
      | Some n \<Rightarrow>
          (let s1 = s\<lparr>timer_head := t_next (timers s n)\<rparr>
           in case timer_head s1 of
                None \<Rightarrow> Inl Null_deref
              | Some m \<Rightarrow>
                  Inr (upd_timer n (\<lambda>t. t\<lparr>t_next := None, t_prev := None,
                                          t_flags := t_flags t AND NOT TIMER_ENABLED\<rparr>)
                        (upd_timer m (\<lambda>t. t\<lparr>t_prev := None\<rparr>) s1))))"

section \<open>Delays in 32.32 fixed point\<close>

definition int_delay :: "u64 \<Rightarrow> u64" where
  "int_delay delay =
     (let i = drop_bit 32 delay
      in if i AND 0x0000000080000000 \<noteq> 0 then i OR 0xffffffff00000000 else i)"

definition frac_delay :: "u64 \<Rightarrow> u32" where
  "frac_delay delay = ucast (delay AND 0xffffffff)"

definition advanced :: "u64 \<Rightarrow> pc_timer \<Rightarrow> pc_timer" where
  "advanced delay t =
     (let f = frac_delay delay;
          carry = (if f + ts_frac t < f then 1 else 0)
      in t\<lparr>ts_integer := ts_integer t + carry + int_delay delay, ts_frac := ts_frac t + f\<rparr>)"

definition timer_advance_u64 :: "nat \<Rightarrow> u64 \<Rightarrow> tsys \<Rightarrow> tres" where
  "timer_advance_u64 n delay s = timer_enable n (upd_timer n (advanced delay) s)"

definition timer_set_delay_u64 :: "nat \<Rightarrow> u64 \<Rightarrow> tsys \<Rightarrow> tres" where
  "timer_set_delay_u64 n delay s =
     timer_enable n (upd_timer n (\<lambda>t. t\<lparr>ts_frac := frac_delay delay,
                                       ts_integer := int_delay delay + tsc s\<rparr>) s)"

definition timer_is_enabled :: "nat \<Rightarrow> tsys \<Rightarrow> bool" where
  "timer_is_enabled n s = flag TIMER_ENABLED (timers s n)"

definition timer_is_on :: "nat \<Rightarrow> tsys \<Rightarrow> bool" where
  "timer_is_on n s \<longleftrightarrow> flag TIMER_SPLIT (timers s n) \<and> flag TIMER_ENABLED (timers s n)"

text \<open>The 128-bit differences cannot overflow, so they are integers here.\<close>

definition timer_get_remaining_u64 :: "nat \<Rightarrow> tsys \<Rightarrow> int" where
  "timer_get_remaining_u64 n s =
     (let t = timers s n;
          remaining = uint (ts_integer t) * 2 ^ 32 + uint (ts_frac t) - uint (tsc s) * 2 ^ 32
      in if \<not> flag TIMER_ENABLED t then 0 else if remaining < 0 then 0 else remaining)"

definition timer_get_remaining_us :: "nat \<Rightarrow> tsys \<Rightarrow> u64" where
  "timer_get_remaining_us n s =
     (let t = timers s n;
          remaining = uint (ts_integer t) * 2 ^ 32 + uint (ts_frac t) - uint (tsc s) * 2 ^ 32
      in if \<not> flag TIMER_ENABLED t then 0 else if remaining < 0 then 0
         else word_of_int (remaining div uint (TIMER_USEC s)))"

section \<open>Long periods\<close>

definition MAX_USEC64 :: u64 where "MAX_USEC64 = 1000000"
definition MAX_USEC :: real where "MAX_USEC = 1000000"

definition timer_stop :: "nat \<Rightarrow> tsys \<Rightarrow> tres" where
  "timer_stop n s =
     (if \<not> timer_inited s then Some (Inr s)
      else
        let s1 = upd_timer n (\<lambda>t. t\<lparr>t_period := 0\<rparr>) s
        in continue (Some (if flag TIMER_ENABLED (timers s1 n) then timer_disable n s1 else Inr s1))
             (\<lambda>s2. Some (Inr (upd_timer n (\<lambda>t. t\<lparr>t_flags := t_flags t AND NOT TIMER_SPLIT,
                                               in_callback := False\<rparr>) s2))))"

definition timer_do_period :: "nat \<Rightarrow> u64 \<Rightarrow> bool \<Rightarrow> tsys \<Rightarrow> tres" where
  "timer_do_period n period start s =
     (if \<not> timer_inited s then Some (Inr s)
      else if start then timer_set_delay_u64 n period s
      else timer_advance_u64 n period s)"

text \<open>\<open>tk\<close> is the product and conversion of a \<open>double\<close> period with \<open>TIMER_USEC\<close>.\<close>

definition timer_advance_ex :: "(real \<Rightarrow> u64 \<Rightarrow> u64) \<Rightarrow> nat \<Rightarrow> bool \<Rightarrow> tsys \<Rightarrow> tres" where
  "timer_advance_ex tk n start s =
     (if \<not> timer_inited s then Some (Inr s)
      else let p = t_period (timers s n) in
        if p > MAX_USEC then
          continue (timer_do_period n (MAX_USEC64 * TIMER_USEC s) start s)
            (\<lambda>s1. Some (Inr (upd_timer n (\<lambda>t. t\<lparr>t_period := t_period t - MAX_USEC,
                                              t_flags := t_flags t OR TIMER_SPLIT\<rparr>) s1)))
        else
          continue (if p > 0 then timer_do_period n (tk p (TIMER_USEC s)) start s
                    else Some (timer_disable n s))
            (\<lambda>s1. Some (Inr (upd_timer n (\<lambda>t. t\<lparr>t_period := 0,
                                              t_flags := t_flags t AND NOT TIMER_SPLIT\<rparr>) s1))))"

definition timer_on :: "(real \<Rightarrow> u64 \<Rightarrow> u64) \<Rightarrow> nat \<Rightarrow> real \<Rightarrow> bool \<Rightarrow> tsys \<Rightarrow> tres" where
  "timer_on tk n period start s =
     (if \<not> timer_inited s then Some (Inr s)
      else timer_advance_ex tk n start (upd_timer n (\<lambda>t. t\<lparr>t_period := period\<rparr>) s))"

definition timer_on_auto :: "(real \<Rightarrow> u64 \<Rightarrow> u64) \<Rightarrow> nat \<Rightarrow> real \<Rightarrow> tsys \<Rightarrow> tres" where
  "timer_on_auto tk n period s =
     (if \<not> timer_inited s then Some (Inr s)
      else if period > 0 then
        timer_on tk n period (t_period (timers s n) \<le> 0 \<and> \<not> in_callback (timers s n)) s
      else timer_stop n s)"

section \<open>Running the timers\<close>

type_synonym callbacks = "nat \<Rightarrow> tsys \<Rightarrow> tres"

definition fire :: "(real \<Rightarrow> u64 \<Rightarrow> u64) \<Rightarrow> callbacks \<Rightarrow> nat \<Rightarrow> tsys \<Rightarrow> tres" where
  "fire tk cb n s =
     (if flag TIMER_SPLIT (timers s n) then timer_advance_ex tk n False s
      else if has_callback (timers s n) then
        continue (cb n (upd_timer n (\<lambda>t. t\<lparr>in_callback := True\<rparr>) s))
          (\<lambda>s1. Some (Inr (upd_timer n (\<lambda>t. t\<lparr>in_callback := False\<rparr>) s1)))
      else Some (Inr s))"

partial_function (option) process_loop :: "(real \<Rightarrow> u64 \<Rightarrow> u64) \<Rightarrow> callbacks \<Rightarrow> tsys \<Rightarrow> tres" where
  "process_loop tk cb s =
     (case timer_head s of
        None \<Rightarrow> Some (Inl Null_deref)
      | Some n \<Rightarrow>
          if \<not> val_less (ts_integer (timers s n)) (tsc s) then Some (Inr s)
          else case timer_remove_head s of
                 Inl e \<Rightarrow> Some (Inl e)
               | Inr s1 \<Rightarrow>
                   (case fire tk cb n s1 of
                      None \<Rightarrow> None
                    | Some r \<Rightarrow> (case r of Inl e \<Rightarrow> Some (Inl e) | Inr s2 \<Rightarrow> process_loop tk cb s2)))"

definition timer_process :: "(real \<Rightarrow> u64 \<Rightarrow> u64) \<Rightarrow> callbacks \<Rightarrow> tsys \<Rightarrow> tres" where
  "timer_process tk cb s =
     (if timer_head s = None then Some (Inr s)
      else continue (process_loop tk cb s)
        (\<lambda>s1. case timer_head s1 of
                None \<Rightarrow> Some (Inl Null_deref)
              | Some h \<Rightarrow> Some (Inr (s1\<lparr>timer_target := ts_integer (timers s1 h)\<rparr>))))"

section \<open>Initialisation and change of the time base\<close>

partial_function (option) close_loop :: "nat option \<Rightarrow> tsys \<Rightarrow> tsys option" where
  "close_loop t s =
     (case t of
        None \<Rightarrow> Some s
      | Some r \<Rightarrow>
          (let s1 = upd_timer r (\<lambda>q. q\<lparr>t_prev := None, t_next := None\<rparr>) s
           in close_loop (t_next (timers s1 r)) s1))"

definition timer_close :: "tsys \<Rightarrow> tsys option" where
  "timer_close s = map_option (\<lambda>t. t\<lparr>timer_head := None, timer_inited := False\<rparr>) (close_loop (timer_head s) s)"

definition timer_init :: "tsys \<Rightarrow> tsys" where
  "timer_init s = s\<lparr>timer_target := 0, tsc := 0, timer_inited := True\<rparr>"

definition timer_add :: "nat \<Rightarrow> bool \<Rightarrow> bool \<Rightarrow> tsys \<Rightarrow> tres" where
  "timer_add n callback start_timer s0 =
     (let s = upd_timer n (\<lambda>_. \<lparr>ts_integer = 0, ts_frac = 0, t_flags = 0, in_callback = False,
            t_period = 0, has_callback = callback, t_prev = None, t_next = None\<rparr>) s0
      in if start_timer then timer_set_delay_u64 n 0 s else Some (Inr s))"

partial_function (option) shift_loop :: "u64 \<Rightarrow> nat option \<Rightarrow> tsys \<Rightarrow> tsys option" where
  "shift_loop new_tsc t s =
     (case t of
        None \<Rightarrow> Some s
      | Some n \<Rightarrow>
          (let s1 = upd_timer n (\<lambda>q. q\<lparr>ts_integer := new_tsc + (ts_integer q - tsc s)\<rparr>) s
           in shift_loop new_tsc (t_next (timers s1 n)) s1))"

definition timer_set_new_tsc :: "u64 \<Rightarrow> tsys \<Rightarrow> tsys option" where
  "timer_set_new_tsc new_tsc s =
     (case timer_head s of
        None \<Rightarrow> Some (s\<lparr>tsc := new_tsc\<rparr>)
      | Some h \<Rightarrow>
          map_option (\<lambda>t. t\<lparr>tsc := new_tsc\<rparr>)
            (shift_loop new_tsc (Some h)
              (s\<lparr>timer_target := new_tsc + (ts_integer (timers s h) - tsc s)\<rparr>)))"

end
