(* ===== verification/Timer_List.thy ===== *)
theory Timer_List
  imports Timer
begin

text \<open>
  The doubly linked list of \<open>Timer\<close> as a list of addresses: insertion, removal and removal of the
  head refine the list operations, and every reachable queue is well linked and sorted by expiry.
\<close>

section \<open>Linked segments\<close>

primrec first_or :: "nat option \<Rightarrow> nat list \<Rightarrow> nat option" where
  "first_or q [] = q"
| "first_or q (x # xs) = Some x"

primrec last_or :: "nat option \<Rightarrow> nat list \<Rightarrow> nat option" where
  "last_or p [] = p"
| "last_or p (x # xs) = last_or (Some x) xs"

primrec seg :: "tsys \<Rightarrow> nat option \<Rightarrow> nat list \<Rightarrow> nat option \<Rightarrow> bool" where
  "seg s p [] q = True"
| "seg s p (x # xs) q \<longleftrightarrow>
     t_prev (timers s x) = p \<and> t_next (timers s x) = first_or q xs \<and> seg s (Some x) xs q"

lemma first_or_append [simp]: "first_or q (xs @ ys) = first_or (first_or q ys) xs"
  by (cases xs) simp_all

lemma last_or_append [simp]: "last_or p (xs @ ys) = last_or (last_or p xs) ys"
  by (induction xs arbitrary: p) simp_all

lemma seg_append [simp]:
  "seg s p (xs @ ys) q \<longleftrightarrow> seg s p xs (first_or q ys) \<and> seg s (last_or p xs) ys q"
  by (induction xs arbitrary: p) auto

lemma seg_cong:
  "(\<And>x. x \<in> set xs \<Longrightarrow> t_prev (timers t x) = t_prev (timers s x) \<and> t_next (timers t x) = t_next (timers s x)) \<Longrightarrow>
     seg t p xs q = seg s p xs q"
  by (induction xs arbitrary: p) auto

lemma timers_upd [simp]:
  "timers (upd_timer n f s) m = (if m = n then f (timers s n) else timers s m)"
  "timer_head (upd_timer n f s) = timer_head s" "timer_target (upd_timer n f s) = timer_target s"
  "tsc (upd_timer n f s) = tsc s" "timer_inited (upd_timer n f s) = timer_inited s"
  "TIMER_USEC (upd_timer n f s) = TIMER_USEC s"
  by (simp_all add: upd_timer_def)

text \<open>Redirecting the \<open>next\<close> link of the node before a segment, if there is one, and the
  \<open>prev\<close> link of the node after it.\<close>

lemma last_or_snoc: "last_or p xs = Some l \<longleftrightarrow> (xs = [] \<and> p = Some l) \<or> (\<exists>ys. xs = ys @ [l])"
  by (cases xs rule: rev_cases) auto

lemma last_or_None: "last_or None xs = None \<longleftrightarrow> xs = []"
  by (cases xs rule: rev_cases) auto

definition links :: "tsys \<Rightarrow> nat list \<Rightarrow> bool" where
  "links s xs \<longleftrightarrow> distinct xs \<and> timer_head s = first_or None xs \<and> seg s None xs None \<and>
     (\<forall>n. n \<notin> set xs \<longrightarrow> t_next (timers s n) = None \<and> t_prev (timers s n) = None)"

text \<open>Everything but the links of a timer, and the clock side of the state.\<close>

definition payload :: "pc_timer \<Rightarrow> u64 \<times> u32 \<times> u32 \<times> bool \<times> real \<times> bool" where
  "payload t = (ts_integer t, ts_frac t, t_flags t, in_callback t, t_period t, has_callback t)"

definition same_data :: "tsys \<Rightarrow> tsys \<Rightarrow> bool" where
  "same_data s t \<longleftrightarrow> (\<forall>m. payload (timers t m) = payload (timers s m)) \<and> tsc t = tsc s \<and>
     timer_inited t = timer_inited s \<and> TIMER_USEC t = TIMER_USEC s"

lemma same_dataD:
  assumes "same_data s t"
  shows "ts_integer (timers t m) = ts_integer (timers s m)" "ts_frac (timers t m) = ts_frac (timers s m)"
    "t_flags (timers t m) = t_flags (timers s m)" "in_callback (timers t m) = in_callback (timers s m)"
    "t_period (timers t m) = t_period (timers s m)" "has_callback (timers t m) = has_callback (timers s m)"
    "tsc t = tsc s" "timer_inited t = timer_inited s" "TIMER_USEC t = TIMER_USEC s"
  using assms by (simp_all add: same_data_def payload_def)

lemma same_data_refl [simp]: "same_data s s"
  by (simp add: same_data_def)

lemma same_data_trans: "same_data s t \<Longrightarrow> same_data t u \<Longrightarrow> same_data s u"
  by (simp add: same_data_def)

section \<open>The three list operations\<close>

lemma link_before_links:
  assumes "links s (as @ node # bs)" "n \<notin> set (as @ node # bs)"
  shows "links (link_before n node s) (as @ n # node # bs)"
    and "same_data s (link_before n node s)"
    and "timer_target (link_before n node s) = (if as = [] then ts_integer (timers s n) else timer_target s)"
proof -
  have d: "distinct (as @ node # bs)" and p: "t_prev (timers s node) = last_or None as"
    and seg: "seg s None as (Some node)" "seg s (Some node) bs None" "t_next (timers s node) = first_or None bs"
    using assms(1) by (auto simp: links_def)
  have n: "n \<noteq> node" "n \<notin> set as" "n \<notin> set bs" "node \<notin> set as" "node \<notin> set bs" "set as \<inter> set bs = {}"
    using assms(2) d by auto
  have "links (link_before n node s) (as @ n # node # bs) \<and> same_data s (link_before n node s) \<and>
      timer_target (link_before n node s) = (if as = [] then ts_integer (timers s n) else timer_target s)"
  proof (cases as rule: rev_cases)
    case Nil
    have "seg (link_before n node s) (Some node) bs None"
      using n Nil p seg(2) by (subst seg_cong [of bs _ s]) (auto simp: link_before_def Let_def)
    then show ?thesis
      using assms p n Nil seg by (auto simp: links_def link_before_def Let_def same_data_def payload_def)
  next
    case (snoc cs l)
    have l: "l \<noteq> n" "l \<noteq> node" "l \<notin> set cs" "l \<notin> set bs" using d n snoc by auto
    have "seg (link_before n node s) (Some node) bs None"
      using n snoc p seg(2) l by (subst seg_cong [of bs _ s]) (auto simp: link_before_def Let_def)
    moreover have "seg (link_before n node s) None cs (Some l)"
      using n snoc p seg(1) l d by (subst seg_cong [of cs _ s]) (auto simp: link_before_def Let_def)
    ultimately show ?thesis
      using assms p n snoc seg l by (auto simp: links_def link_before_def Let_def same_data_def payload_def)
  qed
  then show "links (link_before n node s) (as @ n # node # bs)" "same_data s (link_before n node s)"
    "timer_target (link_before n node s) = (if as = [] then ts_integer (timers s n) else timer_target s)"
    by blast+
qed

lemma link_after_links:
  assumes "links s (as @ [node])" "n \<notin> set (as @ [node])"
  shows "links (link_after n node s) (as @ [node, n])" "same_data s (link_after n node s)"
    "timer_target (link_after n node s) = timer_target s"
proof -
  have d: "distinct (as @ [node])" and seg: "seg s None as (Some node)" and p: "t_prev (timers s node) = last_or None as"
    using assms(1) by (auto simp: links_def)
  have "seg (link_after n node s) None as (Some node)"
    using seg d assms(2) by (subst seg_cong [of as _ s]) (auto simp: link_after_def)
  then show "links (link_after n node s) (as @ [node, n])" "same_data s (link_after n node s)"
    "timer_target (link_after n node s) = timer_target s"
    using assms p by (auto simp: links_def link_after_def same_data_def payload_def)
qed

primrec ins :: "tsys \<Rightarrow> nat \<Rightarrow> nat list \<Rightarrow> nat list" where
  "ins s n [] = [n]"
| "ins s n (y # ys) = (if timer_less s n y then n # y # ys else y # ins s n ys)"

lemma enable_loop_links:
  assumes "links s (as @ node # bs)" "n \<notin> set (as @ node # bs)"
  shows "\<exists>t. enable_loop n node s = Some t \<and> links t (as @ ins s n (node # bs)) \<and> same_data s t \<and>
     timer_target t = (if as = [] \<and> timer_less s n node then ts_integer (timers s n) else timer_target s)"
  using assms
proof (induction bs arbitrary: as node)
  case Nil
  have "t_next (timers s node) = None" using Nil(1) by (simp add: links_def)
  then show ?case
    using link_before_links [OF Nil] link_after_links [OF Nil] by (subst enable_loop.simps) simp
next
  case (Cons b bs)
  have nx: "t_next (timers s node) = Some b" using Cons.prems(1) by (simp add: links_def)
  have IH: "\<exists>t. enable_loop n b s = Some t \<and> links t ((as @ [node]) @ ins s n (b # bs)) \<and> same_data s t \<and>
     timer_target t = (if as @ [node] = [] \<and> timer_less s n b then ts_integer (timers s n) else timer_target s)"
    by (rule Cons.IH) (use Cons.prems in simp_all)
  show ?case
  proof (cases "timer_less s n node")
    case True
    then show ?thesis using link_before_links [OF Cons.prems] by (subst enable_loop.simps) simp
  next
    case False
    then show ?thesis using IH nx by (subst enable_loop.simps) simp
  qed
qed

section \<open>Disabling and removing the head\<close>

text \<open>The queue: linked, and the enabled flag set on exactly its members.\<close>

definition queue :: "tsys \<Rightarrow> nat list \<Rightarrow> bool" where
  "queue s xs \<longleftrightarrow> links s xs \<and> (\<forall>n. flag TIMER_ENABLED (timers s n) \<longleftrightarrow> n \<in> set xs)"

lemma flag_words [simp]:
  "(f OR TIMER_ENABLED) AND TIMER_ENABLED \<noteq> 0"
  "(f AND NOT TIMER_ENABLED) AND TIMER_ENABLED = 0"
  "(f OR TIMER_SPLIT) AND TIMER_ENABLED = f AND TIMER_ENABLED"
  "(f AND NOT TIMER_SPLIT) AND TIMER_ENABLED = f AND TIMER_ENABLED"
  "(f OR TIMER_ENABLED) AND TIMER_SPLIT = f AND TIMER_SPLIT"
  "(f AND NOT TIMER_ENABLED) AND TIMER_SPLIT = f AND TIMER_SPLIT"
proof -
  have e: "TIMER_ENABLED = bitmask 0" "TIMER_SPLIT = bitmask 1"
    by (simp_all add: TIMER_ENABLED_def TIMER_SPLIT_def bitmask_def)
  show "(f OR TIMER_ENABLED) AND TIMER_ENABLED \<noteq> 0" unfolding e using tst_set [of 0 f] by (simp add: tst_def)
  show "(f AND NOT TIMER_ENABLED) AND TIMER_ENABLED = 0" unfolding e using tst_clear [of f 0] by (simp add: tst_def)
  show "(f OR TIMER_SPLIT) AND TIMER_ENABLED = f AND TIMER_ENABLED"
    "(f AND NOT TIMER_SPLIT) AND TIMER_ENABLED = f AND TIMER_ENABLED"
    "(f OR TIMER_ENABLED) AND TIMER_SPLIT = f AND TIMER_SPLIT"
    "(f AND NOT TIMER_ENABLED) AND TIMER_SPLIT = f AND TIMER_SPLIT"
    unfolding e by (rule word_eqI_tst, auto simp: tst_or tst_and tst_not tst_bitmask)+
qed

lemma flags_nonzero [simp]: "TIMER_ENABLED \<noteq> 0" "TIMER_SPLIT \<noteq> 0"
  by (simp_all add: TIMER_ENABLED_def TIMER_SPLIT_def)

lemma flag_cong: "t_flags t = t_flags u \<Longrightarrow> flag f t = flag f u"
  by (simp add: flag_def)

text \<open>A state in which only the flags and the callback mark of one timer differ.\<close>

definition off :: "nat \<Rightarrow> tsys \<Rightarrow> tsys" where
  "off n = upd_timer n (\<lambda>t. t\<lparr>t_flags := t_flags t AND NOT TIMER_ENABLED, in_callback := False\<rparr>)"

lemma off_sel [simp]:
  "t_prev (timers (off n s) m) = t_prev (timers s m)" "t_next (timers (off n s) m) = t_next (timers s m)"
  "timer_head (off n s) = timer_head s" "timer_target (off n s) = timer_target s" "tsc (off n s) = tsc s"
  "timer_inited (off n s) = timer_inited s" "TIMER_USEC (off n s) = TIMER_USEC s"
  "ts_integer (timers (off n s) m) = ts_integer (timers s m)" "ts_frac (timers (off n s) m) = ts_frac (timers s m)"
  "t_period (timers (off n s) m) = t_period (timers s m)"
  "has_callback (timers (off n s) m) = has_callback (timers s m)"
  "t_flags (timers (off n s) m) = (if m = n then t_flags (timers s n) AND NOT TIMER_ENABLED else t_flags (timers s m))"
  by (simp_all add: off_def)

lemma links_cong:
  assumes "\<And>m. t_prev (timers t m) = t_prev (timers s m) \<and> t_next (timers t m) = t_next (timers s m)"
    and "timer_head t = timer_head s"
  shows "links t xs = links s xs"
  using assms seg_cong [of xs t s] by (simp add: links_def)

lemma links_off [simp]: "links (off n s) xs = links s xs"
  by (rule links_cong) simp_all

text \<open>Unlinking one node of a linked list.\<close>

definition unlink :: "nat \<Rightarrow> tsys \<Rightarrow> tsys" where
  "unlink n s1 =
     (let s2 = (case t_prev (timers s1 n) of
                    Some p \<Rightarrow> upd_timer p (\<lambda>q. q\<lparr>t_next := t_next (timers s1 n)\<rparr>) s1
                  | None \<Rightarrow> s1\<lparr>timer_head := t_next (timers s1 n)\<rparr>);
            s3 = (case t_next (timers s2 n) of
                    Some m \<Rightarrow> upd_timer m (\<lambda>q. q\<lparr>t_prev := t_prev (timers s2 n)\<rparr>) s2
                  | None \<Rightarrow> s2)
        in upd_timer n (\<lambda>t. t\<lparr>t_prev := None, t_next := None\<rparr>) s3)"

lemma disable_unlink:
  "timer_disable n s = (if \<not> timer_inited s \<or> \<not> flag TIMER_ENABLED (timers s n) then Inr s
      else if t_next (timers s n) = None \<and> t_prev (timers s n) = None \<and> timer_head s \<noteq> Some n then Inl Null_deref
      else Inr (unlink n (off n s)))"
  unfolding timer_disable_def Let_def unlink_def off_def by (rule refl)

lemma unlink_links:
  assumes "links s (as @ n # bs)"
  shows "links (unlink n s) (as @ bs)" "same_data s (unlink n s)" "timer_target (unlink n s) = timer_target s"
proof -
  have d: "distinct (as @ n # bs)" and p: "t_prev (timers s n) = last_or None as" "t_next (timers s n) = first_or None bs"
    and seg: "seg s None as (Some n)" "seg s (Some n) bs None"
    using assms by (auto simp: links_def)
  have out: "m \<notin> set (as @ n # bs) \<Longrightarrow> t_next (timers s m) = None \<and> t_prev (timers s m) = None" for m
    using assms by (auto simp: links_def)
  have e: "links (unlink n s) (as @ bs) \<and> same_data s (unlink n s) \<and> timer_target (unlink n s) = timer_target s"
  proof (cases as rule: rev_cases)
    case Nil
    note N = Nil
    show ?thesis
    proof (cases bs)
      case Nil
      then show ?thesis using assms N p out
        by (auto simp: links_def unlink_def Let_def same_data_def payload_def)
    next
      case (Cons b cs)
      have "seg (unlink n s) (Some b) cs None"
        using d N Cons p seg by (subst seg_cong [of cs _ s]) (auto simp: unlink_def Let_def)
      then show ?thesis using d N Cons p seg out
        by (auto simp: links_def unlink_def Let_def same_data_def payload_def)
    qed
  next
    case (snoc ds l)
    note N = snoc
    show ?thesis
    proof (cases bs)
      case Nil
      have "seg (unlink n s) None ds (Some l)"
        using d N Nil p seg by (subst seg_cong [of ds _ s]) (auto simp: unlink_def Let_def)
      then show ?thesis using d N Nil p seg out assms
        by (auto simp: links_def unlink_def Let_def same_data_def payload_def)
    next
      case (Cons b cs)
      have "seg (unlink n s) (Some b) cs None"
        using d N Cons p seg by (subst seg_cong [of cs _ s]) (auto simp: unlink_def Let_def)
      moreover have "seg (unlink n s) None ds (Some l)"
        using d N Cons p seg by (subst seg_cong [of ds _ s]) (auto simp: unlink_def Let_def)
      ultimately show ?thesis using d N Cons p seg out assms
        by (auto simp: links_def unlink_def Let_def same_data_def payload_def)
    qed
  qed
  then show "links (unlink n s) (as @ bs)" "same_data s (unlink n s)" "timer_target (unlink n s) = timer_target s"
    by blast+
qed

lemma queue_split:
  assumes "queue s xs" "n \<in> set xs"
  obtains as bs where "xs = as @ n # bs" "n \<notin> set as" "n \<notin> set bs" "remove1 n xs = as @ bs"
proof -
  obtain as bs where xs: "xs = as @ n # bs" "n \<notin> set as" using split_list_first [OF assms(2)] by blast
  have "n \<notin> set bs" using assms(1) xs(1) by (auto simp: queue_def links_def)
  then show thesis using that xs by (simp add: remove1_append)
qed

lemma disable_queue:
  assumes "queue s xs" "timer_inited s"
  obtains t where "timer_disable n s = Inr t" "queue t (remove1 n xs)" "timer_target t = timer_target s"
    "\<And>m. ts_integer (timers t m) = ts_integer (timers s m)" "tsc t = tsc s" "timer_inited t"
    "\<And>m. m \<noteq> n \<Longrightarrow> payload (timers t m) = payload (timers s m)" "n \<notin> set xs \<Longrightarrow> t = s"
    "ts_frac (timers t n) = ts_frac (timers s n)" "TIMER_USEC t = TIMER_USEC s"
    "t_period (timers t n) = t_period (timers s n)" "has_callback (timers t n) = has_callback (timers s n)"
    "flag TIMER_SPLIT (timers t n) = flag TIMER_SPLIT (timers s n)"
proof (cases "n \<in> set xs")
  case False
  then have "\<not> flag TIMER_ENABLED (timers s n)" using assms(1) by (simp add: queue_def)
  then have "timer_disable n s = Inr s" by (simp add: disable_unlink)
  then show thesis using False assms by (intro that [of s]) (simp_all add: remove1_idem)
next
  case True
  from queue_split [OF assms(1) True] obtain as bs where xs: "xs = as @ n # bs" "n \<notin> set as" "n \<notin> set bs"
    "remove1 n xs = as @ bs" .
  have l: "links (off n s) (as @ n # bs)" using assms(1) xs(1) by (simp add: queue_def)
  note u = unlink_links [OF l] and sd = same_dataD [OF unlink_links(2) [OF l]]
  have nn: "\<not> (t_next (timers s n) = None \<and> t_prev (timers s n) = None \<and> timer_head s \<noteq> Some n)"
    using assms(1) xs(1) by (cases as rule: rev_cases) (auto simp: queue_def links_def)
  have en: "flag TIMER_ENABLED (timers s n)" using assms(1) True by (simp add: queue_def)
  have "timer_disable n s = Inr (unlink n (off n s))" using nn en assms(2) by (simp add: disable_unlink)
  moreover have "flag TIMER_ENABLED (timers (unlink n (off n s)) m) \<longleftrightarrow> m \<in> set (as @ bs)" for m
  proof -
    have "flag TIMER_ENABLED (timers (unlink n (off n s)) m) = flag TIMER_ENABLED (timers (off n s) m)"
      by (rule flag_cong) (rule sd)
    also have "\<dots> \<longleftrightarrow> m \<noteq> n \<and> flag TIMER_ENABLED (timers s m)" by (simp add: flag_def)
    also have "\<dots> \<longleftrightarrow> m \<in> set (as @ bs)" using assms(1) xs by (auto simp: queue_def)
    finally show ?thesis .
  qed
  ultimately show thesis
    using u(1,3) sd assms(2) True xs(4)
    by (intro that [of "unlink n (off n s)"]) (simp_all add: queue_def payload_def flag_def, simp add: off_def)
qed

lemma ins_cong:
  "(\<And>m. ts_integer (timers t m) = ts_integer (timers s m)) \<Longrightarrow> ins t n xs = ins s n xs"
  by (induction xs) (simp_all add: timer_less_def)

lemma set_ins [simp]: "set (ins s n xs) = insert n (set xs)"
  by (induction xs) auto

lemma ins_not_Nil [simp]: "ins s n xs \<noteq> []"
  by (cases xs) simp_all

lemma hd_ins: "hd (ins s n xs) = (if xs = [] \<or> timer_less s n (hd xs) then n else hd xs)"
  by (cases xs) simp_all

definition on :: "nat \<Rightarrow> tsys \<Rightarrow> tsys" where
  "on n = upd_timer n (\<lambda>t. t\<lparr>t_flags := t_flags t OR TIMER_ENABLED\<rparr>)"

lemma on_sel [simp]:
  "t_prev (timers (on n s) m) = t_prev (timers s m)" "t_next (timers (on n s) m) = t_next (timers s m)"
  "timer_head (on n s) = timer_head s" "timer_target (on n s) = timer_target s" "tsc (on n s) = tsc s"
  "timer_inited (on n s) = timer_inited s" "TIMER_USEC (on n s) = TIMER_USEC s"
  "ts_integer (timers (on n s) m) = ts_integer (timers s m)" "ts_frac (timers (on n s) m) = ts_frac (timers s m)"
  "t_period (timers (on n s) m) = t_period (timers s m)" "in_callback (timers (on n s) m) = in_callback (timers s m)"
  "has_callback (timers (on n s) m) = has_callback (timers s m)"
  "t_flags (timers (on n s) m) = (if m = n then t_flags (timers s n) OR TIMER_ENABLED else t_flags (timers s m))"
  by (simp_all add: on_def)

lemma links_on [simp]: "links (on n s) xs = links s xs"
  by (rule links_cong) simp_all

text \<open>What enabling an unlinked timer does to the queue.\<close>

lemma enable_unlinked:
  assumes "queue s xs" "n \<notin> set xs"
  obtains t where "timer_enable n s = Some (Inr t)" "queue t (ins s n xs)" "same_data (on n s) t"
    "timer_target t = (if hd (ins s n xs) = n then ts_integer (timers s n) else timer_target s)"
proof -
  have l: "links (on n s) xs" using assms(1) by (simp add: queue_def)
  have nl: "t_next (timers s n) = None" "t_prev (timers s n) = None"
    and nf: "\<not> flag TIMER_ENABLED (timers s n)"
    using assms by (auto simp: queue_def links_def)
  have q: "queue t (ins s n xs)" if "links t (ins s n xs)" "same_data (on n s) t" for t
    using assms(1) that(1) same_dataD(3) [OF that(2)] by (auto simp: queue_def flag_def)
  have e: "timer_enable n s = (case timer_head s of
        None \<Rightarrow> Some (Inr ((upd_timer n (\<lambda>t. t\<lparr>t_next := None, t_prev := None\<rparr>) (on n s))
                 \<lparr>timer_head := Some n, timer_target := ts_integer (timers (on n s) n)\<rparr>))
      | Some h \<Rightarrow> map_option Inr (enable_loop n h (on n s)))"
    using nf nl unfolding timer_enable_def Let_def on_def by simp
  show thesis
  proof (cases xs)
    case Nil
    let ?t = "(upd_timer n (\<lambda>t. t\<lparr>t_next := None, t_prev := None\<rparr>) (on n s))
                 \<lparr>timer_head := Some n, timer_target := ts_integer (timers (on n s) n)\<rparr>"
    have h: "timer_head s = None" using assms(1) Nil by (simp add: queue_def links_def)
    have sd: "same_data (on n s) ?t" by (simp add: same_data_def payload_def)
    have "links ?t (ins s n xs)" using l Nil by (simp add: links_def)
    from q [OF this sd] show thesis using e h Nil sd by (intro that [of ?t]) simp_all
  next
    case (Cons h ys)
    have h: "timer_head s = Some h" using assms(1) Cons by (simp add: queue_def links_def)
    from enable_loop_links [of "on n s" "[]" h ys n] l assms(2) Cons
    obtain t where t: "enable_loop n h (on n s) = Some t" "links t (ins (on n s) n (h # ys))" "same_data (on n s) t"
      "timer_target t = (if timer_less (on n s) n h then ts_integer (timers s n) else timer_target s)" by auto
    have i: "ins (on n s) n (h # ys) = ins s n xs" unfolding Cons by (rule ins_cong) simp
    have g: "timer_less (on n s) n h = (hd (ins s n xs) = n)"
      using assms(2) Cons by (auto simp: timer_less_def)
    show thesis using e h t q [of t] unfolding i g by (intro that [of t]) simp_all
  qed
qed

lemma enable_queue:
  assumes "queue s xs" "timer_inited s"
  obtains t where "timer_enable n s = Some (Inr t)" "queue t (ins s n (remove1 n xs))"
    "timer_target t = (if hd (ins s n (remove1 n xs)) = n then ts_integer (timers s n) else timer_target s)"
    "\<And>m. ts_integer (timers t m) = ts_integer (timers s m)" "tsc t = tsc s" "timer_inited t"
    "\<And>m. m \<noteq> n \<Longrightarrow> payload (timers t m) = payload (timers s m)" "TIMER_USEC t = TIMER_USEC s"
    "ts_frac (timers t n) = ts_frac (timers s n)" "t_period (timers t n) = t_period (timers s n)"
    "has_callback (timers t n) = has_callback (timers s n)"
    "flag TIMER_SPLIT (timers t n) = flag TIMER_SPLIT (timers s n)"
proof -
  from disable_queue [OF assms, of n] obtain u where u: "timer_disable n s = Inr u" "queue u (remove1 n xs)"
    "timer_target u = timer_target s" "\<And>m. ts_integer (timers u m) = ts_integer (timers s m)" "tsc u = tsc s"
    "timer_inited u" "\<And>m. m \<noteq> n \<Longrightarrow> payload (timers u m) = payload (timers s m)" "n \<notin> set xs \<Longrightarrow> u = s"
    "ts_frac (timers u n) = ts_frac (timers s n)" "TIMER_USEC u = TIMER_USEC s"
    "t_period (timers u n) = t_period (timers s n)" "has_callback (timers u n) = has_callback (timers s n)"
    "flag TIMER_SPLIT (timers u n) = flag TIMER_SPLIT (timers s n)" by blast
  have nu: "n \<notin> set (remove1 n xs)" using assms(1) by (simp add: queue_def links_def)
  from enable_unlinked [OF u(2) nu] obtain t where t: "timer_enable n u = Some (Inr t)"
    "queue t (ins u n (remove1 n xs))" "same_data (on n u) t"
    "timer_target t = (if hd (ins u n (remove1 n xs)) = n then ts_integer (timers u n) else timer_target u)" .
  have i: "ins u n (remove1 n xs) = ins s n (remove1 n xs)" by (rule ins_cong) (rule u(4))
  have "\<not> flag TIMER_ENABLED (timers u n)" using u(2) nu by (simp add: queue_def)
  then have e: "timer_enable n s = timer_enable n u"
    using u(1,8) assms(1) by (auto simp: timer_enable_def queue_def)
  show thesis
    using t u e unfolding i
    by (intro that [of t]) (simp_all add: same_dataD [OF t(3)] payload_def flag_def)
qed

lemma remove_head_queue:
  assumes "queue s (n # m # xs)"
  obtains t where "timer_remove_head s = Inr t" "queue t (m # xs)" "timer_target t = timer_target s"
    "\<And>k. ts_integer (timers t k) = ts_integer (timers s k)" "tsc t = tsc s" "timer_inited t = timer_inited s"
    "\<And>k. k \<noteq> n \<Longrightarrow> payload (timers t k) = payload (timers s k)" "TIMER_USEC t = TIMER_USEC s"
    "ts_frac (timers t n) = ts_frac (timers s n)" "t_period (timers t n) = t_period (timers s n)"
    "has_callback (timers t n) = has_callback (timers s n)"
    "flag TIMER_SPLIT (timers t n) = flag TIMER_SPLIT (timers s n)"
proof -
  let ?t = "upd_timer n (\<lambda>t. t\<lparr>t_next := None, t_prev := None, t_flags := t_flags t AND NOT TIMER_ENABLED\<rparr>)
      (upd_timer m (\<lambda>t. t\<lparr>t_prev := None\<rparr>) (s\<lparr>timer_head := Some m\<rparr>))"
  have d: "n \<noteq> m" "n \<notin> set xs" "m \<notin> set xs" "distinct xs" and h: "timer_head s = Some n" "t_next (timers s n) = Some m"
    and seg: "seg s (Some m) xs None" "t_next (timers s m) = first_or None xs"
    and out: "\<And>k. k \<notin> set (n # m # xs) \<Longrightarrow> t_next (timers s k) = None \<and> t_prev (timers s k) = None"
    and fl: "\<And>k. flag TIMER_ENABLED (timers s k) \<longleftrightarrow> k \<in> set (n # m # xs)"
    using assms by (auto simp: queue_def links_def)
  have r: "timer_remove_head s = Inr ?t" using h by (simp add: timer_remove_head_def)
  have "seg ?t (Some m) xs None" using seg d by (subst seg_cong [of xs _ s]) auto
  then have "links ?t (m # xs)" using d seg out by (simp add: links_def)
  moreover have "flag TIMER_ENABLED (timers ?t k) \<longleftrightarrow> k \<in> set (m # xs)" for k
    using fl [of k] d by (auto simp: flag_def)
  ultimately have "queue ?t (m # xs)" by (simp only: queue_def) blast
  then show thesis using r d by (intro that [of ?t]) (simp_all add: payload_def flag_def)
qed

end
