(* ===== verification/Timer_Order.thy ===== *)
theory Timer_Order
  imports Timer_List
begin

text \<open>
  The timer queue in time: timestamps within half of the 64-bit range of the clock are ordered by
  the signed distance to the clock, enabling is sorted insertion, and in every reachable state the
  head is the timer due first and \<open>timer_target\<close> is not later than it, so that the CPU's one test
  against \<open>timer_target\<close> misses no expired timer.
\<close>

section \<open>Distances to the clock\<close>

definition dist_to :: "tsys \<Rightarrow> u64 \<Rightarrow> int" where
  "dist_to s v = sint (v - tsc s)"

definition near :: "tsys \<Rightarrow> u64 \<Rightarrow> bool" where
  "near s v \<longleftrightarrow> - (2 ^ 62) \<le> dist_to s v \<and> dist_to s v < 2 ^ 62"

definition key :: "tsys \<Rightarrow> nat \<Rightarrow> int" where
  "key s n = dist_to s (ts_integer (timers s n))"

abbreviation near_timer :: "tsys \<Rightarrow> nat \<Rightarrow> bool" where
  "near_timer s n \<equiv> near s (ts_integer (timers s n))"

lemma sint_sub:
  assumes "- (2 ^ 63) \<le> sint a - sint b" "sint a - sint b < 2 ^ 63"
  shows "sint (a - b :: u64) = sint a - sint b"
proof -
  have "sint (a - b) = signed_take_bit 63 (sint a - sint b)" by (simp add: sint_word_ariths)
  then show ?thesis using assms by (simp add: signed_take_bit_int_eq_self)
qed

lemma sint_add:
  assumes "- (2 ^ 63) \<le> sint a + sint b" "sint a + sint b < 2 ^ 63"
  shows "sint (a + b :: u64) = sint a + sint b"
proof -
  have "sint (a + b) = signed_take_bit 63 (sint a + sint b)" by (simp add: sint_word_ariths)
  then show ?thesis using assms by (simp add: signed_take_bit_int_eq_self)
qed

lemma near_diff:
  assumes "near s a" "near s b" shows "sint (a - b) = dist_to s a - dist_to s b"
proof -
  have "a - b = (a - tsc s) - (b - tsc s)" by simp
  then show ?thesis using assms sint_sub [of "a - tsc s" "b - tsc s"] by (simp add: near_def dist_to_def)
qed

lemma val_less_near: "near s a \<Longrightarrow> near s b \<Longrightarrow> val_less a b \<longleftrightarrow> dist_to s a \<le> dist_to s b"
  by (simp add: val_less_def near_diff)

lemma val_less_now: "val_less a (tsc s) \<longleftrightarrow> dist_to s a \<le> 0"
  by (simp add: val_less_def dist_to_def)

lemma timer_less_key: "near_timer s a \<Longrightarrow> near_timer s b \<Longrightarrow> timer_less s a b \<longleftrightarrow> key s a \<le> key s b"
  by (simp add: timer_less_def val_less_near key_def)

lemma ins_insort:
  "near_timer s n \<Longrightarrow> (\<And>x. x \<in> set xs \<Longrightarrow> near_timer s x) \<Longrightarrow> ins s n xs = insort_key (key s) n xs"
  by (induction xs) (auto simp: timer_less_key)

lemma dist_cong: "tsc t = tsc s \<Longrightarrow> dist_to t v = dist_to s v"
  by (simp add: dist_to_def)

lemma near_cong: "tsc t = tsc s \<Longrightarrow> near t v = near s v"
  by (simp add: near_def dist_to_def)

lemma key_cong: "tsc t = tsc s \<Longrightarrow> ts_integer (timers t n) = ts_integer (timers s n) \<Longrightarrow> key t n = key s n"
  by (simp add: key_def dist_to_def)

section \<open>The invariant\<close>

definition timer_inv :: "tsys \<Rightarrow> nat list \<Rightarrow> bool" where
  "timer_inv s xs \<longleftrightarrow> queue s xs \<and> timer_inited s \<and> (\<forall>x \<in> set xs. near_timer s x) \<and>
     sorted (map (key s) xs) \<and> (\<forall>x \<in> set xs. near s (timer_target s) \<and> dist_to s (timer_target s) \<le> key s x)"

lemma sorted_map_cong: "(\<And>x. x \<in> set xs \<Longrightarrow> f x = g x) \<Longrightarrow> sorted (map f xs) = sorted (map g xs)"
  by (simp cong: map_cong)

text \<open>A timer given a new timestamp, its links and flags kept.\<close>

lemma queue_retime:
  assumes "queue s xs"
    and "\<And>t. t_prev (f t) = t_prev t \<and> t_next (f t) = t_next t \<and> t_flags (f t) AND TIMER_ENABLED = t_flags t AND TIMER_ENABLED"
  shows "queue (upd_timer n f s) xs"
proof -
  have "links (upd_timer n f s) xs = links s xs" by (rule links_cong) (use assms(2) in auto)
  moreover have "flag TIMER_ENABLED (timers (upd_timer n f s) m) = flag TIMER_ENABLED (timers s m)" for m
    using assms(2) [of "timers s n"] by (simp add: flag_def)
  ultimately show ?thesis using assms(1) by (simp add: queue_def)
qed

lemma arm_inv:
  assumes "timer_inv s xs" and f: "\<And>t. t_prev (f t) = t_prev t \<and> t_next (f t) = t_next t \<and> t_flags (f t) = t_flags t"
    and nr: "near s (ts_integer (f (timers s n)))"
  obtains t where "timer_enable n (upd_timer n f s) = Some (Inr t)"
    "timer_inv t (insort_key (key t) n (remove1 n xs))" "tsc t = tsc s"
    "ts_integer (timers t n) = ts_integer (f (timers s n))"
    "\<And>m. m \<noteq> n \<Longrightarrow> payload (timers t m) = payload (timers s m)" "TIMER_USEC t = TIMER_USEC s"
    "has_callback (timers t n) = has_callback (f (timers s n))"
    "flag TIMER_SPLIT (timers t n) = flag TIMER_SPLIT (f (timers s n))"
    "t_period (timers t n) = t_period (f (timers s n))" "ts_frac (timers t n) = ts_frac (f (timers s n))"
proof -
  define u where "u = upd_timer n f s"
  let ?u = u and ?r = "remove1 n xs"
  have q: "queue s xs" and i: "timer_inited s" and nx: "\<And>x. x \<in> set xs \<Longrightarrow> near_timer s x"
    and so: "sorted (map (key s) xs)"
    and tg: "\<And>x. x \<in> set xs \<Longrightarrow> near s (timer_target s) \<and> dist_to s (timer_target s) \<le> key s x"
    using assms(1) by (auto simp: timer_inv_def)
  have qu: "queue u xs" unfolding u_def by (rule queue_retime [OF q]) (simp add: f)
  have u: "timer_inited u" "tsc u = tsc s" "TIMER_USEC u = TIMER_USEC s" "timer_target u = timer_target s"
    "timers u n = f (timers s n)" "\<And>m. m \<noteq> n \<Longrightarrow> timers u m = timers s m" using i by (simp_all add: u_def)
  from enable_queue [OF qu u(1), of n] obtain t where e: "timer_enable n u = Some (Inr t)" "queue t (ins u n ?r)"
    "timer_target t = (if hd (ins u n ?r) = n then ts_integer (timers u n) else timer_target u)"
    "\<And>m. ts_integer (timers t m) = ts_integer (timers u m)" "tsc t = tsc u" "timer_inited t"
    "\<And>m. m \<noteq> n \<Longrightarrow> payload (timers t m) = payload (timers u m)" "TIMER_USEC t = TIMER_USEC u"
    "ts_frac (timers t n) = ts_frac (timers u n)" "t_period (timers t n) = t_period (timers u n)"
    "has_callback (timers t n) = has_callback (timers u n)"
    "flag TIMER_SPLIT (timers t n) = flag TIMER_SPLIT (timers u n)" by blast
  note t = e [unfolded u(2-4)]
  have dx: "distinct xs" using q by (simp add: queue_def links_def)
  have r: "x \<in> set ?r \<Longrightarrow> x \<noteq> n \<and> x \<in> set xs" for x using dx by auto
  have nt: "near_timer t x" if "x = n \<or> x \<in> set ?r" for x
    using that nr nx r [of x] t(4) [of x] near_cong [OF t(5)] u(5,6) by (cases "x = n") auto
  have kx: "key t x = key s x" if "x \<in> set ?r" for x
    by (rule key_cong) (use r [OF that] t(4,5) u(6) in simp_all)
  have ii: "ins ?u n ?r = insort_key (key t) n ?r"
    using ins_insort [of t n ?r] nt ins_cong [of t ?u n ?r] t(4) by auto
  have st: "sorted (map (key t) ?r)"
    using sorted_map_remove1 [OF so] kx sorted_map_cong [of ?r "key t" "key s"] by simp
  have si: "sorted (map (key t) (insort_key (key t) n ?r))"
    using st by (simp add: sorted_insort_key)
  have target: "near t (timer_target t) \<and> dist_to t (timer_target t) \<le> key t x"
    if x: "x \<in> set (insort_key (key t) n ?r)" for x
  proof (cases "hd (ins ?u n ?r) = n")
    case True
    then have "key t n \<le> key t x" using si x unfolding ii
      by (cases "insort_key (key t) n ?r") auto
    then show ?thesis using True t(3) nt [of n] t(4) [of n] by (simp add: key_def)
  next
    case False
    then have tt: "timer_target t = timer_target s" using t(3) by simp
    define y where "y = hd (ins ?u n ?r)"
    have y: "y \<in> set ?r"
      using False hd_in_set [of "ins ?u n ?r"] by (auto simp: y_def simp del: hd_in_set)
    have "key t y \<le> key t x" using si x unfolding y_def ii by (cases "insort_key (key t) n ?r") auto
    moreover have "near s (timer_target s)" "dist_to s (timer_target s) \<le> key t y"
      using tg [of y] r [OF y] kx [OF y] by auto
    ultimately show ?thesis unfolding tt using near_cong [OF t(5)] dist_cong [OF t(5)] by auto
  qed
  have "timer_inv t (insort_key (key t) n ?r)"
    unfolding timer_inv_def using t(2,6) ii si target nt by (auto simp: set_insort_key)
  then show thesis using t u(5,6) by (intro that [of t]) (simp_all add: u_def)
qed

text \<open>Steps that take timers out of the queue, or leave it and the clock alone.\<close>

lemma timer_inv_sub:
  assumes "timer_inv s xs" "queue t ys" "set ys \<subseteq> set xs" "sorted (map (key s) ys)" "tsc t = tsc s"
    "timer_inited t" "timer_target t = timer_target s" "\<And>m. ts_integer (timers t m) = ts_integer (timers s m)"
  shows "timer_inv t ys"
proof -
  have k: "key t = key s" using key_cong [OF assms(5)] assms(8) by blast
  have n: "near t = near s" "dist_to t = dist_to s" using near_cong [OF assms(5)] dist_cong [OF assms(5)] by blast+
  show ?thesis using assms(1-4,6-8) unfolding timer_inv_def k n by auto
qed

lemma disable_inv:
  assumes "timer_inv s xs"
  shows "\<exists>t. timer_disable n s = Inr t \<and> timer_inv t (remove1 n xs) \<and> TIMER_USEC t = TIMER_USEC s"
proof -
  have q: "queue s xs" "timer_inited s" and so: "sorted (map (key s) xs)" using assms by (simp_all add: timer_inv_def)
  obtain t where t: "timer_disable n s = Inr t" "queue t (remove1 n xs)"
    "timer_target t = timer_target s" "\<And>m. ts_integer (timers t m) = ts_integer (timers s m)" "tsc t = tsc s"
    "timer_inited t" "TIMER_USEC t = TIMER_USEC s" by (rule disable_queue [OF q, of n]) (rule that)
  have "timer_inv t (remove1 n xs)"
    by (rule timer_inv_sub [OF assms t(2) set_remove1_subset sorted_map_remove1 [OF so] t(5,6,3,4)])
  with t(1,7) show ?thesis by blast
qed

lemma remove_head_inv:
  assumes "timer_inv s (n # m # xs)"
  shows "\<exists>t. timer_remove_head s = Inr t \<and> timer_inv t (m # xs) \<and> TIMER_USEC t = TIMER_USEC s \<and> tsc t = tsc s \<and>
    (\<forall>k. ts_integer (timers t k) = ts_integer (timers s k))"
proof -
  have q: "queue s (n # m # xs)" "timer_inited s" "sorted (map (key s) (m # xs))" using assms by (simp_all add: timer_inv_def)
  obtain t where t: "timer_remove_head s = Inr t" "queue t (m # xs)"
    "timer_target t = timer_target s" "\<And>k. ts_integer (timers t k) = ts_integer (timers s k)" "tsc t = tsc s"
    "timer_inited t = timer_inited s" "TIMER_USEC t = TIMER_USEC s" by (rule remove_head_queue [OF q(1)]) (rule that)
  have "timer_inv t (m # xs)"
    by (rule timer_inv_sub [OF assms t(2) _ q(3) t(5) _ t(3,4)]) (use t(6) q(2) in auto)
  with t(1,4,5,7) show ?thesis by blast
qed

lemma mark_inv:
  assumes "timer_inv s xs" and "\<And>t. t_prev (f t) = t_prev t \<and> t_next (f t) = t_next t \<and>
      t_flags (f t) AND TIMER_ENABLED = t_flags t AND TIMER_ENABLED \<and> ts_integer (f t) = ts_integer t"
  shows "timer_inv (upd_timer n f s) xs"
proof (rule timer_inv_sub [OF assms(1)])
  show "queue (upd_timer n f s) xs"
    by (rule queue_retime) (use assms in \<open>auto simp: timer_inv_def\<close>)
qed (use assms in \<open>auto simp: timer_inv_def\<close>)

text \<open>Time passes: the order of two timestamps does not depend on the clock they are compared on.\<close>

lemma pass_inv:
  assumes "timer_inv s xs" and "\<And>x. x \<in> set xs \<Longrightarrow> near (s\<lparr>tsc := c\<rparr>) (ts_integer (timers s x))"
    and "xs \<noteq> [] \<Longrightarrow> near (s\<lparr>tsc := c\<rparr>) (timer_target s)"
  shows "timer_inv (s\<lparr>tsc := c\<rparr>) xs"
proof -
  let ?t = "s\<lparr>tsc := c\<rparr>"
  have ord: "dist_to ?t a \<le> dist_to ?t b \<longleftrightarrow> dist_to s a \<le> dist_to s b"
    if "near s a" "near s b" "near ?t a" "near ?t b" for a b
    using val_less_near [OF that(1,2)] val_less_near [OF that(3,4)] by simp
  have q: "queue ?t xs" using assms(1) by (simp add: timer_inv_def queue_def links_def seg_cong [of xs ?t s])
  have so: "sorted (map (key s) xs)" and nx: "\<And>x. x \<in> set xs \<Longrightarrow> near_timer s x"
    and tg: "\<And>x. x \<in> set xs \<Longrightarrow> near s (timer_target s) \<and> dist_to s (timer_target s) \<le> key s x"
    using assms(1) by (auto simp: timer_inv_def)
  have "sorted_wrt (\<lambda>x y. key s x \<le> key s y) xs" using so by (simp add: sorted_map)
  then have "sorted_wrt (\<lambda>x y. key ?t x \<le> key ?t y) xs"
    by (rule sorted_wrt_mono_rel [rotated]) (use ord nx assms(2) in \<open>auto simp: key_def\<close>)
  then have "sorted (map (key ?t) xs)" by (simp add: sorted_map)
  moreover have "near ?t (timer_target s) \<and> dist_to ?t (timer_target s) \<le> key ?t x" if "x \<in> set xs" for x
  proof -
    have "xs \<noteq> []" using that by auto
    then show ?thesis
      using tg [OF that] assms(2) [OF that] assms(3) nx [OF that] ord [of "timer_target s" "ts_integer (timers s x)"]
      by (simp add: key_def)
  qed
  ultimately show ?thesis using assms q by (auto simp: timer_inv_def)
qed

lemma shift_loop_shifts:
  assumes "distinct xs" "seg s p xs None"
  shows "\<exists>t. shift_loop v (first_or None xs) s = Some t \<and> timer_head t = timer_head s \<and>
     timer_target t = timer_target s \<and> tsc t = tsc s \<and> timer_inited t = timer_inited s \<and> TIMER_USEC t = TIMER_USEC s \<and>
     (\<forall>m. timers t m = (if m \<in> set xs
        then (timers s m)\<lparr>ts_integer := v + (ts_integer (timers s m) - tsc s)\<rparr> else timers s m))"
  using assms
proof (induction xs arbitrary: s p)
  case Nil
  then show ?case by (subst shift_loop.simps) simp
next
  case (Cons x xs)
  let ?u = "upd_timer x (\<lambda>q. q\<lparr>ts_integer := v + (ts_integer q - tsc s)\<rparr>) s"
  have "seg ?u (Some x) xs None" using Cons.prems by (subst seg_cong [of xs _ s]) auto
  from Cons.IH [OF _ this] Cons.prems show ?case
    by (subst shift_loop.simps) (auto simp: Let_def)
qed

lemma rebase_inv:
  assumes "timer_inv s xs"
  shows "\<exists>t. timer_set_new_tsc v s = Some t \<and> timer_inv t xs \<and> tsc t = v \<and> TIMER_USEC t = TIMER_USEC s \<and>
     (\<forall>x \<in> set xs. ts_integer (timers t x) - v = ts_integer (timers s x) - tsc s) \<and>
     (\<forall>x. x \<notin> set xs \<longrightarrow> timers t x = timers s x)"
proof (cases xs)
  case Nil
  have "queue (s\<lparr>tsc := v\<rparr>) xs" using assms by (simp add: timer_inv_def queue_def links_def seg_cong [of xs "s\<lparr>tsc := v\<rparr>" s])
  then show ?thesis using assms Nil by (simp add: timer_set_new_tsc_def timer_inv_def queue_def links_def)
next
  case (Cons h ys)
  define u where "u = s\<lparr>timer_target := v + (ts_integer (timers s h) - tsc s)\<rparr>"
  have h: "timer_head s = Some h" "distinct xs" "seg s None xs None" using assms Cons by (auto simp: timer_inv_def queue_def links_def)
  have "seg u None xs None" using h(3) by (subst seg_cong [of xs _ s]) (auto simp: u_def)
  from shift_loop_shifts [OF h(2) this, of v] obtain w where
    w: "shift_loop v (Some h) u = Some w" "timer_head w = Some h" "timer_target w = v + (ts_integer (timers s h) - tsc s)"
      "timer_inited w = timer_inited s" "TIMER_USEC w = TIMER_USEC s"
      "\<And>m. timers w m = (if m \<in> set xs then (timers s m)\<lparr>ts_integer := v + (ts_integer (timers s m) - tsc s)\<rparr> else timers s m)"
    using Cons h(1) by (auto simp: u_def)
  define t where "t = w\<lparr>tsc := v\<rparr>"
  have e: "timer_set_new_tsc v s = Some t" using h(1) w(1) by (simp add: timer_set_new_tsc_def u_def t_def)
  have d: "dist_to t (ts_integer (timers t x)) = dist_to s (ts_integer (timers s x))" if "x \<in> set xs" for x
    using that w(6) by (simp add: dist_to_def t_def)
  then have k: "key t x = key s x" "near_timer t x = near_timer s x" if "x \<in> set xs" for x
    using that by (simp_all add: key_def near_def)
  have tt: "dist_to t (timer_target t) = key s h" using w(3) by (simp add: dist_to_def t_def key_def)
  have "links t xs = links s xs"
    by (rule links_cong) (use w(2,6) h(1) in \<open>simp_all add: t_def\<close>)
  then have q: "queue t xs"
    using assms w(6) by (simp add: timer_inv_def queue_def t_def flag_def)
  have so: "sorted (map (key t) xs)" using assms k(1) by (simp add: timer_inv_def cong: map_cong)
  have hx: "h \<in> set xs" "near_timer s h" using assms Cons by (auto simp: timer_inv_def)
  have "key s h \<le> key s x" if "x \<in> set xs" for x using assms Cons that by (auto simp: timer_inv_def)
  then have "timer_inv t xs"
    unfolding timer_inv_def using q so k assms w(4) tt hx by (auto simp: timer_inv_def t_def near_def key_def)
  then show ?thesis using e w(5,6) by (auto simp: t_def)
qed

section \<open>Delays\<close>

lemma int_delay_scast: "int_delay d = scast (ucast (drop_bit 32 d) :: u32)"
proof -
  have b31: "(drop_bit 32 d AND 0x0000000080000000 \<noteq> 0) = bit d 63"
  proof -
    have "(0x80000000 :: u64) = bitmask 31" by (simp add: bitmask_def)
    then show ?thesis using tst_iff_bit [of "drop_bit 32 d" 31] by (simp add: tst_def bit_drop_bit_eq)
  qed
  have hi: "bit (0xffffffff00000000 :: u64) k \<longleftrightarrow> 32 \<le> k \<and> k < 64" for k
  proof -
    have e: "(0xffffffff00000000 :: u64) = push_bit 32 (mask 32)" by (simp add: mask_eq_exp_minus_1)
    show ?thesis unfolding e by (simp only: bit_push_bit_iff bit_mask_iff) auto
  qed
  show ?thesis
  proof (rule bit_word_eqI)
    fix k assume k: "k < LENGTH(64)"
    have "bit (scast (ucast (drop_bit 32 d) :: u32) :: u64) k \<longleftrightarrow> bit d (32 + min 31 k)"
      using k by (auto simp: bit_signed_iff bit_ucast_iff bit_drop_bit_eq)
    moreover have "bit (int_delay d) k \<longleftrightarrow> bit d (32 + min 31 k)"
    proof -
      have e: "bit (int_delay d) k \<longleftrightarrow> bit d (32 + k) \<or> (bit d 63 \<and> 32 \<le> k)"
        unfolding int_delay_def Let_def b31 using k hi [of k]
        by (simp only: bit_or_iff bit_drop_bit_eq comp_apply split: if_splits) auto
      have z: "32 \<le> k \<Longrightarrow> \<not> bit d (32 + k)" by (auto dest: bit_imp_le_length)
      consider "k < 31" | "k = 31" | "32 \<le> k" by linarith
      then show ?thesis using e z by cases auto
    qed
    ultimately show "bit (int_delay d) k = bit (scast (ucast (drop_bit 32 d) :: u32) :: u64) k" by simp
  qed
qed

lemma sint_int_delay: "- (2 ^ 31) \<le> sint (int_delay d)" "sint (int_delay d) < 2 ^ 31"
proof -
  let ?w = "ucast (drop_bit 32 d) :: u32"
  have r: "- (2 ^ 31) \<le> sint ?w" "sint ?w < 2 ^ 31" using sint_greater_eq [of ?w] sint_less [of ?w] by simp_all
  have "sint (int_delay d) = sint ?w"
    unfolding int_delay_scast by (simp add: signed_scast_eq signed_take_bit_int_eq_self r order.strict_trans [OF r(2)]
        order.trans [OF _ r(1)])
  then show "- (2 ^ 31) \<le> sint (int_delay d)" "sint (int_delay d) < 2 ^ 31" using r by simp_all
qed

lemma advanced_dist:
  assumes "near s (ts_integer t)" "dist_to s (ts_integer t) \<le> 0" "0 \<le> sint (int_delay d)"
  shows "near s (ts_integer (advanced d t))"
    "dist_to s (ts_integer t) + sint (int_delay d) \<le> dist_to s (ts_integer (advanced d t))"
proof -
  let ?f = "frac_delay d" and ?i = "int_delay d" and ?x = "ts_integer t - tsc s"
  define c where "c = (if ?f + ts_frac t < ?f then 1 else 0 :: u64)"
  have x: "- (2 ^ 62) \<le> sint ?x" "sint ?x \<le> 0" using assms(1,2) by (simp_all add: near_def dist_to_def)
  have i: "0 \<le> sint ?i" "sint ?i < 2 ^ 31" using assms(3) sint_int_delay [of d] by simp_all
  have c: "0 \<le> sint c" "sint c \<le> 1" by (simp_all add: c_def)
  have e: "ts_integer (advanced d t) - tsc s = (?x + c) + ?i" by (simp add: advanced_def Let_def c_def)
  have s1: "sint (?x + c) = sint ?x + sint c" by (rule sint_add) (use x c in simp_all)
  have s2: "sint ((?x + c) + ?i) = sint ?x + sint c + sint ?i"
    unfolding s1 [symmetric] by (rule sint_add) (use x c i s1 in simp_all)
  show "near s (ts_integer (advanced d t))" unfolding near_def dist_to_def e s2 using x c i by simp
  show "dist_to s (ts_integer t) + sint ?i \<le> dist_to s (ts_integer (advanced d t))"
    unfolding dist_to_def e s2 using c by simp
qed

section \<open>The operations keep the invariant\<close>

text \<open>What an operation leaves: a well-formed queue, and the tick constant.\<close>

definition kept :: "tsys \<Rightarrow> tsys \<Rightarrow> bool" where
  "kept s t \<longleftrightarrow> (\<exists>ys. timer_inv t ys) \<and> TIMER_USEC t = TIMER_USEC s"

lemma timers_kept_trans: "kept s t \<Longrightarrow> kept t u \<Longrightarrow> kept s u"
  by (simp add: kept_def)

lemma arm_kept:
  assumes "timer_inv s xs" "\<And>t. t_prev (f t) = t_prev t \<and> t_next (f t) = t_next t \<and> t_flags (f t) = t_flags t"
    "near s (ts_integer (f (timers s n)))" "timer_enable n (upd_timer n f s) = Some (Inr t)"
  shows "kept s t"
  by (rule arm_inv [OF assms(1-3)]) (use assms(4) in \<open>auto simp: kept_def\<close>)

lemma set_delay_near: "near s (int_delay d + tsc s)"
  using sint_int_delay [of d] by (simp add: near_def dist_to_def)

lemma set_delay_kept:
  assumes "timer_inv s xs" "timer_set_delay_u64 n d s = Some (Inr t)" shows "kept s t"
  by (rule arm_kept [OF assms(1) _ _ assms(2) [unfolded timer_set_delay_u64_def]]) (use set_delay_near in auto)

lemma advance_kept:
  assumes "timer_inv s xs" "near s (ts_integer (advanced d (timers s n)))" "timer_advance_u64 n d s = Some (Inr t)"
  shows "kept s t"
  by (rule arm_kept [OF assms(1) _ assms(2) assms(3) [unfolded timer_advance_u64_def]]) (simp add: advanced_def Let_def)

lemma disable_kept: "timer_inv s xs \<Longrightarrow> timer_disable n s = Inr t \<Longrightarrow> kept s t"
  using disable_inv [of s xs n] by (auto simp: kept_def)

lemma mark_kept:
  assumes "timer_inv s xs" and "\<And>t. t_prev (f t) = t_prev t \<and> t_next (f t) = t_next t \<and>
      t_flags (f t) AND TIMER_ENABLED = t_flags t AND TIMER_ENABLED \<and> ts_integer (f t) = ts_integer t"
  shows "kept s (upd_timer n f s)"
  using mark_inv [OF assms] by (auto simp: kept_def)

lemma split_mark: "(f OR TIMER_SPLIT) AND TIMER_ENABLED = f AND TIMER_ENABLED"
  "(f AND NOT TIMER_SPLIT) AND TIMER_ENABLED = f AND TIMER_ENABLED"
  by simp_all

lemma advanced_period: "ts_integer (advanced d (t\<lparr>t_period := p\<rparr>)) = ts_integer (advanced d t)"
  by (simp add: advanced_def Let_def)

lemma do_period_kept:
  assumes "timer_inv s xs" "\<not> start \<Longrightarrow> near s (ts_integer (advanced d (timers s n)))" "timer_do_period n d start s = Some (Inr t)"
  shows "kept s t"
proof -
  have "timer_inited s" using assms(1) by (simp add: timer_inv_def)
  then show ?thesis
    using assms set_delay_kept [OF assms(1), of n d t] advance_kept [OF assms(1), of d n t]
    by (simp add: timer_do_period_def split: if_splits)
qed

lemma continueD: "continue m f = Some (Inr t) \<Longrightarrow> \<exists>u. m = Some (Inr u) \<and> f u = Some (Inr t)"
  by (auto simp: continue_def split: option.splits sum.splits)

text \<open>The delay \<open>timer_advance_ex\<close> adds for a period \<open>p\<close>, in microseconds.\<close>

definition part_of :: "(real \<Rightarrow> u64 \<Rightarrow> u64) \<Rightarrow> real \<Rightarrow> tsys \<Rightarrow> u64" where
  "part_of tk p s = (if p > MAX_USEC then MAX_USEC64 * TIMER_USEC s else tk p (TIMER_USEC s))"

lemma advance_ex_kept:
  assumes inv: "timer_inv s xs"
    and nr: "\<not> start \<Longrightarrow> 0 < t_period (timers s n) \<Longrightarrow> near s (ts_integer (advanced (part_of tk (t_period (timers s n)) s) (timers s n)))"
    and e: "timer_advance_ex tk n start s = Some (Inr t)"
  shows "kept s t"
proof -
  define p where "p = t_period (timers s n)"
  have i: "timer_inited s" using inv by (simp add: timer_inv_def)
  have fin: "kept s (upd_timer n (\<lambda>t. t\<lparr>t_period := g t, t_flags := h (t_flags t)\<rparr>) u)"
    if k: "kept s u" and h: "\<And>f. h f AND TIMER_ENABLED = f AND TIMER_ENABLED" for u g h
  proof -
    obtain ys where "timer_inv u ys" using k by (auto simp: kept_def)
    then have "kept u (upd_timer n (\<lambda>t. t\<lparr>t_period := g t, t_flags := h (t_flags t)\<rparr>) u)"
      by (rule mark_kept) (simp add: h)
    then show ?thesis by (rule timers_kept_trans [OF k])
  qed
  consider "p > MAX_USEC" | "p \<le> MAX_USEC" "0 < p" | "p \<le> 0" by linarith
  then show ?thesis
  proof cases
    case 1
    then have "0 < p" by (simp add: MAX_USEC_def)
    obtain u where u: "timer_do_period n (MAX_USEC64 * TIMER_USEC s) start s = Some (Inr u)"
      "t = upd_timer n (\<lambda>t. t\<lparr>t_period := t_period t - MAX_USEC, t_flags := t_flags t OR TIMER_SPLIT\<rparr>) u"
      using e i 1 by (auto simp: timer_advance_ex_def Let_def p_def dest!: continueD)
    have "kept s u" by (rule do_period_kept [OF inv _ u(1)]) (use nr 1 \<open>0 < p\<close> in \<open>simp add: part_of_def p_def\<close>)
    then show ?thesis unfolding u(2) by (rule fin) (rule split_mark)
  next
    case 2
    obtain u where u: "timer_do_period n (tk p (TIMER_USEC s)) start s = Some (Inr u)"
      "t = upd_timer n (\<lambda>t. t\<lparr>t_period := 0, t_flags := t_flags t AND NOT TIMER_SPLIT\<rparr>) u"
      using e i 2 by (auto simp: timer_advance_ex_def Let_def p_def dest!: continueD)
    have "kept s u" by (rule do_period_kept [OF inv _ u(1)]) (use nr 2 in \<open>simp add: part_of_def p_def\<close>)
    then show ?thesis unfolding u(2) by (rule fin) (rule split_mark)
  next
    case 3
    then have "\<not> p > MAX_USEC" by (simp add: MAX_USEC_def)
    then obtain u where u: "timer_disable n s = Inr u"
      "t = upd_timer n (\<lambda>t. t\<lparr>t_period := 0, t_flags := t_flags t AND NOT TIMER_SPLIT\<rparr>) u"
      using e i 3 by (auto simp: timer_advance_ex_def Let_def p_def dest!: continueD)
    show ?thesis unfolding u(2) by (rule fin [OF disable_kept [OF inv u(1)]]) (rule split_mark)
  qed
qed

lemma stop_kept:
  assumes inv: "timer_inv s xs" and e: "timer_stop n s = Some (Inr t)"
  shows "kept s t"
proof -
  have i: "timer_inited s" using inv by (simp add: timer_inv_def)
  define s1 where "s1 = upd_timer n (\<lambda>t. t\<lparr>t_period := 0\<rparr>) s"
  have k1: "kept s s1" unfolding s1_def by (rule mark_kept [OF inv]) simp
  then obtain ys where ys: "timer_inv s1 ys" by (auto simp: kept_def)
  obtain u where u: "(if flag TIMER_ENABLED (timers s1 n) then timer_disable n s1 else Inr s1) = Inr u"
    "t = upd_timer n (\<lambda>t. t\<lparr>t_flags := t_flags t AND NOT TIMER_SPLIT, in_callback := False\<rparr>) u"
    using e i continueD unfolding timer_stop_def Let_def s1_def [symmetric] by fastforce
  have k2: "kept s1 u" using u(1) ys disable_kept [OF ys, of n u] by (auto simp: kept_def split: if_splits)
  then obtain zs where "timer_inv u zs" by (auto simp: kept_def)
  then have "kept u t" unfolding u(2) by (rule mark_kept) (simp add: split_mark)
  with k1 k2 show ?thesis by (metis timers_kept_trans)
qed

lemma on_auto_kept:
  assumes inv: "timer_inv s xs" and nr: "near s (ts_integer (advanced (part_of tk p s) (timers s n)))"
    and e: "timer_on_auto tk n p s = Some (Inr t)"
  shows "kept s t"
proof (cases "p > 0")
  case True
  define s1 where "s1 = upd_timer n (\<lambda>t. t\<lparr>t_period := p\<rparr>) s"
  have i: "timer_inited s" using inv by (simp add: timer_inv_def)
  have k1: "kept s s1" unfolding s1_def by (rule mark_kept [OF inv]) simp
  then obtain ys where ys: "timer_inv s1 ys" by (auto simp: kept_def)
  have "timer_advance_ex tk n (t_period (timers s n) \<le> 0 \<and> \<not> in_callback (timers s n)) s1 = Some (Inr t)"
    using e i True by (simp add: timer_on_auto_def timer_on_def s1_def)
  moreover have "near s1 (ts_integer (advanced (part_of tk (t_period (timers s1 n)) s1) (timers s1 n)))"
  proof -
    have "part_of tk (t_period (timers s1 n)) s1 = part_of tk p s" "near s1 = near s"
      by (auto simp: s1_def part_of_def near_def dist_to_def fun_eq_iff)
    moreover have "ts_integer (advanced d (timers s1 n)) = ts_integer (advanced d (timers s n))" for d
      by (simp add: s1_def advanced_period)
    ultimately show ?thesis using nr by simp
  qed
  ultimately have "kept s1 t" using advance_ex_kept [OF ys] by blast
  then show ?thesis by (rule timers_kept_trans [OF k1])
next
  case False
  have i: "timer_inited s" using inv by (simp add: timer_inv_def)
  then have "timer_stop n s = Some (Inr t)" using e False by (simp add: timer_on_auto_def)
  then show ?thesis by (rule stop_kept [OF inv])
qed

text \<open>\<open>timer_add\<close> clears the struct, links included, so the timer must not be in the queue.\<close>

lemma add_kept:
  assumes inv: "timer_inv s xs" and off: "\<not> flag TIMER_ENABLED (timers s n)" and e: "timer_add n cb start s = Some (Inr t)"
  shows "kept s t"
proof -
  define z where "z = \<lparr>ts_integer = 0 :: u64, ts_frac = 0, t_flags = 0, in_callback = False, t_period = 0,
    has_callback = cb, t_prev = None, t_next = None\<rparr>"
  define s1 where "s1 = upd_timer n (\<lambda>_. z) s"
  have q: "queue s xs" using inv by (simp add: timer_inv_def)
  have n: "n \<notin> set xs" using off q by (simp add: queue_def)
  have un: "t_next (timers s n) = None" "t_prev (timers s n) = None" using n q by (simp_all add: queue_def links_def)
  have "links s1 xs = links s xs" by (rule links_cong) (use un in \<open>auto simp: s1_def z_def\<close>)
  then have "queue s1 xs" using q off by (auto simp: queue_def s1_def z_def flag_def)
  moreover have k: "key s1 x = key s x" if "x \<in> set xs" for x using that n by (auto simp: key_def dist_to_def s1_def)
  moreover have "near s1 = near s" "dist_to s1 = dist_to s" by (auto simp: fun_eq_iff near_def dist_to_def s1_def)
  ultimately have "timer_inv s1 xs"
    using inv n by (auto simp: timer_inv_def s1_def cong: map_cong)
  moreover have "kept s s1" using calculation by (auto simp: kept_def s1_def)
  ultimately show ?thesis
    using e set_delay_kept [of s1 xs n 0 t] timers_kept_trans [of s s1 t]
    by (auto simp: timer_add_def Let_def s1_def [symmetric] z_def [symmetric] split: if_splits)
qed

lemma retarget_inv:
  assumes "timer_inv s xs" "timer_head s = Some h"
  shows "timer_inv (s\<lparr>timer_target := ts_integer (timers s h)\<rparr>) xs"
proof -
  let ?u = "s\<lparr>timer_target := ts_integer (timers s h)\<rparr>"
  obtain ys where xs: "xs = h # ys" using assms by (cases xs) (auto simp: timer_inv_def queue_def links_def)
  have k: "key ?u = key s" "dist_to ?u = dist_to s" "near ?u = near s" by (auto simp: fun_eq_iff key_def dist_to_def near_def)
  have "links ?u xs = links s xs" by (rule links_cong) simp_all
  then have "queue ?u xs" using assms(1) by (simp add: timer_inv_def queue_def)
  then show ?thesis using assms(1) unfolding timer_inv_def k by (auto simp: xs key_def)
qed

section \<open>Processing\<close>

text \<open>A timer \<open>timer_process\<close> has taken off the queue because it is due.\<close>

definition due :: "tsys \<Rightarrow> nat \<Rightarrow> bool" where
  "due s n \<longleftrightarrow> near_timer s n \<and> val_less (ts_integer (timers s n)) (tsc s)"

text \<open>The parts of a long period fit in the 31 bits the delays have, as \<open>timer.h\<close> asks.\<close>

definition splits_in_range :: "(real \<Rightarrow> u64 \<Rightarrow> u64) \<Rightarrow> u64 \<Rightarrow> bool" where
  "splits_in_range tk usec \<longleftrightarrow> 0 \<le> sint (int_delay (MAX_USEC64 * usec)) \<and>
     (\<forall>p. 0 < p \<and> p \<le> MAX_USEC \<longrightarrow> 0 \<le> sint (int_delay (tk p usec)))"

lemma fire_kept:
  assumes inv: "timer_inv s xs" and n: "due s n" and sp: "splits_in_range tk (TIMER_USEC s)"
    and cb: "\<And>u v us. due u n \<Longrightarrow> cb n u = Some (Inr v) \<Longrightarrow> timer_inv u us \<Longrightarrow> kept u v"
    and e: "fire tk cb n s = Some (Inr t)"
  shows "kept s t"
proof -
  consider "flag TIMER_SPLIT (timers s n)" | "\<not> flag TIMER_SPLIT (timers s n)" "has_callback (timers s n)"
    | "\<not> flag TIMER_SPLIT (timers s n)" "\<not> has_callback (timers s n)" by blast
  then show ?thesis
  proof cases
    case 1
    then have a: "timer_advance_ex tk n False s = Some (Inr t)" using e by (simp add: fire_def)
    show ?thesis
    proof (rule advance_ex_kept [OF inv _ a])
      assume "0 < t_period (timers s n)"
      then have "0 \<le> sint (int_delay (part_of tk (t_period (timers s n)) s))"
        using sp by (simp add: splits_in_range_def part_of_def)
      then show "near s (ts_integer (advanced (part_of tk (t_period (timers s n)) s) (timers s n)))"
        using advanced_dist(1) n by (simp add: due_def val_less_now)
    qed
  next
    case 2
    define u where "u = upd_timer n (\<lambda>t. t\<lparr>in_callback := True\<rparr>) s"
    obtain v where v: "cb n u = Some (Inr v)" "t = upd_timer n (\<lambda>t. t\<lparr>in_callback := False\<rparr>) v"
      using e 2 by (auto simp: fire_def u_def dest!: continueD)
    have u: "kept s u" unfolding u_def by (rule mark_kept [OF inv]) simp
    have "due u n" using n by (simp add: due_def u_def near_def dist_to_def)
    then have uv: "kept u v" using u cb v(1) by (auto simp: kept_def)
    then obtain ys where "timer_inv v ys" by (auto simp: kept_def)
    then have "kept v t" unfolding v(2) by (rule mark_kept) simp
    with u uv show ?thesis by (metis timers_kept_trans)
  next
    case 3
    then show ?thesis using e inv by (auto simp: fire_def kept_def)
  qed
qed

definition callbacks_keep :: "callbacks \<Rightarrow> bool" where
  "callbacks_keep cb \<longleftrightarrow> (\<forall>n u v us. due u n \<longrightarrow> cb n u = Some (Inr v) \<longrightarrow> timer_inv u us \<longrightarrow> kept u v)"

lemma process_turn_kept:
  assumes "callbacks_keep cb" "timer_inv s xs" "splits_in_range tk (TIMER_USEC s)" "timer_head s = Some n"
    and "val_less (ts_integer (timers s n)) (tsc s)" "timer_remove_head s = Inr s1" "fire tk cb n s1 = Some (Inr s2)"
  shows "kept s s2"
proof -
  have f: "first_or None xs = Some n" "seg s None xs None"
    using assms(2,4) by (simp_all add: timer_inv_def queue_def links_def)
  obtain m ys where xs: "xs = n # m # ys"
  proof (cases xs rule: remdups_adj.cases)
    case (2 x)
    then have "t_next (timers s n) = None" using f by simp
    then show thesis using assms(4,6) by (simp add: timer_remove_head_def)
  qed (use f that in auto)
  have s1: "timer_inv s1 (m # ys)" "TIMER_USEC s1 = TIMER_USEC s" "tsc s1 = tsc s"
    "ts_integer (timers s1 n) = ts_integer (timers s n)"
    using remove_head_inv [OF assms(2) [unfolded xs]] assms(6) by auto
  have "near_timer s n" using assms(2) by (simp add: timer_inv_def xs)
  then have d: "due s1 n" using assms(5) s1(3,4) by (simp add: due_def near_def dist_to_def)
  have sp: "splits_in_range tk (TIMER_USEC s1)" using assms(3) s1(2) by simp
  have "kept s1 s2"
    by (rule fire_kept [OF s1(1) d sp _ assms(7)]) (use assms(1) in \<open>auto simp: callbacks_keep_def\<close>)
  with s1(2) show ?thesis by (simp add: kept_def)
qed

lemma process_loop_kept:
  assumes "process_loop tk cb s = Some r" "callbacks_keep cb" "timer_inv s xs" "splits_in_range tk (TIMER_USEC s)" "r = Inr t"
  shows "kept s t"
proof -
  have "callbacks_keep cb \<longrightarrow> (\<forall>xs. timer_inv s xs \<longrightarrow> splits_in_range tk (TIMER_USEC s) \<longrightarrow> r = Inr t \<longrightarrow> kept s t)"
  proof (rule process_loop.raw_induct [OF _ assms(1), where P = "\<lambda>tk cb s r. callbacks_keep cb \<longrightarrow>
      (\<forall>xs. timer_inv s xs \<longrightarrow> splits_in_range tk (TIMER_USEC s) \<longrightarrow> r = Inr t \<longrightarrow> kept s t)"], intro impI allI)
    fix loop tk cb s r xs
    assume ih: "\<And>tk cb s r. loop tk cb s = Some r \<Longrightarrow> callbacks_keep cb \<longrightarrow>
        (\<forall>xs. timer_inv s xs \<longrightarrow> splits_in_range tk (TIMER_USEC s) \<longrightarrow> r = Inr t \<longrightarrow> kept s t)"
      and body: "(case timer_head s of None \<Rightarrow> Some (Inl Null_deref)
        | Some n \<Rightarrow> if \<not> val_less (ts_integer (timers s n)) (tsc s) then Some (Inr s)
            else case timer_remove_head s of Inl e \<Rightarrow> Some (Inl e)
              | Inr s1 \<Rightarrow> (case fire tk cb n s1 of None \<Rightarrow> None
                  | Some r \<Rightarrow> (case r of Inl e \<Rightarrow> Some (Inl e) | Inr s2 \<Rightarrow> loop tk cb s2))) = Some r"
      and cb: "callbacks_keep cb" and inv: "timer_inv s xs" and sp: "splits_in_range tk (TIMER_USEC s)" and r: "r = Inr t"
    show "kept s t"
    proof (cases "timer_head s")
      case None
      then show ?thesis using body r by simp
    next
      case (Some n)
      show ?thesis
      proof (cases "val_less (ts_integer (timers s n)) (tsc s)")
        case False
        then show ?thesis using body r Some inv by (auto simp: kept_def)
      next
        case True
        obtain s1 s2 where s: "timer_remove_head s = Inr s1" "fire tk cb n s1 = Some (Inr s2)" "loop tk cb s2 = Some r"
          using body r Some True by (auto split: sum.splits option.splits)
        have k: "kept s s2" by (rule process_turn_kept [OF cb inv sp Some True s(1,2)])
        then obtain ys where ys: "timer_inv s2 ys" "TIMER_USEC s2 = TIMER_USEC s" by (auto simp: kept_def)
        have "kept s2 t" using ih [OF s(3)] cb ys sp r by auto
        then show ?thesis by (rule timers_kept_trans [OF k])
      qed
    qed
  qed
  with assms show ?thesis by blast
qed

lemma process_kept:
  assumes cb: "callbacks_keep cb" and p: "timer_process tk cb s = Some (Inr t)"
    and inv: "timer_inv s xs" and sp: "splits_in_range tk (TIMER_USEC s)"
  shows "kept s t"
proof (cases "timer_head s")
  case None
  then show ?thesis using p inv by (auto simp: timer_process_def kept_def)
next
  case (Some h)
  then obtain u where u: "process_loop tk cb s = Some (Inr u)"
    "(case timer_head u of None \<Rightarrow> Some (Inl Null_deref) | Some h \<Rightarrow> Some (Inr (u\<lparr>timer_target := ts_integer (timers u h)\<rparr>))) = Some (Inr t)"
    using p by (auto simp: timer_process_def dest!: continueD)
  have k: "kept s u" by (rule process_loop_kept [OF u(1) cb inv sp refl])
  then obtain ys where ys: "timer_inv u ys" by (auto simp: kept_def)
  obtain g where g: "timer_head u = Some g" "t = u\<lparr>timer_target := ts_integer (timers u g)\<rparr>"
    using u(2) by (auto split: option.splits)
  have "timer_inv t ys" unfolding g(2) by (rule retarget_inv [OF ys g(1)])
  with k g(2) show ?thesis by (auto simp: kept_def)
qed

section \<open>Reachable queues\<close>

text \<open>
  The machine's steps on the timers: starting, advancing, stopping and adding a timer, the period
  functions, \<open>timer_process\<close> with callbacks that are themselves sequences of such steps, the clock
  running, and a change of the time base. \<open>Take_head\<close>, \<open>Mark\<close> and \<open>Period\<close> add the states in the middle of
  \<open>timer_process\<close> and of the period functions. An armed timer may not come to be \<open>2 ^ 62\<close> cycles from the
  clock. \<open>timer_add\<close> clears the struct with its links, so the timer must not be enabled; \<open>timer_close\<close> ends
  the sequence: it leaves structs enabled and linked (\<open>timer_close_keeps_links\<close>) and is no step.
\<close>

inductive timer_step :: "tsys \<Rightarrow> tsys \<Rightarrow> bool" where
  Set_delay: "timer_set_delay_u64 n d s = Some (Inr t) \<Longrightarrow> timer_step s t"
| Advance: "near s (ts_integer (advanced d (timers s n))) \<Longrightarrow> timer_advance_u64 n d s = Some (Inr t) \<Longrightarrow>
    timer_step s t"
| Disable: "timer_disable n s = Inr t \<Longrightarrow> timer_step s t"
| Stop: "timer_stop n s = Some (Inr t) \<Longrightarrow> timer_step s t"
| On_auto: "near s (ts_integer (advanced (part_of tk p s) (timers s n))) \<Longrightarrow> timer_on_auto tk n p s = Some (Inr t) \<Longrightarrow>
    timer_step s t"
| Add: "\<not> flag TIMER_ENABLED (timers s n) \<Longrightarrow> timer_add n c start s = Some (Inr t) \<Longrightarrow> timer_step s t"
| Process: "splits_in_range tk (TIMER_USEC s) \<Longrightarrow>
    (\<And>n u v. due u n \<Longrightarrow> cb n u = Some (Inr v) \<Longrightarrow> timer_step\<^sup>*\<^sup>* u v) \<Longrightarrow>
    timer_process tk cb s = Some (Inr t) \<Longrightarrow> timer_step s t"
| Take_head: "timer_remove_head s = Inr t \<Longrightarrow> timer_step s t"
| Mark: "timer_step s (upd_timer n (\<lambda>t. t\<lparr>in_callback := b\<rparr>) s)"
| Period: "timer_step s (upd_timer n (\<lambda>t. t\<lparr>t_period := p,
    t_flags := (if b then t_flags t OR TIMER_SPLIT else t_flags t AND NOT TIMER_SPLIT)\<rparr>) s)"
| Pass: "(\<forall>n. flag TIMER_ENABLED (timers s n) \<longrightarrow> near (s\<lparr>tsc := c\<rparr>) (ts_integer (timers s n))) \<Longrightarrow>
    (timer_head s \<noteq> None \<longrightarrow> near (s\<lparr>tsc := c\<rparr>) (timer_target s)) \<Longrightarrow> timer_step s (s\<lparr>tsc := c\<rparr>)"
| Rebase: "timer_set_new_tsc v s = Some t \<Longrightarrow> timer_step s t"

text \<open>The state \<open>timer_init\<close> leaves when no timer was ever linked.\<close>

definition timer_boot :: "tsys \<Rightarrow> bool" where
  "timer_boot s \<longleftrightarrow> (\<exists>s0. s = timer_init s0 \<and> timer_head s0 = None \<and>
     (\<forall>n. t_next (timers s0 n) = None \<and> t_prev (timers s0 n) = None \<and> \<not> flag TIMER_ENABLED (timers s0 n)))"

definition timer_reach :: "tsys \<Rightarrow> bool" where
  "timer_reach t \<longleftrightarrow> (\<exists>s. timer_boot s \<and> timer_step\<^sup>*\<^sup>* s t)"

lemma steps_kept:
  assumes "(\<lambda>x y. timer_step x y \<and> (\<forall>xs. timer_inv x xs \<longrightarrow> kept x y))\<^sup>*\<^sup>* u v" "timer_inv u us"
  shows "kept u v"
  using assms(1)
proof (induction rule: rtranclp_induct)
  case base
  then show ?case using assms(2) by (auto simp: kept_def)
next
  case (step v w)
  then show ?case using timers_kept_trans [of u v w] by (auto simp: kept_def)
qed

lemma take_head_kept:
  assumes inv: "timer_inv s xs" and e: "timer_remove_head s = Inr t" shows "kept s t"
proof (cases xs rule: remdups_adj.cases)
  case 1
  then have "timer_head s = None" using inv by (simp add: timer_inv_def queue_def links_def)
  then show ?thesis using e inv by (auto simp: timer_remove_head_def kept_def)
next
  case (2 x)
  then have "timer_head s = Some x" "t_next (timers s x) = None"
    using inv by (auto simp: timer_inv_def queue_def links_def)
  then show ?thesis using e by (simp add: timer_remove_head_def)
next
  case (3 x y ys)
  then show ?thesis using remove_head_inv [of s x y ys] inv e by (auto simp: kept_def)
qed

lemma step_kept:
  assumes "timer_step s t" "timer_inv s xs" shows "kept s t"
  using assms
proof (induction arbitrary: xs rule: timer_step.induct)
  case (Process tk s cb t)
  have "kept u v" if "due u n" "cb n u = Some (Inr v)" "timer_inv u us" for n u v us
    by (rule steps_kept [OF rtranclp_mono [THEN predicate2D, OF _ Process.IH [OF that(1,2)]] that(3)]) auto
  then have "callbacks_keep cb" by (auto simp: callbacks_keep_def)
  then show ?case by (rule process_kept [OF _ Process.hyps(2) Process.prems Process.hyps(1)])
next
  case (Pass s c)
  have q: "queue s xs" using Pass.prems by (simp add: timer_inv_def)
  have "timer_inv (s\<lparr>tsc := c\<rparr>) xs"
  proof (rule pass_inv [OF Pass.prems])
    show "near (s\<lparr>tsc := c\<rparr>) (ts_integer (timers s x))" if "x \<in> set xs" for x
      using Pass.hyps(1) q that by (simp add: queue_def)
    show "near (s\<lparr>tsc := c\<rparr>) (timer_target s)" if "xs \<noteq> []"
      using Pass.hyps(2) q that by (cases xs) (auto simp: queue_def links_def)
  qed
  then show ?case by (auto simp: kept_def)
next
  case (Rebase v s t)
  then show ?case using rebase_inv [OF Rebase.prems, of v] by (auto simp: kept_def)
next
  case (Mark s n b)
  then show ?case by (intro mark_kept) auto
next
  case (Period s n p b)
  then show ?case by (intro mark_kept) (auto simp: split_mark)
qed (blast intro: set_delay_kept advance_kept disable_kept stop_kept on_auto_kept add_kept take_head_kept)+

lemma boot_inv: "timer_boot s \<Longrightarrow> timer_inv s []"
  by (auto simp: timer_boot_def timer_inv_def queue_def links_def timer_init_def)

lemma reach_inv: "timer_reach s \<Longrightarrow> \<exists>xs. timer_inv s xs"
proof -
  assume "timer_reach s"
  then obtain b where "timer_boot b" "timer_step\<^sup>*\<^sup>* b s" by (auto simp: timer_reach_def)
  from this(2,1) show ?thesis
    by (induction rule: rtranclp_induct) (use boot_inv step_kept kept_def in blast)+
qed

section \<open>A queue of two timers\<close>

definition idle_timer :: pc_timer where
  "idle_timer = \<lparr>ts_integer = 0, ts_frac = 0, t_flags = 0, in_callback = False, t_period = 0,
     has_callback = True, t_prev = None, t_next = None\<rparr>"

definition timer_blank :: tsys where
  "timer_blank = timer_init \<lparr>timers = (\<lambda>_. idle_timer), timer_head = None, timer_target = 0, tsc = 0,
     timer_inited = False, TIMER_USEC = 0\<rparr>"

text \<open>Timer 7, due at 5, before timer 3, due at 9; the clock at 6.\<close>

definition two_timers :: tsys where
  "two_timers = timer_blank\<lparr>timers := (\<lambda>_. idle_timer)
       (7 := idle_timer\<lparr>ts_integer := 5, t_flags := 1, t_next := Some 3\<rparr>,
        3 := idle_timer\<lparr>ts_integer := 9, t_flags := 1, t_prev := Some 7\<rparr>),
     timer_head := Some 7, timer_target := 5, tsc := 6\<rparr>"

lemma two_timers_inv: "timer_inv two_timers [7, 3]"
  by (simp add: two_timers_def timer_blank_def idle_timer_def timer_init_def timer_inv_def queue_def links_def
      flag_def TIMER_ENABLED_def near_def dist_to_def key_def)

text \<open>C11: No expired timer goes unnoticed. Whatever sequence of timer operations, whole runs of
  \<open>timer_process\<close>, clock steps and time base changes led to a state (no \<open>timer_close\<close>, no struct cleared
  while it is enabled, and no armed timer ever \<open>2 ^ 62\<close> cycles from the clock), if an enabled timer is
  due then the CPU's one comparison of the clock with \<open>timer_target\<close> succeeds, and the list's head is
  an enabled timer due no later than the expired one.\<close>

theorem expired_timer_noticed:
  assumes "timer_reach s" and "timer_is_enabled n s" and "val_less (ts_integer (timers s n)) (tsc s)"
  shows "val_less (timer_target s) (tsc s) \<and> (\<exists>h. timer_head s = Some h \<and> timer_is_enabled h s \<and>
     timer_less s h n)"
proof -
  from reach_inv [OF assms(1)] obtain xs where x: "timer_inv s xs" by blast
  have n: "n \<in> set xs" using assms(2) x by (simp add: timer_is_enabled_def timer_inv_def queue_def)
  then obtain h ys where xs: "xs = h # ys" by (cases xs) auto
  have nr: "near_timer s h" "near_timer s n" and k: "key s h \<le> key s n"
    and tg: "near s (timer_target s)" "dist_to s (timer_target s) \<le> key s n"
    and h: "timer_head s = Some h" "flag TIMER_ENABLED (timers s h)"
    using x n xs by (auto simp: timer_inv_def queue_def links_def)
  have "key s n \<le> 0" using assms(3) by (simp add: val_less_now key_def)
  then show ?thesis using h tg k timer_less_key [OF nr] by (simp add: val_less_now timer_is_enabled_def)
qed

lemma timer_blank_boot: "timer_boot timer_blank"
  unfolding timer_boot_def
  by (rule exI [of _ timer_blank]) (simp add: timer_blank_def timer_init_def idle_timer_def flag_def)

lemma expired_timer_noticed_witness:
  "\<exists>t. timer_set_delay_u64 4 0 timer_blank = Some (Inr t) \<and> val_less (timer_target t) (tsc t)"
proof -
  have i: "timer_inv timer_blank []" by (rule boot_inv [OF timer_blank_boot])
  let ?f = "\<lambda>t. t\<lparr>ts_frac := frac_delay 0, ts_integer := int_delay 0 + tsc timer_blank\<rparr>"
  obtain t where t: "timer_enable 4 (upd_timer 4 ?f timer_blank) = Some (Inr t)"
    "timer_inv t (insort_key (key t) 4 (remove1 4 []))" "tsc t = tsc timer_blank"
    "ts_integer (timers t 4) = ts_integer (?f (timers timer_blank 4))"
    by (rule arm_inv [OF i, of ?f 4]) (simp, use set_delay_near in simp, rule that)
  have e: "timer_set_delay_u64 4 0 timer_blank = Some (Inr t)" using t(1) by (simp add: timer_set_delay_u64_def)
  have "timer_reach t" unfolding timer_reach_def
    using timer_blank_boot timer_step.Set_delay [OF e] by (blast intro: r_into_rtranclp)
  moreover have "timer_is_enabled 4 t" using t(2) by (simp add: timer_is_enabled_def timer_inv_def queue_def)
  moreover have "val_less (ts_integer (timers t 4)) (tsc t)"
    unfolding t(3,4) by (simp add: val_less_def int_delay_def)
  ultimately show ?thesis using expired_timer_noticed [of t 4] e by blast
qed

text \<open>C9: Arming a timer is sorted insertion. On any well-formed queue \<open>timer_enable\<close> ends, without a
  fault, and the doubly linked list it leaves is the old one without the timer and with it inserted
  by expiry, before the timers due at the same time.\<close>

theorem timer_enable_inserts:
  assumes "timer_inv s xs" and "near s (ts_integer (timers s n))"
  shows "\<exists>t. timer_enable n s = Some (Inr t) \<and> queue t (insort_key (key s) n (remove1 n xs)) \<and>
     sorted (map (key s) (insort_key (key s) n (remove1 n xs))) \<and> (\<forall>m. ts_integer (timers t m) = ts_integer (timers s m))"
proof -
  have q: "queue s xs" "timer_inited s" "\<And>x. x \<in> set xs \<Longrightarrow> near_timer s x" "sorted (map (key s) xs)"
    using assms(1) by (auto simp: timer_inv_def)
  obtain t where t: "timer_enable n s = Some (Inr t)" "queue t (ins s n (remove1 n xs))"
    "\<And>m. ts_integer (timers t m) = ts_integer (timers s m)"
    by (rule enable_queue [OF q(1,2), of n]) (rule that)
  have "ins s n (remove1 n xs) = insort_key (key s) n (remove1 n xs)"
    by (rule ins_insort [OF assms(2)]) (use q(3) in \<open>auto dest: notin_set_remove1 set_remove1_subset [THEN subsetD]\<close>)
  then show ?thesis using t sorted_map_remove1 [OF q(4)] by (simp add: sorted_insort_key)
qed

lemma timer_enable_inserts_witness:
  "\<exists>t. timer_enable 4 two_timers = Some (Inr t) \<and> queue t [4, 7, 3]"
proof -
  have n: "near two_timers (ts_integer (timers two_timers 4))"
    by (simp add: two_timers_def timer_blank_def idle_timer_def timer_init_def near_def dist_to_def)
  have i: "insort_key (key two_timers) 4 (remove1 4 [7, 3]) = [4, 7, 3]"
    by (simp add: key_def two_timers_def timer_blank_def idle_timer_def timer_init_def dist_to_def)
  show ?thesis using timer_enable_inserts [OF two_timers_inv n] unfolding i by blast
qed

end
