(* ===== verification/Timer_Run.thy ===== *)
theory Timer_Run
  imports Timer_Order
begin

text \<open>
  \<open>timer_process\<close> with periodic callbacks: it returns, every expired timer has been advanced by
  whole periods, none is due any more; and the two places where the timer code fails: the last
  timer expiring, and \<open>timer_close\<close>.
\<close>

section \<open>Exact periods\<close>

text \<open>A timestamp with its fraction in units of \<open>2 ^ -32\<close> cycles, and a delay in the same units.\<close>

definition stamp :: "pc_timer \<Rightarrow> int" where
  "stamp t = uint (ts_integer t) * 2 ^ 32 + uint (ts_frac t)"

definition delay_units :: "u64 \<Rightarrow> int" where
  "delay_units d = sint (int_delay d) * 2 ^ 32 + uint (frac_delay d)"

lemma carry_iff: "(f + g < f) \<longleftrightarrow> 2 ^ 32 \<le> uint f + uint (g :: u32)"
proof -
  have u: "uint (f + g) = (uint f + uint g) mod 2 ^ 32" by (simp add: uint_word_ariths)
  have b: "uint f < 2 ^ 32" "uint g < 2 ^ 32" "0 \<le> uint f" "0 \<le> uint g"
    using uint_bounded [of f] uint_bounded [of g] by simp_all
  show ?thesis
  proof (cases "2 ^ 32 \<le> uint f + uint g")
    case True
    have "(uint f + uint g) mod 2 ^ 32 = (uint f + uint g - 2 ^ 32) mod 2 ^ 32" by simp
    also have "\<dots> = uint f + uint g - 2 ^ 32" using True b by (intro mod_pos_pos_trivial) auto
    finally have "(uint f + uint g) mod 2 ^ 32 = uint f + uint g - 2 ^ 32" .
    then show ?thesis using True b unfolding word_less_def u by simp
  next
    case False
    then have "(uint f + uint g) mod 2 ^ 32 = uint f + uint g" using b by (intro mod_pos_pos_trivial) auto
    then show ?thesis using False b unfolding word_less_def u by simp
  qed
qed

lemma uint_add32: "uint (f + g) = uint f + uint g - (if 2 ^ 32 \<le> uint f + uint g then 2 ^ 32 else 0)" for f g :: u32
proof -
  have u: "uint (f + g) = (uint f + uint g) mod 2 ^ 32" by (simp add: uint_word_ariths)
  have b: "uint f < 2 ^ 32" "uint g < 2 ^ 32" "0 \<le> uint f" "0 \<le> uint g"
    using uint_bounded [of f] uint_bounded [of g] by simp_all
  show ?thesis
  proof (cases "2 ^ 32 \<le> uint f + uint g")
    case True
    have "(uint f + uint g) mod 2 ^ 32 = (uint f + uint g - 2 ^ 32) mod 2 ^ 32" by simp
    also have "\<dots> = uint f + uint g - 2 ^ 32" using True b by (intro mod_pos_pos_trivial) auto
    finally show ?thesis using True u by simp
  next
    case False
    then show ?thesis unfolding u using b by simp
  qed
qed

lemma mod_shift: "(a :: int) mod 2 ^ 64 = b mod 2 ^ 64 \<Longrightarrow> (a * 2 ^ 32 + c) mod 2 ^ 96 = (b * 2 ^ 32 + c) mod 2 ^ 96"
proof -
  assume "a mod 2 ^ 64 = b mod 2 ^ 64"
  then have "2 ^ 64 dvd a - b" by (simp add: mod_eq_dvd_iff)
  then have "2 ^ 64 * 2 ^ 32 dvd (a - b) * 2 ^ 32" by (rule mult_dvd_mono) simp
  then have "2 ^ 96 dvd (a * 2 ^ 32 + c) - (b * 2 ^ 32 + c)" by (simp add: left_diff_distrib)
  then show ?thesis by (simp add: mod_eq_dvd_iff)
qed

text \<open>Advancing is exact in 32.32 fixed point: no fraction is lost.\<close>

lemma stamp_advanced: "stamp (advanced d t) mod 2 ^ 96 = (stamp t + delay_units d) mod 2 ^ 96"
proof -
  let ?f = "frac_delay d" and ?i = "int_delay d"
  let ?c = "if 2 ^ 32 \<le> uint ?f + uint (ts_frac t) then 1 else 0 :: int"
  have ti: "ts_integer (advanced d t) = ts_integer t + (if ?f + ts_frac t < ?f then 1 else 0) + ?i"
    and tf: "ts_frac (advanced d t) = ts_frac t + ?f" by (simp_all add: advanced_def Let_def)
  have "uint (ts_integer (advanced d t)) mod 2 ^ 64 = (uint (ts_integer t) + ?c + sint ?i) mod 2 ^ 64"
  proof -
    have "ts_integer (advanced d t) = word_of_int (uint (ts_integer t) + ?c + sint ?i)"
      unfolding ti carry_iff by simp
    then have "uint (ts_integer (advanced d t)) = uint (word_of_int (uint (ts_integer t) + ?c + sint ?i) :: u64)"
      by (rule arg_cong)
    also have "\<dots> = (uint (ts_integer t) + ?c + sint ?i) mod 2 ^ 64"
      unfolding unsigned_of_int take_bit_eq_mod by simp
    finally show ?thesis by simp
  qed
  note m = mod_shift [OF this, of "uint (ts_frac t + ?f)"]
  have "stamp (advanced d t) mod 2 ^ 96 = ((uint (ts_integer t) + ?c + sint ?i) * 2 ^ 32 + uint (ts_frac t + ?f)) mod 2 ^ 96"
    using m by (simp add: stamp_def tf)
  also have "(uint (ts_integer t) + ?c + sint ?i) * 2 ^ 32 + uint (ts_frac t + ?f) = stamp t + delay_units d"
    unfolding uint_add32 by (simp add: stamp_def delay_units_def algebra_simps)
  finally show ?thesis .
qed

section \<open>Processing the expired timers\<close>

text \<open>A device whose callback resumes its timer with a fixed period, as the interval timer's does.\<close>

definition periodic :: "(nat \<Rightarrow> u64) \<Rightarrow> callbacks" where
  "periodic per n s = timer_advance_u64 n (per n) s"

definition period_ready :: "(nat \<Rightarrow> u64) \<Rightarrow> tsys \<Rightarrow> nat \<Rightarrow> bool" where
  "period_ready per s n \<longleftrightarrow> has_callback (timers s n) \<and> \<not> flag TIMER_SPLIT (timers s n) \<and> 0 < sint (int_delay (per n))"

text \<open>What holds of the queue while \<open>timer_process\<close> works on it, begun in state \<open>s0\<close>.\<close>

definition in_progress :: "(nat \<Rightarrow> u64) \<Rightarrow> tsys \<Rightarrow> nat list \<Rightarrow> tsys \<Rightarrow> nat list \<Rightarrow> bool" where
  "in_progress per s0 xs0 s xs \<longleftrightarrow> timer_inv s xs \<and> set xs = set xs0 \<and> 2 \<le> card (set xs0) \<and> tsc s = tsc s0 \<and>
     (\<forall>n \<in> set xs. period_ready per s n \<and>
       (\<exists>k :: nat. stamp (timers s n) mod 2 ^ 96 = (stamp (timers s0 n) + int k * delay_units (per n)) mod 2 ^ 96))"

lemma in_progressD:
  assumes "in_progress per s0 xs0 s xs"
  shows "timer_inv s xs" "set xs = set xs0" "tsc s = tsc s0"
    "n \<in> set xs0 \<Longrightarrow>
      \<exists>k :: nat. stamp (timers s n) mod 2 ^ 96 = (stamp (timers s0 n) + int k * delay_units (per n)) mod 2 ^ 96"
proof -
  note p = assms [unfolded in_progress_def]
  show "timer_inv s xs" using p by (elim conjE)
  show "set xs = set xs0" using p by (elim conjE)
  show "tsc s = tsc s0" using p by (elim conjE)
  show "n \<in> set xs0 \<Longrightarrow>
      \<exists>k :: nat. stamp (timers s n) mod 2 ^ 96 = (stamp (timers s0 n) + int k * delay_units (per n)) mod 2 ^ 96"
    using p by blast
qed

lemma stamp_cong: "ts_integer t = ts_integer u \<Longrightarrow> ts_frac t = ts_frac u \<Longrightarrow> stamp t = stamp u"
  by (simp add: stamp_def)

lemma payloadD:
  assumes "payload t = payload u"
  shows "ts_integer t = ts_integer u" "ts_frac t = ts_frac u" "has_callback t = has_callback u" "t_flags t = t_flags u"
  using assms by (simp_all add: payload_def)

text \<open>One turn of the loop.\<close>

lemma process_turn:
  assumes "in_progress per s0 xs0 s xs" "xs = n # m # ys" "key s n \<le> 0"
  obtains s1 t zs where "timer_remove_head s = Inr s1" "fire tk (periodic per) n s1 = Some (Inr t)"
    "in_progress per s0 xs0 t zs" "\<And>x. x \<noteq> n \<Longrightarrow> key t x = key s x" "key s n < key t n"
proof -
  note prog = assms(1) [unfolded in_progress_def assms(2)]
  have inv: "timer_inv s (n # m # ys)" and sx: "set (n # m # ys) = set xs0" and cc: "2 \<le> card (set xs0)" "tsc s = tsc s0"
    using prog by blast+
  have q: "queue s (n # m # ys)" using inv by (simp add: timer_inv_def)
  have rd: "period_ready per s x" if "x \<in> set xs0" for x using prog that unfolding sx by blast
  have st: "\<exists>k :: nat. stamp (timers s x) mod 2 ^ 96 = (stamp (timers s0 x) + int k * delay_units (per x)) mod 2 ^ 96"
    if "x \<in> set xs0" for x using prog that unfolding sx by blast
  have nn: "n \<in> set xs0" "near_timer s n" "n \<notin> set (m # ys)" using sx inv q
    by (auto simp: timer_inv_def queue_def links_def)
  obtain s1 where r: "timer_remove_head s = Inr s1" "queue s1 (m # ys)" "timer_target s1 = timer_target s"
    "\<And>k. ts_integer (timers s1 k) = ts_integer (timers s k)" "tsc s1 = tsc s" "timer_inited s1 = timer_inited s"
    "\<And>k. k \<noteq> n \<Longrightarrow> payload (timers s1 k) = payload (timers s k)"
    "ts_frac (timers s1 n) = ts_frac (timers s n)" "has_callback (timers s1 n) = has_callback (timers s n)"
    "flag TIMER_SPLIT (timers s1 n) = flag TIMER_SPLIT (timers s n)"
    by (rule remove_head_queue [OF q]) (rule that)
  have inv1: "timer_inv s1 (m # ys)" using remove_head_inv [OF inv] r(1) by auto
  define s2 where "s2 = upd_timer n (\<lambda>t. t\<lparr>in_callback := True\<rparr>) s1"
  have inv2: "timer_inv s2 (m # ys)" unfolding s2_def by (rule mark_inv [OF inv1]) simp
  have s2: "tsc s2 = tsc s" "ts_integer (timers s2 n) = ts_integer (timers s n)" "ts_frac (timers s2 n) = ts_frac (timers s n)"
    "has_callback (timers s2 n) = has_callback (timers s n)" "flag TIMER_SPLIT (timers s2 n) = flag TIMER_SPLIT (timers s n)"
    "\<And>k. k \<noteq> n \<Longrightarrow> payload (timers s2 k) = payload (timers s k)"
    using r by (simp_all add: s2_def flag_def)
  have pos: "0 < sint (int_delay (per n))" using rd [OF nn(1)] by (simp add: period_ready_def)
  have nr2: "near_timer s2 n" "dist_to s2 (ts_integer (timers s2 n)) \<le> 0"
    using nn(2) assms(3) by (simp_all add: s2 near_def dist_to_def key_def)
  have adv: "near s2 (ts_integer (advanced (per n) (timers s2 n)))"
    "dist_to s2 (ts_integer (timers s2 n)) < dist_to s2 (ts_integer (advanced (per n) (timers s2 n)))"
    using advanced_dist [OF nr2, of "per n"] pos by simp_all
  let ?zs = "\<lambda>t. insort_key (key t) n (remove1 n (m # ys))"
  obtain s3 where e: "timer_enable n (upd_timer n (advanced (per n)) s2) = Some (Inr s3)"
    "timer_inv s3 (?zs s3)" "tsc s3 = tsc s2" "ts_integer (timers s3 n) = ts_integer (advanced (per n) (timers s2 n))"
    "\<And>k. k \<noteq> n \<Longrightarrow> payload (timers s3 k) = payload (timers s2 k)"
    "has_callback (timers s3 n) = has_callback (advanced (per n) (timers s2 n))"
    "flag TIMER_SPLIT (timers s3 n) = flag TIMER_SPLIT (advanced (per n) (timers s2 n))"
    "ts_frac (timers s3 n) = ts_frac (advanced (per n) (timers s2 n))"
    by (rule arm_inv [OF inv2, of "advanced (per n)" n]) (simp add: advanced_def Let_def, rule adv(1), rule that)
  define t where "t = upd_timer n (\<lambda>t. t\<lparr>in_callback := False\<rparr>) s3"
  have fr: "fire tk (periodic per) n s1 = Some (Inr t)"
    using rd [OF nn(1)] r e(1) s2_def t_def
    by (simp add: fire_def period_ready_def periodic_def timer_advance_u64_def)
  have kt: "key t x = key s3 x" for x by (simp add: t_def key_def dist_to_def)
  have invt: "timer_inv t (?zs s3)" unfolding t_def by (rule mark_inv [OF e(2)]) simp
  have adf: "has_callback (advanced d u) = has_callback u" "t_flags (advanced d u) = t_flags u" for d u
    by (simp_all add: advanced_def Let_def)
  have other: "payload (timers t x) = payload (timers s x)" if "x \<noteq> n" for x
    using that e(5) s2(6) by (simp add: t_def)
  have tn: "ts_integer (timers t n) = ts_integer (advanced (per n) (timers s2 n))"
    "ts_frac (timers t n) = ts_frac (advanced (per n) (timers s2 n))"
    "has_callback (timers t n) = has_callback (timers s n)" "flag TIMER_SPLIT (timers t n) = flag TIMER_SPLIT (timers s n)"
    using e(4,6,7,8) s2(4,5) adf by (simp_all add: t_def flag_def)
  have zs: "set (?zs s3) = set xs0" unfolding sx [symmetric] set_insort_key remove1_idem [OF nn(3)] by simp
  have rdt: "period_ready per t x" if "x \<in> set xs0" for x
  proof (cases "x = n")
    case True
    then show ?thesis using rd [OF nn(1)] tn(3,4) by (simp add: period_ready_def)
  next
    case False
    note p = payloadD [OF other [OF False]]
    show ?thesis using rd [OF that] p(3) flag_cong [OF p(4), of TIMER_SPLIT] by (simp add: period_ready_def)
  qed
  have stt: "\<exists>k :: nat. stamp (timers t x) mod 2 ^ 96 = (stamp (timers s0 x) + int k * delay_units (per x)) mod 2 ^ 96"
    if x: "x \<in> set xs0" for x
  proof (cases "x = n")
    case False
    then have "stamp (timers t x) = stamp (timers s x)" using payloadD [OF other [OF False]] by (intro stamp_cong)
    then show ?thesis using st [OF x] by simp
  next
    case True
    from st [OF x] obtain k :: nat where k: "stamp (timers s x) mod 2 ^ 96 = (stamp (timers s0 x) + int k * delay_units (per x)) mod 2 ^ 96"
      by blast
    have "stamp (timers t x) mod 2 ^ 96 = stamp (advanced (per n) (timers s2 n)) mod 2 ^ 96"
      using tn(1,2) True by (simp add: stamp_def)
    also have "\<dots> = (stamp (timers s2 n) + delay_units (per n)) mod 2 ^ 96" by (rule stamp_advanced)
    also have "\<dots> = (stamp (timers s x) + delay_units (per x)) mod 2 ^ 96" using s2(2,3) True by (simp add: stamp_def)
    also have "\<dots> = ((stamp (timers s0 x) + int k * delay_units (per x)) + delay_units (per x)) mod 2 ^ 96"
      using k by (metis mod_add_left_eq)
    also have "\<dots> = (stamp (timers s0 x) + int (Suc k) * delay_units (per x)) mod 2 ^ 96" by (simp add: algebra_simps)
    finally show ?thesis by blast
  qed
  have "in_progress per s0 xs0 t (?zs s3)"
    unfolding in_progress_def using invt zs cc rdt stt e(3) s2(1) by (simp add: t_def)
  moreover have "key t x = key s x" if "x \<noteq> n" for x
    using payloadD(1) [OF other [OF that]] e(3) s2(1) by (simp add: key_def dist_to_def t_def)
  moreover have "key s n < key t n" using adv(2) e(3) s2(1,2) tn(1) by (simp add: key_def dist_to_def t_def)
  ultimately show thesis using r(1) fr that by blast
qed

lemma queue_head: "queue s xs \<Longrightarrow> timer_head s = first_or None xs"
  by (simp add: queue_def links_def)

definition overdue :: "tsys \<Rightarrow> nat list \<Rightarrow> nat" where
  "overdue s xs0 = (\<Sum>n \<in> set xs0. nat (1 - key s n))"

lemma overdue_less:
  assumes "n \<in> set xs0" "key s n \<le> 0" "key s n < key t n" "\<And>x. x \<noteq> n \<Longrightarrow> key t x = key s x"
  shows "overdue t xs0 < overdue s xs0"
  unfolding overdue_def
proof (rule sum_strict_mono_ex1)
  show "\<forall>x \<in> set xs0. nat (1 - key t x) \<le> nat (1 - key s x)"
  proof
    fix x show "nat (1 - key t x) \<le> nat (1 - key s x)"
      using assms(3) assms(4) [of x] by (cases "x = n") auto
  qed
  show "\<exists>x \<in> set xs0. nat (1 - key t x) < nat (1 - key s x)"
    using assms(1-3) by (intro bexI [of _ n]) auto
qed simp

lemma two_members:
  assumes "2 \<le> card (set xs)" obtains n m ys where "xs = n # m # ys"
proof (cases xs rule: remdups_adj.cases)
  case 3
  then show thesis using that by blast
qed (use assms in simp_all)

lemma process_loop_returns:
  assumes "in_progress per s0 xs0 s xs"
  shows "\<exists>t zs. process_loop tk (periodic per) s = Some (Inr t) \<and> in_progress per s0 xs0 t zs \<and>
     (\<forall>n \<in> set xs0. 0 < key t n)"
  using assms
proof (induction "overdue s xs0" arbitrary: s xs rule: less_induct)
  case less
  have inv: "timer_inv s xs" and sx: "set xs = set xs0" and two: "2 \<le> card (set xs)"
    using less.prems by (simp_all add: in_progress_def)
  from two_members [OF two] obtain n m ys where xs: "xs = n # m # ys" .
  have h: "timer_head s = Some n" using inv xs by (simp add: timer_inv_def queue_def links_def)
  have nx: "n \<in> set xs0" using sx xs by auto
  have so: "\<And>x. x \<in> set xs0 \<Longrightarrow> key s n \<le> key s x" using inv unfolding sx [symmetric] xs timer_inv_def by auto
  show ?case
  proof (cases "key s n \<le> 0")
    case False
    then have "process_loop tk (periodic per) s = Some (Inr s)"
      using h by (subst process_loop.simps) (simp add: val_less_now key_def)
    moreover have "0 < key s x" if "x \<in> set xs0" for x using so [OF that] False by simp
    ultimately show ?thesis using less.prems by blast
  next
    case True
    obtain s1 t zs where
      t: "timer_remove_head s = Inr s1" "fire tk (periodic per) n s1 = Some (Inr t)"
        "in_progress per s0 xs0 t zs" "\<And>x. x \<noteq> n \<Longrightarrow> key t x = key s x" "key s n < key t n"
      by (rule process_turn [OF less.prems xs True, of tk]) (rule that)
    have "process_loop tk (periodic per) s = process_loop tk (periodic per) t"
      using h True t(1,2) by (subst process_loop.simps) (simp add: val_less_now key_def)
    then show ?thesis using less.hyps [OF overdue_less [OF nx True t(5,4)] t(3)] by simp
  qed
qed

text \<open>C17: Processing periodic timers ends and keeps exact time. With at least two timers enabled,
  all with callbacks that resume them after a fixed positive period, \<open>timer_process\<close> returns; the
  same timers are enabled, none is due, the next deadline is the head's, and every timestamp has
  moved by a whole number of its periods, to the last fraction of a cycle (modulo the 96 bits of
  the fixed-point clock).\<close>

theorem timer_process_returns:
  assumes "timer_inv s xs" and "2 \<le> length xs" and "\<And>n. n \<in> set xs \<Longrightarrow> period_ready per s n"
  shows "\<exists>t ys. timer_process tk (periodic per) s = Some (Inr t) \<and> timer_inv t ys \<and> set ys = set xs \<and>
     tsc t = tsc s \<and> timer_target t = ts_integer (timers t (hd ys)) \<and>
     (\<forall>n \<in> set xs. \<not> val_less (ts_integer (timers t n)) (tsc t) \<and>
       (\<exists>k :: nat. stamp (timers t n) mod 2 ^ 96 = (stamp (timers s n) + int k * delay_units (per n)) mod 2 ^ 96))"
proof -
  have "distinct xs" using assms(1) by (simp add: timer_inv_def queue_def links_def)
  then have c: "2 \<le> card (set xs)" using assms(2) by (simp add: distinct_card)
  have "in_progress per s xs s xs"
    unfolding in_progress_def
  proof (intro conjI ballI assms(1) c refl)
    fix n assume "n \<in> set xs"
    then show "period_ready per s n" by (rule assms(3))
    show "\<exists>k :: nat. stamp (timers s n) mod 2 ^ 96 = (stamp (timers s n) + int k * delay_units (per n)) mod 2 ^ 96"
      by (rule exI [of _ 0]) simp
  qed
  from process_loop_returns [OF this, of tk] obtain t zs where
    t: "process_loop tk (periodic per) s = Some (Inr t)" "in_progress per s xs t zs" "\<forall>n \<in> set xs. 0 < key t n" by blast
  have tz: "timer_inv t zs" "set zs = set xs" "tsc t = tsc s" by (rule in_progressD [OF t(2)])+
  have "2 \<le> card (set zs)" unfolding tz(2) by (rule c)
  from two_members [OF this] obtain n m ys where zs: "zs = n # m # ys" .
  define u where "u = t\<lparr>timer_target := ts_integer (timers t n)\<rparr>"
  have h: "timer_head t = Some n" "timer_head s \<noteq> None"
    using queue_head [of t zs] queue_head [of s xs] tz(1) assms(1,2) unfolding zs timer_inv_def
    by (simp, cases xs) simp_all
  have p: "timer_process tk (periodic per) s = Some (Inr u)"
    unfolding timer_process_def if_not_P [OF h(2)] t(1) using h(1) by (simp add: u_def)
  have "timer_inv u zs" unfolding u_def by (rule retarget_inv [OF tz(1) h(1)])
  moreover have "\<not> val_less (ts_integer (timers u x)) (tsc u)" if "x \<in> set xs" for x
  proof -
    have "0 < key t x" using t(3) that by blast
    then show ?thesis by (simp add: u_def key_def dist_to_def val_less_def)
  qed
  moreover have "\<exists>k :: nat. stamp (timers u x) mod 2 ^ 96 = (stamp (timers s x) + int k * delay_units (per x)) mod 2 ^ 96"
    if "x \<in> set xs" for x
  proof -
    have "timers u = timers t" by (simp add: u_def)
    then show ?thesis using in_progressD(4) [OF t(2) that] by (simp only:)
  qed
  ultimately show ?thesis using p tz by (intro exI [of _ u] exI [of _ zs]) (simp add: u_def zs)
qed

lemma timer_process_returns_witness:
  "\<exists>t ys. timer_process (\<lambda>_ _. 0) (periodic (\<lambda>_. 4 * 2 ^ 32)) two_timers = Some (Inr t) \<and> timer_inv t ys"
proof -
  have "period_ready (\<lambda>_. 4 * 2 ^ 32) two_timers n" if "n \<in> set [7, 3]" for n
    using that by (auto simp: period_ready_def two_timers_def timer_blank_def idle_timer_def timer_init_def
        flag_def TIMER_SPLIT_def int_delay_def)
  from timer_process_returns [OF two_timers_inv _ this] show ?thesis by simp blast
qed

text \<open>Such runs are among the steps the reachable queues are made of.\<close>

lemma periodic_process_reached:
  assumes "timer_reach s" "splits_in_range tk (TIMER_USEC s)" "\<And>n. 0 \<le> sint (int_delay (per n))"
    and "timer_process tk (periodic per) s = Some (Inr t)"
  shows "timer_reach t"
proof -
  have "timer_step\<^sup>*\<^sup>* u v" if "due u n" "periodic per n u = Some (Inr v)" for n u v
  proof (rule r_into_rtranclp, rule timer_step.Advance)
    show "near u (ts_integer (advanced (per n) (timers u n)))"
      by (rule advanced_dist(1)) (use that(1) assms(3) in \<open>simp_all add: due_def val_less_now\<close>)
    show "timer_advance_u64 n (per n) u = Some (Inr v)" using that(2) by (simp add: periodic_def)
  qed
  then have "timer_step s t" using timer_step.Process [OF assms(2) _ assms(4)] by blast
  with assms(1) show ?thesis by (auto simp: timer_reach_def intro: rtranclp.rtrancl_into_rtrancl)
qed

text \<open>C31: The last timer may not expire. When the only enabled timer falls due, \<open>timer_process\<close>
  dereferences NULL: \<open>timer_remove_head\<close> writes through the new, empty head before the callback
  could arm anything.\<close>

theorem last_timer_expiring_faults:
  assumes "queue s [n]" and "val_less (ts_integer (timers s n)) (tsc s)"
  shows "timer_process tk cb s = Some (Inl Null_deref)"
proof -
  have h: "timer_head s = Some n" "t_next (timers s n) = None" using assms(1) by (auto simp: queue_def links_def)
  then have "timer_remove_head s = Inl Null_deref" by (simp add: timer_remove_head_def)
  then have "process_loop tk cb s = Some (Inl Null_deref)"
    using h assms(2) by (subst process_loop.simps) simp
  then show ?thesis using h by (simp add: timer_process_def)
qed

lemma last_timer_expiring_faults_witness:
  "timer_process (\<lambda>_ _. 0) (\<lambda>_ s. Some (Inr s)) (timer_blank\<lparr>timers := (\<lambda>_. idle_timer)(2 := idle_timer\<lparr>t_flags := 1\<rparr>), timer_head := Some 2\<rparr>) =
     Some (Inl Null_deref)"
  by (rule last_timer_expiring_faults [of _ 2])
    (simp_all add: queue_def links_def timer_blank_def timer_init_def idle_timer_def flag_def TIMER_ENABLED_def
      val_less_def)

text \<open>\<open>timer_close\<close> unlinks the head only. It returns with the list empty, but every other timer
  of the queue keeps its links and its enabled flag, against the intent that none keeps pointing
  to another: the loop clears \<open>next\<close> before it follows it.\<close>

theorem timer_close_keeps_links:
  assumes "queue s (h # m # ys)"
  shows "\<exists>t. timer_close s = Some t \<and> timer_head t = None \<and> t_next (timers t h) = None \<and>
     t_prev (timers t m) = Some h \<and> (\<forall>n \<in> set (m # ys). timers t n = timers s n \<and> timer_is_enabled n t)"
proof -
  have q: "timer_head s = Some h" "h \<notin> set (m # ys)" "t_prev (timers s m) = Some h"
    "\<And>n. n \<in> set (m # ys) \<Longrightarrow> flag TIMER_ENABLED (timers s n)"
    using assms by (auto simp: queue_def links_def)
  let ?u = "upd_timer h (\<lambda>q. q\<lparr>t_prev := None, t_next := None\<rparr>) s"
  have "close_loop None ?u = Some ?u" by (subst close_loop.simps) simp
  then have "close_loop (Some h) s = Some ?u" by (subst close_loop.simps) (simp add: Let_def)
  then have "timer_close s = Some (?u\<lparr>timer_head := None, timer_inited := False\<rparr>)"
    using q(1) by (simp add: timer_close_def)
  then show ?thesis using q by (auto simp: timer_is_enabled_def)
qed

lemma timer_close_keeps_links_witness:
  "\<exists>t. timer_close two_timers = Some t \<and> t_prev (timers t 3) = Some 7"
proof -
  have "queue two_timers [7, 3]" using two_timers_inv by (simp add: timer_inv_def)
  from timer_close_keeps_links [OF this] show ?thesis by blast
qed

end
