(* ===== verification/Inboard.thy ===== *)
theory Inboard
  imports Pic Dma Complex_Main
begin

text \<open>
  The accelerator card, \<open>86box_full/src/device/inboard386.c\<close>: its registers and shadow memory, its
  port handlers, the timing variables of the CPU core it overrides, reset, speed change,
  initialisation and close; with \<open>mem_a20_init\<close> and \<open>mem_a20_recalc\<close> (\<open>mem/mem.c\<close>), the address
  line the card gates, and \<open>inboard_post_fixups\<close> (\<open>cpu/386_dynarec.c\<close>), which the interpreters run
  before each instruction of a machine with the card.

  \<open>cpu_busspeed\<close> and the ratios computed from it are real numbers; the rounding of \<open>double\<close>
  arithmetic is the parameter \<open>fl\<close>, applied after each operation. \<open>getenv\<close> results are parameters.
  Allocation and the traces are left out, and a mapping is its enable flag and base: the page
  tables of \<open>mem.c\<close> are not modelled.
\<close>

section \<open>State\<close>

record inboard386 =
  is_xt :: bool
  speed :: u8
  port_a0 :: u8
  port_674 :: u8
  a20_enabled :: bool
  rom_shadow_enabled :: bool
  bios_shadow_mapping :: bool
  bios_shadow_alias_mapping :: "u32 option"
  video_shadow_alias_mapping :: bool
  ram_a31_alias_mapping :: bool
  video_shadow_ram :: "u16 \<Rightarrow> u8"
  bios_shadow_ram :: "u16 \<Rightarrow> u8"
  bios_rom_snapshot :: "u16 \<Rightarrow> u8"

text \<open>The cycle counts of the CPU core the card overrides.\<close>

record timing =
  cpu_waitstates :: int
  io_waitstates :: int
  reg_op_waitstates :: int
  cpu_prefetch_cycles :: int
  cpu_mem_prefetch_cycles :: int
  cpu_rom_prefetch_cycles :: int
  cpu_cycles_read :: int
  cpu_cycles_read_l :: int
  cpu_cycles_write :: int
  cpu_cycles_write_l :: int
  isa_cycles :: int

text \<open>The static variables of \<open>inboard_post_fixups\<close>.\<close>

record fixup_state =
  c000_ws_saved :: bool
  saved :: timing
  in_irq_selftest :: bool
  in_negative_test :: bool
  patchint68_done :: bool

record machine =
  dev :: inboard386
  tim :: timing
  fx :: fixup_state
  ram :: "u32 \<Rightarrow> u8"
  rammask :: u32
  mem_a20_key :: bool
  mem_a20_alt :: bool
  mem_a20_chipset :: bool
  mem_a20_state :: bool
  is286 :: bool
  is6117 :: bool
  cpu_16bitbus :: bool
  cpu_busspeed :: real
  cpu_s :: "(int \<times> int) option"
  mem_size :: nat
  ram_high :: "u32 \<times> u32 \<times> u32"
  inboard386_present :: bool
  m_pics :: pics
  m_dma :: dma_sys

definition upd_dev :: "(inboard386 \<Rightarrow> inboard386) \<Rightarrow> machine \<Rightarrow> machine" where
  "upd_dev f m = m\<lparr>dev := f (dev m)\<rparr>"

definition upd_tim :: "(timing \<Rightarrow> timing) \<Rightarrow> machine \<Rightarrow> machine" where
  "upd_tim f m = m\<lparr>tim := f (tim m)\<rparr>"

section \<open>The A20 gate\<close>

definition full_mask :: "machine \<Rightarrow> u32" where
  "full_mask m = (let r = (if cpu_16bitbus m then 0xffffff else 0xffffffff)
                  in if is6117 m then r OR 0x3000000 else r)"

definition a20_mask :: "machine \<Rightarrow> u32" where
  "a20_mask m = (let r = (if cpu_16bitbus m then 0xefffff else 0xffefffff)
                 in if is6117 m then r OR 0x3000000 else r)"

definition mem_a20_init :: "machine \<Rightarrow> machine" where
  "mem_a20_init m =
     m\<lparr>mem_a20_key := False, mem_a20_alt := False, mem_a20_state := False,
       rammask := (if is286 m then full_mask m else 0xfffff)\<rparr>"

definition mem_a20_recalc :: "machine \<Rightarrow> machine" where
  "mem_a20_recalc m =
     (if \<not> is286 m then m\<lparr>rammask := 0xfffff, mem_a20_key := False, mem_a20_alt := False,
                          mem_a20_state := False, mem_a20_chipset := False\<rparr>
      else
        let state = (mem_a20_key m \<or> mem_a20_alt m \<or> mem_a20_chipset m);
            m1 = (if state \<and> \<not> mem_a20_state m then m\<lparr>rammask := full_mask m\<rparr>
                  else if \<not> state \<and> mem_a20_state m then m\<lparr>rammask := a20_mask m\<rparr>
                  else m)
        in m1\<lparr>mem_a20_state := state\<rparr>)"

section \<open>Wait states\<close>

definition inboard_xt_waitstates :: "u8 list" where
  "inboard_xt_waitstates = [30, 28, 26, 24, 22, 20, 18, 16, 14, 12, 10, 8, 6, 4, 2, 0]"

definition inboard_at_waitstates :: "u8 list" where
  "inboard_at_waitstates = [94, 47, 24, 0]"

text \<open>The number of wait states selected; the code computes it and uses it no further.\<close>

definition waitstate_value :: "inboard386 \<Rightarrow> u8" where
  "waitstate_value d =
     (if is_xt d then 30 - (speed d AND 0x1e)
      else let idx = push_bit 1 (speed d AND 1) OR (drop_bit 7 (port_674 d) AND 1)
           in inboard_at_waitstates ! unat (idx AND 3))"

definition inboard386_apply_waitstates :: "machine \<Rightarrow> machine" where
  "inboard386_apply_waitstates m = upd_tim (\<lambda>t. t\<lparr>cpu_waitstates := 0\<rparr>) m"

text \<open>C conversion of a \<open>double\<close> to \<open>int\<close>.\<close>

definition trunc :: "real \<Rightarrow> int" where
  "trunc x = (if 0 \<le> x then floor x else ceiling x)"

definition bus_ratio :: "(real \<Rightarrow> real) \<Rightarrow> real \<Rightarrow> real" where
  "bus_ratio fl b = fl (b / 4772728)"

definition scaled_cycles :: "(real \<Rightarrow> real) \<Rightarrow> real \<Rightarrow> real \<Rightarrow> int" where
  "scaled_cycles fl baseline b = trunc (fl (fl (baseline * bus_ratio fl b) + 0.5))"

definition inboard386_apply_mem_timing :: "(real \<Rightarrow> real) \<Rightarrow> machine \<Rightarrow> machine" where
  "inboard386_apply_mem_timing fl m =
     (let nr0 = (case cpu_s m of Some (r, w) \<Rightarrow> r | None \<Rightarrow> 1);
          nw0 = (case cpu_s m of Some (r, w) \<Rightarrow> w | None \<Rightarrow> 1);
          nr = (if nr0 < 1 then 1 else nr0);
          nw = (if nw0 < 1 then 1 else nw0);
          wide = (if cpu_16bitbus m then 2 else 1)
      in if rom_shadow_enabled (dev m) \<or> cpu_busspeed m \<le> 4772728 then
           upd_tim (\<lambda>t. t\<lparr>cpu_prefetch_cycles := nr, cpu_mem_prefetch_cycles := nr, cpu_cycles_read := nr,
             cpu_cycles_read_l := wide * nr, cpu_cycles_write := nw, cpu_cycles_write_l := wide * nw\<rparr>) m
         else
           let rc = scaled_cycles fl 2 (cpu_busspeed m); rc' = (if rc < 2 then 2 else rc);
               wc = scaled_cycles fl 2 (cpu_busspeed m); wc' = (if wc < 2 then 2 else wc)
           in upd_tim (\<lambda>t. t\<lparr>cpu_prefetch_cycles := rc', cpu_mem_prefetch_cycles := rc', cpu_cycles_read := rc',
             cpu_cycles_read_l := wide * rc', cpu_cycles_write := wc', cpu_cycles_write_l := wide * wc'\<rparr>) m)"

definition extra_cycles :: "(real \<Rightarrow> real) \<Rightarrow> real \<Rightarrow> int" where
  "extra_cycles fl b =
     (if b \<le> 4772728 then 0
      else let e = trunc (fl (fl (fl (11 * bus_ratio fl b) - 11) + 0.5)) in if e < 0 then 0 else e)"

definition inboard386_apply_io_waitstates :: "(real \<Rightarrow> real) \<Rightarrow> machine \<Rightarrow> machine" where
  "inboard386_apply_io_waitstates fl m =
     upd_tim (\<lambda>t. t\<lparr>io_waitstates := extra_cycles fl (cpu_busspeed m)\<rparr>) m"

definition inboard386_apply_reg_op_waitstates :: "(real \<Rightarrow> real) \<Rightarrow> machine \<Rightarrow> machine" where
  "inboard386_apply_reg_op_waitstates fl m =
     upd_tim (\<lambda>t. t\<lparr>reg_op_waitstates := extra_cycles fl (cpu_busspeed m)\<rparr>) m"

definition inboard386_apply_isa_speed :: "machine \<Rightarrow> machine" where
  "inboard386_apply_isa_speed m = upd_tim (\<lambda>t. t\<lparr>isa_cycles := 2\<rparr>) m"

definition inboard386_apply_rom_prefetch :: "(real \<Rightarrow> real) \<Rightarrow> machine \<Rightarrow> machine" where
  "inboard386_apply_rom_prefetch fl m =
     (let b = cpu_busspeed m in
      if rom_shadow_enabled (dev m) then
        upd_tim (\<lambda>t. t\<lparr>cpu_rom_prefetch_cycles :=
          (if 8000000 < b then trunc (fl (b / 1000000)) else cpu_mem_prefetch_cycles t)\<rparr>) m
      else if b \<le> 4772728 then
        upd_tim (\<lambda>t. t\<lparr>cpu_rom_prefetch_cycles :=
          (let c = trunc (fl (b / 1000000)) in if c < 1 then 1 else c)\<rparr>) m
      else
        upd_tim (\<lambda>t. t\<lparr>cpu_rom_prefetch_cycles :=
          (let e = scaled_cycles fl 8 b in if e < 1 then 1 else e)\<rparr>) m)"

definition inboard386_apply_rom_shadow :: "machine \<Rightarrow> machine" where
  "inboard386_apply_rom_shadow m = m"

section \<open>The memory windows\<close>

text \<open>Accesses that A31 folds back onto the card's RAM; words are little endian.\<close>

definition inboard386_ram_a31_read :: "u32 \<Rightarrow> machine \<Rightarrow> u8" where
  "inboard386_ram_a31_read addr m = ram m (addr AND 0x7fffffff)"

definition inboard386_ram_a31_write :: "u32 \<Rightarrow> u8 \<Rightarrow> machine \<Rightarrow> machine" where
  "inboard386_ram_a31_write addr val m = m\<lparr>ram := (ram m)(addr AND 0x7fffffff := val)\<rparr>"

definition inboard386_ram_a31_readw :: "u32 \<Rightarrow> machine \<Rightarrow> u16" where
  "inboard386_ram_a31_readw addr m =
     (let a = addr AND 0x7fffffff in word16 (ram m a) (ram m (a + 1)))"

definition inboard386_ram_a31_writew :: "u32 \<Rightarrow> u16 \<Rightarrow> machine \<Rightarrow> machine" where
  "inboard386_ram_a31_writew addr val m =
     (let a = addr AND 0x7fffffff in m\<lparr>ram := (ram m)(a := lo8 val, a + 1 := hi8 val)\<rparr>)"

definition byte_of :: "nat \<Rightarrow> u32 \<Rightarrow> u8" where
  "byte_of i v = ucast (drop_bit (8 * i) v)"

definition inboard386_ram_a31_readl :: "u32 \<Rightarrow> machine \<Rightarrow> u32" where
  "inboard386_ram_a31_readl addr m =
     (let a = addr AND 0x7fffffff
      in ucast (ram m a) OR push_bit 8 (ucast (ram m (a + 1))) OR
         push_bit 16 (ucast (ram m (a + 2))) OR push_bit 24 (ucast (ram m (a + 3))))"

definition inboard386_ram_a31_writel :: "u32 \<Rightarrow> u32 \<Rightarrow> machine \<Rightarrow> machine" where
  "inboard386_ram_a31_writel addr val m =
     (let a = addr AND 0x7fffffff
      in m\<lparr>ram := (ram m)(a := byte_of 0 val, a + 1 := byte_of 1 val, a + 2 := byte_of 2 val,
                         a + 3 := byte_of 3 val)\<rparr>)"

text \<open>\<open>addr & 0xffff\<close> as an index.\<close>

definition offset16 :: "u32 \<Rightarrow> u16" where
  "offset16 addr = ucast (addr AND 0xffff)"

definition inboard386_video_shadow_read :: "u32 \<Rightarrow> machine \<Rightarrow> u8" where
  "inboard386_video_shadow_read addr m = video_shadow_ram (dev m) (offset16 addr)"

definition inboard386_video_shadow_write :: "u32 \<Rightarrow> u8 \<Rightarrow> machine \<Rightarrow> machine" where
  "inboard386_video_shadow_write addr val m =
     upd_dev (\<lambda>d. d\<lparr>video_shadow_ram := (video_shadow_ram d)(offset16 addr := val)\<rparr>) m"

definition inboard386_bios_shadow_read :: "u32 \<Rightarrow> machine \<Rightarrow> u8" where
  "inboard386_bios_shadow_read addr m =
     (if 0x100000 \<le> addr then bios_shadow_ram (dev m) (offset16 addr)
      else if rom_shadow_enabled (dev m) then bios_shadow_ram (dev m) (offset16 addr)
      else bios_rom_snapshot (dev m) (offset16 addr))"

definition inboard386_bios_shadow_write :: "u32 \<Rightarrow> u8 \<Rightarrow> machine \<Rightarrow> machine" where
  "inboard386_bios_shadow_write addr val m =
     upd_dev (\<lambda>d. d\<lparr>bios_shadow_ram := (bios_shadow_ram d)(offset16 addr := val)\<rparr>) m"

section \<open>The ports\<close>

definition inboard386_write_60 :: "u8 \<Rightarrow> machine \<Rightarrow> machine" where
  "inboard386_write_60 val m =
     (if \<not> is_xt (dev m) then m
      else if val = 0xdd \<or> val = 0xdf then
        let on = (val = 0xdf)
        in mem_a20_recalc ((upd_dev (\<lambda>d. d\<lparr>a20_enabled := on\<rparr>) m)\<lparr>mem_a20_alt := on\<rparr>)
      else m)"

definition inboard386_read_64 :: u8 where "inboard386_read_64 = 0x00"

definition inboard386_write_a0 :: "u8 \<Rightarrow> machine \<Rightarrow> machine" where
  "inboard386_write_a0 val m =
     (if \<not> is_xt (dev m) then m
      else inboard386_apply_waitstates (upd_dev (\<lambda>d. d\<lparr>port_a0 := val\<rparr>) m))"

definition inboard386_read_a1 :: u8 where "inboard386_read_a1 = 0xff"

definition inboard386_write_a1 :: "u8 \<Rightarrow> machine \<Rightarrow> machine" where
  "inboard386_write_a1 val m = m"

definition inboard386_write_670 :: "(real \<Rightarrow> real) \<Rightarrow> u8 \<Rightarrow> machine \<Rightarrow> machine" where
  "inboard386_write_670 fl val m =
     inboard386_apply_mem_timing fl
       (inboard386_apply_rom_prefetch fl
         (inboard386_apply_waitstates
           (inboard386_apply_rom_shadow
             (upd_dev (\<lambda>d. d\<lparr>speed := val AND 0x1f, rom_shadow_enabled := (val AND 0x1f) AND 1 \<noteq> 0\<rparr>) m))))"

definition inboard386_write_674 :: "u8 \<Rightarrow> machine \<Rightarrow> machine" where
  "inboard386_write_674 val m =
     (if is_xt (dev m) then m
      else inboard386_apply_waitstates (upd_dev (\<lambda>d. d\<lparr>port_674 := val\<rparr>) m))"

section \<open>Reset, speed change, initialisation\<close>

text \<open>\<open>backfill\<close> is whether \<open>INBOARD_BACKFILL\<close> is set.\<close>

definition inboard386_reset :: "(real \<Rightarrow> real) \<Rightarrow> bool \<Rightarrow> machine \<Rightarrow> machine" where
  "inboard386_reset fl backfill m =
     (let m1 = upd_dev (\<lambda>d. d\<lparr>speed := 0, port_674 := 0, port_a0 := 0x80, a20_enabled := False,
                 rom_shadow_enabled := False, bios_shadow_mapping := True,
                 video_shadow_alias_mapping := True\<rparr>) m;
          m2 = (if is_xt (dev m1) \<and> 1024 < mem_size m1 \<and> backfill
                then m1\<lparr>ram_high := (0x100000, word_of_nat (mem_size m1) * 1024 - 0xa0000, 0xa0000)\<rparr>
                else m1)
      in inboard386_apply_reg_op_waitstates fl
           (inboard386_apply_mem_timing fl
             (inboard386_apply_isa_speed
               (inboard386_apply_rom_prefetch fl
                 (inboard386_apply_io_waitstates fl
                   (inboard386_apply_waitstates (inboard386_apply_rom_shadow m2)))))))"

definition inboard386_speed_changed :: "(real \<Rightarrow> real) \<Rightarrow> machine \<Rightarrow> machine" where
  "inboard386_speed_changed fl m =
     inboard386_apply_reg_op_waitstates fl
       (inboard386_apply_mem_timing fl
         (inboard386_apply_isa_speed
           (inboard386_apply_rom_prefetch fl (inboard386_apply_io_waitstates fl m))))"

definition INBOARD_SHADOW_ALIAS :: u32 where "INBOARD_SHADOW_ALIAS = 0x5f0000"
definition INBOARD_VIDEO_SHADOW_ALIAS :: u32 where "INBOARD_VIDEO_SHADOW_ALIAS = 0x5e0000"

text \<open>\<open>rom\<close> is what \<open>mem_readb_phys\<close> returns at this point, \<open>alias_env\<close> the value of
  \<open>INBOARD_ALIAS_BASE\<close> if it is set, \<open>local_at\<close> bit 0 of the device's \<open>local\<close>.\<close>

definition inboard386_init ::
  "(real \<Rightarrow> real) \<Rightarrow> bool \<Rightarrow> u32 option \<Rightarrow> (u32 \<Rightarrow> u8) \<Rightarrow> bool \<Rightarrow> machine \<Rightarrow> machine" where
  "inboard386_init fl backfill alias_env rom local_at m =
     (let shadow = (\<lambda>a :: u16. rom (0xf0000 + ucast a));
          alias_base = (case alias_env of None \<Rightarrow> INBOARD_SHADOW_ALIAS | Some b \<Rightarrow> b);
          m1 = m\<lparr>dev := \<lparr>is_xt = \<not> local_at, speed = 0, port_a0 = 0, port_674 = 0, a20_enabled = False,
                   rom_shadow_enabled = False, bios_shadow_mapping = True,
                   bios_shadow_alias_mapping = Some alias_base, video_shadow_alias_mapping = True,
                   ram_a31_alias_mapping = True, video_shadow_ram = (\<lambda>_. 0),
                   bios_shadow_ram = shadow, bios_rom_snapshot = shadow\<rparr>,
                 inboard386_present := True\<rparr>;
          m2 = (if is_xt (dev m1)
                then m1\<lparr>m_pics := pic_set_force_xt_imr_timing True (m_pics m1),
                        m_dma := dma_set_force_xt True (m_dma m1)\<rparr>
                else m1)
      in inboard386_reset fl backfill m2)"

definition inboard386_close :: "machine \<Rightarrow> machine" where
  "inboard386_close m =
     (let m1 = (if is_xt (dev m)
                then m\<lparr>m_pics := pic_set_force_xt_imr_timing False (m_pics m)\<rparr> else m)
      in m1\<lparr>inboard386_present := False\<rparr>)"

section \<open>The POST fix-ups\<close>

record cpu_regs =
  CS :: u16
  pc :: u32
  AX :: u16
  BX :: u16

text \<open>Entering and leaving the segment of the video option ROM.\<close>

definition video_rom_timing :: "timing \<Rightarrow> timing" where
  "video_rom_timing t =
     t\<lparr>io_waitstates := 0, reg_op_waitstates := 0, cpu_prefetch_cycles := 1, cpu_mem_prefetch_cycles := 1,
       cpu_rom_prefetch_cycles := 1, cpu_cycles_read := 1, cpu_cycles_read_l := 1,
       cpu_cycles_write := 1, cpu_cycles_write_l := 1, isa_cycles := 1\<rparr>"

definition restored_timing :: "timing \<Rightarrow> timing \<Rightarrow> timing" where
  "restored_timing sv t =
     t\<lparr>io_waitstates := io_waitstates sv, reg_op_waitstates := reg_op_waitstates sv,
       cpu_prefetch_cycles := cpu_prefetch_cycles sv, cpu_mem_prefetch_cycles := cpu_mem_prefetch_cycles sv,
       cpu_rom_prefetch_cycles := cpu_rom_prefetch_cycles sv, cpu_cycles_read := cpu_cycles_read sv,
       cpu_cycles_read_l := cpu_cycles_read_l sv, cpu_cycles_write := cpu_cycles_write sv,
       cpu_cycles_write_l := cpu_cycles_write_l sv, isa_cycles := isa_cycles sv\<rparr>"

definition upd_fix :: "(fixup_state \<Rightarrow> fixup_state) \<Rightarrow> machine \<Rightarrow> machine" where
  "upd_fix f m = m\<lparr>fx := f (fx m)\<rparr>"

definition option_rom_fixup :: "cpu_regs \<Rightarrow> machine \<Rightarrow> machine" where
  "option_rom_fixup r m =
     (if CS r = 0xc000 then
        (if \<not> c000_ws_saved (fx m)
         then upd_tim video_rom_timing (upd_fix (\<lambda>f. f\<lparr>c000_ws_saved := True, saved := tim m\<rparr>) m)
         else m)
      else if c000_ws_saved (fx m)
      then upd_tim (restored_timing (saved (fx m))) (upd_fix (\<lambda>f. f\<lparr>c000_ws_saved := False\<rparr>) m)
      else m)"

definition delay_loop_fixup :: "cpu_regs \<Rightarrow> cpu_regs" where
  "delay_loop_fixup r =
     (if CS r = 0xc000 \<and> (pc r = 0x7b37 \<or> pc r = 0x7b23 \<or> pc r = 0x7b16) \<and> AX r \<le> BX r
      then r\<lparr>AX := BX r + 1\<rparr> else r)"

definition clear_irqs :: "u16 \<Rightarrow> machine \<Rightarrow> machine" where
  "clear_irqs num m = m\<lparr>m_pics := picintc num (m_pics m)\<rparr>"

definition irq_selftest_fixup :: "cpu_regs \<Rightarrow> machine \<Rightarrow> machine" where
  "irq_selftest_fixup r m0 =
     (let m1 = (if CS r = 0xf000 \<and> pc r = 0xe362 \<and> \<not> in_irq_selftest (fx m0)
                then upd_fix (\<lambda>f. f\<lparr>in_irq_selftest := True\<rparr>) m0 else m0);
          m2 = (if (in_irq_selftest (fx m1) \<or> in_negative_test (fx m1)) \<and>
                   (CS r \<noteq> 0xf000 \<or> pc r < 0xe362 \<or> 0xe3c6 < pc r)
                then upd_fix (\<lambda>f. f\<lparr>in_irq_selftest := False, in_negative_test := False\<rparr>) m1 else m1);
          m3 = (if in_irq_selftest (fx m2) then
                  let c = clear_irqs 2 m2
                  in if CS r = 0xf000 \<and> (pc r = 0xe3ae \<or> pc r = 0xe38e \<or> pc r = 0xe3ad)
                     then upd_fix (\<lambda>f. f\<lparr>in_irq_selftest := False, in_negative_test := (pc r = 0xe3ae)\<rparr>) c
                     else c
                else m2)
      in if in_negative_test (fx m3) then
           let c = clear_irqs 2 (clear_irqs 1 m3)
           in if CS r = 0xf000 \<and> (pc r = 0xe3c6 \<or> pc r = 0xe38e)
              then upd_fix (\<lambda>f. f\<lparr>in_negative_test := False\<rparr>) c else c
         else m3)"

definition int68_fixup :: "cpu_regs \<Rightarrow> machine \<Rightarrow> machine" where
  "int68_fixup r m =
     (if \<not> patchint68_done (fx m) \<and> CS r = 0x0eaf
      then (upd_fix (\<lambda>f. f\<lparr>patchint68_done := True\<rparr>) m)
             \<lparr>ram := (ram m)(0x1a0 := 0x53, 0x1a1 := 0xff, 0x1a2 := 0x00, 0x1a3 := 0xf0)\<rparr>
      else m)"

definition inboard_post_fixups :: "cpu_regs \<Rightarrow> machine \<Rightarrow> cpu_regs \<times> machine" where
  "inboard_post_fixups r0 m =
     (let m1 = option_rom_fixup r0 m;
          r1 = delay_loop_fixup r0;
          m2 = irq_selftest_fixup r1 m1;
          r2 = (if CS r1 = 0xf000 \<and> pc r1 = 0xe507 then r1\<lparr>AX := AX r1 OR 0x01\<rparr> else r1)
      in (r2, int68_fixup r2 m2))"

end
