(* ===== verification/Inboard_Service.thy ===== *)
theory Inboard_Service
  imports Inboard
begin

text \<open>
  What the card does for its software: the A20 gate follows the last command, the shadow window
  is a bank that always takes writes, slower buses never get more cycles, and the timing of the
  video option ROM is undone on leaving it.
\<close>

section \<open>The A20 gate\<close>







lemma upd_dev_sel [simp]:
  "dev (upd_dev f m) = f (dev m)" "is286 (upd_dev f m) = is286 m" "mem_a20_key (upd_dev f m) = mem_a20_key m"
  "mem_a20_chipset (upd_dev f m) = mem_a20_chipset m" "mem_a20_alt (upd_dev f m) = mem_a20_alt m"
  "mem_a20_state (upd_dev f m) = mem_a20_state m" "rammask (upd_dev f m) = rammask m" "tim (upd_dev f m) = tim m"
  "cpu_busspeed (upd_dev f m) = cpu_busspeed m" "fx (upd_dev f m) = fx m" "ram (upd_dev f m) = ram m"
  by (simp_all add: upd_dev_def)






section \<open>The shadow windows\<close>

datatype shadow_op = Shadow_write u32 u8 | Speed_write u8

definition shadow_exec :: "(real \<Rightarrow> real) \<Rightarrow> shadow_op \<Rightarrow> machine \<Rightarrow> machine" where
  "shadow_exec fl op m = (case op of Shadow_write a v \<Rightarrow> inboard386_bios_shadow_write a v m
     | Speed_write v \<Rightarrow> inboard386_write_670 fl v m)"

text \<open>The abstract window: a 64K store that takes every write, and a switch.\<close>

record shadow_bank =
  store :: "u16 \<Rightarrow> u8"
  switched :: bool

definition bank_exec :: "shadow_op \<Rightarrow> shadow_bank \<Rightarrow> shadow_bank" where
  "bank_exec op b = (case op of Shadow_write a v \<Rightarrow> b\<lparr>store := (store b)(offset16 a := v)\<rparr>
     | Speed_write v \<Rightarrow> b\<lparr>switched := tst v 0\<rparr>)"

definition bank_of :: "machine \<Rightarrow> shadow_bank" where
  "bank_of m = \<lparr>store = bios_shadow_ram (dev m), switched = rom_shadow_enabled (dev m)\<rparr>"

lemma upd_tim_sel [simp]:
  "dev (upd_tim f m) = dev m" "tim (upd_tim f m) = f (tim m)" "cpu_busspeed (upd_tim f m) = cpu_busspeed m"
  "fx (upd_tim f m) = fx m" "cpu_s (upd_tim f m) = cpu_s m" "cpu_16bitbus (upd_tim f m) = cpu_16bitbus m"
  by (simp_all add: upd_tim_def)

lemma apply_dev [simp]:
  "dev (inboard386_apply_mem_timing fl m) = dev m" "dev (inboard386_apply_rom_prefetch fl m) = dev m"
  "dev (inboard386_apply_waitstates m) = dev m" "dev (inboard386_apply_rom_shadow m) = dev m"
  "dev (inboard386_apply_io_waitstates fl m) = dev m" "dev (inboard386_apply_reg_op_waitstates fl m) = dev m"
  "dev (inboard386_apply_isa_speed m) = dev m"
  by (simp_all add: inboard386_apply_mem_timing_def inboard386_apply_rom_prefetch_def Let_def
      inboard386_apply_waitstates_def inboard386_apply_rom_shadow_def inboard386_apply_io_waitstates_def
      inboard386_apply_reg_op_waitstates_def inboard386_apply_isa_speed_def)

lemma speed_bit0: "(v AND 0x1f) AND 1 \<noteq> 0 \<longleftrightarrow> tst v 0" for v :: u8
proof -
  have "(v AND 0x1f) AND 1 = v AND (0x1f AND 1)" by (rule and.assoc)
  then show ?thesis by (simp add: tst_def bitmask_def)
qed

text \<open>One card operation is one operation of the bank; the ROM snapshot never changes.\<close>

lemma bank_simulation:
  "bank_of (shadow_exec fl op m) = bank_exec op (bank_of m) \<and>
   bios_rom_snapshot (dev (shadow_exec fl op m)) = bios_rom_snapshot (dev m)"
  by (cases op) (simp_all add: shadow_exec_def bank_exec_def bank_of_def inboard386_bios_shadow_write_def
      inboard386_write_670_def speed_bit0)

lemma bank_run:
  "bank_of (fold (shadow_exec fl) ops m) = fold bank_exec ops (bank_of m) \<and>
   bios_rom_snapshot (dev (fold (shadow_exec fl) ops m)) = bios_rom_snapshot (dev m)"
  by (induction ops arbitrary: m) (simp_all add: bank_simulation)

lemma init_bank:
  "bank_of (inboard386_init fl bf ae rom l m) = \<lparr>store = (\<lambda>a. rom (0xf0000 + ucast a)), switched = False\<rparr> \<and>
   bios_rom_snapshot (dev (inboard386_init fl bf ae rom l m)) = (\<lambda>a. rom (0xf0000 + ucast a))"
  by (simp add: inboard386_init_def inboard386_reset_def Let_def bank_of_def upd_dev_def)

text \<open>C27: The BIOS shadow refines a bank of RAM with a read switch. From initialisation, and for
  every sequence of writes through either window and of speed settings (port 0x670), the window
  above 1 MB reads the bank, in which every write has landed whatever the switch, and the window
  at F0000 reads the bank while bit 0 of the last speed setting is set and otherwise the ROM as
  it was at initialisation.\<close>

theorem shadow_window_refines_bank:
  "inboard386_bios_shadow_read addr
     (fold (shadow_exec fl) ops (inboard386_init fl backfill alias_env rom local_at m)) =
   (let b = fold bank_exec ops \<lparr>store = (\<lambda>a. rom (0xf0000 + ucast a)), switched = False\<rparr>
    in if 0x100000 \<le> addr \<or> switched b then store b (offset16 addr)
       else rom (0xf0000 + ucast (offset16 addr)))"
proof -
  let ?i = "inboard386_init fl backfill alias_env rom local_at m"
  let ?m = "fold (shadow_exec fl) ops ?i" and ?b = "fold bank_exec ops (bank_of ?i)"
  have b: "bank_of ?m = ?b" "bios_rom_snapshot (dev ?m) = (\<lambda>a. rom (0xf0000 + ucast a))"
    using bank_run [of fl ops ?i] init_bank [of fl backfill alias_env rom local_at m] by simp_all
  have "bios_shadow_ram (dev ?m) = store (bank_of ?m)" "rom_shadow_enabled (dev ?m) = switched (bank_of ?m)"
    by (simp_all add: bank_of_def)
  then show ?thesis using init_bank [of fl backfill alias_env rom local_at m]
    unfolding inboard386_bios_shadow_read_def b Let_def by simp
qed


section \<open>Speed\<close>

text \<open>The level formula of the XT card is its table of wait states.\<close>

lemma bit_1e: "bit (0x1e :: u8) n \<longleftrightarrow> 1 \<le> n \<and> n < 5"
proof -
  have e: "(0x1e :: u8) = push_bit 1 (mask 4)" by (simp add: mask_eq_exp_minus_1)
  show ?thesis unfolding e by (simp only: bit_push_bit_iff bit_mask_iff) auto
qed

lemma level_of_speed: "s AND 0x1e = 2 * take_bit 4 (drop_bit 1 (s :: u8))"
proof -
  have "s AND 0x1e = push_bit 1 (take_bit 4 (drop_bit 1 s))"
    by (rule bit_word_eqI)
      (simp only: bit_and_iff bit_1e bit_push_bit_iff bit_take_bit_iff bit_drop_bit_eq comp_apply, auto)
  then show ?thesis by (simp add: push_bit_eq_mult)
qed

lemma level_table: "i < 16 \<Longrightarrow> 30 - 2 * word_of_nat i = inboard_xt_waitstates ! i"
proof -
  have "\<forall>j \<in> set [0..<16]. (30 :: u8) - 2 * word_of_nat j = inboard_xt_waitstates ! j"
    by (simp add: upt_rec inboard_xt_waitstates_def)
  then show "i < 16 \<Longrightarrow> ?thesis" by simp
qed

lemma waitstates_of_table:
  "is_xt d \<Longrightarrow> waitstate_value d = inboard_xt_waitstates ! unat (take_bit 4 (drop_bit 1 (speed d)))"
proof -
  let ?i = "unat (take_bit 4 (drop_bit 1 (speed d)))"
  have "?i < 16" unfolding unsigned_take_bit_eq by (simp add: take_bit_eq_mod)
  from level_table [OF this] show "is_xt d \<Longrightarrow> ?thesis" by (simp add: waitstate_value_def level_of_speed)
qed

text \<open>What is used of the rounding of \<open>double\<close> arithmetic: it is monotone and exact on the
  integers and half integers that occur as baselines.\<close>

definition rounding :: "(real \<Rightarrow> real) \<Rightarrow> bool" where
  "rounding fl \<longleftrightarrow> mono fl \<and> (\<forall>k :: int. \<bar>k\<bar> < 2 ^ 40 \<longrightarrow> fl (of_int k / 2) = of_int k / 2)"

lemma fl_mono: "rounding fl \<Longrightarrow> x \<le> y \<Longrightarrow> fl x \<le> fl y"
  by (simp add: rounding_def mono_def)

lemma fl_int: "rounding fl \<Longrightarrow> \<bar>2 * k\<bar> < 2 ^ 40 \<Longrightarrow> fl (of_int k) = of_int k"
  unfolding rounding_def by (elim conjE allE [of _ "2 * k"]) simp

lemma trunc_mono: "x \<le> y \<Longrightarrow> trunc x \<le> trunc y"
proof (cases "0 \<le> x")
  case True
  then show "x \<le> y \<Longrightarrow> trunc x \<le> trunc y" by (simp add: trunc_def floor_mono)
next
  case False
  assume "x \<le> y"
  have "\<lceil>x\<rceil> \<le> 0" using False by (simp add: ceiling_le_zero)
  moreover have "0 \<le> y \<Longrightarrow> 0 \<le> \<lfloor>y\<rfloor>" by simp
  ultimately show ?thesis
    using False \<open>x \<le> y\<close> order.trans [of "\<lceil>x\<rceil>" 0 "\<lfloor>y\<rfloor>"] by (auto simp: trunc_def ceiling_mono)
qed

lemma bus_ratio_mono: "rounding fl \<Longrightarrow> b \<le> c \<Longrightarrow> bus_ratio fl b \<le> bus_ratio fl c"
  by (simp add: bus_ratio_def fl_mono divide_right_mono)

lemma scaled_mono:
  assumes "rounding fl" "0 \<le> baseline" "b \<le> c" shows "scaled_cycles fl baseline b \<le> scaled_cycles fl baseline c"
  unfolding scaled_cycles_def
  by (intro trunc_mono fl_mono [OF assms(1)] add_right_mono mult_left_mono bus_ratio_mono assms)

lemma extra_mono:
  assumes "rounding fl" "b \<le> c" shows "extra_cycles fl b \<le> extra_cycles fl c"
proof -
  have "trunc (fl (fl (fl (11 * bus_ratio fl b) - 11) + 0.5)) \<le> trunc (fl (fl (fl (11 * bus_ratio fl c) - 11) + 0.5))"
    by (intro trunc_mono fl_mono [OF assms(1)] add_right_mono diff_right_mono mult_left_mono bus_ratio_mono assms) simp
  then show ?thesis using assms(2) by (auto simp: extra_cycles_def Let_def)
qed

text \<open>The card as far as its timing goes: bus speed \<open>b\<close>, not shadowed.\<close>

definition slow_card :: "(real \<Rightarrow> real) \<Rightarrow> real \<Rightarrow> machine \<Rightarrow> timing" where
  "slow_card fl b m = tim (inboard386_reset fl False (m\<lparr>cpu_busspeed := b\<rparr>))"

lemma reset_timing:
  "cpu_cycles_read (slow_card fl b m) = (if b \<le> 4772728 then (case cpu_s m of Some (r, w) \<Rightarrow> max r 1 | None \<Rightarrow> 1)
      else max 2 (scaled_cycles fl 2 b))"
  "io_waitstates (slow_card fl b m) = extra_cycles fl b"
  "reg_op_waitstates (slow_card fl b m) = extra_cycles fl b"
  "cpu_rom_prefetch_cycles (slow_card fl b m) =
     (if b \<le> 4772728 then max 1 (trunc (fl (b / 1000000))) else max 1 (scaled_cycles fl 8 b))"
  "cpu_waitstates (slow_card fl b m) = 0"
  by (auto simp: slow_card_def inboard386_reset_def Let_def inboard386_apply_mem_timing_def
      inboard386_apply_rom_prefetch_def inboard386_apply_waitstates_def inboard386_apply_rom_shadow_def
      inboard386_apply_io_waitstates_def inboard386_apply_reg_op_waitstates_def inboard386_apply_isa_speed_def
      upd_tim_def upd_dev_def max_def split: option.splits prod.splits)

text \<open>A faster bus never gets fewer wait cycles. While the BIOS is not shadowed, the cycles the
  card adds to I/O and to register operations, and those of a memory read or a ROM fetch, do not
  decrease with the bus speed above that of the XT; none is less than the card's minimum, the
  I/O and register compensation is zero at or below XT speed, and the card leaves the CPU core's
  own wait states at zero. For every monotone rounding of \<open>double\<close> arithmetic.\<close>

theorem faster_bus_keeps_pace:
  assumes "rounding fl" and "4772728 < b" and "b \<le> c"
  shows "cpu_cycles_read (slow_card fl b m) \<le> cpu_cycles_read (slow_card fl c m) \<and>
     cpu_rom_prefetch_cycles (slow_card fl b m) \<le> cpu_rom_prefetch_cycles (slow_card fl c m) \<and>
     io_waitstates (slow_card fl b m) \<le> io_waitstates (slow_card fl c m) \<and>
     reg_op_waitstates (slow_card fl b m) \<le> reg_op_waitstates (slow_card fl c m) \<and>
     2 \<le> cpu_cycles_read (slow_card fl b m) \<and> 8 \<le> cpu_rom_prefetch_cycles (slow_card fl b m) \<and>
     io_waitstates (slow_card fl 4772728 m) = 0 \<and> cpu_waitstates (slow_card fl b m) = 0"
proof -
  have "8 \<le> scaled_cycles fl 8 b"
  proof -
    have "fl (of_int 1) \<le> bus_ratio fl b" using assms(2) by (simp add: bus_ratio_def fl_mono [OF assms(1)])
    then have "1 \<le> bus_ratio fl b" using fl_int [OF assms(1), of 1] by simp
    then have "fl (of_int 8) \<le> fl (8 * bus_ratio fl b)" by (intro fl_mono [OF assms(1)]) simp
    then have "8 \<le> fl (8 * bus_ratio fl b)" using fl_int [OF assms(1), of 8] by simp
    then have "fl (of_int 8) \<le> fl (fl (8 * bus_ratio fl b) + 0.5)" by (intro fl_mono [OF assms(1)]) simp
    then have "8 \<le> fl (fl (8 * bus_ratio fl b) + 0.5)" using fl_int [OF assms(1), of 8] by simp
    then show ?thesis by (simp add: scaled_cycles_def trunc_def le_floor_iff)
  qed
  then show ?thesis
    using scaled_mono [OF assms(1) _ assms(3), of 2] scaled_mono [OF assms(1) _ assms(3), of 8]
      extra_mono [OF assms(1,3)] assms(2,3)
    by (simp add: reset_timing) (simp add: extra_cycles_def)
qed

lemma rounding_id: "rounding id"
  by (simp add: rounding_def mono_def)

lemma faster_bus_keeps_pace_witness:
  "\<exists>m. cpu_cycles_read (slow_card id 25000000 m) \<le> cpu_cycles_read (slow_card id 40000000 m)"
  using faster_bus_keeps_pace [OF rounding_id, of 25000000 40000000 undefined] by (intro exI [of _ undefined]) simp

section \<open>The timing of the video option ROM\<close>

text \<open>What can happen while the CPU runs in the option ROM's segment.\<close>

datatype rom_event = Instr cpu_regs | Port_60 u8 | Port_a0 u8 | Port_670 u8 | Port_674 u8
  | Card_reset bool | Speed_changed real

definition rom_exec :: "(real \<Rightarrow> real) \<Rightarrow> rom_event \<Rightarrow> machine \<Rightarrow> machine" where
  "rom_exec fl e m = (case e of Instr r \<Rightarrow> snd (inboard_post_fixups (r\<lparr>CS := 0xc000\<rparr>) m)
     | Port_60 v \<Rightarrow> inboard386_write_60 v m | Port_a0 v \<Rightarrow> inboard386_write_a0 v m
     | Port_670 v \<Rightarrow> inboard386_write_670 fl v m | Port_674 v \<Rightarrow> inboard386_write_674 v m
     | Card_reset bf \<Rightarrow> inboard386_reset fl bf m
     | Speed_changed b \<Rightarrow> inboard386_speed_changed fl (m\<lparr>cpu_busspeed := b\<rparr>))"

lemma upd_fix_sel [simp]:
  "fx (upd_fix f m) = f (fx m)" "tim (upd_fix f m) = tim m" "dev (upd_fix f m) = dev m"
  by (simp_all add: upd_fix_def)

lemma clear_irqs_sel [simp]: "fx (clear_irqs n m) = fx m" "tim (clear_irqs n m) = tim m"
  by (simp_all add: clear_irqs_def)

definition saving :: "machine \<Rightarrow> bool \<times> timing" where
  "saving m = (c000_ws_saved (fx m), saved (fx m))"

lemma irq_fixup_frame: "saving (irq_selftest_fixup r m) = saving m" "tim (irq_selftest_fixup r m) = tim m"
  by (simp_all add: irq_selftest_fixup_def Let_def saving_def)

lemma int68_fixup_frame: "saving (int68_fixup r m) = saving m" "tim (int68_fixup r m) = tim m"
  by (simp_all add: int68_fixup_def saving_def)

lemma fixups_timing:
  "saving (snd (inboard_post_fixups r m)) = saving (option_rom_fixup r m)"
  "tim (snd (inboard_post_fixups r m)) = tim (option_rom_fixup r m)"
  by (simp_all add: inboard_post_fixups_def Let_def int68_fixup_frame irq_fixup_frame)

lemma apply_saving [simp]:
  "fx (inboard386_apply_mem_timing fl m) = fx m" "fx (inboard386_apply_rom_prefetch fl m) = fx m"
  "fx (inboard386_apply_waitstates m) = fx m" "fx (inboard386_apply_rom_shadow m) = fx m"
  "fx (inboard386_apply_io_waitstates fl m) = fx m" "fx (inboard386_apply_reg_op_waitstates fl m) = fx m"
  "fx (inboard386_apply_isa_speed m) = fx m"
  by (simp_all add: inboard386_apply_mem_timing_def inboard386_apply_rom_prefetch_def Let_def
      inboard386_apply_waitstates_def inboard386_apply_rom_shadow_def inboard386_apply_io_waitstates_def
      inboard386_apply_reg_op_waitstates_def inboard386_apply_isa_speed_def)

lemma card_saving [simp]:
  "fx (inboard386_write_60 v m) = fx m" "fx (inboard386_write_a0 v m) = fx m"
  "fx (inboard386_write_670 fl v m) = fx m" "fx (inboard386_write_674 v m) = fx m"
  "fx (inboard386_reset fl bf m) = fx m" "fx (inboard386_speed_changed fl m) = fx m"
  by (simp_all add: inboard386_write_60_def mem_a20_recalc_def Let_def inboard386_write_a0_def
      inboard386_write_670_def inboard386_write_674_def inboard386_reset_def inboard386_speed_changed_def)

lemma rom_event_saving: "c000_ws_saved (fx m) \<Longrightarrow> saving (rom_exec fl e m) = saving m"
  by (cases e) (simp_all add: rom_exec_def fixups_timing option_rom_fixup_def, simp_all add: saving_def)

lemma rom_run_saving: "c000_ws_saved (fx m) \<Longrightarrow> saving (fold (rom_exec fl) es m) = saving m"
proof (induction es arbitrary: m)
  case (Cons e es)
  from rom_event_saving [OF Cons.prems, of fl e] Cons.prems have "c000_ws_saved (fx (rom_exec fl e m))"
    by (simp add: saving_def)
  then show ?case using Cons.IH rom_event_saving [OF Cons.prems, of fl e] by simp
qed simp

text \<open>Leaving the video option ROM restores the timing it was entered with. Whatever happens while
  the CPU runs in segment C000 (instructions, card port writes, speed changes, even a reset of the
  card), the first instruction outside has the cycle counts of the moment of entry, except
  \<open>cpu_waitstates\<close>, which the fix-up does not save. So a speed setting or a reset made from within
  the segment is lost on leaving it.\<close>

theorem option_rom_timing_restored:
  assumes "CS r = 0xc000" and "\<not> c000_ws_saved (fx m)" and "CS r' \<noteq> 0xc000"
    and u_def: "u = fold (rom_exec fl) es (snd (inboard_post_fixups r m))"
  shows "tim (snd (inboard_post_fixups r' u)) = (tim m)\<lparr>cpu_waitstates := cpu_waitstates (tim u)\<rparr> \<and>
     \<not> c000_ws_saved (fx (snd (inboard_post_fixups r' u)))"
proof -
  let ?e = "snd (inboard_post_fixups r m)"
  have e: "saving ?e = (True, tim m)"
    using assms(1,2) by (simp add: fixups_timing option_rom_fixup_def) (simp add: saving_def)
  then have "saving u = (True, tim m)"
    unfolding u_def by (subst rom_run_saving) (simp_all add: saving_def)
  then have u: "c000_ws_saved (fx u)" "saved (fx u) = tim m" by (simp_all add: saving_def)
  have o: "option_rom_fixup r' u = upd_tim (restored_timing (tim m)) (upd_fix (\<lambda>f. f\<lparr>c000_ws_saved := False\<rparr>) u)"
    using assms(3) u by (simp add: option_rom_fixup_def)
  have "saving (snd (inboard_post_fixups r' u)) = (False, tim m)"
    using u by (simp add: fixups_timing o) (simp add: saving_def)
  moreover have "tim (snd (inboard_post_fixups r' u)) = (tim m)\<lparr>cpu_waitstates := cpu_waitstates (tim u)\<rparr>"
    unfolding fixups_timing o by (simp add: restored_timing_def)
  ultimately show ?thesis by (simp add: saving_def)
qed

text \<open>A reset inside the segment, entered with the BIOS shadowed on a 25 MHz bus: POST would run
  with the read cycles of the shadowed card.\<close>

lemma option_rom_timing_restored_witness:
  "\<exists>m. \<not> rom_shadow_enabled (dev (inboard386_reset id False m)) \<and>
     cpu_cycles_read (tim (inboard386_reset id False m)) = 10 \<and>
     cpu_cycles_read (tim (snd (inboard_post_fixups \<lparr>CS = 0xf000, pc = 0xe05b, AX = 0, BX = 0\<rparr>
       (rom_exec id (Card_reset False) (snd (inboard_post_fixups \<lparr>CS = 0xc000, pc = 0, AX = 0, BX = 0\<rparr> m)))))) = 1"
proof -
  define m :: machine where "m = (undefined :: machine)\<lparr>tim := (tim undefined)\<lparr>cpu_cycles_read := 1\<rparr>,
    fx := (fx undefined)\<lparr>c000_ws_saved := False\<rparr>, cpu_busspeed := 25000000\<rparr>"
  let ?in = "\<lparr>CS = 0xc000, pc = 0, AX = 0, BX = 0\<rparr>" and ?out = "\<lparr>CS = 0xf000, pc = 0xe05b, AX = 0, BX = 0\<rparr>"
  have "CS ?in = 0xc000" "\<not> c000_ws_saved (fx m)" "CS ?out \<noteq> 0xc000" by (simp_all add: m_def)
  note t = option_rom_timing_restored [OF this refl, of id "[Card_reset False]"]
  have "scaled_cycles id 2 25000000 = 10"
    by (simp add: scaled_cycles_def bus_ratio_def trunc_def floor_eq_iff)
  then have "cpu_cycles_read (tim (inboard386_reset id False m)) = 10"
    using reset_timing(1) [of id 25000000 m] by (simp add: slow_card_def m_def)
  moreover have "\<not> rom_shadow_enabled (dev (inboard386_reset id False m))"
    by (simp add: inboard386_reset_def Let_def)
  ultimately show ?thesis using t by (intro exI [of _ m]) (simp add: m_def)
qed

end
