(* ===== verification/Io.thy ===== *)
theory Io
  imports Prelude86
begin

text \<open>
  The I/O port bus, \<open>86box_full/src/io.c\<close>: the table of handler chains, registration and removal,
  the byte, word and doubleword accesses of the CPU, and the I/O traps built on them.

  A chain \<open>io[port] .. io_last[port]\<close>, a doubly linked list, is the list of its nodes. A node
  holds function pointers; a pointer is \<open>None\<close> (NULL), the trap function of this file or a
  function of some device, named by a number. What the device functions, the trap callbacks and
  the PCI configuration accesses do to the devices is the parameter \<open>'s code\<close>: they act on the
  devices and do not touch the chains while one of these is walked. Writing past the 65536
  entries of the table is \<open>None\<close>. The traces, the debug registers (\<open>USE_DEBUG_REGS_486\<close>) and the
  clock update of the dynamic recompiler are left out.
\<close>

section \<open>State\<close>

datatype fn = Trap_fn | Device_fn nat

record io_node =
  inb_fn :: "fn option"
  inw_fn :: "fn option"
  inl_fn :: "fn option"
  outb_fn :: "fn option"
  outw_fn :: "fn option"
  outl_fn :: "fn option"
  io_priv :: nat

text \<open>\<open>trap->func\<close> takes the value as \<open>uint8_t\<close>.\<close>

record io_trap =
  trap_enable :: bool
  trap_base :: u16
  trap_size :: u16
  trap_func :: nat
  trap_priv :: nat

record 's code =
  dev_inb :: "nat \<Rightarrow> u16 \<Rightarrow> nat \<Rightarrow> 's \<Rightarrow> u8 \<times> 's"
  dev_inw :: "nat \<Rightarrow> u16 \<Rightarrow> nat \<Rightarrow> 's \<Rightarrow> u16 \<times> 's"
  dev_inl :: "nat \<Rightarrow> u16 \<Rightarrow> nat \<Rightarrow> 's \<Rightarrow> u32 \<times> 's"
  dev_outb :: "nat \<Rightarrow> u16 \<Rightarrow> u8 \<Rightarrow> nat \<Rightarrow> 's \<Rightarrow> 's"
  dev_outw :: "nat \<Rightarrow> u16 \<Rightarrow> u16 \<Rightarrow> nat \<Rightarrow> 's \<Rightarrow> 's"
  dev_outl :: "nat \<Rightarrow> u16 \<Rightarrow> u32 \<Rightarrow> nat \<Rightarrow> 's \<Rightarrow> 's"
  run_trap :: "nat \<Rightarrow> u16 \<Rightarrow> u16 \<Rightarrow> bool \<Rightarrow> u8 \<Rightarrow> nat \<Rightarrow> 's \<Rightarrow> 's"
  pci_read :: "u16 \<Rightarrow> 's \<Rightarrow> u8 \<times> 's"
  pci_readw :: "u16 \<Rightarrow> 's \<Rightarrow> u16 \<times> 's"
  pci_readl :: "u16 \<Rightarrow> 's \<Rightarrow> u32 \<times> 's"
  pci_write :: "u16 \<Rightarrow> u8 \<Rightarrow> 's \<Rightarrow> 's"
  pci_writew :: "u16 \<Rightarrow> u16 \<Rightarrow> 's \<Rightarrow> 's"
  pci_writel :: "u16 \<Rightarrow> u32 \<Rightarrow> 's \<Rightarrow> 's"

record 's io_state =
  chain :: "u16 \<Rightarrow> io_node list"
  devices :: 's
  traps :: "nat \<Rightarrow> io_trap"
  io_initialized :: bool
  io_port :: u16
  io_val :: u32
  io_cycles :: int
  io_delay :: int
  amstrad_latch :: u32
  pci_flags :: u32
  pci_base :: u32
  pci_size :: u32

section \<open>Registration\<close>

definition io_init :: "'s io_state \<Rightarrow> 's io_state" where
  "io_init s = s\<lparr>io_initialized := True, chain := \<lambda>_. []\<rparr>"

text \<open>The values \<open>c\<close> of \<open>for (c = 0; c < size; c += step)\<close>; every caller passes step 1 or 2.\<close>

definition offsets :: "u16 \<Rightarrow> nat \<Rightarrow> nat list" where
  "offsets sz step = filter (\<lambda>c. c mod step = 0) [0..<unat sz]"

text \<open>\<open>base + c\<close> is computed as \<open>uint32_t\<close> and is not masked to the table.\<close>

definition at_port :: "(io_node list \<Rightarrow> io_node list) \<Rightarrow> nat \<Rightarrow> 's io_state \<Rightarrow> 's io_state option" where
  "at_port f p s =
     (if p < 65536 then Some (s\<lparr>chain := (chain s)(word_of_nat p := f (chain s (word_of_nat p)))\<rparr>) else None)"

primrec each_port ::
  "(io_node list \<Rightarrow> io_node list) \<Rightarrow> nat list \<Rightarrow> 's io_state \<Rightarrow> 's io_state option" where
  "each_port f [] s = Some s"
| "each_port f (p # ps) s = (case at_port f p s of None \<Rightarrow> None | Some s' \<Rightarrow> each_port f ps s')"

definition io_sethandler_common ::
  "u16 \<Rightarrow> u16 \<Rightarrow> io_node \<Rightarrow> nat \<Rightarrow> 's io_state \<Rightarrow> 's io_state option" where
  "io_sethandler_common base sz h step s =
     each_port (\<lambda>hs. hs @ [h]) (map ((+) (unat base)) (offsets sz step)) s"

text \<open>The first node with these seven fields is unlinked.\<close>

definition io_removehandler_common ::
  "u16 \<Rightarrow> u16 \<Rightarrow> io_node \<Rightarrow> nat \<Rightarrow> 's io_state \<Rightarrow> 's io_state option" where
  "io_removehandler_common base sz h step s =
     each_port (remove1 h) (map ((+) (unat base)) (offsets sz step)) s"

definition io_handler_common ::
  "bool \<Rightarrow> u16 \<Rightarrow> u16 \<Rightarrow> io_node \<Rightarrow> nat \<Rightarrow> 's io_state \<Rightarrow> 's io_state option" where
  "io_handler_common on base sz h step s =
     (if on then io_sethandler_common base sz h step s else io_removehandler_common base sz h step s)"

definition io_sethandler :: "u16 \<Rightarrow> u16 \<Rightarrow> io_node \<Rightarrow> 's io_state \<Rightarrow> 's io_state option" where
  "io_sethandler base sz h s = io_sethandler_common base sz h 1 s"

definition io_removehandler :: "u16 \<Rightarrow> u16 \<Rightarrow> io_node \<Rightarrow> 's io_state \<Rightarrow> 's io_state option" where
  "io_removehandler base sz h s = io_removehandler_common base sz h 1 s"

definition io_handler :: "bool \<Rightarrow> u16 \<Rightarrow> u16 \<Rightarrow> io_node \<Rightarrow> 's io_state \<Rightarrow> 's io_state option" where
  "io_handler on base sz h s = io_handler_common on base sz h 1 s"

definition io_sethandler_interleaved ::
  "u16 \<Rightarrow> u16 \<Rightarrow> io_node \<Rightarrow> 's io_state \<Rightarrow> 's io_state option" where
  "io_sethandler_interleaved base sz h s = io_sethandler_common base sz h 2 s"

definition io_removehandler_interleaved ::
  "u16 \<Rightarrow> u16 \<Rightarrow> io_node \<Rightarrow> 's io_state \<Rightarrow> 's io_state option" where
  "io_removehandler_interleaved base sz h s = io_removehandler_common base sz h 2 s"

definition io_handler_interleaved ::
  "bool \<Rightarrow> u16 \<Rightarrow> u16 \<Rightarrow> io_node \<Rightarrow> 's io_state \<Rightarrow> 's io_state option" where
  "io_handler_interleaved on base sz h s = io_handler_common on base sz h 2 s"

section \<open>Calling a handler\<close>

definition io_trap_readb :: "'s code \<Rightarrow> io_trap \<Rightarrow> u16 \<Rightarrow> 's \<Rightarrow> u8 \<times> 's" where
  "io_trap_readb c t port d = (0xff, run_trap c (trap_func t) 1 port False 0 (trap_priv t) d)"

definition io_trap_readw :: "'s code \<Rightarrow> io_trap \<Rightarrow> u16 \<Rightarrow> 's \<Rightarrow> u16 \<times> 's" where
  "io_trap_readw c t port d = (0xffff, run_trap c (trap_func t) 2 port False 0 (trap_priv t) d)"

definition io_trap_readl :: "'s code \<Rightarrow> io_trap \<Rightarrow> u16 \<Rightarrow> 's \<Rightarrow> u32 \<times> 's" where
  "io_trap_readl c t port d = (0xffffffff, run_trap c (trap_func t) 4 port False 0 (trap_priv t) d)"

definition io_trap_writeb :: "'s code \<Rightarrow> io_trap \<Rightarrow> u16 \<Rightarrow> u8 \<Rightarrow> 's \<Rightarrow> 's" where
  "io_trap_writeb c t port val d = run_trap c (trap_func t) 1 port True val (trap_priv t) d"

definition io_trap_writew :: "'s code \<Rightarrow> io_trap \<Rightarrow> u16 \<Rightarrow> u16 \<Rightarrow> 's \<Rightarrow> 's" where
  "io_trap_writew c t port val d = run_trap c (trap_func t) 2 port True (ucast val) (trap_priv t) d"

definition io_trap_writel :: "'s code \<Rightarrow> io_trap \<Rightarrow> u16 \<Rightarrow> u32 \<Rightarrow> 's \<Rightarrow> 's" where
  "io_trap_writel c t port val d = run_trap c (trap_func t) 4 port True (ucast val) (trap_priv t) d"

text \<open>A call through a pointer of a node.\<close>

definition call_in ::
  "(io_trap \<Rightarrow> u16 \<Rightarrow> 's \<Rightarrow> 'w \<times> 's) \<Rightarrow> (nat \<Rightarrow> u16 \<Rightarrow> nat \<Rightarrow> 's \<Rightarrow> 'w \<times> 's) \<Rightarrow> (nat \<Rightarrow> io_trap) \<Rightarrow>
   fn \<Rightarrow> u16 \<Rightarrow> nat \<Rightarrow> 's \<Rightarrow> 'w \<times> 's" where
  "call_in tf df tr f port priv d = (case f of Trap_fn \<Rightarrow> tf (tr priv) port d | Device_fn n \<Rightarrow> df n port priv d)"

definition call_out ::
  "(io_trap \<Rightarrow> u16 \<Rightarrow> 'w \<Rightarrow> 's \<Rightarrow> 's) \<Rightarrow> (nat \<Rightarrow> u16 \<Rightarrow> 'w \<Rightarrow> nat \<Rightarrow> 's \<Rightarrow> 's) \<Rightarrow> (nat \<Rightarrow> io_trap) \<Rightarrow>
   fn \<Rightarrow> u16 \<Rightarrow> 'w \<Rightarrow> nat \<Rightarrow> 's \<Rightarrow> 's" where
  "call_out tf df tr f port val priv d =
     (case f of Trap_fn \<Rightarrow> tf (tr priv) port val d | Device_fn n \<Rightarrow> df n port val priv d)"

text \<open>One walk along a chain: \<open>sel\<close> is the pointer a node contributes, if any; the answers are
  ANDed and \<open>found\<close> records that there was one.\<close>

primrec walk_in ::
  "(io_node \<Rightarrow> fn option) \<Rightarrow> (fn \<Rightarrow> u16 \<Rightarrow> nat \<Rightarrow> 's \<Rightarrow> 'w::len word \<times> 's) \<Rightarrow> u16 \<Rightarrow>
   io_node list \<Rightarrow> 'w word \<times> bool \<times> 's \<Rightarrow> 'w word \<times> bool \<times> 's" where
  "walk_in sel run port [] r = r"
| "walk_in sel run port (h # hs) r =
     walk_in sel run port hs
       (case r of (v, found, d) \<Rightarrow>
          (case sel h of None \<Rightarrow> r | Some f \<Rightarrow> (case run f port (io_priv h) d of (x, d') \<Rightarrow> (v AND x, True, d'))))"

primrec walk_out ::
  "(io_node \<Rightarrow> fn option) \<Rightarrow> (fn \<Rightarrow> u16 \<Rightarrow> 'w \<Rightarrow> nat \<Rightarrow> 's \<Rightarrow> 's) \<Rightarrow> u16 \<Rightarrow> 'w \<Rightarrow>
   io_node list \<Rightarrow> bool \<times> 's \<Rightarrow> bool \<times> 's" where
  "walk_out sel run port val [] r = r"
| "walk_out sel run port val (h # hs) r =
     walk_out sel run port val hs
       (case r of (found, d) \<Rightarrow>
          (case sel h of None \<Rightarrow> r | Some f \<Rightarrow> (True, run f port val (io_priv h) d)))"

text \<open>The word handlers are asked first; a byte handler is asked only on a node without a wider one.\<close>

definition byte_of_word :: "io_node \<Rightarrow> fn option" where
  "byte_of_word h = (if inw_fn h = None then inb_fn h else None)"
definition word_of_long :: "io_node \<Rightarrow> fn option" where
  "word_of_long h = (if inl_fn h = None then inw_fn h else None)"
definition byte_of_long :: "io_node \<Rightarrow> fn option" where
  "byte_of_long h = (if inw_fn h = None \<and> inl_fn h = None then inb_fn h else None)"
definition byte_to_word :: "io_node \<Rightarrow> fn option" where
  "byte_to_word h = (if outw_fn h = None then outb_fn h else None)"
definition word_to_long :: "io_node \<Rightarrow> fn option" where
  "word_to_long h = (if outl_fn h = None then outw_fn h else None)"
definition byte_to_long :: "io_node \<Rightarrow> fn option" where
  "byte_to_long h = (if outw_fn h = None \<and> outl_fn h = None then outb_fn h else None)"

section \<open>Accesses of the CPU\<close>

text \<open>The PCI configuration ports answer before the table; \<open>pci_base + pci_size\<close> wraps at 32 bits.\<close>

definition pci_port :: "u16 \<Rightarrow> 's io_state \<Rightarrow> bool" where
  "pci_port port s \<longleftrightarrow>
     (pci_flags s AND 0x08 \<noteq> 0 \<and> pci_base s \<le> ucast port \<and> ucast port < pci_base s + pci_size s) \<or>
     (pci_flags s AND 0x10 \<noteq> 0 \<and> 0xc000 \<le> port \<and> port < 0xc100)"

definition AMSTRAD_NOLATCH :: u32 where "AMSTRAD_NOLATCH = 0"
definition AMSTRAD_SW9 :: u32 where "AMSTRAD_SW9 = 1"
definition AMSTRAD_SW10 :: u32 where "AMSTRAD_SW10 = 2"

definition latch_amstrad :: "u16 \<Rightarrow> 's io_state \<Rightarrow> 's io_state" where
  "latch_amstrad port s =
     (if amstrad_latch s AND 0x80000000 \<noteq> 0 then
        s\<lparr>amstrad_latch :=
          (if port AND 0x80 \<noteq> 0 then AMSTRAD_NOLATCH
           else if port AND 0x4000 \<noteq> 0 then AMSTRAD_SW10 else AMSTRAD_SW9) OR 0x80000000\<rparr>
      else s)"

text \<open>\<open>if (!found) cycles -= io_delay\<close>.\<close>

definition charge_unless :: "bool \<Rightarrow> 's io_state \<Rightarrow> 's io_state" where
  "charge_unless found s = (if found then s else s\<lparr>io_cycles := io_cycles s - io_delay s\<rparr>)"

definition nth8 :: "nat \<Rightarrow> u32 \<Rightarrow> u8" where "nth8 i v = ucast (drop_bit (8 * i) v)"
definition nth16 :: "nat \<Rightarrow> u32 \<Rightarrow> u16" where "nth16 i v = ucast (drop_bit (16 * i) v)"
definition join16 :: "u16 \<Rightarrow> u16 \<Rightarrow> u32" where "join16 lo hi = push_bit 16 (ucast hi) OR ucast lo"
definition join8 :: "u8 \<Rightarrow> u8 \<Rightarrow> u8 \<Rightarrow> u8 \<Rightarrow> u32" where
  "join8 b0 b1 b2 b3 =
     push_bit 24 (ucast b3) OR push_bit 16 (ucast b2) OR push_bit 8 (ucast b1) OR ucast b0"

abbreviation call_inb :: "'s code \<Rightarrow> 's io_state \<Rightarrow> fn \<Rightarrow> u16 \<Rightarrow> nat \<Rightarrow> 's \<Rightarrow> u8 \<times> 's" where
  "call_inb c s \<equiv> call_in (io_trap_readb c) (dev_inb c) (traps s)"
abbreviation call_inw :: "'s code \<Rightarrow> 's io_state \<Rightarrow> fn \<Rightarrow> u16 \<Rightarrow> nat \<Rightarrow> 's \<Rightarrow> u16 \<times> 's" where
  "call_inw c s \<equiv> call_in (io_trap_readw c) (dev_inw c) (traps s)"
abbreviation call_inl :: "'s code \<Rightarrow> 's io_state \<Rightarrow> fn \<Rightarrow> u16 \<Rightarrow> nat \<Rightarrow> 's \<Rightarrow> u32 \<times> 's" where
  "call_inl c s \<equiv> call_in (io_trap_readl c) (dev_inl c) (traps s)"
abbreviation call_outb :: "'s code \<Rightarrow> 's io_state \<Rightarrow> fn \<Rightarrow> u16 \<Rightarrow> u8 \<Rightarrow> nat \<Rightarrow> 's \<Rightarrow> 's" where
  "call_outb c s \<equiv> call_out (io_trap_writeb c) (dev_outb c) (traps s)"
abbreviation call_outw :: "'s code \<Rightarrow> 's io_state \<Rightarrow> fn \<Rightarrow> u16 \<Rightarrow> u16 \<Rightarrow> nat \<Rightarrow> 's \<Rightarrow> 's" where
  "call_outw c s \<equiv> call_out (io_trap_writew c) (dev_outw c) (traps s)"
abbreviation call_outl :: "'s code \<Rightarrow> 's io_state \<Rightarrow> fn \<Rightarrow> u16 \<Rightarrow> u32 \<Rightarrow> nat \<Rightarrow> 's \<Rightarrow> 's" where
  "call_outl c s \<equiv> call_out (io_trap_writel c) (dev_outl c) (traps s)"

text \<open>What a read of each width puts on the bus: the value, whether anyone answered, the devices.\<close>

definition bus_inb :: "'s code \<Rightarrow> u16 \<Rightarrow> 's io_state \<Rightarrow> u8 \<times> bool \<times> 's" where
  "bus_inb c port s =
     (if pci_port port s then (case pci_read c port (devices s) of (v, d) \<Rightarrow> (v, True, d))
      else walk_in inb_fn (call_inb c s) port (chain s port) (0xff, False, devices s))"

definition bus_inw :: "'s code \<Rightarrow> u16 \<Rightarrow> 's io_state \<Rightarrow> u16 \<times> bool \<times> 's" where
  "bus_inw c port s =
     (if pci_port port s then (case pci_readw c port (devices s) of (v, d) \<Rightarrow> (v, True, d))
      else
        case walk_in inw_fn (call_inw c s) port (chain s port) (0xffff, False, devices s) of (v, f, d) \<Rightarrow>
        case walk_in byte_of_word (call_inb c s) port (chain s port) (lo8 v, f, d) of (b0, f, d) \<Rightarrow>
        case walk_in byte_of_word (call_inb c s) (port + 1) (chain s (port + 1)) (hi8 v, f, d) of (b1, f, d) \<Rightarrow>
          (word16 b0 b1, f, d))"

definition bus_inl :: "'s code \<Rightarrow> u16 \<Rightarrow> 's io_state \<Rightarrow> u32 \<times> bool \<times> 's" where
  "bus_inl c port s =
     (if pci_port port s then (case pci_readl c port (devices s) of (v, d) \<Rightarrow> (v, True, d))
      else
        case walk_in inl_fn (call_inl c s) port (chain s port) (0xffffffff, False, devices s) of (v, f, d) \<Rightarrow>
        case walk_in word_of_long (call_inw c s) port (chain s port) (nth16 0 v, f, d) of (w0, f, d) \<Rightarrow>
        case walk_in word_of_long (call_inw c s) (port + 2) (chain s (port + 2)) (nth16 1 v, f, d) of (w1, f, d) \<Rightarrow>
        (let u = join16 w0 w1 in
         case walk_in byte_of_long (call_inb c s) port (chain s port) (nth8 0 u, f, d) of (b0, f, d) \<Rightarrow>
         case walk_in byte_of_long (call_inb c s) (port + 1) (chain s (port + 1)) (nth8 1 u, f, d) of (b1, f, d) \<Rightarrow>
         case walk_in byte_of_long (call_inb c s) (port + 2) (chain s (port + 2)) (nth8 2 u, f, d) of (b2, f, d) \<Rightarrow>
         case walk_in byte_of_long (call_inb c s) (port + 3) (chain s (port + 3)) (nth8 3 u, f, d) of (b3, f, d) \<Rightarrow>
           (join8 b0 b1 b2 b3, f, d)))"

definition finish_in :: "u16 \<Rightarrow> 's io_state \<Rightarrow> 'w \<times> bool \<times> 's \<Rightarrow> 'w \<times> 's io_state" where
  "finish_in port s r = (case r of (v, f, d) \<Rightarrow> (v, charge_unless f (latch_amstrad port (s\<lparr>devices := d\<rparr>))))"

definition inb :: "'s code \<Rightarrow> u16 \<Rightarrow> 's io_state \<Rightarrow> u8 \<times> 's io_state" where
  "inb c port s = (let s1 = s\<lparr>io_port := port\<rparr> in finish_in port s1 (bus_inb c port s1))"

definition inw :: "'s code \<Rightarrow> u16 \<Rightarrow> 's io_state \<Rightarrow> u16 \<times> 's io_state" where
  "inw c port s = (let s1 = s\<lparr>io_port := port\<rparr> in finish_in port s1 (bus_inw c port s1))"

definition inl :: "'s code \<Rightarrow> u16 \<Rightarrow> 's io_state \<Rightarrow> u32 \<times> 's io_state" where
  "inl c port s = (let s1 = s\<lparr>io_port := port\<rparr> in finish_in port s1 (bus_inl c port s1))"

definition bus_outb :: "'s code \<Rightarrow> u16 \<Rightarrow> u8 \<Rightarrow> 's io_state \<Rightarrow> bool \<times> 's" where
  "bus_outb c port val s =
     (if pci_port port s then (True, pci_write c port val (devices s))
      else walk_out outb_fn (call_outb c s) port val (chain s port) (False, devices s))"

definition bus_outw :: "'s code \<Rightarrow> u16 \<Rightarrow> u16 \<Rightarrow> 's io_state \<Rightarrow> bool \<times> 's" where
  "bus_outw c port val s =
     (if pci_port port s then (True, pci_writew c port val (devices s))
      else
        walk_out byte_to_word (call_outb c s) (port + 1) (hi8 val) (chain s (port + 1))
          (walk_out byte_to_word (call_outb c s) port (lo8 val) (chain s port)
            (walk_out outw_fn (call_outw c s) port val (chain s port) (False, devices s))))"

definition bus_outl :: "'s code \<Rightarrow> u16 \<Rightarrow> u32 \<Rightarrow> 's io_state \<Rightarrow> bool \<times> 's" where
  "bus_outl c port val s =
     (if pci_port port s then (True, pci_writel c port val (devices s))
      else
        let r0 = walk_out outl_fn (call_outl c s) port val (chain s port) (False, devices s);
            r1 = walk_out word_to_long (call_outw c s) port (nth16 0 val) (chain s port) r0;
            r2 = walk_out word_to_long (call_outw c s) (port + 2) (nth16 1 val) (chain s (port + 2)) r1;
            b0 = walk_out byte_to_long (call_outb c s) port (nth8 0 val) (chain s port) r2;
            b1 = walk_out byte_to_long (call_outb c s) (port + 1) (nth8 1 val) (chain s (port + 1)) b0;
            b2 = walk_out byte_to_long (call_outb c s) (port + 2) (nth8 2 val) (chain s (port + 2)) b1
        in walk_out byte_to_long (call_outb c s) (port + 3) (nth8 3 val) (chain s (port + 3)) b2)"

definition finish_out :: "'s io_state \<Rightarrow> bool \<times> 's \<Rightarrow> 's io_state" where
  "finish_out s r = (case r of (f, d) \<Rightarrow> charge_unless f (s\<lparr>devices := d\<rparr>))"

text \<open>A byte written to port 0x84 always costs the delay.\<close>

definition outb :: "'s code \<Rightarrow> u16 \<Rightarrow> u8 \<Rightarrow> 's io_state \<Rightarrow> 's io_state" where
  "outb c port val s =
     (let s1 = s\<lparr>io_port := port, io_val := ucast val\<rparr>
      in case bus_outb c port val s1 of (f, d) \<Rightarrow> finish_out s1 (f \<and> port \<noteq> 0x84, d))"

definition outw :: "'s code \<Rightarrow> u16 \<Rightarrow> u16 \<Rightarrow> 's io_state \<Rightarrow> 's io_state" where
  "outw c port val s =
     (let s1 = s\<lparr>io_port := port, io_val := ucast val\<rparr> in finish_out s1 (bus_outw c port val s1))"

definition outl :: "'s code \<Rightarrow> u16 \<Rightarrow> u32 \<Rightarrow> 's io_state \<Rightarrow> 's io_state" where
  "outl c port val s =
     (let s1 = s\<lparr>io_port := port, io_val := val\<rparr> in finish_out s1 (bus_outl c port val s1))"

section \<open>Traps\<close>

definition trap_node :: "nat \<Rightarrow> io_node" where
  "trap_node a = \<lparr>inb_fn = Some Trap_fn, inw_fn = Some Trap_fn, inl_fn = Some Trap_fn,
     outb_fn = Some Trap_fn, outw_fn = Some Trap_fn, outl_fn = Some Trap_fn, io_priv = a\<rparr>"

text \<open>\<open>a\<close> is the address \<open>calloc\<close> returns.\<close>

definition io_trap_add :: "nat \<Rightarrow> nat \<Rightarrow> nat \<Rightarrow> 's io_state \<Rightarrow> 's io_state" where
  "io_trap_add a func priv s =
     s\<lparr>traps := (traps s)(a := \<lparr>trap_enable = False, trap_base = 0, trap_size = 0,
                               trap_func = func, trap_priv = priv\<rparr>)\<rparr>"

definition io_trap_remap ::
  "nat option \<Rightarrow> bool \<Rightarrow> u16 \<Rightarrow> u16 \<Rightarrow> 's io_state \<Rightarrow> 's io_state option" where
  "io_trap_remap handle enable port sz s =
     (case handle of None \<Rightarrow> Some s
      | Some a \<Rightarrow>
        let t = traps s a in
        case (if trap_enable t \<and> trap_size t \<noteq> 0
              then io_removehandler (trap_base t) (trap_size t) (trap_node a) s else Some s) of
          None \<Rightarrow> None
        | Some s1 \<Rightarrow>
            let s2 = s1\<lparr>traps := (traps s1)(a := t\<lparr>trap_enable := enable, trap_base := port, trap_size := sz\<rparr>)\<rparr>
            in if enable \<and> sz \<noteq> 0 then io_sethandler port sz (trap_node a) s2 else Some s2)"

definition io_trap_remove :: "nat option \<Rightarrow> 's io_state \<Rightarrow> 's io_state option" where
  "io_trap_remove handle s =
     (case handle of None \<Rightarrow> Some s | Some a \<Rightarrow> io_trap_remap (Some a) False 0 0 s)"

end
