(* ===== verification/Io_Service.thy ===== *)
theory Io_Service
  imports Io
begin

text \<open>
  What the port bus guarantees: a registered window can be taken out again without a trace, and a
  wide access reaches byte devices as the byte accesses it is made of.
\<close>

section \<open>Registration on a set of ports\<close>

definition map_ports :: "(io_node list \<Rightarrow> io_node list) \<Rightarrow> nat list \<Rightarrow> 's io_state \<Rightarrow> 's io_state" where
  "map_ports f ps s = s\<lparr>chain := \<lambda>q. if unat q \<in> set ps then f (chain s q) else chain s q\<rparr>"

lemma each_port_eq:
  "distinct ps \<Longrightarrow> each_port f ps s = (if \<forall>p \<in> set ps. p < 65536 then Some (map_ports f ps s) else None)"
proof (induction ps arbitrary: s)
  case Nil
  then show ?case by (simp add: map_ports_def)
next
  case (Cons p ps)
  have notin: "p \<notin> set ps" using Cons.prems by simp
  have "chain (map_ports f ps (s\<lparr>chain := (chain s)(word_of_nat p := f (chain s (word_of_nat p)))\<rparr>)) q
      = chain (map_ports f (p # ps) s) q" if "p < 65536" for q
  proof -
    have "(q = word_of_nat p) = (unat q = p)"
      using that by (auto simp: unsigned_of_nat take_bit_eq_mod)
    then show ?thesis using notin by (auto simp: map_ports_def)
  qed
  then have "p < 65536 \<Longrightarrow> map_ports f ps (s\<lparr>chain := (chain s)(word_of_nat p := f (chain s (word_of_nat p)))\<rparr>)
      = map_ports f (p # ps) s"
    by (simp add: map_ports_def)
  with Cons show ?case by (auto simp: at_port_def)
qed

definition window :: "u16 \<Rightarrow> u16 \<Rightarrow> nat list" where
  "window base sz = [unat base ..< unat base + unat sz]"

lemma offsets_1: "map ((+) (unat base)) (offsets sz 1) = window base sz"
  by (rule nth_equalityI) (simp_all add: offsets_def window_def)

lemma distinct_offsets: "distinct (map ((+) b) (offsets sz step))"
  by (simp add: offsets_def distinct_map)

lemma window_fits: "(\<forall>p \<in> set (window base sz). p < 65536) \<longleftrightarrow> unat base + unat sz \<le> 65536"
proof -
  have "unat base < 65536" using unsigned_less [of base] by simp
  moreover have "0 < unat sz \<Longrightarrow> unat base + (unat sz - 1) \<in> set (window base sz)" by (simp add: window_def)
  ultimately show ?thesis by (cases "unat sz = 0") (auto simp: window_def)
qed

lemma io_sethandler_eq:
  "io_sethandler base sz h s = (if unat base + unat sz \<le> 65536
     then Some (map_ports (\<lambda>hs. hs @ [h]) (window base sz) s) else None)"
  unfolding io_sethandler_def io_sethandler_common_def offsets_1 window_fits [symmetric]
  by (rule each_port_eq) (simp add: window_def)

lemma io_removehandler_eq:
  "io_removehandler base sz h s = (if unat base + unat sz \<le> 65536
     then Some (map_ports (remove1 h) (window base sz) s) else None)"
  unfolding io_removehandler_def io_removehandler_common_def offsets_1 window_fits [symmetric]
  by (rule each_port_eq) (simp add: window_def)

definition change :: "bool \<Rightarrow> io_node \<Rightarrow> io_node list \<Rightarrow> io_node list" where
  "change on h hs = (if on then hs @ [h] else remove1 h hs)"

lemma io_handler_common_eq:
  "io_handler_common on base sz h step s =
     (let ps = map ((+) (unat base)) (offsets sz step)
      in if \<forall>p \<in> set ps. p < 65536 then Some (map_ports (change on h) ps s) else None)"
proof -
  have "change True h = (\<lambda>hs. hs @ [h])" "change False h = remove1 h" by (auto simp: change_def)
  then show ?thesis
    by (simp add: io_handler_common_def io_sethandler_common_def io_removehandler_common_def
        each_port_eq [OF distinct_offsets] Let_def)
qed

section \<open>A trap among other handlers\<close>

datatype bus_op = Remap bool u16 u16 | Other bool u16 u16 io_node nat

fun bus_exec :: "nat \<Rightarrow> bus_op \<Rightarrow> 's io_state \<Rightarrow> 's io_state option" where
  "bus_exec a (Remap enable port sz) s = io_trap_remap (Some a) enable port sz s"
| "bus_exec a (Other on base sz h step) s = io_handler_common on base sz h step s"

primrec bus_run :: "nat \<Rightarrow> bus_op list \<Rightarrow> 's io_state \<Rightarrow> 's io_state option" where
  "bus_run a [] s = Some s"
| "bus_run a (x # xs) s = (case bus_exec a x s of None \<Rightarrow> None | Some s' \<Rightarrow> bus_run a xs s')"

fun handles :: "io_node \<Rightarrow> bus_op \<Rightarrow> bool" where
  "handles n (Remap _ _ _) \<longleftrightarrow> False"
| "handles n (Other _ _ _ h _) \<longleftrightarrow> h = n"

fun is_other :: "bus_op \<Rightarrow> bool" where
  "is_other (Remap _ _ _) \<longleftrightarrow> False"
| "is_other (Other _ _ _ _ _) \<longleftrightarrow> True"

definition trap_covers :: "io_trap \<Rightarrow> u16 \<Rightarrow> bool" where
  "trap_covers t q \<longleftrightarrow> trap_enable t \<and> unat q \<in> set (window (trap_base t) (trap_size t))"

text \<open>The bus with the trap at \<open>a\<close> against the bus without it.\<close>

definition trap_over :: "nat \<Rightarrow> 's io_state \<Rightarrow> 's io_state \<Rightarrow> bool" where
  "trap_over a s r \<longleftrightarrow>
     (\<forall>q. filter (\<lambda>h. h \<noteq> trap_node a) (chain s q) = chain r q) \<and>
     (\<forall>q. count_list (chain s q) (trap_node a) = (if trap_covers (traps s a) q then 1 else 0)) \<and>
     (trap_enable (traps s a) \<longrightarrow> unat (trap_base (traps s a)) + unat (trap_size (traps s a)) \<le> 65536)"

lemma count_list_remove1: "h \<noteq> n \<Longrightarrow> count_list (remove1 h xs) n = count_list xs n"
  by (induction xs) auto

lemma remove1_single: "count_list xs n \<le> 1 \<Longrightarrow> remove1 n xs = filter (\<lambda>h. h \<noteq> n) xs"
proof (induction xs)
  case (Cons x xs)
  have "count_list xs n = 0 \<Longrightarrow> filter (\<lambda>h. h \<noteq> n) xs = xs"
    by (auto simp: count_list_0_iff filter_id_conv)
  with Cons show ?case by (cases "x = n") auto
qed simp

lemma change_other:
  "h \<noteq> n \<Longrightarrow> filter (\<lambda>h. h \<noteq> n) (change on h xs) = change on h (filter (\<lambda>h. h \<noteq> n) xs)"
  "h \<noteq> n \<Longrightarrow> count_list (change on h xs) n = count_list xs n"
  by (simp_all add: change_def filter_remove1 count_list_remove1)

lemma trap_over_other:
  assumes "trap_over a s r" "h \<noteq> trap_node a" "io_handler_common on base sz h step s = Some s'"
  obtains r' where "io_handler_common on base sz h step r = Some r'" "trap_over a s' r'"
proof -
  let ?ps = "map ((+) (unat base)) (offsets sz step)"
  have f: "\<forall>p \<in> set ?ps. p < 65536" and s': "s' = map_ports (change on h) ?ps s"
    using assms(3) by (auto simp: io_handler_common_eq Let_def split: if_splits)
  have "trap_over a s' (map_ports (change on h) ?ps r)"
    using assms(1,2) by (simp add: s' trap_over_def map_ports_def change_other)
  moreover have "io_handler_common on base sz h step r = Some (map_ports (change on h) ?ps r)"
    using f by (simp add: io_handler_common_eq Let_def)
  ultimately show ?thesis by (rule that [rotated])
qed

text \<open>The first half of \<open>io_trap_remap\<close> leaves the bus as without the trap.\<close>

definition unmapped :: "nat \<Rightarrow> 's io_state \<Rightarrow> 's io_state \<Rightarrow> bool" where
  "unmapped a s u \<longleftrightarrow>
     (let t = traps s a in
      (if trap_enable t \<and> trap_size t \<noteq> 0
       then io_removehandler (trap_base t) (trap_size t) (trap_node a) s else Some s) = Some u) \<and>
     traps u = traps s"

lemma trap_over_unmapped:
  assumes "trap_over a s r" obtains u where "unmapped a s u" "chain u = chain r"
proof (cases "trap_enable (traps s a) \<and> trap_size (traps s a) \<noteq> 0")
  case True
  let ?w = "window (trap_base (traps s a)) (trap_size (traps s a))"
  have "filter (\<lambda>h. h \<noteq> trap_node a) (chain s q) = (if unat q \<in> set ?w then remove1 (trap_node a) (chain s q) else chain s q)" for q
  proof (cases "unat q \<in> set ?w")
    case True
    then show ?thesis using assms by (simp add: trap_over_def remove1_single)
  next
    case False
    then have "count_list (chain s q) (trap_node a) = 0" using assms by (simp add: trap_over_def trap_covers_def)
    then show ?thesis using False by (auto simp: count_list_0_iff filter_id_conv)
  qed
  then have "chain (map_ports (remove1 (trap_node a)) ?w s) = chain r"
    using assms by (auto simp: map_ports_def trap_over_def fun_eq_iff)
  moreover have "unmapped a s (map_ports (remove1 (trap_node a)) ?w s)"
    using assms True by (simp add: unmapped_def io_removehandler_eq trap_over_def map_ports_def)
  ultimately show ?thesis by (rule that [rotated])
next
  case False
  then have "\<not> trap_covers (traps s a) q" for q by (auto simp: trap_covers_def window_def)
  then have "trap_node a \<notin> set (chain s q)" for q
    using assms by (simp add: trap_over_def count_list_0_iff)
  then have "filter (\<lambda>h. h \<noteq> trap_node a) (chain s q) = chain s q" for q by (auto simp: filter_id_conv)
  then have "chain s = chain r" using assms by (simp add: trap_over_def fun_eq_iff)
  moreover have "unmapped a s s" using False by (auto simp: unmapped_def Let_def)
  ultimately show ?thesis by (rule that [rotated])
qed

lemma trap_over_remap:
  assumes "trap_over a s r" "trap_node a \<notin> (\<Union>q. set (chain r q))"
    "io_trap_remap (Some a) enable port sz s = Some s'"
  shows "trap_over a s' r"
proof -
  obtain u where u: "unmapped a s u" "chain u = chain r" by (rule trap_over_unmapped [OF assms(1)])
  define v where "v = u\<lparr>traps := (traps u)(a := (traps s a)\<lparr>trap_enable := enable, trap_base := port, trap_size := sz\<rparr>)\<rparr>"
  from u(1) have e: "(if trap_enable (traps s a) \<and> trap_size (traps s a) \<noteq> 0
      then io_removehandler (trap_base (traps s a)) (trap_size (traps s a)) (trap_node a) s else Some s) = Some u"
    by (simp only: unmapped_def Let_def)
  have s': "(if enable \<and> sz \<noteq> 0 then io_sethandler port sz (trap_node a) v else Some v) = Some s'"
    using assms(3) by (simp only: io_trap_remap_def option.case Let_def e v_def)
  have fresh: "filter (\<lambda>h. h \<noteq> trap_node a) (chain r q) = chain r q" "count_list (chain r q) (trap_node a) = 0" for q
    using assms(2) by (auto simp: filter_id_conv count_list_0_iff)
  show ?thesis
  proof (cases "enable \<and> sz \<noteq> 0")
    case True
    then have "unat port + unat sz \<le> 65536" "s' = map_ports (\<lambda>hs. hs @ [trap_node a]) (window port sz) v"
      using s' by (auto simp: io_sethandler_eq split: if_splits)
    then show ?thesis using u(2) True
      by (simp add: trap_over_def v_def map_ports_def trap_covers_def fresh)
  next
    case False
    have "unat port < 65536" using unsigned_less [of port] by simp
    then show ?thesis using s' u(2) False
      by (auto simp: trap_over_def v_def trap_covers_def fresh window_def)
  qed
qed

lemma trap_over_run:
  assumes "trap_over a s r" "\<forall>q. trap_node a \<notin> set (chain r q)" "\<forall>x \<in> set ops. \<not> handles (trap_node a) x"
    "bus_run a ops s = Some u"
  shows "\<exists>v. bus_run a (filter is_other ops) r = Some v \<and> trap_over a u v"
  using assms
proof (induction ops arbitrary: s r)
  case Nil
  then show ?case by simp
next
  case (Cons x xs)
  obtain s' where s': "bus_exec a x s = Some s'" "bus_run a xs s' = Some u"
    using Cons.prems(4) by (auto split: option.splits)
  show ?case
  proof (cases x)
    case (Remap enable port sz)
    then have "trap_over a s' r" using trap_over_remap [OF Cons.prems(1)] Cons.prems(2) s'(1) by simp
    from Cons.IH [OF this Cons.prems(2) _ s'(2)] Cons.prems(3) show ?thesis by (simp add: Remap)
  next
    case (Other on base sz h step)
    then have n: "h \<noteq> trap_node a" and e: "io_handler_common on base sz h step s = Some s'"
      using Cons.prems(3) s'(1) by auto
    obtain r' where r': "io_handler_common on base sz h step r = Some r'" "trap_over a s' r'"
      by (rule trap_over_other [OF Cons.prems(1) n e])
    have "trap_node a \<notin> set (chain r' q)" for q
    proof -
      have "chain r' q = filter (\<lambda>h. h \<noteq> trap_node a) (chain s' q)" using r'(2) by (simp add: trap_over_def)
      then show ?thesis by simp
    qed
    from Cons.IH [OF r'(2) _ _ s'(2)] this Cons.prems(3) r'(1) show ?thesis by (simp add: Other)
  qed
qed

text \<open>C14: An I/O trap is an overlay. After any interleaving of moves of a trap with registrations
  and removals of other handlers, the trap is in the chain of a port exactly once when it is
  enabled and its window covers the port, and not otherwise; and removing it does not fail and
  leaves every chain, in content and order, as if the trap had never been there.\<close>

theorem trap_is_an_overlay:
  assumes "\<forall>q. trap_node a \<notin> set (chain s q)" and "\<forall>x \<in> set ops. \<not> handles (trap_node a) x"
    and "bus_run a ops (io_trap_add a func priv s) = Some u"
  shows "count_list (chain u q) (trap_node a) = (if trap_covers (traps u a) q then 1 else 0) \<and>
     io_trap_remove (Some a) u \<noteq> None \<and>
     map_option chain (io_trap_remove (Some a) u) = map_option chain (bus_run a (filter is_other ops) s)"
proof -
  have "trap_over a (io_trap_add a func priv s) s"
    using assms(1) by (auto simp: trap_over_def io_trap_add_def trap_covers_def filter_id_conv count_list_0_iff)
  from trap_over_run [OF this assms] obtain v where
    v: "bus_run a (filter is_other ops) s = Some v" "trap_over a u v" by blast
  obtain w where w: "unmapped a u w" "chain w = chain v" by (rule trap_over_unmapped [OF v(2)])
  then have "io_trap_remove (Some a) u = Some (w\<lparr>traps := (traps w)(a := (traps u a)\<lparr>trap_enable := False,
      trap_base := 0, trap_size := 0\<rparr>)\<rparr>)"
    by (simp add: io_trap_remove_def io_trap_remap_def unmapped_def Let_def)
  then show ?thesis using v w(2) by (simp add: trap_over_def)
qed

definition demo_bus :: "unit io_state" where
  "demo_bus = \<lparr>chain = \<lambda>_. [], devices = (), traps = \<lambda>_. \<lparr>trap_enable = False, trap_base = 0,
     trap_size = 0, trap_func = 0, trap_priv = 0\<rparr>, io_initialized = True, io_port = 0, io_val = 0,
     io_cycles = 0, io_delay = 5, amstrad_latch = 0, pci_flags = 0, pci_base = 0, pci_size = 0\<rparr>"

definition demo_node :: io_node where
  "demo_node = \<lparr>inb_fn = Some (Device_fn 1), inw_fn = None, inl_fn = None, outb_fn = Some (Device_fn 2),
     outw_fn = None, outl_fn = None, io_priv = 0\<rparr>"

definition demo_ops :: "bus_op list" where
  "demo_ops = [Remap True 0x60 2, Other True 0x61 1 demo_node 1, Remap True 0x61 1]"

definition demo_end :: "unit io_state" where
  "demo_end = the (bus_run 7 demo_ops (io_trap_add 7 0 0 demo_bus))"

lemma demo_runs: "bus_run 7 demo_ops (io_trap_add 7 0 0 demo_bus) = Some demo_end"
  by (simp add: demo_end_def demo_ops_def io_trap_remap_def Let_def io_trap_add_def demo_bus_def
      io_sethandler_eq io_removehandler_eq io_handler_common_eq offsets_def map_ports_def)

lemma trap_is_an_overlay_witness:
  "count_list (chain demo_end 0x61) (trap_node 7) = (if trap_covers (traps demo_end 7) 0x61 then 1 else 0) \<and>
   map_option chain (io_trap_remove (Some 7) demo_end) = map_option chain (bus_run 7 (filter is_other demo_ops) demo_bus)"
  using trap_is_an_overlay [where q = "0x61", OF _ _ demo_runs]
  by (simp add: demo_bus_def demo_ops_def demo_node_def trap_node_def)

section \<open>Wide accesses to byte devices\<close>

lemma walk_in_found:
  "walk_in sel run p hs (v, f, d) =
     (case walk_in sel run p hs (v, False, d) of (v', f', d') \<Rightarrow> (v', f \<or> f', d'))"
proof (induction hs arbitrary: v f d)
  case (Cons h hs)
  show ?case
  proof (cases "sel h")
    case None
    then show ?thesis using Cons [of v f d] by simp
  next
    case (Some g)
    obtain x d' where "run g p (io_priv h) d = (x, d')" by (cases "run g p (io_priv h) d")
    then show ?thesis using Some Cons [of "v AND x" True d'] by (simp split: prod.splits)
  qed
qed simp

lemma walk_in_cong:
  "(\<And>h. h \<in> set hs \<Longrightarrow> sel h = sel' h) \<Longrightarrow> walk_in sel run p hs r = walk_in sel' run p hs r"
  by (induction hs arbitrary: r) simp_all

lemma walk_in_silent: "(\<And>h. h \<in> set hs \<Longrightarrow> sel h = None) \<Longrightarrow> walk_in sel run p hs r = r"
  by (induction hs arbitrary: r) (simp_all split: prod.splits)

lemma walk_out_found:
  "walk_out sel run p val hs (f, d) =
     (case walk_out sel run p val hs (False, d) of (f', d') \<Rightarrow> (f \<or> f', d'))"
proof (induction hs arbitrary: f d)
  case (Cons h hs)
  show ?case
  proof (cases "sel h")
    case None
    then show ?thesis using Cons [of f d] by simp
  next
    case (Some g)
    then show ?thesis using Cons [of True "run g p val (io_priv h) d"] by (simp split: prod.splits)
  qed
qed simp

lemma walk_out_cong:
  "(\<And>h. h \<in> set hs \<Longrightarrow> sel h = sel' h) \<Longrightarrow> walk_out sel run p val hs r = walk_out sel' run p val hs r"
  by (induction hs arbitrary: r) simp_all

lemma walk_out_silent: "(\<And>h. h \<in> set hs \<Longrightarrow> sel h = None) \<Longrightarrow> walk_out sel run p val hs r = r"
  by (induction hs arbitrary: r) (simp_all split: prod.splits)

definition byte_device :: "io_node \<Rightarrow> bool" where
  "byte_device h \<longleftrightarrow> inw_fn h = None \<and> inl_fn h = None \<and> outw_fn h = None \<and> outl_fn h = None"

definition byte_port :: "'s io_state \<Rightarrow> u16 \<Rightarrow> bool" where
  "byte_port s p \<longleftrightarrow> (\<forall>h \<in> set (chain s p). byte_device h)"

text \<open>What one byte access does, as a function of the devices alone.\<close>

definition read8 :: "'s code \<Rightarrow> 's io_state \<Rightarrow> u16 \<Rightarrow> 's \<Rightarrow> u8 \<times> 's" where
  "read8 c s p d = (case walk_in inb_fn (call_inb c s) p (chain s p) (0xff, False, d) of (v, f, d') \<Rightarrow> (v, d'))"

definition write8 :: "'s code \<Rightarrow> 's io_state \<Rightarrow> u16 \<Rightarrow> u8 \<Rightarrow> 's \<Rightarrow> 's" where
  "write8 c s p v d = snd (walk_out outb_fn (call_outb c s) p v (chain s p) (False, d))"

definition same_bus :: "'s io_state \<Rightarrow> 's io_state \<Rightarrow> bool" where
  "same_bus s t \<longleftrightarrow> chain s = chain t \<and> traps s = traps t \<and> pci_flags s = 0 \<and> pci_flags t = 0"

lemma no_pci: "pci_flags s = 0 \<Longrightarrow> \<not> pci_port p s"
  by (simp add: pci_port_def)

lemma read8_same: "same_bus s t \<Longrightarrow> read8 c s = read8 c t" "same_bus s t \<Longrightarrow> write8 c s = write8 c t"
  by (intro ext, simp add: same_bus_def read8_def) (intro ext, simp add: same_bus_def write8_def)

lemma finish_simps [simp]:
  "devices (charge_unless f s) = devices s" "chain (charge_unless f s) = chain s"
  "traps (charge_unless f s) = traps s" "pci_flags (charge_unless f s) = pci_flags s"
  "devices (latch_amstrad p s) = devices s" "chain (latch_amstrad p s) = chain s"
  "traps (latch_amstrad p s) = traps s" "pci_flags (latch_amstrad p s) = pci_flags s"
  by (simp_all add: charge_unless_def latch_amstrad_def)

lemma inb_read8:
  assumes "same_bus s t"
  shows "fst (inb c p s) = fst (read8 c t p (devices s))"
    "devices (snd (inb c p s)) = snd (read8 c t p (devices s))"
    "same_bus (snd (inb c p s)) t"
  using assms
  by (simp_all add: inb_def bus_inb_def no_pci finish_in_def read8_def same_bus_def Let_def split: prod.splits)

lemma outb_write8:
  assumes "same_bus s t"
  shows "devices (outb c p v s) = write8 c t p v (devices s)" "same_bus (outb c p v s) t"
  using assms
  by (simp_all add: outb_def bus_outb_def no_pci finish_out_def write8_def same_bus_def Let_def split: prod.splits)

lemma byte_walks:
  assumes "byte_port s p"
  shows "walk_in inw_fn runw p (chain s p) r = r" "walk_in inl_fn runl p (chain s p) r' = r'"
    "walk_in word_of_long runw p (chain s p) r = r"
    "walk_out outw_fn wrw p w (chain s p) q = q" "walk_out outl_fn wrl p l (chain s p) q = q"
    "walk_out word_to_long wrw p w (chain s p) q = q"
  using assms
  by (intro walk_in_silent walk_out_silent;
      simp add: byte_port_def byte_device_def word_of_long_def word_to_long_def)+

lemma byte_selectors:
  assumes "byte_port s p"
  shows "walk_in byte_of_word run p (chain s p) = walk_in inb_fn run p (chain s p)"
    "walk_in byte_of_long run p (chain s p) = walk_in inb_fn run p (chain s p)"
    "walk_out byte_to_word wr p v (chain s p) = walk_out outb_fn wr p v (chain s p)"
    "walk_out byte_to_long wr p v (chain s p) = walk_out outb_fn wr p v (chain s p)"
  using assms
  by (auto intro!: ext walk_in_cong walk_out_cong
      simp: byte_port_def byte_device_def byte_of_word_def byte_of_long_def byte_to_word_def byte_to_long_def)

definition answered :: "'s code \<Rightarrow> 's io_state \<Rightarrow> u16 \<Rightarrow> 's \<Rightarrow> bool" where
  "answered c s p d = fst (snd (walk_in inb_fn (call_inb c s) p (chain s p) (0xff, False, d)))"

lemma walk_read8:
  "walk_in inb_fn (call_inb c s) p (chain s p) (0xff, f, d) =
     (fst (read8 c s p d), f \<or> answered c s p d, snd (read8 c s p d))"
  by (subst walk_in_found) (simp add: read8_def answered_def split: prod.splits)

lemma walk_write8:
  "snd (walk_out outb_fn (call_outb c s) p v (chain s p) q) = write8 c s p v (snd q)"
  by (cases q) (simp add: write8_def, subst walk_out_found, simp split: prod.splits)

lemma nth8_ffff: "nth8 i (join16 0xffff 0xffff) = 0xff" if "i < 4"
proof -
  have "i \<in> {0, 1, 2, 3}" using that by auto
  then show ?thesis by (auto simp: nth8_def join16_def)
qed

lemma bytes_of_ones: "lo8 0xffff = 0xff" "hi8 0xffff = 0xff"
  by (simp_all add: lo8_def hi8_def)

lemma ones_of_long: "nth16 0 0xffffffff = 0xffff" "nth16 1 0xffffffff = 0xffff"
  "nth16 (Suc 0) 0xffffffff = 0xffff"
  by (simp_all add: nth16_def)

lemma bus_inw_bytes:
  assumes "pci_flags s = 0" "byte_port s p" "byte_port s (p + 1)"
  shows "\<exists>f. bus_inw c p s =
    (case read8 c s p (devices s) of (b0, d) \<Rightarrow>
     case read8 c s (p + 1) d of (b1, d) \<Rightarrow> (word16 b0 b1, f, d))"
  using assms(1)
  by (simp add: bus_inw_def no_pci byte_walks(1) [OF assms(2)] byte_selectors(1) [OF assms(2)]
      byte_selectors(1) [OF assms(3)] bytes_of_ones walk_read8 split_beta)

lemma bus_inl_bytes:
  assumes "pci_flags s = 0" "byte_port s p" "byte_port s (p + 1)" "byte_port s (p + 2)" "byte_port s (p + 3)"
  shows "\<exists>f. bus_inl c p s =
    (case read8 c s p (devices s) of (b0, d) \<Rightarrow>
     case read8 c s (p + 1) d of (b1, d) \<Rightarrow>
     case read8 c s (p + 2) d of (b2, d) \<Rightarrow>
     case read8 c s (p + 3) d of (b3, d) \<Rightarrow> (join8 b0 b1 b2 b3, f, d))"
  using assms(1)
  by (simp add: bus_inl_def no_pci byte_walks(2,3) [OF assms(2)] byte_walks(3) [OF assms(4)] ones_of_long
      byte_selectors(2) [OF assms(2)] byte_selectors(2) [OF assms(3)] byte_selectors(2) [OF assms(4)]
      byte_selectors(2) [OF assms(5)] nth8_ffff walk_read8 split_beta Let_def)

lemma bus_outw_bytes:
  assumes "pci_flags s = 0" "byte_port s p" "byte_port s (p + 1)"
  shows "snd (bus_outw c p w s) = write8 c s (p + 1) (hi8 w) (write8 c s p (lo8 w) (devices s))"
  using assms(1)
  by (simp add: bus_outw_def no_pci byte_walks(4) [OF assms(2)] byte_selectors(3) [OF assms(2)]
      byte_selectors(3) [OF assms(3)] walk_write8)

lemma bus_outl_bytes:
  assumes "pci_flags s = 0" "byte_port s p" "byte_port s (p + 1)" "byte_port s (p + 2)" "byte_port s (p + 3)"
  shows "snd (bus_outl c p v s) = write8 c s (p + 3) (nth8 3 v) (write8 c s (p + 2) (nth8 2 v)
     (write8 c s (p + 1) (nth8 1 v) (write8 c s p (nth8 0 v) (devices s))))"
  using assms(1)
  by (simp add: bus_outl_def no_pci byte_walks(5,6) [OF assms(2)] byte_walks(6) [OF assms(4)]
      byte_selectors(4) [OF assms(2)] byte_selectors(4) [OF assms(3)] byte_selectors(4) [OF assms(4)]
      byte_selectors(4) [OF assms(5)] walk_write8 Let_def)

lemma at_this_port:
  "byte_port (s\<lparr>io_port := q, io_val := x\<rparr>) p = byte_port s p"
  "byte_port (s\<lparr>io_port := q\<rparr>) p = byte_port s p"
  by (simp_all add: byte_port_def)

lemma same_bus_port:
  "pci_flags s = 0 \<Longrightarrow> same_bus (s\<lparr>io_port := q\<rparr>) s"
  "pci_flags s = 0 \<Longrightarrow> same_bus (s\<lparr>io_port := q, io_val := x\<rparr>) s"
  by (simp_all add: same_bus_def)

text \<open>C29: A wide access is the byte accesses it is made of. On ports whose devices take bytes only,
  a word or doubleword read returns the bytes that two or four byte reads of consecutive ports
  (modulo 64K) return, lowest port first, and a write hands the bytes to the ports in that order;
  the devices end in the same state.\<close>

theorem wide_access_is_bytewise:
  assumes "pci_flags s = 0" and "byte_port s p" and "byte_port s (p + 1)" and "byte_port s (p + 2)"
    and "byte_port s (p + 3)"
  shows "(let (b0, s1) = inb c p s; (b1, s2) = inb c (p + 1) s1;
              (b2, s3) = inb c (p + 2) s2; (b3, s4) = inb c (p + 3) s3
          in fst (inw c p s) = word16 b0 b1 \<and> devices (snd (inw c p s)) = devices s2 \<and>
             fst (inl c p s) = join8 b0 b1 b2 b3 \<and> devices (snd (inl c p s)) = devices s4) \<and>
     devices (outw c p w s) = devices (outb c (p + 1) (hi8 w) (outb c p (lo8 w) s)) \<and>
     devices (outl c p v s) = devices (outb c (p + 3) (nth8 3 v) (outb c (p + 2) (nth8 2 v)
       (outb c (p + 1) (nth8 1 v) (outb c p (nth8 0 v) s))))"
proof -
  have s0: "same_bus s s" using assms(1) by (simp add: same_bus_def)
  note r1 = inb_read8 [OF s0, of c p]
  note r2 = inb_read8 [OF r1(3), of c "p + 1"]
  note r3 = inb_read8 [OF r2(3), of c "p + 2"]
  note r4 = inb_read8 [OF r3(3), of c "p + 3"]
  note w1 = outb_write8 [OF s0]
  note port = read8_same [OF same_bus_port(1) [OF assms(1)]] read8_same [OF same_bus_port(2) [OF assms(1)]]
  obtain f where w: "bus_inw c p (s\<lparr>io_port := p\<rparr>) = (case read8 c s p (devices s) of (b0, d) \<Rightarrow>
     case read8 c s (p + 1) d of (b1, d) \<Rightarrow> (word16 b0 b1, f, d))"
    using bus_inw_bytes [of "s\<lparr>io_port := p\<rparr>" p c] assms by (auto simp: at_this_port port)
  obtain g where l: "bus_inl c p (s\<lparr>io_port := p\<rparr>) = (case read8 c s p (devices s) of (b0, d) \<Rightarrow>
     case read8 c s (p + 1) d of (b1, d) \<Rightarrow> case read8 c s (p + 2) d of (b2, d) \<Rightarrow>
     case read8 c s (p + 3) d of (b3, d) \<Rightarrow> (join8 b0 b1 b2 b3, g, d))"
    using bus_inl_bytes [of "s\<lparr>io_port := p\<rparr>" p c] assms by (auto simp: at_this_port port)
  have reads: "fst (inw c p s) = word16 (fst (read8 c s p (devices s))) (fst (read8 c s (p + 1) (snd (read8 c s p (devices s)))))"
    "devices (snd (inw c p s)) = devices (snd (inb c (p + 1) (snd (inb c p s))))"
    "devices (snd (inl c p s)) =
       devices (snd (inb c (p + 3) (snd (inb c (p + 2) (snd (inb c (p + 1) (snd (inb c p s))))))))"
    "fst (inl c p s) = join8 (fst (inb c p s)) (fst (inb c (p + 1) (snd (inb c p s))))
       (fst (inb c (p + 2) (snd (inb c (p + 1) (snd (inb c p s))))))
       (fst (inb c (p + 3) (snd (inb c (p + 2) (snd (inb c (p + 1) (snd (inb c p s))))))))"
    by (simp_all add: inw_def inl_def finish_in_def Let_def w l split_beta r1 r2 r3 r4)
  have outs: "devices (outw c p w s) = snd (bus_outw c p w (s\<lparr>io_port := p, io_val := ucast w\<rparr>))"
    "devices (outl c p v s) = snd (bus_outl c p v (s\<lparr>io_port := p, io_val := v\<rparr>))"
    by (simp_all add: outw_def outl_def finish_out_def Let_def split: prod.splits)
  show ?thesis
    using assms by (simp add: split_beta Let_def reads outs r1 r2 w1 bus_outw_bytes bus_outl_bytes at_this_port port
        outb_write8 [OF s0] outb_write8 [OF outb_write8(2) [OF s0]] outb_write8 [OF outb_write8(2) [OF outb_write8(2) [OF s0]]]
        outb_write8 [OF outb_write8(2) [OF outb_write8(2) [OF outb_write8(2) [OF s0]]]])
qed

definition demo_code :: "(u8 \<times> u8) code" where
  "demo_code = \<lparr>dev_inb = \<lambda>n p pr d. (if p = 0x10 then fst d else snd d, d), dev_inw = \<lambda>n p pr d. (0, d),
     dev_inl = \<lambda>n p pr d. (0, d), dev_outb = \<lambda>n p x pr d. (if p = 0x10 then (x, snd d) else (fst d, x)),
     dev_outw = \<lambda>n p x pr d. d, dev_outl = \<lambda>n p x pr d. d, run_trap = \<lambda>f z p w x pr d. d,
     pci_read = \<lambda>p d. (0, d), pci_readw = \<lambda>p d. (0, d), pci_readl = \<lambda>p d. (0, d),
     pci_write = \<lambda>p x d. d, pci_writew = \<lambda>p x d. d, pci_writel = \<lambda>p x d. d\<rparr>"

text \<open>Two byte registers at ports 0x10 and 0x11.\<close>

definition demo_pair :: "(u8 \<times> u8) io_state" where
  "demo_pair = \<lparr>chain = \<lambda>q. if q = 0x10 \<or> q = 0x11 then [demo_node] else [], devices = (0x34, 0x12),
     traps = \<lambda>_. \<lparr>trap_enable = False, trap_base = 0, trap_size = 0, trap_func = 0, trap_priv = 0\<rparr>,
     io_initialized = True, io_port = 0, io_val = 0, io_cycles = 0, io_delay = 5, amstrad_latch = 0,
     pci_flags = 0, pci_base = 0, pci_size = 0\<rparr>"

lemma wide_access_is_bytewise_witness:
  "(let (b0, s1) = inb demo_code 0x10 demo_pair; (b1, s2) = inb demo_code 0x11 s1
    in fst (inw demo_code 0x10 demo_pair) = word16 b0 b1) \<and>
   devices (outw demo_code 0x10 0x5678 demo_pair) =
     devices (outb demo_code 0x11 (hi8 0x5678) (outb demo_code 0x10 (lo8 0x5678) demo_pair))"
  using wide_access_is_bytewise [of demo_pair "0x10" demo_code "0x5678" 0]
  by (simp add: byte_port_def demo_pair_def byte_device_def demo_node_def split_beta Let_def)

end
