(* ===== verification/Pit.thy ===== *)
theory Pit
  imports Pit_Bus Pic Dma Timer
begin

text \<open>
  The interval timer as the machine sees it, \<open>86box_full/src/pit.c\<close>: the bridge from the pin-clocked
  core of \<open>Pit_Exact\<close> to the public registers (\<open>ctr_t\<close>, a mirror of each channel), the OUT callbacks
  that reach the interrupt controller, the DRAM refresh and the speaker, the clock the event timer
  drives, the bus, reset and the wiring of an XT (\<open>pit_common_init\<close> of the classic device,
  \<open>pit_irq0_timer\<close> of \<open>machine/machine.c\<close>, \<open>machine_xt_common_init\<close> of \<open>machine/m_xt.c\<close>).

  An \<open>int\<close> used as a truth value is a \<open>bool\<close>. There is no cassette (\<open>cassette\<close> is NULL), and the
  sound buffer that \<open>speaker_update\<close> fills is left out, as are the second timer of the PS/2, the
  fields \<open>newcount\<close> and \<open>enable\<close>, which no code here uses, and the traces.
\<close>

section \<open>State\<close>

datatype out_callback = Irq0_timer | Refresh_timer_xt | Refresh_timer_at | Speaker_timer
datatype load_callback = Speaker_set_count

record ctr =
  ctr_m :: u8
  ctr_ctrl :: u8
  ctr_read_status :: u8
  ctr_latch :: u8
  ctr_s1_det :: u8
  ctr_l_det :: u8
  ctr_bcd :: bool
  ctr_incomplete :: bool
  ctr_rl :: u16
  ctr_rm :: u32
  ctr_wm :: u32
  ctr_gate :: bool
  ctr_out :: bool
  ctr_clk :: bool
  ctr_using_timer :: bool
  ctr_latched :: nat
  ctr_state :: nat
  ctr_null_count :: bool
  ctr_do_read_status :: bool
  ctr_count :: u32
  ctr_l :: u32
  ctr_lback :: u32
  ctr_lback2 :: u32
  ctr_load_func :: "load_callback option"
  ctr_out_func :: "out_callback option"

text \<open>The device, and what its callbacks reach.\<close>

record pit_sys =
  pit_flags :: u32
  pit_clock :: bool
  exact :: pitx_device
  counters :: "nat \<Rightarrow> ctr"
  pit_ctrl :: u8
  pit_const :: u64
  callback_timer :: nat
  p_timers :: tsys
  p_pics :: pics
  p_dma :: dma_sys
  refresh_at_enable :: bool
  ppi_pb :: u8
  speakon :: bool
  ppispeakon :: bool
  speaker :: "(u8 \<times> nat) option"

definition upd_ctr :: "nat \<Rightarrow> (ctr \<Rightarrow> ctr) \<Rightarrow> pit_sys \<Rightarrow> pit_sys" where
  "upd_ctr i f s = s\<lparr>counters := (counters s)(i := f (counters s i))\<rparr>"

section \<open>The OUT callbacks\<close>

definition pit_irq0_timer :: "bool \<Rightarrow> bool \<Rightarrow> pit_sys \<Rightarrow> pit_sys" where
  "pit_irq0_timer new_out old_out s =
     (let s1 = (if new_out \<and> \<not> old_out then s\<lparr>p_pics := picint 1 (p_pics s)\<rparr> else s)
      in if \<not> new_out then s1\<lparr>p_pics := picintc 1 (p_pics s1)\<rparr> else s1)"

definition pit_refresh_timer_xt :: "bool \<Rightarrow> bool \<Rightarrow> pit_sys \<Rightarrow> pit_sys" where
  "pit_refresh_timer_xt new_out old_out s =
     (if new_out \<and> \<not> old_out then s\<lparr>p_dma := dma_xt_refresh_request (p_dma s)\<rparr> else s)"

definition pit_refresh_timer_at :: "bool \<Rightarrow> bool \<Rightarrow> pit_sys \<Rightarrow> pit_sys" where
  "pit_refresh_timer_at new_out old_out s =
     (if refresh_at_enable s \<and> new_out \<and> \<not> old_out then s\<lparr>ppi_pb := ppi_pb s XOR 0x10\<rparr> else s)"

definition pit_ctr_get_count :: "nat \<Rightarrow> pit_sys \<Rightarrow> u16" where
  "pit_ctr_get_count i s = count_register (channel (exact s) i)"

definition pit_speaker_timer :: "bool \<Rightarrow> bool \<Rightarrow> pit_sys \<Rightarrow> pit_sys" where
  "pit_speaker_timer new_out old_out s =
     (let count = pit_ctr_get_count 2 s; l = (if count \<noteq> 0 then unat count else 0x10000)
      in s\<lparr>speakon := (if l < 25 then False else new_out), ppispeakon := new_out\<rparr>)"

fun call_out_func :: "out_callback \<Rightarrow> bool \<Rightarrow> bool \<Rightarrow> pit_sys \<Rightarrow> pit_sys" where
  "call_out_func Irq0_timer new_out old_out s = pit_irq0_timer new_out old_out s"
| "call_out_func Refresh_timer_xt new_out old_out s = pit_refresh_timer_xt new_out old_out s"
| "call_out_func Refresh_timer_at new_out old_out s = pit_refresh_timer_at new_out old_out s"
| "call_out_func Speaker_timer new_out old_out s = pit_speaker_timer new_out old_out s"

definition ctr_set_out :: "nat \<Rightarrow> bool \<Rightarrow> pit_sys \<Rightarrow> pit_sys" where
  "ctr_set_out i new_out s =
     (let s1 = (case ctr_out_func (counters s i) of None \<Rightarrow> s
                | Some f \<Rightarrow> call_out_func f new_out (ctr_out (counters s i)) s)
      in upd_ctr i (\<lambda>c. c\<lparr>ctr_out := new_out\<rparr>) s1)"

section \<open>The mirror\<close>

definition pit_exact_type :: "pit_sys \<Rightarrow> pitx_type" where
  "pit_exact_type s = (if pit_flags s AND 1 \<noteq> 0 then PITX_8254 else PITX_8253)"

definition pit_exact_bcd_count :: "u16 \<Rightarrow> nat" where
  "pit_exact_bcd_count v =
     (if v = 0 then 10000
      else unat (drop_bit 12 v AND 0x0f) * 1000 + unat (drop_bit 8 v AND 0x0f) * 100 +
           unat (drop_bit 4 v AND 0x0f) * 10 + unat (v AND 0x0f))"

fun state_code :: "pitx_state \<Rightarrow> nat" where
  "state_code PITX_WAIT_COUNT = 0"
| "state_code PITX_WAIT_TRIGGER = 1"
| "state_code PITX_WAIT_GATE = 2"
| "state_code PITX_LOAD_NEXT = 3"
| "state_code PITX_COUNTING = 4"
| "state_code PITX_RELOAD_NEXT = 5"
| "state_code PITX_STROBE_RECOVER = 6"
| "state_code PITX_DONE = 7"

definition mirror :: "pitx_channel \<Rightarrow> ctr \<Rightarrow> ctr" where
  "mirror x c =
     c\<lparr>ctr_ctrl := ch_control x,
       ctr_m := ch_mode x,
       ctr_bcd := ch_bcd x,
       ctr_l := ucast (count_register x),
       ctr_lback := ucast (count_register x),
       ctr_lback2 := ucast (count_register x),
       ctr_count := counting_element x,
       ctr_null_count := null_count x,
       ctr_gate := ch_gate x,
       ctr_state := state_code (ch_state x),
       ctr_rm := ucast (rw_mode x) OR (if read_phase x \<noteq> 0 then 0x80 else 0),
       ctr_wm := ucast (rw_mode x) OR (if write_phase x \<noteq> 0 then 0x80 else 0),
       ctr_rl := output_latch x,
       ctr_latched := (if count_latched x
                       then (if rw_mode x = 3 then (if read_phase x \<noteq> 0 then 1 else 2) else 1) else 0),
       ctr_read_status := status_latch x,
       ctr_do_read_status := status_latched x,
       ctr_incomplete := incomplete_reload x\<rparr>"

definition pit_exact_sync_channel :: "nat \<Rightarrow> pit_sys \<Rightarrow> pit_sys" where
  "pit_exact_sync_channel i s =
     (let x = channel (exact s) i; s1 = upd_ctr i (mirror x) s
      in if ctr_out (counters s1 i) \<noteq> ch_output x then ctr_set_out i (ch_output x) s1 else s1)"

definition pit_exact_sync_all :: "pit_sys \<Rightarrow> pit_sys" where
  "pit_exact_sync_all s = fold pit_exact_sync_channel [0, 1, 2] s"

definition speaker_set_count :: "u8 \<Rightarrow> nat \<Rightarrow> pit_sys \<Rightarrow> pit_sys" where
  "speaker_set_count new_m new_count s =
     (if speaker s \<noteq> None then s\<lparr>speaker := Some (new_m, new_count)\<rparr> else s)"

definition pit_exact_notify_load :: "nat \<Rightarrow> pit_sys \<Rightarrow> pit_sys" where
  "pit_exact_notify_load i s =
     (case ctr_load_func (counters s i) of None \<Rightarrow> s
      | Some Speaker_set_count \<Rightarrow>
          let x = channel (exact s) i;
              n = (if ch_bcd x then pit_exact_bcd_count (count_register x)
                   else if count_register x \<noteq> 0 then unat (count_register x) else 0x10000)
          in speaker_set_count (ch_mode x) n s)"

section \<open>Clock and gate\<close>

definition ctr_tick :: "nat \<Rightarrow> pit_sys \<Rightarrow> pit_sys" where
  "ctr_tick i s = pit_exact_sync_channel i (s\<lparr>exact := pitx_tick_channel i (exact s)\<rparr>)"

definition ctr_clock :: "nat \<Rightarrow> pit_sys \<Rightarrow> pit_sys" where
  "ctr_clock i s =
     (if ctr_using_timer (counters s i) then s
      else pit_exact_sync_channel i (s\<lparr>exact := pitx_tick_channel i (exact s)\<rparr>))"

definition pit_ctr_get_outlevel :: "nat \<Rightarrow> pit_sys \<Rightarrow> bool" where
  "pit_ctr_get_outlevel i s = pitx_get_output i (exact s)"

definition pit_ctr_set_load_func :: "nat \<Rightarrow> load_callback option \<Rightarrow> pit_sys \<Rightarrow> pit_sys" where
  "pit_ctr_set_load_func i f s = upd_ctr i (\<lambda>c. c\<lparr>ctr_load_func := f\<rparr>) s"

definition pit_ctr_set_out_func :: "nat \<Rightarrow> out_callback option \<Rightarrow> pit_sys \<Rightarrow> pit_sys" where
  "pit_ctr_set_out_func i f s = upd_ctr i (\<lambda>c. c\<lparr>ctr_out_func := f\<rparr>) s"

definition pit_ctr_set_gate :: "nat \<Rightarrow> bool \<Rightarrow> pit_sys \<Rightarrow> pit_sys" where
  "pit_ctr_set_gate i gate s =
     (if 3 \<le> i then s else pit_exact_sync_channel i (s\<lparr>exact := pitx_set_gate i gate (exact s)\<rparr>))"

definition pit_ctr_set_clock :: "nat \<Rightarrow> bool \<Rightarrow> pit_sys \<Rightarrow> pit_sys" where
  "pit_ctr_set_clock i clk s =
     (let old = ctr_clk (counters s i); s1 = upd_ctr i (\<lambda>c. c\<lparr>ctr_clk := clk\<rparr>) s
      in if ctr_using_timer (counters s1 i) \<and> old \<and> \<not> clk then ctr_tick i s1 else s1)"

text \<open>\<open>run\<close> is \<open>if (tsc > 0) timer_process ()\<close>, which lets the timers that are due act first.\<close>

definition pit_ctr_set_using_timer :: "(pit_sys \<Rightarrow> pit_sys) \<Rightarrow> nat \<Rightarrow> bool \<Rightarrow> pit_sys \<Rightarrow> pit_sys" where
  "pit_ctr_set_using_timer run i b s = upd_ctr i (\<lambda>c. c\<lparr>ctr_using_timer := b\<rparr>) (run s)"

text \<open>The clock is high for one half of \<open>pit_const\<close> and low for the other; the counters tick when
  it falls.\<close>

definition pit_clock_edge :: "pit_sys \<Rightarrow> pit_sys" where
  "pit_clock_edge s =
     (let s1 = s\<lparr>pit_clock := \<not> pit_clock s\<rparr>
      in fold (\<lambda>i t. pit_ctr_set_clock i (pit_clock s1) t) [0, 1, 2] s1)"

definition pit_timer_over :: "pit_sys \<Rightarrow> (timer_err + pit_sys) option" where
  "pit_timer_over s =
     (let s1 = pit_clock_edge s in
      case timer_advance_u64 (callback_timer s1) (drop_bit 1 (pit_const s1)) (p_timers s1) of
        None \<Rightarrow> None
      | Some (Inl e) \<Rightarrow> Some (Inl e)
      | Some (Inr t) \<Rightarrow> Some (Inr (s1\<lparr>p_timers := t\<rparr>)))"

section \<open>The bus\<close>

definition pit_write :: "u16 \<Rightarrow> u8 \<Rightarrow> pit_sys \<Rightarrow> pit_sys" where
  "pit_write addr val s =
     (let port = unat (addr AND 3) in
      if port = 3 then
        pit_exact_sync_all (s\<lparr>pit_ctrl := val, exact := pitx_control_write val (exact s)\<rparr>)
      else
        let x = channel (exact s) port; rw = rw_mode x; old_phase = write_phase x;
            s1 = pit_exact_sync_channel port (s\<lparr>exact := pitx_data_write port val (exact s)\<rparr>)
        in if rw = 1 \<or> rw = 2 \<or> rw = 3 \<and> old_phase = 1 then pit_exact_notify_load port s1 else s1)"

definition pit_read :: "u16 \<Rightarrow> pit_sys \<Rightarrow> u8 \<times> pit_sys" where
  "pit_read addr s =
     (let port = unat (addr AND 3) in
      if port = 3 then ((if pit_flags s AND 1 \<noteq> 0 then pit_ctrl s else 0x00), s)
      else case pitx_data_read port (exact s) of (v, e) \<Rightarrow>
        (v, pit_exact_sync_channel port (s\<lparr>exact := e\<rparr>)))"

definition pit_read_reg :: "u8 \<Rightarrow> pit_sys \<Rightarrow> u8" where
  "pit_read_reg reg s =
     (let c = (\<lambda>i. counters s i) in
      if reg = 0x00 \<or> reg = 0x02 \<or> reg = 0x04 then ucast (ctr_l (c (unat (drop_bit 1 reg))))
      else if reg = 0x01 \<or> reg = 0x03 \<or> reg = 0x05
      then ucast (drop_bit 8 (ctr_l (c (unat (drop_bit 1 reg)))))
      else if reg = 0x06 then pit_ctrl s
      else if reg = 0x07 then
        (if ctr_rm (c 0) AND 0x80 \<noteq> 0 then 0x01 else 0) OR (if ctr_rm (c 1) AND 0x80 \<noteq> 0 then 0x02 else 0) OR
        (if ctr_rm (c 2) AND 0x80 \<noteq> 0 then 0x04 else 0) OR (if ctr_wm (c 0) AND 0x80 \<noteq> 0 then 0x08 else 0) OR
        (if ctr_wm (c 1) AND 0x80 \<noteq> 0 then 0x10 else 0) OR (if ctr_wm (c 2) AND 0x80 \<noteq> 0 then 0x20 else 0)
      else 0xff)"

section \<open>Reset and wiring\<close>

definition ctr_reset :: "ctr \<Rightarrow> ctr" where
  "ctr_reset c =
     c\<lparr>ctr_ctrl := 0, ctr_m := 0, ctr_gate := False, ctr_l := 0xffff, ctr_using_timer := True,
       ctr_state := 0, ctr_null_count := True, ctr_latch := 0, ctr_s1_det := 0, ctr_l_det := 0\<rparr>"

definition pit_device_reset :: "pit_sys \<Rightarrow> pit_sys" where
  "pit_device_reset s =
     (let s1 = fold (\<lambda>i. upd_ctr i ctr_reset) [0, 1, 2] (s\<lparr>pit_clock := False\<rparr>)
      in pit_exact_sync_all (s1\<lparr>exact := pitx_reset (pit_exact_type s1)\<rparr>))"

definition pit_reset :: "pit_sys \<Rightarrow> pit_sys" where
  "pit_reset s =
     (let s1 = fold (\<lambda>i. upd_ctr i ctr_reset) [0, 1, 2] (s\<lparr>pit_clock := False\<rparr>)
      in pit_exact_sync_all (s1\<lparr>exact := pitx_set_gate 2 False (pitx_reset (pit_exact_type s1))\<rparr>))"

definition pit_set_pit_const :: "u64 \<Rightarrow> pit_sys \<Rightarrow> pit_sys" where
  "pit_set_pit_const k s = s\<lparr>pit_const := k\<rparr>"

text \<open>A counter as \<open>calloc\<close> leaves it.\<close>

definition ctr_zero :: ctr where
  "ctr_zero = \<lparr>ctr_m = 0, ctr_ctrl = 0, ctr_read_status = 0, ctr_latch = 0, ctr_s1_det = 0, ctr_l_det = 0,
     ctr_bcd = False, ctr_incomplete = False, ctr_rl = 0, ctr_rm = 0, ctr_wm = 0, ctr_gate = False,
     ctr_out = False, ctr_clk = False, ctr_using_timer = False, ctr_latched = 0, ctr_state = 0,
     ctr_null_count = False, ctr_do_read_status = False, ctr_count = 0, ctr_l = 0, ctr_lback = 0,
     ctr_lback2 = 0, ctr_load_func = None, ctr_out_func = None\<rparr>"

text \<open>\<open>pit_init\<close> up to the registration of the event timer and of the ports 0x40 to 0x43.\<close>

definition pit_init :: "u32 \<Rightarrow> u64 \<Rightarrow> pit_sys \<Rightarrow> pit_sys" where
  "pit_init flags pitconst s =
     pit_set_pit_const pitconst
       (pit_reset (s\<lparr>pit_flags := flags, counters := \<lambda>_. ctr_zero, pit_ctrl := 0\<rparr>))"

definition pit_common_init ::
  "(pit_sys \<Rightarrow> pit_sys) \<Rightarrow> out_callback option \<Rightarrow> out_callback option \<Rightarrow> pit_sys \<Rightarrow> pit_sys" where
  "pit_common_init run out0 out1 s =
     pit_ctr_set_gate 2 False
       (pit_ctr_set_load_func 2 (Some Speaker_set_count)
         (pit_ctr_set_out_func 2 (Some Speaker_timer)
           (pit_ctr_set_out_func 1 out1
             (pit_ctr_set_out_func 0 out0
               (fold (\<lambda>i t. pit_ctr_set_using_timer run i True (pit_ctr_set_gate i True t)) [0, 1, 2] s)))))"

text \<open>The XT: \<open>machine_common_init\<close>, then the refresh callback of \<open>machine_xt_common_init\<close>.\<close>

definition xt_pit_init :: "(pit_sys \<Rightarrow> pit_sys) \<Rightarrow> u64 \<Rightarrow> pit_sys \<Rightarrow> pit_sys" where
  "xt_pit_init run pitconst s =
     pit_ctr_set_out_func 1 (Some Refresh_timer_xt)
       (pit_common_init run (Some Irq0_timer) None (pit_init 0 pitconst s))"

end
