(* ===== verification/Pit_Service.thy ===== *)
theory Pit_Service
  imports Pit Pic_Service Dma_Refresh Timer_Order
begin

text \<open>
  The bridge keeps the public registers and the OUT pins of the timer in step with the core, and
  carries the rising edges of counter 1 to the DRAM refresh at the programmed rate.
\<close>

section \<open>The mirror is exact\<close>

lemma call_out_sel [simp]:
  "exact (call_out_func f a b s) = exact s" "counters (call_out_func f a b s) = counters s"
  "pit_clock (call_out_func f a b s) = pit_clock s" "pit_flags (call_out_func f a b s) = pit_flags s"
  by (cases f; simp add: pit_irq0_timer_def pit_refresh_timer_xt_def pit_refresh_timer_at_def
      pit_speaker_timer_def Let_def)+

lemma upd_ctr_sel [simp]:
  "exact (upd_ctr i f s) = exact s" "pit_clock (upd_ctr i f s) = pit_clock s" "pit_flags (upd_ctr i f s) = pit_flags s"
  "p_dma (upd_ctr i f s) = p_dma s" "p_pics (upd_ctr i f s) = p_pics s"
  "counters (upd_ctr i f s) = (counters s)(i := f (counters s i))"
  by (simp_all add: upd_ctr_def)

lemma set_out_sel [simp]:
  "exact (ctr_set_out i b s) = exact s" "pit_clock (ctr_set_out i b s) = pit_clock s"
  "pit_flags (ctr_set_out i b s) = pit_flags s"
  "counters (ctr_set_out i b s) = (counters s)(i := (counters s i)\<lparr>ctr_out := b\<rparr>)"
  by (simp_all add: ctr_set_out_def Let_def split: option.splits)

definition mirrored :: "pitx_channel \<Rightarrow> ctr \<Rightarrow> ctr" where
  "mirrored x c = (mirror x c)\<lparr>ctr_out := ch_output x\<rparr>"

lemma mirror_keeps [simp]:
  "ctr_out (mirror x c) = ctr_out c" "ctr_clk (mirror x c) = ctr_clk c"
  "ctr_using_timer (mirror x c) = ctr_using_timer c" "ctr_out_func (mirror x c) = ctr_out_func c"
  "ctr_load_func (mirror x c) = ctr_load_func c"
  by (simp_all add: mirror_def)

lemma out_same: "ctr_out c = b \<Longrightarrow> c\<lparr>ctr_out := b\<rparr> = c"
  by (cases c) simp

lemma sync_sel [simp]:
  "exact (pit_exact_sync_channel i s) = exact s" "pit_clock (pit_exact_sync_channel i s) = pit_clock s"
  "pit_flags (pit_exact_sync_channel i s) = pit_flags s"
  "counters (pit_exact_sync_channel i s) = (counters s)(i := mirrored (channel (exact s) i) (counters s i))"
  by (simp_all add: pit_exact_sync_channel_def mirrored_def Let_def out_same)

definition synced :: "pit_sys \<Rightarrow> nat \<Rightarrow> bool" where
  "synced s i \<longleftrightarrow> mirrored (channel (exact s) i) (counters s i) = counters s i"

lemma mirrored_idem [simp]: "mirrored x (mirrored x c) = mirrored x c"
  by (simp add: mirrored_def mirror_def)

lemma mirrored_parts: "mirrored x c = c \<Longrightarrow> mirror x c = c \<and> ctr_out c = ch_output x"
proof -
  assume a: "mirrored x c = c"
  have "ctr_out (mirrored x c) = ch_output x" by (simp add: mirrored_def)
  with a have o: "ctr_out c = ch_output x" by simp
  then show ?thesis using a by (simp add: mirrored_def out_same)
qed

lemma synced_sync:
  "synced (pit_exact_sync_channel i s) j = (if j = i then True else synced s j)"
  by (simp add: synced_def)

text \<open>Changes of a counter that the mirror does not touch.\<close>

definition unmirrored :: "(ctr \<Rightarrow> ctr) \<Rightarrow> bool" where
  "unmirrored f \<longleftrightarrow> (\<forall>x c. mirrored x (f c) = f (mirrored x c))"

lemma synced_upd: "unmirrored f \<Longrightarrow> synced s j \<Longrightarrow> synced (upd_ctr i f s) j"
  by (cases "j = i") (simp_all add: synced_def unmirrored_def)

lemma unmirrored_fields:
  "unmirrored (\<lambda>c. c\<lparr>ctr_clk := b\<rparr>)" "unmirrored (\<lambda>c. c\<lparr>ctr_using_timer := b\<rparr>)"
  "unmirrored (\<lambda>c. c\<lparr>ctr_out_func := f\<rparr>)" "unmirrored (\<lambda>c. c\<lparr>ctr_load_func := g\<rparr>)"
  by (simp_all add: unmirrored_def mirrored_def mirror_def)

lemma channel_frames:
  "j \<noteq> i \<Longrightarrow> channel (pitx_tick_channel i e) j = channel e j"
  "j \<noteq> i \<Longrightarrow> channel (pitx_set_gate i g e) j = channel e j"
  "j \<noteq> i \<Longrightarrow> channel (pitx_data_write i v e) j = channel e j"
  "j \<noteq> i \<Longrightarrow> channel (snd (pitx_data_read i e)) j = channel e j"
  by (auto simp: pitx_tick_channel_def pitx_set_gate_def pitx_data_write_def pitx_data_read_def upd_channel_def
      split: prod.splits)

definition all_synced :: "pit_sys \<Rightarrow> bool" where
  "all_synced s \<longleftrightarrow> (\<forall>j<3. synced s j)"

lemma sync_all: "all_synced (pit_exact_sync_all s)"
  unfolding all_synced_def
proof (intro allI impI)
  fix j :: nat assume "j < 3"
  then have "j = 0 \<or> j = 1 \<or> j = 2" by arith
  then show "synced (pit_exact_sync_all s) j" by (auto simp: pit_exact_sync_all_def synced_sync)
qed

lemma synced_after:
  assumes "all_synced s" "\<And>j. j \<noteq> i \<Longrightarrow> channel e j = channel (exact s) j"
  shows "all_synced (pit_exact_sync_channel i (s\<lparr>exact := e\<rparr>))"
  using assms by (simp add: all_synced_def synced_sync synced_def)

lemma all_synced_upd: "unmirrored f \<Longrightarrow> all_synced s \<Longrightarrow> all_synced (upd_ctr i f s)"
  by (simp add: all_synced_def synced_upd)

lemma all_synced_frame: "exact t = exact s \<Longrightarrow> counters t = counters s \<Longrightarrow> all_synced t = all_synced s"
  by (simp add: all_synced_def synced_def)

section \<open>Operations\<close>

datatype pit_op =
    Write u16 u8 | Read u16 | Gate nat bool | Clock nat | Use_timer nat bool | Edge | Reset
  | Device_reset | Out_func nat "out_callback option" | Pit_const u64

fun pit_exec :: "pit_op \<Rightarrow> pit_sys \<Rightarrow> pit_sys" where
  "pit_exec (Write addr val) s = pit_write addr val s"
| "pit_exec (Read addr) s = snd (pit_read addr s)"
| "pit_exec (Gate i g) s = pit_ctr_set_gate i g s"
| "pit_exec (Clock i) s = ctr_clock i s"
| "pit_exec (Use_timer i b) s = pit_ctr_set_using_timer id i b s"
| "pit_exec Edge s = pit_clock_edge s"
| "pit_exec Reset s = pit_reset s"
| "pit_exec Device_reset s = pit_device_reset s"
| "pit_exec (Out_func i f) s = pit_ctr_set_out_func i f s"
| "pit_exec (Pit_const k) s = pit_set_pit_const k s"

lemma set_clock_synced: "all_synced s \<Longrightarrow> all_synced (pit_ctr_set_clock i b s)"
  by (simp add: pit_ctr_set_clock_def ctr_tick_def Let_def all_synced_upd unmirrored_fields synced_after channel_frames)

lemma notify_sel [simp]: "exact (pit_exact_notify_load i s) = exact s" "counters (pit_exact_notify_load i s) = counters s"
  by (simp_all add: pit_exact_notify_load_def speaker_set_count_def Let_def split: option.splits load_callback.splits)

lemma pit_exec_synced: "all_synced s \<Longrightarrow> all_synced (pit_exec x s)"
proof (cases x)
  case (Write addr val)
  assume "all_synced s"
  then show ?thesis unfolding Write
    using all_synced_frame [of "pit_exact_notify_load p t" t for p t]
    by (simp add: pit_write_def Let_def sync_all synced_after channel_frames)
next
  case (Read addr)
  assume "all_synced s"
  then show ?thesis unfolding Read
    using channel_frames(4) [of _ "unat (addr AND 3)" "exact s"]
    by (auto simp: pit_read_def Let_def intro!: synced_after split: prod.splits)
next
  case Edge
  assume "all_synced s"
  then show ?thesis unfolding Edge
    by (simp add: pit_clock_edge_def Let_def set_clock_synced)
      (intro set_clock_synced, simp add: all_synced_def synced_def)
next
  case (Use_timer i b)
  assume "all_synced s"
  then show ?thesis unfolding Use_timer
    by (simp add: pit_ctr_set_using_timer_def all_synced_upd [OF unmirrored_fields(2)])
next
  case (Out_func i f)
  assume "all_synced s"
  then show ?thesis unfolding Out_func
    by (simp add: pit_ctr_set_out_func_def all_synced_upd [OF unmirrored_fields(3)])
next
  case (Pit_const k)
  assume "all_synced s"
  then show ?thesis unfolding Pit_const by (simp add: pit_set_pit_const_def all_synced_def synced_def)
qed (simp_all add: pit_ctr_set_gate_def ctr_clock_def pit_reset_def pit_device_reset_def Let_def sync_all
      synced_after channel_frames)

lemma lo8_hi8_of_l: "ucast (ucast w :: u32) = lo8 w" "ucast (drop_bit 8 (ucast w :: u32)) = hi8 w" for w :: u16
  by (rule bit_word_eqI, simp add: lo8_def bit_ucast_iff)
    (rule bit_word_eqI, simp add: hi8_def bit_ucast_iff bit_drop_bit_eq)

lemma mirror_l: "mirror x c = c \<Longrightarrow> ctr_l c = ucast (count_register x)"
proof -
  assume a: "mirror x c = c"
  have "ctr_l (mirror x c) = ucast (count_register x)" by (simp add: mirror_def)
  then show ?thesis by (simp add: a)
qed

lemma all_synced_const: "all_synced (pit_set_pit_const k s) = all_synced s"
  by (simp add: pit_set_pit_const_def all_synced_def synced_def)

lemma fold_synced: "all_synced s \<Longrightarrow> all_synced (fold pit_exec ops s)"
  by (induction ops arbitrary: s) (simp_all add: pit_exec_synced)

lemma read_reg_l:
  assumes "i < 3"
  shows "pit_read_reg (2 * word_of_nat i) s = ucast (ctr_l (counters s i))"
    "pit_read_reg (2 * word_of_nat i + 1) s = ucast (drop_bit 8 (ctr_l (counters s i)))"
proof -
  have "i = 0 \<or> i = 1 \<or> i = 2" using assms by arith
  then show "pit_read_reg (2 * word_of_nat i) s = ucast (ctr_l (counters s i))"
    by (elim disjE) (simp_all add: pit_read_reg_def)
  have "i = 0 \<or> i = 1 \<or> i = 2" using assms by arith
  then show "pit_read_reg (2 * word_of_nat i + 1) s = ucast (drop_bit 8 (ctr_l (counters s i)))"
    by (elim disjE) (simp_all add: pit_read_reg_def)
qed

text \<open>The public registers are an exact mirror of the core. After initialisation and any sequence
  of port accesses, gate changes, clocks from the event timer or from a device, resets and changes
  of the wiring, the level on each OUT pin is the level the core computes, the other public
  fields are those of the channel, and the register file read by \<open>pit_read_reg\<close> gives the count
  that \<open>get_count\<close> gives.\<close>

theorem public_registers_mirror_core:
  assumes "i < 3" and "s = fold pit_exec ops (pit_init flags k s0)"
  shows "ctr_out (counters s i) = pit_ctr_get_outlevel i s \<and>
     mirror (channel (exact s) i) (counters s i) = counters s i \<and>
     word16 (pit_read_reg (2 * word_of_nat i) s) (pit_read_reg (2 * word_of_nat i + 1) s) = pit_ctr_get_count i s"
proof -
  have "all_synced (pit_init flags k s0)"
    unfolding pit_init_def pit_reset_def Let_def by (simp only: all_synced_const sync_all)
  then have "all_synced s" unfolding assms(2) by (rule fold_synced)
  then have m: "mirror (channel (exact s) i) (counters s i) = counters s i"
      "ctr_out (counters s i) = ch_output (channel (exact s) i)"
    using assms(1) mirrored_parts by (auto simp: all_synced_def synced_def)
  have "pit_read_reg (2 * word_of_nat i) s = lo8 (pit_ctr_get_count i s)"
      "pit_read_reg (2 * word_of_nat i + 1) s = hi8 (pit_ctr_get_count i s)"
    by (simp_all only: read_reg_l [OF assms(1)] mirror_l [OF m(1)] lo8_hi8_of_l pit_ctr_get_count_def)
  then show ?thesis using m assms(1) by (simp add: pit_ctr_get_outlevel_def pitx_get_output_def)
qed

section \<open>Refresh requests\<close>

definition dma_edge :: "out_callback option \<Rightarrow> bool \<Rightarrow> bool \<Rightarrow> dma_sys \<Rightarrow> dma_sys" where
  "dma_edge f old_out new_out d =
     (if f = Some Refresh_timer_xt \<and> new_out \<and> \<not> old_out then dma_xt_refresh_request d else d)"

lemma dma_call: "p_dma (call_out_func f new_out old_out s) = dma_edge (Some f) old_out new_out (p_dma s)"
  by (cases f) (simp_all add: dma_edge_def pit_irq0_timer_def pit_refresh_timer_xt_def pit_refresh_timer_at_def
      pit_speaker_timer_def Let_def)

lemma dma_sync:
  "p_dma (pit_exact_sync_channel i s) = dma_edge (ctr_out_func (counters s i)) (ctr_out (counters s i))
     (ch_output (channel (exact s) i)) (p_dma s)"
  by (simp add: pit_exact_sync_channel_def ctr_set_out_def Let_def dma_call split: option.splits)
    (simp add: dma_edge_def)

lemma mirrored_keeps [simp]:
  "ctr_clk (mirrored x c) = ctr_clk c" "ctr_using_timer (mirrored x c) = ctr_using_timer c"
  "ctr_out_func (mirrored x c) = ctr_out_func c"
  by (simp_all add: mirrored_def)

text \<open>One full cycle of the clock, high and low.\<close>

definition pit_cycle :: "pit_sys \<Rightarrow> pit_sys" where
  "pit_cycle s = pit_clock_edge (pit_clock_edge s)"

lemma set_clock_high: "pit_ctr_set_clock i True s = upd_ctr i (\<lambda>c. c\<lparr>ctr_clk := True\<rparr>) s"
  by (simp add: pit_ctr_set_clock_def Let_def)

lemma set_clock_low:
  "ctr_clk (counters s i) \<Longrightarrow> ctr_using_timer (counters s i) \<Longrightarrow>
   pit_ctr_set_clock i False s = ctr_tick i (upd_ctr i (\<lambda>c. c\<lparr>ctr_clk := False\<rparr>) s)"
  by (simp add: pit_ctr_set_clock_def Let_def)

definition wired :: "pit_sys \<Rightarrow> bool" where
  "wired s \<longleftrightarrow> \<not> pit_clock s \<and> all_synced s \<and>
     (\<forall>i<3. \<not> ctr_clk (counters s i) \<and> ctr_using_timer (counters s i)) \<and>
     ctr_out_func (counters s 0) = Some Irq0_timer \<and> ctr_out_func (counters s 1) = Some Refresh_timer_xt \<and>
     ctr_out_func (counters s 2) = Some Speaker_timer"

definition tick_low :: "nat \<Rightarrow> pit_sys \<Rightarrow> pit_sys" where
  "tick_low i s = ctr_tick i (upd_ctr i (\<lambda>c. c\<lparr>ctr_clk := False\<rparr>) s)"

lemma tick_low_sel [simp]:
  "exact (tick_low i s) = pitx_tick_channel i (exact s)"
  "pit_clock (tick_low i s) = pit_clock s"
  "j \<noteq> i \<Longrightarrow> counters (tick_low i s) j = counters s j"
  "ctr_clk (counters (tick_low i s) i) = False"
  "ctr_using_timer (counters (tick_low i s) j) = ctr_using_timer (counters s j)"
  "ctr_out_func (counters (tick_low i s) j) = ctr_out_func (counters s j)"
  "p_dma (tick_low i s) = dma_edge (ctr_out_func (counters s i)) (ctr_out (counters s i))
     (ch_output (channel (pitx_tick_channel i (exact s)) i)) (p_dma s)"
  by (simp_all add: tick_low_def ctr_tick_def dma_sync)

definition raised :: "pit_sys \<Rightarrow> pit_sys" where
  "raised s = fold (\<lambda>i. upd_ctr i (\<lambda>c. c\<lparr>ctr_clk := True\<rparr>)) [0, 1, 2] (s\<lparr>pit_clock := True\<rparr>)"

lemma raised_sel:
  "exact (raised s) = exact s" "p_dma (raised s) = p_dma s" "pit_clock (raised s)"
  "i < 3 \<Longrightarrow> counters (raised s) i = (counters s i)\<lparr>ctr_clk := True\<rparr>"
proof -
  have "i < 3 \<Longrightarrow> i = 0 \<or> i = 1 \<or> i = 2" by arith
  then show "i < 3 \<Longrightarrow> counters (raised s) i = (counters s i)\<lparr>ctr_clk := True\<rparr>" by (auto simp: raised_def)
qed (simp_all add: raised_def)

lemma pit_cycle_eq:
  assumes "wired s"
  shows "pit_cycle s = tick_low 2 (tick_low 1 (tick_low 0 ((raised s)\<lparr>pit_clock := False\<rparr>)))"
proof -
  have "\<not> pit_clock s" using assms by (simp add: wired_def)
  then have h: "pit_clock_edge s = raised s"
    by (simp add: pit_clock_edge_def raised_def set_clock_high Let_def)
  have u: "ctr_clk (counters (raised s) i)" "ctr_using_timer (counters (raised s) i)" if "i < 3" for i
    using assms that by (simp_all add: raised_sel wired_def)
  let ?t = "(raised s)\<lparr>pit_clock := False\<rparr>"
  have t0: "pit_ctr_set_clock 0 False ?t = tick_low 0 ?t"
    using u [of 0] by (simp add: set_clock_low tick_low_def)
  have t1: "pit_ctr_set_clock 1 False (tick_low 0 ?t) = tick_low 1 (tick_low 0 ?t)"
    using u [of 1] by (subst set_clock_low) (simp_all add: tick_low_def [of "Suc 0"])
  have t2: "pit_ctr_set_clock 2 False (tick_low 1 (tick_low 0 ?t)) = tick_low 2 (tick_low 1 (tick_low 0 ?t))"
    using u [of 2] by (subst set_clock_low) (simp_all add: tick_low_def [of 2])
  show ?thesis
    unfolding pit_cycle_def h pit_clock_edge_def [of "raised s"]
    using raised_sel(3) [of s] by (simp add: Let_def t0 t1 [simplified] t2 [simplified])
qed

lemma pit_cycle_sel:
  assumes "wired s"
  shows "exact (pit_cycle s) = pitx_tick (exact s)"
    "p_dma (pit_cycle s) =
       (if \<not> ch_output (channel (exact s) 1) \<and> ch_output (tick_channel (channel (exact s) 1))
        then dma_xt_refresh_request (p_dma s) else p_dma s)"
    "wired (pit_cycle s)"
proof -
  show e: "exact (pit_cycle s) = pitx_tick (exact s)"
    by (simp add: pit_cycle_eq [OF assms] raised_sel pitx_tick_def)
  have o: "ctr_out (counters s 1) = ch_output (channel (exact s) 1)"
    using assms mirrored_parts by (auto simp: wired_def all_synced_def synced_def)
  show "p_dma (pit_cycle s) = (if \<not> ch_output (channel (exact s) 1) \<and> ch_output (tick_channel (channel (exact s) 1))
        then dma_xt_refresh_request (p_dma s) else p_dma s)"
    using assms o
    by (simp add: pit_cycle_eq [OF assms] raised_sel wired_def dma_edge_def pitx_tick_channel_def upd_channel_def)
  have "all_synced (pit_cycle s)" using assms pit_exec_synced [of _ Edge]
    by (simp add: pit_cycle_def wired_def)
  moreover have "\<not> ctr_clk (counters (pit_cycle s) i) \<and> ctr_using_timer (counters (pit_cycle s) i)" if "i < 3" for i
  proof -
    have "i = 0 \<or> i = 1 \<or> i = 2" using that by arith
    then show ?thesis using assms by (auto simp: pit_cycle_eq [OF assms] raised_sel wired_def)
  qed
  ultimately show "wired (pit_cycle s)"
    using assms by (simp add: wired_def) (simp add: pit_cycle_eq [OF assms] raised_sel)
qed

text \<open>Counter 1 programmed over the bus: control word, then the count as two bytes.\<close>

definition program_refresh :: "u16 \<Rightarrow> pit_sys \<Rightarrow> pit_sys" where
  "program_refresh w s = pit_write 0x41 (hi8 w) (pit_write 0x41 (lo8 w) (pit_write 0x43 (control_word 1 2) s))"

lemma sync_keeps [simp]:
  "ctr_clk (counters (pit_exact_sync_channel i s) j) = ctr_clk (counters s j)"
  "ctr_using_timer (counters (pit_exact_sync_channel i s) j) = ctr_using_timer (counters s j)"
  "ctr_out_func (counters (pit_exact_sync_channel i s) j) = ctr_out_func (counters s j)"
  by simp_all

lemma notify_clock [simp]: "pit_clock (pit_exact_notify_load i s) = pit_clock s"
  by (simp add: pit_exact_notify_load_def speaker_set_count_def Let_def split: option.splits load_callback.splits)

lemma write_keeps:
  "exact (pit_write addr v s) = (if unat (addr AND 3) = 3 then pitx_control_write v (exact s)
     else pitx_data_write (unat (addr AND 3)) v (exact s))"
  "pit_clock (pit_write addr v s) = pit_clock s"
  "ctr_clk (counters (pit_write addr v s) j) = ctr_clk (counters s j)"
  "ctr_using_timer (counters (pit_write addr v s) j) = ctr_using_timer (counters s j)"
  "ctr_out_func (counters (pit_write addr v s) j) = ctr_out_func (counters s j)"
  by (simp_all add: pit_write_def pit_exact_sync_all_def Let_def del: sync_sel(4))

lemma wired_write: "wired s \<Longrightarrow> wired (pit_write addr v s)"
  using pit_exec_synced [of s "Write addr v"] by (simp add: wired_def write_keeps)

lemma program_refresh_sel:
  assumes "wired s"
  shows "wired (program_refresh w s)" "exact (program_refresh w s) = program_counter 1 2 w (exact s)"
  using assms by (simp_all add: program_refresh_def wired_write write_keeps program_counter_def)

lemma write_count_output:
  "ch_mode c \<noteq> 0 \<Longrightarrow> ch_output (channel_data_write v c) = ch_output c"
  "ch_mode (channel_data_write v c) = ch_mode c"
  by (simp_all add: channel_data_write_def finalize_write_def Let_def)

lemma period_ge_2: "2 \<le> period_of m w"
proof -
  have "unat w \<noteq> 0" "unat w \<noteq> 1" if "w \<noteq> 0" "w \<noteq> 1" using that by (auto simp: word_unat_eq_iff)
  then show ?thesis by (cases "unat w") (auto simp: period_of_def)
qed

text \<open>OUT of the programmed counter, and where it rises.\<close>

lemma refresh_output:
  assumes "ch_gate (channel e 1)" and "c = channel (program_counter 1 2 w e) 1" and "n = period_of 2 w"
  shows "ch_output c" "ch_output ((tick_channel ^^ Suc k) c) \<longleftrightarrow> k mod n \<noteq> n - 1"
proof -
  let ?p = "program_mode (control_word 1 2) (channel e 1)"
  have c: "c = channel_data_write (hi8 w) (channel_data_write (lo8 w) ?p)"
    unfolding assms(2) by (rule program_counter_channel) simp_all
  have p: "ch_mode ?p = 2" "rw_mode ?p = 3" "\<not> ch_bcd ?p" "write_phase ?p = 0" "initial_load ?p"
      "ch_gate ?p = ch_gate (channel e 1)"
    using program_mode_word [of 1 2 ?p "channel e 1"] by simp_all
  have o: "ch_output ?p"
    using control_word_fields(3) [of 1 2] by (simp add: program_mode_def set_output_def Let_def)
  then show "ch_output c" using p(1) by (simp add: c write_count_output)
  note d = write_count [OF p(2,4,5) _ _ c, of 2]
  have n: "unat (reload_value c) = n" using d p(1) by (simp add: assms(3) period_of_def unat_reload_value)
  have "rate_at n 0 (tick_channel c)"
    using rate_load [of c] d p assms(1) n period_ge_2 [of 2 w] by (simp add: assms(3))
  from rate.out_steps [OF this, of k] show "ch_output ((tick_channel ^^ Suc k) c) \<longleftrightarrow> k mod n \<noteq> n - 1"
    using period_ge_2 [of 2 w] by (auto simp: funpow_swap1 assms(3))
qed

lemma refresh_rises:
  assumes "ch_gate (channel e 1)" and "c = channel (program_counter 1 2 w e) 1" and "n = period_of 2 w"
  shows "(\<not> ch_output ((tick_channel ^^ k) c) \<and> ch_output (tick_channel ((tick_channel ^^ k) c))) =
     (0 < k \<and> k mod n = 0)"
proof -
  note out = refresh_output [OF assms]
  have n: "2 \<le> n" using period_ge_2 assms(3) by simp
  have high: "ch_output (tick_channel ((tick_channel ^^ k) c)) = (k mod n \<noteq> n - 1)" using out(2) [of k] by simp
  show ?thesis
  proof (cases k)
    case 0
    then show ?thesis using out(1) by simp
  next
    case (Suc j)
    have "ch_output ((tick_channel ^^ k) c) = (j mod n \<noteq> n - 1)" using out(2) [of j] by (simp add: Suc)
    moreover have "j mod n = n - 1 \<longleftrightarrow> Suc j mod n = 0"
      using n by (auto simp: mod_Suc)
    ultimately show ?thesis using high n Suc by auto
  qed
qed

lemma refresh_run:
  assumes "wired s" and "ch_gate (channel (exact s) 1)" and "n = period_of 2 w"
  shows "wired ((pit_cycle ^^ k) (program_refresh w s)) \<and>
     exact ((pit_cycle ^^ k) (program_refresh w s)) = (pitx_tick ^^ k) (program_counter 1 2 w (exact s)) \<and>
     p_dma ((pit_cycle ^^ k) (program_refresh w s)) =
       (dma_xt_refresh_request ^^ ((k - 1) div n)) (p_dma (program_refresh w s))"
proof (induction k)
  case 0
  then show ?case using program_refresh_sel [OF assms(1)] by simp
next
  case (Suc k)
  let ?s = "(pit_cycle ^^ k) (program_refresh w s)"
  let ?c = "channel (program_counter 1 2 w (exact s)) 1"
  have w: "wired ?s" and e: "exact ?s = (pitx_tick ^^ k) (program_counter 1 2 w (exact s))" using Suc by simp_all
  have "channel (exact ?s) 1 = (tick_channel ^^ k) ?c" by (simp add: e channel_pitx_ticks)
  then have "p_dma (pit_cycle ?s) =
      (if 0 < k \<and> k mod n = 0 then dma_xt_refresh_request (p_dma ?s) else p_dma ?s)"
    using pit_cycle_sel(2) [OF w] refresh_rises [OF assms(2) refl assms(3), of k] by simp
  then have dma: "p_dma (pit_cycle ?s) = (dma_xt_refresh_request ^^ (if 0 < k \<and> k mod n = 0 then Suc ((k - 1) div n)
      else (k - 1) div n)) (p_dma (program_refresh w s))"
    using Suc by simp
  have "(if 0 < k \<and> k mod n = 0 then Suc ((k - 1) div n) else (k - 1) div n) = k div n"
    using div_Suc [of "k - 1" n] by (cases k) auto
  with dma have "p_dma (pit_cycle ?s) = (dma_xt_refresh_request ^^ (k div n)) (p_dma (program_refresh w s))"
    by simp
  then show ?case using Suc pit_cycle_sel(1,3) [OF w] by simp
qed

text \<open>C1: The timer paces the DRAM refresh. On a machine with the XT wiring whose counter 1 is
  programmed over the bus with mode 2 and a count, the DMA controller gets one refresh request
  in every period of the count (65536 clocks for 0, 2 for 1) and nothing else: after \<open>k + 1\<close> full
  cycles of the clock the event timer drives, it is in the state that \<open>k div n\<close> requests leave.\<close>

theorem timer_paces_refresh:
  assumes "wired s" and "ch_gate (channel (exact s) 1)"
  shows "p_dma ((pit_cycle ^^ Suc k) (program_refresh w s)) =
     (dma_xt_refresh_request ^^ (k div period_of 2 w)) (p_dma (program_refresh w s))"
  using refresh_run [OF assms refl, of "Suc k" w] by simp

text \<open>The machine as \<open>xt_pit_init\<close> leaves it is wired.\<close>

lemmas wiring_defs = pit_ctr_set_out_func_def pit_ctr_set_load_func_def pit_ctr_set_using_timer_def

lemma gate_keeps:
  "ctr_clk (counters (pit_ctr_set_gate i g s) j) = ctr_clk (counters s j)"
  "ctr_using_timer (counters (pit_ctr_set_gate i g s) j) = ctr_using_timer (counters s j)"
  "ctr_out_func (counters (pit_ctr_set_gate i g s) j) = ctr_out_func (counters s j)"
  "pit_clock (pit_ctr_set_gate i g s) = pit_clock s"
  by (simp_all add: pit_ctr_set_gate_def del: sync_sel(4))

lemma gate_exact: "exact (pit_ctr_set_gate i g s) = pitx_set_gate i g (exact s)"
  by (simp add: pit_ctr_set_gate_def pitx_set_gate_def)

lemma gate_set: "ch_gate (channel_set_gate g c) = g"
  by (simp add: channel_set_gate_def set_output_def Let_def)

lemma reset_keeps:
  "pit_clock (pit_reset s) = False"
  "pit_clock (pit_set_pit_const k s) = pit_clock s"
  "counters (pit_set_pit_const k s) = counters s"
  "exact (pit_set_pit_const k s) = exact s"
  "ctr_clk (counters (pit_reset (s\<lparr>pit_flags := f, counters := \<lambda>_. ctr_zero, pit_ctrl := v\<rparr>)) i) = False"
  by (simp_all add: pit_reset_def pit_set_pit_const_def pit_exact_sync_all_def ctr_reset_def ctr_zero_def Let_def
      del: sync_sel(4))

lemma xt_pit_wired: "wired (xt_pit_init id k s)" "ch_gate (channel (exact (xt_pit_init id k s)) 1)"
proof -
  have "all_synced (pit_init 0 k s)"
    unfolding pit_init_def pit_reset_def Let_def by (simp only: all_synced_const sync_all)
  then have "all_synced (xt_pit_init id k s)"
    using pit_exec_synced [of _ "Gate i g" for i g]
    by (simp add: xt_pit_init_def pit_common_init_def pit_ctr_set_out_func_def pit_ctr_set_load_func_def
        pit_ctr_set_using_timer_def all_synced_upd unmirrored_fields)
  moreover have "\<not> ctr_clk (counters (xt_pit_init id k s) i) \<and> ctr_using_timer (counters (xt_pit_init id k s) i)"
    if "i < 3" for i
  proof -
    have "i = 0 \<or> i = 1 \<or> i = 2" using that by arith
    then show ?thesis
      by (auto simp: xt_pit_init_def pit_common_init_def pit_init_def gate_keeps wiring_defs reset_keeps)
  qed
  moreover have "\<not> pit_clock (xt_pit_init id k s)"
    by (simp add: xt_pit_init_def pit_common_init_def pit_init_def gate_keeps wiring_defs reset_keeps)
  ultimately show "wired (xt_pit_init id k s)"
    by (simp add: wired_def) (simp add: xt_pit_init_def pit_common_init_def gate_keeps wiring_defs)
  show "ch_gate (channel (exact (xt_pit_init id k s)) 1)"
    by (simp add: xt_pit_init_def pit_common_init_def pit_init_def wiring_defs gate_exact pitx_set_gate_def
        upd_channel_def gate_set)
qed

definition xt_before :: pit_sys where
  "xt_before = \<lparr>pit_flags = 0, pit_clock = False, exact = pitx_init PITX_8253, counters = \<lambda>_. ctr_zero,
     pit_ctrl = 0, pit_const = 0, callback_timer = 0, p_timers = two_timers, p_pics = xt_boot,
     p_dma = refresh_ready, refresh_at_enable = True, ppi_pb = 0, speakon = False, ppispeakon = False,
     speaker = None\<rparr>"

lemma timer_paces_refresh_witness:
  "p_dma ((pit_cycle ^^ Suc 37) (program_refresh 18 (xt_pit_init id 0 xt_before))) =
     dma_xt_refresh_request (dma_xt_refresh_request (p_dma (program_refresh 18 (xt_pit_init id 0 xt_before))))"
proof -
  have "37 div period_of 2 18 = Suc (Suc 0)" by (simp add: period_of_def)
  with timer_paces_refresh [OF xt_pit_wired, of 37 18 0 xt_before] show ?thesis
    by (simp only: funpow.simps o_apply id_apply)
qed

lemma public_registers_mirror_core_witness:
  "ctr_out (counters (fold pit_exec [Write 0x43 0x36, Gate 0 True, Edge] (pit_init 0 0 xt_before)) 0) =
     pit_ctr_get_outlevel 0 (fold pit_exec [Write 0x43 0x36, Gate 0 True, Edge] (pit_init 0 0 xt_before))"
  by (rule public_registers_mirror_core [THEN conjunct1, OF _ refl]) simp

end
