(* ===== verification/Keyboard.thy ===== *)
theory Keyboard
  imports Prelude86
begin

text \<open>
  The keyboard as the host delivers it, \<open>86box_full/src/device/keyboard.c\<close>: key events become make and
  break codes of the current scan code table, the modifier and lock states are tracked, and the
  codes go to \<open>keyboard_send\<close>. An operation returns the codes it sends, in order; 0x100 and 0x101
  announce that a fake shift may be needed. The scan code tables are data, a parameter here
  (\<open>scan_table\<close>, four make and four break bytes per key, ended by a zero); the key maps and the
  capture state of the user interface are fields that other code sets.
\<close>

section \<open>State\<close>

record scancode =
  mk :: "u8 list"
  brk :: "u8 list"

record keyboard =
  recv_key :: "nat \<Rightarrow> bool"
  recv_key_ui :: "nat \<Rightarrow> bool"
  oldkey :: "nat \<Rightarrow> bool"
  scan_table :: "(nat \<Rightarrow> scancode) option"
  caps_lock :: bool
  num_lock :: bool
  scroll_lock :: bool
  kana_lock :: bool
  kbd_in_reset :: bool
  kb_shift :: u8
  key5576mode :: bool
  keyboard_scan :: bool
  keyboard_send :: bool
  keyboard_mode :: u8
  keyboard_set3_flags :: "nat \<Rightarrow> u8"
  keyboard_set3_all_repeat :: bool
  keyboard_set3_all_break :: bool
  scancode_config_map :: "nat \<Rightarrow> nat"
  kb_is286 :: bool
  kb_is_at :: bool
  override_capture :: bool
  mouse_capture :: bool
  kbd_req_capture :: bool
  video_fullscreen :: bool
  fullscreen_ui_visible :: bool

text \<open>\<open>while (codes[..] != 0) keyboard_send (codes[..++])\<close>.\<close>

definition send_codes :: "u8 list \<Rightarrow> u16 list" where
  "send_codes cs = List.map ucast (takeWhile (\<lambda>c. c \<noteq> 0) cs)"

text \<open>The conversion of the IBM 5576-001 emulation: scan code and make code.\<close>

definition scconv55_8a :: "(nat \<times> u8) list" where
  "scconv55_8a =
     [(0x02, 0x48), (0x03, 0x49), (0x04, 0x46), (0x05, 0x44), (0x06, 0x42), (0x07, 0x43), (0x08, 0x40),
      (0x09, 0x51), (0x3d, 0x76), (0x3e, 0x77), (0x3f, 0x78), (0x40, 0x79), (0x41, 0x7a), (0x42, 0x7b),
      (0x43, 0x7c), (0x44, 0x7d), (0x57, 0x7e), (0x58, 0x7f)]"

section \<open>Operations\<close>

definition keyboard_toggle_override :: "keyboard \<Rightarrow> keyboard" where
  "keyboard_toggle_override k = k\<lparr>override_capture := \<not> override_capture k\<rparr>"

definition keyboard_init :: "keyboard \<Rightarrow> keyboard" where
  "keyboard_init k =
     k\<lparr>num_lock := False, caps_lock := False, scroll_lock := False, kana_lock := False, kb_shift := 0,
       kbd_in_reset := False, recv_key := \<lambda>_. False, recv_key_ui := \<lambda>_. False, oldkey := \<lambda>_. False,
       keyboard_scan := True, scan_table := None, keyboard_set3_flags := \<lambda>_. 0,
       keyboard_set3_all_repeat := False, keyboard_set3_all_break := False\<rparr>"

definition keyboard_set_table :: "(nat \<Rightarrow> scancode) option \<Rightarrow> keyboard \<Rightarrow> keyboard" where
  "keyboard_set_table t k = k\<lparr>scan_table := t\<rparr>"

definition fake_shift_needed :: "nat \<Rightarrow> bool" where
  "fake_shift_needed scan \<longleftrightarrow>
     scan \<in> {0x137, 0x147, 0x148, 0x149, 0x14a, 0x14b, 0x14d, 0x14f, 0x150, 0x151, 0x152, 0x153}"

text \<open>The break code of a key that scan code set 3 tells to send none.\<close>

definition set3_no_break :: "nat \<Rightarrow> bool \<Rightarrow> (nat \<Rightarrow> scancode) \<Rightarrow> keyboard \<Rightarrow> bool" where
  "set3_no_break scan down codes k \<longleftrightarrow>
     kb_is286 k \<and> keyboard_mode k AND 3 = 3 \<and> \<not> keyboard_set3_all_break k \<and> \<not> down \<and>
     keyboard_set3_flags k (unat (mk (codes scan) ! 0)) AND 2 = 0"

definition key_process :: "nat \<Rightarrow> bool \<Rightarrow> keyboard \<Rightarrow> u16 list \<times> keyboard" where
  "key_process scan0 down k0 =
     (case scan_table k0 of None \<Rightarrow> ([], k0)
      | Some codes \<Rightarrow>
        if \<not> keyboard_scan k0 \<or> \<not> keyboard_send k0 then ([], k0)
        else
          let scan = scancode_config_map k0 scan0;
              k = k0\<lparr>oldkey := (oldkey k0)(scan := down)\<rparr>;
              trigger = (scan = 0x1d \<or> scan = 0x2a \<or> scan = 0x138);
              special = (if key5576mode k \<and> down
                         then concat (List.map (\<lambda>(sc, m). if sc = scan then [ucast m] else []) scconv55_8a) else [])
          in if key5576mode k \<and> \<not> trigger then (special, if \<not> down then k\<lparr>key5576mode := False\<rparr> else k)
             else if down \<and> mk (codes scan) ! 0 = 0 then (special, k)
             else if \<not> down \<and> brk (codes scan) ! 0 = 0 then (special, k)
             else if set3_no_break scan down codes k then (special, k)
             else
               let sent = (if down then (if fake_shift_needed scan then [0x100] else []) @ send_codes (mk (codes scan))
                           else send_codes (brk (codes scan)) @ (if fake_shift_needed scan then [0x101] else []));
                   k1 = (if keyboard_mode k = 0x8a \<and> down \<and> kb_shift k AND 0x43 = 0x43
                         then k\<lparr>key5576mode := True\<rparr> else k)
               in (special @ sent, k1))"

text \<open>Scan codes from the user interface: E1 1D, E0 xx and those already translated.\<close>

definition translate_scan :: "u16 \<Rightarrow> u16" where
  "translate_scan scan =
     (if drop_bit 8 scan = 0xe1 then (if scan AND 0xff = 0x1d then 0x0100 else scan)
      else if drop_bit 8 scan = 0xe0 then (scan AND 0x00ff) OR 0x0100
      else if drop_bit 8 scan \<noteq> 0x01 then scan AND 0x00ff else scan)"

text \<open>The bit of \<open>shift\<close> a modifier key has.\<close>

definition modifier_bit :: "nat \<Rightarrow> u8" where
  "modifier_bit key =
     (if key = 0x01d then 0x01 else if key = 0x11d then 0x10 else if key = 0x02a then 0x02
      else if key = 0x036 then 0x20 else if key = 0x038 then 0x04 else if key = 0x138 then 0x40
      else if key = 0x15b then 0x08 else if key = 0x15c then 0x80 else 0)"

definition track_modifiers :: "bool \<Rightarrow> nat \<Rightarrow> keyboard \<Rightarrow> keyboard" where
  "track_modifiers down key k =
     (if down then k\<lparr>kb_shift := kb_shift k OR modifier_bit key\<rparr>
      else
        let k1 = k\<lparr>kb_shift := kb_shift k AND NOT (modifier_bit key)\<rparr>
        in if kb_is_at k1 then k1
           else if key = 0x03a then k1\<lparr>caps_lock := \<not> caps_lock k1\<rparr>
           else if key = 0x045 then k1\<lparr>num_lock := \<not> num_lock k1\<rparr>
           else if key = 0x046 then k1\<lparr>scroll_lock := \<not> scroll_lock k1\<rparr>
           else k1)"

definition captured :: "keyboard \<Rightarrow> bool" where
  "captured k \<longleftrightarrow> override_capture k \<or> mouse_capture k \<or> \<not> kbd_req_capture k \<or>
     (video_fullscreen k \<and> \<not> fullscreen_ui_visible k)"

definition keyboard_input :: "bool \<Rightarrow> u16 \<Rightarrow> keyboard \<Rightarrow> u16 list \<times> keyboard" where
  "keyboard_input down scan0 k =
     (if kbd_in_reset k then ([], k)
      else
        let key = unat (translate_scan scan0 AND 0x1ff);
            k1 = (if recv_key k key \<noteq> down then track_modifiers down key k else k);
            k2 = k1\<lparr>recv_key_ui := (recv_key_ui k1)(key := down)\<rparr>
        in if captured k2
           then key_process key down (k2\<lparr>recv_key := (recv_key k2)(key := down)\<rparr>)
           else ([], k2))"

text \<open>One index of the loop of \<open>keyboard_all_up\<close>.\<close>

definition key_up :: "nat \<Rightarrow> u16 list \<times> keyboard \<Rightarrow> u16 list \<times> keyboard" where
  "key_up i r =
     (case r of (sent, k) \<Rightarrow>
        let k1 = (if recv_key_ui k i then k\<lparr>recv_key_ui := (recv_key_ui k)(i := False)\<rparr> else k)
        in if recv_key k1 i
           then (case key_process i False (k1\<lparr>recv_key := (recv_key k1)(i := False)\<rparr>) of
                   (out, k2) \<Rightarrow> (sent @ out, k2))
           else (sent, k1))"

definition keyboard_all_up :: "keyboard \<Rightarrow> u16 list \<times> keyboard" where
  "keyboard_all_up k = fold key_up [0..<0x200] ([], k)"

definition keyboard_set_in_reset :: "bool \<Rightarrow> keyboard \<Rightarrow> keyboard" where
  "keyboard_set_in_reset b k = k\<lparr>kbd_in_reset := b\<rparr>"

definition keyboard_do_break :: "nat \<Rightarrow> (nat \<Rightarrow> scancode) \<Rightarrow> keyboard \<Rightarrow> bool" where
  "keyboard_do_break scan codes k \<longleftrightarrow>
     \<not> (kb_is286 k \<and> keyboard_mode k AND 3 = 3 \<and> \<not> keyboard_set3_all_break k \<and> \<not> recv_key k scan \<and>
        keyboard_set3_flags k (unat (mk (codes scan) ! 0)) AND 2 = 0)"

definition keyboard_update_states :: "bool \<Rightarrow> bool \<Rightarrow> bool \<Rightarrow> bool \<Rightarrow> keyboard \<Rightarrow> keyboard" where
  "keyboard_update_states cl nl sl kl k =
     k\<lparr>caps_lock := cl, num_lock := nl, scroll_lock := sl, kana_lock := kl\<rparr>"

definition lock_codes :: "nat \<Rightarrow> (nat \<Rightarrow> scancode) \<Rightarrow> keyboard \<Rightarrow> u16 list" where
  "lock_codes key codes k =
     send_codes (mk (codes key)) @ (if keyboard_do_break key codes k then send_codes (brk (codes key)) else [])"

text \<open>\<open>None\<close>: a NULL scan code table is dereferenced.\<close>

definition keyboard_set_states :: "bool \<Rightarrow> bool \<Rightarrow> bool \<Rightarrow> keyboard \<Rightarrow> (u16 list \<times> keyboard) option" where
  "keyboard_set_states cl nl sl k =
     (if caps_lock k = cl \<and> num_lock k = nl \<and> scroll_lock k = sl
      then Some ([], keyboard_update_states cl nl sl (kana_lock k) k)
      else case scan_table k of None \<Rightarrow> None
      | Some codes \<Rightarrow>
          Some ((if caps_lock k \<noteq> cl then lock_codes 0x03a codes k else []) @
                (if num_lock k \<noteq> nl then lock_codes 0x045 codes k else []) @
                (if scroll_lock k \<noteq> sl then lock_codes 0x046 codes k else []),
                keyboard_update_states cl nl sl (kana_lock k) k))"

definition keyboard_recv :: "nat \<Rightarrow> keyboard \<Rightarrow> bool" where "keyboard_recv key k = recv_key k key"
definition keyboard_recv_ui :: "nat \<Rightarrow> keyboard \<Rightarrow> bool" where "keyboard_recv_ui key k = recv_key_ui k key"

definition keyboard_isfsenter :: "keyboard \<Rightarrow> bool" where
  "keyboard_isfsenter k \<longleftrightarrow> (recv_key_ui k 0x01d \<or> recv_key_ui k 0x11d) \<and>
     (recv_key_ui k 0x038 \<or> recv_key_ui k 0x138) \<and> (recv_key_ui k 0x049 \<or> recv_key_ui k 0x149)"

definition keyboard_isfsenter_up :: "keyboard \<Rightarrow> bool" where
  "keyboard_isfsenter_up k \<longleftrightarrow> \<not> recv_key_ui k 0x01d \<and> \<not> recv_key_ui k 0x11d \<and> \<not> recv_key_ui k 0x038 \<and>
     \<not> recv_key_ui k 0x138 \<and> \<not> recv_key_ui k 0x049 \<and> \<not> recv_key_ui k 0x149"

definition keyboard_isfsexit :: "keyboard \<Rightarrow> bool" where
  "keyboard_isfsexit k \<longleftrightarrow> (recv_key_ui k 0x01d \<or> recv_key_ui k 0x11d) \<and>
     (recv_key_ui k 0x038 \<or> recv_key_ui k 0x138) \<and> (recv_key_ui k 0x051 \<or> recv_key_ui k 0x151)"

definition keyboard_isfsexit_up :: "keyboard \<Rightarrow> bool" where
  "keyboard_isfsexit_up k \<longleftrightarrow> \<not> recv_key_ui k 0x01d \<and> \<not> recv_key_ui k 0x11d \<and> \<not> recv_key_ui k 0x038 \<and>
     \<not> recv_key_ui k 0x138 \<and> \<not> recv_key_ui k 0x051 \<and> \<not> recv_key_ui k 0x151"

definition convert_scan_code :: "u16 \<Rightarrow> u16" where
  "convert_scan_code c0 =
     (let c = (if c0 AND 0xff00 = 0xe000 then (c0 AND 0xff) OR 0x0100 else c0)
      in if c = 0xe11d then 0x0100 else if 0x01ff < c \<or> c = 0x0100 then 0xffff else c)"

end
