(* ===== verification/Kbc_Xt.thy ===== *)
theory Kbc_Xt
  imports Keyboard Pit
begin

text \<open>
  The keyboard interface of the XT class machines, \<open>86box_full/src/device/kbc_xt.c\<close>: the queue of scan
  codes, the poll that hands them to the CPU one at a time with IRQ 1, ports 0x60 to 0x63 (data,
  system control, switches) and the ports of the clones, the switch settings, reset and set-up;
  and the NMI mask register of \<open>nmi.c\<close>.

  What the ports reach is the timer system of \<open>Pit\<close>: the interrupt controllers, the gate of
  counter 2 and the speaker bits. Facts about other hardware that the code asks for (diskette
  drives, video type, coprocessor, memory size, cassette and EEPROM input) are the environment
  \<open>kbd_env\<close>. The sound buffer and the traces are left out; \<open>cassette\<close> is the motor line if one is
  attached. \<open>run\<close> stands for \<open>timer_process ()\<close>.
\<close>

section \<open>State\<close>

datatype kbd_type =
    KBD_TYPE_PC81 | KBD_TYPE_PC82 | KBD_TYPE_XT82 | KBD_TYPE_XT86 | KBD_TYPE_COMPAQ | KBD_TYPE_TANDY
  | KBD_TYPE_TOSHIBA | KBD_TYPE_VTECH | KBD_TYPE_OLIVETTI | KBD_TYPE_ZENITH | KBD_TYPE_PRAVETZ
  | KBD_TYPE_HYUNDAI | KBD_TYPE_FE2010 | KBD_TYPE_JUKOST | KBD_TYPE_XTCLONE

record xtkbd =
  want_irq :: bool
  blocked :: bool
  blocked_ticks :: int
  kb_pa :: u8
  kb_pb :: u8
  kb_pd :: u8
  kb_cfg :: u8
  kb_clock :: bool
  key_waiting :: u8
  kb_type :: kbd_type
  pravetz_flags :: u8
  cpu_speed :: u8

record kbd_env =
  fdd_present :: "bool list"
  video_is_mda :: bool
  video_is_cga :: bool
  hasfpu :: bool
  env_mem_size :: u32
  isa_mem_size :: u32
  cas_inp :: bool
  eeprom_bit :: bool

record kbd_sys =
  kbd :: xtkbd
  key_queue :: "nat \<Rightarrow> u8"
  key_queue_start :: nat
  key_queue_end :: nat
  is_tandy :: bool
  is_t1x00 :: bool
  is_amstrad :: bool
  t1000_syskeys :: u8
  host :: keyboard
  k_pit :: pit_sys
  speaker_gated :: bool
  speaker_enable :: bool
  was_speaker_enable :: bool
  cassette_motor :: "bool option"
  cpu_switched :: "bool option"
  send_delay_timer :: nat
  TIMER_USEC64 :: u64
  nmi_mask :: u8

definition upd_kbd :: "(xtkbd \<Rightarrow> xtkbd) \<Rightarrow> kbd_sys \<Rightarrow> kbd_sys" where
  "upd_kbd f s = s\<lparr>kbd := f (kbd s)\<rparr>"

definition upd_pit :: "(pit_sys \<Rightarrow> pit_sys) \<Rightarrow> kbd_sys \<Rightarrow> kbd_sys" where
  "upd_pit f s = s\<lparr>k_pit := f (k_pit s)\<rparr>"

text \<open>\<open>picint (2)\<close> and \<open>picintc (2)\<close>: IRQ 1.\<close>

definition irq1_raise :: "kbd_sys \<Rightarrow> kbd_sys" where
  "irq1_raise = upd_pit (\<lambda>p. p\<lparr>p_pics := picint 2 (p_pics p)\<rparr>)"

definition irq1_clear :: "kbd_sys \<Rightarrow> kbd_sys" where
  "irq1_clear = upd_pit (\<lambda>p. p\<lparr>p_pics := picintc 2 (p_pics p)\<rparr>)"

section \<open>The queue\<close>

text \<open>The Toshiba Fn key; then the code enters a ring of 16.\<close>

definition t1000_syskey :: "u8 \<Rightarrow> u8 \<Rightarrow> u8 \<Rightarrow> kbd_sys \<Rightarrow> kbd_sys" where
  "t1000_syskey andmask ormask xormask s =
     s\<lparr>t1000_syskeys := ((t1000_syskeys s AND NOT andmask) OR ormask) XOR xormask\<rparr>"

definition fn_key :: "u16 \<Rightarrow> kbd_sys \<Rightarrow> kbd_sys" where
  "fn_key val s =
     (if \<not> is_t1x00 s then s
      else if keyboard_recv 0x138 (host s) \<or> keyboard_recv 0x11d (host s) then
        let s1 = t1000_syskey 0x00 0x04 0x00 s
        in if val = 0x45 then t1000_syskey 0x00 0x00 0x10 s1
           else if val = 0x47 then t1000_syskey 0x40 0x00 0x00 s1
           else if val = 0x49 then t1000_syskey 0x80 0x00 0x00 s1
           else if val = 0x4d then t1000_syskey 0x00 0x00 0x20 s1
           else if val = 0x4f then t1000_syskey 0x00 0x40 0x00 s1
           else if val = 0x51 then t1000_syskey 0x00 0x80 0x00 s1
           else if val = 0x54 then t1000_syskey 0x00 0x00 0x08 s1
           else s1
      else t1000_syskey 0x04 0x00 0x00 s)"

definition kbd_adddata_xt_common :: "u16 \<Rightarrow> kbd_sys \<Rightarrow> kbd_sys" where
  "kbd_adddata_xt_common val s0 =
     (let s = fn_key val s0
      in s\<lparr>key_queue := (key_queue s)(key_queue_end s := ucast val),
           key_queue_end := (key_queue_end s + 1) mod 16\<rparr>)"

text \<open>Fake shifts, on the XT and on the PC/XT 10x keyboards: the codes handed on.\<close>

definition adddata_process :: "u16 \<Rightarrow> bool \<Rightarrow> keyboard \<Rightarrow> u16 list" where
  "adddata_process val amstrad k =
     (let nl = (if amstrad then \<not> num_lock k else num_lock k);
          st = (if nl then (kb_shift k AND 0x02) XOR 0x02 else kb_shift k AND 0x02)
      in if val = 0x100 then (if st \<noteq> 0 then [if nl then 0x2a else 0xaa] else [])
         else if val = 0x101 then (if st \<noteq> 0 then [if nl then 0xaa else 0x2a] else [])
         else [val])"

definition kbd_adddata_process :: "u16 \<Rightarrow> kbd_sys \<Rightarrow> kbd_sys" where
  "kbd_adddata_process val s =
     fold kbd_adddata_xt_common (adddata_process val (is_amstrad s) (host s)) s"

definition kbd_adddata_process_10x :: "u16 \<Rightarrow> keyboard \<Rightarrow> u16 list" where
  "kbd_adddata_process_10x val k =
     (let nl = num_lock k; st = kb_shift k AND 0x22;
          twice = (\<lambda>fake_shift. [hd fake_shift, hd fake_shift])
      in if val = 0x100 then
           (if nl then (if st \<noteq> 0 then [] else twice [0xe0, 0x2a])
            else (if st AND 0x02 \<noteq> 0 then twice [0xe0, 0xaa] else []) @
                 (if st AND 0x20 \<noteq> 0 then twice [0xe0, 0xb6] else []))
         else if val = 0x101 then
           (if nl then (if st \<noteq> 0 then [] else twice [0xe0, 0xaa])
            else if st AND 0x02 \<noteq> 0 then twice [0xe0, 0x2a]
            else if st AND 0x20 \<noteq> 0 then twice [0xe0, 0x36] else [])
         else [val])"

text \<open>A key event from the host, sent through \<open>kbd_adddata_ex\<close>.\<close>

definition kbd_key_event :: "bool \<Rightarrow> u16 \<Rightarrow> kbd_sys \<Rightarrow> kbd_sys" where
  "kbd_key_event down scan s =
     (case keyboard_input down scan (host s) of (codes, k) \<Rightarrow>
        fold kbd_adddata_process codes (s\<lparr>host := k\<rparr>))"

section \<open>The poll\<close>

definition take_irq :: "kbd_sys \<Rightarrow> kbd_sys" where
  "take_irq s =
     (if want_irq (kbd s)
      then irq1_raise (upd_kbd (\<lambda>b. b\<lparr>want_irq := False, kb_pa := key_waiting b, blocked := True\<rparr>) s)
      else s)"

definition count_blocked :: "kbd_sys \<Rightarrow> kbd_sys" where
  "count_blocked =
     upd_kbd (\<lambda>b. if blocked b then
                    (let n = blocked_ticks b + 1
                     in if 50 < n then b\<lparr>blocked := False, blocked_ticks := 0\<rparr> else b\<lparr>blocked_ticks := n\<rparr>)
                  else b\<lparr>blocked_ticks := 0\<rparr>)"

definition dequeue_key :: "kbd_sys \<Rightarrow> kbd_sys" where
  "dequeue_key s =
     (if key_queue_start s \<noteq> key_queue_end s \<and> \<not> blocked (kbd s)
      then (upd_kbd (\<lambda>b. b\<lparr>key_waiting := key_queue s (key_queue_start s), want_irq := True\<rparr>) s)
             \<lparr>key_queue_start := (key_queue_start s + 1) mod 16\<rparr>
      else s)"

text \<open>What a poll does once its timer is set again.\<close>

definition kbd_poll_keys :: "kbd_sys \<Rightarrow> kbd_sys" where
  "kbd_poll_keys s =
     (if kb_pb (kbd s) AND 0x40 = 0 \<and> kb_type (kbd s) \<noteq> KBD_TYPE_TANDY then s
      else dequeue_key (count_blocked (take_irq s)))"

definition kbd_poll :: "kbd_sys \<Rightarrow> (timer_err + kbd_sys) option" where
  "kbd_poll s =
     (case timer_advance_u64 (send_delay_timer s) (1000 * TIMER_USEC64 s) (p_timers (k_pit s)) of
        None \<Rightarrow> None
      | Some (Inl e) \<Rightarrow> Some (Inl e)
      | Some (Inr t) \<Rightarrow> Some (Inr (kbd_poll_keys (upd_pit (\<lambda>p. p\<lparr>p_timers := t\<rparr>) s))))"

section \<open>The ports\<close>

definition keeps_clock :: "kbd_type \<Rightarrow> u8 \<Rightarrow> bool" where
  "keeps_clock ty val \<longleftrightarrow> val AND 0x80 \<noteq> 0 \<and> ty \<noteq> KBD_TYPE_HYUNDAI \<and> ty \<noteq> KBD_TYPE_JUKOST"

text \<open>The rising edge of the keyboard clock line resets the keyboard, which answers 0xAA.\<close>

definition keyboard_clock_edge :: "u8 \<Rightarrow> kbd_sys \<Rightarrow> kbd_sys" where
  "keyboard_clock_edge val s =
     (if \<not> keeps_clock (kb_type (kbd s)) val \<and> \<not> kb_clock (kbd s) \<and> val AND 0x40 \<noteq> 0
      then kbd_adddata_xt_common 0xaa
             (upd_kbd (\<lambda>b. b\<lparr>want_irq := False, blocked := False\<rparr>) (s\<lparr>key_queue_start := 0, key_queue_end := 0\<rparr>))
      else s)"

definition has_cassette :: "kbd_type \<Rightarrow> bool" where
  "has_cassette ty \<longleftrightarrow> ty = KBD_TYPE_PC81 \<or> ty = KBD_TYPE_PC82 \<or> ty = KBD_TYPE_PRAVETZ"

definition kbd_write_61 :: "(kbd_sys \<Rightarrow> kbd_sys) \<Rightarrow> u8 \<Rightarrow> kbd_sys \<Rightarrow> kbd_sys" where
  "kbd_write_61 run val s0 =
     (let s1 = keyboard_clock_edge val s0;
          s2 = upd_kbd (\<lambda>b. b\<lparr>kb_pb := val,
                 kb_clock := (if keeps_clock (kb_type b) val then kb_clock b else val AND 0x40 \<noteq> 0)\<rparr>) s1;
          s3 = run (upd_pit (\<lambda>p. p\<lparr>ppi_pb := val\<rparr>) s2);
          s4 = (if has_cassette (kb_type (kbd s3)) \<and> cassette_motor s3 \<noteq> None
                then s3\<lparr>cassette_motor := Some (kb_pb (kbd s3) AND 0x08 = 0)\<rparr> else s3);
          s5 = s4\<lparr>speaker_gated := (val AND 1 \<noteq> 0), speaker_enable := (val AND 2 \<noteq> 0),
                  was_speaker_enable := (val AND 2 \<noteq> 0 \<or> was_speaker_enable s4)\<rparr>;
          s6 = upd_pit (pit_ctr_set_gate 2 (val AND 1 \<noteq> 0)) s5
      in if val AND 0x80 \<noteq> 0
         then irq1_clear (upd_kbd (\<lambda>b. b\<lparr>kb_pa := 0, blocked := False\<rparr>) s6) else s6)"

definition kbd_write :: "(kbd_sys \<Rightarrow> kbd_sys) \<Rightarrow> u16 \<Rightarrow> u8 \<Rightarrow> kbd_sys \<Rightarrow> kbd_sys" where
  "kbd_write run port val s =
     (let b = kbd s in
      if port = 0x61 then kbd_write_61 run val s
      else if port = 0x62 then
        (if kb_type b = KBD_TYPE_FE2010 \<and> kb_cfg b AND 0x08 = 0
         then upd_kbd (\<lambda>b. b\<lparr>kb_pd := (kb_pd b AND 0x30) OR (val AND 0xcf)\<rparr>) s else s)
      else if port = 0x63 then
        (if kb_type b = KBD_TYPE_FE2010 \<and> kb_cfg b AND 0x08 = 0
         then upd_kbd (\<lambda>b. b\<lparr>kb_cfg := val\<rparr>) s else s)
      else if 0xc0 \<le> port \<and> port \<le> 0xcf then
        (if kb_type b = KBD_TYPE_PRAVETZ
         then let i = unat (drop_bit 1 port AND 0x07)
              in upd_kbd (\<lambda>b. b\<lparr>pravetz_flags := (pravetz_flags b AND NOT (bitmask i)) OR
                                    push_bit i (ucast (port AND 0x01))\<rparr>) s
         else s)
      else if port = 0x1f0 then
        (if kb_type b = KBD_TYPE_VTECH
         then (upd_kbd (\<lambda>b. b\<lparr>cpu_speed := val\<rparr>) s)\<lparr>cpu_switched := Some (val AND 0x80 \<noteq> 0)\<rparr> else s)
      else s)"

definition get_fdd_switch_settings :: "kbd_env \<Rightarrow> u8" where
  "get_fdd_switch_settings e =
     (let n = length (filter id (fdd_present e))
      in if n = 0 then 0x00 else push_bit 6 (word_of_nat n - 1) OR 0x01)"

definition get_videomode_switch_settings :: "kbd_env \<Rightarrow> u8" where
  "get_videomode_switch_settings e =
     (if video_is_mda e then 0x30 else if video_is_cga e then 0x20 else 0x00)"

definition fpu_switch :: "kbd_env \<Rightarrow> u8" where "fpu_switch e = (if hasfpu e then 0x02 else 0x00)"

definition read_port_a :: "kbd_env \<Rightarrow> xtkbd \<Rightarrow> u8" where
  "read_port_a e b =
     (let ty = kb_type b in
      if kb_pb b AND 0x80 \<noteq> 0 \<and> ty \<in> {KBD_TYPE_PC81, KBD_TYPE_PC82, KBD_TYPE_PRAVETZ, KBD_TYPE_XT82,
            KBD_TYPE_XT86, KBD_TYPE_XTCLONE, KBD_TYPE_COMPAQ, KBD_TYPE_ZENITH, KBD_TYPE_HYUNDAI, KBD_TYPE_VTECH}
      then
        (if ty \<in> {KBD_TYPE_PC81, KBD_TYPE_PC82, KBD_TYPE_XTCLONE, KBD_TYPE_COMPAQ, KBD_TYPE_PRAVETZ, KBD_TYPE_HYUNDAI}
         then (kb_pd b AND NOT 0x02) OR fpu_switch e
         else if ty \<in> {KBD_TYPE_XT82, KBD_TYPE_XT86, KBD_TYPE_VTECH} then 0xff
         else get_fdd_switch_settings e OR get_videomode_switch_settings e OR 0x0c OR fpu_switch e)
      else kb_pa b)"

text \<open>\<open>(mem_size + isa_mem_size - 64) / 32\<close>, in unsigned 32-bit arithmetic.\<close>

definition memory_banks :: "kbd_env \<Rightarrow> u32" where
  "memory_banks e = (env_mem_size e + isa_mem_size e - 64) div 32"

definition read_port_c :: "kbd_env \<Rightarrow> kbd_sys \<Rightarrow> u8" where
  "read_port_c e s =
     (let b = kbd s; ty = kb_type b; total = env_mem_size e + isa_mem_size e;
          ret0 =
            (if ty = KBD_TYPE_FE2010 then
               (if kb_pb b AND 0x04 \<noteq> 0 then (kb_pd b AND 0x0d) OR fpu_switch e else drop_bit 4 (kb_pd b))
             else if has_cassette ty then
               (if kb_pb b AND 0x04 \<noteq> 0
                then (if total \<in> {64, 48, 32, 16} then 0x00 else ucast (memory_banks e AND 0x0f))
                else ucast (drop_bit 4 (memory_banks e)))
             else if ty = KBD_TYPE_OLIVETTI \<or> ty = KBD_TYPE_ZENITH then
               (if kb_pb b AND 0x04 \<noteq> 0 then kb_pd b AND 0xbf else drop_bit 4 (kb_pd b))
             else
               (if kb_pb b AND 0x08 \<noteq> 0 then drop_bit 4 (kb_pd b) else (kb_pd b AND 0x0d) OR fpu_switch e));
          ret1 = ret0 OR (if ppispeakon (k_pit s) then 0x20 else 0);
          ret2 = (if has_cassette ty
                  then ret1 OR (if cassette_motor s = None then (if ppispeakon (k_pit s) then 0x10 else 0)
                                else (if cas_inp e then 0x10 else 0))
                  else ret1)
      in if ty = KBD_TYPE_TANDY then ret2 OR (if eeprom_bit e then 0x10 else 0) else ret2)"

definition kbd_read :: "kbd_env \<Rightarrow> u16 \<Rightarrow> kbd_sys \<Rightarrow> u8" where
  "kbd_read e port s =
     (let b = kbd s; ty = kb_type b in
      if port = 0x60 then read_port_a e b
      else if port = 0x61 then kb_pb b
      else if port = 0x62 then read_port_c e s
      else if port = 0x63 then
        (if ty \<in> {KBD_TYPE_XT82, KBD_TYPE_XT86, KBD_TYPE_XTCLONE, KBD_TYPE_COMPAQ, KBD_TYPE_TOSHIBA,
                  KBD_TYPE_HYUNDAI, KBD_TYPE_VTECH} then kb_pd b else 0xff)
      else if port = 0xc0 then (if ty = KBD_TYPE_PRAVETZ then pravetz_flags b else 0xff)
      else if port = 0x1f0 then (if ty = KBD_TYPE_VTECH then cpu_speed b else 0xff)
      else 0xff)"

section \<open>Switches, reset and set-up\<close>

text \<open>The memory size switches 3 and 4.\<close>

definition memory_switches :: "kbd_type \<Rightarrow> u32 \<Rightarrow> u8" where
  "memory_switches ty mem =
     (if ty \<in> {KBD_TYPE_XT86, KBD_TYPE_XTCLONE, KBD_TYPE_HYUNDAI, KBD_TYPE_COMPAQ, KBD_TYPE_TOSHIBA, KBD_TYPE_FE2010}
      then (if mem = 256 then 0x00 else if mem = 512 then 0x04 else if mem = 576 then 0x08 else 0x0c)
      else if ty = KBD_TYPE_XT82 \<or> ty = KBD_TYPE_VTECH
      then (if mem = 64 then 0x00 else if mem = 128 then 0x04 else if mem = 192 then 0x08 else 0x0c)
      else if ty = KBD_TYPE_PC82 then 0x0c
      else (if mem = 16 then 0x00 else if mem = 32 then 0x04 else if mem = 48 then 0x08 else 0x0c))"

definition zenith_memory :: "u32 \<Rightarrow> u8" where
  "zenith_memory mem =
     (if mem = 128 then 0x02 else if mem = 192 then 0x04 else if mem = 256 then 0x06
      else if mem = 320 then 0x08 else if mem = 384 then 0x0a else if mem = 448 then 0x0c
      else if mem = 512 then 0x0e else if mem = 576 then 0x10 else 0x12)"

definition dip_switches :: "kbd_env \<Rightarrow> kbd_type \<Rightarrow> u8" where
  "dip_switches e ty =
     (if ty \<in> {KBD_TYPE_PC81, KBD_TYPE_PC82, KBD_TYPE_PRAVETZ, KBD_TYPE_XT82, KBD_TYPE_XT86, KBD_TYPE_XTCLONE,
               KBD_TYPE_COMPAQ, KBD_TYPE_TOSHIBA, KBD_TYPE_OLIVETTI, KBD_TYPE_HYUNDAI, KBD_TYPE_VTECH, KBD_TYPE_FE2010}
      then (if ty = KBD_TYPE_OLIVETTI then 0x00 else get_fdd_switch_settings e) OR
           get_videomode_switch_settings e OR memory_switches ty (env_mem_size e) OR fpu_switch e
      else if ty = KBD_TYPE_ZENITH then 0x20 OR zenith_memory (env_mem_size e)
      else 0)"

definition kbd_reset :: "kbd_sys \<Rightarrow> kbd_sys" where
  "kbd_reset s =
     (upd_kbd (\<lambda>b. b\<lparr>want_irq := False, blocked := False, kb_pa := 0x00, kb_pb := 0x00, pravetz_flags := 0x00\<rparr>) s)
       \<lparr>host := (host s)\<lparr>keyboard_scan := True\<rparr>, key_queue_start := 0, key_queue_end := 0\<rparr>"

definition keyboard_set_is_amstrad :: "bool \<Rightarrow> kbd_sys \<Rightarrow> kbd_sys" where
  "keyboard_set_is_amstrad b s = s\<lparr>is_amstrad := b\<rparr>"

text \<open>The registration of the ports is left out. \<open>table\<close> is the scan code table: \<open>scancode_xt\<close> on a
  machine with its own keyboard, else the table the keyboard device has chosen.\<close>

definition kbd_init ::
  "kbd_env \<Rightarrow> bool \<Rightarrow> kbd_type \<Rightarrow> (nat \<Rightarrow> scancode) option \<Rightarrow> kbd_sys \<Rightarrow> (timer_err + kbd_sys) option" where
  "kbd_init e cpu ty table s =
     (let b0 = \<lparr>want_irq = False, blocked = False, blocked_ticks = 0, kb_pa = 0, kb_pb = 0, kb_pd = 0, kb_cfg = 0,
                 kb_clock = False, key_waiting = 0, kb_type = ty, pravetz_flags = 0,
                 cpu_speed = (if ty = KBD_TYPE_VTECH then push_bit 2 (if cpu then 1 else 0) else 0)\<rparr>;
          s1 = kbd_reset (s\<lparr>kbd := b0, host := (host s)\<lparr>keyboard_send := True\<rparr>\<rparr>);
          s2 = upd_kbd (\<lambda>b. b\<lparr>kb_pd := dip_switches e ty\<rparr>) (s1\<lparr>key_queue_start := 0, key_queue_end := 0\<rparr>)
      in case timer_add (send_delay_timer s2) True True (p_timers (k_pit s2)) of
           None \<Rightarrow> None
         | Some (Inl err) \<Rightarrow> Some (Inl err)
         | Some (Inr t) \<Rightarrow>
             Some (Inr ((upd_pit (\<lambda>p. p\<lparr>p_timers := t\<rparr>) s2)
               \<lparr>is_tandy := (ty = KBD_TYPE_TANDY), is_t1x00 := (ty = KBD_TYPE_TOSHIBA),
                 host := keyboard_set_table table (host s2), is_amstrad := False\<rparr>)))"

definition kbd_close :: "kbd_sys \<Rightarrow> timer_err + kbd_sys" where
  "kbd_close s =
     (case timer_disable (send_delay_timer s) (p_timers (k_pit s)) of
        Inl err \<Rightarrow> Inl err
      | Inr t \<Rightarrow> Inr ((upd_pit (\<lambda>p. p\<lparr>p_timers := t\<rparr>) s)
                  \<lparr>host := (host s)\<lparr>keyboard_scan := False, keyboard_send := False\<rparr>\<rparr>))"

section \<open>The NMI mask\<close>

definition nmi_write :: "u8 \<Rightarrow> kbd_sys \<Rightarrow> kbd_sys" where
  "nmi_write val s = s\<lparr>nmi_mask := val AND 0x80\<rparr>"

definition nmi_init :: "kbd_sys \<Rightarrow> kbd_sys" where
  "nmi_init s = s\<lparr>nmi_mask := 0\<rparr>"

end
