(* ===== verification/Keyboard_Service.thy ===== *)
theory Keyboard_Service
  imports Keyboard
begin

text \<open>
  The modifier state of \<open>Keyboard\<close> follows the keys while the emulator has the keyboard, and where it
  does not.
\<close>

definition modifiers :: "nat list" where
  "modifiers = [0x01d, 0x11d, 0x02a, 0x036, 0x038, 0x138, 0x15b, 0x15c]"

definition mod_on :: "u8 \<Rightarrow> nat \<Rightarrow> bool" where
  "mod_on w m \<longleftrightarrow> w AND modifier_bit m \<noteq> 0"

definition tracks :: "keyboard \<Rightarrow> bool" where
  "tracks k \<longleftrightarrow> (\<forall>m \<in> set modifiers. mod_on (kb_shift k) m = recv_key k m)"

lemma key_process_keeps:
  "recv_key (snd (key_process scan down k)) = recv_key k" "kb_shift (snd (key_process scan down k)) = kb_shift k"
  "captured (snd (key_process scan down k)) = captured k" "kbd_in_reset (snd (key_process scan down k)) = kbd_in_reset k"
  by (auto simp: key_process_def captured_def Let_def split: option.splits)

definition modifier_index :: "nat \<rightharpoonup> nat" where
  "modifier_index = map_of [(0x01d, 0), (0x11d, 4), (0x02a, 1), (0x036, 5), (0x038, 2), (0x138, 6), (0x15b, 3), (0x15c, 7)]"

lemma modifier_bit_index: "modifier_bit sc = (case modifier_index sc of None \<Rightarrow> 0 | Some n \<Rightarrow> bitmask n)"
  by (simp add: modifier_bit_def modifier_index_def bitmask_def)

lemma modifier_index_some: "m \<in> set modifiers \<longleftrightarrow> modifier_index m \<noteq> None"
  by (auto simp: modifiers_def modifier_index_def)

lemma modifier_index_inj: "modifier_index a = Some n \<Longrightarrow> modifier_index b = Some n \<Longrightarrow> a = b"
  by (auto simp: modifier_index_def split: if_splits)

lemma modifier_index_less: "modifier_index a = Some n \<Longrightarrow> n < 8"
  by (auto simp: modifier_index_def split: if_splits)

lemma tst_modifier:
  assumes "modifier_index m = Some n" shows "tst (modifier_bit sc) n \<longleftrightarrow> sc = m"
proof (cases "modifier_index sc")
  case None
  then show ?thesis using assms by (auto simp: modifier_bit_index)
next
  case (Some n')
  then have "tst (modifier_bit sc) n \<longleftrightarrow> n = n'"
    using modifier_index_less [OF Some] by (simp add: modifier_bit_index tst_bitmask)
  then show ?thesis using modifier_index_inj [OF assms, of sc] Some assms by auto
qed

lemma mod_on_bits:
  assumes "m \<in> set modifiers"
  shows "mod_on (w OR modifier_bit sc) m \<longleftrightarrow> mod_on w m \<or> sc = m"
    "mod_on (w AND NOT (modifier_bit sc)) m \<longleftrightarrow> mod_on w m \<and> sc \<noteq> m"
proof -
  obtain n where n: "modifier_index m = Some n" using assms by (auto simp: modifier_index_some)
  have bit: "mod_on x m \<longleftrightarrow> tst x n" for x
    by (simp add: mod_on_def modifier_bit_index n tst_def)
  show "mod_on (w OR modifier_bit sc) m \<longleftrightarrow> mod_on w m \<or> sc = m"
    unfolding bit by (simp add: tst_or tst_modifier [OF n])
  show "mod_on (w AND NOT (modifier_bit sc)) m \<longleftrightarrow> mod_on w m \<and> sc \<noteq> m"
    unfolding bit using modifier_index_less [OF n] by (simp add: tst_and tst_not tst_modifier [OF n])
qed

lemma track_shift:
  "kb_shift (track_modifiers down sc k) =
     (if down then kb_shift k OR modifier_bit sc else kb_shift k AND NOT (modifier_bit sc))"
  by (simp add: track_modifiers_def Let_def)

lemma track_keeps [simp]:
  "recv_key (track_modifiers down sc k) = recv_key k" "recv_key_ui (track_modifiers down sc k) = recv_key_ui k"
  "captured (track_modifiers down sc k) = captured k" "kbd_in_reset (track_modifiers down sc k) = kbd_in_reset k"
  by (simp_all add: track_modifiers_def captured_def Let_def)

lemma captured_frame [simp]:
  "captured (k\<lparr>recv_key_ui := f\<rparr>) = captured k" "captured (k\<lparr>recv_key := f\<rparr>) = captured k"
  by (simp_all add: captured_def)

definition input_key :: "u16 \<Rightarrow> nat" where
  "input_key scan = unat (translate_scan scan AND 0x1ff)"

lemma keyboard_input_keeps:
  "captured (snd (keyboard_input down scan k)) = captured k"
  "kbd_in_reset (snd (keyboard_input down scan k)) = kbd_in_reset k"
  by (simp_all add: keyboard_input_def Let_def key_process_keeps)

lemma input_tracks:
  assumes "tracks k" "captured k" "\<not> kbd_in_reset k"
  shows "tracks (snd (keyboard_input down scan k))"
    "recv_key (snd (keyboard_input down scan k)) = (recv_key k)(input_key scan := down)"
proof -
  let ?k = "snd (keyboard_input down scan k)"
  show r: "recv_key ?k = (recv_key k)(input_key scan := down)"
    using assms(2,3) by (simp add: keyboard_input_def Let_def key_process_keeps input_key_def)
  have sh: "kb_shift ?k = (if recv_key k (input_key scan) \<noteq> down
      then kb_shift (track_modifiers down (input_key scan) k) else kb_shift k)"
    using assms(2,3) by (simp add: keyboard_input_def Let_def key_process_keeps input_key_def)
  show "tracks ?k" unfolding tracks_def
  proof
    fix m assume m: "m \<in> set modifiers"
    then have "mod_on (kb_shift k) m = recv_key k m" using assms(1) by (simp add: tracks_def)
    then show "mod_on (kb_shift ?k) m = recv_key ?k m"
      by (cases "input_key scan = m") (simp_all add: r sh track_shift mod_on_bits [OF m])
  qed
qed

fun key_event :: "bool \<times> u16 \<Rightarrow> keyboard \<Rightarrow> keyboard" where
  "key_event (down, scan) k = snd (keyboard_input down scan k)"

fun held :: "(bool \<times> u16) list \<Rightarrow> nat \<Rightarrow> bool" where
  "held [] m = False"
| "held ((down, scan) # es) m = (if input_key scan = m then down else held es m)"

lemma events_track:
  assumes "tracks k" "captured k" "\<not> kbd_in_reset k" "\<not> (\<exists>m. recv_key k m)"
  shows "tracks (foldr key_event es k) \<and> captured (foldr key_event es k) \<and> \<not> kbd_in_reset (foldr key_event es k) \<and>
     recv_key (foldr key_event es k) = held es"
proof (induction es)
  case Nil
  then show ?case using assms by (auto simp: fun_eq_iff)
next
  case (Cons e es)
  obtain down scan where e: "e = (down, scan)" by (cases e)
  from Cons input_tracks [of "foldr key_event es k" down scan] show ?case
    by (auto simp: e keyboard_input_keeps fun_eq_iff)
qed

lemma key_up_shift: "kb_shift (snd (key_up i r)) = kb_shift (snd r)"
proof -
  obtain sent k where r: "r = (sent, k)" by (cases r)
  have p: "key_process i False k' = (out, k2) \<Longrightarrow> kb_shift k2 = kb_shift k'" for k' out k2
    using key_process_keeps(2) [of i False k'] by simp
  show ?thesis by (auto simp: r key_up_def Let_def split: prod.splits dest!: p)
qed

lemma all_up_shift: "kb_shift (snd (keyboard_all_up k)) = kb_shift k"
proof -
  have "kb_shift (snd (fold key_up is r)) = kb_shift (snd r)" for "is" r
    by (induction "is" arbitrary: r) (simp_all add: key_up_shift)
  then show ?thesis by (simp add: keyboard_all_up_def)
qed

text \<open>The modifier state follows the keys. While the emulator has the keyboard, after any
  sequence of key events (the latest first) each of the eight modifier bits is set exactly when the
  last event of its key pressed it. But without the keyboard a modifier sticks: pressing and
  releasing it leaves its bit set although neither key table has it down; and letting all keys go
  (\<open>keyboard_all_up\<close>) clears no bit.\<close>

theorem modifiers_follow_keys:
  assumes "m \<in> set modifiers"
  shows "(captured k \<longrightarrow> (kb_shift (foldr key_event es (keyboard_init k)) AND modifier_bit m \<noteq> 0) = held es m) \<and>
     (\<not> captured k \<and> input_key scan = m \<longrightarrow>
       (let u = key_event (False, scan) (key_event (True, scan) (keyboard_init k))
        in kb_shift u AND modifier_bit m \<noteq> 0 \<and> \<not> recv_key u m \<and> \<not> recv_key_ui u m)) \<and>
     kb_shift (snd (keyboard_all_up k)) = kb_shift k"
proof -
  have init: "tracks (keyboard_init k)" "captured (keyboard_init k) = captured k" "\<not> kbd_in_reset (keyboard_init k)"
      "\<not> (\<exists>m. recv_key (keyboard_init k) m)"
    by (simp_all add: tracks_def mod_on_def keyboard_init_def captured_def)
  have a: "mod_on (kb_shift (foldr key_event es (keyboard_init k))) m = held es m" if "captured k"
    using events_track [OF init(1) _ init(3,4), of es] that init(2) assms by (simp add: tracks_def)
  have b: "mod_on (kb_shift u) m \<and> \<not> recv_key u m \<and> \<not> recv_key_ui u m"
    if "\<not> captured k" "input_key scan = m" "u = key_event (False, scan) (key_event (True, scan) (keyboard_init k))" for u
    unfolding that(3) using that(1) init(2,3) mod_on_bits(1) [OF assms, of "kb_shift (keyboard_init k)" m] that(2)
    by (simp add: keyboard_input_def Let_def input_key_def [symmetric] track_shift) (simp add: keyboard_init_def)
  have c: "kb_shift (snd (keyboard_all_up k)) = kb_shift k" by (rule all_up_shift)
  show ?thesis using a b c by (simp add: mod_on_def Let_def)
qed

definition sample_keyboard :: keyboard where
  "sample_keyboard = \<lparr>recv_key = \<lambda>_. False, recv_key_ui = \<lambda>_. False, oldkey = \<lambda>_. False, scan_table = None,
     caps_lock = False, num_lock = False, scroll_lock = False, kana_lock = False, kbd_in_reset = False,
     kb_shift = 0, key5576mode = False, keyboard_scan = True, keyboard_send = True, keyboard_mode = 0,
     keyboard_set3_flags = \<lambda>_. 0, keyboard_set3_all_repeat = False, keyboard_set3_all_break = False,
     scancode_config_map = id, kb_is286 = False, kb_is_at = False, override_capture = True,
     mouse_capture = False, kbd_req_capture = False, video_fullscreen = False, fullscreen_ui_visible = False\<rparr>"

lemma modifiers_follow_keys_witness:
  "kb_shift (foldr key_event [(True, 0x2a)] (keyboard_init sample_keyboard)) AND 0x02 \<noteq> 0"
proof -
  have "captured sample_keyboard" by (simp add: captured_def sample_keyboard_def)
  moreover have "held [(True, 0x2a)] 0x2a" by (simp add: input_key_def translate_scan_def)
  ultimately show ?thesis
    using modifiers_follow_keys [of "0x2a" sample_keyboard "[(True, 0x2a)]" 0]
    by (simp add: modifiers_def modifier_bit_def del: foldr.simps)
qed

end
