(* ===== verification/Kbc_Service.thy ===== *)
theory Kbc_Service
  imports Kbc_Xt Keyboard_Service Pit_Service
begin

text \<open>
  What the XT keyboard interface guarantees: codes reach port 0x60 in the order they were sent, each
  with IRQ 1 and within a bounded time, and the reset of the keyboard is answered; and where it
  loses or garbles them.
\<close>

section \<open>The queue is first in, first out\<close>

definition ring_ok :: "kbd_sys \<Rightarrow> bool" where
  "ring_ok s \<longleftrightarrow> key_queue_start s < 16 \<and> key_queue_end s < 16"

definition pending :: "kbd_sys \<Rightarrow> nat" where
  "pending s = (key_queue_end s + 16 - key_queue_start s) mod 16"

text \<open>The codes waiting, oldest first.\<close>

definition waiting :: "kbd_sys \<Rightarrow> u8 list" where
  "waiting s = List.map (\<lambda>i. key_queue s ((key_queue_start s + i) mod 16)) [0..<pending s]"

lemma fn_key_keeps [simp]:
  "key_queue (fn_key v s) = key_queue s" "key_queue_start (fn_key v s) = key_queue_start s"
  "key_queue_end (fn_key v s) = key_queue_end s" "kbd (fn_key v s) = kbd s" "k_pit (fn_key v s) = k_pit s"
  "is_amstrad (fn_key v s) = is_amstrad s" "host (fn_key v s) = host s"
  by (simp_all add: fn_key_def t1000_syskey_def Let_def)

lemma adddata_keeps [simp]:
  "key_queue_start (kbd_adddata_xt_common v s) = key_queue_start s" "kbd (kbd_adddata_xt_common v s) = kbd s"
  "k_pit (kbd_adddata_xt_common v s) = k_pit s" "is_amstrad (kbd_adddata_xt_common v s) = is_amstrad s"
  "host (kbd_adddata_xt_common v s) = host s"
  by (simp_all add: kbd_adddata_xt_common_def Let_def)

lemma upd_kbd_sel [simp]:
  "kbd (upd_kbd f s) = f (kbd s)" "key_queue (upd_kbd f s) = key_queue s"
  "key_queue_start (upd_kbd f s) = key_queue_start s" "key_queue_end (upd_kbd f s) = key_queue_end s"
  "k_pit (upd_kbd f s) = k_pit s" "host (upd_kbd f s) = host s" "is_amstrad (upd_kbd f s) = is_amstrad s"
  by (simp_all add: upd_kbd_def)

lemma upd_pit_sel [simp]:
  "kbd (upd_pit f s) = kbd s" "key_queue (upd_pit f s) = key_queue s"
  "key_queue_start (upd_pit f s) = key_queue_start s" "key_queue_end (upd_pit f s) = key_queue_end s"
  "k_pit (upd_pit f s) = f (k_pit s)" "host (upd_pit f s) = host s" "is_amstrad (upd_pit f s) = is_amstrad s"
  by (simp_all add: upd_pit_def)

lemma mod16_index:
  assumes "a < 16" "i < (b + 16 - a) mod 16" "b < 16" shows "(a + i) mod 16 \<noteq> (b :: nat)"
proof (cases "a \<le> b")
  case True
  then have e: "b + 16 - a = (b - a) + 16" by simp
  have "(b - a) mod 16 = b - a" using assms(3) by simp
  then have "i < b - a" using assms(2) unfolding e mod_add_self2 by simp
  then show ?thesis using assms(3) by simp
next
  case False
  then have "i < b + 16 - a" using assms by simp
  then have lt: "a + i < b + 16" by simp
  show ?thesis
  proof (cases "a + i < 16")
    case True
    then show ?thesis using False by simp
  next
    case ge: False
    then have "(a + i) mod 16 = a + i - 16"
      using le_mod_geq [of 16 "a + i"] lt assms(3) by simp
    then show ?thesis using lt ge by linarith
  qed
qed

lemma waiting_frame:
  "key_queue t = key_queue s \<Longrightarrow> key_queue_start t = key_queue_start s \<Longrightarrow> key_queue_end t = key_queue_end s \<Longrightarrow>
   waiting t = waiting s"
  by (simp add: waiting_def pending_def)

lemma length_waiting: "length (waiting s) = pending s"
  by (simp add: waiting_def)

lemma waiting_add:
  assumes "ring_ok s"
  shows "pending s < 15 \<Longrightarrow> waiting (kbd_adddata_xt_common v s) = waiting s @ [ucast v]"
    "pending s = 15 \<Longrightarrow> waiting (kbd_adddata_xt_common v s) = []"
    "ring_ok (kbd_adddata_xt_common v s)"
proof -
  let ?t = "kbd_adddata_xt_common v s" and ?a = "key_queue_start s" and ?b = "key_queue_end s"
  have ab: "?a < 16" "?b < 16" using assms by (auto simp: ring_ok_def)
  have e: "key_queue_end ?t = (?b + 1) mod 16" "key_queue ?t = (key_queue s)(?b := ucast v)"
    by (simp_all add: kbd_adddata_xt_common_def Let_def)
  show "ring_ok ?t" using ab by (simp add: ring_ok_def e)
  have p: "pending ?t = (pending s + 1) mod 16"
    using ab by (auto simp: pending_def e mod_if split: if_splits)
  show "pending s = 15 \<Longrightarrow> waiting ?t = []" by (simp add: waiting_def p)
  assume lt: "pending s < 15"
  have last: "(?a + pending s) mod 16 = ?b" using ab by (auto simp: pending_def mod_if split: if_splits)
  have "key_queue ?t ((?a + i) mod 16) = key_queue s ((?a + i) mod 16)" if "i < pending s" for i
    using mod16_index [OF ab(1) _ ab(2), of i] that by (simp add: e pending_def)
  then show "waiting ?t = waiting s @ [ucast v]"
    using lt by (simp add: waiting_def p last e)
qed

lemma waiting_take:
  assumes "ring_ok s" "key_queue_start s \<noteq> key_queue_end s"
    and "key_queue t = key_queue s" "key_queue_start t = (key_queue_start s + 1) mod 16" "key_queue_end t = key_queue_end s"
  shows "waiting s = key_queue s (key_queue_start s) # waiting t" "ring_ok t"
proof -
  let ?a = "key_queue_start s" and ?b = "key_queue_end s"
  have ab: "?a < 16" "?b < 16" using assms(1) by (auto simp: ring_ok_def)
  show "ring_ok t" using ab by (simp add: ring_ok_def assms)
  have p: "pending s = Suc (pending t)"
    using ab assms(2) by (auto simp: pending_def assms(4,5) mod_if split: if_splits)
  have "[0..<pending s] = 0 # List.map Suc [0..<pending t]" by (simp add: p upt_conv_Cons map_Suc_upt del: upt_Suc)
  moreover have "((?a + 1) mod 16 + i) mod 16 = (?a + Suc i) mod 16" for i by (simp add: mod_simps)
  ultimately show "waiting s = key_queue s ?a # waiting t"
    using ab by (simp add: waiting_def assms(3,4) comp_def)
qed

lemma waiting_nil: "ring_ok s \<Longrightarrow> waiting s = [] \<longleftrightarrow> key_queue_start s = key_queue_end s"
  by (auto simp: waiting_def pending_def ring_ok_def mod_if split: if_splits)

section \<open>One key served\<close>

text \<open>\<open>run\<close>, the timers that are due, leaves the keyboard interface alone.\<close>

definition timers_quiet :: "(kbd_sys \<Rightarrow> kbd_sys) \<Rightarrow> bool" where
  "timers_quiet run \<longleftrightarrow> (\<forall>s. kbd (run s) = kbd s \<and> key_queue (run s) = key_queue s \<and>
     key_queue_start (run s) = key_queue_start s \<and> key_queue_end (run s) = key_queue_end s)"

text \<open>The interrupt handler: two polls, the second with IRQ 1, read the key, acknowledge by a pulse of
  bit 7. It returns the byte read and whether the poll raised IRQ 1.\<close>

definition serve_key ::
  "kbd_env \<Rightarrow> (kbd_sys \<Rightarrow> kbd_sys) \<Rightarrow> kbd_sys \<Rightarrow> (u8 \<times> bool) \<times> kbd_sys" where
  "serve_key e run s =
     (let pb = kb_pb (kbd s); s1 = kbd_poll_keys s; s2 = kbd_poll_keys s1; v = kbd_read e 0x60 s2
      in ((v, p_pics (k_pit s2) = picint 2 (p_pics (k_pit s1))),
          kbd_write run 0x61 pb (kbd_write run 0x61 (pb OR 0x80) s2)))"

primrec serve_keys ::
  "kbd_env \<Rightarrow> (kbd_sys \<Rightarrow> kbd_sys) \<Rightarrow> nat \<Rightarrow> kbd_sys \<Rightarrow> (u8 \<times> bool) list" where
  "serve_keys e run 0 s = []"
| "serve_keys e run (Suc n) s = (case serve_key e run s of (v, s') \<Rightarrow> v # serve_keys e run n s')"

definition idle :: "kbd_sys \<Rightarrow> bool" where
  "idle s \<longleftrightarrow> ring_ok s \<and> \<not> want_irq (kbd s) \<and> \<not> blocked (kbd s) \<and> kb_clock (kbd s) \<and>
     tst (kb_pb (kbd s)) 6 \<and> \<not> tst (kb_pb (kbd s)) 7"

lemma bit_tests: "(w AND 0x40 = 0) = (\<not> tst w 6)" "(w AND 0x80 = 0) = (\<not> tst w 7)" for w :: u8
  by (simp_all add: tst_def bitmask_def)

lemma tst_or_80: "tst (w OR 0x80) 7" "tst (w OR 0x80) 6 = tst w 6" for w :: u8
proof -
  have e: "(0x80 :: u8) = bitmask 7" by (simp add: bitmask_def)
  show "tst (w OR 0x80) 7" "tst (w OR 0x80) 6 = tst w 6"
    unfolding e by (simp_all add: tst_or tst_bitmask)
qed

lemma irq1_sel [simp]:
  "kbd (irq1_raise s) = kbd s" "key_queue (irq1_raise s) = key_queue s"
  "key_queue_start (irq1_raise s) = key_queue_start s" "key_queue_end (irq1_raise s) = key_queue_end s"
  "p_pics (k_pit (irq1_raise s)) = picint 2 (p_pics (k_pit s))"
  "kbd (irq1_clear s) = kbd s" "key_queue (irq1_clear s) = key_queue s"
  "key_queue_start (irq1_clear s) = key_queue_start s" "key_queue_end (irq1_clear s) = key_queue_end s"
  by (simp_all add: irq1_raise_def irq1_clear_def)

lemma write_61_sel:
  assumes "timers_quiet run" "\<not> (\<not> keeps_clock (kb_type (kbd s)) v \<and> \<not> kb_clock (kbd s) \<and> tst v 6)"
  shows "kbd (kbd_write run 0x61 v s) =
      (let b = (kbd s)\<lparr>kb_pb := v, kb_clock := (if keeps_clock (kb_type (kbd s)) v then kb_clock (kbd s) else tst v 6)\<rparr>
       in if tst v 7 then b\<lparr>kb_pa := 0, blocked := False\<rparr> else b)"
    "key_queue (kbd_write run 0x61 v s) = key_queue s"
    "key_queue_start (kbd_write run 0x61 v s) = key_queue_start s"
    "key_queue_end (kbd_write run 0x61 v s) = key_queue_end s"
proof -
  have e: "keyboard_clock_edge v s = s" using assms(2) by (auto simp: keyboard_clock_edge_def bit_tests)
  have q: "kbd (run t) = kbd t" "key_queue (run t) = key_queue t" "key_queue_start (run t) = key_queue_start t"
    "key_queue_end (run t) = key_queue_end t" for t using assms(1) by (auto simp: timers_quiet_def)
  show "kbd (kbd_write run 0x61 v s) =
      (let b = (kbd s)\<lparr>kb_pb := v, kb_clock := (if keeps_clock (kb_type (kbd s)) v then kb_clock (kbd s) else tst v 6)\<rparr>
       in if tst v 7 then b\<lparr>kb_pa := 0, blocked := False\<rparr> else b)"
    "key_queue (kbd_write run 0x61 v s) = key_queue s"
    "key_queue_start (kbd_write run 0x61 v s) = key_queue_start s"
    "key_queue_end (kbd_write run 0x61 v s) = key_queue_end s"
    by (simp_all add: kbd_write_def kbd_write_61_def e q bit_tests Let_def)
qed

lemma serve_key:
  assumes "timers_quiet run" "idle s" "waiting s = k # ks"
  obtains s' where "serve_key e run s = ((k, True), s')" "idle s'" "waiting s' = ks"
proof -
  let ?s1 = "kbd_poll_keys s" and ?s2 = "kbd_poll_keys (kbd_poll_keys s)" and ?pb = "kb_pb (kbd s)"
  let ?s3 = "kbd_write run 0x61 (?pb OR 0x80) ?s2"
  have i: "ring_ok s" "\<not> want_irq (kbd s)" "\<not> blocked (kbd s)" "kb_clock (kbd s)" "tst ?pb 6" "\<not> tst ?pb 7"
    using assms(2) by (auto simp: idle_def)
  have ne: "key_queue_start s \<noteq> key_queue_end s" using waiting_nil [OF i(1)] assms(3) by auto
  have s1: "kbd ?s1 = (kbd s)\<lparr>blocked_ticks := 0, key_waiting := key_queue s (key_queue_start s), want_irq := True\<rparr>"
      "key_queue ?s1 = key_queue s" "key_queue_start ?s1 = (key_queue_start s + 1) mod 16"
      "key_queue_end ?s1 = key_queue_end s"
    using i ne by (simp_all add: kbd_poll_keys_def bit_tests dequeue_key_def count_blocked_def take_irq_def)
  have head: "key_queue s (key_queue_start s) = k" and tl: "waiting ?s1 = ks" "ring_ok ?s1"
    using waiting_take [OF i(1) ne s1(2-4)] assms(3) by auto
  have s2: "kbd ?s2 = (kbd ?s1)\<lparr>want_irq := False, kb_pa := k, blocked := True, blocked_ticks := 1\<rparr>"
      "key_queue ?s2 = key_queue ?s1" "key_queue_start ?s2 = key_queue_start ?s1"
      "key_queue_end ?s2 = key_queue_end ?s1" "p_pics (k_pit ?s2) = picint 2 (p_pics (k_pit ?s1))"
    using i by (simp_all add: kbd_poll_keys_def [of ?s1] bit_tests dequeue_key_def count_blocked_def take_irq_def s1 head)
  have v: "kbd_read e 0x60 ?s2 = k" using i by (simp add: kbd_read_def read_port_a_def s2 s1 bit_tests)
  note w3 = write_61_sel [OF assms(1), of ?s2 "?pb OR 0x80"]
  have s3: "kb_pb (kbd ?s3) = ?pb OR 0x80" "\<not> want_irq (kbd ?s3)" "\<not> blocked (kbd ?s3)" "kb_clock (kbd ?s3)"
      "key_queue ?s3 = key_queue ?s2" "key_queue_start ?s3 = key_queue_start ?s2" "key_queue_end ?s3 = key_queue_end ?s2"
    using w3 i by (auto simp: s2 s1 tst_or_80 Let_def)
  let ?s4 = "kbd_write run 0x61 ?pb ?s3"
  note w4 = write_61_sel [OF assms(1), of ?s3 ?pb]
  have s4: "kb_pb (kbd ?s4) = ?pb" "\<not> want_irq (kbd ?s4)" "\<not> blocked (kbd ?s4)" "kb_clock (kbd ?s4)"
      "key_queue ?s4 = key_queue ?s3" "key_queue_start ?s4 = key_queue_start ?s3" "key_queue_end ?s4 = key_queue_end ?s3"
    using w4 i s3 by (auto simp: Let_def)
  have "waiting ?s4 = ks" "ring_ok ?s4"
    using tl waiting_frame [of ?s4 ?s1] s4(5-7) s3(5-7) s2(2-4) by (auto simp: ring_ok_def)
  then have "idle ?s4" using s4 i by (simp add: idle_def)
  moreover have "serve_key e run s = ((k, True), ?s4)" by (simp add: serve_key_def Let_def v s2(5))
  ultimately show ?thesis using that \<open>waiting ?s4 = ks\<close> by blast
qed

lemma serve_waiting:
  "timers_quiet run \<Longrightarrow> idle s \<Longrightarrow> serve_keys e run (length (waiting s)) s = List.map (\<lambda>c. (c, True)) (waiting s)"
proof (induction "waiting s" arbitrary: s)
  case Nil
  then show ?case by simp
next
  case (Cons k ks)
  obtain s' where s': "serve_key e run s = ((k, True), s')" "idle s'" "waiting s' = ks"
    by (rule serve_key [OF Cons.prems Cons.hyps(2) [symmetric]])
  have "waiting s = k # ks" using Cons.hyps(2) by simp
  then show ?case using s' Cons.hyps(1) [of s'] Cons.prems by simp
qed

section \<open>What the host types\<close>

lemma fold_adddata:
  assumes "ring_ok s"
  shows "pending s + length vs \<le> 15 \<Longrightarrow>
      waiting (fold kbd_adddata_xt_common vs s) = waiting s @ List.map ucast vs"
    "ring_ok (fold kbd_adddata_xt_common vs s)"
  using assms
proof (induction vs arbitrary: s)
  case Nil
  { case 1 then show ?case by simp next case 2 then show ?case by simp }
next
  case (Cons v vs)
  note a = waiting_add [where v = v]
  { case 1
    then have "pending s < 15" by simp
    note w = a(1) [OF 1(2) this]
    have "pending (kbd_adddata_xt_common v s) + length vs \<le> 15"
      using w 1(1) by (simp flip: length_waiting)
    then show ?case using Cons.IH(1) [OF _ a(3) [OF 1(2)]] w by simp
  next
    case 2
    then show ?case using Cons.IH(2) [OF a(3)] by simp }
qed

lemma fold_adddata_frame:
  "kbd (fold kbd_adddata_xt_common vs s) = kbd s" "host (fold kbd_adddata_xt_common vs s) = host s"
  "is_amstrad (fold kbd_adddata_xt_common vs s) = is_amstrad s"
  by (induction vs arbitrary: s) simp_all

lemma fold_process:
  "fold kbd_adddata_process codes s =
   fold kbd_adddata_xt_common (concat (List.map (\<lambda>v. adddata_process v (is_amstrad s) (host s)) codes)) s"
proof (induction codes arbitrary: s)
  case (Cons c cs)
  then show ?case by (simp add: kbd_adddata_process_def fold_adddata_frame)
qed simp

lemma idle_waiting_frame: "idle s \<Longrightarrow> ring_ok t \<Longrightarrow> kbd t = kbd s \<Longrightarrow> idle t"
  by (simp add: idle_def)

definition codes_sent :: "bool \<Rightarrow> u16 \<Rightarrow> kbd_sys \<Rightarrow> u16 list" where
  "codes_sent down scan s =
     (case keyboard_input down scan (host s) of (codes, k) \<Rightarrow>
        concat (List.map (\<lambda>v. adddata_process v (is_amstrad s) k) codes))"

text \<open>C3: A key event reaches the CPU: with the interface idle and its queue empty, an event of the
  host whose codes number at most fifteen is read by an interrupt handler (two polls, a read of
  port 0x60, the acknowledging pulse of port 0x61) as exactly these codes, in the order
  \<open>keyboard_input\<close> sends them, fake shifts resolved, each announced by IRQ 1.\<close>

theorem typed_keys_reach_cpu:
  assumes "timers_quiet run" "idle s" "waiting s = []" "length (codes_sent down scan s) \<le> 15"
  shows "serve_keys e run (length (codes_sent down scan s)) (kbd_key_event down scan s) =
     List.map (\<lambda>v. (ucast v, True)) (codes_sent down scan s)"
proof -
  obtain codes k where k: "keyboard_input down scan (host s) = (codes, k)" by fastforce
  define h where "h = s\<lparr>host := k\<rparr>"
  have sel: "kbd h = kbd s" "is_amstrad h = is_amstrad s" "host h = k" "ring_ok h" "waiting h = []" "pending h = 0"
    using assms(2,3) length_waiting [of s] by (simp_all add: h_def idle_def ring_ok_def waiting_def pending_def)
  let ?t = "fold kbd_adddata_xt_common (codes_sent down scan s) h"
  have ev: "kbd_key_event down scan s = ?t"
    by (simp add: kbd_key_event_def k fold_process codes_sent_def sel flip: h_def)
  have w: "waiting ?t = List.map ucast (codes_sent down scan s)"
    using fold_adddata(1) [OF sel(4), of "codes_sent down scan s"] assms(4) sel by simp
  have "idle ?t"
    by (rule idle_waiting_frame [OF assms(2) fold_adddata(2) [OF sel(4)]]) (simp add: fold_adddata_frame sel(1))
  from serve_waiting [OF assms(1) this, of e] show ?thesis
    unfolding ev w by (simp add: comp_def)
qed

text \<open>C33: The queue holds fifteen codes and no sixteenth: from an empty queue up to fifteen codes
  wait in the order sent, but \<open>kbd_adddata_xt_common\<close> does not look whether the ring is full, and the
  sixteenth makes start and end meet, so that all sixteen are lost.\<close>

theorem key_queue_capacity:
  assumes "ring_ok s" "waiting s = []" "length vs \<le> 15"
  shows "waiting (fold kbd_adddata_xt_common vs s) = List.map ucast vs \<and>
     (length vs = 15 \<longrightarrow> waiting (kbd_adddata_xt_common v (fold kbd_adddata_xt_common vs s)) = [])"
proof -
  let ?t = "fold kbd_adddata_xt_common vs s"
  have "pending s = 0" using assms(2) length_waiting [of s] by simp
  then have w: "waiting ?t = List.map ucast vs" using fold_adddata(1) [OF assms(1)] assms(2,3) by simp
  have "pending ?t = length vs" using length_waiting [of ?t] w by simp
  then show ?thesis using w waiting_add(2) [OF fold_adddata(2) [OF assms(1)], of vs v] by simp
qed

section \<open>Delivery without the acknowledgement\<close>

lemma poll_takes:
  assumes "tst (kb_pb (kbd s)) 6" "want_irq (kbd s)"
  shows "kb_pa (kbd (kbd_poll_keys s)) = key_waiting (kbd s)"
    "p_pics (k_pit (kbd_poll_keys s)) = picint 2 (p_pics (k_pit s))"
  using assms
  by (simp_all add: kbd_poll_keys_def bit_tests dequeue_key_def count_blocked_def take_irq_def Let_def)

lemma poll_dequeues:
  assumes "tst (kb_pb (kbd s)) 6" "key_queue_start s \<noteq> key_queue_end s" "\<not> want_irq (kbd s)"
    "\<not> blocked (kbd s) \<or> 50 \<le> blocked_ticks (kbd s)"
  shows "tst (kb_pb (kbd (kbd_poll_keys s))) 6" "want_irq (kbd (kbd_poll_keys s))"
    "key_waiting (kbd (kbd_poll_keys s)) = key_queue s (key_queue_start s)"
  using assms
  by (auto simp: kbd_poll_keys_def bit_tests dequeue_key_def count_blocked_def take_irq_def Let_def)

lemma poll_counts:
  assumes "tst (kb_pb (kbd s)) 6" "blocked (kbd s) \<or> want_irq (kbd s)" "blocked_ticks (kbd s) < 50"
  shows "kb_pb (kbd (kbd_poll_keys s)) = kb_pb (kbd s)" "blocked (kbd (kbd_poll_keys s))"
    "\<not> want_irq (kbd (kbd_poll_keys s))" "blocked_ticks (kbd (kbd_poll_keys s)) = blocked_ticks (kbd s) + 1"
    "key_queue (kbd_poll_keys s) = key_queue s" "key_queue_start (kbd_poll_keys s) = key_queue_start s"
    "key_queue_end (kbd_poll_keys s) = key_queue_end s"
  using assms
  by (auto simp: kbd_poll_keys_def bit_tests dequeue_key_def count_blocked_def take_irq_def Let_def)

lemma delivery:
  assumes "tst (kb_pb (kbd s)) 6" "key_queue_start s \<noteq> key_queue_end s" "0 \<le> blocked_ticks (kbd s)"
    "want_irq (kbd s) \<Longrightarrow> blocked_ticks (kbd s) < 50"
  obtains n where "int n \<le> max 0 (50 - blocked_ticks (kbd s))"
    "tst (kb_pb (kbd ((kbd_poll_keys ^^ Suc n) s))) 6" "want_irq (kbd ((kbd_poll_keys ^^ Suc n) s))"
    "key_waiting (kbd ((kbd_poll_keys ^^ Suc n) s)) = key_queue s (key_queue_start s)"
  using assms
proof (induction "nat (50 - blocked_ticks (kbd s))" arbitrary: s thesis)
  case 0
  then show ?case using poll_dequeues [of s] by (intro "0.prems"(1) [of 0]) auto
next
  case (Suc m)
  show ?case
  proof (cases "blocked (kbd s) \<or> want_irq (kbd s)")
    case False
    then show ?thesis using Suc.prems poll_dequeues [of s] by (intro Suc.prems(1) [of 0]) auto
  next
    case True
    let ?t = "kbd_poll_keys s"
    have lt: "blocked_ticks (kbd s) < 50" using Suc.hyps(2) by simp
    note c = poll_counts [OF Suc.prems(2) True lt]
    obtain n where n: "int n \<le> max 0 (50 - blocked_ticks (kbd ?t))"
        "tst (kb_pb (kbd ((kbd_poll_keys ^^ Suc n) ?t))) 6" "want_irq (kbd ((kbd_poll_keys ^^ Suc n) ?t))"
        "key_waiting (kbd ((kbd_poll_keys ^^ Suc n) ?t)) = key_queue ?t (key_queue_start ?t)"
      by (rule Suc.hyps(1) [of ?t]) (use Suc.hyps(2) Suc.prems c in auto)
    show ?thesis
    proof (rule Suc.prems(1) [of "Suc n"])
      show "int (Suc n) \<le> max 0 (50 - blocked_ticks (kbd s))" using n(1) c(4) lt by simp
    qed (use n(2-4) c(5,6) in \<open>simp_all add: funpow_swap1\<close>)
  qed
qed

section \<open>Every state the interface can be in\<close>

text \<open>The indices stay in the array, the counter of blocked polls in its range, and a byte announced
  is never blocked.\<close>

definition kbd_ok :: "kbd_sys \<Rightarrow> bool" where
  "kbd_ok s \<longleftrightarrow> ring_ok s \<and> 0 \<le> blocked_ticks (kbd s) \<and> blocked_ticks (kbd s) \<le> 50 \<and>
     (want_irq (kbd s) \<longrightarrow> blocked_ticks (kbd s) = 0 \<and> \<not> blocked (kbd s))"

inductive kbd_reach :: "kbd_env \<Rightarrow> (kbd_sys \<Rightarrow> kbd_sys) \<Rightarrow> kbd_sys \<Rightarrow> bool" for e run where
  started: "kbd_init e cpu ty table s = Some (Inr t) \<Longrightarrow> kbd_reach e run t"
| polled: "kbd_reach e run s \<Longrightarrow> kbd_poll s = Some (Inr t) \<Longrightarrow> kbd_reach e run t"
| written: "kbd_reach e run s \<Longrightarrow> kbd_reach e run (kbd_write run port v s)"
| typed: "kbd_reach e run s \<Longrightarrow> kbd_reach e run (kbd_key_event down scan s)"
| reset: "kbd_reach e run s \<Longrightarrow> kbd_reach e run (kbd_reset s)"
| closed: "kbd_reach e run s \<Longrightarrow> kbd_close s = Inr t \<Longrightarrow> kbd_reach e run t"
| amstrad: "kbd_reach e run s \<Longrightarrow> kbd_reach e run (keyboard_set_is_amstrad b s)"

lemma kbd_ok_frame:
  "kbd_ok s \<Longrightarrow> ring_ok t \<Longrightarrow> kbd t = kbd s \<Longrightarrow> kbd_ok t"
  by (simp add: kbd_ok_def)

lemma kbd_ok_upd:
  "kbd_ok s \<Longrightarrow> blocked_ticks (f (kbd s)) = blocked_ticks (kbd s) \<Longrightarrow> want_irq (f (kbd s)) = want_irq (kbd s) \<Longrightarrow>
   blocked (f (kbd s)) \<Longrightarrow> blocked (kbd s) \<Longrightarrow> kbd_ok (upd_kbd f s)"
  "kbd_ok s \<Longrightarrow> blocked_ticks (f (kbd s)) = blocked_ticks (kbd s) \<Longrightarrow> want_irq (f (kbd s)) \<Longrightarrow> want_irq (kbd s) \<Longrightarrow>
   blocked (f (kbd s)) = blocked (kbd s) \<Longrightarrow> kbd_ok (upd_kbd f s)"
  "kbd_ok s \<Longrightarrow> blocked_ticks (f (kbd s)) = blocked_ticks (kbd s) \<Longrightarrow> \<not> want_irq (f (kbd s)) \<Longrightarrow> kbd_ok (upd_kbd f s)"
  "kbd_ok s \<Longrightarrow> blocked_ticks (f (kbd s)) = blocked_ticks (kbd s) \<Longrightarrow> want_irq (f (kbd s)) = want_irq (kbd s) \<Longrightarrow>
   blocked (f (kbd s)) = blocked (kbd s) \<or> \<not> blocked (f (kbd s)) \<Longrightarrow> kbd_ok (upd_kbd f s)"
  by (auto simp: kbd_ok_def ring_ok_def)

lemma pit_ok: "kbd_ok s \<Longrightarrow> kbd_ok (upd_pit f s)"
  by (simp add: kbd_ok_def ring_ok_def)

lemma queue_end_add [simp]: "key_queue_end (kbd_adddata_xt_common v s) = (key_queue_end s + 1) mod 16"
  by (simp add: kbd_adddata_xt_common_def Let_def)

lemma poll_ok: "kbd_ok s \<Longrightarrow> kbd_ok (kbd_poll_keys s)"
  by (auto simp: kbd_ok_def ring_ok_def kbd_poll_keys_def dequeue_key_def count_blocked_def take_irq_def Let_def)

lemma write_ok:
  assumes "timers_quiet run" "kbd_ok s" shows "kbd_ok (kbd_write run port v s)"
proof -
  have q: "kbd (run t) = kbd t" "key_queue (run t) = key_queue t" "key_queue_start (run t) = key_queue_start t"
    "key_queue_end (run t) = key_queue_end t" for t using assms(1) by (auto simp: timers_quiet_def)
  have "kbd_ok (keyboard_clock_edge v s)"
    using assms(2) by (auto simp: keyboard_clock_edge_def kbd_ok_def ring_ok_def)
  then have "kbd_ok (kbd_write_61 run v s)"
    by (auto simp: kbd_write_61_def Let_def kbd_ok_def ring_ok_def q)
  then show ?thesis using assms(2)
    by (auto simp: kbd_write_def Let_def intro: kbd_ok_upd) (auto simp: kbd_ok_def ring_ok_def)
qed

lemma key_event_ok: "kbd_ok s \<Longrightarrow> kbd_ok (kbd_key_event down scan s)"
  by (auto simp: kbd_key_event_def fold_process fold_adddata_frame kbd_ok_def ring_ok_def split: prod.split
      intro: fold_adddata(2) [unfolded ring_ok_def, THEN conjunct1] fold_adddata(2) [unfolded ring_ok_def, THEN conjunct2])

lemma reach_ok:
  assumes "timers_quiet run" "kbd_reach e run s" shows "kbd_ok s"
  using assms(2)
proof induction
  case (polled s t)
  then show ?case
    by (auto simp: kbd_poll_def split: option.splits sum.splits intro!: poll_ok pit_ok)
next
  case (written s port v)
  then show ?case by (intro write_ok assms(1))
next
  case (typed s down scan)
  then show ?case by (intro key_event_ok)
qed (auto simp: kbd_ok_def ring_ok_def kbd_init_def kbd_reset_def kbd_close_def keyboard_set_is_amstrad_def Let_def
    split: option.splits sum.splits)

text \<open>C32: Whatever the host types and the guest writes, the ring indices stay inside \<open>key_queue[16]\<close>,
  the counter of polls spent blocked stays between 0 and 50 and a byte is announced only while the
  interface is not blocked.\<close>

theorem kbd_fields_in_range:
  assumes "timers_quiet run" "kbd_reach e run s"
  shows "key_queue_start s < 16 \<and> key_queue_end s < 16 \<and> 0 \<le> blocked_ticks (kbd s) \<and> blocked_ticks (kbd s) \<le> 50 \<and>
     (want_irq (kbd s) \<longrightarrow> blocked_ticks (kbd s) = 0 \<and> \<not> blocked (kbd s))"
  using reach_ok [OF assms] by (auto simp: kbd_ok_def ring_ok_def)

text \<open>A poll leaves port 0x61 alone, and with its bit 7 clear port 0x60 is the latch.\<close>

lemma poll_keeps_pb: "kb_pb (kbd (kbd_poll_keys s)) = kb_pb (kbd s)"
  by (auto simp: kbd_poll_keys_def dequeue_key_def count_blocked_def take_irq_def Let_def)

lemma polls_keep_pb: "kb_pb (kbd ((kbd_poll_keys ^^ n) s)) = kb_pb (kbd s)"
  by (induction n) (simp_all add: poll_keeps_pb)

lemma read_latch: "\<not> tst (kb_pb (kbd s)) 7 \<longrightarrow> kbd_read e 0x60 s = kb_pa (kbd s)"
  by (simp add: kbd_read_def read_port_a_def tst_def bitmask_def Let_def)

text \<open>C18: No key waits for ever: in every state the interface can be in, with the keyboard clock on
  (bit 6 of port 0x61), the oldest waiting code is in the interface's data latch with IRQ 1 raised within
  52 polls even if the guest never acknowledges the byte before; unless bit 7 of port 0x61 is set, which
  puts switches or nothing on port 0x60 on some machines, reading port 0x60 then gives the code. With the clock
  off a poll changes nothing on any machine but the Tandy.\<close>

theorem key_delivered_in_52_polls:
  assumes "timers_quiet run" "kbd_reach e run s"
  shows "(tst (kb_pb (kbd s)) 6 \<and> waiting s \<noteq> [] \<longrightarrow>
       (\<exists>n < 52. let t = (kbd_poll_keys ^^ n) s; u = kbd_poll_keys t
          in kb_pa (kbd u) = hd (waiting s) \<and> p_pics (k_pit u) = picint 2 (p_pics (k_pit t)) \<and>
            kb_pb (kbd u) = kb_pb (kbd s) \<and> (\<not> tst (kb_pb (kbd s)) 7 \<longrightarrow> kbd_read e 0x60 u = hd (waiting s)))) \<and>
     (\<not> tst (kb_pb (kbd s)) 6 \<and> kb_type (kbd s) \<noteq> KBD_TYPE_TANDY \<longrightarrow> kbd_poll_keys s = s)"
proof (intro conjI impI)
  assume a: "tst (kb_pb (kbd s)) 6 \<and> waiting s \<noteq> []"
  have ok: "kbd_ok s" by (rule reach_ok [OF assms])
  then have ring: "ring_ok s" by (simp add: kbd_ok_def)
  with a have ne: "key_queue_start s \<noteq> key_queue_end s" by (simp add: waiting_nil)
  obtain n where n: "int n \<le> max 0 (50 - blocked_ticks (kbd s))"
      "tst (kb_pb (kbd ((kbd_poll_keys ^^ Suc n) s))) 6" "want_irq (kbd ((kbd_poll_keys ^^ Suc n) s))"
      "key_waiting (kbd ((kbd_poll_keys ^^ Suc n) s)) = key_queue s (key_queue_start s)"
    by (rule delivery [of s]) (use a ne ok in \<open>auto simp: kbd_ok_def\<close>)
  have "Suc n < 52" using n(1) ok by (simp add: kbd_ok_def)
  moreover have "hd (waiting s) = key_queue s (key_queue_start s)"
    using waiting_take(1) [OF ring ne, of "s\<lparr>key_queue_start := (key_queue_start s + 1) mod 16\<rparr>"] by simp
  moreover let ?u = "kbd_poll_keys ((kbd_poll_keys ^^ Suc n) s)"
  have takes: "kb_pa (kbd ?u) = key_queue s (key_queue_start s)"
    "p_pics (k_pit ?u) = picint 2 (p_pics (k_pit ((kbd_poll_keys ^^ Suc n) s)))"
    using poll_takes [OF n(2,3)] n(4) by simp_all
  have pb: "kb_pb (kbd ?u) = kb_pb (kbd s)" by (simp only: poll_keeps_pb polls_keep_pb)
  ultimately show "\<exists>n < 52. let t = (kbd_poll_keys ^^ n) s; u = kbd_poll_keys t
          in kb_pa (kbd u) = hd (waiting s) \<and> p_pics (k_pit u) = picint 2 (p_pics (k_pit t)) \<and>
            kb_pb (kbd u) = kb_pb (kbd s) \<and> (\<not> tst (kb_pb (kbd s)) 7 \<longrightarrow> kbd_read e 0x60 u = hd (waiting s))"
    using takes pb read_latch [of ?u e] by (intro exI [of _ "Suc n"]) (simp only: Let_def simp_thms)
qed (simp add: kbd_poll_keys_def bit_tests)

lemma clock_edge_write:
  assumes "timers_quiet run" "\<not> kb_clock (kbd s)" "tst w 6" "\<not> tst w 7"
  shows "kb_pb (kbd (kbd_write run 0x61 w s)) = w" "waiting (kbd_write run 0x61 w s) = [0xaa]"
    "idle (kbd_write run 0x61 w s)"
proof -
  have q: "kbd (run t) = kbd t" "key_queue (run t) = key_queue t" "key_queue_start (run t) = key_queue_start t"
    "key_queue_end (run t) = key_queue_end t" for t using assms(1) by (auto simp: timers_quiet_def)
  have k: "\<not> keeps_clock ty w" for ty using assms(4) by (auto simp: keeps_clock_def bit_tests)
  let ?e = "upd_kbd (\<lambda>b. b\<lparr>want_irq := False, blocked := False\<rparr>) (s\<lparr>key_queue_start := 0, key_queue_end := 0\<rparr>)"
  let ?t = "kbd_write run 0x61 w s"
  have edge: "keyboard_clock_edge w s = kbd_adddata_xt_common 0xaa ?e"
    using assms(2,3) k by (simp add: keyboard_clock_edge_def bit_tests)
  have t: "kbd ?t = (kbd ?e)\<lparr>kb_pb := w, kb_clock := True\<rparr>"
      "key_queue ?t = key_queue (kbd_adddata_xt_common 0xaa ?e)" "key_queue_start ?t = 0" "key_queue_end ?t = 1"
    using assms(3,4) k by (simp_all add: kbd_write_def kbd_write_61_def edge q bit_tests Let_def)
  have r: "ring_ok ?e" "pending ?e = 0" by (simp_all add: ring_ok_def pending_def)
  have "waiting ?t = waiting (kbd_adddata_xt_common 0xaa ?e)" by (rule waiting_frame) (simp_all add: t)
  also have "\<dots> = [0xaa]" using waiting_add(1) [OF r(1)] r(2) length_waiting [of ?e] by simp
  finally show "waiting ?t = [0xaa]" .
  show "kb_pb (kbd ?t) = w" "idle ?t" using assms(3,4) by (simp_all add: idle_def ring_ok_def t)
qed

text \<open>The keyboard answers a reset: a guest that drives the clock line (bit 6 of port 0x61) low and
  then high, with the acknowledge bit low, reads 0xAA from port 0x60 with IRQ 1 next, whatever was
  queued, announced or unacknowledged before.\<close>

theorem keyboard_reset_answers:
  assumes "timers_quiet run" "\<not> tst v 6" "\<not> tst v 7" "tst w 6" "\<not> tst w 7"
  shows "fst (serve_key e run (kbd_write run 0x61 w (kbd_write run 0x61 v s))) = (0xaa, True)"
proof -
  let ?s1 = "kbd_write run 0x61 v s"
  have "\<not> kb_clock (kbd ?s1)"
    using write_61_sel(1) [OF assms(1), of s v] assms(2,3) by (simp add: keeps_clock_def bit_tests Let_def)
  note t = clock_edge_write [OF assms(1) this assms(4,5)]
  obtain s' where "serve_key e run (kbd_write run 0x61 w ?s1) = ((0xaa, True), s')"
    by (rule serve_key [OF assms(1) t(3,2)])
  then show ?thesis by simp
qed

text \<open>The 10x keyboards never send a whole fake shift: for the two-byte sequences E0 2A, E0 AA, E0
  B6 and E0 36 the loop of \<open>kbd_adddata_process_10x\<close> sends \<open>fake_shift[0]\<close> twice, so only 0xE0 bytes go
  out, two for each sequence; with Num Lock off and the left shift held \<open>FAKE_LSHIFT_ON\<close> sends E0 E0
  where the trace says E0 AA. Other codes pass unchanged.\<close>

theorem fake_shift_10x_repeats_prefix:
  "set (kbd_adddata_process_10x 0x100 k) \<subseteq> {0xe0} \<and> set (kbd_adddata_process_10x 0x101 k) \<subseteq> {0xe0} \<and>
   even (length (kbd_adddata_process_10x 0x100 k)) \<and>
   (\<not> num_lock k \<and> kb_shift k AND 0x22 = 0x02 \<longrightarrow> kbd_adddata_process_10x 0x100 k = [0xe0, 0xe0]) \<and>
   (v \<noteq> 0x100 \<and> v \<noteq> 0x101 \<longrightarrow> kbd_adddata_process_10x v k = [v])"
  by (auto simp: kbd_adddata_process_10x_def Let_def split: if_splits)

section \<open>A sample board\<close>

definition sample_env :: kbd_env where
  "sample_env = \<lparr>fdd_present = [True, False, False, False], video_is_mda = False, video_is_cga = True,
     hasfpu = False, env_mem_size = 640, isa_mem_size = 0, cas_inp = False, eeprom_bit = False\<rparr>"

text \<open>An XT after the BIOS has enabled the keyboard; the table has the codes of every key from its number.\<close>

definition sample_board :: kbd_sys where
  "sample_board =
     \<lparr>kbd = \<lparr>want_irq = False, blocked = False, blocked_ticks = 0, kb_pa = 0, kb_pb = 0x40, kb_pd = 0, kb_cfg = 0,
             kb_clock = True, key_waiting = 0, kb_type = KBD_TYPE_XT86, pravetz_flags = 0, cpu_speed = 0\<rparr>,
      key_queue = \<lambda>_. 0, key_queue_start = 0, key_queue_end = 0, is_tandy = False, is_t1x00 = False,
      is_amstrad = False, t1000_syskeys = 0,
      host = sample_keyboard\<lparr>scan_table := Some (\<lambda>c. \<lparr>mk = [word_of_nat c, 0], brk = [0x80 OR word_of_nat c, 0]\<rparr>)\<rparr>,
      k_pit = xt_before\<lparr>p_timers := two_timers\<lparr>timer_head := None\<rparr>\<rparr>, speaker_gated = False, speaker_enable = False, was_speaker_enable = False,
      cassette_motor = None, cpu_switched = None, send_delay_timer = 5, TIMER_USEC64 = 1, nmi_mask = 0\<rparr>"

lemma timers_quiet_id: "timers_quiet id"
  by (simp add: timers_quiet_def)

lemma sample_idle: "idle sample_board" "waiting sample_board = []"
  by (simp_all add: idle_def ring_ok_def sample_board_def waiting_def pending_def tst_def bitmask_def)

lemma sample_codes: "codes_sent True 0x1e sample_board = [0x1e]"
  by (simp add: codes_sent_def sample_board_def sample_keyboard_def keyboard_input_def translate_scan_def
      track_modifiers_def modifier_bit_def captured_def key_process_def fake_shift_needed_def send_codes_def
      adddata_process_def set3_no_break_def Let_def)

lemma typed_keys_reach_cpu_witness:
  "serve_keys sample_env id 1 (kbd_key_event True 0x1e sample_board) = [(0x1e, True)]"
  using typed_keys_reach_cpu [OF timers_quiet_id sample_idle, of True "0x1e" sample_env]
  by (simp add: sample_codes)

lemma key_queue_capacity_witness:
  "waiting (fold kbd_adddata_xt_common [1, 2] sample_board) = [1, 2] \<and>
   waiting (kbd_adddata_xt_common 9 (fold kbd_adddata_xt_common (replicate 15 7) sample_board)) = []"
proof
  have r: "ring_ok sample_board" using sample_idle(1) by (simp add: idle_def)
  note c = key_queue_capacity [OF r sample_idle(2)]
  show "waiting (fold kbd_adddata_xt_common [1, 2] sample_board) = [1, 2]"
    using c [of "[1, 2]" 0] by simp
  show "waiting (kbd_adddata_xt_common 9 (fold kbd_adddata_xt_common (replicate 15 7) sample_board)) = []"
    using c [of "replicate 15 7" 9] by simp
qed

text \<open>A board as \<open>kbd_init\<close> leaves it, the keyboard then reset by the guest.\<close>

definition fresh_board :: "kbd_sys option" where
  "fresh_board =
     (case kbd_init sample_env False KBD_TYPE_XT86 (scan_table (host sample_board)) sample_board of
        Some (Inr t) \<Rightarrow> Some (kbd_write id 0x61 0x40 t) | _ \<Rightarrow> None)"

lemma kbd_init_starts:
  assumes "timer_add (send_delay_timer s) True True (p_timers (k_pit s)) = Some (Inr u)"
  obtains t where "kbd_init e cpu ty table s = Some (Inr t)" "\<not> kb_clock (kbd t)"
  using assms by (simp add: kbd_init_def Let_def kbd_reset_def upd_kbd_def)

lemma fresh_board:
  obtains b where "fresh_board = Some b" "kbd_reach sample_env id b" "kb_pb (kbd b) = 0x40" "waiting b = [0xaa]"
proof -
  have "\<exists>u. timer_add (send_delay_timer sample_board) True True (p_timers (k_pit sample_board)) = Some (Inr u)"
    by (simp add: sample_board_def timer_add_def timer_set_delay_u64_def timer_enable_def upd_timer_def flag_def)
  then obtain t where t: "\<not> kb_clock (kbd t)"
      "kbd_init sample_env False KBD_TYPE_XT86 (scan_table (host sample_board)) sample_board = Some (Inr t)"
    using kbd_init_starts by metis
  note c = clock_edge_write [OF timers_quiet_id t(1), of "0x40"]
  have "kbd_reach sample_env id (kbd_write id 0x61 0x40 t)"
    by (intro kbd_reach.written kbd_reach.started [OF t(2)])
  then show ?thesis
    using that [of "kbd_write id 0x61 0x40 t"] c by (simp add: fresh_board_def t(2) tst_def bitmask_def)
qed

lemma kbd_fields_in_range_witness:
  "\<exists>b. fresh_board = Some b \<and> key_queue_start b < 16 \<and> blocked_ticks (kbd b) \<le> 50"
proof -
  obtain b where b: "fresh_board = Some b" "kbd_reach sample_env id b" by (rule fresh_board)
  show ?thesis using kbd_fields_in_range [OF timers_quiet_id b(2)] b(1) by blast
qed

lemma key_delivered_in_52_polls_witness:
  "\<exists>b. fresh_board = Some b \<and> (\<exists>n < 52. let t = (kbd_poll_keys ^^ n) b; u = kbd_poll_keys t
     in kb_pa (kbd u) = 0xaa \<and> p_pics (k_pit u) = picint 2 (p_pics (k_pit t)) \<and> kbd_read sample_env 0x60 u = 0xaa)"
proof -
  obtain b where b: "fresh_board = Some b" "kbd_reach sample_env id b" "kb_pb (kbd b) = 0x40" "waiting b = [0xaa]"
    by (rule fresh_board)
  have "tst (kb_pb (kbd b)) 6" "\<not> tst (kb_pb (kbd b)) 7" using b(3) by (simp_all add: tst_def bitmask_def)
  then show ?thesis using key_delivered_in_52_polls [OF timers_quiet_id b(2)] b(1,4) by (auto simp: Let_def)
qed

lemma keyboard_reset_answers_witness:
  "fst (serve_key sample_env id (kbd_write id 0x61 0x48 (kbd_write id 0x61 0x08 sample_board))) = (0xaa, True)"
  by (rule keyboard_reset_answers [OF timers_quiet_id]) (simp_all add: tst_def bitmask_def)

lemma fake_shift_10x_repeats_prefix_witness:
  "kbd_adddata_process_10x 0x100 (sample_keyboard\<lparr>kb_shift := 0x02\<rparr>) = [0xe0, 0xe0] \<and>
   kbd_adddata_process_10x 0x1e sample_keyboard = [0x1e]"
  using fake_shift_10x_repeats_prefix [of "sample_keyboard\<lparr>kb_shift := 0x02\<rparr>" 0]
    fake_shift_10x_repeats_prefix [of sample_keyboard "0x1e"]
  by (simp add: sample_keyboard_def)

end
