(* ===== verification/Packet_Drive.thy ===== *)
theory Packet_Drive
  imports Complex_Main Prelude86
begin

text \<open>
  The ATAPI drive as the parallel port bridges see it: the part of \<open>scsi_common_t\<close>
  (\<open>scsi_device.h\<close>) and of the task file \<open>ide_tf_t\<close> (\<open>hdc_ide.h\<close>) that their packet engines read
  and write. The drive itself is reached through function pointers of \<open>scsi_device_t\<close>, here the
  fields of \<open>drive_ops\<close>; \<open>medium\<close> is whatever else the drive keeps. \<open>find_drive\<close> is the drive the
  configuration assigns to the port, if any.
\<close>

section \<open>Faults\<close>

text \<open>What C leaves undefined: a NULL pointer followed, an array left.\<close>

datatype fault = Null_pointer | Overrun

definition andThen :: "'e + 'a \<Rightarrow> ('a \<Rightarrow> 'e + 'b) \<Rightarrow> 'e + 'b" where
  "andThen m f = (case m of Inl e \<Rightarrow> Inl e | Inr x \<Rightarrow> f x)"

lemma andThen_simps [simp]: "andThen (Inl e) f = Inl e" "andThen (Inr x) f = f x"
  by (simp_all add: andThen_def)

lemma andThen_Inr: "andThen m f = Inr y \<longleftrightarrow> (\<exists>x. m = Inr x \<and> f x = Inr y)"
  by (cases m) auto

definition buf_get :: "'a list \<Rightarrow> nat \<Rightarrow> fault + 'a" where
  "buf_get xs i = (if i < length xs then Inr (xs ! i) else Inl Overrun)"

definition buf_put :: "'a list \<Rightarrow> nat \<Rightarrow> 'a \<Rightarrow> fault + 'a list" where
  "buf_put xs i v = (if i < length xs then Inr (xs[i := v]) else Inl Overrun)"

section \<open>The drive\<close>

record 'm drive =
  features :: u8
  ireason :: u8
  request_length :: u16
  atastat :: u8
  ata_error :: u8
  drvsel :: u8
  tf_pos :: u32
  temp_buffer :: "u8 list option"
  atapi_cdb :: "u8 list"
  packet_status :: int
  packet_len :: u32
  max_transfer_len :: u16
  request_pos :: int
  callback_delay :: real
  unit_attention :: bool
  medium :: 'm

record 'm drive_ops =
  sd_command :: "'m drive \<Rightarrow> 'm drive"
  sd_phase_data_out :: "'m drive \<Rightarrow> 'm drive"
  sd_command_stop :: "'m drive \<Rightarrow> 'm drive"
  sd_reset :: "'m drive \<Rightarrow> 'm drive"
  find_drive :: "'m drive option"

abbreviation (input) PHASE_IDLE :: int where "PHASE_IDLE \<equiv> 0x00"
abbreviation (input) PHASE_COMMAND :: int where "PHASE_COMMAND \<equiv> 0x01"
abbreviation (input) PHASE_DATA_IN :: int where "PHASE_DATA_IN \<equiv> 0x02"
abbreviation (input) PHASE_DATA_OUT :: int where "PHASE_DATA_OUT \<equiv> 0x03"
abbreviation (input) PHASE_COMPLETE :: int where "PHASE_COMPLETE \<equiv> 0x06"
abbreviation (input) PHASE_ERROR :: int where "PHASE_ERROR \<equiv> 0x80"
abbreviation (input) PHASE_NONE :: int where "PHASE_NONE \<equiv> 0xff"

abbreviation (input) ERR_STAT :: u8 where "ERR_STAT \<equiv> 0x01"
abbreviation (input) DRQ_STAT :: u8 where "DRQ_STAT \<equiv> 0x08"
abbreviation (input) READY_STAT :: u8 where "READY_STAT \<equiv> 0x40"
abbreviation (input) BUSY_STAT :: u8 where "BUSY_STAT \<equiv> 0x80"
abbreviation (input) ATA_ST_DSC :: u8 where "ATA_ST_DSC \<equiv> 0x10"
abbreviation (input) ATA_ST_DRDY :: u8 where "ATA_ST_DRDY \<equiv> 0x40"
abbreviation (input) ABRT_ERR :: u8 where "ABRT_ERR \<equiv> 0x04"
abbreviation (input) ATA_CMD_PACKET :: u8 where "ATA_CMD_PACKET \<equiv> 0xa0"

text \<open>\<open>request_length & 0xff\<close> and \<open>>> 8\<close> are \<open>lo8\<close> and \<open>hi8\<close>; the writes of its two bytes
  \<open>set_lo8\<close> and \<open>set_hi8\<close>.\<close>

end
