(* ===== verification/Epat.thy ===== *)
theory Epat
  imports Packet_Drive
begin

text \<open>
  The Shuttle EPAT bridge between a parallel port and an ATAPI drive, \<open>86box_full/src/device/lpt_epat.c\<close>:
  the unlock frame that connects it, registers written as tagged bytes and read as two nibbles of
  the status port, the streaming block mode, and the packet engine that drives the ATAPI drive.

  An operation that C leaves undefined returns a fault; the log is left out.
\<close>

section \<open>State\<close>

datatype unlock_state = EPAT_UNLOCK_IDLE | EPAT_UNLOCK_RUN | EPAT_UNLOCK_CMD
datatype block_mode = EPAT_BLOCK_NONE | EPAT_BLOCK_READ | EPAT_BLOCK_WRITE

record 'm epat =
  sd :: "'m drive option"
  no_drive :: bool
  block :: block_mode
  block_arm :: block_mode
  block_half :: bool
  block_latch :: u8
  e_data :: u8
  e_ctrl :: u8
  e_status :: u8
  ustate :: unlock_state
  upos :: nat
  ulast :: u8
  udup :: bool
  ucmd :: u8
  is_connected :: bool
  reg_addr :: u8
  reg_latch :: u8
  reg_write :: bool
  nibble_hi :: bool
  regs :: "nat \<Rightarrow> u8"

definition epat_unlock :: "u8 list" where
  "epat_unlock = [0x22, 0xaa, 0x55, 0x00, 0xff, 0x87, 0x78]"

abbreviation (input) EPAT_STAT_IDLE :: u8 where "EPAT_STAT_IDLE \<equiv> 0x38"
abbreviation (input) EPAT_REG_TASKFILE :: u8 where "EPAT_REG_TASKFILE \<equiv> 0x18"
abbreviation (input) EPAT_REG_DEVCTL :: u8 where "EPAT_REG_DEVCTL \<equiv> 0x16"
abbreviation (input) EPAT_WRITE_TAG :: u8 where "EPAT_WRITE_TAG \<equiv> 0x60"
abbreviation (input) EPAT_REG_BLOCK :: u8 where "EPAT_REG_BLOCK \<equiv> 0x07"

definition upd_drive :: "('m drive \<Rightarrow> 'm drive) \<Rightarrow> 'm epat \<Rightarrow> 'm epat" where
  "upd_drive f s = s\<lparr>sd := map_option f (sd s)\<rparr>"

section \<open>The unlock frame\<close>

text \<open>The eighth comparison leaves the seven bytes of the frame.\<close>

definition epat_unlock_feed :: "u8 \<Rightarrow> 'm epat \<Rightarrow> fault + 'm epat" where
  "epat_unlock_feed val s =
     (if udup s \<and> val = ulast s then Inr (s\<lparr>udup := False\<rparr>)
      else
        let s1 = s\<lparr>ulast := val, udup := True\<rparr>
        in if ustate s1 = EPAT_UNLOCK_CMD then Inr (s1\<lparr>ucmd := val, ustate := EPAT_UNLOCK_IDLE\<rparr>)
           else andThen (buf_get epat_unlock (upos s1)) (\<lambda>expected.
             if val = expected then
               let n = upos s1 + 1; s2 = s1\<lparr>upos := n, ustate := EPAT_UNLOCK_RUN\<rparr>
               in Inr (if n = 5 then s2\<lparr>e_status := 0xb8\<rparr>
                       else if n = 6 then s2\<lparr>e_status := 0x58\<rparr>
                       else if n = 7 then s2\<lparr>e_status := 0xf0, ustate := EPAT_UNLOCK_CMD\<rparr>
                       else s2)
             else
               let n = (if val = epat_unlock ! 0 then 1 else 0)
               in Inr (s1\<lparr>upos := n, ustate := (if n \<noteq> 0 then EPAT_UNLOCK_RUN else EPAT_UNLOCK_IDLE)\<rparr>)))"

definition epat_attach_drive :: "'m drive_ops \<Rightarrow> 'm epat \<Rightarrow> 'm epat" where
  "epat_attach_drive ops s =
     (if sd s \<noteq> None \<or> no_drive s then s
      else case find_drive ops of None \<Rightarrow> s\<lparr>no_drive := True\<rparr> | Some d \<Rightarrow> s\<lparr>sd := Some d\<rparr>)"

section \<open>The packet engine\<close>

text \<open>Every phase but \<open>PHASE_COMMAND\<close>, whose branch calls the function again with another phase.\<close>

definition callback_phase :: "'m drive \<Rightarrow> 'm drive" where
  "callback_phase d =
     (let ps = packet_status d; err = atastat d AND ERR_STAT in
      if ps = PHASE_IDLE then d\<lparr>tf_pos := 0, ireason := 1, atastat := (READY_STAT OR DRQ_STAT) OR err\<rparr>
      else if ps = PHASE_COMPLETE \<or> ps = PHASE_ERROR then
        d\<lparr>atastat := (if ps = PHASE_ERROR then READY_STAT OR ERR_STAT else READY_STAT), ireason := 3,
          packet_status := PHASE_NONE\<rparr>
      else if ps = PHASE_DATA_IN \<or> ps = PHASE_DATA_OUT then
        d\<lparr>atastat := (READY_STAT OR DRQ_STAT) OR err, ireason := (if ps = PHASE_DATA_IN then 2 else 0)\<rparr>
      else d)"

definition epat_atapi_callback :: "'m drive_ops \<Rightarrow> 'm drive \<Rightarrow> 'm drive" where
  "epat_atapi_callback ops d =
     (if packet_status d = PHASE_COMMAND then
        let d1 = (sd_command ops (d\<lparr>atastat := BUSY_STAT OR (atastat d AND ERR_STAT)\<rparr>))\<lparr>callback_delay := 0\<rparr>
        in if packet_status d1 \<noteq> PHASE_COMMAND then callback_phase d1 else d1
      else callback_phase d)"

definition epat_pio_request :: "'m drive_ops \<Rightarrow> bool \<Rightarrow> 'm drive \<Rightarrow> 'm drive" where
  "epat_pio_request ops out d0 =
     (let d = d0\<lparr>atastat := BUSY_STAT\<rparr> in
      if packet_len d \<le> tf_pos d then
        let d1 = d\<lparr>tf_pos := 0, request_pos := 0\<rparr>;
            d2 = (if out then sd_phase_data_out ops d1 else sd_command_stop ops d1)\<lparr>callback_delay := 0\<rparr>
        in if packet_status d2 = PHASE_COMPLETE then epat_atapi_callback ops d2 else d2
      else
        let left = packet_len d - tf_pos d;
            d1 = (if left < ucast (max_transfer_len d)
                  then d\<lparr>max_transfer_len := ucast left, request_length := ucast left\<rparr> else d);
            d2 = epat_atapi_callback ops (d1\<lparr>packet_status := (if out then PHASE_DATA_OUT else PHASE_DATA_IN)\<rparr>)
        in d2\<lparr>request_pos := 0\<rparr>)"

definition block_over :: "'m drive \<Rightarrow> bool" where
  "block_over d \<longleftrightarrow> int (unat (max_transfer_len d)) \<le> request_pos d \<or> packet_len d \<le> tf_pos d"

text \<open>\<open>dev->sd->sc\<close> is followed before anything is tested.\<close>

definition epat_data_read :: "'m drive_ops \<Rightarrow> 'm epat \<Rightarrow> fault + (u8 \<times> 'm epat)" where
  "epat_data_read ops s =
     (case sd s of
        None \<Rightarrow> Inl Null_pointer
      | Some d \<Rightarrow>
          (case temp_buffer d of
             None \<Rightarrow> Inr (0, s)
           | Some buf \<Rightarrow>
               if packet_status d \<noteq> PHASE_DATA_IN then Inr (0, s)
               else andThen (if tf_pos d < packet_len d then buf_get buf (unat (tf_pos d)) else Inr 0) (\<lambda>ret.
                 let d1 = d\<lparr>tf_pos := tf_pos d + 1, request_pos := request_pos d + 1\<rparr>
                 in Inr (ret, s\<lparr>sd := Some (if block_over d1 then epat_pio_request ops False d1 else d1)\<rparr>))))"

definition epat_data_write :: "'m drive_ops \<Rightarrow> u8 \<Rightarrow> 'm epat \<Rightarrow> fault + 'm epat" where
  "epat_data_write ops val s =
     (case sd s of
        None \<Rightarrow> Inl Null_pointer
      | Some d \<Rightarrow>
          let step = (\<lambda>d. d\<lparr>tf_pos := tf_pos d + 1, request_pos := request_pos d + 1\<rparr>) in
          if packet_status d = PHASE_IDLE then
            andThen (buf_put (atapi_cdb d) (unat (tf_pos d)) val) (\<lambda>cdb.
              let d1 = step (d\<lparr>atapi_cdb := cdb\<rparr>)
              in Inr (s\<lparr>sd := Some (if 12 \<le> tf_pos d1
                   then epat_atapi_callback ops (d1\<lparr>tf_pos := 0, atastat := BUSY_STAT, packet_status := PHASE_COMMAND\<rparr>)
                   else d1)\<rparr>))
          else if packet_status d = PHASE_DATA_OUT then
            (case temp_buffer d of
               None \<Rightarrow> Inr s
             | Some buf \<Rightarrow>
                 andThen (buf_put buf (unat (tf_pos d)) val) (\<lambda>b.
                   let d1 = step (d\<lparr>temp_buffer := Some b\<rparr>)
                   in Inr (s\<lparr>sd := Some (if block_over d1 then epat_pio_request ops True d1 else d1)\<rparr>)))
          else Inr s)"

definition epat_command :: "u8 \<Rightarrow> 'm drive \<Rightarrow> 'm drive" where
  "epat_command cmd d =
     (if cmd \<noteq> ATA_CMD_PACKET
      then d\<lparr>atastat := (READY_STAT OR ERR_STAT) OR ATA_ST_DSC, ata_error := ABRT_ERR\<rparr>
      else d\<lparr>tf_pos := 0, packet_status := PHASE_IDLE, ireason := 1, atastat := READY_STAT OR DRQ_STAT\<rparr>)"

section \<open>Registers\<close>

definition epat_reg_read :: "'m drive_ops \<Rightarrow> u8 \<Rightarrow> 'm epat \<Rightarrow> fault + (u8 \<times> 'm epat)" where
  "epat_reg_read ops addr s0 =
     (let s = epat_attach_drive ops s0 in
      case sd s of
        None \<Rightarrow> Inr (regs s (unat addr), s)
      | Some d \<Rightarrow>
          if addr = EPAT_REG_BLOCK then epat_data_read ops s
          else if addr < 0x18 \<or> 0x1f < addr then Inr (regs s (unat addr), s)
          else if addr = 0x18 then epat_data_read ops s
          else Inr (if addr = 0x19 then ata_error d
                    else if addr = 0x1a then ireason d
                    else if addr = 0x1c then lo8 (request_length d)
                    else if addr = 0x1d then hi8 (request_length d)
                    else if addr = 0x1e then drvsel d
                    else if addr = 0x1f then atastat d
                    else regs s (unat addr), s))"

definition epat_reg_write :: "'m drive_ops \<Rightarrow> u8 \<Rightarrow> u8 \<Rightarrow> 'm epat \<Rightarrow> fault + 'm epat" where
  "epat_reg_write ops addr val s0 =
     (let s = epat_attach_drive ops (s0\<lparr>regs := (regs s0)(unat addr := val)\<rparr>) in
      if sd s = None \<or> addr < 0x18 \<or> 0x1f < addr then Inr s
      else if addr = 0x18 then epat_data_write ops val s
      else Inr (upd_drive (\<lambda>d.
             if addr = 0x19 then d\<lparr>features := val\<rparr>
             else if addr = 0x1a then d\<lparr>ireason := val\<rparr>
             else if addr = 0x1c then d\<lparr>request_length := set_lo8 (request_length d) val\<rparr>
             else if addr = 0x1d then d\<lparr>request_length := set_hi8 (request_length d) val\<rparr>
             else if addr = 0x1e then d\<lparr>drvsel := val\<rparr>
             else if addr = 0x1f then epat_command val d
             else d) s))"

text \<open>The registers of a drive that has just been reset; with a drive its own reset follows.\<close>

definition epat_device_reset :: "'m drive_ops \<Rightarrow> 'm epat \<Rightarrow> 'm epat" where
  "epat_device_reset ops s =
     upd_drive (\<lambda>d. (sd_reset ops d)\<lparr>unit_attention := True\<rparr>)
       (epat_attach_drive ops
         (s\<lparr>regs := (\<lambda>_. 0)(0x1f := ATA_ST_DRDY OR ATA_ST_DSC, 0x1c := 0x14, 0x1d := 0xeb)\<rparr>))"

section \<open>The port\<close>

text \<open>The value for the register addressed by the write before.\<close>

definition write_register :: "'m drive_ops \<Rightarrow> u8 \<Rightarrow> 'm epat \<Rightarrow> fault + 'm epat" where
  "write_register ops val s0 =
     (let s = s0\<lparr>reg_write := False\<rparr>; r = reg_addr s in
      if r < 0x20 then
        andThen (epat_reg_write ops r val s) (\<lambda>s1.
          Inr (if r = EPAT_REG_DEVCTL \<and> val AND 0x04 = 0 then epat_device_reset ops s1 else s1))
      else Inr s)"

definition epat_write_data :: "'m drive_ops \<Rightarrow> u8 \<Rightarrow> 'm epat \<Rightarrow> fault + 'm epat" where
  "epat_write_data ops val s0 =
     andThen (epat_unlock_feed val (s0\<lparr>e_data := val\<rparr>)) (\<lambda>s.
       if ustate s \<noteq> EPAT_UNLOCK_IDLE \<or> ucmd s \<noteq> 0 then Inr s
       else if \<not> is_connected s then Inr s
       else if block s = EPAT_BLOCK_WRITE then epat_data_write ops val s
       else if block s = EPAT_BLOCK_READ then
         Inr (if val = 0x00 then s\<lparr>block := EPAT_BLOCK_NONE\<rparr> else s)
       else if reg_write s then write_register ops val s
       else if val = EPAT_WRITE_TAG OR EPAT_REG_BLOCK then Inr (s\<lparr>block_arm := EPAT_BLOCK_WRITE\<rparr>)
       else if val = EPAT_REG_BLOCK then Inr (s\<lparr>block_arm := EPAT_BLOCK_READ\<rparr>)
       else if val AND EPAT_WRITE_TAG \<noteq> 0 then
         Inr (s\<lparr>reg_addr := val AND NOT EPAT_WRITE_TAG, reg_write := True\<rparr>)
       else Inr (s\<lparr>reg_addr := val, nibble_hi := False\<rparr>))"

text \<open>The rising edge of bit 0 commits a frame whose command byte is there.\<close>

definition commit_frame :: "u8 \<Rightarrow> 'm epat \<Rightarrow> 'm epat" where
  "commit_frame val s =
     (if e_ctrl s AND 0x01 = 0 \<and> val AND 0x01 \<noteq> 0 \<and> ustate s = EPAT_UNLOCK_IDLE \<and> ucmd s \<noteq> 0 then
        (if ucmd s = 0xe0 then s\<lparr>is_connected := True, e_status := EPAT_STAT_IDLE\<rparr>
         else if ucmd s = 0x30 then s\<lparr>is_connected := False, e_status := EPAT_STAT_IDLE\<rparr>
         else s)\<lparr>ucmd := 0, upos := 0\<rparr>
      else s)"

definition epat_write_ctrl :: "u8 \<Rightarrow> 'm epat \<Rightarrow> 'm epat" where
  "epat_write_ctrl val s0 =
     (let s = commit_frame val s0 in
      if is_connected s \<and> block_arm s = EPAT_BLOCK_WRITE \<and> val = 0x05 then
        s\<lparr>block := EPAT_BLOCK_WRITE, block_arm := EPAT_BLOCK_NONE, e_ctrl := val\<rparr>
      else if is_connected s \<and> block_arm s = EPAT_BLOCK_READ \<and> val = 0x03 then
        s\<lparr>block := EPAT_BLOCK_READ, block_arm := EPAT_BLOCK_NONE, block_half := False, e_ctrl := val\<rparr>
      else if block s = EPAT_BLOCK_WRITE \<and> val = 0x07 then s\<lparr>block := EPAT_BLOCK_NONE, e_ctrl := val\<rparr>
      else if block s \<noteq> EPAT_BLOCK_NONE then s\<lparr>e_ctrl := val\<rparr>
      else (if is_connected s \<and> val = 0x01 then s\<lparr>ustate := EPAT_UNLOCK_IDLE, upos := 0, nibble_hi := False\<rparr>
            else if is_connected s \<and> val = 0x03 then s\<lparr>nibble_hi := False\<rparr>
            else if is_connected s \<and> val = 0x04 \<and> ucmd s = 0 then s\<lparr>nibble_hi := True\<rparr>
            else s)\<lparr>e_ctrl := val\<rparr>)"

definition epat_read_status :: "'m drive_ops \<Rightarrow> 'm epat \<Rightarrow> fault + (u8 \<times> 'm epat)" where
  "epat_read_status ops s =
     (if ustate s \<noteq> EPAT_UNLOCK_IDLE \<or> \<not> is_connected s then Inr (e_status s, s)
      else if block s = EPAT_BLOCK_READ then
        (if block_half s then Inr (block_latch s AND 0xf0, s\<lparr>block_half := False\<rparr>)
         else andThen (epat_data_read ops s) (\<lambda>(v, s1).
           Inr (push_bit 4 (v AND 0x0f), s1\<lparr>block_latch := v, block_half := True\<rparr>)))
      else if 0x20 \<le> reg_addr s then Inr (e_status s, s)
      else if nibble_hi s then Inr ((reg_latch s AND 0xf0) OR (EPAT_STAT_IDLE AND 0x0f), s)
      else andThen (epat_reg_read ops (reg_addr s) s) (\<lambda>(v, s1).
        Inr (push_bit 4 (v AND 0x0f) OR (EPAT_STAT_IDLE AND 0x0f), s1\<lparr>reg_latch := v\<rparr>)))"

definition epat_read_ctrl :: "'m epat \<Rightarrow> u8" where
  "epat_read_ctrl s = e_ctrl s"

text \<open>The attachment to the port is left out.\<close>

definition epat_init :: "'m epat" where
  "epat_init =
     \<lparr>sd = None, no_drive = False, block = EPAT_BLOCK_NONE, block_arm = EPAT_BLOCK_NONE, block_half = False,
      block_latch = 0, e_data = 0, e_ctrl = 0, e_status = EPAT_STAT_IDLE, ustate = EPAT_UNLOCK_IDLE, upos = 0,
      ulast = 0, udup = False, ucmd = 0, is_connected = False, reg_addr = 0, reg_latch = 0, reg_write = False,
      nibble_hi = False, regs = \<lambda>_. 0\<rparr>"

end
