(* ===== verification/Byte_Stream.thy ===== *)
theory Byte_Stream
  imports Packet_Drive
begin

text \<open>
  A device read or written byte by byte. Both parallel port bridges move a packet command and its
  data through a register that delivers or takes one byte per access, over several wire protocols
  each; what a whole transfer amounts to follows from what one access does.
\<close>

primrec pulls :: "('s \<Rightarrow> 'e + ('b \<times> 's)) \<Rightarrow> nat \<Rightarrow> 's \<Rightarrow> 'e + ('b list \<times> 's)" where
  "pulls pull 0 s = Inr ([], s)"
| "pulls pull (Suc n) s =
     andThen (pull s) (\<lambda>(b, t). andThen (pulls pull n t) (\<lambda>(bs, u). Inr (b # bs, u)))"

primrec pushes :: "('b \<Rightarrow> 's \<Rightarrow> 'e + 's) \<Rightarrow> 'b list \<Rightarrow> 's \<Rightarrow> 'e + 's" where
  "pushes push [] s = Inr s"
| "pushes push (b # bs) s = andThen (push b s) (pushes push bs)"

section \<open>A source\<close>

locale byte_source =
  fixes ok :: "'s \<Rightarrow> bool" and over :: "'s \<Rightarrow> bool"
    and remaining :: "'s \<Rightarrow> 'b list" and pull :: "'s \<Rightarrow> 'e + ('b \<times> 's)"
  assumes pull_more: "ok s \<Longrightarrow> remaining s = b # c # bs \<Longrightarrow> \<exists>t. pull s = Inr (b, t) \<and> ok t \<and> remaining t = c # bs"
    and pull_last: "ok s \<Longrightarrow> remaining s = [b] \<Longrightarrow> \<exists>t. pull s = Inr (b, t) \<and> over t"
begin

lemma pull_all:
  assumes "ok s" "remaining s \<noteq> []"
  obtains t where "pulls pull (length (remaining s)) s = Inr (remaining s, t)" "over t"
proof -
  have "\<exists>t. pulls pull (length bs) s = Inr (bs, t) \<and> over t"
    if "ok s" "remaining s = bs" "bs \<noteq> []" for bs s
    using that
  proof (induction bs arbitrary: s)
    case (Cons b bs)
    show ?case
    proof (cases bs)
      case Nil
      then show ?thesis using pull_last [of s b] Cons.prems by auto
    next
      case (Cons c cs)
      then obtain t where t: "pull s = Inr (b, t)" "ok t" "remaining t = bs"
        using pull_more [of s b c cs] Cons.prems by auto
      then show ?thesis using Cons.IH [of t] Cons by auto
    qed
  qed simp
  then show ?thesis using that assms by blast
qed

lemma pull_some:
  assumes "ok s" "n < length (remaining s)"
  obtains t where "pulls pull n s = Inr (take n (remaining s), t)" "ok t" "remaining t = drop n (remaining s)"
proof -
  have "\<exists>t. pulls pull n s = Inr (take n (remaining s), t) \<and> ok t \<and> remaining t = drop n (remaining s)"
    using assms
  proof (induction n arbitrary: s)
    case (Suc n)
    then obtain b c bs where r: "remaining s = b # c # bs" by (auto simp: less_Suc_eq_le Suc_le_length_iff Suc_less_eq2 length_Suc_conv
          dest!: Suc_leI)
    then obtain t where t: "pull s = Inr (b, t)" "ok t" "remaining t = c # bs" using pull_more Suc.prems(1) by blast
    then show ?case using Suc.IH [of t] Suc.prems(2) r by auto
  qed simp
  then show ?thesis using that by blast
qed

end

section \<open>A sink\<close>

locale byte_sink =
  fixes ok :: "'s \<Rightarrow> bool" and over :: "'b list \<Rightarrow> 's \<Rightarrow> bool"
    and taken :: "'s \<Rightarrow> 'b list" and cap :: nat and fits :: "'b \<Rightarrow> bool" and push :: "'b \<Rightarrow> 's \<Rightarrow> 'e + 's"
  assumes push_more: "ok s \<Longrightarrow> fits b \<Longrightarrow> Suc (length (taken s)) < cap \<Longrightarrow>
      \<exists>t. push b s = Inr t \<and> ok t \<and> taken t = taken s @ [b]"
    and push_last: "ok s \<Longrightarrow> fits b \<Longrightarrow> Suc (length (taken s)) = cap \<Longrightarrow>
      \<exists>t. push b s = Inr t \<and> over (taken s @ [b]) t"
begin

lemma push_all:
  assumes "ok s" "list_all fits bs" "bs \<noteq> []" "length (taken s) + length bs = cap"
  obtains t where "pushes push bs s = Inr t" "over (taken s @ bs) t"
proof -
  have "\<exists>t. pushes push bs s = Inr t \<and> over (taken s @ bs) t"
    using assms
  proof (induction bs arbitrary: s)
    case (Cons b bs)
    show ?case
    proof (cases bs)
      case Nil
      then show ?thesis using push_last [of s b] Cons.prems by auto
    next
      case c: (Cons c cs)
      then obtain t where t: "push b s = Inr t" "ok t" "taken t = taken s @ [b]"
        using push_more [of s b] Cons.prems by auto
      then show ?thesis using Cons.IH [of t] Cons.prems c by auto
    qed
  qed simp
  then show ?thesis using that by blast
qed

end

end
