(* ===== verification/Epat_Service.thy ===== *)
theory Epat_Service
  imports Epat Byte_Stream "HOL-Library.Sublist"
begin

text \<open>
  What the EPAT bridge guarantees over the wire: the unlock frame connects it, registers hold what a
  host writes, a packet command reaches the drive and its data the host byte for byte; and where
  the protocol breaks: the data byte 0x22, transfers without a drive, a frame that is not
  committed.

  The host side is the protocol the comments of the source give: \<open>w0\<close>, \<open>w2\<close> and \<open>r1\<close> are accesses to
  the data, control and status port.
\<close>

section \<open>The host\<close>

text \<open>\<open>((a >> 4) & 0x0f) | (b & 0xf0)\<close>.\<close>

definition j44 :: "u8 \<Rightarrow> u8 \<Rightarrow> u8" where
  "j44 a b = (drop_bit 4 a AND 0x0f) OR (b AND 0xf0)"

definition host_write_reg :: "'m drive_ops \<Rightarrow> u8 \<Rightarrow> u8 \<Rightarrow> 'm epat \<Rightarrow> fault + 'm epat" where
  "host_write_reg ops r v s =
     andThen (epat_write_data ops (0x60 + r) s) (\<lambda>s1.
     andThen (epat_write_data ops v (epat_write_ctrl 1 s1)) (\<lambda>s2.
     Inr (epat_write_ctrl 4 s2)))"

definition host_read_reg :: "'m drive_ops \<Rightarrow> u8 \<Rightarrow> 'm epat \<Rightarrow> fault + (u8 \<times> 'm epat)" where
  "host_read_reg ops r s =
     andThen (epat_write_data ops r s) (\<lambda>s1.
     andThen (epat_read_status ops (epat_write_ctrl 3 (epat_write_ctrl 1 s1))) (\<lambda>(a, s2).
     andThen (epat_read_status ops (epat_write_ctrl 4 s2)) (\<lambda>(b, s3).
     Inr (j44 a b, s3))))"

text \<open>The bridge is connected and between operations.\<close>

definition at_rest :: "'m epat \<Rightarrow> bool" where
  "at_rest s \<longleftrightarrow> is_connected s \<and> ustate s = EPAT_UNLOCK_IDLE \<and> upos s = 0 \<and> ucmd s = 0 \<and>
     block s = EPAT_BLOCK_NONE \<and> block_arm s = EPAT_BLOCK_NONE \<and> \<not> reg_write s"

lemma bit_0f: "bit (0x0f :: u8) n \<longleftrightarrow> n < 4"
proof -
  have eq: "(0x0f :: u8) = mask 4" by (simp add: mask_eq_exp_minus_1)
  show ?thesis unfolding eq by (simp only: bit_mask_iff) auto
qed

lemma bit_f0: "bit (0xf0 :: u8) n \<longleftrightarrow> 4 \<le> n \<and> n < 8"
proof -
  have eq: "(0xf0 :: u8) = push_bit 4 (mask 4)" by (simp add: mask_eq_exp_minus_1)
  show ?thesis unfolding eq by (simp only: bit_push_bit_iff bit_mask_iff) auto
qed

lemma idle_low: "(0x38 AND 0x0f :: u8) = push_bit 3 1" by simp

lemmas nibble_bits = bit_0f bit_f0 bit_or_iff bit_and_iff bit_push_bit_iff bit_drop_bit_eq comp_apply bit_1_iff

lemma low_nibble_back:
  "drop_bit 4 (push_bit 4 (v AND 0x0f) OR (0x38 AND 0x0f)) AND 0x0f = v AND (0x0f :: u8)"
  "drop_bit 4 (push_bit 4 (v AND 0x0f)) AND 0x0f = v AND (0x0f :: u8)"
  unfolding idle_low by (rule bit_word_eqI, simp only: nibble_bits, auto)+

lemma high_nibble_back: "((v AND 0xf0) OR (0x38 AND 0x0f)) AND 0xf0 = v AND (0xf0 :: u8)" "(v AND 0xf0) AND 0xf0 = v AND (0xf0 :: u8)"
  unfolding idle_low by (rule bit_word_eqI, simp only: nibble_bits, auto)+

lemma nibbles: "(v AND 0x0f) OR (v AND 0xf0) = (v :: u8)"
  by (rule bit_word_eqI, simp only: nibble_bits) auto

lemma j44_wire:
  "j44 (push_bit 4 (v AND 0x0f) OR (0x38 AND 0x0f)) ((v AND 0xf0) OR (0x38 AND 0x0f)) = v"
  "j44 (push_bit 4 (v AND 0x0f)) (v AND 0xf0) = v"
  by (simp_all only: j44_def low_nibble_back high_nibble_back nibbles)

section \<open>Plain accesses\<close>

definition fed :: "u8 \<Rightarrow> 'm epat \<Rightarrow> 'm epat" where
  "fed v s = s\<lparr>e_data := v, ulast := v, udup := (\<not> (udup s \<and> v = ulast s))\<rparr>"

lemma fed_sel [simp]:
  "sd (fed v s) = sd s" "block (fed v s) = block s" "block_arm (fed v s) = block_arm s" "is_connected (fed v s) = is_connected s"
  "ustate (fed v s) = ustate s" "upos (fed v s) = upos s" "ucmd (fed v s) = ucmd s" "reg_write (fed v s) = reg_write s"
  "reg_addr (fed v s) = reg_addr s" "regs (fed v s) = regs s" "no_drive (fed v s) = no_drive s"
  "nibble_hi (fed v s) = nibble_hi s" "block_half (fed v s) = block_half s"
  by (simp_all add: fed_def)

lemma feed_plain:
  assumes "ustate s = EPAT_UNLOCK_IDLE" "upos s = 0" "v \<noteq> 0x22"
  shows "epat_unlock_feed v (s\<lparr>e_data := v\<rparr>) = Inr (fed v s)"
  using assms by (auto simp: epat_unlock_feed_def buf_get_def epat_unlock_def fed_def Let_def)

lemma write_data_plain:
  assumes "ustate s = EPAT_UNLOCK_IDLE" "upos s = 0" "ucmd s = 0" "is_connected s" "v \<noteq> 0x22"
  shows "epat_write_data ops v s =
     (if block s = EPAT_BLOCK_WRITE then epat_data_write ops v (fed v s)
      else if block s = EPAT_BLOCK_READ then Inr (if v = 0x00 then (fed v s)\<lparr>block := EPAT_BLOCK_NONE\<rparr> else fed v s)
      else if reg_write s then write_register ops v (fed v s)
      else if v = 0x67 then Inr ((fed v s)\<lparr>block_arm := EPAT_BLOCK_WRITE\<rparr>)
      else if v = 0x07 then Inr ((fed v s)\<lparr>block_arm := EPAT_BLOCK_READ\<rparr>)
      else if v AND 0x60 \<noteq> 0 then Inr ((fed v s)\<lparr>reg_addr := v AND NOT 0x60, reg_write := True\<rparr>)
      else Inr ((fed v s)\<lparr>reg_addr := v, nibble_hi := False\<rparr>))"
  using assms by (simp add: epat_write_data_def feed_plain)

text \<open>The frame commit plays no part while no command byte is there.\<close>

lemma commit_none: "ucmd s = 0 \<Longrightarrow> commit_frame v s = s"
  by (simp add: commit_frame_def)

lemma write_ctrl_plain:
  assumes "ucmd s = 0" "is_connected s" "block s = EPAT_BLOCK_NONE"
  shows "epat_write_ctrl 1 s = s\<lparr>ustate := EPAT_UNLOCK_IDLE, upos := 0, nibble_hi := False, e_ctrl := 1\<rparr>"
    "block_arm s \<noteq> EPAT_BLOCK_READ \<Longrightarrow> epat_write_ctrl 3 s = s\<lparr>nibble_hi := False, e_ctrl := 3\<rparr>"
    "epat_write_ctrl 4 s = s\<lparr>nibble_hi := True, e_ctrl := 4\<rparr>"
  using assms by (simp_all add: epat_write_ctrl_def commit_none Let_def)

lemma bit_60: "bit (0x60 :: u8) n \<longleftrightarrow> n = 5 \<or> n = 6"
proof -
  have eq: "(0x60 :: u8) = push_bit 5 (mask 2)" by (simp add: mask_eq_exp_minus_1)
  show ?thesis unfolding eq by (simp only: bit_push_bit_iff bit_mask_iff) auto
qed

lemma low_register:
  assumes "r < (0x20 :: u8)"
  shows "0x60 + r \<noteq> 0x22" "r \<noteq> 0x22" "(0x60 + r) AND 0x60 \<noteq> 0" "(0x60 + r) AND NOT 0x60 = r" "r AND 0x60 = 0"
    "0x60 + r = 0x67 \<longleftrightarrow> r = 7" "0x60 + r \<noteq> 0x07" "r \<noteq> 0x67"
proof -
  have b: "bit r n \<Longrightarrow> n < 5" for n
  proof -
    assume n: "bit r n"
    have "unat r < 2 ^ 5" using assms by (simp add: word_less_nat_alt)
    then have "take_bit 5 (unat r) = unat r" by (simp add: take_bit_nat_eq_self)
    then have "bit (take_bit 5 (unat r)) n" using n by (simp add: bit_unsigned_iff bit_imp_le_length)
    then show "n < 5" by (simp add: bit_take_bit_iff)
  qed
  have o: "0x60 + r = 0x60 OR r" by (rule disjunctive_add_eq_or, rule bit_word_eqI, simp only: bit_and_iff bit_60) (auto dest: b)
  have six: "bit (0x60 + r) 6" unfolding o by (simp only: bit_or_iff bit_60) simp
  moreover have "\<not> bit (0x22 :: u8) 6" "\<not> bit (0x07 :: u8) 6" by simp_all
  ultimately show "0x60 + r \<noteq> 0x22" "0x60 + r \<noteq> 0x07" by metis+
  show "r \<noteq> 0x22" "r \<noteq> 0x67" using assms by auto
  have "bit ((0x60 + r) AND 0x60) 6" using six by (simp only: bit_and_iff bit_60) simp
  then show "(0x60 + r) AND 0x60 \<noteq> 0" by (metis bit_0_eq bot_apply bot_bool_def)
  show n: "(0x60 + r) AND NOT 0x60 = r"
    unfolding o by (rule bit_word_eqI, simp only: bit_and_iff bit_or_iff bit_not_iff bit_60) (auto dest: b)
  show "r AND 0x60 = 0" by (rule bit_word_eqI, simp only: bit_and_iff bit_60) (auto dest: b)
  show "0x60 + r = 0x67 \<longleftrightarrow> r = 7"
  proof
    assume "0x60 + r = 0x67"
    then have "r = 0x67 AND NOT 0x60" using n by simp
    then show "r = 7" by simp
  qed simp
qed

section \<open>Registers\<close>

lemma at_rest_D:
  assumes "at_rest s"
  shows "is_connected s" "ustate s = EPAT_UNLOCK_IDLE" "upos s = 0" "ucmd s = 0" "block s = EPAT_BLOCK_NONE"
    "block_arm s = EPAT_BLOCK_NONE" "\<not> reg_write s"
  using assms by (simp_all add: at_rest_def)

text \<open>The value byte of a register write arrives in this state.\<close>

definition addressed :: "u8 \<Rightarrow> u8 \<Rightarrow> 'm epat \<Rightarrow> 'm epat" where
  "addressed r v s = fed v (epat_write_ctrl 1 ((fed (0x60 + r) s)\<lparr>reg_addr := r, reg_write := True\<rparr>))"

lemma addressed_sel:
  assumes "at_rest s"
  shows "reg_addr (addressed r v s) = r" "reg_write (addressed r v s)" "sd (addressed r v s) = sd s"
    "regs (addressed r v s) = regs s" "is_connected (addressed r v s)" "ustate (addressed r v s) = EPAT_UNLOCK_IDLE"
    "upos (addressed r v s) = 0" "ucmd (addressed r v s) = 0" "block (addressed r v s) = EPAT_BLOCK_NONE"
    "block_arm (addressed r v s) = EPAT_BLOCK_NONE" "no_drive (addressed r v s) = no_drive s"
  using at_rest_D [OF assms] by (simp_all add: addressed_def write_ctrl_plain)

lemma host_write_reg_wire:
  assumes "at_rest s" "r < 0x20" "r \<noteq> 7" "v \<noteq> 0x22"
  shows "host_write_reg ops r v s =
     andThen (write_register ops v (addressed r v s)) (\<lambda>t. Inr (epat_write_ctrl 4 t))"
proof -
  note d = at_rest_D [OF assms(1)] and l = low_register [OF assms(2)]
  have w: "epat_write_data ops (0x60 + r) s = Inr ((fed (0x60 + r) s)\<lparr>reg_addr := r, reg_write := True\<rparr>)"
    using d l assms(3) by (simp add: write_data_plain)
  let ?s1 = "epat_write_ctrl 1 ((fed (0x60 + r) s)\<lparr>reg_addr := r, reg_write := True\<rparr>)"
  have "epat_write_data ops v ?s1 = write_register ops v (addressed r v s)"
    using d assms(4) by (simp add: write_data_plain write_ctrl_plain addressed_def)
  then show ?thesis by (simp add: host_write_reg_def w)
qed

lemma host_read_reg_wire:
  assumes "at_rest s" "r < 0x20" "r \<noteq> 7"
  obtains t where "sd t = sd s" "regs t = regs s" "no_drive t = no_drive s" "at_rest t" "reg_addr t = r"
    "\<forall>v u. epat_reg_read ops r t = Inr (v, u) \<and> ustate u = EPAT_UNLOCK_IDLE \<and> is_connected u \<and>
       block u = EPAT_BLOCK_NONE \<and> ucmd u = 0 \<and> reg_addr u = r \<longrightarrow>
       host_read_reg ops r s = Inr (v, u\<lparr>reg_latch := v, nibble_hi := True, e_ctrl := 4\<rparr>)"
proof -
  note d = at_rest_D [OF assms(1)] and l = low_register [OF assms(2)]
  have nr: "\<not> 0x20 \<le> r" using assms(2) by (simp add: not_le)
  define t where "t = epat_write_ctrl 3 (epat_write_ctrl 1 ((fed r s)\<lparr>reg_addr := r, nibble_hi := False\<rparr>))"
  have w: "epat_write_data ops r s = Inr ((fed r s)\<lparr>reg_addr := r, nibble_hi := False\<rparr>)"
    using d l assms(2,3) by (simp add: write_data_plain)
  have t: "sd t = sd s" "regs t = regs s" "no_drive t = no_drive s" "at_rest t" "reg_addr t = r" "\<not> nibble_hi t"
    using d by (simp_all add: t_def write_ctrl_plain at_rest_def)
  note td = at_rest_D [OF t(4)]
  have r1: "epat_read_status ops t = andThen (epat_reg_read ops r t) (\<lambda>(v, u).
      Inr (push_bit 4 (v AND 0x0f) OR (0x38 AND 0x0f), u\<lparr>reg_latch := v\<rparr>))"
    using td t(5,6) nr by (simp add: epat_read_status_def)
  have "host_read_reg ops r s = andThen (epat_reg_read ops r t) (\<lambda>(v, u).
       andThen (epat_read_status ops (epat_write_ctrl 4 (u\<lparr>reg_latch := v\<rparr>))) (\<lambda>(b, s3).
         Inr (j44 (push_bit 4 (v AND 0x0f) OR (0x38 AND 0x0f)) b, s3)))"
    unfolding host_read_reg_def w andThen_simps t_def [symmetric] r1
    by (cases "epat_reg_read ops r t") (auto split: prod.split)
  moreover have "andThen (epat_read_status ops (epat_write_ctrl 4 (u\<lparr>reg_latch := v\<rparr>))) (\<lambda>(b, s3).
         Inr (j44 (push_bit 4 (v AND 0x0f) OR (0x38 AND 0x0f)) b, s3)) =
       Inr (v, u\<lparr>reg_latch := v, nibble_hi := True, e_ctrl := 4\<rparr>)"
    if "ustate u = EPAT_UNLOCK_IDLE" "is_connected u" "block u = EPAT_BLOCK_NONE" "ucmd u = 0" "reg_addr u = r" for v u
    using that nr by (simp add: write_ctrl_plain epat_read_status_def j44_wire [simplified])
  ultimately show ?thesis by (intro that [OF t(1-5)]) simp
qed

text \<open>The registers that keep a value: all but the block register, device control and, with a drive,
  its data, error and status registers.\<close>

definition plain_reg :: "u8 \<Rightarrow> bool" where
  "plain_reg r \<longleftrightarrow> r < 0x20 \<and> r \<noteq> 0x07 \<and> r \<noteq> 0x16 \<and> r \<noteq> 0x18 \<and> r \<noteq> 0x19 \<and> r \<noteq> 0x1f"

lemma attach_sel [simp]:
  "is_connected (epat_attach_drive ops s) = is_connected s" "ustate (epat_attach_drive ops s) = ustate s"
  "upos (epat_attach_drive ops s) = upos s" "ucmd (epat_attach_drive ops s) = ucmd s"
  "block (epat_attach_drive ops s) = block s" "block_arm (epat_attach_drive ops s) = block_arm s"
  "reg_write (epat_attach_drive ops s) = reg_write s" "regs (epat_attach_drive ops s) = regs s"
  by (auto simp: epat_attach_drive_def split: option.splits)

lemma attach_settles: "sd (epat_attach_drive ops s) \<noteq> None \<or> no_drive (epat_attach_drive ops s)"
  by (auto simp: epat_attach_drive_def split: option.splits)

lemma attach_settled: "sd s \<noteq> None \<or> no_drive s \<Longrightarrow> epat_attach_drive ops s = s"
  by (auto simp: epat_attach_drive_def)

lemma upd_drive_sel [simp]:
  "is_connected (upd_drive f s) = is_connected s" "ustate (upd_drive f s) = ustate s" "upos (upd_drive f s) = upos s"
  "ucmd (upd_drive f s) = ucmd s" "block (upd_drive f s) = block s" "block_arm (upd_drive f s) = block_arm s"
  "reg_write (upd_drive f s) = reg_write s" "regs (upd_drive f s) = regs s" "no_drive (upd_drive f s) = no_drive s"
  "sd (upd_drive f s) = map_option f (sd s)"
  by (simp_all add: upd_drive_def)

lemma reg_write_plain:
  assumes "plain_reg r"
  obtains t where "epat_reg_write ops r v s = Inr t"
    "\<forall>u. sd u = sd t \<and> regs u = regs t \<and> no_drive u = no_drive t \<longrightarrow> epat_reg_read ops r u = Inr (v, u)"
    "is_connected t = is_connected s" "ustate t = ustate s" "upos t = upos s" "ucmd t = ucmd s" "block t = block s"
    "block_arm t = block_arm s" "reg_write t = reg_write s"
proof -
  let ?s = "epat_attach_drive ops (s\<lparr>regs := (regs s)(unat r := v)\<rparr>)"
  note st = attach_settles [of ops "s\<lparr>regs := (regs s)(unat r := v)\<rparr>"]
  have r: "r \<noteq> 0x07" "r \<noteq> 0x18" "r \<noteq> 0x19" "r \<noteq> 0x1f" using assms by (auto simp: plain_reg_def)
  show ?thesis
  proof (cases "sd ?s = None \<or> r < 0x18 \<or> 0x1f < r")
    case True
    then have w: "epat_reg_write ops r v s = Inr ?s" by (simp add: epat_reg_write_def)
    show ?thesis
      by (rule that [OF w]) (use st True r in \<open>auto simp: epat_reg_read_def attach_settled Let_def split: option.split\<close>)
  next
    case False
    let ?f = "\<lambda>d. if r = 0x19 then d\<lparr>features := v\<rparr> else if r = 0x1a then d\<lparr>ireason := v\<rparr>
             else if r = 0x1c then d\<lparr>request_length := set_lo8 (request_length d) v\<rparr>
             else if r = 0x1d then d\<lparr>request_length := set_hi8 (request_length d) v\<rparr>
             else if r = 0x1e then d\<lparr>drvsel := v\<rparr> else if r = 0x1f then epat_command v d else d"
    have w: "epat_reg_write ops r v s = Inr (upd_drive ?f ?s)" using False r by (auto simp: epat_reg_write_def Let_def)
    show ?thesis
      by (rule that [OF w]) (use st False r in \<open>auto simp: epat_reg_read_def attach_settled Let_def\<close>)
  qed
qed

text \<open>C34: A register holds what a host writes: with the bridge connected and at rest, a value written
  to a register over the wire (tagged number, value, two control strobes) is read back by the two
  nibble reads, and the bridge is at rest again, with or without a drive, for every register that
  keeps values and every value but 0x22.\<close>

theorem register_round_trip:
  assumes "at_rest s" "plain_reg r" "v \<noteq> 0x22"
  shows "\<exists>t u. host_write_reg ops r v s = Inr t \<and> at_rest t \<and> host_read_reg ops r t = Inr (v, u) \<and> at_rest u"
proof -
  have r: "r < 0x20" "r \<noteq> 7" "r \<noteq> 0x16" using assms(2) by (auto simp: plain_reg_def)
  note a = addressed_sel [OF assms(1), of r v]
  obtain t where t: "epat_reg_write ops r v ((addressed r v s)\<lparr>reg_write := False\<rparr>) = Inr t"
      "\<forall>u. sd u = sd t \<and> regs u = regs t \<and> no_drive u = no_drive t \<longrightarrow> epat_reg_read ops r u = Inr (v, u)"
      "is_connected t = is_connected ((addressed r v s)\<lparr>reg_write := False\<rparr>)"
      "ustate t = ustate ((addressed r v s)\<lparr>reg_write := False\<rparr>)" "upos t = upos ((addressed r v s)\<lparr>reg_write := False\<rparr>)"
      "ucmd t = ucmd ((addressed r v s)\<lparr>reg_write := False\<rparr>)" "block t = block ((addressed r v s)\<lparr>reg_write := False\<rparr>)"
      "block_arm t = block_arm ((addressed r v s)\<lparr>reg_write := False\<rparr>)" "reg_write t = reg_write ((addressed r v s)\<lparr>reg_write := False\<rparr>)"
    by (rule reg_write_plain [OF assms(2), where ops = ops and v = v and s = "(addressed r v s)\<lparr>reg_write := False\<rparr>"])
  let ?t = "epat_write_ctrl 4 t"
  have w: "host_write_reg ops r v s = Inr ?t"
    using a r t(1) by (simp add: host_write_reg_wire [OF assms(1) r(1,2) assms(3)] write_register_def)
  have rest: "at_rest ?t" using a t(3-9) by (simp add: write_ctrl_plain at_rest_def)
  have f: "sd ?t = sd t" "regs ?t = regs t" "no_drive ?t = no_drive t" using a t(3-9) by (simp_all add: write_ctrl_plain)
  obtain x where x: "sd x = sd ?t" "regs x = regs ?t" "no_drive x = no_drive ?t" "at_rest x" "reg_addr x = r"
    "\<forall>v u. epat_reg_read ops r x = Inr (v, u) \<and> ustate u = EPAT_UNLOCK_IDLE \<and> is_connected u \<and>
       block u = EPAT_BLOCK_NONE \<and> ucmd u = 0 \<and> reg_addr u = r \<longrightarrow>
       host_read_reg ops r ?t = Inr (v, u\<lparr>reg_latch := v, nibble_hi := True, e_ctrl := 4\<rparr>)"
    by (rule host_read_reg_wire [OF rest r(1,2)])
  have "epat_reg_read ops r x = Inr (v, x)" using t(2) by (simp add: x f)
  then have "host_read_reg ops r ?t = Inr (v, x\<lparr>reg_latch := v, nibble_hi := True, e_ctrl := 4\<rparr>)"
    using x(4-6) by (simp add: at_rest_def)
  moreover have "at_rest (x\<lparr>reg_latch := v, nibble_hi := True, e_ctrl := 4\<rparr>)" using x(4) by (simp add: at_rest_def)
  ultimately show ?thesis using w rest by blast
qed

section \<open>The byte 0x22\<close>

lemma feed_22:
  assumes "ustate s = EPAT_UNLOCK_IDLE" "upos s = 0" "\<not> (udup s \<and> ulast s = 0x22)"
  shows "epat_unlock_feed 0x22 s = Inr (s\<lparr>ulast := 0x22, udup := True, upos := 1, ustate := EPAT_UNLOCK_RUN\<rparr>)"
  using assms by (auto simp: epat_unlock_feed_def buf_get_def epat_unlock_def Let_def)

text \<open>The byte after it ends the frame it began, without effect on the transfer.\<close>

lemma feed_after_22:
  assumes "upos s = 1" "ustate s = EPAT_UNLOCK_RUN" "udup s" "ulast s = 0x22" "v \<noteq> 0x22" "v \<noteq> 0xaa"
  shows "epat_unlock_feed v s = Inr (s\<lparr>ulast := v, udup := True, upos := 0, ustate := EPAT_UNLOCK_IDLE\<rparr>)"
  using assms by (auto simp: epat_unlock_feed_def buf_get_def epat_unlock_def Let_def)

text \<open>C35: The byte 0x22 is lost wherever a host sends it as data: every data byte also feeds the unlock
  recogniser, whose frame begins with 0x22, and while a frame is being matched the byte goes nowhere
  else. In a block write it is left out of the data sent to the drive, so the drive's state is what
  it was; as the value of a register write it leaves the register as it was, and the next byte, the
  number of the next register to access, is written as the value instead.\<close>

theorem data_byte_22_lost:
  assumes "at_rest s" "r < 0x20" "r \<noteq> 7" "x \<noteq> 0x22" "x \<noteq> 0xaa"
  shows "(\<not> (udup s \<and> ulast s = 0x22) \<longrightarrow>
       (\<exists>t. epat_write_data ops 0x22 (s\<lparr>block := EPAT_BLOCK_WRITE\<rparr>) = Inr t \<and> sd t = sd s)) \<and>
     (\<exists>t u. host_write_reg ops r 0x22 s = Inr t \<and> sd t = sd s \<and> regs t = regs s \<and>
        sd u = sd s \<and> regs u = regs s \<and> no_drive u = no_drive s \<and> reg_addr u = r \<and>
        epat_write_data ops x t = write_register ops x u)"
proof (intro conjI impI)
  note d = at_rest_D [OF assms(1)] and l = low_register [OF assms(2)]
  show "\<exists>t. epat_write_data ops 0x22 (s\<lparr>block := EPAT_BLOCK_WRITE\<rparr>) = Inr t \<and> sd t = sd s"
    if "\<not> (udup s \<and> ulast s = 0x22)"
    using d that by (simp add: epat_write_data_def feed_22)
  let ?a = "epat_write_ctrl 1 ((fed (0x60 + r) s)\<lparr>reg_addr := r, reg_write := True\<rparr>)"
  have a: "epat_write_data ops (0x60 + r) s = Inr ((fed (0x60 + r) s)\<lparr>reg_addr := r, reg_write := True\<rparr>)"
    using d l assms(3) by (simp add: write_data_plain)
  let ?b = "?a\<lparr>e_data := 0x22, ulast := 0x22, udup := True, upos := 1, ustate := EPAT_UNLOCK_RUN\<rparr>"
  have "ulast ?a = 0x60 + r" using d by (simp add: write_ctrl_plain fed_def)
  then have "epat_unlock_feed 0x22 (?a\<lparr>e_data := 0x22\<rparr>) = Inr ?b"
    using d l by (subst feed_22) (simp_all add: write_ctrl_plain)
  then have b: "epat_write_data ops 0x22 ?a = Inr ?b" by (simp add: epat_write_data_def)
  let ?t = "epat_write_ctrl 4 ?b"
  have t: "host_write_reg ops r 0x22 s = Inr ?t" by (simp only: host_write_reg_def a b andThen_simps)
  have ts: "?t = ?b\<lparr>nibble_hi := True, e_ctrl := 4\<rparr>" using d by (simp add: write_ctrl_plain)
  let ?u = "?t\<lparr>e_data := x, ulast := x, udup := True, upos := 0, ustate := EPAT_UNLOCK_IDLE\<rparr>"
  have "epat_unlock_feed x (?t\<lparr>e_data := x\<rparr>) = Inr ?u"
    using assms(4,5) unfolding ts by (subst feed_after_22) simp_all
  then have "epat_write_data ops x ?t = write_register ops x ?u"
    using d by (simp add: epat_write_data_def ts write_ctrl_plain)
  moreover have "sd ?t = sd s" "regs ?t = regs s" "sd ?u = sd s" "regs ?u = regs s" "no_drive ?u = no_drive s" "reg_addr ?u = r"
    using d by (simp_all add: ts write_ctrl_plain)
  ultimately show "\<exists>t u. host_write_reg ops r 0x22 s = Inr t \<and> sd t = sd s \<and> regs t = regs s \<and>
        sd u = sd s \<and> regs u = regs s \<and> no_drive u = no_drive s \<and> reg_addr u = r \<and>
        epat_write_data ops x t = write_register ops x u"
    using t by blast
qed

section \<open>Transfers without a drive\<close>

text \<open>A block transfer needs a drive the bridge has already looked up: nothing on its path calls
  \<open>epat_attach_drive\<close>, and \<open>dev->sd->sc\<close> is followed at once. With the bridge connected, at rest and no
  drive attached (none assigned to the port, or one that no register access has looked up yet) the
  first status read of a block read and the first byte of a block write follow a NULL pointer.\<close>

theorem block_transfer_without_drive_faults:
  assumes "at_rest s" "sd s = None" "v \<noteq> 0x22"
  shows "andThen (epat_write_data ops 0x07 s) (\<lambda>s1. epat_read_status ops (epat_write_ctrl 3 (epat_write_ctrl 1 s1))) =
       Inl Null_pointer \<and>
     andThen (epat_write_data ops 0x67 s) (\<lambda>s1. epat_write_data ops v (epat_write_ctrl 5 (epat_write_ctrl 1 s1))) =
       Inl Null_pointer"
  using at_rest_D [OF assms(1)] assms(2,3)
  by (simp add: write_data_plain epat_write_ctrl_def [of 3] epat_write_ctrl_def [of 5] write_ctrl_plain commit_none
      epat_read_status_def epat_data_read_def epat_data_write_def Let_def)

section \<open>A packet command\<close>

subsection \<open>Data from the drive\<close>

definition data_in :: "'m drive \<Rightarrow> bool" where
  "data_in d \<longleftrightarrow> packet_status d = PHASE_DATA_IN \<and> tf_pos d < packet_len d \<and>
     (case temp_buffer d of None \<Rightarrow> False | Some buf \<Rightarrow> unat (packet_len d) \<le> length buf)"

definition left_in :: "'m drive \<Rightarrow> u8 list" where
  "left_in d = drop (unat (tf_pos d)) (take (unat (packet_len d)) (the (temp_buffer d)))"

definition finished :: "'m drive \<Rightarrow> bool" where
  "finished d \<longleftrightarrow> packet_status d = PHASE_NONE \<and> atastat d = READY_STAT \<and> ireason d = 3"

text \<open>The drive ends a transfer by completing its command.\<close>

definition completes :: "'m drive_ops \<Rightarrow> bool" where
  "completes ops \<longleftrightarrow> (\<forall>d. packet_status (sd_command_stop ops d) = PHASE_COMPLETE)"

definition byte_read :: "'m drive_ops \<Rightarrow> 'm drive \<Rightarrow> 'm drive" where
  "byte_read ops d =
     (let d1 = d\<lparr>tf_pos := tf_pos d + 1, request_pos := request_pos d + 1\<rparr>
      in if block_over d1 then epat_pio_request ops False d1 else d1)"

lemma next_pos: "tf_pos d < packet_len d \<Longrightarrow> unat (tf_pos d + 1) = Suc (unat (tf_pos d))"
proof -
  assume "tf_pos d < packet_len d"
  then have "Suc (unat (tf_pos d)) < 2 ^ 32"
    using unsigned_less [of "packet_len d", where 'a = nat] by (simp add: word_less_nat_alt)
  then show ?thesis by (simp add: unat_word_ariths)
qed

lemma left_in_Cons:
  assumes "data_in d"
  shows "left_in d = the (temp_buffer d) ! unat (tf_pos d) #
     drop (Suc (unat (tf_pos d))) (take (unat (packet_len d)) (the (temp_buffer d)))"
    "unat (tf_pos d) < length (the (temp_buffer d))"
proof -
  have lt: "unat (tf_pos d) < unat (packet_len d)" using assms by (simp add: data_in_def word_less_nat_alt)
  moreover have "unat (packet_len d) \<le> length (the (temp_buffer d))"
    using assms by (auto simp: data_in_def split: option.splits)
  ultimately show "unat (tf_pos d) < length (the (temp_buffer d))" "left_in d = the (temp_buffer d) ! unat (tf_pos d) #
     drop (Suc (unat (tf_pos d))) (take (unat (packet_len d)) (the (temp_buffer d)))"
    by (simp_all add: left_in_def Cons_nth_drop_Suc [symmetric])
qed

lemma byte_read_more:
  assumes "data_in d" "left_in d = b # c # bs"
  shows "data_in (byte_read ops d)" "left_in (byte_read ops d) = c # bs"
proof -
  have lt: "tf_pos d < packet_len d" using assms(1) by (simp add: data_in_def)
  have "drop (Suc (unat (tf_pos d))) (take (unat (packet_len d)) (the (temp_buffer d))) = c # bs"
    using left_in_Cons(1) [OF assms(1)] assms(2) by simp
  then have r: "drop (unat (tf_pos d + 1)) (take (unat (packet_len d)) (the (temp_buffer d))) = c # bs"
    by (simp add: next_pos [OF lt])
  then have "\<not> unat (packet_len d) \<le> unat (tf_pos d + 1)" by (metis drop_all length_take list.simps(3) min.coboundedI2 min.cobounded2 order.trans)
  then have more: "\<not> packet_len d \<le> tf_pos d + 1" by (simp add: word_le_nat_alt)
  have keep: "packet_status (byte_read ops d) = 2 \<and> tf_pos (byte_read ops d) = tf_pos d + 1 \<and>
      packet_len (byte_read ops d) = packet_len d \<and> temp_buffer (byte_read ops d) = temp_buffer d"
    using assms(1) more
    by (simp add: byte_read_def epat_pio_request_def epat_atapi_callback_def callback_phase_def data_in_def Let_def)
  show "data_in (byte_read ops d)" "left_in (byte_read ops d) = c # bs"
    using keep assms(1) r more by (auto simp: data_in_def left_in_def not_le split: option.splits)
qed

lemma byte_read_last:
  assumes "data_in d" "left_in d = [b]" "completes ops"
  shows "finished (byte_read ops d)"
proof -
  have lt: "tf_pos d < packet_len d" using assms(1) by (simp add: data_in_def)
  have "drop (Suc (unat (tf_pos d))) (take (unat (packet_len d)) (the (temp_buffer d))) = []"
    using left_in_Cons(1) [OF assms(1)] assms(2) by simp
  moreover have "unat (packet_len d) \<le> length (the (temp_buffer d))"
    using assms(1) by (auto simp: data_in_def split: option.splits)
  ultimately have "packet_len d \<le> tf_pos d + 1" by (simp add: word_le_nat_alt next_pos [OF lt])
  then show ?thesis
    using assms(3)
    by (simp add: byte_read_def block_over_def epat_pio_request_def epat_atapi_callback_def callback_phase_def
        finished_def completes_def Let_def)
qed

lemma data_read_step:
  assumes "sd s = Some d" "data_in d"
  shows "epat_data_read ops s = Inr (hd (left_in d), s\<lparr>sd := Some (byte_read ops d)\<rparr>)"
  using assms left_in_Cons [OF assms(2)]
  by (auto simp: epat_data_read_def data_in_def buf_get_def byte_read_def Let_def split: option.splits)

text \<open>One byte of the stream: two status reads under alternating handshake values.\<close>

definition wire_pull :: "'m drive_ops \<Rightarrow> bool \<times> 'm epat \<Rightarrow> fault + (u8 \<times> (bool \<times> 'm epat))" where
  "wire_pull ops r =
     (case r of (ph, s) \<Rightarrow>
        andThen (epat_read_status ops (epat_write_ctrl (if ph then 7 else 6) s)) (\<lambda>(a, s1).
        andThen (epat_read_status ops (epat_write_ctrl (if ph then 5 else 4) s1)) (\<lambda>(b, s2).
        Inr (j44 a b, (\<not> ph, s2)))))"

definition streaming :: "block_mode \<Rightarrow> 'm epat \<Rightarrow> bool" where
  "streaming m s \<longleftrightarrow> is_connected s \<and> ustate s = EPAT_UNLOCK_IDLE \<and> upos s = 0 \<and> ucmd s = 0 \<and>
     block s = m \<and> block_arm s = EPAT_BLOCK_NONE \<and> (m = EPAT_BLOCK_READ \<longrightarrow> \<not> block_half s) \<and> \<not> reg_write s"

lemma stream_ctrl:
  assumes "streaming m s" "m = EPAT_BLOCK_READ \<or> m = EPAT_BLOCK_WRITE \<and> v \<noteq> 7"
  shows "epat_write_ctrl v s = s\<lparr>e_ctrl := v\<rparr>"
proof -
  have f: "ucmd s = 0" "block s = m" "block_arm s = EPAT_BLOCK_NONE" using assms(1) by (simp_all add: streaming_def)
  have "m \<noteq> EPAT_BLOCK_NONE" "\<not> (m = EPAT_BLOCK_WRITE \<and> v = 7)" using assms(2) by auto
  then show ?thesis unfolding epat_write_ctrl_def commit_none [OF f(1)] Let_def f(2,3) by auto
qed

lemma wire_pull_step:
  assumes "streaming EPAT_BLOCK_READ s" "sd s = Some d" "data_in d"
  obtains t where "wire_pull ops (ph, s) = Inr (hd (left_in d), (\<not> ph, t))" "streaming EPAT_BLOCK_READ t"
    "sd t = Some (byte_read ops d)"
proof -
  let ?v = "hd (left_in d)"
  let ?s1 = "s\<lparr>e_ctrl := (if ph then 7 else 6), sd := Some (byte_read ops d), block_latch := ?v, block_half := True\<rparr>"
  have a: "epat_read_status ops (epat_write_ctrl (if ph then 7 else 6) s) = Inr (push_bit 4 (?v AND 0x0f), ?s1)"
  proof -
    let ?s0 = "s\<lparr>e_ctrl := (if ph then 7 else 6)\<rparr>"
    have w: "epat_write_ctrl (if ph then 7 else 6) s = ?s0" by (rule stream_ctrl [OF assms(1)]) simp
    have d: "epat_data_read ops ?s0 = Inr (?v, ?s0\<lparr>sd := Some (byte_read ops d)\<rparr>)"
      by (rule data_read_step) (simp_all add: assms(2,3))
    have "ustate ?s0 = EPAT_UNLOCK_IDLE" "is_connected ?s0" "block ?s0 = EPAT_BLOCK_READ" "\<not> block_half ?s0"
      using assms(1) by (simp_all add: streaming_def)
    then show ?thesis unfolding w epat_read_status_def by (simp add: d)
  qed
  have c: "epat_write_ctrl (if ph then 5 else 4) ?s1 = ?s1\<lparr>e_ctrl := (if ph then 5 else 4)\<rparr>"
    using assms(1) by (simp add: epat_write_ctrl_def streaming_def commit_none Let_def)
  have b: "epat_read_status ops (?s1\<lparr>e_ctrl := (if ph then 5 else 4)\<rparr>) =
      Inr (?v AND 0xf0, ?s1\<lparr>e_ctrl := (if ph then 5 else 4), block_half := False\<rparr>)"
    using assms(1) by (simp add: epat_read_status_def streaming_def)
  show ?thesis
  proof (rule that)
    show "wire_pull ops (ph, s) = Inr (?v, (\<not> ph, ?s1\<lparr>e_ctrl := (if ph then 5 else 4), block_half := False\<rparr>))"
      unfolding wire_pull_def prod.case a andThen_simps c b j44_wire(2) ..
  qed (use assms(1) in \<open>simp_all add: streaming_def\<close>)
qed

definition in_stream :: "'m drive_ops \<Rightarrow> bool \<times> 'm epat \<Rightarrow> bool" where
  "in_stream ops r \<longleftrightarrow> completes ops \<and> streaming EPAT_BLOCK_READ (snd r) \<and>
     (case sd (snd r) of None \<Rightarrow> False | Some d \<Rightarrow> data_in d)"

definition stream_over :: "bool \<times> 'm epat \<Rightarrow> bool" where
  "stream_over r \<longleftrightarrow> streaming EPAT_BLOCK_READ (snd r) \<and> (case sd (snd r) of None \<Rightarrow> False | Some d \<Rightarrow> finished d)"

definition stream_left :: "bool \<times> 'm epat \<Rightarrow> u8 list" where
  "stream_left r = left_in (the (sd (snd r)))"

interpretation epat_in: byte_source "in_stream ops" stream_over stream_left "wire_pull ops" for ops
proof
  fix r :: "bool \<times> 'a epat" and b c bs
  assume a: "in_stream ops r" "stream_left r = b # c # bs"
  then obtain ph s d where r: "r = (ph, s)" "sd s = Some d" "data_in d" "streaming EPAT_BLOCK_READ s" "completes ops"
    by (cases r) (auto simp: in_stream_def split: option.splits)
  obtain t where t: "wire_pull ops (ph, s) = Inr (hd (left_in d), (\<not> ph, t))" "streaming EPAT_BLOCK_READ t"
      "sd t = Some (byte_read ops d)" by (rule wire_pull_step [OF r(4,2,3)])
  have l: "left_in d = b # c # bs" using a(2) r by (simp add: stream_left_def)
  show "\<exists>t. wire_pull ops r = Inr (b, t) \<and> in_stream ops t \<and> stream_left t = c # bs"
    using t r byte_read_more [OF r(3) l, of ops] l by (auto simp: in_stream_def stream_left_def)
next
  fix r :: "bool \<times> 'a epat" and b
  assume a: "in_stream ops r" "stream_left r = [b]"
  then obtain ph s d where r: "r = (ph, s)" "sd s = Some d" "data_in d" "streaming EPAT_BLOCK_READ s" "completes ops"
    by (cases r) (auto simp: in_stream_def split: option.splits)
  obtain t where t: "wire_pull ops (ph, s) = Inr (hd (left_in d), (\<not> ph, t))" "streaming EPAT_BLOCK_READ t"
      "sd t = Some (byte_read ops d)" by (rule wire_pull_step [OF r(4,2,3)])
  have l: "left_in d = [b]" using a(2) r by (simp add: stream_left_def)
  show "\<exists>t. wire_pull ops r = Inr (b, t) \<and> stream_over t"
    using t r byte_read_last [OF r(3) l r(5)] l by (auto simp: stream_over_def)
qed

subsection \<open>The command to the drive\<close>

definition cdb_open :: "'m drive \<Rightarrow> bool" where
  "cdb_open d \<longleftrightarrow> packet_status d = PHASE_IDLE \<and> tf_pos d < 12 \<and> length (atapi_cdb d) = 16"

definition cdb_taken :: "'m drive \<Rightarrow> u8 list" where
  "cdb_taken d = take (unat (tf_pos d)) (atapi_cdb d)"

text \<open>The drive has been given the command \<open>cdb\<close>.\<close>

definition issued :: "'m drive_ops \<Rightarrow> u8 list \<Rightarrow> 'm drive \<Rightarrow> bool" where
  "issued ops cdb d \<longleftrightarrow> (\<exists>e. d = epat_atapi_callback ops e \<and> packet_status e = PHASE_COMMAND \<and> take 12 (atapi_cdb e) = cdb)"

definition byte_written :: "'m drive_ops \<Rightarrow> u8 \<Rightarrow> 'm drive \<Rightarrow> 'm drive" where
  "byte_written ops v d =
     (let d1 = d\<lparr>atapi_cdb := (atapi_cdb d)[unat (tf_pos d) := v], tf_pos := tf_pos d + 1, request_pos := request_pos d + 1\<rparr>
      in if 12 \<le> tf_pos d1
         then epat_atapi_callback ops (d1\<lparr>tf_pos := 0, atastat := BUSY_STAT, packet_status := PHASE_COMMAND\<rparr>) else d1)"

lemma data_write_step:
  assumes "sd s = Some d" "cdb_open d"
  shows "epat_data_write ops v s = Inr (s\<lparr>sd := Some (byte_written ops v d)\<rparr>)"
proof -
  have "unat (tf_pos d) < 16" using assms(2) by (simp add: cdb_open_def word_less_nat_alt)
  then show ?thesis using assms
    by (simp add: epat_data_write_def cdb_open_def buf_put_def byte_written_def Let_def)
qed

lemma take_update: "n < length xs \<Longrightarrow> take (Suc n) (xs[n := v]) = take n xs @ [v]"
  by (simp add: take_Suc_conv_app_nth)

lemma byte_written_step:
  assumes "cdb_open d"
  shows "Suc (length (cdb_taken d)) < 12 \<Longrightarrow> cdb_open (byte_written ops v d) \<and>
      cdb_taken (byte_written ops v d) = cdb_taken d @ [v]"
    "Suc (length (cdb_taken d)) = 12 \<Longrightarrow> issued ops (cdb_taken d @ [v]) (byte_written ops v d)"
proof -
  have o: "packet_status d = 0" "unat (tf_pos d) < 12" "length (atapi_cdb d) = 16"
    using assms by (auto simp: cdb_open_def word_less_nat_alt)
  have n: "unat (tf_pos d + 1) = Suc (unat (tf_pos d))" using o(2) by (simp add: unat_word_ariths)
  have l: "length (cdb_taken d) = unat (tf_pos d)" using o by (simp add: cdb_taken_def)
  have t: "take (Suc (unat (tf_pos d))) ((atapi_cdb d)[unat (tf_pos d) := v]) = cdb_taken d @ [v]"
    unfolding cdb_taken_def by (rule take_update) (use o in simp)
  show "cdb_open (byte_written ops v d) \<and> cdb_taken (byte_written ops v d) = cdb_taken d @ [v]"
    if "Suc (length (cdb_taken d)) < 12"
  proof -
    have "\<not> 12 \<le> tf_pos d + 1" "tf_pos d + 1 < 12" using that n l by (simp_all add: word_le_nat_alt word_less_nat_alt)
    then show ?thesis using o t n by (simp add: byte_written_def cdb_open_def cdb_taken_def Let_def)
  qed
  show "issued ops (cdb_taken d @ [v]) (byte_written ops v d)" if "Suc (length (cdb_taken d)) = 12"
  proof -
    have "12 \<le> tf_pos d + 1" using that n l by (simp add: word_le_nat_alt)
    moreover have "Suc (unat (tf_pos d)) = 12" using that l by simp
    ultimately show ?thesis using t unfolding issued_def byte_written_def Let_def
      by (intro exI conjI) (auto intro: refl)
  qed
qed

text \<open>One byte of the stream: the data, then the handshake.\<close>

definition wire_push :: "'m drive_ops \<Rightarrow> u8 \<Rightarrow> bool \<times> 'm epat \<Rightarrow> fault + (bool \<times> 'm epat)" where
  "wire_push ops v r =
     (case r of (ph, s) \<Rightarrow>
        andThen (epat_write_data ops v s) (\<lambda>t. Inr (\<not> ph, epat_write_ctrl (if ph then 5 else 4) t)))"

lemma wire_push_step:
  assumes "streaming EPAT_BLOCK_WRITE s" "sd s = Some d" "cdb_open d" "v \<noteq> 0x22"
  obtains t where "wire_push ops v (ph, s) = Inr (\<not> ph, t)" "streaming EPAT_BLOCK_WRITE t"
    "sd t = Some (byte_written ops v d)"
proof -
  let ?t = "(fed v s)\<lparr>sd := Some (byte_written ops v d)\<rparr>"
  have f: "ustate s = EPAT_UNLOCK_IDLE" "upos s = 0" "ucmd s = 0" "is_connected s" "block s = EPAT_BLOCK_WRITE"
    using assms(1) by (simp_all add: streaming_def)
  have w: "epat_write_data ops v s = Inr ?t"
    unfolding write_data_plain [OF f(1-4) assms(4)] f(5) using data_write_step [of "fed v s" d ops v] assms(2,3) by simp
  have st: "streaming EPAT_BLOCK_WRITE ?t" using assms(1) by (simp add: streaming_def)
  have c: "epat_write_ctrl (if ph then 5 else 4) ?t = ?t\<lparr>e_ctrl := (if ph then 5 else 4)\<rparr>"
    by (rule stream_ctrl [OF st]) simp
  show ?thesis
  proof (rule that)
    show "wire_push ops v (ph, s) = Inr (\<not> ph, ?t\<lparr>e_ctrl := (if ph then 5 else 4)\<rparr>)"
      unfolding wire_push_def prod.case w andThen_simps c ..
  qed (use st in \<open>simp_all add: streaming_def\<close>)
qed

definition out_stream :: "bool \<times> 'm epat \<Rightarrow> bool" where
  "out_stream r \<longleftrightarrow> streaming EPAT_BLOCK_WRITE (snd r) \<and> (case sd (snd r) of None \<Rightarrow> False | Some d \<Rightarrow> cdb_open d)"

definition out_over :: "'m drive_ops \<Rightarrow> u8 list \<Rightarrow> bool \<times> 'm epat \<Rightarrow> bool" where
  "out_over ops cdb r \<longleftrightarrow> streaming EPAT_BLOCK_WRITE (snd r) \<and>
     (case sd (snd r) of None \<Rightarrow> False | Some d \<Rightarrow> issued ops cdb d)"

interpretation epat_out: byte_sink out_stream "out_over ops" "\<lambda>r. cdb_taken (the (sd (snd r)))" 12
    "\<lambda>v. v \<noteq> 0x22" "wire_push ops" for ops
proof
  fix r :: "bool \<times> 'a epat" and b :: u8
  assume a: "out_stream r" "b \<noteq> 0x22" "Suc (length (cdb_taken (the (sd (snd r))))) < 12"
  then obtain ph s d where r: "r = (ph, s)" "sd s = Some d" "cdb_open d" "streaming EPAT_BLOCK_WRITE s"
    by (cases r) (auto simp: out_stream_def split: option.splits)
  obtain t where t: "wire_push ops b (ph, s) = Inr (\<not> ph, t)" "streaming EPAT_BLOCK_WRITE t"
      "sd t = Some (byte_written ops b d)" by (rule wire_push_step [OF r(4,2,3) a(2)])
  show "\<exists>t. wire_push ops b r = Inr t \<and> out_stream t \<and>
      cdb_taken (the (sd (snd t))) = cdb_taken (the (sd (snd r))) @ [b]"
    using t r a(3) byte_written_step(1) [OF r(3), of ops b] by (auto simp: out_stream_def)
next
  fix r :: "bool \<times> 'a epat" and b :: u8
  assume a: "out_stream r" "b \<noteq> 0x22" "Suc (length (cdb_taken (the (sd (snd r))))) = 12"
  then obtain ph s d where r: "r = (ph, s)" "sd s = Some d" "cdb_open d" "streaming EPAT_BLOCK_WRITE s"
    by (cases r) (auto simp: out_stream_def split: option.splits)
  obtain t where t: "wire_push ops b (ph, s) = Inr (\<not> ph, t)" "streaming EPAT_BLOCK_WRITE t"
      "sd t = Some (byte_written ops b d)" by (rule wire_push_step [OF r(4,2,3) a(2)])
  show "\<exists>t. wire_push ops b r = Inr t \<and> out_over ops (cdb_taken (the (sd (snd r))) @ [b]) t"
    using t r a(3) byte_written_step(2) [OF r(3), of ops b] by (auto simp: out_over_def)
qed

subsection \<open>The whole transaction\<close>

definition host_block_write :: "'m drive_ops \<Rightarrow> u8 list \<Rightarrow> 'm epat \<Rightarrow> fault + 'm epat" where
  "host_block_write ops bytes s =
     andThen (epat_write_data ops 0x67 s) (\<lambda>s1.
     andThen (pushes (wire_push ops) bytes (False, epat_write_ctrl 5 (epat_write_ctrl 1 s1))) (\<lambda>(ph, s2).
     Inr (epat_write_ctrl 4 (epat_write_ctrl 7 s2))))"

definition host_block_read :: "'m drive_ops \<Rightarrow> nat \<Rightarrow> 'm epat \<Rightarrow> fault + (u8 list \<times> 'm epat)" where
  "host_block_read ops n s =
     andThen (epat_write_data ops 0x07 s) (\<lambda>s1.
     andThen (epat_write_data ops 0xff (epat_write_ctrl 3 (epat_write_ctrl 1 s1))) (\<lambda>s2.
     andThen (pulls (wire_pull ops) (n - 1) (True, s2)) (\<lambda>(bs, ph, s3).
     andThen (epat_write_data ops 0xfd s3) (\<lambda>s4.
     andThen (wire_pull ops (ph, s4)) (\<lambda>(b, ph', s5).
     andThen (epat_write_data ops 0x00 s5) (\<lambda>s6.
     Inr (bs @ [b], epat_write_ctrl 4 s6)))))))"

definition host_packet :: "'m drive_ops \<Rightarrow> u8 list \<Rightarrow> nat \<Rightarrow> 'm epat \<Rightarrow> fault + (u8 list \<times> 'm epat)" where
  "host_packet ops cdb n s =
     andThen (host_write_reg ops 0x1f 0xa0 s) (\<lambda>s1.
     andThen (host_block_write ops cdb s1) (host_block_read ops n))"

lemma packet_opens:
  assumes "at_rest s" "sd s = Some d" "length (atapi_cdb d) = 16"
  obtains t e where "host_write_reg ops 0x1f 0xa0 s = Inr t" "at_rest t" "sd t = Some e" "cdb_open e" "cdb_taken e = []"
proof -
  note a = addressed_sel [OF assms(1), of "0x1f" "0xa0"]
  define e where "e = epat_command 0xa0 d"
  let ?u = "(addressed 0x1f 0xa0 s)\<lparr>reg_write := False, regs := (regs s)(31 := 0xa0), sd := Some e\<rparr>"
  have "write_register ops 0xa0 (addressed 0x1f 0xa0 s) = Inr ?u"
    using a assms(2) by (simp add: write_register_def epat_reg_write_def attach_settled upd_drive_def e_def)
  then have w: "host_write_reg ops 0x1f 0xa0 s = Inr (epat_write_ctrl 4 ?u)"
    by (simp add: host_write_reg_wire [OF assms(1)])
  have c: "epat_write_ctrl 4 ?u = ?u\<lparr>nibble_hi := True, e_ctrl := 4\<rparr>" using a by (simp add: write_ctrl_plain)
  have "cdb_open e" "cdb_taken e = []"
    using assms(3) by (simp_all add: e_def epat_command_def cdb_open_def cdb_taken_def)
  moreover have "at_rest (epat_write_ctrl 4 ?u)" "sd (epat_write_ctrl 4 ?u) = Some e"
    unfolding c using a by (simp_all add: at_rest_def)
  ultimately show ?thesis using that w by blast
qed

lemma start_ctrl:
  assumes "is_connected s" "ucmd s = 0"
  shows "block_arm s = EPAT_BLOCK_WRITE \<Longrightarrow>
      epat_write_ctrl 5 s = s\<lparr>block := EPAT_BLOCK_WRITE, block_arm := EPAT_BLOCK_NONE, e_ctrl := 5\<rparr>"
    "block_arm s = EPAT_BLOCK_READ \<Longrightarrow>
      epat_write_ctrl 3 s = s\<lparr>block := EPAT_BLOCK_READ, block_arm := EPAT_BLOCK_NONE, block_half := False, e_ctrl := 3\<rparr>"
    "block s = EPAT_BLOCK_WRITE \<Longrightarrow> block_arm s = EPAT_BLOCK_NONE \<Longrightarrow>
      epat_write_ctrl 7 s = s\<lparr>block := EPAT_BLOCK_NONE, e_ctrl := 7\<rparr>"
  unfolding epat_write_ctrl_def commit_none [OF assms(2)] Let_def using assms(1) by simp_all

lemma block_starts:
  assumes "at_rest s"
  shows "\<exists>t. epat_write_data ops 0x67 s = Inr t \<and> streaming EPAT_BLOCK_WRITE (epat_write_ctrl 5 (epat_write_ctrl 1 t)) \<and>
      sd (epat_write_ctrl 5 (epat_write_ctrl 1 t)) = sd s"
    "\<exists>t. epat_write_data ops 0x07 s = Inr t \<and> streaming EPAT_BLOCK_READ (epat_write_ctrl 3 (epat_write_ctrl 1 t)) \<and>
      sd (epat_write_ctrl 3 (epat_write_ctrl 1 t)) = sd s"
  using at_rest_D [OF assms]
  by (simp_all add: write_data_plain write_ctrl_plain start_ctrl streaming_def)

text \<open>The end of a block: \<open>w2 (7)\<close> for a write, \<open>w0 (0)\<close> for a read, and \<open>w2 (4)\<close>.\<close>

lemma block_ends:
  assumes "streaming EPAT_BLOCK_WRITE s"
  shows "at_rest (epat_write_ctrl 4 (epat_write_ctrl 7 s))" "sd (epat_write_ctrl 4 (epat_write_ctrl 7 s)) = sd s"
  using assms by (simp_all add: streaming_def start_ctrl write_ctrl_plain at_rest_def)

lemma read_ends:
  assumes "streaming EPAT_BLOCK_READ s"
  shows "\<exists>t. epat_write_data ops 0x00 s = Inr t \<and> at_rest (epat_write_ctrl 4 t) \<and> sd (epat_write_ctrl 4 t) = sd s"
    "v \<noteq> 0 \<Longrightarrow> v \<noteq> 0x22 \<Longrightarrow> epat_write_data ops v s = Inr (fed v s)"
  using assms by (simp_all add: streaming_def write_data_plain write_ctrl_plain at_rest_def)

lemma block_write:
  assumes "at_rest s" "sd s = Some d" "cdb_open d" "cdb_taken d = []" "length cdb = 12" "0x22 \<notin> set cdb"
  obtains t e where "host_block_write ops cdb s = Inr t" "at_rest t" "sd t = Some e" "issued ops cdb e"
proof -
  obtain t where t: "epat_write_data ops 0x67 s = Inr t" "streaming EPAT_BLOCK_WRITE (epat_write_ctrl 5 (epat_write_ctrl 1 t))"
      "sd (epat_write_ctrl 5 (epat_write_ctrl 1 t)) = sd s" using block_starts(1) [OF assms(1)] by blast
  let ?u = "(False, epat_write_ctrl 5 (epat_write_ctrl 1 t))"
  have "out_stream ?u" using t(2,3) assms(2,3) by (simp add: out_stream_def)
  moreover have "list_all (\<lambda>v. v \<noteq> 0x22) cdb" using assms(6) by (auto simp: list_all_iff)
  moreover have "cdb \<noteq> []" "length (cdb_taken (the (sd (snd ?u)))) + length cdb = 12" using t(3) assms(2,4,5) by auto
  ultimately obtain r where r: "pushes (wire_push ops) cdb ?u = Inr r" "out_over ops (cdb_taken (the (sd (snd ?u))) @ cdb) r"
    by (rule epat_out.push_all)
  obtain ph v e where v: "r = (ph, v)" "sd v = Some e" "streaming EPAT_BLOCK_WRITE v" "issued ops cdb e"
    using r(2) t(3) assms(2,4) by (cases r) (auto simp: out_over_def split: option.splits)
  have "host_block_write ops cdb s = Inr (epat_write_ctrl 4 (epat_write_ctrl 7 v))"
    by (simp add: host_block_write_def t(1) r(1) v(1))
  then show ?thesis using that block_ends [OF v(3)] v(2,4) by metis
qed

lemma drop_all_but_last: "xs \<noteq> [] \<Longrightarrow> drop (length xs - 1) xs = [last xs]"
  by (cases xs rule: rev_cases) simp_all

lemma take_all_but_last: "xs \<noteq> [] \<Longrightarrow> take (length xs - 1) xs @ [last xs] = xs"
  by (cases xs rule: rev_cases) simp_all

lemma block_read:
  assumes "at_rest s" "sd s = Some d" "data_in d" "completes ops"
  obtains t e where "host_block_read ops (length (left_in d)) s = Inr (left_in d, t)" "at_rest t" "sd t = Some e" "finished e"
proof -
  obtain s1 where s1: "epat_write_data ops 0x07 s = Inr s1" "streaming EPAT_BLOCK_READ (epat_write_ctrl 3 (epat_write_ctrl 1 s1))"
      "sd (epat_write_ctrl 3 (epat_write_ctrl 1 s1)) = sd s" using block_starts(2) [OF assms(1)] by blast
  define s2 where "s2 = fed 0xff (epat_write_ctrl 3 (epat_write_ctrl 1 s1))"
  have w2: "epat_write_data ops 0xff (epat_write_ctrl 3 (epat_write_ctrl 1 s1)) = Inr s2"
    unfolding s2_def by (rule read_ends(2) [OF s1(2)]) simp_all
  have fed_stream: "streaming EPAT_BLOCK_READ (fed v x) = streaming EPAT_BLOCK_READ x" for v and x :: "'a epat"
    by (simp add: streaming_def)
  have i2: "in_stream ops (True, s2)" "stream_left (True, s2) = left_in d"
    using s1(2,3) assms(2-4) by (simp_all add: in_stream_def stream_left_def s2_def fed_stream)
  let ?n = "length (left_in d) - 1"
  have ne: "left_in d \<noteq> []" using left_in_Cons(1) [OF assms(3)] by simp
  then have lt: "?n < length (stream_left (True, s2))" by (simp add: i2(2))
  obtain ph s3 where s3: "pulls (wire_pull ops) ?n (True, s2) = Inr (take ?n (left_in d), (ph, s3))" "in_stream ops (ph, s3)"
      "stream_left (ph, s3) = drop ?n (left_in d)"
    using epat_in.pull_some [OF i2(1) lt] i2(2) by (metis surj_pair)
  have st3: "streaming EPAT_BLOCK_READ s3" using s3(2) by (simp add: in_stream_def)
  have i4: "in_stream ops (ph, fed 0xfd s3)" "stream_left (ph, fed 0xfd s3) = [last (left_in d)]"
    using s3(2,3) drop_all_but_last [OF ne] by (simp_all add: in_stream_def stream_left_def fed_stream)
  obtain ph' s5 where s5: "wire_pull ops (ph, fed 0xfd s3) = Inr (last (left_in d), (ph', s5))" "stream_over (ph', s5)"
    using epat_in.pull_last [OF i4] by (metis surj_pair)
  obtain s6 where s6: "epat_write_data ops 0x00 s5 = Inr s6" "at_rest (epat_write_ctrl 4 s6)" "sd (epat_write_ctrl 4 s6) = sd s5"
    using read_ends(1) [of s5] s5(2) by (auto simp: stream_over_def)
  note split_last = take_all_but_last [OF ne]
  have w4: "epat_write_data ops 0xfd s3 = Inr (fed 0xfd s3)" by (rule read_ends(2) [OF st3]) simp_all
  then have "host_block_read ops (length (left_in d)) s = Inr (left_in d, epat_write_ctrl 4 s6)"
    by (simp only: host_block_read_def s1(1) w2 s3(1) w4 andThen_simps prod.case s5(1) s6(1) split_last)
  moreover obtain e where "sd s5 = Some e" "finished e" using s5(2) by (auto simp: stream_over_def split: option.splits)
  ultimately show ?thesis using that s6 by metis
qed

text \<open>A drive that answers the command \<open>cdb\<close> with the data \<open>reply\<close>.\<close>

definition answers :: "'m drive_ops \<Rightarrow> u8 list \<Rightarrow> u8 list \<Rightarrow> bool" where
  "answers ops cdb reply \<longleftrightarrow> (\<forall>d. take 12 (atapi_cdb d) = cdb \<longrightarrow>
     (let r = sd_command ops d in packet_status r = PHASE_DATA_IN \<and> tf_pos r = 0 \<and>
        temp_buffer r = Some reply \<and> unat (packet_len r) = length reply))"

text \<open>C6: A packet command crosses the cable whole: with the bridge at rest and a drive attached, a host
  that opens a command (0xA0 to register 0x1F), streams its twelve bytes (none of them 0x22) as a
  write block and reads the answer as a block of nibble pairs gets exactly the bytes the drive
  answers to these twelve bytes, however the drive splits its answer into transfers; then the drive
  has completed (ready, no error, reason 3) and the bridge is at rest. The drive is any that answers
  the command with data and completes when told to stop.\<close>

theorem packet_command_crosses_cable:
  assumes "at_rest s" "sd s = Some d" "length (atapi_cdb d) = 16"
    and "length cdb = 12" "0x22 \<notin> set cdb" "answers ops cdb reply" "reply \<noteq> []" "completes ops"
  shows "\<exists>t e. host_packet ops cdb (length reply) s = Inr (reply, t) \<and> at_rest t \<and> sd t = Some e \<and> finished e"
proof -
  obtain s1 d1 where s1: "host_write_reg ops 0x1f 0xa0 s = Inr s1" "at_rest s1" "sd s1 = Some d1" "cdb_open d1" "cdb_taken d1 = []"
    by (rule packet_opens [OF assms(1-3)])
  obtain s2 d2 where s2: "host_block_write ops cdb s1 = Inr s2" "at_rest s2" "sd s2 = Some d2" "issued ops cdb d2"
    by (rule block_write [OF s1(2-5) assms(4,5)])
  have "data_in d2" "left_in d2 = reply"
    using s2(4) assms(6,7)
    by (auto simp: issued_def answers_def epat_atapi_callback_def callback_phase_def data_in_def left_in_def
        word_less_nat_alt Let_def)
  then obtain s3 d3 where "host_block_read ops (length reply) s2 = Inr (reply, s3)" "at_rest s3" "sd s3 = Some d3" "finished d3"
    using block_read [OF s2(2,3) _ assms(8)] by metis
  then show ?thesis by (simp add: host_packet_def s1(1) s2(1))
qed

section \<open>The unlock frame\<close>

text \<open>Each byte of the frame is written twice, the three checkpoints are read on the way, the command
  byte follows and a pulse of nINIT commits it.\<close>

definition twice :: "'m drive_ops \<Rightarrow> u8 \<Rightarrow> 'm epat \<Rightarrow> fault + 'm epat" where
  "twice ops v s = andThen (epat_write_data ops v s) (epat_write_data ops v)"

definition host_unlock :: "'m drive_ops \<Rightarrow> u8 \<Rightarrow> 'm epat \<Rightarrow> fault + ((u8 \<times> u8 \<times> u8) \<times> 'm epat)" where
  "host_unlock ops cmd s =
     andThen (pushes (twice ops) [0x22, 0xaa, 0x55, 0x00, 0xff] s) (\<lambda>s1.
     andThen (epat_read_status ops s1) (\<lambda>(a, s2).
     andThen (twice ops 0x87 s2) (\<lambda>s3.
     andThen (epat_read_status ops s3) (\<lambda>(b, s4).
     andThen (twice ops 0x78 s4) (\<lambda>s5.
     andThen (epat_read_status ops s5) (\<lambda>(c, s6).
     andThen (twice ops cmd s6) (\<lambda>s7.
     Inr ((a, b, c), epat_write_ctrl 4 (epat_write_ctrl 5 (epat_write_ctrl 4 s7))))))))))"

definition framed :: "bool \<Rightarrow> nat \<Rightarrow> u8 \<Rightarrow> 'm epat \<Rightarrow> 'm epat" where
  "framed dup n v s = s\<lparr>e_data := v, ulast := v, udup := dup, upos := n + 1,
     ustate := (if n = 6 then EPAT_UNLOCK_CMD else EPAT_UNLOCK_RUN),
     e_status := (if n = 4 then 0xb8 else if n = 5 then 0x58 else if n = 6 then 0xf0 else e_status s)\<rparr>"

lemma write_frame:
  assumes "upos s = n" "n < 7" "ustate s \<noteq> EPAT_UNLOCK_CMD" "epat_unlock ! n = v" "\<not> (udup s \<and> ulast s = v)"
  shows "epat_write_data ops v s = Inr (framed True n v s)"
proof -
  have g: "buf_get epat_unlock n = Inr v" using assms(2,4) by (simp add: buf_get_def epat_unlock_def)
  have "epat_unlock_feed v (s\<lparr>e_data := v\<rparr>) = Inr (framed True n v s)"
  proof -
    have nd: "\<not> (udup (s\<lparr>e_data := v\<rparr>) \<and> v = ulast (s\<lparr>e_data := v\<rparr>))" using assms(5) by auto
    have "epat_unlock_feed v (s\<lparr>e_data := v\<rparr>) =
        (let m = n + 1; s2 = s\<lparr>e_data := v, ulast := v, udup := True, upos := m, ustate := EPAT_UNLOCK_RUN\<rparr>
         in Inr (if m = 5 then s2\<lparr>e_status := 0xb8\<rparr> else if m = 6 then s2\<lparr>e_status := 0x58\<rparr>
                 else if m = 7 then s2\<lparr>e_status := 0xf0, ustate := EPAT_UNLOCK_CMD\<rparr> else s2))"
      using assms(1,3) g unfolding epat_unlock_feed_def if_not_P [OF nd] by simp
    moreover consider "n = 4" | "n = 5" | "n = 6" | "n \<noteq> 4" "n \<noteq> 5" "n \<noteq> 6" by blast
    ultimately show ?thesis by cases (simp_all add: framed_def)
  qed
  then show ?thesis by (simp add: epat_write_data_def framed_def)
qed

lemma twice_frame:
  assumes "upos s = n" "n < 7" "ustate s \<noteq> EPAT_UNLOCK_CMD" "epat_unlock ! n = v" "\<not> (udup s \<and> ulast s = v)"
  shows "twice ops v s = Inr (framed False n v s)"
proof -
  have "epat_write_data ops v (framed True n v s) = Inr (framed False n v s)"
    by (simp add: epat_write_data_def epat_unlock_feed_def framed_def)
  then show ?thesis by (simp add: twice_def write_frame [OF assms])
qed

lemma twice_command:
  assumes "ustate s = EPAT_UNLOCK_CMD" "\<not> (udup s \<and> ulast s = v)" "v \<noteq> 0"
  shows "twice ops v s = Inr (s\<lparr>e_data := v, ulast := v, udup := False, ucmd := v, ustate := EPAT_UNLOCK_IDLE\<rparr>)"
  using assms by (auto simp: twice_def epat_write_data_def epat_unlock_feed_def Let_def)

lemma frame_bytes:
  "epat_unlock ! 0 = 0x22" "epat_unlock ! 1 = 0xaa" "epat_unlock ! 2 = 0x55" "epat_unlock ! 3 = 0x00"
  "epat_unlock ! 4 = 0xff" "epat_unlock ! 5 = 0x87" "epat_unlock ! 6 = 0x78"
  by (simp_all add: epat_unlock_def)

text \<open>The unlock frame works: from any state with no frame under way the host reads the checkpoints
  0xB8, 0x58 and 0xF0 of the real bridge, and afterwards the bridge is connected if the command was
  0xE0, disconnected if it was 0x30 and as before for any other but 0, with no frame under way.\<close>

theorem unlock_frame_connects:
  assumes "ustate s = EPAT_UNLOCK_IDLE" "upos s = 0" "ucmd s = 0" "\<not> (udup s \<and> ulast s = 0x22)"
    and "block s = EPAT_BLOCK_NONE" "block_arm s = EPAT_BLOCK_NONE" "cmd \<noteq> 0"
  shows "\<exists>t. host_unlock ops cmd s = Inr ((0xb8, 0x58, 0xf0), t) \<and>
     is_connected t = (if cmd = 0xe0 then True else if cmd = 0x30 then False else is_connected s) \<and>
     ustate t = EPAT_UNLOCK_IDLE \<and> upos t = 0 \<and> ucmd t = 0 \<and> sd t = sd s \<and> regs t = regs s"
proof -
  let ?s1 = "s\<lparr>e_data := 0xff, ulast := 0xff, udup := False, upos := 5, ustate := EPAT_UNLOCK_RUN, e_status := 0xb8\<rparr>"
  define in_frame where
    "in_frame n v = s\<lparr>e_data := v, ulast := v, udup := False, upos := n, ustate := EPAT_UNLOCK_RUN\<rparr>" for n v
  have a0: "twice ops 0x22 s = Inr (in_frame 1 0x22)"
    using assms by (subst twice_frame [where n = 0]) (simp_all add: frame_bytes in_frame_def framed_def)
  have a: "twice ops v (in_frame n w) = Inr (in_frame (n + 1) v)" if "epat_unlock ! n = v" "n < 4" for n v w
    using that by (subst twice_frame [where n = n]) (auto simp: in_frame_def framed_def)
  have a4: "twice ops 0xff (in_frame 4 0x00) = Inr ?s1"
    by (subst twice_frame [where n = 4]) (simp_all add: frame_bytes in_frame_def framed_def)
  have p: "pushes (twice ops) [0x22, 0xaa, 0x55, 0x00, 0xff] s = Inr ?s1"
  proof -
    have "twice ops 0xaa (in_frame 1 0x22) = Inr (in_frame 2 0xaa)" "twice ops 0x55 (in_frame 2 0xaa) = Inr (in_frame 3 0x55)"
      "twice ops 0x00 (in_frame 3 0x55) = Inr (in_frame 4 0x00)"
      using a [of 1 "0xaa" "0x22"] a [of 2 "0x55" "0xaa"] a [of 3 "0x00" "0x55"] frame_bytes by (simp_all add: numeral_eq_Suc)
    then show ?thesis by (simp only: pushes.simps a0 a4 andThen_simps)
  qed
  let ?s3 = "?s1\<lparr>e_data := 0x87, ulast := 0x87, upos := 6, e_status := 0x58\<rparr>"
  have s3: "twice ops 0x87 ?s1 = Inr ?s3" by (simp add: twice_frame [where n = 5] frame_bytes framed_def)
  let ?s5 = "?s3\<lparr>e_data := 0x78, ulast := 0x78, upos := 7, ustate := EPAT_UNLOCK_CMD, e_status := 0xf0\<rparr>"
  have s5: "twice ops 0x78 ?s3 = Inr ?s5" by (simp add: twice_frame [where n = 6] frame_bytes framed_def)
  let ?s7 = "?s5\<lparr>e_data := cmd, ulast := cmd, ucmd := cmd, ustate := EPAT_UNLOCK_IDLE\<rparr>"
  have s7: "twice ops cmd ?s5 = Inr ?s7" using assms(7) by (simp add: twice_command)
  have r: "epat_read_status ops ?s1 = Inr (0xb8, ?s1)" "epat_read_status ops ?s3 = Inr (0x58, ?s3)"
    "epat_read_status ops ?s5 = Inr (0xf0, ?s5)" by (simp_all add: epat_read_status_def)
  let ?c = "(if cmd = 0xe0 then True else if cmd = 0x30 then False else is_connected s)"
  have c4: "epat_write_ctrl 4 ?s7 = ?s7\<lparr>e_ctrl := 4\<rparr>"
    using assms by (simp add: epat_write_ctrl_def commit_frame_def Let_def)
  have "\<exists>u. epat_write_ctrl 5 (?s7\<lparr>e_ctrl := 4\<rparr>) = u \<and> is_connected u = ?c \<and> ustate u = EPAT_UNLOCK_IDLE \<and> upos u = 0 \<and>
      ucmd u = 0 \<and> sd u = sd s \<and> regs u = regs s \<and> block u = EPAT_BLOCK_NONE \<and> block_arm u = EPAT_BLOCK_NONE"
    using assms(5-7) by (simp add: epat_write_ctrl_def commit_frame_def Let_def)
  then obtain u where u: "epat_write_ctrl 5 (?s7\<lparr>e_ctrl := 4\<rparr>) = u" "is_connected u = ?c" "ustate u = EPAT_UNLOCK_IDLE"
      "upos u = 0" "ucmd u = 0" "sd u = sd s" "regs u = regs s" "block u = EPAT_BLOCK_NONE" "block_arm u = EPAT_BLOCK_NONE"
    by blast
  have "is_connected (epat_write_ctrl 4 u) = ?c \<and> ustate (epat_write_ctrl 4 u) = EPAT_UNLOCK_IDLE \<and>
      upos (epat_write_ctrl 4 u) = 0 \<and> ucmd (epat_write_ctrl 4 u) = 0 \<and> sd (epat_write_ctrl 4 u) = sd s \<and>
      regs (epat_write_ctrl 4 u) = regs s"
    using u(2-9) unfolding epat_write_ctrl_def commit_none [OF u(5)] Let_def by simp
  then show ?thesis
    by (simp only: host_unlock_def p r s3 s5 s7 c4 u(1) andThen_simps prod.case)
      (intro exI conjI, rule refl, simp_all)
qed

text \<open>A frame that is not committed at once reads past the table: after the seventh byte the match
  position stays 7 until the pulse of nINIT, so with the command byte sent and no pulse the next
  different data byte is compared with \<open>epat_unlock[7]\<close>, outside the array.\<close>

theorem uncommitted_frame_overruns:
  assumes "ustate s = EPAT_UNLOCK_IDLE" "upos s = 0" "\<not> (udup s \<and> ulast s = 0x22)" "cmd \<noteq> 0" "cmd \<noteq> 0x78" "v \<noteq> cmd"
  shows "pushes (epat_write_data ops) [0x22, 0xaa, 0x55, 0x00, 0xff, 0x87, 0x78, cmd, v] s = Inl Overrun"
proof -
  define mid where "mid n b = s\<lparr>e_data := b, ulast := b, udup := True, upos := n, ustate := EPAT_UNLOCK_RUN,
     e_status := (if n = 5 then 0xb8 else if n = 6 then 0x58 else e_status s)\<rparr>" for n and b :: u8
  have a1: "epat_write_data ops 0x22 s = Inr (mid 1 0x22)"
    using assms by (subst write_frame [where n = 0]) (simp_all add: frame_bytes mid_def framed_def)
  have step: "epat_write_data ops b (mid n c) = Inr (mid m b)" if "epat_unlock ! n = b" "n < 6" "c \<noteq> b" "m = n + 1" for n m b c
  proof -
    have "epat_write_data ops b (mid n c) = Inr (framed True n b (mid n c))"
      by (rule write_frame) (use that in \<open>simp_all add: mid_def\<close>)
    also have "framed True n b (mid n c) = mid m b"
    proof -
      have "n = 4 \<or> n = 5 \<or> n < 4" using that(2) by arith
      then show ?thesis using that(4) by (elim disjE) (simp_all add: framed_def mid_def)
    qed
    finally show ?thesis .
  qed
  have s: "epat_write_data ops 0xaa (mid 1 0x22) = Inr (mid 2 0xaa)" "epat_write_data ops 0x55 (mid 2 0xaa) = Inr (mid 3 0x55)"
    "epat_write_data ops 0x00 (mid 3 0x55) = Inr (mid 4 0x00)" "epat_write_data ops 0xff (mid 4 0x00) = Inr (mid 5 0xff)"
    "epat_write_data ops 0x87 (mid 5 0xff) = Inr (mid 6 0x87)"
    by (rule step; simp add: frame_bytes frame_bytes [simplified])+
  have a7: "epat_write_data ops 0x78 (mid 6 0x87) = Inr (framed True 6 0x78 (mid 6 0x87))"
    by (rule write_frame) (simp_all add: mid_def frame_bytes)
  let ?c = "(framed True 6 0x78 (mid 6 0x87))\<lparr>e_data := cmd, ulast := cmd, ucmd := cmd, ustate := EPAT_UNLOCK_IDLE\<rparr>"
  have c: "epat_unlock_feed cmd ((framed True 6 0x78 (mid 6 0x87))\<lparr>e_data := cmd\<rparr>) = Inr ?c"
    using assms(5) by (simp add: epat_unlock_feed_def framed_def Let_def)
  have d: "epat_write_data ops cmd (framed True 6 0x78 (mid 6 0x87)) = Inr ?c"
    using assms(4) by (simp add: epat_write_data_def c)
  have "epat_unlock_feed v (?c\<lparr>e_data := v\<rparr>) = Inl Overrun"
    using assms(6) by (simp add: epat_unlock_feed_def buf_get_def epat_unlock_def framed_def)
  then have "epat_write_data ops v ?c = Inl Overrun" by (simp add: epat_write_data_def)
  then show ?thesis by (simp only: pushes.simps a1 s a7 d andThen_simps)
qed

subsection \<open>Nothing else connects\<close>

datatype bus_op = W0 u8 | W2 u8 | R1

fun bus_step :: "'m drive_ops \<Rightarrow> bus_op \<Rightarrow> 'm epat \<Rightarrow> fault + 'm epat" where
  "bus_step ops (W0 v) s = epat_write_data ops v s"
| "bus_step ops (W2 v) s = Inr (epat_write_ctrl v s)"
| "bus_step ops R1 s = andThen (epat_read_status ops s) (\<lambda>(v, t). Inr t)"

text \<open>The bytes a host has sent, a second write of the same byte being its delay.\<close>

definition log_byte :: "bus_op \<Rightarrow> u8 list \<times> bool \<times> u8 \<Rightarrow> u8 list \<times> bool \<times> u8" where
  "log_byte a r =
     (case r of (bs, dup, l) \<Rightarrow>
        (case a of W0 v \<Rightarrow> if dup \<and> v = l then (bs, False, l) else (bs @ [v], True, v) | _ \<Rightarrow> r))"

definition logical :: "bus_op list \<Rightarrow> u8 list" where
  "logical as = fst (fold log_byte as ([], False, 0))"

definition lock_ok :: "u8 list \<times> bool \<times> u8 \<Rightarrow> 'm epat \<Rightarrow> bool" where
  "lock_ok r s \<longleftrightarrow> snd r = (udup s, ulast s) \<and>
     (ustate s = EPAT_UNLOCK_IDLE \<longrightarrow> upos s = 0 \<or> upos s = 7) \<and>
     (ustate s \<noteq> EPAT_UNLOCK_IDLE \<longrightarrow> upos s \<le> 7 \<and> suffix (take (upos s) epat_unlock) (fst r)) \<and>
     (ustate s = EPAT_UNLOCK_CMD \<longrightarrow> upos s = 7) \<and>
     (ucmd s \<noteq> 0 \<longrightarrow> sublist (epat_unlock @ [ucmd s]) (fst r)) \<and>
     (is_connected s \<longrightarrow> sublist (epat_unlock @ [0xe0]) (fst r))"

definition same_lock :: "'m epat \<Rightarrow> 'm epat \<Rightarrow> bool" where
  "same_lock s t \<longleftrightarrow> ustate t = ustate s \<and> upos t = upos s \<and> ulast t = ulast s \<and> udup t = udup s \<and>
     ucmd t = ucmd s \<and> is_connected t = is_connected s"

lemma same_lock_ok: "same_lock s t \<Longrightarrow> lock_ok r s \<Longrightarrow> lock_ok r t"
  by (simp add: same_lock_def lock_ok_def)

lemma data_read_lock: "epat_data_read ops s = Inr (v, t) \<Longrightarrow> same_lock s t"
  by (auto simp: epat_data_read_def same_lock_def andThen_Inr Let_def split: option.splits if_splits)

lemma data_write_lock: "epat_data_write ops v s = Inr t \<Longrightarrow> same_lock s t"
  by (auto simp: epat_data_write_def same_lock_def andThen_Inr Let_def split: option.splits if_splits)

lemma attach_lock: "same_lock s (epat_attach_drive ops s)"
  by (auto simp: epat_attach_drive_def same_lock_def split: option.splits)

lemma same_lock_trans: "same_lock s t \<Longrightarrow> same_lock t u \<Longrightarrow> same_lock s u"
  by (simp add: same_lock_def)

lemma reg_read_lock: "epat_reg_read ops a s = Inr (v, t) \<Longrightarrow> same_lock s t"
  using attach_lock [of s ops]
  by (auto simp: epat_reg_read_def Let_def split: option.splits if_splits dest: data_read_lock intro: same_lock_trans)

lemma reg_write_lock:
  assumes "epat_reg_write ops a v s = Inr t" shows "same_lock s t"
proof -
  let ?u = "epat_attach_drive ops (s\<lparr>regs := (regs s)(unat a := v)\<rparr>)"
  have u: "same_lock s ?u"
    by (rule same_lock_trans [OF _ attach_lock]) (simp add: same_lock_def)
  have "same_lock ?u t"
    using assms data_write_lock [of ops v ?u t]
    by (auto simp: epat_reg_write_def Let_def upd_drive_def same_lock_def split: if_splits)
  then show ?thesis by (rule same_lock_trans [OF u])
qed

lemma device_reset_lock: "same_lock s (epat_device_reset ops s)"
  by (auto simp: epat_device_reset_def upd_drive_def epat_attach_drive_def same_lock_def split: option.splits)

lemma write_register_lock: "write_register ops v s = Inr t \<Longrightarrow> same_lock s t"
  by (auto simp: write_register_def Let_def andThen_Inr split: if_splits dest!: reg_write_lock
      intro: same_lock_trans [OF _ device_reset_lock]) (auto simp: same_lock_def epat_device_reset_def upd_drive_def epat_attach_drive_def split: option.splits)

text \<open>What a data write does to the lock is what the recogniser does.\<close>

lemma write_data_lock:
  assumes "epat_write_data ops v s = Inr t"
  obtains u where "epat_unlock_feed v (s\<lparr>e_data := v\<rparr>) = Inr u" "same_lock u t"
proof -
  obtain u where u: "epat_unlock_feed v (s\<lparr>e_data := v\<rparr>) = Inr u"
    using assms by (auto simp: epat_write_data_def andThen_Inr)
  have "same_lock u t"
    using assms u data_write_lock [of ops v u t] write_register_lock [of ops v u t]
    by (auto simp: epat_write_data_def same_lock_def split: if_splits)
  then show ?thesis using that u by blast
qed

lemma read_status_lock: "epat_read_status ops s = Inr (v, t) \<Longrightarrow> same_lock s t"
  by (auto simp: epat_read_status_def andThen_Inr same_lock_def split: if_splits
      dest!: data_read_lock reg_read_lock)

lemma suffix_take_Suc:
  assumes "suffix (take n xs) ys" "n < length xs" shows "suffix (take (Suc n) xs) (ys @ [xs ! n])"
  using assms by (auto simp: take_Suc_conv_app_nth suffix_def)

lemma feed_lock_ok:
  assumes "lock_ok r s" "epat_unlock_feed v s = Inr t"
  shows "lock_ok (log_byte (W0 v) r) t"
proof (cases "udup s \<and> v = ulast s")
  case True
  obtain bs where r: "r = (bs, udup s, ulast s)" using assms(1) by (cases r) (auto simp: lock_ok_def)
  have "t = s\<lparr>udup := False\<rparr>" using assms(2) unfolding epat_unlock_feed_def if_P [OF True] by simp
  moreover have "log_byte (W0 v) r = (bs, False, ulast s)" using True by (simp add: r log_byte_def)
  ultimately show ?thesis using assms(1) by (simp add: lock_ok_def r)
next
  case new: False
  obtain bs where r: "r = (bs, udup s, ulast s)" using assms(1) by (cases r) (auto simp: lock_ok_def)
  have l: "log_byte (W0 v) r = (bs @ [v], True, v)" using new by (auto simp: r log_byte_def)
  have sub: "sublist xs bs \<Longrightarrow> sublist xs (bs @ [v])" for xs by (metis sublist_append_rightI sublist_order.order.trans)
  let ?s1 = "s\<lparr>ulast := v, udup := True\<rparr>"
  show ?thesis
  proof (cases "ustate s = EPAT_UNLOCK_CMD")
    case True
    then have t: "t = ?s1\<lparr>ucmd := v, ustate := EPAT_UNLOCK_IDLE\<rparr>"
      using assms(2) unfolding epat_unlock_feed_def if_not_P [OF new] by (simp add: Let_def)
    have "upos s = 7" "suffix epat_unlock bs" using assms(1) True by (auto simp: lock_ok_def r epat_unlock_def)
    then have "sublist (epat_unlock @ [v]) (bs @ [v])" by (auto simp: suffix_def)
    then show ?thesis unfolding l using assms(1) \<open>upos s = 7\<close> sub by (auto simp: t lock_ok_def r)
  next
    case False
    have f: "epat_unlock_feed v s = Inr t" "ustate ?s1 \<noteq> EPAT_UNLOCK_CMD" "upos ?s1 = upos s"
      using assms(2) False by simp_all
    note feed = f(1) [unfolded epat_unlock_feed_def if_not_P [OF new] Let_def if_not_P [OF f(2)] f(3)]
    have p: "upos s < length epat_unlock"
      using feed by (cases "upos s < length epat_unlock") (simp_all add: buf_get_def)
    have g: "buf_get epat_unlock (upos s) = Inr (epat_unlock ! upos s)" using p by (simp add: buf_get_def)
    note feed = feed [unfolded g andThen_simps]
    have p7: "upos s < 7" using p by (simp add: epat_unlock_def)
    have suf: "suffix (take (upos s) epat_unlock) bs"
      using assms(1) p7 by (cases "ustate s = EPAT_UNLOCK_IDLE") (auto simp: lock_ok_def r)
    show ?thesis
    proof (cases "v = epat_unlock ! upos s")
      case True
      have "suffix (take (Suc (upos s)) epat_unlock) (bs @ [v])" using suffix_take_Suc [OF suf p] True by simp
      moreover have "upos t = Suc (upos s)" "ustate t \<noteq> EPAT_UNLOCK_IDLE" "ustate t = EPAT_UNLOCK_CMD \<longrightarrow> upos s = 6"
          "udup t" "ulast t = v" "ucmd t = ucmd s" "is_connected t = is_connected s"
      proof -
        let ?s2 = "?s1\<lparr>upos := Suc (upos s), ustate := EPAT_UNLOCK_RUN\<rparr>"
        have t: "t = (if upos s = 4 then ?s2\<lparr>e_status := 0xb8\<rparr> else if upos s = 5 then ?s2\<lparr>e_status := 0x58\<rparr>
            else if upos s = 6 then ?s2\<lparr>e_status := 0xf0, ustate := EPAT_UNLOCK_CMD\<rparr> else ?s2)"
          using feed True by (simp add: numeral_eq_Suc cong: if_cong)
        show "upos t = Suc (upos s)" "ustate t \<noteq> EPAT_UNLOCK_IDLE" "ustate t = EPAT_UNLOCK_CMD \<longrightarrow> upos s = 6"
          "udup t" "ulast t = v" "ucmd t = ucmd s" "is_connected t = is_connected s" by (simp_all add: t)
      qed
      ultimately show ?thesis unfolding l using assms(1) p7 sub by (simp add: lock_ok_def r)
    next
      case False
      have t: "t = ?s1\<lparr>upos := (if v = epat_unlock ! 0 then 1 else 0),
          ustate := (if v = epat_unlock ! 0 then EPAT_UNLOCK_RUN else EPAT_UNLOCK_IDLE)\<rparr>"
        using feed [unfolded if_not_P [OF False]] by (simp only: sum.inject One_nat_def if_True if_False split: if_split) auto
      have "take 1 epat_unlock = [epat_unlock ! 0]" by (simp add: epat_unlock_def)
      then show ?thesis unfolding l using assms(1) sub by (simp add: t lock_ok_def r)
    qed
  qed
qed

lemma write_ctrl_lock_ok:
  assumes "lock_ok r s" shows "lock_ok r (epat_write_ctrl v s)"
proof -
  have c: "lock_ok r (commit_frame v s)" using assms by (auto simp: commit_frame_def lock_ok_def)
  show ?thesis using c by (auto simp: epat_write_ctrl_def Let_def lock_ok_def)
qed

lemma bus_step_lock_ok:
  assumes "lock_ok r s" "bus_step ops a s = Inr t" shows "lock_ok (log_byte a r) t"
proof (cases a)
  case (W0 v)
  obtain u where u: "epat_unlock_feed v (s\<lparr>e_data := v\<rparr>) = Inr u" "same_lock u t"
    using assms(2) W0 by (auto elim: write_data_lock)
  have "lock_ok r (s\<lparr>e_data := v\<rparr>)" using assms(1) by (simp add: lock_ok_def)
  then show ?thesis unfolding W0 by (rule same_lock_ok [OF u(2) feed_lock_ok [OF _ u(1)]])
next
  case (W2 v)
  then have "t = epat_write_ctrl v s" "log_byte a r = r" using assms(2) by (cases r, auto simp: log_byte_def)+
  then show ?thesis using write_ctrl_lock_ok [OF assms(1)] by simp
next
  case R1
  then have "same_lock s t" "log_byte a r = r"
    using assms(2) by (cases r, auto simp: log_byte_def andThen_Inr intro: read_status_lock)+
  then show ?thesis using same_lock_ok [OF _ assms(1)] by simp
qed

text \<open>C20: Nothing but the frame connects: whatever a host writes and reads, if the bridge is connected
  then among the bytes sent since it was initialised (repeats as delays left out) are the seven of
  the frame and the command 0xE0, one after the other.\<close>

theorem only_frame_connects:
  assumes "pushes (bus_step ops) as epat_init = Inr t" "is_connected t"
  shows "sublist (epat_unlock @ [0xe0]) (logical as)"
proof -
  have "lock_ok (fold log_byte as r) t" if "pushes (bus_step ops) as s = Inr t" "lock_ok r s" for s t r
    using that
  proof (induction as arbitrary: s r)
    case (Cons a as)
    then obtain u where u: "bus_step ops a s = Inr u" "pushes (bus_step ops) as u = Inr t" by (auto simp: andThen_Inr)
    show ?case using Cons.IH [OF u(2) bus_step_lock_ok [OF Cons.prems(2) u(1)]] by simp
  qed simp
  moreover have "lock_ok ([], False, 0) (epat_init :: 'a epat)" by (simp add: lock_ok_def epat_init_def)
  ultimately have "lock_ok (fold log_byte as ([], False, 0)) t" using assms(1) by blast
  then show ?thesis using assms(2) by (simp add: lock_ok_def logical_def)
qed

section \<open>Witnesses\<close>

text \<open>A drive that answers any command with three bytes, two of them in its first transfer.\<close>

definition demo_drive :: "unit drive" where
  "demo_drive =
     \<lparr>features = 0, ireason = 1, request_length = 0xeb14, atastat = 0x50, ata_error = 0, drvsel = 0, tf_pos = 0,
      temp_buffer = None, atapi_cdb = replicate 16 0, packet_status = PHASE_NONE, packet_len = 0, max_transfer_len = 0,
      request_pos = 0, callback_delay = 0, unit_attention = False, medium = ()\<rparr>"

definition demo_ops :: "unit drive_ops" where
  "demo_ops =
     \<lparr>sd_command = (\<lambda>d. d\<lparr>packet_status := PHASE_DATA_IN, tf_pos := 0, temp_buffer := Some [1, 2, 3], packet_len := 3,
        max_transfer_len := 2\<rparr>),
      sd_phase_data_out = (\<lambda>d. d\<lparr>packet_status := PHASE_COMPLETE\<rparr>),
      sd_command_stop = (\<lambda>d. d\<lparr>packet_status := PHASE_COMPLETE\<rparr>),
      sd_reset = (\<lambda>d. d), find_drive = Some demo_drive\<rparr>"

definition demo_bridge :: "unit epat" where
  "demo_bridge = epat_init\<lparr>is_connected := True\<rparr>"

lemma demo_rest: "at_rest demo_bridge" "at_rest (demo_bridge\<lparr>sd := Some demo_drive\<rparr>)"
  by (simp_all add: at_rest_def demo_bridge_def epat_init_def)

lemma demo_answers: "answers demo_ops [0x12, 0, 0, 0, 3, 0, 0, 0, 0, 0, 0, 0] [1, 2, 3]" "completes demo_ops"
  by (simp_all add: answers_def completes_def demo_ops_def)

lemma register_round_trip_witness:
  "\<exists>t u. host_write_reg demo_ops 0x1c 0x5a demo_bridge = Inr t \<and> at_rest t \<and> host_read_reg demo_ops 0x1c t = Inr (0x5a, u) \<and> at_rest u"
  using register_round_trip [OF demo_rest(1), of "0x1c" "0x5a" demo_ops] by (simp add: plain_reg_def)

lemma data_byte_22_lost_witness:
  "\<exists>t. epat_write_data demo_ops 0x22 (demo_bridge\<lparr>block := EPAT_BLOCK_WRITE\<rparr>) = Inr t \<and> sd t = sd demo_bridge"
proof -
  have "\<not> (udup demo_bridge \<and> ulast demo_bridge = 0x22)" by (simp add: demo_bridge_def epat_init_def)
  then show ?thesis using data_byte_22_lost [OF demo_rest(1), of "0x1c" "0x1d" demo_ops] by simp
qed

lemma block_transfer_without_drive_faults_witness:
  "andThen (epat_write_data demo_ops 0x67 demo_bridge)
     (\<lambda>s1. epat_write_data demo_ops 5 (epat_write_ctrl 5 (epat_write_ctrl 1 s1))) = Inl Null_pointer"
  using block_transfer_without_drive_faults [OF demo_rest(1), of 5 demo_ops] by (simp add: demo_bridge_def epat_init_def)

lemma packet_command_crosses_cable_witness:
  "\<exists>t e. host_packet demo_ops [0x12, 0, 0, 0, 3, 0, 0, 0, 0, 0, 0, 0] (length [1, 2, 3 :: u8]) (demo_bridge\<lparr>sd := Some demo_drive\<rparr>) =
     Inr ([1, 2, 3], t) \<and> at_rest t \<and> sd t = Some e \<and> finished e"
  by (rule packet_command_crosses_cable [OF demo_rest(2) _ _ _ _ demo_answers(1) _ demo_answers(2), of demo_drive])
    (simp_all add: demo_drive_def)

lemma unlock_frame_connects_witness:
  "\<exists>t. host_unlock demo_ops 0xe0 epat_init = Inr ((0xb8, 0x58, 0xf0), t) \<and> is_connected t"
  using unlock_frame_connects [of epat_init "0xe0" demo_ops] by (auto simp: epat_init_def)

lemma uncommitted_frame_overruns_witness:
  "pushes (epat_write_data demo_ops) [0x22, 0xaa, 0x55, 0x00, 0xff, 0x87, 0x78, 0xe0, 0x1f] epat_init = Inl Overrun"
  by (rule uncommitted_frame_overruns) (simp_all add: epat_init_def)

definition demo_unlock :: "bus_op list" where
  "demo_unlock = map W0 (epat_unlock @ [0xe0]) @ [W2 4, R1, W2 5]"

definition demo_unlocked :: "fault + unit epat" where
  "demo_unlocked = pushes (bus_step demo_ops) demo_unlock epat_init"

lemma demo_unlocked: "\<not> isl demo_unlocked \<and> is_connected (projr demo_unlocked)"
  by code_simp

lemma only_frame_connects_witness: "sublist (epat_unlock @ [0xe0]) (logical demo_unlock)"
  by (rule only_frame_connects [of demo_ops demo_unlock "projr demo_unlocked"])
    (use demo_unlocked in \<open>simp_all flip: demo_unlocked_def\<close>)

end
