(* ===== verification/Bpck.thy ===== *)
theory Bpck
  imports Packet_Drive
begin

text \<open>
  The MicroSolutions BackPack bridge between a parallel port and an ATAPI CD-ROM drive,
  \<open>drivers/microsolutions_backpack/86box/lpt_bpck.c\<close>: the addressed knock that connects it, registers
  reached by edges of the control lines or by EPP cycles and read as nibbles or bytes, the identity
  EEPROM, and the packet engine that drives the ATAPI drive.

  \<open>drive_ops\<close> holds the drive's functions; the time stamp counter and \<open>TIMER_USEC\<close> extend it to
  \<open>pod_env\<close>. A timer is the delay it was last armed with. \<open>lpt_in\<close> is the input register of the port,
  which \<open>lpt_write_to_dat\<close> sets. The log is left out.
\<close>

section \<open>State\<close>

datatype bpck_proto = BPCK_PROTO_SPP | BPCK_PROTO_PS2 | BPCK_PROTO_EPP

record 'm pod_env = "'m drive_ops" +
  pod_tsc :: u64
  timer_usec :: u64

record 'm bpck =
  lpt_in :: u8
  b_dat :: u8
  b_ctrl :: u8
  dat_out :: u8
  rd_out :: u8
  last_status :: u8
  unit :: u8
  linked :: bool
  knock :: int
  ident :: bool
  latching :: bool
  latch_commits :: int
  cur_reg :: u8
  rd_val :: u8
  rd_high :: bool
  proto :: bpck_proto
  b_regs :: "u8 \<Rightarrow> u8"
  ee_lines :: u8
  ee_shift :: u16
  ee_bits :: int
  ee_out :: u16
  ee_reading :: bool
  ee_do :: bool
  ee_data :: "u16 list"
  b_sd :: "'m drive option"
  b_no_drive :: bool
  tf_regs :: "u8 \<Rightarrow> u8"
  busy_timer :: "u64 option"
  busy_us :: int
  busy_pending :: bool
  last_media_ts :: u64
  spinning :: bool
  reset_timer :: "u64 option"
  in_reset :: bool
  reset_abrt :: bool

abbreviation (input) LPT_CTRL_STROBE :: u8 where "LPT_CTRL_STROBE \<equiv> 0x01"
abbreviation (input) LPT_CTRL_AUTOFD :: u8 where "LPT_CTRL_AUTOFD \<equiv> 0x02"
abbreviation (input) LPT_CTRL_INIT :: u8 where "LPT_CTRL_INIT \<equiv> 0x04"
abbreviation (input) LPT_CTRL_SELECT :: u8 where "LPT_CTRL_SELECT \<equiv> 0x08"
abbreviation (input) LPT_CTRL_LINES :: u8 where "LPT_CTRL_LINES \<equiv> 0x0f"
abbreviation (input) LPT_STAT_ACK :: u8 where "LPT_STAT_ACK \<equiv> 0x40"
abbreviation (input) LPT_STAT_BUSY :: u8 where "LPT_STAT_BUSY \<equiv> 0x80"
abbreviation (input) LPT_STAT_MASK :: u8 where "LPT_STAT_MASK \<equiv> 0xf8"
abbreviation (input) LPT_STAT_IDLE :: u8 where "LPT_STAT_IDLE \<equiv> 0xd8"
abbreviation (input) BPCK_EE_CS :: u8 where "BPCK_EE_CS \<equiv> 0x04"
abbreviation (input) BPCK_EE_DI :: u8 where "BPCK_EE_DI \<equiv> 0x02"
abbreviation (input) BPCK_EE_CLK :: u8 where "BPCK_EE_CLK \<equiv> 0x01"
abbreviation (input) BPCK_REG_BLOCK :: u8 where "BPCK_REG_BLOCK \<equiv> 0xfe"

definition bpck_ee_default :: "u16 list" where
  "bpck_ee_default =
     [0x07f8, 0x0000, 0x0082, 0x4f54, 0x4853, 0x4249, 0x2041, 0x4443,
      0x522d, 0x4d4f, 0x5820, 0x2d4d, 0x3531, 0x3230, 0x2f42, 0x3632, 0x3639] @
     replicate 29 0x0000 @ [0x3204] @ replicate 8 0x0000 @
     [0x3731, 0x3236, 0x3037, 0x3730, 0x0c08, 0x07cd, 0x0c08, 0x07cd, 0x0000]"

definition pod_drive :: "('m drive \<Rightarrow> 'm drive) \<Rightarrow> 'm bpck \<Rightarrow> 'm bpck" where
  "pod_drive f s = s\<lparr>b_sd := map_option f (b_sd s)\<rparr>"

section \<open>The identity EEPROM\<close>

definition bpck_ee_write :: "u8 \<Rightarrow> 'm bpck \<Rightarrow> 'm bpck" where
  "bpck_ee_write val s0 =
     (let old = ee_lines s0; s = s0\<lparr>ee_lines := val\<rparr> in
      if val AND BPCK_EE_CS = 0 then s\<lparr>ee_bits := 0, ee_shift := 0, ee_reading := False, ee_do := False\<rparr>
      else if \<not> (val AND BPCK_EE_CLK \<noteq> 0 \<and> old AND BPCK_EE_CLK = 0) then s
      else if ee_reading s then s\<lparr>ee_do := (ee_out s AND 0x8000 \<noteq> 0), ee_out := push_bit 1 (ee_out s)\<rparr>
      else
        let sh = push_bit 1 (ee_shift s) OR (if val AND BPCK_EE_DI \<noteq> 0 then 1 else 0);
            n = ee_bits s + 1
        in if 9 \<le> n then
             (if sh AND 0x180 = 0x180
              then s\<lparr>ee_shift := sh, ee_bits := n, ee_out := ee_data s ! unat (sh AND 0x3f), ee_reading := True\<rparr>
              else s\<lparr>ee_shift := 0, ee_bits := 0\<rparr>)
           else s\<lparr>ee_shift := sh, ee_bits := n\<rparr>)"

section \<open>The packet engine\<close>

definition bpck_attach_drive :: "'m pod_env \<Rightarrow> 'm bpck \<Rightarrow> 'm bpck" where
  "bpck_attach_drive E s =
     (if b_sd s \<noteq> None \<or> b_no_drive s then s
      else case find_drive E of None \<Rightarrow> s\<lparr>b_no_drive := True\<rparr> | Some d \<Rightarrow> s\<lparr>b_sd := Some d\<rparr>)"

definition bpck_cdb_touches_media :: "u8 \<Rightarrow> bool" where
  "bpck_cdb_touches_media opc \<longleftrightarrow> opc \<in> {0x08, 0x0a, 0x1b, 0x25, 0x28, 0x2a, 0x2f, 0x35}"

text \<open>The delay of the BSY window: full spin-up after two seconds without access to the medium.\<close>

definition busy_window :: "'m pod_env \<Rightarrow> 'm bpck \<Rightarrow> 'm bpck" where
  "busy_window E s =
     (let idle = (if last_media_ts s = 0 then - 1 else pod_tsc E - last_media_ts s);
          cold = (\<not> spinning s \<or> 2000000 * timer_usec E < idle);
          us = (if cold then busy_us s else busy_us s div 50)
      in (pod_drive (\<lambda>d. d\<lparr>atastat := BUSY_STAT OR (atastat d AND ERR_STAT)\<rparr>) s)
           \<lparr>spinning := (spinning s \<or> cold), last_media_ts := pod_tsc E, busy_pending := True,
            busy_timer := Some (word_of_int us * timer_usec E)\<rparr>)"

text \<open>Every phase but \<open>PHASE_COMMAND\<close>.\<close>

definition bpck_callback_phase :: "'m pod_env \<Rightarrow> 'm drive \<Rightarrow> 'm bpck \<Rightarrow> 'm bpck" where
  "bpck_callback_phase E d s =
     (let ps = packet_status d; err = atastat d AND ERR_STAT in
      if ps = PHASE_IDLE then
        s\<lparr>b_sd := Some (d\<lparr>tf_pos := 0, ireason := 1, atastat := (READY_STAT OR DRQ_STAT) OR err\<rparr>)\<rparr>
      else if ps = PHASE_COMPLETE \<or> ps = PHASE_ERROR then
        (if 0 < busy_us s \<and> \<not> busy_pending s \<and> bpck_cdb_touches_media (atapi_cdb d ! 0)
         then busy_window E (s\<lparr>b_sd := Some d\<rparr>)
         else s\<lparr>busy_pending := False,
                b_sd := Some (d\<lparr>atastat := (if ps = PHASE_ERROR then READY_STAT OR ERR_STAT else READY_STAT),
                                ireason := 3, packet_status := PHASE_NONE\<rparr>)\<rparr>)
      else if ps = PHASE_DATA_IN \<or> ps = PHASE_DATA_OUT then
        s\<lparr>b_sd := Some (d\<lparr>atastat := (READY_STAT OR DRQ_STAT) OR err,
                          ireason := (if ps = PHASE_DATA_IN then 2 else 0)\<rparr>)\<rparr>
      else s\<lparr>b_sd := Some d\<rparr>)"

definition bpck_atapi_callback :: "'m pod_env \<Rightarrow> 'm drive \<Rightarrow> 'm bpck \<Rightarrow> 'm bpck" where
  "bpck_atapi_callback E d s =
     (if packet_status d = PHASE_COMMAND then
        let d1 = (sd_command E (d\<lparr>atastat := BUSY_STAT OR (atastat d AND ERR_STAT)\<rparr>))\<lparr>callback_delay := 0\<rparr>
        in if packet_status d1 \<noteq> PHASE_COMMAND then bpck_callback_phase E d1 s else s\<lparr>b_sd := Some d1\<rparr>
      else bpck_callback_phase E d s)"

definition bpck_pio_request :: "'m pod_env \<Rightarrow> bool \<Rightarrow> 'm drive \<Rightarrow> 'm bpck \<Rightarrow> 'm bpck" where
  "bpck_pio_request E out d0 s =
     (let d = d0\<lparr>atastat := BUSY_STAT\<rparr> in
      if packet_len d \<le> tf_pos d then
        let d1 = d\<lparr>tf_pos := 0, request_pos := 0\<rparr>;
            d2 = (if out then sd_phase_data_out E d1 else sd_command_stop E d1)\<lparr>callback_delay := 0\<rparr>
        in if packet_status d2 = PHASE_COMPLETE \<or> packet_status d2 = PHASE_ERROR then bpck_atapi_callback E d2 s
           else s\<lparr>b_sd := Some d2\<rparr>
      else
        let left = packet_len d - tf_pos d;
            d1 = (if left < ucast (max_transfer_len d)
                  then d\<lparr>max_transfer_len := ucast left, request_length := ucast left\<rparr> else d)
        in pod_drive (\<lambda>d. d\<lparr>request_pos := 0\<rparr>)
             (bpck_atapi_callback E (d1\<lparr>packet_status := (if out then PHASE_DATA_OUT else PHASE_DATA_IN)\<rparr>) s))"

definition transfer_over :: "'m drive \<Rightarrow> bool" where
  "transfer_over d \<longleftrightarrow> int (unat (max_transfer_len d)) \<le> request_pos d \<or> packet_len d \<le> tf_pos d"

definition bpck_data_read :: "'m pod_env \<Rightarrow> 'm bpck \<Rightarrow> fault + (u8 \<times> 'm bpck)" where
  "bpck_data_read E s =
     (case b_sd s of
        None \<Rightarrow> Inl Null_pointer
      | Some d \<Rightarrow>
          (case temp_buffer d of
             None \<Rightarrow> Inr (0, s)
           | Some buf \<Rightarrow>
               if packet_status d \<noteq> PHASE_DATA_IN then Inr (0, s)
               else andThen (if tf_pos d < packet_len d then buf_get buf (unat (tf_pos d)) else Inr 0) (\<lambda>ret.
                 let d1 = d\<lparr>tf_pos := tf_pos d + 1, request_pos := request_pos d + 1\<rparr>
                 in Inr (ret, if transfer_over d1 then bpck_pio_request E False d1 s else s\<lparr>b_sd := Some d1\<rparr>))))"

definition bpck_data_write :: "'m pod_env \<Rightarrow> u8 \<Rightarrow> 'm bpck \<Rightarrow> fault + 'm bpck" where
  "bpck_data_write E val s =
     (case b_sd s of
        None \<Rightarrow> Inl Null_pointer
      | Some d \<Rightarrow>
          let step = (\<lambda>d. d\<lparr>tf_pos := tf_pos d + 1, request_pos := request_pos d + 1\<rparr>) in
          if packet_status d = PHASE_IDLE then
            andThen (buf_put (atapi_cdb d) (unat (tf_pos d)) val) (\<lambda>cdb.
              let d1 = step (d\<lparr>atapi_cdb := cdb\<rparr>)
              in Inr (if 12 \<le> tf_pos d1
                      then bpck_atapi_callback E (d1\<lparr>tf_pos := 0, atastat := BUSY_STAT, packet_status := PHASE_COMMAND\<rparr>) s
                      else s\<lparr>b_sd := Some d1\<rparr>))
          else if packet_status d = PHASE_DATA_OUT then
            (case temp_buffer d of
               None \<Rightarrow> Inr s
             | Some buf \<Rightarrow>
                 andThen (buf_put buf (unat (tf_pos d)) val) (\<lambda>b.
                   let d1 = step (d\<lparr>temp_buffer := Some b\<rparr>)
                   in Inr (if transfer_over d1 then bpck_pio_request E True d1 s else s\<lparr>b_sd := Some d1\<rparr>)))
          else Inr s)"

definition bpck_command :: "u8 \<Rightarrow> 'm bpck \<Rightarrow> 'm bpck" where
  "bpck_command cmd s =
     (if in_reset s then s\<lparr>reset_abrt := True\<rparr>
      else pod_drive (\<lambda>d.
        if cmd \<noteq> ATA_CMD_PACKET
        then d\<lparr>atastat := (READY_STAT OR ERR_STAT) OR ATA_ST_DSC, ata_error := ABRT_ERR, request_length := 0xeb14, ireason := 1\<rparr>
        else d\<lparr>tf_pos := 0, packet_status := PHASE_IDLE, ireason := 1, atastat := READY_STAT OR DRQ_STAT\<rparr>) s)"

text \<open>The drive's task file.\<close>

definition task_file :: "u8 \<Rightarrow> bool" where
  "task_file r \<longleftrightarrow> 0x40 \<le> r \<and> r \<le> 0x47"

definition bpck_reg_read :: "'m pod_env \<Rightarrow> u8 \<Rightarrow> 'm bpck \<Rightarrow> fault + (u8 \<times> 'm bpck)" where
  "bpck_reg_read E addr s0 =
     (let s = bpck_attach_drive E s0 in
      if in_reset s \<and> addr = 0x47 then
        Inr (if reset_abrt s then (BUSY_STAT OR READY_STAT) OR ERR_STAT else BUSY_STAT, s)
      else if in_reset s \<and> addr = 0x41 then Inr (if reset_abrt s then ABRT_ERR else 0, s)
      else case b_sd s of
        None \<Rightarrow> Inr (tf_regs s addr, s)
      | Some d \<Rightarrow>
          if addr = BPCK_REG_BLOCK then bpck_data_read E s
          else if \<not> task_file addr then Inr (tf_regs s addr, s)
          else if addr = 0x40 then bpck_data_read E s
          else Inr (if addr = 0x41 then ata_error d
                    else if addr = 0x42 then ireason d
                    else if addr = 0x44 then lo8 (request_length d)
                    else if addr = 0x45 then hi8 (request_length d)
                    else if addr = 0x46 then drvsel d
                    else if addr = 0x47 then atastat d
                    else tf_regs s addr, s))"

definition bpck_reg_write :: "'m pod_env \<Rightarrow> u8 \<Rightarrow> u8 \<Rightarrow> 'm bpck \<Rightarrow> fault + 'm bpck" where
  "bpck_reg_write E addr val s0 =
     (let s = bpck_attach_drive E (s0\<lparr>tf_regs := (tf_regs s0)(addr := val)\<rparr>) in
      if b_sd s = None \<or> \<not> task_file addr then Inr s
      else if addr = 0x40 then bpck_data_write E val s
      else if addr = 0x47 then Inr (bpck_command val s)
      else Inr (pod_drive (\<lambda>d.
             if addr = 0x41 then d\<lparr>features := val\<rparr>
             else if addr = 0x42 then d\<lparr>ireason := val\<rparr>
             else if addr = 0x44 then d\<lparr>request_length := set_lo8 (request_length d) val\<rparr>
             else if addr = 0x45 then d\<lparr>request_length := set_hi8 (request_length d) val\<rparr>
             else if addr = 0x46 then d\<lparr>drvsel := val\<rparr>
             else d) s))"

definition bpck_device_reset :: "'m pod_env \<Rightarrow> 'm bpck \<Rightarrow> 'm bpck" where
  "bpck_device_reset E s =
     pod_drive (\<lambda>d. (sd_reset E d)\<lparr>unit_attention := True\<rparr>)
       (bpck_attach_drive E
         (s\<lparr>tf_regs := (\<lambda>_. 0)(0xfd := 0xc0, 0x47 := ATA_ST_DRDY OR ATA_ST_DSC, 0x44 := 0x14, 0x45 := 0xeb)\<rparr>))"

text \<open>The callbacks of the two timers, which do not rearm them.\<close>

definition bpck_reset_done :: "'m pod_env \<Rightarrow> 'm bpck \<Rightarrow> 'm bpck" where
  "bpck_reset_done E s = bpck_device_reset E (s\<lparr>reset_timer := None, in_reset := False, reset_abrt := False\<rparr>)"

definition bpck_busy_done :: "'m pod_env \<Rightarrow> 'm bpck \<Rightarrow> fault + 'm bpck" where
  "bpck_busy_done E s =
     (case b_sd s of
        None \<Rightarrow> Inl Null_pointer
      | Some d \<Rightarrow> Inr (bpck_atapi_callback E d (s\<lparr>busy_timer := None\<rparr>)))"

section \<open>The register file\<close>

definition bpck_read_reg :: "'m pod_env \<Rightarrow> u8 \<Rightarrow> 'm bpck \<Rightarrow> fault + (u8 \<times> 'm bpck)" where
  "bpck_read_reg E reg s =
     (if task_file reg then bpck_reg_read E reg s
      else if reg = 0x00 then Inr ((b_regs s reg AND 0x7f) OR (if ee_do s then 0x80 else 0), s)
      else Inr (b_regs s reg, s))"

definition proto_of :: "u8 \<Rightarrow> bpck_proto" where
  "proto_of val =
     (let bits = val AND 0x18 in
      if bits = 0x18 then BPCK_PROTO_EPP else if bits = 0x10 then BPCK_PROTO_PS2 else BPCK_PROTO_SPP)"

definition bpck_write_reg :: "'m pod_env \<Rightarrow> u8 \<Rightarrow> u8 \<Rightarrow> 'm bpck \<Rightarrow> fault + 'm bpck" where
  "bpck_write_reg E reg val s0 =
     (let s = s0\<lparr>b_regs := (b_regs s0)(reg := val)\<rparr> in
      if task_file reg then bpck_reg_write E reg val s
      else if reg = 0x06 then Inr (bpck_ee_write val s)
      else if reg = 0x04 then Inr (s\<lparr>proto := proto_of val\<rparr>)
      else Inr s)"

section \<open>The wire\<close>

definition bpck_encode_nibble :: "u8 \<Rightarrow> u8" where
  "bpck_encode_nibble val = push_bit 3 (val AND 0x07) OR push_bit 4 (val AND 0x08)"

definition bpck_connect_response :: "'m bpck \<Rightarrow> u8" where
  "bpck_connect_response s = (if proto s = BPCK_PROTO_EPP then LPT_STAT_ACK OR LPT_STAT_BUSY else LPT_STAT_ACK)"

definition bpck_ident_response :: "'m bpck \<Rightarrow> u8" where
  "bpck_ident_response s =
     (let id = (if b_ctrl s AND LPT_CTRL_AUTOFD \<noteq> 0 then unit s else NOT (unit s))
      in bpck_connect_response s OR push_bit 3 (id AND 0x07))"

definition bpck_connect :: "'m bpck \<Rightarrow> 'm bpck" where
  "bpck_connect s = s\<lparr>linked := True, knock := 0, ident := True, rd_high := False, rd_out := bpck_connect_response s\<rparr>"

definition bpck_disconnect :: "'m bpck \<Rightarrow> 'm bpck" where
  "bpck_disconnect s =
     (if \<not> linked s then s
      else s\<lparr>linked := False, knock := 0, ident := False, latching := False, rd_out := 0\<rparr>)"

definition bpck_advance_read :: "'m pod_env \<Rightarrow> 'm bpck \<Rightarrow> fault + 'm bpck" where
  "bpck_advance_read E s =
     (if \<not> linked s then Inr s
      else if proto s = BPCK_PROTO_PS2 then
        andThen (bpck_read_reg E (cur_reg s) s) (\<lambda>(v, t). Inr (t\<lparr>rd_out := 0, dat_out := v, lpt_in := v\<rparr>))
      else if rd_high s then Inr (s\<lparr>rd_out := bpck_encode_nibble (drop_bit 4 (rd_val s)), rd_high := False\<rparr>)
      else andThen (bpck_read_reg E (cur_reg s) s) (\<lambda>(v, t).
        Inr (t\<lparr>rd_val := v, rd_out := bpck_encode_nibble (v AND 0x0f), rd_high := True\<rparr>)))"

definition bpck_epp_write_data :: "'m pod_env \<Rightarrow> bool \<Rightarrow> u8 \<Rightarrow> 'm bpck \<Rightarrow> fault + 'm bpck" where
  "bpck_epp_write_data E is_addr val s =
     (if is_addr then Inr (s\<lparr>cur_reg := val, rd_high := False\<rparr>) else bpck_write_reg E (cur_reg s) val s)"

definition bpck_epp_request_read :: "'m pod_env \<Rightarrow> bool \<Rightarrow> 'm bpck \<Rightarrow> fault + 'm bpck" where
  "bpck_epp_request_read E is_addr s =
     andThen (if is_addr then Inr (0xff, s) else bpck_read_reg E (cur_reg s) s) (\<lambda>(v, t).
       Inr (t\<lparr>dat_out := v, lpt_in := v\<rparr>))"

definition bpck_write_data :: "u8 \<Rightarrow> 'm bpck \<Rightarrow> 'm bpck" where
  "bpck_write_data val s = s\<lparr>b_dat := val, knock := 0, lpt_in := val\<rparr>"

text \<open>An edge while an out-of-band register write is open.\<close>

definition latch_edge :: "'m pod_env \<Rightarrow> u8 \<Rightarrow> u8 \<Rightarrow> 'm bpck \<Rightarrow> fault + 'm bpck" where
  "latch_edge E chg lines s =
     andThen (if chg AND LPT_CTRL_AUTOFD \<noteq> 0
              then andThen (bpck_write_reg E (cur_reg s) (b_dat s) s) (\<lambda>t. Inr (t\<lparr>latch_commits := latch_commits t + 1\<rparr>))
              else Inr s) (\<lambda>t.
       if lines AND LPT_CTRL_STROBE = 0 then
         let u = t\<lparr>latching := False\<rparr> in Inr (if latch_commits u = 0 then bpck_disconnect u else u)
       else Inr t)"

text \<open>The connect knock: an edge of SELECT with INIT alone on the other lines.\<close>

definition knock_edge :: "'m bpck \<Rightarrow> 'm bpck" where
  "knock_edge s =
     (if 3 \<le> knock s + 1 then
        let t = s\<lparr>knock := 0\<rparr> in if b_dat t = unit t then bpck_connect t else t
      else s\<lparr>knock := knock s + 1\<rparr>)"

text \<open>The edges of a connected bridge: AUTOFD addresses a register, INIT writes it or reads on.\<close>

definition link_edge :: "'m pod_env \<Rightarrow> u8 \<Rightarrow> u8 \<Rightarrow> 'm bpck \<Rightarrow> fault + 'm bpck" where
  "link_edge E chg lines s =
     (if \<not> linked s then Inr s
      else if chg AND LPT_CTRL_AUTOFD \<noteq> 0 then
        Inr (s\<lparr>cur_reg := b_dat s, rd_high := False, rd_out := bpck_connect_response s\<rparr>)
      else if chg AND LPT_CTRL_INIT \<noteq> 0 then
        (if lines AND LPT_CTRL_STROBE \<noteq> 0 then bpck_write_reg E (cur_reg s) (b_dat s) s else bpck_advance_read E s)
      else Inr s)"

definition bpck_write_ctrl :: "'m pod_env \<Rightarrow> u8 \<Rightarrow> 'm bpck \<Rightarrow> fault + 'm bpck" where
  "bpck_write_ctrl E val s0 =
     (let old = b_ctrl s0;
          chg = (old XOR val) AND LPT_CTRL_LINES;
          lines = val AND LPT_CTRL_LINES;
          s = s0\<lparr>b_ctrl := val\<rparr>
      in if chg = 0 then Inr s
         else if latching s then latch_edge E chg lines s
         else if linked s \<and> lines = LPT_CTRL_STROBE OR LPT_CTRL_SELECT then
           Inr (s\<lparr>latching := True, latch_commits := 0, cur_reg := b_dat s, rd_high := False\<rparr>)
         else if linked s \<and> old AND LPT_CTRL_LINES = LPT_CTRL_AUTOFD \<and> lines AND LPT_CTRL_SELECT \<noteq> 0 then
           Inr (bpck_disconnect s)
         else if ident s then Inr (if chg AND LPT_CTRL_SELECT \<noteq> 0 then s\<lparr>ident := False\<rparr> else s)
         else if lines AND NOT LPT_CTRL_SELECT \<noteq> LPT_CTRL_INIT then link_edge E chg lines (s\<lparr>knock := 0\<rparr>)
         else if chg AND LPT_CTRL_SELECT \<noteq> 0 then Inr (knock_edge s)
         else link_edge E chg lines s)"

definition bpck_read_status :: "'m bpck \<Rightarrow> u8 \<times> 'm bpck" where
  "bpck_read_status s =
     (let ret = (if linked s \<and> ident s then bpck_ident_response s
                 else if linked s then rd_out s
                 else LPT_STAT_IDLE) AND LPT_STAT_MASK
      in (ret, if ret \<noteq> last_status s \<or> linked s then s\<lparr>last_status := ret\<rparr> else s))"

text \<open>\<open>own\<close> is the configured chain address; the port's input register is what it was.\<close>

definition bpck_init :: "u8 \<Rightarrow> u8 \<Rightarrow> 'm bpck" where
  "bpck_init own input =
     \<lparr>lpt_in = input, b_dat = 0, b_ctrl = 0, dat_out = 0, rd_out = 0, last_status = 0, unit = own, linked = False,
      knock = 0, ident = False, latching = False, latch_commits = 0, cur_reg = 0, rd_val = 0, rd_high = False,
      proto = BPCK_PROTO_SPP, b_regs = (\<lambda>_. 0), ee_lines = 0, ee_shift = 0, ee_bits = 0, ee_out = 0,
      ee_reading = False, ee_do = False, ee_data = bpck_ee_default, b_sd = None, b_no_drive = False,
      tf_regs = (\<lambda>_. 0), busy_timer = None, busy_us = 0, busy_pending = False, last_media_ts = 0,
      spinning = False, reset_timer = None, in_reset = False, reset_abrt = False\<rparr>"

end
