(* ===== verification/Bpck_Wire.thy ===== *)
theory Bpck_Wire
  imports Bpck Epat_Service
begin

text \<open>
  The wire of the BackPack bridge. Registers and wire are told apart first: an access to a register
  does the same whatever the state of the wire, so that a protocol is understood by where it reaches
  \<open>bpck_read_reg\<close> and \<open>bpck_write_reg\<close>. Every protocol, from strobes of the control lines to EPP cycles,
  reads and writes the same registers; the locale \<open>register_port\<close> states that of a protocol, and what
  is proved in it holds of all of them.
\<close>


section \<open>Registers and wire\<close>

text \<open>The state apart from the wire: \<open>rewire w s\<close> is \<open>s\<close> with the wire of \<open>w\<close>.\<close>

definition rewire :: "'m bpck \<Rightarrow> 'm bpck \<Rightarrow> 'm bpck" where
  "rewire w s = s\<lparr>lpt_in := lpt_in w, b_dat := b_dat w, b_ctrl := b_ctrl w, dat_out := dat_out w, rd_out := rd_out w,
     last_status := last_status w, linked := linked w, knock := knock w, ident := ident w, latching := latching w,
     latch_commits := latch_commits w, cur_reg := cur_reg w, rd_val := rd_val w, rd_high := rd_high w\<rparr>"

definition same_core :: "'m bpck \<Rightarrow> 'm bpck \<Rightarrow> bool" where
  "same_core s t \<longleftrightarrow> t = rewire t s"

lemma rewire_core [simp]:
  "b_regs (rewire w s) = b_regs s" "ee_lines (rewire w s) = ee_lines s" "ee_shift (rewire w s) = ee_shift s"
  "ee_bits (rewire w s) = ee_bits s" "ee_out (rewire w s) = ee_out s" "ee_reading (rewire w s) = ee_reading s"
  "ee_do (rewire w s) = ee_do s" "ee_data (rewire w s) = ee_data s" "b_sd (rewire w s) = b_sd s"
  "b_no_drive (rewire w s) = b_no_drive s" "tf_regs (rewire w s) = tf_regs s" "busy_us (rewire w s) = busy_us s"
  "busy_pending (rewire w s) = busy_pending s" "last_media_ts (rewire w s) = last_media_ts s"
  "spinning (rewire w s) = spinning s" "in_reset (rewire w s) = in_reset s" "reset_abrt (rewire w s) = reset_abrt s"
  "proto (rewire w s) = proto s" "unit (rewire w s) = unit s"
  by (simp_all add: rewire_def)

lemma rewire_wire [simp]:
  "lpt_in (rewire w s) = lpt_in w" "b_dat (rewire w s) = b_dat w" "b_ctrl (rewire w s) = b_ctrl w"
  "rd_out (rewire w s) = rd_out w" "linked (rewire w s) = linked w" "knock (rewire w s) = knock w"
  "ident (rewire w s) = ident w" "latching (rewire w s) = latching w" "latch_commits (rewire w s) = latch_commits w"
  "cur_reg (rewire w s) = cur_reg w" "rd_val (rewire w s) = rd_val w" "rd_high (rewire w s) = rd_high w"
  by (simp_all add: rewire_def)

lemma rewire_upd:
  "(rewire w s)\<lparr>b_sd := d\<rparr> = rewire w (s\<lparr>b_sd := d\<rparr>)" "(rewire w s)\<lparr>busy_pending := p\<rparr> = rewire w (s\<lparr>busy_pending := p\<rparr>)"
  "(rewire w s)\<lparr>b_no_drive := p\<rparr> = rewire w (s\<lparr>b_no_drive := p\<rparr>)" "(rewire w s)\<lparr>tf_regs := g\<rparr> = rewire w (s\<lparr>tf_regs := g\<rparr>)"
  "(rewire w s)\<lparr>b_regs := g\<rparr> = rewire w (s\<lparr>b_regs := g\<rparr>)" "(rewire w s)\<lparr>proto := q\<rparr> = rewire w (s\<lparr>proto := q\<rparr>)"
  "(rewire w s)\<lparr>spinning := p\<rparr> = rewire w (s\<lparr>spinning := p\<rparr>)" "(rewire w s)\<lparr>last_media_ts := x\<rparr> = rewire w (s\<lparr>last_media_ts := x\<rparr>)"
  "(rewire w s)\<lparr>busy_timer := y\<rparr> = rewire w (s\<lparr>busy_timer := y\<rparr>)" "(rewire w s)\<lparr>reset_abrt := p\<rparr> = rewire w (s\<lparr>reset_abrt := p\<rparr>)"
  "(rewire w s)\<lparr>ee_lines := a\<rparr> = rewire w (s\<lparr>ee_lines := a\<rparr>)" "(rewire w s)\<lparr>ee_shift := b\<rparr> = rewire w (s\<lparr>ee_shift := b\<rparr>)"
  "(rewire w s)\<lparr>ee_bits := c\<rparr> = rewire w (s\<lparr>ee_bits := c\<rparr>)" "(rewire w s)\<lparr>ee_out := b\<rparr> = rewire w (s\<lparr>ee_out := b\<rparr>)"
  "(rewire w s)\<lparr>ee_reading := p\<rparr> = rewire w (s\<lparr>ee_reading := p\<rparr>)" "(rewire w s)\<lparr>ee_do := p\<rparr> = rewire w (s\<lparr>ee_do := p\<rparr>)"
  by (simp_all add: rewire_def)

lemma rewire_rewire [simp]: "rewire v (rewire w s) = rewire v s" "rewire (rewire w u) s = rewire w s"
  by (simp_all add: rewire_def)

lemma rewire_self [simp]: "rewire s s = s"
  by (simp add: rewire_def)

lemma same_coreI: "same_core s (rewire w s)"
  by (simp add: same_core_def)

subsection \<open>Registers do not look at the wire\<close>

lemma pod_drive_rewire: "pod_drive f (rewire w s) = rewire w (pod_drive f s)"
  by (simp add: pod_drive_def rewire_upd)

lemma busy_window_rewire: "busy_window E (rewire w s) = rewire w (busy_window E s)"
  unfolding busy_window_def Let_def by (simp only: pod_drive_rewire rewire_upd rewire_core)

lemma phase_rewire: "bpck_callback_phase E d (rewire w s) = rewire w (bpck_callback_phase E d s)"
  unfolding bpck_callback_phase_def Let_def
  by (simp only: busy_window_rewire rewire_upd rewire_core if_distrib [of "rewire w"])

lemma callback_rewire: "bpck_atapi_callback E d (rewire w s) = rewire w (bpck_atapi_callback E d s)"
  unfolding bpck_atapi_callback_def Let_def by (simp only: phase_rewire rewire_upd if_distrib [of "rewire w"])

lemma pio_rewire: "bpck_pio_request E out d (rewire w s) = rewire w (bpck_pio_request E out d s)"
  unfolding bpck_pio_request_def Let_def
  by (simp only: callback_rewire pod_drive_rewire rewire_upd if_distrib [of "rewire w"])

abbreviation on_state :: "('s \<Rightarrow> 't) \<Rightarrow> 'e + 'b \<times> 's \<Rightarrow> 'e + 'b \<times> 't" where
  "on_state f \<equiv> map_sum id (map_prod id f)"

lemma andThen_map: "map_sum id f (andThen m g) = andThen m (\<lambda>x. map_sum id f (g x))"
  by (cases m) simp_all

lemma andThen_eqI: "(\<And>x. m = Inr x \<Longrightarrow> f x = g x) \<Longrightarrow> andThen m f = andThen m g"
  by (cases m) simp_all

lemma data_read_rewire: "bpck_data_read E (rewire w s) = on_state (rewire w) (bpck_data_read E s)"
  by (auto simp: bpck_data_read_def Let_def pio_rewire rewire_upd andThen_map intro!: andThen_eqI split: option.split)

lemma data_write_rewire: "bpck_data_write E v (rewire w s) = map_sum id (rewire w) (bpck_data_write E v s)"
  by (auto simp: bpck_data_write_def Let_def pio_rewire callback_rewire rewire_upd andThen_map intro!: andThen_eqI split: option.split)

lemma attach_rewire: "bpck_attach_drive E (rewire w s) = rewire w (bpck_attach_drive E s)"
  by (simp add: bpck_attach_drive_def rewire_upd split: option.split)

lemma reg_read_rewire: "bpck_read_reg E r (rewire w s) = on_state (rewire w) (bpck_read_reg E r s)"
  by (auto simp: bpck_read_reg_def bpck_reg_read_def Let_def attach_rewire data_read_rewire split: option.split)

lemma reg_write_rewire: "bpck_write_reg E r v (rewire w s) = map_sum id (rewire w) (bpck_write_reg E r v s)"
  by (auto simp: bpck_write_reg_def bpck_reg_write_def bpck_command_def bpck_ee_write_def Let_def attach_rewire
      data_write_rewire rewire_upd pod_drive_rewire)

section \<open>The host\<close>

text \<open>The steps the vendor's driver takes, as the documentation of the bridge records them (\<open>README.md\<close> of
  the driver directory, "The full working recipe"): the host carries the control byte along.\<close>

definition w2 :: "'m pod_env \<Rightarrow> (u8 \<Rightarrow> u8) \<Rightarrow> 'm bpck \<Rightarrow> fault + 'm bpck" where
  "w2 E f s = bpck_write_ctrl E (f (b_ctrl s)) s"

definition settle :: "'m pod_env \<Rightarrow> 'm bpck \<Rightarrow> fault + 'm bpck" where
  "settle E = pushes (w2 E) (replicate 5 (\<lambda>c. c AND 0xfe))"

definition host_address :: "'m pod_env \<Rightarrow> u8 \<Rightarrow> 'm bpck \<Rightarrow> fault + 'm bpck" where
  "host_address E r s = w2 E (\<lambda>c. (c OR 0x01) XOR 0x02) (bpck_write_data r s)"

definition host_write :: "'m pod_env \<Rightarrow> u8 \<Rightarrow> u8 \<Rightarrow> 'm bpck \<Rightarrow> fault + 'm bpck" where
  "host_write E r v s =
     andThen (host_address E r s) (\<lambda>s1.
     andThen (w2 E (\<lambda>c. c OR 0x01) (bpck_write_data v s1)) (\<lambda>s2.
     andThen (w2 E (\<lambda>c. c XOR 0x04) s2) (settle E)))"

definition decode_nibble :: "u8 \<Rightarrow> u8" where
  "decode_nibble st = (drop_bit 3 st AND 0x07) OR (drop_bit 4 st AND 0x08)"

definition host_read :: "'m pod_env \<Rightarrow> u8 \<Rightarrow> 'm bpck \<Rightarrow> fault + (u8 \<times> 'm bpck)" where
  "host_read E r s =
     andThen (host_address E r s) (\<lambda>s1.
     andThen (settle E s1) (\<lambda>s2.
     andThen (w2 E (\<lambda>c. c XOR 0x04) s2) (\<lambda>s3.
     let (lo, s4) = bpck_read_status s3 in
     andThen (w2 E (\<lambda>c. c XOR 0x04) s4) (\<lambda>s5.
     let (hi, s6) = bpck_read_status s5 in
     Inr (decode_nibble lo OR push_bit 4 (decode_nibble hi), s6)))))"

text \<open>The byte mode, in which one edge puts the byte on the data lines, and EPP cycles.\<close>

definition host_read_byte :: "'m pod_env \<Rightarrow> u8 \<Rightarrow> 'm bpck \<Rightarrow> fault + (u8 \<times> 'm bpck)" where
  "host_read_byte E r s =
     andThen (host_address E r s) (\<lambda>s1.
     andThen (settle E s1) (\<lambda>s2.
     andThen (w2 E (\<lambda>c. c XOR 0x04) s2) (\<lambda>s3. Inr (lpt_in s3, s3))))"

definition epp_read :: "'m pod_env \<Rightarrow> u8 \<Rightarrow> 'm bpck \<Rightarrow> fault + (u8 \<times> 'm bpck)" where
  "epp_read E r s =
     andThen (bpck_epp_write_data E True r s) (\<lambda>s1.
     andThen (bpck_epp_request_read E False s1) (\<lambda>s2. Inr (lpt_in s2, s2)))"

definition epp_write :: "'m pod_env \<Rightarrow> u8 \<Rightarrow> u8 \<Rightarrow> 'm bpck \<Rightarrow> fault + 'm bpck" where
  "epp_write E r v s = andThen (bpck_epp_write_data E True r s) (bpck_epp_write_data E False v)"

text \<open>The out-of-band write: SELECT with STROBE latches the number, an AUTOFD edge commits the data.\<close>

definition latch_write :: "'m pod_env \<Rightarrow> u8 \<Rightarrow> u8 \<Rightarrow> 'm bpck \<Rightarrow> fault + 'm bpck" where
  "latch_write E r v s =
     andThen (bpck_write_ctrl E 0x09 (bpck_write_data r s)) (\<lambda>s1.
     andThen (bpck_write_ctrl E 0x0b (bpck_write_data v s1)) (\<lambda>s2.
     andThen (bpck_write_ctrl E 0x0a s2) (bpck_write_ctrl E 0x02)))"

text \<open>Connected, SELECT and STROBE low and nothing under way.\<close>

definition in_touch :: "'m bpck \<Rightarrow> bool" where
  "in_touch s \<longleftrightarrow> linked s \<and> \<not> latching s \<and> \<not> ident s \<and> knock s = 0 \<and> \<not> bit (b_ctrl s) 3 \<and> \<not> bit (b_ctrl s) 0"

section \<open>Steps on the wire\<close>

lemma line_bits: "w AND 0x01 = 0 \<longleftrightarrow> \<not> bit w 0" "w AND 0x02 = 0 \<longleftrightarrow> \<not> bit w 1" "w AND 0x04 = 0 \<longleftrightarrow> \<not> bit w 2"
    "w AND 0x08 = 0 \<longleftrightarrow> \<not> bit w 3" for w :: u8
  using and_exp_eq_0_iff_not_bit [of w 0] and_exp_eq_0_iff_not_bit [of w 1]
    and_exp_eq_0_iff_not_bit [of w 2] and_exp_eq_0_iff_not_bit [of w 3] by simp_all

lemma bit_01: "bit (0x01 :: u8) n \<longleftrightarrow> n = 0" "bit (0x02 :: u8) n \<longleftrightarrow> n = 1" "bit (0x04 :: u8) n \<longleftrightarrow> n = 2" "bit (0x08 :: u8) n \<longleftrightarrow> n = 3"
  using bit_exp_iff [where 'a = "8 word", of 0 n] bit_exp_iff [where 'a = "8 word", of 1 n]
    bit_exp_iff [where 'a = "8 word", of 2 n] bit_exp_iff [where 'a = "8 word", of 3 n] by auto

lemma lines_bits:
  "bit ((a XOR v) AND 0x0f :: u8) n \<longleftrightarrow> n < 4 \<and> bit a n \<noteq> bit v n" "bit (v AND 0x0f :: u8) n \<longleftrightarrow> n < 4 \<and> bit v n"
  by (auto simp only: bit_and_iff bit_xor_iff bit_0f)

text \<open>With SELECT low before and after, an edge either addresses, or moves a byte, or does nothing.\<close>

lemma edge:
  assumes "linked s" "\<not> latching s" "\<not> ident s" "knock s = 0" "\<not> bit (b_ctrl s) 3" "\<not> bit v 3"
  shows "bpck_write_ctrl E v s =
     (let t = s\<lparr>b_ctrl := v\<rparr> in
      if bit (b_ctrl s) 1 \<noteq> bit v 1 then Inr (t\<lparr>cur_reg := b_dat t, rd_high := False, rd_out := bpck_connect_response t\<rparr>)
      else if bit (b_ctrl s) 2 \<noteq> bit v 2 then
        (if bit v 0 then bpck_write_reg E (cur_reg t) (b_dat t) t else bpck_advance_read E t)
      else Inr t)"
proof -
  let ?chg = "(b_ctrl s XOR v) AND 0x0f" and ?lines = "v AND 0x0f"
  have c: "?chg AND 0x02 = 0 \<longleftrightarrow> bit (b_ctrl s) 1 = bit v 1" "?chg AND 0x04 = 0 \<longleftrightarrow> bit (b_ctrl s) 2 = bit v 2"
      "?chg AND 0x08 = 0" "?lines AND 0x01 = 0 \<longleftrightarrow> \<not> bit v 0" "?lines AND 0x08 = 0"
    unfolding line_bits lines_bits using assms(5,6) by (auto simp: bit_xor_iff)
  have n: "?lines \<noteq> 9"
  proof
    assume "?lines = 9"
    then have "bit ?lines 3 = bit (9 :: u8) 3" by simp
    then show False using assms(6) unfolding lines_bits by simp
  qed
  define t where "t = s\<lparr>b_ctrl := v\<rparr>"
  have t: "linked t" "\<not> latching t" "\<not> ident t" "t\<lparr>knock := 0\<rparr> = t" using assms(1-4) by (simp_all add: t_def)
  have "bpck_write_ctrl E v s = (if ?chg = 0 then Inr t else link_edge E ?chg ?lines t)"
    unfolding bpck_write_ctrl_def Let_def t_def [symmetric] by (simp add: t n c(3,5))
  moreover have "?chg = 0 \<Longrightarrow> bit (b_ctrl s) 1 = bit v 1 \<and> bit (b_ctrl s) 2 = bit v 2" using c(1,2) by simp
  ultimately show ?thesis unfolding Let_def t_def [symmetric] link_edge_def by (simp only: c t if_True if_False simp_thms) (simp split: if_splits)
qed

definition link_ok :: "'m bpck \<Rightarrow> bool" where
  "link_ok s \<longleftrightarrow> linked s \<and> \<not> latching s \<and> \<not> ident s \<and> knock s = 0 \<and> \<not> bit (b_ctrl s) 3"

lemma link_ok_rewire [simp]: "link_ok (rewire w s) = link_ok w"
  by (simp add: link_ok_def)

lemma in_touch_link: "in_touch s \<longleftrightarrow> link_ok s \<and> \<not> bit (b_ctrl s) 0"
  by (auto simp: in_touch_def link_ok_def)

lemma edge_cases:
  assumes "link_ok s" "\<not> bit v 3"
  shows edge_address: "bit (b_ctrl s) 1 \<noteq> bit v 1 \<Longrightarrow> bpck_write_ctrl E v s =
        Inr (s\<lparr>b_ctrl := v, cur_reg := b_dat s, rd_high := False, rd_out := bpck_connect_response s\<rparr>)"
    and edge_none: "bit (b_ctrl s) 1 = bit v 1 \<Longrightarrow> bit (b_ctrl s) 2 = bit v 2 \<Longrightarrow> bpck_write_ctrl E v s = Inr (s\<lparr>b_ctrl := v\<rparr>)"
    and edge_write: "bit (b_ctrl s) 1 = bit v 1 \<Longrightarrow> bit (b_ctrl s) 2 \<noteq> bit v 2 \<Longrightarrow> bit v 0 \<Longrightarrow>
        bpck_write_ctrl E v s = bpck_write_reg E (cur_reg s) (b_dat s) (s\<lparr>b_ctrl := v\<rparr>)"
    and edge_read: "bit (b_ctrl s) 1 = bit v 1 \<Longrightarrow> bit (b_ctrl s) 2 \<noteq> bit v 2 \<Longrightarrow> \<not> bit v 0 \<Longrightarrow>
        bpck_write_ctrl E v s = bpck_advance_read E (s\<lparr>b_ctrl := v\<rparr>)"
  using edge [of s v E] assms by (simp_all add: link_ok_def bpck_connect_response_def)

lemma bit_fe: "bit (0xfe :: u8) n \<longleftrightarrow> 0 < n \<and> n < 8"
proof -
  have eq: "(0xfe :: u8) = push_bit 1 (mask 7)" by (simp add: mask_eq_exp_minus_1)
  show ?thesis unfolding eq by (simp only: bit_push_bit_iff bit_mask_iff) auto
qed

lemmas ctrl_bits = bit_and_iff bit_or_iff bit_xor_iff bit_01 bit_fe

lemma settles:
  assumes "link_ok s" shows "settle E s = Inr (s\<lparr>b_ctrl := b_ctrl s AND 0xfe\<rparr>)"
proof -
  have e: "w2 E (\<lambda>c. c AND 0xfe) t = Inr (t\<lparr>b_ctrl := b_ctrl t AND 0xfe\<rparr>)" if "link_ok t" for t
    unfolding w2_def by (rule edge_none [OF that]) (use that in \<open>auto simp: ctrl_bits link_ok_def\<close>)
  have k: "link_ok (s\<lparr>b_ctrl := b_ctrl s AND 0xfe\<rparr>)" using assms by (simp add: link_ok_def ctrl_bits)
  have "(b_ctrl s AND 0xfe) AND 0xfe = b_ctrl s AND (0xfe :: u8)" by (simp only: and.assoc and.idem)
  then show ?thesis using e [OF assms] e [OF k] by (simp add: settle_def numeral_eq_Suc)
qed

lemma addresses:
  assumes "in_touch s"
  obtains t where "host_address E r s = Inr t" "same_core s t" "link_ok t" "cur_reg t = r" "\<not> rd_high t" "bit (b_ctrl t) 0"
proof -
  let ?s = "bpck_write_data r s" and ?v = "(b_ctrl s OR 0x01) XOR 0x02"
  have "link_ok ?s" "\<not> bit ?v 3" "bit (b_ctrl ?s) 1 \<noteq> bit ?v 1"
    using assms by (auto simp: in_touch_def link_ok_def bpck_write_data_def ctrl_bits)
  then have "host_address E r s = Inr (?s\<lparr>b_ctrl := ?v, cur_reg := r, rd_high := False, rd_out := bpck_connect_response ?s\<rparr>)"
    using edge_address [of ?s ?v E] by (simp add: host_address_def w2_def bpck_write_data_def)
  then show ?thesis
    by (rule that) (use assms in \<open>auto simp: in_touch_def link_ok_def same_core_def rewire_def bpck_write_data_def ctrl_bits\<close>)
qed

lemma same_core_trans: "same_core s t \<Longrightarrow> same_core t u \<Longrightarrow> same_core s u"
  unfolding same_core_def by (metis rewire_rewire(1))

lemma same_core_upd [simp]:
  "same_core s (t\<lparr>b_ctrl := c\<rparr>) = same_core s t" "same_core s (t\<lparr>rd_high := h\<rparr>) = same_core s t"
  "same_core s (t\<lparr>rd_out := v\<rparr>) = same_core s t" "same_core s (t\<lparr>rd_val := v\<rparr>) = same_core s t"
  "same_core s (t\<lparr>last_status := v\<rparr>) = same_core s t" "same_core s (t\<lparr>lpt_in := v\<rparr>) = same_core s t"
  "same_core s (t\<lparr>dat_out := v\<rparr>) = same_core s t" "same_core s (t\<lparr>b_dat := v\<rparr>) = same_core s t"
  "same_core s (t\<lparr>cur_reg := v\<rparr>) = same_core s t" "same_core s (t\<lparr>latching := h\<rparr>) = same_core s t"
  "same_core s (t\<lparr>latch_commits := n\<rparr>) = same_core s t" "same_core s (t\<lparr>knock := n\<rparr>) = same_core s t"
  "same_core s (t\<lparr>ident := h\<rparr>) = same_core s t" "same_core s (t\<lparr>linked := h\<rparr>) = same_core s t"
  by (cases s; cases t; auto simp: same_core_def rewire_def)+

lemma same_core_rewire [simp]: "same_core u (rewire t u)"
  by (simp add: same_core_def)

lemma core_read:
  assumes "bpck_read_reg E r s = Inr (v, u)" "same_core s t"
  shows "bpck_read_reg E r t = Inr (v, rewire t u)"
  using reg_read_rewire [of E r t s] assms by (simp add: same_core_def)

lemma core_write:
  assumes "bpck_write_reg E r v s = Inr u" "same_core s t"
  shows "bpck_write_reg E r v t = Inr (rewire t u)"
  using reg_write_rewire [of E r v t s] assms by (simp add: same_core_def)

lemma callback_proto [simp]:
  "proto (bpck_atapi_callback E d s) = proto s" "proto (bpck_pio_request E out d s) = proto s"
  by (simp_all add: bpck_atapi_callback_def bpck_callback_phase_def bpck_pio_request_def busy_window_def pod_drive_def Let_def)

lemma read_reg_proto: "bpck_read_reg E r s = Inr (v, u) \<Longrightarrow> proto u = proto s"
  by (auto simp: bpck_read_reg_def bpck_reg_read_def bpck_data_read_def bpck_attach_drive_def Let_def andThen_Inr
      split: if_splits option.splits)

section \<open>The four ways to a register\<close>

lemma bit_07: "bit (0x07 :: u8) n \<longleftrightarrow> n < 3" "bit (0xf8 :: u8) n \<longleftrightarrow> 3 \<le> n \<and> n < 8"
proof -
  have eq: "(0x07 :: u8) = mask 3" "(0xf8 :: u8) = push_bit 3 (mask 5)" by (simp_all add: mask_eq_exp_minus_1)
  show "bit (0x07 :: u8) n \<longleftrightarrow> n < 3" "bit (0xf8 :: u8) n \<longleftrightarrow> 3 \<le> n \<and> n < 8"
    unfolding eq by (simp_all only: bit_push_bit_iff bit_mask_iff) auto
qed

lemma nibble_back: "decode_nibble (bpck_encode_nibble v AND 0xf8) = v AND 0x0f"
  unfolding decode_nibble_def bpck_encode_nibble_def
  by (rule bit_word_eqI, simp only: nibble_bits bit_07 bit_01) (auto simp: less_Suc_eq numeral_eq_Suc)

lemma byte_back: "v AND 0x0f OR push_bit 4 (drop_bit 4 v) AND 0xf0 = (v :: u8)"
  by (rule bit_word_eqI, simp only: nibble_bits) (auto simp: add.commute)

lemma every_write:
  assumes "in_touch s" "bpck_write_reg E r v s = Inr u"
  shows "(\<exists>t. host_write E r v s = Inr t \<and> in_touch t \<and> same_core u t) \<and>
     (\<exists>t. latch_write E r v s = Inr t \<and> in_touch t \<and> same_core u t) \<and>
     (\<exists>t. epp_write E r v s = Inr t \<and> in_touch t \<and> same_core u t)"
proof (intro conjI)
  obtain s1 where s1: "host_address E r s = Inr s1" "same_core s s1" "link_ok s1" "cur_reg s1 = r" "bit (b_ctrl s1) 0"
    by (rule addresses [OF assms(1)]) blast
  let ?s2 = "(bpck_write_data v s1)\<lparr>b_ctrl := b_ctrl s1 OR 0x01\<rparr>"
  have s2: "w2 E (\<lambda>c. c OR 0x01) (bpck_write_data v s1) = Inr ?s2"
    using s1(3) edge_none [of "bpck_write_data v s1" "b_ctrl s1 OR 0x01" E]
    by (simp add: w2_def bpck_write_data_def link_ok_def ctrl_bits)
  let ?s3 = "?s2\<lparr>b_ctrl := b_ctrl ?s2 XOR 0x04\<rparr>"
  have k2: "link_ok ?s2" "cur_reg ?s2 = r" "b_dat ?s2 = v" "\<not> bit (b_ctrl ?s3) 3"
    using s1(3,4) by (simp_all add: link_ok_def bpck_write_data_def ctrl_bits)
  have "same_core s ?s3" using s1(2) by (simp add: bpck_write_data_def)
  then have s3: "w2 E (\<lambda>c. c XOR 0x04) ?s2 = Inr (rewire ?s3 u)"
    using edge_write [of ?s2 "b_ctrl ?s2 XOR 0x04" E] core_write [OF assms(2)] k2
    by (simp add: w2_def ctrl_bits)
  have "link_ok ?s3" using k2(1,4) by (simp add: link_ok_def)
  then have "settle E (rewire ?s3 u) = Inr ((rewire ?s3 u)\<lparr>b_ctrl := b_ctrl ?s3 AND 0xfe\<rparr>)" using settles [of "rewire ?s3 u" E] by simp
  then show "\<exists>t. host_write E r v s = Inr t \<and> in_touch t \<and> same_core u t"
    using \<open>link_ok ?s3\<close> unfolding host_write_def s1(1) s2 s3 andThen_simps by (auto simp: in_touch_link link_ok_def ctrl_bits)
next
  let ?s1 = "(bpck_write_data r s)\<lparr>b_ctrl := 0x09, latching := True, latch_commits := 0, cur_reg := r, rd_high := False\<rparr>"
  have b9: "bit ((b_ctrl s XOR 0x09) AND 0x0f) 3" using assms(1) unfolding lines_bits by (simp add: in_touch_def bit_xor_iff)
  then have "(b_ctrl s XOR 0x09) AND 0x0f \<noteq> 0" by (metis bit_0_eq bot_apply bot_bool_def)
  then have s1: "bpck_write_ctrl E 0x09 (bpck_write_data r s) = Inr ?s1"
    using assms(1) by (simp add: bpck_write_ctrl_def bpck_write_data_def in_touch_def Let_def)
  let ?w = "(bpck_write_data v ?s1)\<lparr>b_ctrl := 0x0b\<rparr>"
  have "same_core s ?w" by (simp add: bpck_write_data_def same_core_def rewire_def)
  then have "bpck_write_reg E r v ?w = Inr (rewire ?w u)" by (rule core_write [OF assms(2)])
  then have s2: "bpck_write_ctrl E 0x0b (bpck_write_data v ?s1) = Inr ((rewire ?w u)\<lparr>latch_commits := 1\<rparr>)"
    by (simp add: bpck_write_ctrl_def latch_edge_def bpck_write_data_def Let_def)
  have s3: "bpck_write_ctrl E 0x0a ((rewire ?w u)\<lparr>latch_commits := 1\<rparr>) =
      Inr ((rewire ?w u)\<lparr>b_ctrl := 0x0a, latching := False, latch_commits := 1\<rparr>)"
    by (simp add: bpck_write_ctrl_def latch_edge_def bpck_write_data_def Let_def)
  have s4: "bpck_write_ctrl E 0x02 ((rewire ?w u)\<lparr>b_ctrl := 0x0a, latching := False, latch_commits := 1\<rparr>) =
      Inr ((rewire ?w u)\<lparr>b_ctrl := 0x02, latching := False, latch_commits := 1, knock := 0\<rparr>)"
    using assms(1) by (simp add: bpck_write_ctrl_def link_edge_def bpck_write_data_def in_touch_def Let_def)
  show "\<exists>t. latch_write E r v s = Inr t \<and> in_touch t \<and> same_core u t"
    unfolding latch_write_def s1 s2 s3 s4 andThen_simps using assms(1) by (simp add: in_touch_def bpck_write_data_def)
next
  let ?t = "s\<lparr>cur_reg := r, rd_high := False\<rparr>"
  have "bpck_write_reg E r v ?t = Inr (rewire ?t u)" by (rule core_write [OF assms(2)]) (simp add: same_core_def rewire_def)
  then show "\<exists>t. epp_write E r v s = Inr t \<and> in_touch t \<and> same_core u t"
    using assms(1) by (simp add: epp_write_def bpck_epp_write_data_def in_touch_def)
qed

text \<open>Every way to write a register writes it the same: with the bridge connected and at rest, the
  host's strobes, an out-of-band write and an EPP write leave registers, EEPROM and drive as
  \<open>bpck_write_reg\<close> leaves them, and the bridge at rest.\<close>

theorem write_protocols_agree:
  assumes "in_touch s" "bpck_write_reg E r v s = Inr u"
  shows "(\<exists>t. host_write E r v s = Inr t \<and> in_touch t \<and> same_core u t) \<and>
     (\<exists>t. latch_write E r v s = Inr t \<and> in_touch t \<and> same_core u t) \<and>
     (\<exists>t. epp_write E r v s = Inr t \<and> in_touch t \<and> same_core u t)"
  using every_write [OF assms] .

lemma addressed_settled:
  assumes "in_touch s"
  obtains s1 s2 where "host_address E r s = Inr s1" "settle E s1 = Inr s2" "same_core s s2" "in_touch s2" "cur_reg s2 = r" "\<not> rd_high s2"
proof -
  obtain s1 where s1: "host_address E r s = Inr s1" "same_core s s1" "link_ok s1" "cur_reg s1 = r" "\<not> rd_high s1"
    by (rule addresses [OF assms]) blast
  show ?thesis
    by (rule that [OF s1(1) settles [OF s1(3)]]) (use s1 in \<open>simp_all add: in_touch_link link_ok_def ctrl_bits\<close>)
qed

lemma toggles:
  assumes "in_touch s" shows "w2 E (\<lambda>c. c XOR 0x04) s = bpck_advance_read E (s\<lparr>b_ctrl := b_ctrl s XOR 0x04\<rparr>)"
    and "in_touch (s\<lparr>b_ctrl := b_ctrl s XOR 0x04\<rparr>)"
  using assms edge_read [of s "b_ctrl s XOR 0x04" E] by (simp_all add: w2_def in_touch_link link_ok_def ctrl_bits)

lemma status_linked:
  assumes "in_touch s" shows "bpck_read_status s = (rd_out s AND 0xf8, s\<lparr>last_status := rd_out s AND 0xf8\<rparr>)"
  using assms by (simp add: bpck_read_status_def in_touch_def Let_def)

lemma in_touch_upd [simp]:
  "in_touch (rewire w u) = in_touch w" "in_touch (s\<lparr>rd_val := v\<rparr>) = in_touch s" "in_touch (s\<lparr>rd_out := v\<rparr>) = in_touch s"
  "in_touch (s\<lparr>rd_high := h\<rparr>) = in_touch s" "in_touch (s\<lparr>last_status := v\<rparr>) = in_touch s"
  "in_touch (s\<lparr>dat_out := v\<rparr>) = in_touch s" "in_touch (s\<lparr>lpt_in := v\<rparr>) = in_touch s" "in_touch (s\<lparr>cur_reg := v\<rparr>) = in_touch s"
  by (simp_all add: in_touch_def)

lemma every_read:
  assumes "in_touch s" "bpck_read_reg E r s = Inr (v, u)"
  shows "(proto s \<noteq> BPCK_PROTO_PS2 \<longrightarrow> (\<exists>t. host_read E r s = Inr (v, t) \<and> in_touch t \<and> same_core u t)) \<and>
     (proto s = BPCK_PROTO_PS2 \<longrightarrow> (\<exists>t. host_read_byte E r s = Inr (v, t) \<and> in_touch t \<and> same_core u t)) \<and>
     (\<exists>t. epp_read E r s = Inr (v, t) \<and> in_touch t \<and> same_core u t)"
proof (intro conjI impI)
  assume p: "proto s \<noteq> BPCK_PROTO_PS2"
  obtain s1 s2 where s2: "host_address E r s = Inr s1" "settle E s1 = Inr s2" "same_core s s2" "in_touch s2" "cur_reg s2 = r" "\<not> rd_high s2"
    by (rule addressed_settled [OF assms(1)])
  let ?s = "s2\<lparr>b_ctrl := b_ctrl s2 XOR 0x04\<rparr>"
  let ?s3 = "(rewire ?s u)\<lparr>rd_val := v, rd_out := bpck_encode_nibble (v AND 0x0f), rd_high := True\<rparr>"
  have q: "proto s2 \<noteq> BPCK_PROTO_PS2" "proto u \<noteq> BPCK_PROTO_PS2"
    using p s2(3) read_reg_proto [OF assms(2)] by (auto simp: same_core_def) (metis rewire_core(18))+
  have "bpck_read_reg E r ?s = Inr (v, rewire ?s u)" by (rule core_read [OF assms(2)]) (simp add: s2(3))
  then have s3: "w2 E (\<lambda>c. c XOR 0x04) s2 = Inr ?s3"
    using toggles(1) [OF s2(4), of E] q(1) s2(4-6) by (simp add: bpck_advance_read_def in_touch_def)
  have k: "in_touch ?s3" using toggles(2) [OF s2(4)] by simp
  let ?s4 = "?s3\<lparr>last_status := rd_out ?s3 AND 0xf8\<rparr>"
  let ?s5 = "?s4\<lparr>b_ctrl := b_ctrl ?s4 XOR 0x04, rd_out := bpck_encode_nibble (drop_bit 4 v), rd_high := False\<rparr>"
  have k4: "in_touch ?s4" using k by simp
  have s5: "w2 E (\<lambda>c. c XOR 0x04) ?s4 = Inr ?s5"
    using toggles(1) [OF k4, of E] k4 q(2) by (simp add: bpck_advance_read_def in_touch_def)
  have k5: "in_touch ?s5" using toggles(2) [OF k4] by (simp add: in_touch_def)
  have "host_read E r s = Inr (v, ?s5\<lparr>last_status := rd_out ?s5 AND 0xf8\<rparr>)"
    unfolding host_read_def s2(1,2) andThen_simps s3 status_linked [OF k] Let_def prod.case s5 status_linked [OF k5]
    by (simp add: nibble_back byte_back)
  then show "\<exists>t. host_read E r s = Inr (v, t) \<and> in_touch t \<and> same_core u t" using k5 by (simp add: in_touch_def)
next
  assume p: "proto s = BPCK_PROTO_PS2"
  obtain s1 s2 where s2: "host_address E r s = Inr s1" "settle E s1 = Inr s2" "same_core s s2" "in_touch s2" "cur_reg s2 = r"
    by (rule addressed_settled [OF assms(1)])
  let ?s = "s2\<lparr>b_ctrl := b_ctrl s2 XOR 0x04\<rparr>"
  have q: "proto s2 = BPCK_PROTO_PS2" using p s2(3) by (auto simp: same_core_def) (metis rewire_core(18))
  have "bpck_read_reg E r ?s = Inr (v, rewire ?s u)" by (rule core_read [OF assms(2)]) (simp add: s2(3))
  then have "w2 E (\<lambda>c. c XOR 0x04) s2 = Inr ((rewire ?s u)\<lparr>rd_out := 0, dat_out := v, lpt_in := v\<rparr>)"
    using toggles(1) [OF s2(4), of E] q s2(4,5) by (simp add: bpck_advance_read_def in_touch_def)
  then show "\<exists>t. host_read_byte E r s = Inr (v, t) \<and> in_touch t \<and> same_core u t"
    using toggles(2) [OF s2(4)] unfolding host_read_byte_def s2(1,2) andThen_simps by simp
next
  let ?t = "s\<lparr>cur_reg := r, rd_high := False\<rparr>"
  have "bpck_read_reg E r ?t = Inr (v, rewire ?t u)" by (rule core_read [OF assms(2)]) (simp add: same_core_def rewire_def)
  then show "\<exists>t. epp_read E r s = Inr (v, t) \<and> in_touch t \<and> same_core u t"
    using assms(1) by (simp add: epp_read_def bpck_epp_write_data_def bpck_epp_request_read_def)
qed

text \<open>C7: Every way to read a register reads the same: with the bridge connected and at rest, two nibbles of
  the status port (in any protocol but byte mode), one edge in byte mode and an EPP read deliver the
  byte \<open>bpck_read_reg\<close> returns, change registers, EEPROM and drive as it does, once, and leave the
  bridge at rest.\<close>

theorem read_protocols_agree:
  assumes "in_touch s" "bpck_read_reg E r s = Inr (v, u)"
  shows "(proto s \<noteq> BPCK_PROTO_PS2 \<longrightarrow> (\<exists>t. host_read E r s = Inr (v, t) \<and> in_touch t \<and> same_core u t)) \<and>
     (proto s = BPCK_PROTO_PS2 \<longrightarrow> (\<exists>t. host_read_byte E r s = Inr (v, t) \<and> in_touch t \<and> same_core u t)) \<and>
     (\<exists>t. epp_read E r s = Inr (v, t) \<and> in_touch t \<and> same_core u t)"
  using every_read [OF assms] .

section \<open>A register port\<close>

text \<open>What a driver relies on, whatever protocol it has chosen: its accesses do to the registers what
  \<open>bpck_read_reg\<close> and \<open>bpck_write_reg\<close> do. Register 4, which chooses the protocol, is left out.\<close>

locale register_port =
  fixes E :: "'m pod_env" and ok :: "'m bpck \<Rightarrow> bool"
    and wr :: "u8 \<Rightarrow> u8 \<Rightarrow> 'm bpck \<Rightarrow> fault + 'm bpck" and rd :: "u8 \<Rightarrow> 'm bpck \<Rightarrow> fault + (u8 \<times> 'm bpck)"
  assumes wr_reg: "ok s \<Longrightarrow> r \<noteq> 0x04 \<Longrightarrow> bpck_write_reg E r v s = Inr u \<Longrightarrow> \<exists>t. wr r v s = Inr t \<and> ok t \<and> same_core u t"
    and rd_reg: "ok s \<Longrightarrow> bpck_read_reg E r s = Inr (v, u) \<Longrightarrow> \<exists>t. rd r s = Inr (v, t) \<and> ok t \<and> same_core u t"

lemma same_core_proto: "same_core s t \<Longrightarrow> proto t = proto s"
  unfolding same_core_def by (metis rewire_core(18))

lemma write_reg_proto: "bpck_write_reg E r v s = Inr u \<Longrightarrow> r \<noteq> 0x04 \<Longrightarrow> proto u = proto s"
  by (auto simp: bpck_write_reg_def bpck_reg_write_def bpck_command_def bpck_ee_write_def bpck_data_write_def bpck_attach_drive_def
      pod_drive_def Let_def andThen_Inr split: if_splits option.splits)

interpretation spp: register_port E "\<lambda>s. in_touch s \<and> proto s \<noteq> BPCK_PROTO_PS2" "host_write E" "host_read E" for E
proof (unfold_locales, goal_cases)
  case (1 s r v u)
  then show ?case using every_write [of s E r v u] write_reg_proto [of E r v s u] same_core_proto by metis
next
  case (2 s r v u)
  then show ?case using every_read [of s E r v u] read_reg_proto [of E r s v u] same_core_proto by metis
qed

interpretation byte: register_port E "\<lambda>s. in_touch s \<and> proto s = BPCK_PROTO_PS2" "host_write E" "host_read_byte E" for E
proof (unfold_locales, goal_cases)
  case (1 s r v u)
  then show ?case using every_write [of s E r v u] write_reg_proto [of E r v s u] same_core_proto by metis
next
  case (2 s r v u)
  then show ?case using every_read [of s E r v u] read_reg_proto [of E r s v u] same_core_proto by metis
qed

interpretation epp: register_port E in_touch "epp_write E" "epp_read E" for E
proof (unfold_locales, goal_cases)
  case (1 s r v u)
  then show ?case using every_write [of s E r v u] by blast
next
  case (2 s r v u)
  then show ?case using every_read [of s E r v u] by blast
qed

section \<open>Witnesses\<close>

text \<open>A pod of address 7 with the drive of the EPAT's witnesses, connected.\<close>

definition demo_env :: "unit pod_env" where
  "demo_env = drive_ops.extend demo_ops \<lparr>pod_tsc = 0, timer_usec = 1\<rparr>"

definition demo_pod :: "unit bpck" where
  "demo_pod = (bpck_init 7 0)\<lparr>linked := True\<rparr>"

lemma demo_in_touch: "in_touch demo_pod"
  by (simp add: in_touch_def demo_pod_def bpck_init_def)

lemma write_protocols_agree_witness:
  "\<exists>t. host_write demo_env 0x05 0x5a demo_pod = Inr t \<and> in_touch t"
  using write_protocols_agree [OF demo_in_touch, of demo_env "0x05" "0x5a"]
  by (auto simp: bpck_write_reg_def task_file_def)

lemma read_protocols_agree_witness:
  "\<exists>t. host_read demo_env 0x05 demo_pod = Inr (b_regs demo_pod 0x05, t) \<and> in_touch t"
  using read_protocols_agree [OF demo_in_touch, of demo_env "0x05"]
  by (auto simp: bpck_read_reg_def task_file_def demo_pod_def bpck_init_def)

end
