(* ===== verification/Bpck_Service.thy ===== *)
theory Bpck_Service
  imports Bpck_Wire
begin

text \<open>
  What the BackPack bridge guarantees over its wire: the knock connects exactly the unit it names, the
  identity EEPROM and packet commands cross the cable whole in every protocol, and the packet engine
  is the EPAT's.
\<close>

section \<open>The identity EEPROM\<close>

text \<open>The host clocks a bit in by two writes of register 6, the second with the clock high, and reads the
  data line as bit 7 of register 0: a start bit, the opcode 10, six address bits, then sixteen bits.\<close>

definition ee_clock :: "(u8 \<Rightarrow> u8 \<Rightarrow> 's \<Rightarrow> fault + 's) \<Rightarrow> bool \<Rightarrow> 's \<Rightarrow> fault + 's" where
  "ee_clock wr di s =
     (let d = (if di then 0x02 else 0x00) in andThen (wr 0x06 (0x0c OR d) s) (wr 0x06 (0x0d OR d)))"

definition ee_bit :: "(u8 \<Rightarrow> u8 \<Rightarrow> 's \<Rightarrow> fault + 's) \<Rightarrow> (u8 \<Rightarrow> 's \<Rightarrow> fault + (u8 \<times> 's)) \<Rightarrow> 's \<Rightarrow> fault + (bool \<times> 's)" where
  "ee_bit wr rd s = andThen (ee_clock wr False s) (\<lambda>t. andThen (rd 0x00 t) (\<lambda>(v, u). Inr (bit v 7, u)))"

definition shift_in :: "u16 \<Rightarrow> bool \<Rightarrow> u16" where
  "shift_in x b = push_bit 1 x OR (if b then 1 else 0)"

definition ee_command :: "nat \<Rightarrow> bool list" where
  "ee_command a = [True, True, False] @ map (bit a) [5, 4, 3, 2, 1, 0]"

definition ee_word :: "(u8 \<Rightarrow> u8 \<Rightarrow> 's \<Rightarrow> fault + 's) \<Rightarrow> (u8 \<Rightarrow> 's \<Rightarrow> fault + (u8 \<times> 's)) \<Rightarrow> nat \<Rightarrow> 's \<Rightarrow> fault + (u16 \<times> 's)" where
  "ee_word wr rd a s =
     andThen (wr 0x06 0x08 s) (\<lambda>s1.
     andThen (pushes (ee_clock wr) (ee_command a) s1) (\<lambda>s2.
     andThen (pulls (ee_bit wr rd) 16 s2) (\<lambda>(bs, s3).
     andThen (wr 0x06 0x08 s3) (\<lambda>s4. Inr (foldl shift_in 0 bs, s4)))))"

definition kept :: "'m bpck \<Rightarrow> 'm bpck \<Rightarrow> bool" where
  "kept s t \<longleftrightarrow> ee_data t = ee_data s \<and> b_sd t = b_sd s \<and> tf_regs t = tf_regs s \<and> proto t = proto s"

lemma kept_trans: "kept s t \<Longrightarrow> kept t u \<Longrightarrow> kept s u"
  by (simp add: kept_def)

text \<open>What the nine command bits leave in the shift register.\<close>

lemma command_shifts:
  assumes "a < 64"
  shows "foldl shift_in 0 (ee_command a) AND 0x180 = 0x180" "unat (foldl shift_in 0 (ee_command a) AND 0x3f) = a"
proof -
  have "list_all (\<lambda>a. foldl shift_in 0 (ee_command a) AND 0x180 = 0x180 \<and>
      unat (foldl shift_in 0 (ee_command a) AND 0x3f) = a) [0..<64]"
    by code_simp
  moreover have "a \<in> set [0..<64]" using assms by simp
  ultimately show "foldl shift_in 0 (ee_command a) AND 0x180 = 0x180" "unat (foldl shift_in 0 (ee_command a) AND 0x3f) = a"
    unfolding list_all_iff by blast+
qed

primrec msb_first :: "nat \<Rightarrow> u16 \<Rightarrow> bool list" where
  "msb_first 0 w = []"
| "msb_first (Suc n) w = bit w 15 # msb_first n (push_bit 1 w)"

lemma bit_double: "bit (x * 2 :: u16) i \<longleftrightarrow> 0 < i \<and> i < 16 \<and> bit x (i - Suc 0)"
proof -
  have "bit (push_bit 1 x) i \<longleftrightarrow> 0 < i \<and> i < 16 \<and> bit x (i - Suc 0)"
    by (simp only: bit_push_bit_iff) (auto simp: Suc_le_eq)
  then show ?thesis by simp
qed

lemma bit_shift_in: "bit (shift_in x b) i \<longleftrightarrow> i < 16 \<and> (if i = 0 then b else bit x (i - 1))"
  by (auto simp: shift_in_def bit_or_iff bit_double bit_1_iff)

lemma msb_first_word: "n \<le> 16 \<Longrightarrow> foldl shift_in x (msb_first n w) = push_bit n x OR drop_bit (16 - n) w"
proof (induction n arbitrary: x w)
  case (Suc n)
  then have "foldl shift_in x (msb_first (Suc n) w) = push_bit n (shift_in x (bit w 15)) OR drop_bit (16 - n) (push_bit 1 w)" by simp
  also have "\<dots> = push_bit (Suc n) x OR drop_bit (16 - Suc n) w"
  proof (rule bit_word_eqI)
    fix i assume "i < LENGTH(16)"
    then have i: "i < 16" by simp
    consider "i < n" | "i = n" | "n < i" by linarith
    then show "bit (push_bit n (shift_in x (bit w 15)) OR drop_bit (16 - n) (push_bit 1 w)) i =
        bit (push_bit (Suc n) x OR drop_bit (16 - Suc n) w) i"
      using Suc.prems i
      by cases (auto simp: bit_or_iff bit_push_bit_iff bit_drop_bit_eq bit_shift_in bit_double
        dest: bit_imp_le_length)
  qed
  finally show ?case .
qed simp

lemma same_core_fields:
  assumes "same_core u t"
  shows "ee_lines t = ee_lines u" "ee_shift t = ee_shift u" "ee_bits t = ee_bits u" "ee_out t = ee_out u"
    "ee_reading t = ee_reading u" "ee_do t = ee_do u" "ee_data t = ee_data u" "b_sd t = b_sd u" "tf_regs t = tf_regs u"
    "proto t = proto u" "b_regs t = b_regs u" "busy_us t = busy_us u"
  using assms unfolding same_core_def by (metis rewire_core)+

lemma write_6: "bpck_write_reg E 0x06 v s = Inr (bpck_ee_write v (s\<lparr>b_regs := (b_regs s)(0x06 := v)\<rparr>))"
  by (simp add: bpck_write_reg_def task_file_def)

lemma read_0: "bpck_read_reg E 0x00 s = Inr ((b_regs s 0x00 AND 0x7f) OR (if ee_do s then 0x80 else 0), s)"
  by (simp add: bpck_read_reg_def task_file_def)

lemma line_7: "bit ((v AND 0x7f) OR (if d then 0x80 else 0) :: u8) 7 = d"
  by (simp add: bit_or_iff bit_and_iff)

lemma out_bit: "(w AND 0x8000 = 0) = (\<not> bit w 15)" for w :: u16
  using and_exp_eq_0_iff_not_bit [of w 15] by simp

lemma clock_lines:
  "(0x0c OR (if di then 0x02 else 0x00)) AND 0x04 \<noteq> (0 :: u8)" "(0x0c OR (if di then 0x02 else 0x00)) AND 0x01 = (0 :: u8)"
  "(0x0d OR (if di then 0x02 else 0x00)) AND 0x04 \<noteq> (0 :: u8)" "(0x0d OR (if di then 0x02 else 0x00)) AND 0x01 \<noteq> (0 :: u8)"
  "((0x0d OR (if di then 0x02 else 0x00)) AND 0x02 \<noteq> (0 :: u8)) = di"
  by (cases di; simp)+

definition ticked :: "bool \<Rightarrow> 'm bpck \<Rightarrow> 'm bpck \<Rightarrow> bool" where
  "ticked di s t \<longleftrightarrow> kept s t \<and>
     (if ee_reading s then ee_reading t \<and> ee_do t = bit (ee_out s) 15 \<and> ee_out t = push_bit 1 (ee_out s)
      else if ee_bits s < 8 then \<not> ee_reading t \<and> ee_bits t = ee_bits s + 1 \<and> ee_shift t = shift_in (ee_shift s) di
      else shift_in (ee_shift s) di AND 0x180 = 0x180 \<longrightarrow>
        ee_reading t \<and> ee_out t = ee_data s ! unat (shift_in (ee_shift s) di AND 0x3f))"

context register_port begin

lemma clock_ticks:
  assumes "ok s"
  obtains t where "ee_clock wr di s = Inr t" "ok t" "ticked di s t"
proof -
  define lo hi :: u8 where "lo = 0x0c OR (if di then 0x02 else 0x00)" and "hi = 0x0d OR (if di then 0x02 else 0x00)"
  note lines = clock_lines [of di, folded lo_def hi_def]
  obtain t where t: "wr 0x06 lo s = Inr t" "ok t" "same_core (bpck_ee_write lo (s\<lparr>b_regs := (b_regs s)(0x06 := lo)\<rparr>)) t"
    using wr_reg [OF assms _ write_6, of lo] by auto
  obtain u where u: "wr 0x06 hi t = Inr u" "ok u" "same_core (bpck_ee_write hi (t\<lparr>b_regs := (b_regs t)(0x06 := hi)\<rparr>)) u"
    using wr_reg [OF t(2) _ write_6, of hi] by auto
  have f: "ee_lines t = lo" "ee_shift t = ee_shift s" "ee_bits t = ee_bits s" "ee_out t = ee_out s" "ee_reading t = ee_reading s"
    "kept s t"
    using lines unfolding same_core_fields [OF t(3)] kept_def by (simp_all add: bpck_ee_write_def Let_def)
  have "ticked di s u"
    using f lines unfolding ticked_def kept_def same_core_fields [OF u(3)]
    by (simp add: bpck_ee_write_def Let_def shift_in_def out_bit del: push_bit_Suc)
  moreover have "ee_clock wr di s = Inr u" unfolding ee_clock_def Let_def lo_def [symmetric] hi_def [symmetric] by (simp add: t(1) u(1))
  ultimately show ?thesis using that u(2) by blast
qed

lemma command_collected:
  assumes "ok s" "\<not> ee_reading s" "ee_bits s + int (length bs) \<le> 8"
  obtains t where "pushes (ee_clock wr) bs s = Inr t" "ok t" "kept s t" "\<not> ee_reading t"
    "ee_bits t = ee_bits s + int (length bs)" "ee_shift t = foldl shift_in (ee_shift s) bs"
proof -
  have "\<exists>t. pushes (ee_clock wr) bs s = Inr t \<and> ok t \<and> kept s t \<and> \<not> ee_reading t \<and>
      ee_bits t = ee_bits s + int (length bs) \<and> ee_shift t = foldl shift_in (ee_shift s) bs"
    using assms
  proof (induction bs arbitrary: s)
    case Nil
    then show ?case by (simp add: kept_def)
  next
    case (Cons b bs)
    obtain u where u: "ee_clock wr b s = Inr u" "ok u" "ticked b s u" by (rule clock_ticks [OF Cons.prems(1)])
    have f: "kept s u" "\<not> ee_reading u" "ee_bits u = ee_bits s + 1" "ee_shift u = shift_in (ee_shift s) b"
      using u(3) Cons.prems by (simp_all add: ticked_def)
    show ?case using Cons.IH [OF u(2) f(2)] Cons.prems(3) kept_trans [OF f(1)] by (auto simp: u(1) f(3,4))
  qed
  then show ?thesis using that by blast
qed

lemma word_read_out:
  assumes "ok s" "ee_reading s"
  obtains t where "pulls (ee_bit wr rd) n s = Inr (msb_first n (ee_out s), t)" "ok t" "kept s t"
proof -
  have "\<exists>t. pulls (ee_bit wr rd) n s = Inr (msb_first n (ee_out s), t) \<and> ok t \<and> kept s t"
    using assms
  proof (induction n arbitrary: s)
    case 0
    then show ?case by (simp add: kept_def)
  next
    case (Suc n)
    obtain u where u: "ee_clock wr False s = Inr u" "ok u" "ticked False s u" by (rule clock_ticks [OF Suc.prems(1)])
    have f: "kept s u" "ee_reading u" "ee_do u = bit (ee_out s) 15" "ee_out u = push_bit 1 (ee_out s)"
      using u(3) Suc.prems(2) by (simp_all add: ticked_def)
    obtain w where w: "rd 0x00 u = Inr ((b_regs u 0x00 AND 0x7f) OR (if ee_do u then 0x80 else 0), w)" "ok w" "same_core u w"
      using rd_reg [OF u(2) read_0] by auto
    have g: "ee_reading w" "ee_out w = push_bit 1 (ee_out s)" "kept s w"
      using f(1,2,4) same_core_fields [OF w(3)] by (simp_all add: kept_def)
    have "ee_bit wr rd s = Inr (bit (ee_out s) 15, w)" by (simp only: ee_bit_def u(1) w(1) andThen_simps prod.case line_7 f(3))
    then show ?case using Suc.IH [OF w(2) g(1)] kept_trans [OF g(3)] by (auto simp: g(2) simp del: push_bit_Suc)
  qed
  then show ?thesis using that by blast
qed

lemma select_low:
  assumes "ok s"
  obtains t where "wr 0x06 0x08 s = Inr t" "ok t" "kept s t" "\<not> ee_reading t" "ee_bits t = 0" "ee_shift t = 0"
proof -
  obtain t where t: "wr 0x06 0x08 s = Inr t" "ok t" "same_core (bpck_ee_write 0x08 (s\<lparr>b_regs := (b_regs s)(0x06 := 0x08)\<rparr>)) t"
    using wr_reg [OF assms _ write_6, of "0x08"] by auto
  then show ?thesis using that same_core_fields [OF t(3)] by (simp add: bpck_ee_write_def kept_def Let_def)
qed

lemma ee_word_delivered:
  assumes "ok s" "a < 64"
  shows "\<exists>t. ee_word wr rd a s = Inr (ee_data s ! a, t) \<and> ok t \<and> kept s t"
proof -
  let ?bs = "[True, True, False] @ map (bit a) [5, 4, 3, 2, 1]"
  have cmd: "ee_command a = ?bs @ [bit a 0]" by (simp add: ee_command_def)
  obtain s1 where s1: "wr 0x06 0x08 s = Inr s1" "ok s1" "kept s s1" "\<not> ee_reading s1" "ee_bits s1 = 0" "ee_shift s1 = 0"
    by (rule select_low [OF assms(1)])
  obtain s2 where s2: "pushes (ee_clock wr) ?bs s1 = Inr s2" "ok s2" "kept s1 s2" "\<not> ee_reading s2" "ee_bits s2 = 8"
      "ee_shift s2 = foldl shift_in 0 ?bs"
    using command_collected [OF s1(2,4), of ?bs] by (auto simp: s1(5,6))
  obtain s3 where s3: "ee_clock wr (bit a 0) s2 = Inr s3" "ok s3" "ticked (bit a 0) s2 s3" by (rule clock_ticks [OF s2(2)])
  have sh: "shift_in (ee_shift s2) (bit a 0) = foldl shift_in 0 (ee_command a)" by (simp only: s2(6) cmd foldl_append foldl.simps)
  have g: "kept s2 s3" "ee_reading s3" "ee_out s3 = ee_data s2 ! a"
    using s3(3) s2(4,5) command_shifts [OF assms(2)] by (simp_all add: ticked_def sh)
  obtain s4 where s4: "pulls (ee_bit wr rd) 16 s3 = Inr (msb_first 16 (ee_out s3), s4)" "ok s4" "kept s3 s4"
    by (rule word_read_out [OF s3(2) g(2)])
  obtain s5 where s5: "wr 0x06 0x08 s4 = Inr s5" "ok s5" "kept s4 s5" by (rule select_low [OF s4(2)])
  have split: "pushes (ee_clock wr) (xs @ ys) q = andThen (pushes (ee_clock wr) xs q) (pushes (ee_clock wr) ys)" for xs ys q
    by (induction xs arbitrary: q) (auto simp: andThen_def split: sum.split)
  have "foldl shift_in 0 (msb_first 16 (ee_out s3)) = ee_data s ! a"
    using msb_first_word [of 16 0] g(3) s1(3) s2(3) by (simp add: kept_def)
  moreover have "kept s s5" using s1(3) s2(3) g(1) s4(3) s5(3) by (metis kept_trans)
  moreover have "pushes (ee_clock wr) (ee_command a) s1 = Inr s3"
    by (simp only: cmd split [of ?bs "[bit a 0]" s1] s2(1) s3(1) andThen_simps pushes.simps)
  ultimately show ?thesis using s5 by (simp add: ee_word_def s1(1) s4(1))
qed

end

text \<open>C23: The pod's identity is read over the cable: with the bridge connected and at rest, a driver that
  bit-bangs the 93C46 through register 6 (start bit, READ, address) and collects bit 7 of register 0
  sixteen times gets the addressed word of the EEPROM, in each of the three protocols, and the
  EEPROM, the drive and the protocol are what they were.\<close>

theorem eeprom_read_over_cable:
  assumes "in_touch s" "a < 64"
  shows "(proto s \<noteq> BPCK_PROTO_PS2 \<longrightarrow> (\<exists>t. ee_word (host_write E) (host_read E) a s = Inr (ee_data s ! a, t) \<and> in_touch t \<and> kept s t)) \<and>
     (proto s = BPCK_PROTO_PS2 \<longrightarrow> (\<exists>t. ee_word (host_write E) (host_read_byte E) a s = Inr (ee_data s ! a, t) \<and> in_touch t \<and> kept s t)) \<and>
     (\<exists>t. ee_word (epp_write E) (epp_read E) a s = Inr (ee_data s ! a, t) \<and> in_touch t \<and> kept s t)"
  using spp.ee_word_delivered [of s a E] byte.ee_word_delivered [of s a E] epp.ee_word_delivered [of s a E] assms by blast

section \<open>Taking and letting go of the link\<close>

datatype port_op = Data u8 | Ctrl u8 | Status | Epp_write bool u8 | Epp_read bool

fun pod_step :: "'m pod_env \<Rightarrow> port_op \<Rightarrow> 'm bpck \<Rightarrow> fault + 'm bpck" where
  "pod_step E (Data v) s = Inr (bpck_write_data v s)"
| "pod_step E (Ctrl v) s = bpck_write_ctrl E v s"
| "pod_step E Status s = Inr (snd (bpck_read_status s))"
| "pod_step E (Epp_write a v) s = bpck_epp_write_data E a v s"
| "pod_step E (Epp_read a) s = bpck_epp_request_read E a s"

text \<open>What the pod is after any accesses of a host and any timer that is due.\<close>

inductive reached :: "'m pod_env \<Rightarrow> u8 \<Rightarrow> u8 \<Rightarrow> 'm bpck \<Rightarrow> bool" for E own input where
  reached_init: "reached E own input (bpck_init own input)"
| reached_step: "reached E own input s \<Longrightarrow> pod_step E a s = Inr t \<Longrightarrow> reached E own input t"
| reached_busy: "reached E own input s \<Longrightarrow> busy_timer s \<noteq> None \<Longrightarrow> bpck_busy_done E s = Inr t \<Longrightarrow> reached E own input t"
| reached_reset: "reached E own input s \<Longrightarrow> reset_timer s \<noteq> None \<Longrightarrow> reached E own input (bpck_reset_done E s)"

definition no_wait :: "'m bpck \<Rightarrow> bool" where
  "no_wait s \<longleftrightarrow> busy_us s = 0 \<and> \<not> busy_pending s \<and> busy_timer s = None \<and> reset_timer s = None \<and> \<not> in_reset s \<and> \<not> reset_abrt s"

definition pod_ok :: "u8 \<Rightarrow> 'm bpck \<Rightarrow> bool" where
  "pod_ok own s \<longleftrightarrow> unit s = own \<and> ee_data s = bpck_ee_default \<and> (latching s \<longrightarrow> linked s) \<and> (ident s \<longrightarrow> linked s) \<and>
     0 \<le> knock s \<and> knock s \<le> 2"

text \<open>What register accesses and the packet engine leave alone.\<close>

definition settled :: "'m bpck \<Rightarrow> 'm bpck \<Rightarrow> bool" where
  "settled s t \<longleftrightarrow> unit t = unit s \<and> ee_data t = ee_data s \<and> latching t = latching s \<and> linked t = linked s \<and>
     ident t = ident s \<and> knock t = knock s \<and> b_dat t = b_dat s \<and> latch_commits t = latch_commits s \<and>
     (no_wait s \<longrightarrow> no_wait t)"

lemma settled_refl [simp]: "settled s s"
  by (simp add: settled_def)

lemma settled_trans: "settled s t \<Longrightarrow> settled t u \<Longrightarrow> settled s u"
  by (auto simp: settled_def)

lemma settled_upd [simp]:
  "settled s (t\<lparr>b_sd := d\<rparr>) = settled s t" "settled s (t\<lparr>tf_regs := g\<rparr>) = settled s t" "settled s (t\<lparr>b_regs := g\<rparr>) = settled s t"
  "settled s (t\<lparr>b_no_drive := p\<rparr>) = settled s t" "settled s (t\<lparr>proto := q\<rparr>) = settled s t"
  "settled s (t\<lparr>b_ctrl := v\<rparr>) = settled s t" "settled s (t\<lparr>rd_out := v\<rparr>) = settled s t" "settled s (t\<lparr>rd_val := v\<rparr>) = settled s t"
  "settled s (t\<lparr>rd_high := h\<rparr>) = settled s t" "settled s (t\<lparr>cur_reg := v\<rparr>) = settled s t"
  "settled s (t\<lparr>lpt_in := v\<rparr>) = settled s t" "settled s (t\<lparr>dat_out := v\<rparr>) = settled s t" "settled s (t\<lparr>last_status := v\<rparr>) = settled s t"
  "settled s (t\<lparr>ee_lines := v\<rparr>) = settled s t" "settled s (t\<lparr>ee_shift := w\<rparr>) = settled s t" "settled s (t\<lparr>ee_bits := i\<rparr>) = settled s t"
  "settled s (t\<lparr>ee_out := w\<rparr>) = settled s t" "settled s (t\<lparr>ee_reading := h\<rparr>) = settled s t" "settled s (t\<lparr>ee_do := h\<rparr>) = settled s t"
  by (simp_all add: settled_def no_wait_def)

lemma phase_settled [simp]: "settled s (bpck_callback_phase E d s)"
  by (simp add: bpck_callback_phase_def Let_def) (simp add: settled_def no_wait_def busy_window_def pod_drive_def Let_def)

lemma engine_settled [simp]: "settled s (bpck_atapi_callback E d s)" "settled s (bpck_pio_request E out d s)"
proof -
  show c: "settled s (bpck_atapi_callback E d s)" for d by (simp add: bpck_atapi_callback_def Let_def)
  show "settled s (bpck_pio_request E out d s)" by (simp add: bpck_pio_request_def Let_def c pod_drive_def)
qed

lemma attach_settled_pod [simp]: "settled s (bpck_attach_drive E t) = settled s t"
  by (simp add: bpck_attach_drive_def split: option.split)

lemma data_settled:
  "bpck_data_read E s = Inr (v, t) \<Longrightarrow> settled s t" "bpck_data_write E v s = Inr t \<Longrightarrow> settled s t"
  by (auto simp: bpck_data_read_def bpck_data_write_def Let_def andThen_Inr split: option.splits if_splits)

lemma pod_drive_settled [simp]: "settled s (pod_drive f t) = settled s t"
  by (simp add: pod_drive_def)

lemma ee_settled [simp]: "settled s (bpck_ee_write v t) = settled s t"
  by (simp add: bpck_ee_write_def Let_def)

lemma read_reg_settled: "bpck_read_reg E r s = Inr (v, t) \<Longrightarrow> settled s t"
  using settled_trans [of s "bpck_attach_drive E s" t] data_settled(1) [of E "bpck_attach_drive E s" v t]
  by (auto simp: bpck_read_reg_def bpck_reg_read_def Let_def split: if_splits option.splits)

lemma command_settled [simp]: "\<not> in_reset s \<Longrightarrow> settled s (bpck_command v s)"
  by (simp add: bpck_command_def)

lemma command_settled': "settled s t \<Longrightarrow> settled s (bpck_command v t)"
proof (cases "in_reset t")
  case True
  assume "settled s t"
  then show ?thesis using True by (auto simp: bpck_command_def settled_def no_wait_def)
qed (simp add: bpck_command_def)

lemma write_reg_settled:
  assumes "bpck_write_reg E r v s = Inr t" shows "settled s t"
proof -
  let ?u = "bpck_attach_drive E (s\<lparr>b_regs := (b_regs s)(r := v), tf_regs := (tf_regs s)(r := v)\<rparr>)"
  have u: "settled s ?u" by simp
  have "settled s t" if "bpck_data_write E v ?u = Inr t" using data_settled(2) [OF that] settled_trans u by blast
  moreover have "settled s (bpck_command v ?u)" by (rule command_settled' [OF u])
  ultimately show ?thesis using assms u
    by (auto simp: bpck_write_reg_def bpck_reg_write_def Let_def split: if_splits)
qed

lemma advance_settled: "bpck_advance_read E s = Inr t \<Longrightarrow> settled s t"
  by (auto simp: bpck_advance_read_def andThen_Inr split: if_splits dest!: read_reg_settled)

lemma link_edge_settled: "link_edge E chg lines s = Inr t \<Longrightarrow> settled s t"
  by (auto simp: link_edge_def split: if_splits dest: write_reg_settled advance_settled)

lemma settled_ok: "settled s t \<Longrightarrow> pod_ok own s \<Longrightarrow> pod_ok own t"
  by (auto simp: settled_def pod_ok_def)

lemma settled_no_wait: "settled s t \<Longrightarrow> no_wait s \<Longrightarrow> no_wait t"
  by (simp add: settled_def)

text \<open>What a control write can come to.\<close>

lemma ctrl_cases:
  assumes "bpck_write_ctrl E v s = Inr t"
  defines "chg \<equiv> (b_ctrl s XOR v) AND 0x0f" and "lines \<equiv> v AND 0x0f"
  obtains (same) "chg = 0" "t = s\<lparr>b_ctrl := v\<rparr>"
  | (latch) "latching s" "latch_edge E chg lines (s\<lparr>b_ctrl := v\<rparr>) = Inr t"
  | (begins) "linked s" "t = s\<lparr>b_ctrl := v, latching := True, latch_commits := 0, cur_reg := b_dat s, rd_high := False\<rparr>"
  | (drops) "linked s" "t = bpck_disconnect (s\<lparr>b_ctrl := v\<rparr>)"
  | (probe) "ident s" "t = s\<lparr>b_ctrl := v\<rparr> \<or> t = s\<lparr>b_ctrl := v, ident := False\<rparr>"
  | (other) "\<not> latching s" "\<not> ident s" "lines AND NOT 0x08 \<noteq> 0x04" "link_edge E chg lines (s\<lparr>b_ctrl := v, knock := 0\<rparr>) = Inr t"
  | (knocks) "\<not> latching s" "\<not> ident s" "lines AND NOT 0x08 = 0x04" "t = knock_edge (s\<lparr>b_ctrl := v\<rparr>)"
  | (edge) "\<not> latching s" "\<not> ident s" "lines AND NOT 0x08 = 0x04" "link_edge E chg lines (s\<lparr>b_ctrl := v\<rparr>) = Inr t"
proof -
  have w: "bpck_write_ctrl E v s =
     (if chg = 0 then Inr (s\<lparr>b_ctrl := v\<rparr>)
      else if latching s then latch_edge E chg lines (s\<lparr>b_ctrl := v\<rparr>)
      else if linked s \<and> lines = 0x01 OR 0x08
        then Inr (s\<lparr>b_ctrl := v, latching := True, latch_commits := 0, cur_reg := b_dat s, rd_high := False\<rparr>)
      else if linked s \<and> b_ctrl s AND 0x0f = 0x02 \<and> lines AND 0x08 \<noteq> 0 then Inr (bpck_disconnect (s\<lparr>b_ctrl := v\<rparr>))
      else if ident s then Inr (if chg AND 0x08 \<noteq> 0 then s\<lparr>b_ctrl := v, ident := False\<rparr> else s\<lparr>b_ctrl := v\<rparr>)
      else if lines AND NOT 0x08 \<noteq> 0x04 then link_edge E chg lines (s\<lparr>b_ctrl := v, knock := 0\<rparr>)
      else if chg AND 0x08 \<noteq> 0 then Inr (knock_edge (s\<lparr>b_ctrl := v\<rparr>))
      else link_edge E chg lines (s\<lparr>b_ctrl := v\<rparr>))"
  proof -
    have f: "latching (s\<lparr>b_ctrl := v\<rparr>) = latching s" "linked (s\<lparr>b_ctrl := v\<rparr>) = linked s" "ident (s\<lparr>b_ctrl := v\<rparr>) = ident s"
        "b_dat (s\<lparr>b_ctrl := v\<rparr>) = b_dat s" by simp_all
    show ?thesis unfolding bpck_write_ctrl_def Let_def f chg_def lines_def by (rule refl)
  qed
  note t = assms(1) [unfolded w]
  show ?thesis
  proof (cases "chg = 0")
    case True then show ?thesis using t same by simp
  next
    case False
    note t = t [unfolded if_not_P [OF False]]
    show ?thesis
    proof (cases "latching s")
      case True then show ?thesis using t latch by simp
    next
      case nl: False
      note t = t [unfolded if_not_P [OF nl]]
      show ?thesis
      proof (cases "linked s \<and> (lines = 0x01 OR 0x08 \<or> b_ctrl s AND 0x0f = 0x02 \<and> lines AND 0x08 \<noteq> 0)")
        case True then show ?thesis using t begins drops by (cases "lines = 0x01 OR 0x08") simp_all
      next
        case F: False
        then have "\<not> (linked s \<and> lines = 0x01 OR 0x08)" "\<not> (linked s \<and> b_ctrl s AND 0x0f = 0x02 \<and> lines AND 0x08 \<noteq> 0)" by blast+
        note t = t [unfolded if_not_P [OF this(1)] if_not_P [OF this(2)]]
        show ?thesis
        proof (cases "ident s")
          case True then show ?thesis using t probe by (simp split: if_splits)
        next
          case ni: False
          note t = t [unfolded if_not_P [OF ni]]
          show ?thesis
          proof (cases "lines AND NOT 0x08 = 0x04")
            case True
            then show ?thesis using t knocks [OF nl ni True] edge [OF nl ni True] by (cases "chg AND 0x08 = 0") simp_all
          next
            case o: False
            then show ?thesis using t other [OF nl ni o] by simp
          qed
        qed
      qed
    qed
  qed
qed

text \<open>The end of an out-of-band write.\<close>

lemma latch_cases:
  assumes "latch_edge E chg lines s = Inr t"
  obtains w where "settled s (w\<lparr>latch_commits := latch_commits s\<rparr>)"
    "t = w \<or> t = w\<lparr>latching := False\<rparr> \<or> t = bpck_disconnect (w\<lparr>latching := False\<rparr>)"
proof -
  obtain w where w: "settled s (w\<lparr>latch_commits := latch_commits s\<rparr>)"
      "(if lines AND 0x01 = 0 then let u = w\<lparr>latching := False\<rparr> in Inr (if latch_commits u = 0 then bpck_disconnect u else u) else Inr w) =
        (Inr t :: fault + 'a bpck)"
  proof (cases "chg AND 0x02 \<noteq> 0")
    case True
    then obtain x where x: "bpck_write_reg E (cur_reg s) (b_dat s) s = Inr x" using assms by (auto simp: latch_edge_def andThen_Inr)
    define y where "y = x\<lparr>latch_commits := latch_commits x + 1\<rparr>"
    have y: "settled s (y\<lparr>latch_commits := latch_commits s\<rparr>)"
      using write_reg_settled [OF x] by (simp add: settled_def no_wait_def y_def)
    show ?thesis using that [OF y] assms [unfolded latch_edge_def if_P [OF True] x andThen_simps, folded y_def] by blast
  next
    case False
    then show ?thesis using that [of s] assms unfolding latch_edge_def by simp
  qed
  then show ?thesis using that by (auto simp: Let_def split: if_splits)
qed

lemma no_wait_wire [simp]:
  "no_wait (t\<lparr>latching := h\<rparr>) = no_wait t" "no_wait (bpck_disconnect t) = no_wait t" "no_wait (bpck_write_data v t) = no_wait t"
  by (simp_all add: no_wait_def bpck_disconnect_def bpck_write_data_def)

lemma ctrl_no_wait:
  assumes "bpck_write_ctrl E v s = Inr t" "no_wait s" shows "no_wait t"
proof -
  have l: "no_wait w" if "settled s' (w\<lparr>latch_commits := n\<rparr>)" "no_wait s'" for s' w n
    using settled_no_wait [OF that] by (simp add: no_wait_def)
  have u: "no_wait (s\<lparr>b_ctrl := v\<rparr>)" "no_wait (s\<lparr>b_ctrl := v, knock := 0\<rparr>)" using assms(2) by (simp_all add: no_wait_def)
  show ?thesis using assms(1)
  proof (cases rule: ctrl_cases)
    case latch
    obtain w where "settled (s\<lparr>b_ctrl := v\<rparr>) (w\<lparr>latch_commits := latch_commits (s\<lparr>b_ctrl := v\<rparr>)\<rparr>)"
        "t = w \<or> t = w\<lparr>latching := False\<rparr> \<or> t = bpck_disconnect (w\<lparr>latching := False\<rparr>)"
      by (rule latch_cases [OF latch(2)])
    then show ?thesis using l [OF _ u(1)] by auto
  next
    case other then show ?thesis using link_edge_settled settled_no_wait u(2) by blast
  next
    case edge then show ?thesis using link_edge_settled settled_no_wait u(1) by blast
  qed (use u in \<open>auto simp: no_wait_def bpck_disconnect_def knock_edge_def bpck_connect_def Let_def\<close>)
qed

lemma drop_ok: "pod_ok own w \<Longrightarrow> pod_ok own (w\<lparr>latching := False\<rparr>)" "pod_ok own w \<Longrightarrow> pod_ok own (bpck_disconnect w)"
  by (auto simp: pod_ok_def bpck_disconnect_def)

lemma ctrl_ok:
  assumes "bpck_write_ctrl E v s = Inr t" "pod_ok own s" shows "pod_ok own t"
proof -
  have u: "pod_ok own (s\<lparr>b_ctrl := v\<rparr>)" "pod_ok own (s\<lparr>b_ctrl := v, knock := 0\<rparr>)" using assms(2) by (simp_all add: pod_ok_def)
  show ?thesis using assms(1)
  proof (cases rule: ctrl_cases)
    case latch
    obtain w where w: "settled (s\<lparr>b_ctrl := v\<rparr>) (w\<lparr>latch_commits := latch_commits (s\<lparr>b_ctrl := v\<rparr>)\<rparr>)"
        "t = w \<or> t = w\<lparr>latching := False\<rparr> \<or> t = bpck_disconnect (w\<lparr>latching := False\<rparr>)"
      by (rule latch_cases [OF latch(2)])
    have "pod_ok own w" using settled_ok [OF w(1) u(1)] by (simp add: pod_ok_def)
    then show ?thesis using w(2) by (auto intro: drop_ok)
  next
    case other then show ?thesis using link_edge_settled settled_ok u(2) by blast
  next
    case edge then show ?thesis using link_edge_settled settled_ok u(1) by blast
  qed (use u in \<open>auto simp: pod_ok_def bpck_disconnect_def knock_edge_def bpck_connect_def Let_def\<close>)
qed

lemma data_ok: "pod_ok own s \<Longrightarrow> pod_ok own (bpck_write_data v s)"
  by (simp add: pod_ok_def bpck_write_data_def)

lemma step_keeps:
  assumes "pod_step E a s = Inr t"
  shows "no_wait s \<Longrightarrow> no_wait t" "pod_ok own s \<Longrightarrow> pod_ok own t"
proof -
  have s: "settled s t" if "\<forall>v. a \<noteq> Data v" "\<forall>v. a \<noteq> Ctrl v"
    using assms that
    by (cases a) (auto simp: bpck_read_status_def bpck_epp_write_data_def bpck_epp_request_read_def andThen_Inr Let_def
        split: if_splits dest: write_reg_settled read_reg_settled)
  show "no_wait t" if "no_wait s"
    using assms that s settled_no_wait by (cases a) (auto intro: ctrl_no_wait)
  show "pod_ok own t" if "pod_ok own s"
    using assms that s settled_ok by (cases a) (auto simp: data_ok intro: ctrl_ok)
qed

lemma reached_no_wait: "reached E own input s \<Longrightarrow> no_wait s"
proof (induction rule: reached.induct)
  case reached_init
  show ?case by (simp add: bpck_init_def no_wait_def)
next
  case (reached_step s a t)
  then show ?case by (blast intro: step_keeps(1))
qed (simp_all add: no_wait_def)

lemma reached_ok: "reached E own input s \<Longrightarrow> pod_ok own s"
proof (induction rule: reached.induct)
  case reached_init
  show ?case by (simp add: bpck_init_def pod_ok_def)
next
  case (reached_step s a t)
  then show ?case by (blast intro: step_keeps(2))
next
  case (reached_busy s t)
  then show ?case using reached_no_wait [OF reached_busy.hyps(1)] by (simp add: no_wait_def)
next
  case (reached_reset s)
  then show ?case using reached_no_wait [OF reached_reset.hyps(1)] by (simp add: no_wait_def)
qed

text \<open>C37: The pod never waits and never resets: whatever a host does, the BSY window is never opened, the
  settle of a reset never entered and neither timer ever armed, because nothing sets \<open>busy_us\<close>,
  \<open>in_reset\<close> or \<open>reset_timer\<close>; the EEPROM and the chain address keep their contents, an out-of-band
  write or an address probe is open only on a connected pod, and at most two edges of a knock are
  counted.\<close>

theorem pod_never_waits_or_resets:
  assumes "reached E own input s"
  shows "busy_us s = 0 \<and> \<not> busy_pending s \<and> busy_timer s = None \<and> reset_timer s = None \<and> \<not> in_reset s \<and> \<not> reset_abrt s \<and>
     unit s = own \<and> ee_data s = bpck_ee_default \<and> (latching s \<longrightarrow> linked s) \<and> (ident s \<longrightarrow> linked s) \<and>
     0 \<le> knock s \<and> knock s \<le> 2"
  using reached_no_wait [OF assms] reached_ok [OF assms] by (simp add: no_wait_def pod_ok_def)

lemma unlinked_ctrl:
  assumes "\<not> linked s" "\<not> latching s" "\<not> ident s" "bpck_write_ctrl E v s = Inr t" "0 \<le> knock s"
  shows "same_core s t \<and> b_dat t = b_dat s \<and>
     (linked t \<longrightarrow> b_dat s = unit s \<and> v AND 0x07 = 0x04 \<and> 3 \<le> knock s + 1) \<and>
     (\<not> linked t \<longrightarrow> knock t \<le> (if v AND 0x07 = 0x04 then knock s + 1 else knock s))"
proof -
  have n: "(v AND 0x0f) AND NOT 0x08 = v AND (0x07 :: u8)" by (simp add: and.assoc)
  show ?thesis using assms(4)
  proof (cases rule: ctrl_cases)
    case same
    then show ?thesis using assms(1) by (simp add: same_core_def rewire_def)
  next
    case other
    then have "t = s\<lparr>b_ctrl := v, knock := 0\<rparr>" using assms(1) by (simp add: link_edge_def)
    then show ?thesis using assms(1,5) by (simp add: same_core_def rewire_def)
  next
    case knocks
    then show ?thesis using assms(1) unfolding n
      by (auto simp: knock_edge_def bpck_connect_def Let_def same_core_def rewire_def)
  next
    case edge
    then have "t = s\<lparr>b_ctrl := v\<rparr>" using assms(1) by (simp add: link_edge_def)
    then show ?thesis using assms(1) by (simp add: same_core_def rewire_def)
  qed (use assms in simp_all)
qed

text \<open>The data byte last written and the control writes since that leave INIT alone beside SELECT.\<close>

definition log_knock :: "port_op \<Rightarrow> u8 \<times> int \<Rightarrow> u8 \<times> int" where
  "log_knock a r =
     (case a of Data v \<Rightarrow> (v, 0) | Ctrl v \<Rightarrow> if v AND 0x07 = 0x04 then (fst r, snd r + 1) else r | _ \<Rightarrow> r)"

definition knocked :: "u8 \<Rightarrow> port_op list \<Rightarrow> bool" where
  "knocked own as \<longleftrightarrow> (\<exists>xs. prefix xs as \<and> fst (fold log_knock xs (0, 0)) = own \<and> 3 \<le> snd (fold log_knock xs (0, 0)))"

definition knock_ok :: "port_op list \<Rightarrow> u8 \<Rightarrow> 'm bpck \<Rightarrow> bool" where
  "knock_ok as own s \<longleftrightarrow> fst (fold log_knock as (0, 0)) = b_dat s \<and>
     (if linked s then knocked own as else knock s \<le> snd (fold log_knock as (0, 0)))"

lemma knocked_more: "knocked own as \<Longrightarrow> knocked own (as @ bs)"
  unfolding knocked_def by (metis prefix_order.trans prefixI)

lemma knocked_now: "fst (fold log_knock as (0, 0)) = own \<Longrightarrow> 3 \<le> snd (fold log_knock as (0, 0)) \<Longrightarrow> knocked own as"
  unfolding knocked_def by blast

lemma settled_knock_ok: "settled s t \<Longrightarrow> knock_ok as own s \<Longrightarrow> knock_ok as own t"
  by (simp add: knock_ok_def settled_def)

lemma nonneg_log: "0 \<le> snd (fold log_knock as r)" if "0 \<le> snd r"
  using that by (induction as arbitrary: r) (auto simp: log_knock_def split: port_op.split)

lemma ctrl_dat: "bpck_write_ctrl E v s = Inr t \<Longrightarrow> b_dat t = b_dat s"
proof (erule ctrl_cases)
  assume "latch_edge E ((b_ctrl s XOR v) AND 0x0f) (v AND 0x0f) (s\<lparr>b_ctrl := v\<rparr>) = Inr t"
  then show "b_dat t = b_dat s" by (rule latch_cases) (auto simp: settled_def bpck_disconnect_def)
qed (auto simp: bpck_disconnect_def knock_edge_def bpck_connect_def Let_def settled_def dest!: link_edge_settled)

lemma disconnect_stops: "\<not> linked (bpck_disconnect s)" "linked s \<Longrightarrow> knock (bpck_disconnect s) = 0"
  by (simp_all add: bpck_disconnect_def)

lemma ctrl_unlinks: "bpck_write_ctrl E v s = Inr t \<Longrightarrow> linked s \<Longrightarrow> \<not> linked t \<Longrightarrow> knock t = 0"
proof (erule ctrl_cases)
  assume "latch_edge E ((b_ctrl s XOR v) AND 0x0f) (v AND 0x0f) (s\<lparr>b_ctrl := v\<rparr>) = Inr t" "linked s" "\<not> linked t"
  then show "knock t = 0" by - (erule latch_cases, auto simp: settled_def bpck_disconnect_def)
qed (auto simp: bpck_disconnect_def knock_edge_def bpck_connect_def Let_def settled_def split: if_splits dest!: link_edge_settled)

lemma step_knock_ok:
  assumes "pod_ok own s" "knock_ok as own s" "pod_step E a s = Inr t"
  shows "knock_ok (as @ [a]) own t"
proof (cases a)
  case (Data v)
  then have "t = bpck_write_data v s" using assms(3) by simp
  then show ?thesis using assms(2) Data by (simp add: knock_ok_def log_knock_def bpck_write_data_def knocked_more)
next
  case (Ctrl v)
  have c: "bpck_write_ctrl E v s = Inr t" using assms(3) Ctrl by simp
  have d: "fst (fold log_knock (as @ [a]) (0, 0)) = b_dat t" using assms(2) ctrl_dat [OF c] Ctrl by (simp add: knock_ok_def log_knock_def)
  have n: "snd (fold log_knock (as @ [a]) (0, 0)) =
      (if v AND 0x07 = 0x04 then snd (fold log_knock as (0, 0)) + 1 else snd (fold log_knock as (0, 0)))"
    by (simp add: Ctrl log_knock_def)
  show ?thesis
  proof (cases "linked s")
    case True
    have "0 \<le> snd (fold log_knock (as @ [a]) (0, 0))" by (rule nonneg_log) simp
    then show ?thesis using True d assms(2) ctrl_unlinks [OF c True] by (simp add: knock_ok_def knocked_more)
  next
    case False
    then have u: "linked t \<longrightarrow> b_dat s = unit s \<and> v AND 0x07 = 0x04 \<and> 3 \<le> knock s + 1"
        "\<not> linked t \<longrightarrow> knock t \<le> (if v AND 0x07 = 0x04 then knock s + 1 else knock s)"
      using unlinked_ctrl [OF False _ _ c] assms(1) by (simp_all add: pod_ok_def)
    have k: "knock s \<le> snd (fold log_knock as (0, 0))" using assms(2) False by (simp add: knock_ok_def)
    have "knocked own (as @ [a])" if "linked t"
    proof (rule knocked_now)
      show "fst (fold log_knock (as @ [a]) (0, 0)) = own"
        using d u(1) that assms(1) ctrl_dat [OF c] by (simp add: pod_ok_def)
      show "3 \<le> snd (fold log_knock (as @ [a]) (0, 0))" using n u(1) that k by simp
    qed
    then show ?thesis using d n u(2) k by (auto simp: knock_ok_def)
  qed
next
  case Status
  then have "settled s t" using assms(3) by (auto simp: bpck_read_status_def Let_def)
  then show ?thesis using settled_knock_ok assms(2) Status by (fastforce simp: knock_ok_def log_knock_def knocked_more settled_def)
next
  case (Epp_write b v)
  then have "settled s t" using assms(3) by (auto simp: bpck_epp_write_data_def split: if_splits dest: write_reg_settled)
  then show ?thesis using assms(2) Epp_write by (auto simp: knock_ok_def log_knock_def knocked_more settled_def)
next
  case (Epp_read b)
  then have "settled s t" using assms(3)
    by (auto simp: bpck_epp_request_read_def andThen_Inr split: if_splits dest: read_reg_settled)
  then show ?thesis using assms(2) Epp_read by (auto simp: knock_ok_def log_knock_def knocked_more settled_def)
qed

text \<open>C24: Only its own knock links a pod: whatever a host does, if the pod is connected then at some point
  its chain address was the last data byte, with at least three control writes since that left INIT
  alone beside SELECT.\<close>

theorem only_own_knock_links:
  assumes "pushes (pod_step E) as (bpck_init own input) = Inr t" "linked t"
  shows "knocked own as"
proof -
  have "knock_ok (bs @ as) own t" if "pushes (pod_step E) as s = Inr t" "pod_ok own s" "knock_ok bs own s" for bs s
    using that
  proof (induction as arbitrary: bs s)
    case (Cons a as)
    then obtain u where u: "pod_step E a s = Inr u" "pushes (pod_step E) as u = Inr t" by (auto simp: andThen_Inr)
    show ?case using Cons.IH [OF u(2) step_keeps(2) [OF u(1) Cons.prems(2)] step_knock_ok [OF Cons.prems(2,3) u(1)]] by simp
  qed simp
  moreover have "pod_ok own (bpck_init own input :: 'a bpck)" "knock_ok [] own (bpck_init own input :: 'a bpck)"
    by (simp_all add: pod_ok_def knock_ok_def bpck_init_def)
  ultimately have "knock_ok ([] @ as) own t" using assms(1) by blast
  then show ?thesis using assms(2) by (simp add: knock_ok_def)
qed

text \<open>A pod that is not connected keeps out of the way on the port, but not on EPP: data and control
  writes and status reads leave its registers, EEPROM and drive as they are and the status lines at
  rest, so that the next unit of the chain is heard; an EPP data cycle, which never asks whether the
  pod is connected, writes and reads its registers all the same.\<close>

theorem unlinked_pod_answers_epp:
  assumes "reached E own input s" "\<not> linked s"
  shows "same_core s (bpck_write_data v s) \<and> fst (bpck_read_status s) = 0xd8 \<and> same_core s (snd (bpck_read_status s)) \<and>
     (\<forall>t. bpck_write_ctrl E v s = Inr t \<longrightarrow> same_core s t) \<and>
     bpck_epp_write_data E False v s = bpck_write_reg E (cur_reg s) v s \<and>
     (\<forall>x u. bpck_read_reg E (cur_reg s) s = Inr (x, u) \<longrightarrow> (\<exists>t. bpck_epp_request_read E False s = Inr t \<and> lpt_in t = x))"
proof -
  have ok: "\<not> latching s" "\<not> ident s" "0 \<le> knock s" using reached_ok [OF assms(1)] assms(2) by (auto simp: pod_ok_def)
  have "same_core s (bpck_write_data v s)" by (simp add: same_core_def rewire_def bpck_write_data_def)
  moreover have "fst (bpck_read_status s) = 0xd8" "same_core s (snd (bpck_read_status s))"
    using assms(2) by (simp_all add: bpck_read_status_def same_core_def rewire_def Let_def)
  moreover have "same_core s t" if "bpck_write_ctrl E v s = Inr t" for t
    using unlinked_ctrl [OF assms(2) ok(1,2) that ok(3)] by blast
  ultimately show ?thesis by (auto simp: bpck_epp_write_data_def bpck_epp_request_read_def)
qed

text \<open>The connect sequence of the driver: the complement of the address, INIT alone, the address, three edges
  of SELECT; the probe with AUTOFD raised and lowered; a last edge of SELECT takes the link.\<close>

definition host_knock :: "'m pod_env \<Rightarrow> u8 \<Rightarrow> 'm bpck \<Rightarrow> fault + ((u8 \<times> u8) \<times> 'm bpck)" where
  "host_knock E addr s =
     andThen (w2 E (\<lambda>c. (c AND 0x10) OR 0x04) (bpck_write_data (NOT addr) s)) (\<lambda>s1.
     andThen (pushes (w2 E) (replicate 3 (\<lambda>c. c XOR 0x08)) (bpck_write_data addr s1)) (\<lambda>s2.
     andThen (w2 E (\<lambda>c. c OR 0x02) s2) (\<lambda>s3.
     let (a, s4) = bpck_read_status s3 in
     andThen (w2 E (\<lambda>c. c AND 0xfd) s4) (\<lambda>s5.
     let (b, s6) = bpck_read_status s5 in
     andThen (w2 E (\<lambda>c. c XOR 0x08) s6) (\<lambda>s7. Inr ((a, b), s7))))))"

lemma unlinked_edge:
  assumes "\<not> linked s" "\<not> latching s" "\<not> ident s"
  shows "bpck_write_ctrl E v s = Inr
     (if (b_ctrl s XOR v) AND 0x0f = 0 then s\<lparr>b_ctrl := v\<rparr>
      else if v AND 0x07 \<noteq> 0x04 then s\<lparr>b_ctrl := v, knock := 0\<rparr>
      else if ((b_ctrl s XOR v) AND 0x0f) AND 0x08 \<noteq> 0 then knock_edge (s\<lparr>b_ctrl := v\<rparr>)
      else s\<lparr>b_ctrl := v\<rparr>)"
proof -
  have n: "(v AND 0x0f) AND NOT 0x08 = v AND (0x07 :: u8)" by (simp add: and.assoc)
  show ?thesis using assms unfolding bpck_write_ctrl_def Let_def n by (simp add: link_edge_def)
qed

text \<open>Linked, with the address probe open.\<close>

lemma probe_edge:
  assumes "linked s" "\<not> latching s" "ident s" "(b_ctrl s XOR v) AND 0x0f \<noteq> 0" "v AND 0x0f \<noteq> 0x09" "b_ctrl s AND 0x0f \<noteq> 0x02"
  shows "bpck_write_ctrl E v s = Inr (if ((b_ctrl s XOR v) AND 0x0f) AND 0x08 \<noteq> 0 then s\<lparr>b_ctrl := v, ident := False\<rparr> else s\<lparr>b_ctrl := v\<rparr>)"
  using assms unfolding bpck_write_ctrl_def Let_def by simp

definition probe_answer :: "'m bpck \<Rightarrow> u8 \<Rightarrow> u8" where
  "probe_answer s a = (bpck_connect_response s OR push_bit 3 (a AND 0x07)) AND 0xf8"

lemma answers_probe:
  assumes "linked s" "ident s"
  shows "bpck_read_status s =
     (probe_answer s (if b_ctrl s AND 0x02 \<noteq> 0 then unit s else NOT (unit s)),
      s\<lparr>last_status := probe_answer s (if b_ctrl s AND 0x02 \<noteq> 0 then unit s else NOT (unit s))\<rparr>)"
  using assms by (simp add: bpck_read_status_def probe_answer_def bpck_ident_response_def Let_def)

lemma probe_answer_core: "same_core s t \<Longrightarrow> probe_answer t = probe_answer s"
  by (rule ext) (simp add: probe_answer_def bpck_connect_response_def same_core_proto)

lemma same_core_unit: "same_core s t \<Longrightarrow> unit t = unit s"
  unfolding same_core_def by (metis rewire_core(19))

lemma ctrl_10: "c AND 0x10 = 0 \<or> c AND 0x10 = (0x10 :: u8)"
proof -
  have b: "bit (0x10 :: u8) n \<longleftrightarrow> n = 4" for n using bit_exp_iff [where 'a = "8 word", of 4 n] by auto
  show ?thesis
  proof (cases "bit c 4")
    case True
    have "c AND 0x10 = (0x10 :: u8)" by (rule bit_word_eqI) (use True in \<open>auto simp only: bit_and_iff b\<close>)
    then show ?thesis ..
  next
    case False
    have "c AND 0x10 = (0 :: u8)" by (rule bit_word_eqI) (use False in \<open>auto simp only: bit_and_iff b bit_0_eq bot_apply bot_bool_def\<close>)
    then show ?thesis ..
  qed
qed

text \<open>The settling writes leave any unlinked pod with INIT alone, the knock not begun.\<close>

lemma knock_prepared:
  assumes "\<not> linked s" "\<not> latching s" "\<not> ident s"
  obtains s1 where "w2 E (\<lambda>c. (c AND 0x10) OR 0x04) (bpck_write_data a s) = Inr s1" "\<not> linked s1" "\<not> latching s1" "\<not> ident s1"
    "b_ctrl s1 = 0x04 \<or> b_ctrl s1 = 0x14" "same_core s s1"
proof -
  let ?s = "bpck_write_data a s" and ?v = "(b_ctrl s AND 0x10) OR 0x04"
  have v: "?v = 0x04 \<or> ?v = 0x14" using ctrl_10 [of "b_ctrl s"] by auto
  have k: "\<not> linked ?s" "\<not> latching ?s" "\<not> ident ?s" "b_ctrl ?s = b_ctrl s" "knock ?s = 0" using assms by (simp_all add: bpck_write_data_def)
  define t where "t = (if (b_ctrl s XOR ?v) AND 0x0f = 0 then ?s\<lparr>b_ctrl := ?v\<rparr>
      else if ?v AND 0x07 \<noteq> 0x04 then ?s\<lparr>b_ctrl := ?v, knock := 0\<rparr>
      else if ((b_ctrl s XOR ?v) AND 0x0f) AND 0x08 \<noteq> 0 then knock_edge (?s\<lparr>b_ctrl := ?v\<rparr>)
      else ?s\<lparr>b_ctrl := ?v\<rparr>)"
  have "w2 E (\<lambda>c. (c AND 0x10) OR 0x04) ?s = Inr t" unfolding w2_def t_def k(4) unlinked_edge [OF k(1-3)] k(4) by (rule refl)
  moreover have "t = ?s\<lparr>b_ctrl := ?v\<rparr> \<or> t = ?s\<lparr>b_ctrl := ?v, knock := 0\<rparr> \<or> t = ?s\<lparr>b_ctrl := ?v, knock := 1\<rparr>"
    using k(5) by (simp add: t_def knock_edge_def)
  moreover have "same_core s ?s" by (simp add: same_core_def rewire_def bpck_write_data_def)
  ultimately show ?thesis using that [of t] v k(1-3) by auto
qed

lemma knock_steps:
  assumes "\<not> linked s" "\<not> latching s" "\<not> ident s"
  obtains t where "host_knock E (unit s) s = Inr ((probe_answer s (unit s), probe_answer s (NOT (unit s))), t)"
    "in_touch t" "same_core s t"
proof -
  obtain s1 where s1: "w2 E (\<lambda>c. (c AND 0x10) OR 0x04) (bpck_write_data (NOT (unit s)) s) = Inr s1"
      "\<not> linked s1" "\<not> latching s1" "\<not> ident s1" "b_ctrl s1 = 0x04 \<or> b_ctrl s1 = 0x14" "same_core s s1"
    by (rule knock_prepared [OF assms])
  let ?x = "bpck_write_data (unit s) s1" and ?c = "b_ctrl s1"
  have x: "\<not> linked ?x" "\<not> latching ?x" "\<not> ident ?x" "knock ?x = 0" "b_ctrl ?x = ?c" "unit ?x = unit s" "b_dat ?x = unit s"
    using s1(2-4) same_core_unit [OF s1(6)] by (simp_all add: bpck_write_data_def)
  let ?y = "bpck_connect (?x\<lparr>b_ctrl := ?c XOR 0x08, knock := 0\<rparr>)"
  have y: "pushes (w2 E) (replicate 3 (\<lambda>c. c XOR 0x08)) ?x = Inr ?y"
    using s1(5) x by (auto simp: numeral_3_eq_3 w2_def unlinked_edge knock_edge_def)
  have k: "linked ?y" "ident ?y" "\<not> latching ?y" "knock ?y = 0" "b_ctrl ?y = ?c XOR 0x08" "unit ?y = unit s"
    using x by (simp_all add: bpck_connect_def)
  have cy: "same_core s ?y" using s1(6) by (simp add: bpck_connect_def bpck_write_data_def)
  let ?z = "?y\<lparr>b_ctrl := (?c XOR 0x08) OR 0x02\<rparr>"
  have z: "w2 E (\<lambda>c. c OR 0x02) ?y = Inr ?z" using s1(5) k by (auto simp: w2_def probe_edge)
  have rz: "bpck_read_status ?z = (probe_answer s (unit s), ?z\<lparr>last_status := probe_answer s (unit s)\<rparr>)"
    using answers_probe [of ?z] s1(5) k cy probe_answer_core [of s ?z] by auto
  let ?z1 = "?z\<lparr>last_status := probe_answer s (unit s)\<rparr>"
  let ?w = "?z1\<lparr>b_ctrl := ((?c XOR 0x08) OR 0x02) AND 0xfd\<rparr>"
  have w: "w2 E (\<lambda>c. c AND 0xfd) ?z1 = Inr ?w" using s1(5) k by (auto simp: w2_def probe_edge)
  have rw: "bpck_read_status ?w = (probe_answer s (NOT (unit s)), ?w\<lparr>last_status := probe_answer s (NOT (unit s))\<rparr>)"
    using answers_probe [of ?w] s1(5) k cy probe_answer_core [of s ?w] by auto
  let ?w1 = "?w\<lparr>last_status := probe_answer s (NOT (unit s))\<rparr>"
  let ?t = "?w1\<lparr>b_ctrl := (((?c XOR 0x08) OR 0x02) AND 0xfd) XOR 0x08, ident := False\<rparr>"
  have t: "w2 E (\<lambda>c. c XOR 0x08) ?w1 = Inr ?t" using s1(5) k by (auto simp: w2_def probe_edge)
  have "host_knock E (unit s) s = Inr ((probe_answer s (unit s), probe_answer s (NOT (unit s))), ?t)"
    unfolding host_knock_def s1(1) andThen_simps y z rz Let_def prod.case w rw t by (rule refl)
  moreover have "in_touch ?t" using s1(5) k by (auto simp: in_touch_def)
  ultimately show ?thesis using that cy by simp
qed

text \<open>Any other address passes it by.\<close>

definition unheard :: "'m bpck \<Rightarrow> 'm bpck \<Rightarrow> bool" where
  "unheard s t \<longleftrightarrow> \<not> linked t \<and> \<not> latching t \<and> \<not> ident t \<and> b_dat t = b_dat s \<and> same_core s t"

lemma unheard_edge:
  assumes "\<not> linked s" "\<not> latching s" "\<not> ident s" "b_dat s \<noteq> unit s"
  obtains t where "w2 E f s = Inr t" "unheard s t"
proof -
  have "\<exists>t. bpck_write_ctrl E (f (b_ctrl s)) s = Inr t \<and> unheard s t"
    unfolding unlinked_edge [OF assms(1-3)] using assms
    by (auto simp: unheard_def knock_edge_def Let_def) (simp_all add: same_core_def rewire_def)
  then show ?thesis using that by (auto simp: w2_def)
qed

lemma unheard_trans: "unheard s t \<Longrightarrow> unheard t u \<Longrightarrow> unheard s u"
  by (auto simp: unheard_def intro: same_core_trans)

lemma unheard_status: "unheard s t \<Longrightarrow> fst (bpck_read_status t) = 0xd8 \<and> unheard s (snd (bpck_read_status t))"
  by (simp add: unheard_def bpck_read_status_def Let_def)

lemma unheard_more:
  assumes "unheard s t" "b_dat s \<noteq> unit s"
  obtains u where "w2 E f t = Inr u" "unheard s u"
proof -
  have "\<not> linked t" "\<not> latching t" "\<not> ident t" "b_dat t \<noteq> unit t"
    using assms same_core_unit [of s t] by (auto simp: unheard_def)
  then obtain u where "w2 E f t = Inr u" "unheard t u" by (rule unheard_edge)
  then show ?thesis using that unheard_trans [OF assms(1)] by blast
qed

lemma knock_passes:
  assumes "\<not> linked s" "\<not> latching s" "\<not> ident s" "a \<noteq> unit s"
  obtains t where "host_knock E a s = Inr ((0xd8, 0xd8), t)" "\<not> linked t" "same_core s t"
proof -
  obtain s1 where s1: "w2 E (\<lambda>c. (c AND 0x10) OR 0x04) (bpck_write_data (NOT a) s) = Inr s1"
      "\<not> linked s1" "\<not> latching s1" "\<not> ident s1" "same_core s s1"
    by (rule knock_prepared [OF assms(1-3)])
  define x where "x = bpck_write_data a s1"
  have c: "same_core q q" for q :: "'a bpck" by (simp add: same_core_def)
  have "same_core s x" using s1(5) by (simp add: x_def bpck_write_data_def)
  then have x: "unheard x x" "b_dat x \<noteq> unit x" "same_core s x"
    using s1(2-4) assms(4) same_core_unit [of s x] c by (auto simp: x_def unheard_def bpck_write_data_def)
  have m: "\<exists>t. pushes (w2 E) fs u = Inr t \<and> unheard x t" if "unheard x u" for fs u
    using that
  proof (induction fs arbitrary: u)
    case (Cons f fs)
    obtain v where v: "w2 E f u = Inr v" "unheard x v" by (rule unheard_more [OF Cons.prems x(2)])
    then show ?case using Cons.IH [OF v(2)] by simp
  qed simp
  obtain s2 where s2: "pushes (w2 E) (replicate 3 (\<lambda>c. c XOR 0x08)) x = Inr s2" "unheard x s2" using m [OF x(1)] by blast
  obtain s3 where s3: "w2 E (\<lambda>c. c OR 0x02) s2 = Inr s3" "unheard x s3" by (rule unheard_more [OF s2(2) x(2)])
  obtain s4 where s4: "bpck_read_status s3 = (0xd8, s4)" "unheard x s4"
    using unheard_status [OF s3(2)] by (cases "bpck_read_status s3") auto
  obtain s5 where s5: "w2 E (\<lambda>c. c AND 0xfd) s4 = Inr s5" "unheard x s5" by (rule unheard_more [OF s4(2) x(2)])
  obtain s6 where s6: "bpck_read_status s5 = (0xd8, s6)" "unheard x s6"
    using unheard_status [OF s5(2)] by (cases "bpck_read_status s5") auto
  obtain s7 where s7: "w2 E (\<lambda>c. c XOR 0x08) s6 = Inr s7" "unheard x s7" by (rule unheard_more [OF s6(2) x(2)])
  have "host_knock E a s = Inr ((0xd8, 0xd8), s7)"
    unfolding host_knock_def s1(1) andThen_simps x_def [symmetric] s2(1) s3(1) s4(1) s5(1) s6(1) s7(1) Let_def prod.case by (rule refl)
  then show ?thesis using that s7(2) same_core_trans [OF x(3)] by (auto simp: unheard_def)
qed

lemma probe_bits: "drop_bit 3 (probe_answer s a) AND 0x07 = a AND 0x07"
proof -
  have "bit (0x40 :: u8) n \<longleftrightarrow> n = 6" "bit (0x80 :: u8) n \<longleftrightarrow> n = 7" for n
    using bit_exp_iff [where 'a = "8 word", of 6 n] bit_exp_iff [where 'a = "8 word", of 7 n] by auto
  then have "bit (bpck_connect_response s) n \<Longrightarrow> 6 \<le> n" for n
    by (auto simp only: bpck_connect_response_def bit_or_iff split: if_splits)
  then show ?thesis
    unfolding probe_answer_def
    by (intro bit_word_eqI, simp only: nibble_bits bit_07) (force simp: not_less)
qed

text \<open>C19: The knock connects exactly the unit it names: from any state without a link the driver's connect
  sequence for the pod's own address leaves it connected and at rest, with the address and its
  complement on the status lines of the probe; for any other address the pod stays unconnected and
  the status lines at rest. Registers, EEPROM and drive are left alone.\<close>

theorem knock_connects_named_unit:
  assumes "reached E own input s" "\<not> linked s"
  shows "\<exists>x y t. host_knock E a s = Inr ((x, y), t) \<and> same_core s t \<and>
     (if a = own
      then in_touch t \<and> drop_bit 3 x AND 0x07 = own AND 0x07 \<and> drop_bit 3 y AND 0x07 = NOT own AND 0x07
      else \<not> linked t \<and> x = 0xd8 \<and> y = 0xd8)"
proof -
  have ok: "\<not> latching s" "\<not> ident s" "unit s = own" using reached_ok [OF assms(1)] assms(2) by (auto simp: pod_ok_def)
  show ?thesis
  proof (cases "a = own")
    case True
    obtain t where "host_knock E (unit s) s = Inr ((probe_answer s (unit s), probe_answer s (NOT (unit s))), t)" "in_touch t" "same_core s t"
      by (rule knock_steps [OF assms(2) ok(1,2)])
    then show ?thesis using True ok(3) probe_bits [of s own] probe_bits [of s "NOT own"] by auto
  next
    case False
    then have "a \<noteq> unit s" using ok(3) by simp
    then obtain t where "host_knock E a s = Inr ((0xd8, 0xd8), t)" "\<not> linked t" "same_core s t"
      by (rule knock_passes [OF assms(2) ok(1,2)])
    then show ?thesis using False by auto
  qed
qed

section \<open>The packet engine\<close>

text \<open>The engine was copied from the EPAT's; what it adds is the BSY window, which never opens, and the end of
  a transfer that failed.\<close>

abbreviation epat_ops :: "'m pod_env \<Rightarrow> 'm drive_ops" where
  "epat_ops E \<equiv> drive_ops.truncate E"

lemma epat_ops_sel [simp]:
  "sd_command (epat_ops E) = sd_command E" "sd_phase_data_out (epat_ops E) = sd_phase_data_out E"
  "sd_command_stop (epat_ops E) = sd_command_stop E" "sd_reset (epat_ops E) = sd_reset E" "find_drive (epat_ops E) = find_drive E"
  by (simp_all add: drive_ops.defs)

lemma phase_is_epat: "no_wait s \<Longrightarrow> bpck_callback_phase E d s = s\<lparr>b_sd := Some (callback_phase d)\<rparr>"
  by (simp add: bpck_callback_phase_def callback_phase_def no_wait_def Let_def)

lemma callback_is_epat: "no_wait s \<Longrightarrow> bpck_atapi_callback E d s = s\<lparr>b_sd := Some (epat_atapi_callback (epat_ops E) d)\<rparr>"
  by (simp add: bpck_atapi_callback_def epat_atapi_callback_def phase_is_epat Let_def)

lemma pio_is_epat:
  assumes "no_wait s" "\<And>x. packet_status (if out then sd_phase_data_out E x else sd_command_stop E x) \<noteq> PHASE_ERROR"
  shows "bpck_pio_request E out d s = s\<lparr>b_sd := Some (epat_pio_request (epat_ops E) out d)\<rparr>"
proof (cases "packet_len d \<le> tf_pos d")
  case True
  then show ?thesis using assms(2)
    by (simp add: bpck_pio_request_def epat_pio_request_def Let_def callback_is_epat [OF assms(1)] split del: if_split cong: if_cong)
      (auto simp: callback_is_epat [OF assms(1)])
next
  case False
  then show ?thesis
    by (simp add: bpck_pio_request_def epat_pio_request_def Let_def callback_is_epat [OF assms(1)] pod_drive_def)
qed

lemma over_is_epat: "transfer_over = block_over"
  by (rule ext) (simp add: transfer_over_def block_over_def)

lemma data_read_is_epat:
  assumes "no_wait s" "b_sd s = sd e" "\<And>x. packet_status (sd_command_stop E x) \<noteq> PHASE_ERROR"
  shows "bpck_data_read E s = map_sum id (map_prod id (\<lambda>f. s\<lparr>b_sd := sd f\<rparr>)) (epat_data_read (epat_ops E) e)"
proof -
  have q: "bpck_pio_request E False d s = s\<lparr>b_sd := Some (epat_pio_request (epat_ops E) False d)\<rparr>" for d
    by (rule pio_is_epat [OF assms(1)]) (use assms(3) in simp)
  have same: "s\<lparr>b_sd := sd e\<rparr> = s" using assms(2) by (metis bpck.surjective bpck.update_convs(25))
  show ?thesis
    using assms(2) same unfolding bpck_data_read_def epat_data_read_def
    by (auto simp: q over_is_epat andThen_map Let_def intro!: andThen_eqI split: option.split)
qed

text \<open>C36: The two bridges drive the drive alike: for a drive whose transfers do not end in an error, a byte read
  from or written to the data register of a BackPack in any reachable state does to the drive exactly
  what the EPAT's does, fault for fault and byte for byte, and nothing to the rest of the pod.\<close>

theorem packet_engines_agree:
  assumes "reached E own input s" "b_sd s = sd e"
    and "\<And>x. packet_status (sd_command_stop E x) \<noteq> PHASE_ERROR" "\<And>x. packet_status (sd_phase_data_out E x) \<noteq> PHASE_ERROR"
  shows "bpck_data_read E s = map_sum id (map_prod id (\<lambda>f. s\<lparr>b_sd := sd f\<rparr>)) (epat_data_read (epat_ops E) e) \<and>
     bpck_data_write E v s = map_sum id (\<lambda>f. s\<lparr>b_sd := sd f\<rparr>) (epat_data_write (epat_ops E) v e)"
proof
  have n: "no_wait s" by (rule reached_no_wait [OF assms(1)])
  have q: "bpck_pio_request E out d s = s\<lparr>b_sd := Some (epat_pio_request (epat_ops E) out d)\<rparr>" for out d
    by (rule pio_is_epat [OF n]) (use assms(3,4) in simp)
  have same: "s\<lparr>b_sd := sd e\<rparr> = s" using assms(2) by (metis bpck.surjective bpck.update_convs(25))
  show "bpck_data_read E s = map_sum id (map_prod id (\<lambda>f. s\<lparr>b_sd := sd f\<rparr>)) (epat_data_read (epat_ops E) e)"
    by (rule data_read_is_epat [OF n assms(2,3)])
  show "bpck_data_write E v s = map_sum id (\<lambda>f. s\<lparr>b_sd := sd f\<rparr>) (epat_data_write (epat_ops E) v e)"
    using assms(2) same unfolding bpck_data_write_def epat_data_write_def
    by (auto simp: q callback_is_epat [OF n] over_is_epat andThen_map Let_def intro!: andThen_eqI split: option.split)
qed

section \<open>A packet command over the cable\<close>

lemma no_wait_rewire: "no_wait (rewire w s) = no_wait s"
  by (simp add: no_wait_def rewire_def)

lemma same_core_no_wait: "same_core s t \<Longrightarrow> no_wait t = no_wait s"
  unfolding same_core_def by (metis no_wait_rewire)

lemma attached: "b_sd s = Some d \<Longrightarrow> bpck_attach_drive E s = s"
  by (simp add: bpck_attach_drive_def)

lemma pod_data_read:
  assumes "no_wait s" "b_sd s = Some d" "data_in d" "completes (epat_ops E)"
  shows "bpck_read_reg E 0x40 s = Inr (hd (left_in d), s\<lparr>b_sd := Some (byte_read (epat_ops E) d)\<rparr>)"
proof -
  define e :: "'a epat" where "e = epat_init\<lparr>sd := Some d\<rparr>"
  have e: "sd e = Some d" by (simp add: e_def)
  have "bpck_data_read E s = map_sum id (map_prod id (\<lambda>f. s\<lparr>b_sd := sd f\<rparr>)) (epat_data_read (epat_ops E) e)"
    by (rule data_read_is_epat) (use assms e in \<open>simp_all add: completes_def\<close>)
  then have "bpck_data_read E s = Inr (hd (left_in d), s\<lparr>b_sd := Some (byte_read (epat_ops E) d)\<rparr>)"
    by (simp add: data_read_step [OF e assms(3)])
  moreover have "bpck_read_reg E 0x40 s = bpck_data_read E s"
    using assms(1,2) unfolding bpck_read_reg_def bpck_reg_read_def Let_def attached [OF assms(2)]
    by (simp add: task_file_def no_wait_def)
  ultimately show ?thesis by simp
qed

lemma pod_data_write:
  assumes "no_wait s" "b_sd s = Some d" "cdb_open d"
  obtains u where "bpck_write_reg E 0x40 v s = Inr u" "no_wait u" "b_sd u = Some (byte_written (epat_ops E) v d)" "proto u = proto s"
proof -
  define x where "x = s\<lparr>b_regs := (b_regs s)(0x40 := v), tf_regs := (tf_regs s)(0x40 := v)\<rparr>"
  have x: "b_sd x = Some d" "no_wait x" "proto x = proto s" using assms(1,2) by (simp_all add: x_def no_wait_def)
  have "unat (tf_pos d) < 16" using assms(3) by (simp add: cdb_open_def word_less_nat_alt)
  then have "bpck_data_write E v x = Inr (x\<lparr>b_sd := Some (byte_written (epat_ops E) v d)\<rparr>)"
    using x assms(3) by (simp add: bpck_data_write_def cdb_open_def buf_put_def byte_written_def callback_is_epat Let_def)
  then have "bpck_write_reg E 0x40 v s = Inr (x\<lparr>b_sd := Some (byte_written (epat_ops E) v d)\<rparr>)"
    using attached [OF x(1), of E] x(1) by (simp add: bpck_write_reg_def bpck_reg_write_def task_file_def x_def [symmetric] Let_def)
  then show ?thesis by (rule that) (use x in \<open>simp_all add: no_wait_def\<close>)
qed

text \<open>A pod on a port that works, with a drive in a data phase, or being given a command.\<close>

definition pod_in :: "('m bpck \<Rightarrow> bool) \<Rightarrow> 'm pod_env \<Rightarrow> 'm bpck \<Rightarrow> bool" where
  "pod_in ok E s \<longleftrightarrow> ok s \<and> no_wait s \<and> completes (epat_ops E) \<and> (case b_sd s of None \<Rightarrow> False | Some d \<Rightarrow> data_in d)"

definition pod_out :: "('m bpck \<Rightarrow> bool) \<Rightarrow> 'm bpck \<Rightarrow> bool" where
  "pod_out ok s \<longleftrightarrow> ok s \<and> no_wait s \<and> (case b_sd s of None \<Rightarrow> False | Some d \<Rightarrow> cdb_open d)"

definition pod_drive_is :: "('m bpck \<Rightarrow> bool) \<Rightarrow> ('m drive \<Rightarrow> bool) \<Rightarrow> 'm bpck \<Rightarrow> bool" where
  "pod_drive_is ok P s \<longleftrightarrow> ok s \<and> no_wait s \<and> (case b_sd s of None \<Rightarrow> False | Some d \<Rightarrow> P d)"

context register_port begin

lemma port_read:
  assumes "pod_in ok E s" "b_sd s = Some d"
  obtains t where "rd 0x40 s = Inr (hd (left_in d), t)" "ok t" "no_wait t" "b_sd t = Some (byte_read (epat_ops E) d)"
proof -
  have a: "ok s" "no_wait s" "completes (epat_ops E)" "data_in d" using assms by (simp_all add: pod_in_def)
  obtain t where t: "rd 0x40 s = Inr (hd (left_in d), t)" "ok t" "same_core (s\<lparr>b_sd := Some (byte_read (epat_ops E) d)\<rparr>) t"
    using rd_reg [OF a(1) pod_data_read [OF a(2) assms(2) a(4,3)]] by blast
  then show ?thesis using that same_core_fields(8) [OF t(3)] same_core_no_wait [OF t(3)] a(2) by (simp add: no_wait_def)
qed

lemma port_write:
  assumes "pod_out ok s" "b_sd s = Some d"
  obtains t where "wr 0x40 v s = Inr t" "ok t" "no_wait t" "b_sd t = Some (byte_written (epat_ops E) v d)"
proof -
  have a: "ok s" "no_wait s" "cdb_open d" using assms by (simp_all add: pod_out_def)
  obtain u where u: "bpck_write_reg E 0x40 v s = Inr u" "no_wait u" "b_sd u = Some (byte_written (epat_ops E) v d)"
    by (rule pod_data_write [OF a(2) assms(2) a(3)])
  obtain t where t: "wr 0x40 v s = Inr t" "ok t" "same_core u t" using wr_reg [OF a(1) _ u(1)] by auto
  then show ?thesis using that same_core_fields(8) [OF t(3)] same_core_no_wait [OF t(3)] u by simp
qed

end

text \<open>Through any port that works the data register is a byte source and a byte sink.\<close>

sublocale register_port \<subseteq> data_reg: byte_source "pod_in ok E" "pod_drive_is ok finished" "\<lambda>s. left_in (the (b_sd s))" "rd 0x40"
proof (unfold_locales, goal_cases)
  case (1 s b c bs)
  then obtain d where d: "b_sd s = Some d" "data_in d" "completes (epat_ops E)" by (auto simp: pod_in_def split: option.splits)
  obtain t where t: "rd 0x40 s = Inr (hd (left_in d), t)" "ok t" "no_wait t" "b_sd t = Some (byte_read (epat_ops E) d)"
    by (rule port_read [OF 1(1) d(1)])
  have l: "left_in d = b # c # bs" using 1(2) d(1) by simp
  show ?case using t l d(3) byte_read_more [OF d(2) l, of "epat_ops E"] by (auto simp: pod_in_def)
next
  case (2 s b)
  then obtain d where d: "b_sd s = Some d" "data_in d" "completes (epat_ops E)" by (auto simp: pod_in_def split: option.splits)
  obtain t where t: "rd 0x40 s = Inr (hd (left_in d), t)" "ok t" "no_wait t" "b_sd t = Some (byte_read (epat_ops E) d)"
    by (rule port_read [OF 2(1) d(1)])
  have l: "left_in d = [b]" using 2(2) d(1) by simp
  show ?case using t l byte_read_last [OF d(2) l d(3)] by (auto simp: pod_drive_is_def)
qed

sublocale register_port \<subseteq> cdb_reg: byte_sink "pod_out ok" "\<lambda>cdb. pod_drive_is ok (issued (epat_ops E) cdb)"
    "\<lambda>s. cdb_taken (the (b_sd s))" 12 "\<lambda>v. True" "wr 0x40"
proof (unfold_locales, goal_cases)
  case (1 s v)
  then obtain d where d: "b_sd s = Some d" "cdb_open d" by (auto simp: pod_out_def split: option.splits)
  obtain t where t: "wr 0x40 v s = Inr t" "ok t" "no_wait t" "b_sd t = Some (byte_written (epat_ops E) v d)"
    by (rule port_write [OF 1(1) d(1)])
  have "Suc (length (cdb_taken d)) < 12" using 1(3) d(1) by simp
  note w = byte_written_step(1) [OF d(2) this, of "epat_ops E" v]
  show ?case using t w d(1) by (simp add: pod_out_def)
next
  case (2 s v)
  then obtain d where d: "b_sd s = Some d" "cdb_open d" by (auto simp: pod_out_def split: option.splits)
  obtain t where t: "wr 0x40 v s = Inr t" "ok t" "no_wait t" "b_sd t = Some (byte_written (epat_ops E) v d)"
    by (rule port_write [OF 2(1) d(1)])
  have "Suc (length (cdb_taken d)) = 12" using 2(3) d(1) by simp
  note w = byte_written_step(2) [OF d(2) this, of "epat_ops E" v]
  show ?case using t w d(1) by (simp add: pod_drive_is_def)
qed

definition pod_packet :: "(u8 \<Rightarrow> u8 \<Rightarrow> 's \<Rightarrow> fault + 's) \<Rightarrow> (u8 \<Rightarrow> 's \<Rightarrow> fault + (u8 \<times> 's)) \<Rightarrow> u8 list \<Rightarrow> nat \<Rightarrow> 's \<Rightarrow>
    fault + (u8 list \<times> 's)" where
  "pod_packet wr rd cdb n s =
     andThen (wr 0x47 0xa0 s) (\<lambda>s1. andThen (pushes (wr 0x40) cdb s1) (pulls (rd 0x40) n))"

lemma pod_command:
  assumes "no_wait s" "b_sd s = Some d" "length (atapi_cdb d) = 16"
  obtains u e where "bpck_write_reg E 0x47 0xa0 s = Inr u" "no_wait u" "b_sd u = Some e" "cdb_open e" "cdb_taken e = []"
proof -
  define x where "x = s\<lparr>b_regs := (b_regs s)(0x47 := 0xa0), tf_regs := (tf_regs s)(0x47 := 0xa0)\<rparr>"
  define e where "e = d\<lparr>tf_pos := 0, packet_status := PHASE_IDLE, ireason := 1, atastat := READY_STAT OR DRQ_STAT\<rparr>"
  have x: "b_sd x = Some d" "no_wait x" using assms(1,2) by (simp_all add: x_def no_wait_def)
  have "bpck_command 0xa0 x = x\<lparr>b_sd := Some e\<rparr>" using x by (simp add: bpck_command_def no_wait_def pod_drive_def e_def)
  then have "bpck_write_reg E 0x47 0xa0 s = Inr (x\<lparr>b_sd := Some e\<rparr>)"
    using attached [OF x(1), of E] x(1) by (simp add: bpck_write_reg_def bpck_reg_write_def task_file_def x_def [symmetric] Let_def)
  moreover have "cdb_open e" "cdb_taken e = []" using assms(3) by (simp_all add: e_def cdb_open_def cdb_taken_def)
  moreover have "no_wait (x\<lparr>b_sd := Some e\<rparr>)" using x(2) by (simp add: no_wait_def)
  ultimately show ?thesis using that [of "x\<lparr>b_sd := Some e\<rparr>" e] by simp
qed

context register_port begin

lemma packet_answered:
  assumes "ok s" "no_wait s" "b_sd s = Some d" "length (atapi_cdb d) = 16" "length cdb = 12"
    and "answers (epat_ops E) cdb reply" "reply \<noteq> []" "completes (epat_ops E)"
  shows "\<exists>t e. pod_packet wr rd cdb (length reply) s = Inr (reply, t) \<and> ok t \<and> b_sd t = Some e \<and> finished e"
proof -
  obtain u e where u: "bpck_write_reg E 0x47 0xa0 s = Inr u" "no_wait u" "b_sd u = Some e" "cdb_open e" "cdb_taken e = []"
    by (rule pod_command [OF assms(2-4)])
  obtain s1 where s1: "wr 0x47 0xa0 s = Inr s1" "ok s1" "same_core u s1" using wr_reg [OF assms(1) _ u(1)] by auto
  have b1: "b_sd s1 = Some e" using same_core_fields(8) [OF s1(3)] u(3) by simp
  have "pod_out ok s1" using s1(2) b1 u(2,4) same_core_no_wait [OF s1(3)] by (simp add: pod_out_def)
  then obtain s2 where s2: "pushes (wr 0x40) cdb s1 = Inr s2" "pod_drive_is ok (issued (epat_ops E) cdb) s2"
    by (rule cdb_reg.push_all) (use assms(5) b1 u(5) in \<open>auto simp: list_all_iff\<close>)
  then obtain d2 where d2: "ok s2" "no_wait s2" "b_sd s2 = Some d2" "issued (epat_ops E) cdb d2"
    by (auto simp: pod_drive_is_def split: option.splits)
  have "data_in d2" "left_in d2 = reply"
    using d2(4) assms(6,7)
    by (auto simp: issued_def answers_def epat_atapi_callback_def callback_phase_def data_in_def left_in_def word_less_nat_alt Let_def)
  then obtain t where t: "pulls (rd 0x40) (length reply) s2 = Inr (reply, t)" "pod_drive_is ok finished t"
    using data_reg.pull_all [of s2] d2(1-3) assms(7,8) by (auto simp: pod_in_def)
  then show ?thesis by (auto simp: pod_packet_def s1(1) s2(1) pod_drive_is_def split: option.splits)
qed

end

text \<open>C5: A packet command crosses the BackPack's cable whole, in each protocol: with the pod connected and at
  rest and a drive attached, a host that writes 0xA0 to the command register and the twelve bytes of
  the command (any bytes) to the data register and then reads the data register gets exactly the
  bytes the drive answers to this command, and the drive has completed.\<close>

theorem pod_packet_answered:
  assumes "reached E own input s" "in_touch s" "b_sd s = Some d" "length (atapi_cdb d) = 16" "length cdb = 12"
    and "answers (epat_ops E) cdb reply" "reply \<noteq> []" "completes (epat_ops E)"
  shows "(proto s \<noteq> BPCK_PROTO_PS2 \<longrightarrow> (\<exists>t e. pod_packet (host_write E) (host_read E) cdb (length reply) s = Inr (reply, t) \<and>
       in_touch t \<and> b_sd t = Some e \<and> finished e)) \<and>
     (proto s = BPCK_PROTO_PS2 \<longrightarrow> (\<exists>t e. pod_packet (host_write E) (host_read_byte E) cdb (length reply) s = Inr (reply, t) \<and>
       in_touch t \<and> b_sd t = Some e \<and> finished e)) \<and>
     (\<exists>t e. pod_packet (epp_write E) (epp_read E) cdb (length reply) s = Inr (reply, t) \<and>
       in_touch t \<and> b_sd t = Some e \<and> finished e)"
proof -
  note n = reached_no_wait [OF assms(1)]
  show ?thesis
    using spp.packet_answered [OF _ n assms(3-8)] byte.packet_answered [OF _ n assms(3-8)]
      epp.packet_answered [OF assms(2) n assms(3-8)] assms(2) by blast
qed

section \<open>Witnesses\<close>

text \<open>A host that knocks and then looks at the drive's status.\<close>

definition demo_visit :: "port_op list" where
  "demo_visit =
     [Data 0xf8, Ctrl 0x04, Data 0x07, Ctrl 0x0c, Ctrl 0x04, Ctrl 0x0c, Ctrl 0x0e, Status, Ctrl 0x0c, Status, Ctrl 0x04,
      Epp_write True 0x47, Epp_read False]"

definition demo_visited :: "fault + unit bpck" where
  "demo_visited = pushes (pod_step demo_env) demo_visit (bpck_init 7 0)"

lemma demo_visited: "\<not> isl demo_visited \<and> in_touch (projr demo_visited) \<and>
     (case b_sd (projr demo_visited) of None \<Rightarrow> False | Some d \<Rightarrow> length (atapi_cdb d) = 16)"
  by code_simp

lemma pushes_reached: "pushes (pod_step E) as s = Inr t \<Longrightarrow> reached E own input s \<Longrightarrow> reached E own input t"
  by (induction as arbitrary: s) (auto simp: andThen_Inr intro: reached_step)

lemma demo_reached: "reached demo_env 7 0 (projr demo_visited)"
  by (rule pushes_reached [OF _ reached_init, of _ demo_visit]) (use demo_visited in \<open>simp flip: demo_visited_def\<close>)

lemma demo_epat_ops: "epat_ops demo_env = demo_ops"
  by (simp add: demo_env_def drive_ops.defs)

lemma eeprom_read_over_cable_witness:
  "\<exists>t. ee_word (host_write demo_env) (host_read demo_env) 3 demo_pod = Inr (0x4f54, t) \<and> in_touch t"
proof -
  have "ee_data demo_pod ! 3 = 0x4f54" "proto demo_pod = BPCK_PROTO_SPP"
    by (simp_all add: demo_pod_def bpck_init_def bpck_ee_default_def)
  then show ?thesis using eeprom_read_over_cable [OF demo_in_touch, of 3 demo_env] by auto
qed

lemma pod_never_waits_or_resets_witness: "\<not> in_reset (projr demo_visited)"
  using pod_never_waits_or_resets [OF demo_reached] by blast

lemma only_own_knock_links_witness: "knocked 7 demo_visit"
proof (rule only_own_knock_links [of demo_env demo_visit 7 0 "projr demo_visited"])
  show "pushes (pod_step demo_env) demo_visit (bpck_init 7 0) = Inr (projr demo_visited)"
    using demo_visited by (simp flip: demo_visited_def)
  show "linked (projr demo_visited)" using demo_visited by (simp add: in_touch_def)
qed

lemma unlinked_pod_answers_epp_witness:
  "bpck_epp_write_data demo_env False 0x5a (bpck_init 7 0) = bpck_write_reg demo_env (cur_reg (bpck_init 7 0 :: unit bpck)) 0x5a (bpck_init 7 0)"
proof -
  have "\<not> linked (bpck_init 7 0 :: unit bpck)" by (simp add: bpck_init_def)
  from unlinked_pod_answers_epp [where v = "0x5a" and E = demo_env, OF reached_init this] show ?thesis by (elim conjE)
qed

lemma knock_connects_named_unit_witness: "\<exists>x y t. host_knock demo_env 7 (bpck_init 7 0) = Inr ((x, y), t) \<and> in_touch t"
proof -
  have "\<not> linked (bpck_init 7 0 :: unit bpck)" by (simp add: bpck_init_def)
  then show ?thesis using knock_connects_named_unit [OF reached_init, of 7 0 demo_env 7] by auto
qed

lemma packet_engines_agree_witness:
  "bpck_data_write demo_env 5 (projr demo_visited) =
     map_sum id (\<lambda>f. (projr demo_visited)\<lparr>b_sd := sd f\<rparr>)
       (epat_data_write (epat_ops demo_env) 5 (epat_init\<lparr>sd := b_sd (projr demo_visited)\<rparr>))"
  using packet_engines_agree [OF demo_reached, of "epat_init\<lparr>sd := b_sd (projr demo_visited)\<rparr>" 5]
  by (simp add: demo_env_def demo_ops_def drive_ops.defs)

lemma pod_packet_answered_witness:
  "\<exists>t. pod_packet (epp_write demo_env) (epp_read demo_env) [0x12, 0, 0, 0, 3, 0, 0, 0, 0, 0, 0, 0] (length [1, 2, 3 :: u8])
     (projr demo_visited) = Inr ([1, 2, 3], t)"
proof -
  obtain d where d: "b_sd (projr demo_visited) = Some d" "length (atapi_cdb d) = 16"
    using demo_visited by (auto split: option.splits)
  have a: "answers (epat_ops demo_env) [0x12, 0, 0, 0, 3, 0, 0, 0, 0, 0, 0, 0] [1, 2, 3]" "completes (epat_ops demo_env)"
    using demo_answers by (simp_all add: demo_epat_ops)
  have "in_touch (projr demo_visited)" using demo_visited by blast
  then show ?thesis using pod_packet_answered [OF demo_reached _ d(1,2) _ a(1) _ a(2)] by auto
qed

end
