(* ===== verification/Mach8_Dither.thy ===== *)
theory Mach8_Dither
  imports Prelude86
begin

text \<open>
  The 16 bits per pixel mode of the Mach8 display driver
  (\<open>drivers/mach8_display/src/fb16.c\<close>), first part: the card shows 256 colours, so a 5-6-5 pixel
  is dithered (4x4 ordered) into a fixed palette. Here are the palette and the tables of
  \<open>m8_fb16_tables\<close>, the dither itself as the reference routine \<open>m8_fb16_row_ref\<close> has it, and the
  row converter of \<open>fb16cv.asm\<close>, which takes runs of one colour four pixels at a time. No
  value here passes 32767, so the 16-bit \<open>int\<close> of the compiler is \<open>nat\<close> or \<open>int\<close>; a \<open>BYTE\<close> is \<open>u8\<close>.
\<close>

subsection \<open>The palette\<close>

record RGBQUAD =
  rgbRed :: u8
  rgbGreen :: u8
  rgbBlue :: u8
  rgbReserved :: u8

definition m8_fb16_rb_lv :: "nat list" where
  "m8_fb16_rb_lv = [0, 64, 128, 192, 255]"

definition m8_fb16_g_lv :: "nat list" where
  "m8_fb16_g_lv = [0, 32, 64, 96, 128, 160, 192, 224, 255]"

definition m8_fb16_y_low :: "nat list" where
  "m8_fb16_y_low = [8, 16, 24, 32, 40, 48, 56, 72, 80, 88, 96, 104, 112, 120]"

definition m8_fb16_bayer :: "nat list list" where
  "m8_fb16_bayer = [[0, 8, 2, 10], [12, 4, 14, 6], [3, 11, 1, 9], [15, 7, 13, 5]]"

text \<open>\<open>m8_fb16_exact\<close>: the first level whose stored code is \<open>v\<close>, or \<open>None\<close> for -1. The code of level
  \<open>c\<close> is \<open>c * max / 255\<close> or its top bits.\<close>

fun m8_fb16_exact_from :: "nat \<Rightarrow> nat \<Rightarrow> nat \<Rightarrow> nat list \<Rightarrow> nat option" where
  "m8_fb16_exact_from i v bits [] = None"
| "m8_fb16_exact_from i v bits (c # lv) =
     (if v = c * (2 ^ bits - 1) div 255 \<or> v = c div 2 ^ (8 - bits) then Some i
      else m8_fb16_exact_from (i + 1) v bits lv)"

definition m8_fb16_exact :: "nat \<Rightarrow> nat \<Rightarrow> nat list \<Rightarrow> nat option" where
  "m8_fb16_exact v bits lv = m8_fb16_exact_from 0 v bits lv"

definition m8_fb16_exact_any :: "nat \<Rightarrow> nat \<Rightarrow> nat list \<Rightarrow> nat option" where
  "m8_fb16_exact_any v bits lv =
     (case m8_fb16_exact v bits lv of
        Some i \<Rightarrow> Some i
      | None \<Rightarrow> if bits = 6 \<and> even v then m8_fb16_exact (v div 2) 5 lv else None)"

text \<open>\<open>m8_fb16_level\<close>: the 8-bit value \<open>e\<close> the channel stands for (rounded), the level below it (the
  loop), and one more if the distance to it passes the threshold.\<close>

definition m8_fb16_value :: "nat \<Rightarrow> nat \<Rightarrow> nat" where
  "m8_fb16_value v bits = (v * 255 * 2 + (2 ^ bits - 1)) div (2 * (2 ^ bits - 1))"

fun m8_fb16_below :: "nat \<Rightarrow> nat \<Rightarrow> nat list \<Rightarrow> nat" where
  "m8_fb16_below i e (c # d # lv) = (if e > d then m8_fb16_below (i + 1) e (d # lv) else i)"
| "m8_fb16_below i e lv = i"

definition m8_fb16_level :: "nat \<Rightarrow> nat \<Rightarrow> nat list \<Rightarrow> nat \<Rightarrow> nat" where
  "m8_fb16_level v bits lv t =
     (case m8_fb16_exact_any v bits lv of
        Some i \<Rightarrow> i
      | None \<Rightarrow>
          (let e = m8_fb16_value v bits;
               i = m8_fb16_below 0 e lv
           in if (int e - int (lv ! i)) * 32 > int (2 * t + 1) * (int (lv ! (i + 1)) - int (lv ! i))
              then i + 1 else i))"

subsection \<open>The tables\<close>

record fb16_tables =
  m8_fb16_pal :: "RGBQUAD list"
  m8_fb16_cube :: "u8 list"
  m8_fb16_y_lv :: "nat list"
  m8_fb16_y_ix :: "u8 list"
  m8_fb16_r :: "u8 list list"
  m8_fb16_g :: "u8 list list"
  m8_fb16_b :: "u8 list list"
  m8_fb16_y :: "u8 list list"

definition m8_fb16_set :: "nat \<Rightarrow> nat \<Rightarrow> nat \<Rightarrow> nat \<Rightarrow> RGBQUAD list \<Rightarrow> RGBQUAD list" where
  "m8_fb16_set i r g b pal = pal[i := \<lparr>rgbRed = of_nat r, rgbGreen = of_nat g, rgbBlue = of_nat b, rgbReserved = 0\<rparr>]"

text \<open>Cube entry \<open>c\<close> (red * 45 + green * 5 + blue) and its index.\<close>

definition cube_index :: "nat \<Rightarrow> nat" where
  "cube_index c = (if c < 112 then c + 15 else if c = 112 then 127 else c + 16)"

definition cube_loop :: "RGBQUAD list \<Rightarrow> RGBQUAD list" where
  "cube_loop pal = m8_fb16_set 128 128 128 128
     (fold (\<lambda>c. m8_fb16_set (cube_index c) (m8_fb16_rb_lv ! (c div 45)) (m8_fb16_g_lv ! (c div 5 mod 9))
                  (m8_fb16_rb_lv ! (c mod 5))) [0..<225] pal)"

text \<open>The grey ramp in order: a cube grey, then seven greys of the low list or their inverses.\<close>

definition ramp_entry :: "nat \<Rightarrow> nat \<Rightarrow> nat" where
  "ramp_entry k c = (if k < 2 then k * 7 + c else (3 - k) * 7 + (6 - c))"

definition ramp_step :: "nat \<Rightarrow> (nat \<times> nat) list" where
  "ramp_step k =
     (m8_fb16_rb_lv ! k, if k = 0 then 0 else if k = 4 then 255 else cube_index (k * 45 + k * 2 * 5 + k)) #
     (if k = 4 then []
      else map (\<lambda>c. let v = ramp_entry k c
                     in (if k < 2 then m8_fb16_y_low ! v else 255 - m8_fb16_y_low ! v,
                         if k < 2 then v + 1 else 254 - v)) [0..<7])"

definition ramp :: "(nat \<times> nat) list" where
  "ramp = concat (map ramp_step [0..<5])"

definition grey_loop :: "RGBQUAD list \<Rightarrow> RGBQUAD list" where
  "grey_loop pal =
     fold (\<lambda>k p. let v = m8_fb16_y_low ! k
                  in m8_fb16_set (254 - k) (255 - v) (255 - v) (255 - v) (m8_fb16_set (k + 1) v v v p))
       [0..<14] (m8_fb16_set 255 255 255 255 (m8_fb16_set 0 0 0 0 pal))"

text \<open>The palette starts zeroed, as static data does.\<close>

definition blank_pal :: "RGBQUAD list" where
  "blank_pal = replicate 256 \<lparr>rgbRed = 0, rgbGreen = 0, rgbBlue = 0, rgbReserved = 0\<rparr>"

definition grey_part :: "nat \<Rightarrow> nat \<Rightarrow> u8" where
  "grey_part t v =
     (case m8_fb16_exact_any v 6 m8_fb16_rb_lv of
        Some k \<Rightarrow> of_nat (cube_index (k * 45 + k * 2 * 5 + k))
      | None \<Rightarrow> of_nat (snd (ramp ! m8_fb16_level v 6 (map fst ramp) t)))"

definition m8_fb16_tables :: fb16_tables where
  "m8_fb16_tables =
     \<lparr>m8_fb16_pal = grey_loop (cube_loop blank_pal),
      m8_fb16_cube = map (\<lambda>c. of_nat (cube_index c)) [0..<225],
      m8_fb16_y_lv = map fst ramp,
      m8_fb16_y_ix = map (\<lambda>e. of_nat (snd e)) ramp,
      m8_fb16_r = map (\<lambda>t. map (\<lambda>v. of_nat (m8_fb16_level v 5 m8_fb16_rb_lv t * 45)) [0..<32]) [0..<16],
      m8_fb16_g = map (\<lambda>t. map (\<lambda>v. of_nat (m8_fb16_level v 6 m8_fb16_g_lv t * 5)) [0..<64]) [0..<16],
      m8_fb16_b = map (\<lambda>t. map (\<lambda>v. of_nat (m8_fb16_level v 5 m8_fb16_rb_lv t)) [0..<32]) [0..<16],
      m8_fb16_y = map (\<lambda>t. map (grey_part t) [0..<64]) [0..<16]\<rparr>"

subsection \<open>The dither\<close>

text \<open>\<open>m8_fb16_row_ref\<close>, one pixel: 5-6-5 colour \<open>c\<close> at threshold \<open>t\<close>. A grey stores red = blue =
  green / 2 and takes the grey ramp.\<close>

definition ref_pixel :: "nat \<Rightarrow> u16 \<Rightarrow> u8" where
  "ref_pixel t c =
     (let rb = c AND 31; g = drop_bit 5 c AND 63 in
      if drop_bit 11 c = rb \<and> drop_bit 1 g = rb then m8_fb16_y m8_fb16_tables ! t ! unat g
      else m8_fb16_cube m8_fb16_tables !
             (unat (m8_fb16_r m8_fb16_tables ! t ! unat (drop_bit 11 c)) +
              unat (m8_fb16_g m8_fb16_tables ! t ! unat g) +
              unat (m8_fb16_b m8_fb16_tables ! t ! unat rb)))"

definition m8_fb16_row_ref :: "u16 list \<Rightarrow> nat \<Rightarrow> nat \<Rightarrow> u8 list" where
  "m8_fb16_row_ref src y l =
     map2 (\<lambda>x c. ref_pixel (m8_fb16_bayer ! (y mod 4) ! (x mod 4)) c) [l..<l + length src] src"

subsection \<open>The row converter of fb16cv.asm\<close>

text \<open>\<open>M8_FB16_CV\<close>: per phase the part tables of that threshold, and the cube. \<open>m8_fb16_conv\<close> fills it for
  the row.\<close>

record fb16_cv =
  cv_r :: "u8 list list"
  cv_g :: "u8 list list"
  cv_b :: "u8 list list"
  cv_y :: "u8 list list"
  cv_cube :: "u8 list"

definition cv_for :: "nat \<Rightarrow> fb16_cv" where
  "cv_for y = (let th = m8_fb16_bayer ! (y mod 4) in
     \<lparr>cv_r = map (\<lambda>k. m8_fb16_r m8_fb16_tables ! (th ! k)) [0..<4],
      cv_g = map (\<lambda>k. m8_fb16_g m8_fb16_tables ! (th ! k)) [0..<4],
      cv_b = map (\<lambda>k. m8_fb16_b m8_fb16_tables ! (th ! k)) [0..<4],
      cv_y = map (\<lambda>k. m8_fb16_y m8_fb16_tables ! (th ! k)) [0..<4],
      cv_cube = m8_fb16_cube m8_fb16_tables\<rparr>)"

text \<open>\<open>pixel\<close>: the parts are added in AL, 8 bits.\<close>

definition asm_pixel :: "fb16_cv \<Rightarrow> nat \<Rightarrow> u16 \<Rightarrow> u8" where
  "asm_pixel cv dx ax =
     (let blue = ax AND 31; red = drop_bit 11 ax; green = drop_bit 5 ax AND 63 in
      if red = blue \<and> drop_bit 1 green = red then cv_y cv ! dx ! unat green
      else cv_cube cv ! unat ((cv_r cv ! dx ! unat red) + (cv_g cv ! dx ! unat green) + (cv_b cv ! dx ! unat blue)))"

text \<open>\<open>rep stosd\<close> and the tail: a run of \<open>n\<close> pixels of the pattern in EAX, low byte first.\<close>

definition store_run :: "u8 list \<Rightarrow> nat \<Rightarrow> u8 list" where
  "store_run eax n = concat (replicate (n div 4) eax) @ take (n mod 4) eax"

text \<open>A short run: a lookup a pixel, the phase stepping modulo 4.\<close>

fun short_run :: "fb16_cv \<Rightarrow> nat \<Rightarrow> u16 list \<Rightarrow> u8 list" where
  "short_run cv dx [] = []"
| "short_run cv dx (c # cs) = asm_pixel cv dx c # short_run cv ((dx + 1) mod 4) cs"

function M8_FB16_CONV :: "fb16_cv \<Rightarrow> nat \<Rightarrow> u16 list \<Rightarrow> u8 list" where
  "M8_FB16_CONV cv dx [] = []"
| "M8_FB16_CONV cv dx (c # cs) =
     (let cx = length (takeWhile (\<lambda>w. w = c) (c # cs));
          pat = map (\<lambda>k. asm_pixel cv k c) [0..<4]
      in (if cx < 8 then short_run cv dx (take cx (c # cs))
          else store_run (take 4 (drop dx (pat @ pat))) cx) @
         M8_FB16_CONV cv ((dx + cx) mod 4) (drop cx (c # cs)))"
  by pat_completeness auto
termination by (relation "measure (\<lambda>(cv, dx, cs). length cs)") auto

text \<open>\<open>m8_fb16_conv\<close>: the words as row \<open>y\<close> from column \<open>l\<close>.\<close>

definition m8_fb16_conv :: "u16 list \<Rightarrow> nat \<Rightarrow> nat \<Rightarrow> u8 list" where
  "m8_fb16_conv src y l = M8_FB16_CONV (cv_for y) (l mod 4) src"

end
