(* ===== verification/Mach8_Palette.thy ===== *)
theory Mach8_Palette
  imports Mach8_Dither
begin

text \<open>
  What \<open>Mach8_Dither\<close>'s tables hold: the palette entry by entry, that an index and its complement are
  inverse colours to within one step, that every colour of the cube is drawn flat however GDI
  stored it, how close the average of a 4x4 block comes to a colour between levels, and that the
  assembler's row converter is the reference routine.
\<close>

subsection \<open>Levels\<close>

lemma exact_from_bound: "m8_fb16_exact_from i v bits lv = Some k \<Longrightarrow> i \<le> k \<and> k < i + length lv"
  by (induction i v bits lv rule: m8_fb16_exact_from.induct) (auto split: if_splits)

lemma exact_any_bound: "m8_fb16_exact_any v bits lv = Some k \<Longrightarrow> k < length lv"
  by (auto simp: m8_fb16_exact_any_def m8_fb16_exact_def split: option.splits if_splits
        dest: exact_from_bound)

lemma below_bound:
  assumes "lv \<noteq> []" shows "i \<le> m8_fb16_below i e lv \<and> m8_fb16_below i e lv < i + length lv"
  using assms by (induction i e lv rule: m8_fb16_below.induct) (auto split: if_splits)

lemma below_not_last:
  assumes "2 \<le> length lv" "e \<le> last lv"
  shows "m8_fb16_below i e lv + 2 \<le> i + length lv"
  using assms
proof (induction i e lv rule: m8_fb16_below.induct)
  case (1 i e c d lv)
  then show ?case by (cases lv) auto
qed auto

lemma value_bound: "0 < bits \<Longrightarrow> v < 2 ^ bits \<Longrightarrow> m8_fb16_value v bits \<le> 255"
proof -
  assume "0 < bits" "v < 2 ^ bits"
  moreover define m :: nat where "m = 2 ^ bits - 1"
  moreover have "(2 :: nat) ^ 1 \<le> 2 ^ bits" by (rule power_increasing) (use \<open>0 < bits\<close> in auto)
  ultimately have m: "v \<le> m" "0 < m" by auto
  then have "v * 255 * 2 + m < 256 * (2 * m)" by simp
  then have "(v * 255 * 2 + m) div (2 * m) < 256" by (rule less_mult_imp_div_less)
  then show ?thesis unfolding m8_fb16_value_def m_def [symmetric] by simp
qed

lemma level_bound:
  assumes "2 \<le> length lv" "last lv = 255" "0 < bits" "v < 2 ^ bits"
  shows "m8_fb16_level v bits lv t < length lv"
proof (cases "m8_fb16_exact_any v bits lv")
  case None
  have "m8_fb16_below 0 (m8_fb16_value v bits) lv + 2 \<le> length lv"
    using below_not_last [of lv "m8_fb16_value v bits" 0] value_bound [of bits v] assms by simp
  with None show ?thesis by (simp add: m8_fb16_level_def Let_def)
next
  case (Some k)
  with exact_any_bound [OF Some] show ?thesis by (simp add: m8_fb16_level_def)
qed

lemma rb_level: "v < 32 \<Longrightarrow> m8_fb16_level v 5 m8_fb16_rb_lv t < 5"
  using level_bound [of m8_fb16_rb_lv 5 v t] by (simp add: m8_fb16_rb_lv_def)

lemma g_level: "v < 64 \<Longrightarrow> m8_fb16_level v 6 m8_fb16_g_lv t < 9"
  using level_bound [of m8_fb16_g_lv 6 v t] by (simp add: m8_fb16_g_lv_def)

subsection \<open>Tables\<close>

lemma table_r: "t < 16 \<Longrightarrow> v < 32 \<Longrightarrow>
    m8_fb16_r m8_fb16_tables ! t ! v = of_nat (m8_fb16_level v 5 m8_fb16_rb_lv t * 45)"
  by (simp add: m8_fb16_tables_def)
lemma table_g: "t < 16 \<Longrightarrow> v < 64 \<Longrightarrow>
    m8_fb16_g m8_fb16_tables ! t ! v = of_nat (m8_fb16_level v 6 m8_fb16_g_lv t * 5)"
  by (simp add: m8_fb16_tables_def)
lemma table_b: "t < 16 \<Longrightarrow> v < 32 \<Longrightarrow>
    m8_fb16_b m8_fb16_tables ! t ! v = of_nat (m8_fb16_level v 5 m8_fb16_rb_lv t)"
  by (simp add: m8_fb16_tables_def)
lemma table_y: "t < 16 \<Longrightarrow> v < 64 \<Longrightarrow> m8_fb16_y m8_fb16_tables ! t ! v = grey_part t v"
  by (simp add: m8_fb16_tables_def)
lemma table_cube: "c < 225 \<Longrightarrow> m8_fb16_cube m8_fb16_tables ! c = of_nat (cube_index c)"
  by (simp add: m8_fb16_tables_def)

lemmas table_simps = table_r table_g table_b table_y table_cube

lemma low_bits_bound: "unat ((x :: u16) AND mask n) < 2 ^ n"
  unfolding take_bit_eq_mask [symmetric] by (simp add: unsigned_take_bit_eq)

lemma red_bound: "unat (drop_bit 11 (c :: u16)) < 32"
proof -
  have "unat c < 2 ^ 16" using unsigned_less [of c] by simp
  moreover have "take_bit 16 (unat c) = unat c" by (rule take_bit_nat_eq_self) (fact calculation)
  then have "unat (drop_bit 11 c) = unat c div 2 ^ 11"
    by (simp add: unsigned_drop_bit_eq) (simp add: drop_bit_eq_div)
  ultimately show ?thesis by simp
qed

lemma green_bound: "unat (drop_bit 5 (c :: u16) AND 63) < 64"
  using low_bits_bound [of _ 6] by (simp add: mask_eq_exp_minus_1)

lemma blue_bound: "unat ((c :: u16) AND 31) < 32"
  using low_bits_bound [of _ 5] by (simp add: mask_eq_exp_minus_1)

lemmas channel_bounds = red_bound green_bound blue_bound

lemma unat_of_nat_small: "n < 256 \<Longrightarrow> unat (of_nat n :: u8) = n"
  by (simp add: unat_of_nat)

text \<open>The three parts of a colour name a cube entry; in AL they do not wrap.\<close>

lemma parts_sum:
  assumes "t < 16"
  defines "r \<equiv> \<lambda>c. m8_fb16_r m8_fb16_tables ! t ! unat (drop_bit 11 c)"
    and "g \<equiv> \<lambda>c. m8_fb16_g m8_fb16_tables ! t ! unat (drop_bit 5 c AND 63)"
    and "b \<equiv> \<lambda>c. m8_fb16_b m8_fb16_tables ! t ! unat (c AND 31)"
  shows "unat (r c + g c + b c) = unat (r c) + unat (g c) + unat (b c)"
    and "unat (r c) + unat (g c) + unat (b (c :: u16)) < 225"
proof -
  define i where "i = m8_fb16_level (unat (drop_bit 11 c)) 5 m8_fb16_rb_lv t"
  define j where "j = m8_fb16_level (unat (drop_bit 5 c AND 63)) 6 m8_fb16_g_lv t"
  define k where "k = m8_fb16_level (unat (c AND 31)) 5 m8_fb16_rb_lv t"
  have b: "i < 5" "j < 9" "k < 5"
    unfolding i_def j_def k_def by (intro rb_level g_level channel_bounds)+
  have e: "r c = of_nat (i * 45)" "g c = of_nat (j * 5)" "b c = of_nat k"
    unfolding r_def g_def b_def i_def j_def k_def
    by (rule table_r table_g table_b, rule assms, rule channel_bounds)+
  have u: "unat (r c) = i * 45" "unat (g c) = j * 5" "unat (b c) = k"
    unfolding e using b by (subst unat_of_nat_small; simp)+
  from u b show s: "unat (r c) + unat (g c) + unat (b c) < 225" by simp
  have "r c + g c + b c = of_nat (i * 45 + j * 5 + k)" by (simp add: e)
  then have "unat (r c + g c + b c) = i * 45 + j * 5 + k"
    using b by (simp only:) (subst unat_of_nat_small; simp)
  then show "unat (r c + g c + b c) = unat (r c) + unat (g c) + unat (b c)" by (simp only: u)
qed

subsection \<open>The row converter\<close>

lemma bayer_bound: "m8_fb16_bayer ! (y mod 4) ! (x mod 4) < 16"
proof -
  have "y mod 4 < 4" "x mod 4 < 4" by simp_all
  moreover have "\<forall>i < 4. \<forall>j < 4. m8_fb16_bayer ! i ! j < 16" by code_simp
  ultimately show ?thesis by blast
qed

lemma asm_pixel_ref:
  "asm_pixel (cv_for y) (x mod 4) c = ref_pixel (m8_fb16_bayer ! (y mod 4) ! (x mod 4)) c"
proof -
  have "x mod 4 < 4" by simp
  then have "cv_r (cv_for y) ! (x mod 4) = m8_fb16_r m8_fb16_tables ! (m8_fb16_bayer ! (y mod 4) ! (x mod 4))"
    "cv_g (cv_for y) ! (x mod 4) = m8_fb16_g m8_fb16_tables ! (m8_fb16_bayer ! (y mod 4) ! (x mod 4))"
    "cv_b (cv_for y) ! (x mod 4) = m8_fb16_b m8_fb16_tables ! (m8_fb16_bayer ! (y mod 4) ! (x mod 4))"
    "cv_y (cv_for y) ! (x mod 4) = m8_fb16_y m8_fb16_tables ! (m8_fb16_bayer ! (y mod 4) ! (x mod 4))"
    "cv_cube (cv_for y) = m8_fb16_cube m8_fb16_tables"
    by (simp_all add: cv_for_def Let_def)
  then show ?thesis
    by (simp add: asm_pixel_def ref_pixel_def Let_def parts_sum(1) [OF bayer_bound])
qed

lemma concat_replicate_nth:
  "xs \<noteq> [] \<Longrightarrow> i < m * length xs \<Longrightarrow> concat (replicate m xs) ! i = xs ! (i mod length xs)"
  by (induction m arbitrary: i) (auto simp: nth_append le_mod_geq)

lemma store_run_nth:
  assumes "length eax = 4" "i < n" shows "store_run eax n ! i = eax ! (i mod 4)"
proof (cases "i < n div 4 * 4")
  case True
  then show ?thesis
    using assms concat_replicate_nth [of eax i "n div 4"] length_greater_0_conv [of eax]
    by (simp del: length_greater_0_conv add: store_run_def nth_append length_concat sum_list_replicate)
next
  case False
  moreover have "n = n div 4 * 4 + n mod 4" by simp
  ultimately have "i div 4 = n div 4" "i - n div 4 * 4 < n mod 4"
    using assms(2) by linarith+
  then have "i mod 4 = i - n div 4 * 4" "i - n div 4 * 4 < n mod 4" by (simp_all add: modulo_nat_def)
  with False assms show ?thesis
    by (simp add: store_run_def nth_append length_concat sum_list_replicate)
qed

lemma length_store_run: "length eax = 4 \<Longrightarrow> length (store_run eax n) = n"
  by (simp add: store_run_def length_concat sum_list_replicate)

text \<open>The reading both routines share: each pixel at its own phase.\<close>

definition phased :: "(nat \<Rightarrow> u16 \<Rightarrow> u8) \<Rightarrow> nat \<Rightarrow> u16 list \<Rightarrow> u8 list" where
  "phased f dx cs = map2 (\<lambda>i c. f ((dx + i) mod 4) c) [0..<length cs] cs"

lemma length_phased [simp]: "length (phased f dx cs) = length cs"
  by (simp add: phased_def)

lemma phased_nth: "i < length cs \<Longrightarrow> phased f dx cs ! i = f ((dx + i) mod 4) (cs ! i)"
  by (simp add: phased_def)

lemma phased_Nil [simp]: "phased f dx [] = []" by (simp add: phased_def)

lemma phased_append: "phased f dx (xs @ ys) = phased f dx xs @ phased f ((dx + length xs) mod 4) ys"
proof (rule nth_equalityI)
  fix i assume "i < length (phased f dx (xs @ ys))"
  moreover have "((dx + length xs) mod 4 + (i - length xs)) mod 4 = (dx + i) mod 4" if "length xs \<le> i"
  proof -
    have "dx + length xs + (i - length xs) = dx + i" using that by simp
    then show ?thesis by (metis mod_add_left_eq)
  qed
  ultimately show "phased f dx (xs @ ys) ! i = (phased f dx xs @ phased f ((dx + length xs) mod 4) ys) ! i"
    by (auto simp: phased_nth nth_append not_less)
qed simp

lemma phased_Cons: "phased f dx (c # cs) = f (dx mod 4) c # phased f ((dx + 1) mod 4) cs"
  using phased_append [of f dx "[c]" cs] by (simp add: phased_def)

lemma short_run_phased: "dx < 4 \<Longrightarrow> short_run cv dx cs = phased (asm_pixel cv) dx cs"
  by (induction cv dx cs rule: short_run.induct) (simp_all add: phased_Cons)

definition pattern :: "fb16_cv \<Rightarrow> nat \<Rightarrow> u16 \<Rightarrow> u8 list" where
  "pattern cv dx c = (let pat = map (\<lambda>k. asm_pixel cv k c) [0..<4] in take 4 (drop dx (pat @ pat)))"

lemma pattern_props:
  assumes "dx < 4"
  shows "length (pattern cv dx c) = 4"
    and "i < 4 \<Longrightarrow> pattern cv dx c ! i = asm_pixel cv ((dx + i) mod 4) c"
proof -
  have p: "map (\<lambda>k. asm_pixel cv k c) [0..<4] @ map (\<lambda>k. asm_pixel cv k c) [0..<4] =
    map (\<lambda>k. asm_pixel cv (k mod 4) c) [0..<8]"
    by (rule nth_equalityI) (auto simp: nth_append le_mod_geq)
  show "length (pattern cv dx c) = 4" using assms by (simp add: pattern_def Let_def p)
  show "i < 4 \<Longrightarrow> pattern cv dx c ! i = asm_pixel cv ((dx + i) mod 4) c"
    unfolding pattern_def Let_def p
    by (subst nth_take, assumption, subst nth_drop) (use assms in auto)
qed

lemma long_run_phased:
  assumes "dx < 4" "\<forall>w \<in> List.set cs. w = c" "n = length cs"
  shows "store_run (pattern cv dx c) n = phased (asm_pixel cv) dx cs"
proof (rule nth_equalityI)
  have l: "length (pattern cv dx c) = 4" by (rule pattern_props) (rule assms)
  then show "length (store_run (pattern cv dx c) n) = length (phased (asm_pixel cv) dx cs)"
    by (simp add: length_store_run assms(3))
  fix i assume "i < length (store_run (pattern cv dx c) n)"
  then have i: "i < n" by (simp add: length_store_run l)
  have "cs ! i = c" using assms(2,3) i by (simp add: nth_mem)
  moreover have "pattern cv dx c ! (i mod 4) = asm_pixel cv ((dx + i) mod 4) c"
    using pattern_props(2) [of dx "i mod 4" cv c] assms(1) by (simp add: mod_simps)
  ultimately show "store_run (pattern cv dx c) n ! i = phased (asm_pixel cv) dx cs ! i"
    using i by (simp add: store_run_nth [OF l i] phased_nth flip: assms(3))
qed

lemma conv_phased: "dx < 4 \<Longrightarrow> M8_FB16_CONV cv dx cs = phased (asm_pixel cv) dx cs"
proof (induction cv dx cs rule: M8_FB16_CONV.induct)
  case (2 cv dx c cs)
  define cx where "cx = length (takeWhile (\<lambda>w. w = c) (c # cs))"
  define run where "run = take cx (c # cs)"
  have r: "run = takeWhile (\<lambda>w. w = c) (c # cs)"
    unfolding run_def cx_def by (metis takeWhile_eq_take)
  have a: "\<forall>w \<in> List.set run. w = c" unfolding r by (auto dest: set_takeWhileD)
  have l: "length run = cx" unfolding r cx_def ..
  have h: "(if cx < 8 then short_run cv dx run
            else store_run (pattern cv dx c) cx)
         = phased (asm_pixel cv) dx run"
    using long_run_phased [OF 2(2) a l [symmetric]] short_run_phased [OF 2(2)] by simp
  have "M8_FB16_CONV cv dx (c # cs) = phased (asm_pixel cv) dx run @ M8_FB16_CONV cv ((dx + cx) mod 4) (drop cx (c # cs))"
    by (subst M8_FB16_CONV.simps) (simp only: Let_def cx_def [symmetric] run_def [symmetric] pattern_def [unfolded Let_def, symmetric] h)
  also have "M8_FB16_CONV cv ((dx + cx) mod 4) (drop cx (c # cs)) = phased (asm_pixel cv) ((dx + cx) mod 4) (drop cx (c # cs))"
    by (rule 2(1) [OF cx_def refl]) simp
  also have "phased (asm_pixel cv) dx run @ \<dots> = phased (asm_pixel cv) dx (run @ drop cx (c # cs))"
    by (simp add: phased_append l)
  also have "run @ drop cx (c # cs) = c # cs" by (simp add: run_def)
  finally show ?case .
qed simp

lemma row_ref_phased:
  "m8_fb16_row_ref src y l = phased (\<lambda>k. ref_pixel (m8_fb16_bayer ! (y mod 4) ! k)) (l mod 4) src"
  by (rule nth_equalityI) (auto simp: m8_fb16_row_ref_def phased_nth mod_simps)

lemma conv_row_ref: "m8_fb16_conv src y l = m8_fb16_row_ref src y l"
  unfolding m8_fb16_conv_def row_ref_phased
  by (simp add: conv_phased phased_def asm_pixel_ref)


subsection \<open>The palette\<close>

lemma pal_loops: "m8_fb16_pal m8_fb16_tables = grey_loop (cube_loop blank_pal)"
  by (simp add: m8_fb16_tables_def)

definition colour_of :: "u8 \<Rightarrow> nat \<times> nat \<times> nat" where
  "colour_of i = (let q = m8_fb16_pal m8_fb16_tables ! unat i in (unat (rgbRed q), unat (rgbGreen q), unat (rgbBlue q)))"

definition cube_colour :: "nat \<Rightarrow> nat \<times> nat \<times> nat" where
  "cube_colour c = (m8_fb16_rb_lv ! (c div 45), m8_fb16_g_lv ! (c div 5 mod 9), m8_fb16_rb_lv ! (c mod 5))"

definition palette_layout :: "nat \<Rightarrow> nat \<times> nat \<times> nat" where
  "palette_layout i =
     (let grey = \<lambda>v. (v, v, v) in
      if i = 0 then grey 0
      else if i \<le> 14 then grey (m8_fb16_y_low ! (i - 1))
      else if i \<le> 126 then cube_colour (i - 15)
      else if i \<le> 128 then grey 128
      else if i \<le> 240 then cube_colour (i - 16)
      else if i \<le> 254 then grey (255 - m8_fb16_y_low ! (254 - i))
      else grey 255)"

definition rgb_values :: "RGBQUAD \<Rightarrow> nat \<times> nat \<times> nat" where
  "rgb_values q = (unat (rgbRed q), unat (rgbGreen q), unat (rgbBlue q))"

text \<open>A loop of stores at distinct indices.\<close>

lemma fold_update_length [simp]: "length (fold (\<lambda>c p. p[f c := g c]) cs p) = length p"
  by (induction cs arbitrary: p) auto

lemma fold_update_other: "j \<notin> f ` List.set cs \<Longrightarrow> fold (\<lambda>c p. p[f c := g c]) cs p ! j = p ! j"
  by (induction cs arbitrary: p) auto

lemma fold_update_nth:
  assumes "inj_on f (List.set cs)" "c \<in> List.set cs" "\<forall>c \<in> List.set cs. f c < length p" "distinct cs"
  shows "fold (\<lambda>c p. p[f c := g c]) cs p ! f c = g c"
  using assms
proof (induction cs arbitrary: p)
  case (Cons a cs)
  show ?case
  proof (cases "c = a")
    case True
    then have "f c \<notin> f ` List.set cs" using Cons.prems(1,4) by (auto simp: inj_on_def)
    then show ?thesis using Cons.prems(3) True by (simp add: fold_update_other)
  next
    case False
    then show ?thesis using Cons.prems by (simp add: Cons.IH)
  qed
qed simp

definition quad :: "nat \<times> nat \<times> nat \<Rightarrow> RGBQUAD" where
  "quad c = (case c of (r, g, b) \<Rightarrow> \<lparr>rgbRed = of_nat r, rgbGreen = of_nat g, rgbBlue = of_nat b, rgbReserved = 0\<rparr>)"

lemma m8_fb16_set_quad: "m8_fb16_set i r g b = (\<lambda>p. p[i := quad (r, g, b)])"
  by (simp add: m8_fb16_set_def quad_def fun_eq_iff)

lemma cube_index_inj: "inj_on cube_index A"
  by (auto simp: inj_on_def cube_index_def split: if_splits)

lemma cube_index_range: "c < 225 \<Longrightarrow> 15 \<le> cube_index c \<and> cube_index c \<le> 240 \<and> cube_index c \<noteq> 128"
  by (auto simp: cube_index_def)

lemma cube_index_below: "c < 225 \<Longrightarrow> cube_index c < 256"
  using cube_index_range [of c] by linarith

lemma cube_loop_as_updates: "cube_loop pal =
   (fold (\<lambda>c p. p[cube_index c := quad (cube_colour c)]) [0..<225] pal)[128 := quad (128, 128, 128)]"
  by (simp add: cube_loop_def m8_fb16_set_quad cube_colour_def)

lemma grey_loop_as_updates: "grey_loop pal =
   fold (\<lambda>k p. p[254 - k := quad (255 - m8_fb16_y_low ! k, 255 - m8_fb16_y_low ! k, 255 - m8_fb16_y_low ! k)])
     [0..<14] (fold (\<lambda>k p. p[k + 1 := quad (m8_fb16_y_low ! k, m8_fb16_y_low ! k, m8_fb16_y_low ! k)])
     [0..<14] (pal[0 := quad (0, 0, 0), 255 := quad (255, 255, 255)]))"
  by (simp add: grey_loop_def m8_fb16_set_quad Let_def upt_rec list_update_swap)

lemma grey_loop_nth:
  assumes "length pal = 256" "j < 256"
  shows "grey_loop pal ! j =
    (if j = 0 then quad (0, 0, 0)
     else if j \<le> 14 then quad (m8_fb16_y_low ! (j - 1), m8_fb16_y_low ! (j - 1), m8_fb16_y_low ! (j - 1))
     else if j \<le> 240 then pal ! j
     else if j \<le> 254 then quad (255 - m8_fb16_y_low ! (254 - j), 255 - m8_fb16_y_low ! (254 - j), 255 - m8_fb16_y_low ! (254 - j))
     else quad (255, 255, 255))"
proof -
  let ?lo = "\<lambda>k. quad (m8_fb16_y_low ! k, m8_fb16_y_low ! k, m8_fb16_y_low ! k)"
  let ?hi = "\<lambda>k. quad (255 - m8_fb16_y_low ! k, 255 - m8_fb16_y_low ! k, 255 - m8_fb16_y_low ! k)"
  define p1 where "p1 = fold (\<lambda>k p. p[k + 1 := ?lo k]) [0..<14] (pal[0 := quad (0, 0, 0), 255 := quad (255, 255, 255)])"
  have l1: "length p1 = 256" by (simp add: p1_def assms)
  have g: "grey_loop pal = fold (\<lambda>k p. p[254 - k := ?hi k]) [0..<14] p1"
    by (simp only: grey_loop_as_updates p1_def)
  have hi: "grey_loop pal ! (254 - k) = ?hi k" if "k < 14" for k
    unfolding g by (rule fold_update_nth) (use that l1 in \<open>auto simp: inj_on_def\<close>)
  have hi_other: "grey_loop pal ! j = p1 ! j" if "\<not> (241 \<le> j \<and> j \<le> 254)" for j
    unfolding g by (rule fold_update_other) (use that in auto)
  have lo: "p1 ! (k + 1) = ?lo k" if "k < 14" for k
    unfolding p1_def by (rule fold_update_nth) (use that assms in \<open>auto simp: inj_on_def\<close>)
  have lo_other: "p1 ! j = (pal[0 := quad (0, 0, 0), 255 := quad (255, 255, 255)]) ! j" if "\<not> (1 \<le> j \<and> j \<le> 14)" for j
    unfolding p1_def by (rule fold_update_other) (use that in auto)
  show ?thesis
    using hi [of "254 - j"] hi_other [of j] lo [of "j - 1"] lo_other [of j] assms by (auto simp: nth_list_update)
qed

lemma cube_loop_nth:
  assumes "length pal = 256"
  shows "c < 225 \<Longrightarrow> cube_loop pal ! cube_index c = quad (cube_colour c)"
    and "cube_loop pal ! 128 = quad (128, 128, 128)"
    and "length (cube_loop pal) = 256"
proof -
  define p1 where "p1 = fold (\<lambda>c p. p[cube_index c := quad (cube_colour c)]) [0..<225] pal"
  have g: "cube_loop pal = p1[128 := quad (128, 128, 128)]" by (simp only: cube_loop_as_updates p1_def)
  have l: "length p1 = 256" by (simp add: p1_def assms)
  have "p1 ! cube_index c = quad (cube_colour c)" if "c < 225" for c
    unfolding p1_def
    by (rule fold_update_nth) (use that assms in \<open>auto simp: cube_index_inj intro!: cube_index_below\<close>)
  then show "c < 225 \<Longrightarrow> cube_loop pal ! cube_index c = quad (cube_colour c)"
    using cube_index_range [of c] by (simp add: g)
  show "cube_loop pal ! 128 = quad (128, 128, 128)" "length (cube_loop pal) = 256" by (simp_all add: g l)
qed

lemma pal_entry:
  assumes "i < 256" shows "m8_fb16_pal m8_fb16_tables ! i = quad (palette_layout i)"
proof -
  have l: "length blank_pal = 256" by (simp add: blank_pal_def)
  define c where "c = (if i \<le> 126 then i - 15 else if i = 127 then 112 else i - 16)"
  have c: "i = cube_index c" "c < 225" if "15 \<le> i" "i \<le> 240" "i \<noteq> 128"
    using that by (auto simp: cube_index_def c_def)
  have "cube_loop blank_pal ! i = quad (palette_layout i)" if "15 \<le> i" "i \<le> 240"
  proof (cases "i = 128")
    case True then show ?thesis by (simp add: cube_loop_nth(2) [OF l] palette_layout_def)
  next
    case False
    have "palette_layout i = cube_colour c"
      using that False by (auto simp: palette_layout_def c_def cube_colour_def m8_fb16_rb_lv_def m8_fb16_g_lv_def)
    with cube_loop_nth(1) [OF l c(2)] c(1) that False show ?thesis by metis
  qed
  then show ?thesis
    using assms by (auto simp: pal_loops grey_loop_nth [OF cube_loop_nth(3) [OF l]] palette_layout_def Let_def)
qed

lemma cube_entry: "c < 225 \<Longrightarrow> m8_fb16_pal m8_fb16_tables ! cube_index c = quad (cube_colour c)"
  using cube_index_range [of c]
  by (simp add: pal_loops grey_loop_nth cube_loop_nth blank_pal_def)

lemma all_below_5: "(\<forall>k < 5 :: nat. P k) \<longleftrightarrow> P 0 \<and> P 1 \<and> P 2 \<and> P 3 \<and> P 4"
proof -
  have "[0..<5] = [0, 1, 2, 3, 4]" by code_simp
  moreover have "(\<forall>k < 5 :: nat. P k) \<longleftrightarrow> (\<forall>k \<in> List.set [0..<5]. P k)" by (auto simp: Ball_def)
  ultimately show ?thesis by simp
qed

lemma all_below_9: "(\<forall>k < 9 :: nat. P k) \<longleftrightarrow> P 0 \<and> P 1 \<and> P 2 \<and> P 3 \<and> P 4 \<and> P 5 \<and> P 6 \<and> P 7 \<and> P 8"
proof -
  have "[0..<9] = [0, 1, 2, 3, 4, 5, 6, 7, 8]" by code_simp
  moreover have "(\<forall>k < 9 :: nat. P k) \<longleftrightarrow> (\<forall>k \<in> List.set [0..<9]. P k)" by (auto simp: Ball_def)
  ultimately show ?thesis by simp
qed

lemmas all_below = all_below_5 all_below_9

lemmas eval_simps = m8_fb16_rb_lv_def m8_fb16_g_lv_def m8_fb16_y_low_def m8_fb16_exact_any_def m8_fb16_exact_def

lemma y_low_bound: "\<forall>k < 14. m8_fb16_y_low ! k < 256"
proof -
  have "\<forall>v \<in> List.set m8_fb16_y_low. v < 256" "length m8_fb16_y_low = 14" by (simp_all add: m8_fb16_y_low_def)
  then show ?thesis by (metis nth_mem)
qed

text \<open>The digits of a cube entry, and those of its mirror.\<close>

lemma cube_digits:
  fixes A B D :: nat
  assumes "B < 9" "D < 5"
  shows "(45 * A + 5 * B + D) div 45 = A" "(45 * A + 5 * B + D) div 5 mod 9 = B" "(45 * A + 5 * B + D) mod 5 = D"
proof -
  have e: "45 * A + 5 * B + D = D + 5 * (B + 9 * A)" by simp
  have d: "(45 * A + 5 * B + D) div 5 = B + 9 * A" unfolding e using assms by (simp add: div_mult_self2)
  have "(45 * A + 5 * B + D) div 45 = (45 * A + 5 * B + D) div 5 div 9" by (simp add: div_mult2_eq [symmetric])
  then show "(45 * A + 5 * B + D) div 45 = A" unfolding d using assms by simp
  show "(45 * A + 5 * B + D) div 5 mod 9 = B" unfolding d using assms by simp
  show "(45 * A + 5 * B + D) mod 5 = D" unfolding e using assms by (simp only: mod_mult_self2 mod_less)
qed

lemma cube_mirror:
  fixes c :: nat
  assumes "c < 225"
  shows "(224 - c) div 45 = 4 - c div 45" "(224 - c) div 5 mod 9 = 8 - c div 5 mod 9" "(224 - c) mod 5 = 4 - c mod 5"
    "c div 45 < 5" "c div 5 mod 9 < 9" "c mod 5 < 5"
proof -
  define a b d where "a = c div 45" "b = c div 5 mod 9" "d = c mod 5"
  have "c div 45 = c div 5 div 9" by (simp add: div_mult2_eq [symmetric])
  moreover have "c = 5 * (c div 5) + c mod 5" "c div 5 = 9 * (c div 5 div 9) + c div 5 mod 9" by simp_all
  ultimately have c: "c = 45 * a + 5 * b + d" unfolding a_b_d_def by linarith
  have bd: "a < 5" "b < 9" "d < 5" using assms by (auto simp: a_b_d_def)
  then have m: "224 - c = 45 * (4 - a) + 5 * (8 - b) + (4 - d)" using c by linarith
  show "(224 - c) div 45 = 4 - c div 45" "(224 - c) div 5 mod 9 = 8 - c div 5 mod 9" "(224 - c) mod 5 = 4 - c mod 5"
    unfolding m using bd by (subst cube_digits; simp add: a_b_d_def)+
  show "c div 45 < 5" "c div 5 mod 9 < 9" "c mod 5 < 5" using bd by (simp_all add: a_b_d_def)
qed

lemma level_values: "\<forall>k < 5. m8_fb16_rb_lv ! k < 256" "\<forall>k < 9. m8_fb16_g_lv ! k < 256"
  unfolding all_below by (simp_all add: eval_simps)

lemma palette_layout_inverse:
  assumes "i < 256" "palette_layout i = (r, g, b)" "palette_layout (255 - i) = (r', g', b')"
  shows "r + r' \<in> {255, 256} \<and> g + g' \<in> {255, 256} \<and> b + b' \<in> {255, 256}"
proof -
  have low: "\<forall>k < 14. m8_fb16_y_low ! k < 256" by (rule y_low_bound)
  have rb: "\<forall>k < 5. m8_fb16_rb_lv ! k + m8_fb16_rb_lv ! (4 - k) \<in> {255, 256}" unfolding all_below by (simp add: eval_simps)
  have gr: "\<forall>k < 9. m8_fb16_g_lv ! k + m8_fb16_g_lv ! (8 - k) \<in> {255, 256}" unfolding all_below by (simp add: eval_simps)
  have cube: "r + r' \<in> {255, 256} \<and> g + g' \<in> {255, 256} \<and> b + b' \<in> {255, 256}"
    if "c < 225" "cube_colour c = (r, g, b)" "cube_colour (224 - c) = (r', g', b')" for c r g b r' g' b'
  proof -
    note d = cube_mirror [OF that(1)]
    have "r' = m8_fb16_rb_lv ! (4 - c div 45)" "g' = m8_fb16_g_lv ! (8 - c div 5 mod 9)" "b' = m8_fb16_rb_lv ! (4 - c mod 5)"
      using that(3) d by (simp_all add: cube_colour_def)
    moreover have "r = m8_fb16_rb_lv ! (c div 45)" "g = m8_fb16_g_lv ! (c div 5 mod 9)" "b = m8_fb16_rb_lv ! (c mod 5)"
      using that(2) by (simp_all add: cube_colour_def)
    ultimately show ?thesis using rb gr d(4-6) by metis
  qed
  have greys: "palette_layout (k + 1) = (m8_fb16_y_low ! k, m8_fb16_y_low ! k, m8_fb16_y_low ! k)"
    "palette_layout (254 - k) = (255 - m8_fb16_y_low ! k, 255 - m8_fb16_y_low ! k, 255 - m8_fb16_y_low ! k)"
    "m8_fb16_y_low ! k \<le> 255" if "k < 14" for k
    using that low by (auto simp: palette_layout_def Let_def)
  consider "i = 0 \<or> i = 255" | k where "k < 14" "i = k + 1" | k where "k < 14" "i = 254 - k" | "i = 127 \<or> i = 128"
    | "15 \<le> i \<and> i \<le> 126" | "129 \<le> i \<and> i \<le> 240"
  proof -
    have "1 \<le> i \<Longrightarrow> i \<le> 14 \<Longrightarrow> thesis" by (rule that(2) [of "i - 1"]) auto
    moreover have "241 \<le> i \<Longrightarrow> i \<le> 254 \<Longrightarrow> thesis" by (rule that(3) [of "254 - i"]) auto
    ultimately show thesis using that assms(1) by linarith
  qed
  then show ?thesis
  proof cases
    case 2
    then have "255 - i = 254 - k" by simp
    with greys [OF 2(1)] 2 assms(2,3) show ?thesis by auto
  next
    case 3
    then have "255 - i = k + 1" by simp
    with greys [OF 3(1)] 3 assms(2,3) show ?thesis by auto
  next
    case 5
    then have "palette_layout i = cube_colour (i - 15)" "palette_layout (255 - i) = cube_colour (224 - (i - 15))"
      by (auto simp: palette_layout_def)
    with assms 5 show ?thesis by (intro cube [of "i - 15"]) auto
  next
    case 6
    then have "palette_layout i = cube_colour (i - 16)" "palette_layout (255 - i) = cube_colour (224 - (i - 16))"
      by (auto simp: palette_layout_def)
    with assms 6 show ?thesis by (intro cube [of "i - 16"]) auto
  qed (use assms low in \<open>auto simp: palette_layout_def Let_def\<close>)
qed

lemma palette_values_bound: "palette_layout i = (r, g, b) \<Longrightarrow> i < 256 \<Longrightarrow> r < 256 \<and> g < 256 \<and> b < 256"
proof -
  have low: "\<forall>k < 14. m8_fb16_y_low ! k < 256" by (rule y_low_bound)
  have rb: "\<forall>k < 5. m8_fb16_rb_lv ! k < 256" unfolding all_below by (simp add: eval_simps)
  have gr: "\<forall>k < 9. m8_fb16_g_lv ! k < 256" unfolding all_below by (simp add: eval_simps)
  have cube: "r < 256 \<and> g < 256 \<and> b < 256" if "c < 225" "cube_colour c = (r, g, b)" for c r g b
    using that rb gr by (auto simp: cube_colour_def)
  assume "palette_layout i = (r, g, b)" "i < 256"
  then show ?thesis
    using low cube [of "i - 15"] cube [of "i - 16"] by (auto simp: palette_layout_def Let_def split: if_splits)
qed

lemma rgb_quad: "r < 256 \<Longrightarrow> g < 256 \<Longrightarrow> b < 256 \<Longrightarrow>
    unat (rgbRed (quad (r, g, b))) = r \<and> unat (rgbGreen (quad (r, g, b))) = g \<and> unat (rgbBlue (quad (r, g, b))) = b"
  by (simp add: quad_def unat_of_nat)

subsection \<open>Colours the palette holds\<close>

text \<open>The codes a channel value is stored as; green also as a doubled 5-bit code.\<close>

definition stored_codes :: "nat \<Rightarrow> nat \<Rightarrow> nat list" where
  "stored_codes bits c = [c * (2 ^ bits - 1) div 255, c div 2 ^ (8 - bits)]"

definition green_codes :: "nat \<Rightarrow> nat list" where
  "green_codes c = stored_codes 6 c @ map (\<lambda>v. 2 * v) (stored_codes 5 c)"

definition rgb565 :: "nat \<Rightarrow> nat \<Rightarrow> nat \<Rightarrow> u16" where
  "rgb565 r g b = of_nat (r * 2048 + g * 32 + b)"

lemma rgb565_channels:
  assumes "r < 32" "g < 64" "b < 32"
  shows "unat (drop_bit 11 (rgb565 r g b)) = r" "unat (drop_bit 5 (rgb565 r g b) AND 63) = g"
    "unat (rgb565 r g b AND 31) = b"
proof -
  define n where "n = r * 2048 + g * 32 + b"
  have n: "n < 2 ^ 16" using assms by (simp add: n_def)
  have u: "unat (rgb565 r g b) = n" using n by (simp add: rgb565_def n_def [symmetric] unat_of_nat take_bit_nat_eq_self)
  have d: "unat (drop_bit k (rgb565 r g b)) = n div 2 ^ k" for k
  proof -
    have "unat (drop_bit k (rgb565 r g b)) = drop_bit k (take_bit 16 n)"
      by (simp add: unsigned_drop_bit_eq u)
    also have "take_bit 16 n = n" using n by (rule take_bit_nat_eq_self)
    finally show ?thesis by (simp add: drop_bit_eq_div)
  qed
  have m: "unat (x AND mask k) = unat x mod 2 ^ k" for x :: u16 and k
    unfolding take_bit_eq_mask [symmetric] unsigned_take_bit_eq by (simp only: take_bit_eq_mod)
  show "unat (drop_bit 11 (rgb565 r g b)) = r" using assms by (simp add: d n_def)
  have "r * 2048 + g * 32 + b = b + 32 * (g + 64 * r)" by simp
  then have "(r * 2048 + g * 32 + b) div 32 = g + 64 * r" using assms by (simp add: div_mult_self2)
  then have "(r * 2048 + g * 32 + b) div 32 mod 64 = g" using assms by simp
  then have "unat (drop_bit 5 (rgb565 r g b) AND mask 6) = g" by (simp add: m d n_def)
  then show "unat (drop_bit 5 (rgb565 r g b) AND 63) = g" by (simp add: mask_eq_exp_minus_1)
  have "(b + 32 * (g + 64 * r)) mod 32 = b" using assms by (simp only: mod_mult_self2 mod_less)
  then have "unat (rgb565 r g b AND mask 5) = b" by (simp add: m u n_def algebra_simps)
  then show "unat (rgb565 r g b AND 31) = b" by (simp add: mask_eq_exp_minus_1)
qed

lemmas code_simps = stored_codes_def green_codes_def

lemma exact_rb: "\<forall>k < 5. \<forall>v \<in> List.set (stored_codes 5 (m8_fb16_rb_lv ! k)). v < 32 \<and> m8_fb16_exact_any v 5 m8_fb16_rb_lv = Some k"
  unfolding all_below by (simp add: eval_simps code_simps)

lemma exact_g: "\<forall>k < 9. \<forall>v \<in> List.set (green_codes (m8_fb16_g_lv ! k)). v < 64 \<and> m8_fb16_exact_any v 6 m8_fb16_g_lv = Some k"
  unfolding all_below by (simp add: eval_simps code_simps)

lemma exact_grey:
  "\<forall>i < 5. \<forall>v \<in> List.set (stored_codes 5 (m8_fb16_rb_lv ! i)). \<forall>k < 9. \<forall>w \<in> List.set (green_codes (m8_fb16_g_lv ! k)).
     w div 2 = v \<longrightarrow> k = 2 * i \<and> m8_fb16_exact_any w 6 m8_fb16_rb_lv = Some i"
  unfolding all_below by (simp add: eval_simps code_simps)


lemma exact_level: "m8_fb16_exact_any v bits lv = Some k \<Longrightarrow> m8_fb16_level v bits lv t = k"
  by (simp add: m8_fb16_level_def)

text \<open>A colour of the cube, however it was stored, is drawn as its palette entry at every threshold.\<close>

lemma cube_colour_flat:
  assumes "i < 5" "j < 9" "k < 5" and "r \<in> List.set (stored_codes 5 (m8_fb16_rb_lv ! i))"
    and "g \<in> List.set (green_codes (m8_fb16_g_lv ! j))" and "b \<in> List.set (stored_codes 5 (m8_fb16_rb_lv ! k))"
    and t: "t < 16"
  shows "ref_pixel t (rgb565 r g b) = of_nat (cube_index (i * 45 + j * 5 + k))"
proof -
  have r: "r < 32" "m8_fb16_exact_any r 5 m8_fb16_rb_lv = Some i" using exact_rb assms by blast+
  have g: "g < 64" "m8_fb16_exact_any g 6 m8_fb16_g_lv = Some j" using exact_g assms by blast+
  have b: "b < 32" "m8_fb16_exact_any b 5 m8_fb16_rb_lv = Some k" using exact_rb assms by blast+
  note ch = rgb565_channels [OF r(1) g(1) b(1)]
  have half: "unat (drop_bit 1 (x :: u16)) = unat x div 2" for x
  proof -
    have "unat x < 2 ^ 16" using unsigned_less [of x] by simp
    then have "take_bit 16 (unat x) = unat x" by (rule take_bit_nat_eq_self)
    then show ?thesis by (simp add: unsigned_drop_bit_eq) (simp add: drop_bit_eq_div)
  qed
  have grey: "drop_bit 11 (rgb565 r g b) = rgb565 r g b AND 31 \<and>
      drop_bit 1 (drop_bit 5 (rgb565 r g b) AND 63) = rgb565 r g b AND 31 \<longleftrightarrow> r = b \<and> g div 2 = b"
    by (simp only: word_unat_eq_iff half ch)
  show ?thesis
  proof (cases "r = b \<and> g div 2 = b")
    case True
    with exact_grey assms have "j = 2 * i" "m8_fb16_exact_any g 6 m8_fb16_rb_lv = Some i" by blast+
    moreover have "i = k" using True r(2) b(2) by simp
    moreover have "ref_pixel t (rgb565 r g b) = grey_part t g"
      unfolding ref_pixel_def Let_def grey if_P [OF True] ch(2) by (rule table_y [OF t g(1)])
    ultimately show ?thesis by (simp add: grey_part_def algebra_simps)
  next
    case False
    have "unat (of_nat (i * 45) :: u8) = i * 45" "unat (of_nat (j * 5) :: u8) = j * 5" "unat (of_nat k :: u8) = k"
      using assms(1-3) by (subst unat_of_nat_small; simp)+
    moreover have "i * 45 + j * 5 + k < 225" using assms(1-3) by linarith
    ultimately show ?thesis
      using False unfolding ref_pixel_def Let_def grey
      by (simp only: if_False ch table_r [OF t r(1)] table_g [OF t g(1)] table_b [OF t b(1)] exact_level [OF r(2)]
        exact_level [OF g(2)] exact_level [OF b(2)] table_cube)
  qed
qed

subsection \<open>Colours between levels\<close>

lemma below_brackets:
  assumes "2 \<le> length lv" "hd lv \<le> e" "e \<le> last lv"
  shows "lv ! (m8_fb16_below i e lv - i) \<le> e \<and> e \<le> lv ! (m8_fb16_below i e lv - i + 1)"
  using assms
proof (induction i e lv rule: m8_fb16_below.induct)
  case (1 i e c d lv)
  show ?case
  proof (cases "e > d")
    case True
    then have "lv \<noteq> []" using "1.prems" by auto
    then have ih: "(d # lv) ! (m8_fb16_below (i + 1) e (d # lv) - (i + 1)) \<le> e \<and>
        e \<le> (d # lv) ! (m8_fb16_below (i + 1) e (d # lv) - (i + 1) + 1)"
      using 1 True by (cases lv) auto
    have "i + 1 \<le> m8_fb16_below (i + 1) e (d # lv)" using below_bound [of "d # lv" "i + 1" e] by simp
    then have "m8_fb16_below (i + 1) e (d # lv) - i = Suc (m8_fb16_below (i + 1) e (d # lv) - (i + 1))" by simp
    with ih True show ?thesis by simp
  qed (use "1.prems" in auto)
qed auto

text \<open>How many of \<open>m\<close> growing thresholds a distance passes.\<close>

lemma antitone_count:
  assumes "\<And>s t. s \<le> t \<Longrightarrow> P t \<Longrightarrow> P (s :: nat)"
  shows "\<exists>N \<le> m. (\<Sum>t < m. of_bool (P t)) = N \<and> (\<forall>t < m. P t \<longleftrightarrow> t < N)"
proof (induction m)
  case (Suc m)
  then obtain N where N: "N \<le> m" "(\<Sum>t < m. of_bool (P t)) = N" "\<forall>t < m. P t \<longleftrightarrow> t < N" by blast
  show ?case
  proof (cases "P m")
    case True
    then have "N = m" using N(1,3) assms [of N m] by (metis le_neq_implies_less less_irrefl_nat less_imp_le_nat)
    with N True assms show ?thesis by (intro exI [of _ "Suc m"]) (auto simp: less_Suc_eq_le)
  next
    case False
    with N show ?thesis by (intro exI [of _ N]) (auto simp: less_Suc_eq)
  qed
qed simp

lemma threshold_count:
  fixes d g :: nat
  assumes "d \<le> g"
  defines "N \<equiv> (\<Sum>t < 16. of_bool (d * 32 > (2 * t + 1) * g) :: nat)"
  shows "2 * \<bar>int N * int g - 16 * int d\<bar> \<le> int g"
proof -
  obtain M where M: "M \<le> 16" "N = M" "\<forall>t < 16. d * 32 > (2 * t + 1) * g \<longleftrightarrow> t < M"
    using antitone_count [of "\<lambda>t. d * 32 > (2 * t + 1) * g" 16] unfolding N_def
    by (smt (verit) add_le_mono1 le_less_trans mult_le_mono1 mult_le_mono2)
  have up: "2 * (int M * int g) - 32 * int d \<le> int g"
  proof (cases M)
    case (Suc k)
    then have "(2 * k + 1) * g < d * 32" using M by auto
    then have "int ((2 * k + 1) * g) < int (d * 32)" by (simp only: of_nat_less_iff)
    with Suc show ?thesis by (simp add: algebra_simps)
  qed simp
  have "32 * int d - 2 * (int M * int g) \<le> int g"
  proof (cases "M < 16")
    case True
    then have "\<not> d * 32 > (2 * M + 1) * g" using M(3) by blast
    then have "int (d * 32) \<le> int ((2 * M + 1) * g)" by (simp only: of_nat_le_iff not_less)
    then show ?thesis by (simp add: algebra_simps)
  next
    case False
    with M(1) assms(1) show ?thesis by simp
  qed
  with up show ?thesis unfolding M(2) by (auto simp: abs_if)
qed

lemma level_mean:
  assumes "2 \<le> length lv" "hd lv = 0" "last lv = 255" "0 < bits" "v < 2 ^ bits"
    and "m8_fb16_exact_any v bits lv = None"
    and gap: "\<forall>i. i + 1 < length lv \<longrightarrow> lv ! i \<le> lv ! (i + 1) \<and> lv ! (i + 1) - lv ! i \<le> gap"
  shows "2 * \<bar>(\<Sum>t < 16. int (lv ! m8_fb16_level v bits lv t)) - 16 * int (m8_fb16_value v bits)\<bar> \<le> int gap"
proof -
  define e where "e = m8_fb16_value v bits"
  define i where "i = m8_fb16_below 0 e lv"
  have e: "e \<le> 255" unfolding e_def by (rule value_bound) (rule assms)+
  have b: "lv ! i \<le> e" "e \<le> lv ! (i + 1)"
    using below_brackets [of lv e 0] assms(1-3) e by (auto simp: i_def)
  have i: "i + 1 < length lv" using below_not_last [of lv e 0] assms(1,3) e by (simp add: i_def)
  define g where "g = lv ! (i + 1) - lv ! i"
  define d where "d = e - lv ! i"
  have g: "lv ! (i + 1) = lv ! i + g" "g \<le> gap" "d \<le> g" "e = lv ! i + d"
    using gap i b by (auto simp: g_def d_def)
  have lev: "int (lv ! m8_fb16_level v bits lv t) = int (lv ! i) + int g * int (of_bool (d * 32 > (2 * t + 1) * g))" for t
  proof -
    have "(int e - int (lv ! i)) * 32 > int (2 * t + 1) * (int (lv ! (i + 1)) - int (lv ! i)) \<longleftrightarrow>
        int (d * 32) > int ((2 * t + 1) * g)"
    proof -
      have "int e - int (lv ! i) = int d" "int (lv ! (i + 1)) - int (lv ! i) = int g" using g by simp_all
      then show ?thesis by (simp only: of_nat_mult of_nat_numeral)
    qed
    then have "(int e - int (lv ! i)) * 32 > int (2 * t + 1) * (int (lv ! (i + 1)) - int (lv ! i)) \<longleftrightarrow>
        d * 32 > (2 * t + 1) * g" by (simp only: of_nat_less_iff)
    then show ?thesis
      using assms(6) g(1) by (simp add: m8_fb16_level_def Let_def e_def [symmetric] i_def [symmetric])
  qed
  have "(\<Sum>t < 16. int (lv ! m8_fb16_level v bits lv t)) =
      16 * int (lv ! i) + int g * int (\<Sum>t < 16. of_bool (d * 32 > (2 * t + 1) * g))"
    by (simp only: lev sum.distrib sum_distrib_left [symmetric] of_nat_sum) simp
  with threshold_count [OF g(3)] g show ?thesis by (simp add: e_def [symmetric] algebra_simps)
qed


lemma ramp_levels: "map fst ramp = [0, 8, 16, 24, 32, 40, 48, 56, 64, 72, 80, 88, 96, 104, 112, 120, 128,
    135, 143, 151, 159, 167, 175, 183, 192, 199, 207, 215, 223, 231, 239, 247, 255]"
  by (simp add: ramp_def ramp_step_def ramp_entry_def Let_def upt_rec eval_simps)

lemma gaps_list:
  fixes xs :: "nat list"
  assumes "list_all (\<lambda>(a, b). a \<le> b \<and> b - a \<le> g) (zip xs (tl xs))"
  shows "\<forall>i. i + 1 < length xs \<longrightarrow> xs ! i \<le> xs ! (i + 1) \<and> xs ! (i + 1) - xs ! i \<le> g"
  using assms by (auto simp: list_all_length nth_tl)

lemma gaps:
  "\<forall>i. i + 1 < length m8_fb16_rb_lv \<longrightarrow> m8_fb16_rb_lv ! i \<le> m8_fb16_rb_lv ! (i + 1) \<and> m8_fb16_rb_lv ! (i + 1) - m8_fb16_rb_lv ! i \<le> 64"
  "\<forall>i. i + 1 < length m8_fb16_g_lv \<longrightarrow> m8_fb16_g_lv ! i \<le> m8_fb16_g_lv ! (i + 1) \<and> m8_fb16_g_lv ! (i + 1) - m8_fb16_g_lv ! i \<le> 32"
  "\<forall>i. i + 1 < length (map fst ramp) \<longrightarrow> map fst ramp ! i \<le> map fst ramp ! (i + 1) \<and> map fst ramp ! (i + 1) - map fst ramp ! i \<le> 9"
  by (rule gaps_list, simp add: eval_simps ramp_levels)+

subsection \<open>The properties\<close>

text \<open>C8: The row converter of \<open>fb16cv.asm\<close>, which takes a run of eight or more equal pixels as a
  4-pixel pattern stored a dword at a time, gives byte for byte what the reference routine
  gives a pixel at a time, at every row and starting column.\<close>

theorem mach8_row_is_reference: "m8_fb16_conv src y l = m8_fb16_row_ref src y l"
  by (rule conv_row_ref)

text \<open>Every colour of the 5x9x5 cube, the Windows system colours among them, shows exactly and
  without dither dots: whichever codes the channels were stored as (scaled and rounded down, top
  bits, or a doubled 5-bit green), the pixel at every threshold is an index whose palette entry is that
  colour.\<close>

theorem mach8_cube_colours_flat:
  assumes "i < 5" "j < 9" "k < 5" and "r \<in> List.set (stored_codes 5 (m8_fb16_rb_lv ! i))"
    and "g \<in> List.set (green_codes (m8_fb16_g_lv ! j))" and "b \<in> List.set (stored_codes 5 (m8_fb16_rb_lv ! k))"
    and "t < 16"
  shows "rgb_values (m8_fb16_pal m8_fb16_tables ! unat (ref_pixel t (rgb565 r g b))) =
    (m8_fb16_rb_lv ! i, m8_fb16_g_lv ! j, m8_fb16_rb_lv ! k)"
proof -
  define c where "c = i * 45 + j * 5 + k"
  have c: "c < 225" using assms(1-3) by (simp add: c_def)
  have "unat (of_nat (cube_index c) :: u8) = cube_index c" using cube_index_below [OF c] by (rule unat_of_nat_small)
  then have "m8_fb16_pal m8_fb16_tables ! unat (ref_pixel t (rgb565 r g b)) = quad (cube_colour c)"
    by (simp add: cube_colour_flat [OF assms] c_def [symmetric] cube_entry [OF c])
  moreover have "cube_colour c = (m8_fb16_rb_lv ! i, m8_fb16_g_lv ! j, m8_fb16_rb_lv ! k)"
    using cube_digits [of j k i] assms(2,3) by (simp add: cube_colour_def c_def mult.commute)
  moreover have "m8_fb16_rb_lv ! i < 256" "m8_fb16_rb_lv ! k < 256" "m8_fb16_g_lv ! j < 256"
    using level_values assms(1-3) by auto
  ultimately show ?thesis using rgb_quad by (auto simp: rgb_values_def)
qed

theorem mach8_cube_colours_flat_witness:
  "rgb_values (m8_fb16_pal m8_fb16_tables ! unat (ref_pixel 7 (rgb565 23 46 24))) = (192, 192, 192)"
  using mach8_cube_colours_flat [of 3 6 3 23 46 24 7] by (simp add: code_simps eval_simps)

text \<open>Palette index \<open>i\<close> and its complement \<open>255 - i\<close> are inverse colours as the pointer code assumes, but
  only to within one step: each channel of the two adds up to 255 or 256.\<close>

theorem mach8_palette_inverse:
  assumes "i < 256" and "rgb_values (m8_fb16_pal m8_fb16_tables ! i) = (r, g, b)"
    and "rgb_values (m8_fb16_pal m8_fb16_tables ! (255 - i)) = (r', g', b')"
  shows "r + r' \<in> {255, 256} \<and> g + g' \<in> {255, 256} \<and> b + b' \<in> {255, 256}"
proof -
  have v: "rgb_values (m8_fb16_pal m8_fb16_tables ! j) = palette_layout j" if "j < 256" for j
    using pal_entry [OF that] rgb_quad palette_values_bound [of j] that
    by (cases "palette_layout j") (auto simp: rgb_values_def)
  have "palette_layout i = (r, g, b)" using v [OF assms(1)] assms(2) by simp
  moreover have "palette_layout (255 - i) = (r', g', b')" using v [of "255 - i"] assms(3) by simp
  ultimately show ?thesis by (rule palette_layout_inverse [OF assms(1)])
qed

theorem mach8_palette_inverse_witness:
  "64 + 192 \<in> {255, 256 :: nat} \<and> (0 :: nat) + 255 \<in> {255, 256} \<and> (0 :: nat) + 255 \<in> {255, 256}"
  by (rule mach8_palette_inverse [of 60 64 0 0 192 255 255])
     (simp_all add: pal_entry palette_layout_def cube_colour_def eval_simps rgb_values_def quad_def)

text \<open>C22: A colour between levels is right on the average: over the sixteen thresholds of a 4x4 block the
  levels drawn differ from the stored value by at most half a step in sixteen, a 32nd of the distance
  of two levels per pixel.\<close>

theorem mach8_dither_mean:
  assumes "(bits, lv, gap) \<in> {(5, m8_fb16_rb_lv, 64), (6, m8_fb16_g_lv, 32), (6, m8_fb16_y_lv m8_fb16_tables, 9)}"
    and "v < 2 ^ bits" and "m8_fb16_exact_any v bits lv = None"
  shows "2 * \<bar>(\<Sum>t < 16. int (lv ! m8_fb16_level v bits lv t)) - 16 * int (m8_fb16_value v bits)\<bar> \<le> int gap"
proof (rule level_mean [OF _ _ _ _ assms(2,3)])
  have y: "m8_fb16_y_lv m8_fb16_tables = map fst ramp" by (simp add: m8_fb16_tables_def)
  show "2 \<le> length lv" "hd lv = 0" "last lv = 255" "0 < bits"
    using assms(1) by (auto simp: y ramp_levels eval_simps)
  show "\<forall>i. i + 1 < length lv \<longrightarrow> lv ! i \<le> lv ! (i + 1) \<and> lv ! (i + 1) - lv ! i \<le> gap"
    using assms(1) gaps by (auto simp: y)
qed

theorem mach8_dither_mean_witness:
  "2 * \<bar>(\<Sum>t < 16. int (m8_fb16_rb_lv ! m8_fb16_level 11 5 m8_fb16_rb_lv t)) - 16 * int (m8_fb16_value 11 5)\<bar> \<le> int 64"
  by (rule mach8_dither_mean) (simp_all add: eval_simps)

end
