(* ===== verification/Mach8_Dirty.thy ===== *)
theory Mach8_Dirty
  imports Prelude86 "HOL-Library.Signed_Division" "HOL-Library.Monad_Syntax"
begin

text \<open>
  The 16 bits per pixel mode of the Mach8 driver (\<open>drivers/mach8_display/src/fb16.c\<close>), second part: the
  rectangles a drawing call changes. A list of at most four collects what the DIB Engine's access
  calls name; lines are cut in strips; polylines gather short segments in boxes. The compiler's
  \<open>int\<close> has 16 bits and its \<open>long\<close> 32: they are HOL integers here, wrapped with \<open>s16\<close> and \<open>s32\<close>
  wherever the code's arithmetic can leave the range. A loop that may not end is a partial function.
\<close>

subsection \<open>Integers of the compiler\<close>

definition s16 :: "int \<Rightarrow> int" where
  "s16 x = (x + 32768) mod 65536 - 32768"

definition s32 :: "int \<Rightarrow> int" where
  "s32 x = (x + 2147483648) mod 4294967296 - 2147483648"

lemma s16_id: "- 32768 \<le> x \<Longrightarrow> x \<le> 32767 \<Longrightarrow> s16 x = x"
  by (simp add: s16_def)

lemma s32_id: "- 2147483648 \<le> x \<Longrightarrow> x \<le> 2147483647 \<Longrightarrow> s32 x = x"
  by (simp add: s32_def)

lemma s16_range: "- 32768 \<le> s16 x \<and> s16 x \<le> 32767"
proof -
  have "0 \<le> (x + 32768) mod 65536" "(x + 32768) mod 65536 < 65536" by simp_all
  then show ?thesis by (simp add: s16_def)
qed

subsection \<open>Rectangles and the dirty list\<close>

record M8_FB16_RECT =
  rc_l :: int
  rc_t :: int
  rc_r :: int
  rc_b :: int

definition rect :: "int \<Rightarrow> int \<Rightarrow> int \<Rightarrow> int \<Rightarrow> M8_FB16_RECT" where
  "rect l t r b = \<lparr>rc_l = l, rc_t = t, rc_r = r, rc_b = b\<rparr>"

lemma rect_sel [simp]: "rc_l (rect l t r b) = l" "rc_t (rect l t r b) = t" "rc_r (rect l t r b) = r" "rc_b (rect l t r b) = b"
  by (simp_all add: rect_def)

text \<open>The pixels of a rectangle: right and bottom are exclusive.\<close>

definition inside :: "M8_FB16_RECT \<Rightarrow> int \<Rightarrow> int \<Rightarrow> bool" where
  "inside a x y \<longleftrightarrow> rc_l a \<le> x \<and> x < rc_r a \<and> rc_t a \<le> y \<and> y < rc_b a"

definition M8_FB16_DIRTY :: nat where "M8_FB16_DIRTY = 4"

definition m8_fb16_area :: "M8_FB16_RECT \<Rightarrow> int" where
  "m8_fb16_area a = s32 (s16 (rc_r a - rc_l a) * s16 (rc_b a - rc_t a))"

definition m8_fb16_union :: "M8_FB16_RECT \<Rightarrow> M8_FB16_RECT \<Rightarrow> M8_FB16_RECT" where
  "m8_fb16_union a n = rect
     (if rc_l n < rc_l a then rc_l n else rc_l a) (if rc_t n < rc_t a then rc_t n else rc_t a)
     (if rc_r n > rc_r a then rc_r n else rc_r a) (if rc_b n > rc_b a then rc_b n else rc_b a)"

definition touches :: "M8_FB16_RECT \<Rightarrow> M8_FB16_RECT \<Rightarrow> bool" where
  "touches n d \<longleftrightarrow> rc_l n \<le> rc_r d \<and> rc_l d \<le> rc_r n \<and> rc_t n \<le> rc_b d \<and> rc_t d \<le> rc_b n"

text \<open>The first loop of \<open>m8_fb16_add\<close>: the first rectangle \<open>n\<close> touches takes it.\<close>

fun join_touching :: "M8_FB16_RECT \<Rightarrow> M8_FB16_RECT list \<Rightarrow> M8_FB16_RECT list option" where
  "join_touching n [] = None"
| "join_touching n (d # ds) =
     (if touches n d then Some (m8_fb16_union d n # ds) else map_option ((#) d) (join_touching n ds))"

text \<open>The second loop: the index of the rectangle that grows least, the first of several.\<close>

definition grow :: "M8_FB16_RECT \<Rightarrow> M8_FB16_RECT \<Rightarrow> int" where
  "grow n d = s32 (m8_fb16_area (m8_fb16_union d n) - m8_fb16_area d)"

fun best_from :: "M8_FB16_RECT \<Rightarrow> nat \<Rightarrow> nat \<Rightarrow> int \<Rightarrow> M8_FB16_RECT list \<Rightarrow> nat" where
  "best_from n k best best_grow [] = best"
| "best_from n k best best_grow (d # ds) =
     (if k = 0 \<or> grow n d < best_grow then best_from n (k + 1) k (grow n d) ds
      else best_from n (k + 1) best best_grow ds)"

definition m8_fb16_add :: "M8_FB16_RECT \<Rightarrow> M8_FB16_RECT list \<Rightarrow> M8_FB16_RECT list" where
  "m8_fb16_add n dirty =
     (case join_touching n dirty of
        Some dirty' \<Rightarrow> dirty'
      | None \<Rightarrow>
          if length dirty < M8_FB16_DIRTY then dirty @ [n]
          else (let best = best_from n 0 0 0 dirty
                in dirty[best := m8_fb16_union (dirty ! best) n]))"

text \<open>The rectangle \<open>m8_fb16_begin\<close> makes of what the DIB Engine names: right and bottom are the last
  pixel drawn. \<open>lim\<close> narrows it.\<close>

definition begin_rect :: "u16 \<Rightarrow> u16 \<Rightarrow> u16 \<Rightarrow> u16 \<Rightarrow> M8_FB16_RECT" where
  "begin_rect wLeft wTop wRight wBottom =
     (let l = sint wLeft; t = sint wTop in
      rect l t (s16 ((if sint wRight \<ge> l then sint wRight else l) + 1))
        (s16 ((if sint wBottom \<ge> t then sint wBottom else t) + 1)))"

definition limited :: "M8_FB16_RECT \<Rightarrow> M8_FB16_RECT \<Rightarrow> M8_FB16_RECT" where
  "limited lim n = rect
     (if rc_l lim > rc_l n then rc_l lim else rc_l n) (if rc_t lim > rc_t n then rc_t lim else rc_t n)
     (if rc_r lim < rc_r n then rc_r lim else rc_r n) (if rc_b lim < rc_b n then rc_b lim else rc_b n)"

definition no_area :: "M8_FB16_RECT \<Rightarrow> bool" where
  "no_area n \<longleftrightarrow> rc_r n \<le> rc_l n \<or> rc_b n \<le> rc_t n"

subsection \<open>The limit of a shape\<close>

type_synonym point = "int \<times> int"

text \<open>\<open>m8_fb16_output\<close>, other shapes: the box around the points, widened for the pen.\<close>

definition shape_box :: "point \<Rightarrow> point list \<Rightarrow> M8_FB16_RECT" where
  "shape_box p ps = fold (\<lambda>(x, y) lim. rect
      (if x < rc_l lim then x else rc_l lim) (if y < rc_t lim then y else rc_t lim)
      (if x > rc_r lim then x else rc_r lim) (if y > rc_b lim then y else rc_b lim))
    ps (rect (fst p) (snd p) (fst p) (snd p))"

definition shape_lim :: "point \<Rightarrow> point list \<Rightarrow> M8_FB16_RECT" where
  "shape_lim p ps = (let b = shape_box p ps in
     rect (s16 (rc_l b - 2)) (s16 (rc_t b - 2)) (s16 (rc_r b + 3)) (s16 (rc_b b + 3)))"

subsection \<open>Lines\<close>

text \<open>\<open>m8_fb16_strip\<close>: clipped as the DIB Engine clips.\<close>

definition strip_clip :: "M8_FB16_RECT option \<Rightarrow> M8_FB16_RECT \<Rightarrow> M8_FB16_RECT" where
  "strip_clip clip d = (case clip of None \<Rightarrow> d | Some c \<Rightarrow> limited c d)"

definition M8_FB16_SEG :: int where "M8_FB16_SEG = 32"

text \<open>One strip of \<open>m8_fb16_segment\<close>, from \<open>m\<close> on the major axis: the minor coordinate at both ends,
  in \<open>long\<close>, one more on each side.\<close>

definition minor_at :: "int \<Rightarrow> int \<Rightarrow> int \<Rightarrow> int \<Rightarrow> int \<Rightarrow> int" where
  "minor_at major0 minor0 dmajor dminor a = s32 (minor0 + s32 (s32 (a - major0) * dminor) sdiv dmajor)"

definition segment_strip :: "bool \<Rightarrow> int \<Rightarrow> int \<Rightarrow> int \<Rightarrow> int \<Rightarrow> int \<Rightarrow> int \<Rightarrow> M8_FB16_RECT" where
  "segment_strip xmajor x0 y0 dx dy hi m =
     (let a = m;
          b = (if s16 (m + M8_FB16_SEG - 1) < hi then s16 (m + M8_FB16_SEG - 1) else hi);
          p0 = (if xmajor then minor_at x0 y0 dx dy a else minor_at y0 x0 dy dx a);
          p1 = (if xmajor then minor_at x0 y0 dx dy b else minor_at y0 x0 dy dx b);
          m0 = s32 (min p0 p1 - 1);
          m1 = s32 (max p0 p1 + 1)
      in if xmajor then rect a (s16 m0) (s16 (b + 1)) (s16 (s16 m1 + 1))
         else rect (s16 m0) a (s16 (s16 m1 + 1)) (s16 (b + 1)))"

text \<open>The loop over the major axis: \<open>m\<close> is an \<open>int\<close> and wraps.\<close>

partial_function (option) segment_loop :: "(int \<Rightarrow> M8_FB16_RECT) \<Rightarrow> int \<Rightarrow> int \<Rightarrow> M8_FB16_RECT list option" where
  "segment_loop strip hi m =
     (if m \<le> hi then segment_loop strip hi (s16 (m + M8_FB16_SEG)) \<bind> (\<lambda>rs. Some (strip m # rs))
      else Some [])"

definition m8_fb16_segment :: "int \<Rightarrow> int \<Rightarrow> int \<Rightarrow> int \<Rightarrow> M8_FB16_RECT list option" where
  "m8_fb16_segment x0 y0 x1 y1 =
     (let dx = x1 - x0;
          dy = y1 - y0;
          xmajor = (\<bar>dx\<bar> \<ge> \<bar>dy\<bar>);
          lo = (if xmajor then min x0 x1 else min y0 y1);
          hi = (if xmajor then max x0 x1 else max y0 y1)
      in if (if xmajor then dy else dx) = 0
         then Some [if xmajor
                    then rect (if x1 > x0 then x0 else s16 (x1 + 1)) y0 (if x1 > x0 then x1 else s16 (x0 + 1)) (s16 (y0 + 1))
                    else rect x0 (if y1 > y0 then y0 else s16 (y1 + 1)) (s16 (x0 + 1)) (if y1 > y0 then y1 else s16 (y0 + 1))]
         else segment_loop (segment_strip xmajor x0 y0 dx dy hi) hi lo)"

subsection \<open>Polylines\<close>

definition M8_FB16_GATHER :: int where "M8_FB16_GATHER = 144"
definition M8_FB16_SHORT :: int where "M8_FB16_SHORT = 4"

definition short_box :: "int \<Rightarrow> int \<Rightarrow> point \<Rightarrow> point \<Rightarrow> M8_FB16_RECT" where
  "short_box dx dy p q = rect
     (if dx < 0 then fst q else fst p) (if dy < 0 then snd q else snd p)
     (s16 ((if dx < 0 then fst p else fst q) + 1)) (s16 ((if dy < 0 then snd p else snd q) + 1))"

text \<open>\<open>m8_fb16_polyline_sent\<close>: the strips it hands on, in order. \<open>box\<close> is the box of the short segments
  gathered so far, while \<open>open\<close>.\<close>

definition closed_box :: "M8_FB16_RECT option \<Rightarrow> M8_FB16_RECT list" where
  "closed_box box = (case box of None \<Rightarrow> [] | Some b \<Rightarrow> [b])"

fun polyline_loop :: "point \<Rightarrow> point list \<Rightarrow> M8_FB16_RECT option \<Rightarrow> M8_FB16_RECT list option" where
  "polyline_loop p [] box = Some (closed_box box)"
| "polyline_loop p (q # qs) box =
     (let dx = s16 (fst q - fst p); dy = s16 (snd q - snd p) in
      if dx < - M8_FB16_SHORT \<or> dx > M8_FB16_SHORT \<or> dy < - M8_FB16_SHORT \<or> dy > M8_FB16_SHORT
      then m8_fb16_segment (fst p) (snd p) (fst q) (snd q) \<bind> (\<lambda>ss.
           polyline_loop q qs None \<bind> (\<lambda>rs. Some (closed_box box @ ss @ rs)))
      else (let n = short_box dx dy p q in
            case box of
              None \<Rightarrow> polyline_loop q qs (Some n)
            | Some b \<Rightarrow>
                if m8_fb16_area (m8_fb16_union b n) > M8_FB16_GATHER
                then polyline_loop q qs (Some n) \<bind> (\<lambda>rs. Some (b # rs))
                else polyline_loop q qs (Some (m8_fb16_union b n))))"

definition m8_fb16_polyline_sent :: "point list \<Rightarrow> M8_FB16_RECT list option" where
  "m8_fb16_polyline_sent ps = (case ps of [] \<Rightarrow> Some [] | p # qs \<Rightarrow> polyline_loop p qs None)"

end
