(* ===== verification/Mach8_Cover.thy ===== *)
theory Mach8_Cover
  imports Mach8_Dirty
begin

text \<open>
  What the rectangles of \<open>Mach8_Dirty\<close> cover: the dirty list everything added to it, the strips of a line
  every pixel within one of it, the boxes of a polyline every pixel of its segments; and when the loop
  over a line's major axis ends.
\<close>

subsection \<open>The dirty list\<close>

definition covered :: "M8_FB16_RECT list \<Rightarrow> int \<Rightarrow> int \<Rightarrow> bool" where
  "covered ds x y \<longleftrightarrow> (\<exists>d \<in> List.set ds. inside d x y)"

lemma covered_simps [simp]:
  "\<not> covered [] x y"
  "covered (d # ds) x y \<longleftrightarrow> inside d x y \<or> covered ds x y"
  "covered (ds @ es) x y \<longleftrightarrow> covered ds x y \<or> covered es x y"
  by (auto simp: covered_def)

lemma union_inside: "inside a x y \<or> inside n x y \<Longrightarrow> inside (m8_fb16_union a n) x y"
  by (auto simp: inside_def m8_fb16_union_def)

lemma join_touching_covers:
  "join_touching n ds = Some es \<Longrightarrow> length es = length ds \<and> (\<forall>x y. covered ds x y \<or> inside n x y \<longrightarrow> covered es x y)"
  by (induction n ds arbitrary: es rule: join_touching.induct) (auto split: if_splits intro: union_inside)

lemma best_from_bound: "best < m \<Longrightarrow> k + length ds \<le> m \<Longrightarrow> best_from n k best g ds < m"
  by (induction n k best g ds rule: best_from.induct) auto

lemma update_covers:
  assumes "i < length ds" "covered ds x y \<or> inside n x y"
  shows "covered (ds[i := m8_fb16_union (ds ! i) n]) x y"
  using assms
proof (induction ds arbitrary: i)
  case (Cons d ds)
  then show ?case by (cases i) (auto intro: union_inside)
qed simp

lemma add_covers:
  assumes "length ds \<le> M8_FB16_DIRTY" "covered ds x y \<or> inside n x y"
  shows "covered (m8_fb16_add n ds) x y"
proof (cases "join_touching n ds")
  case None
  have "best_from n 0 0 0 ds < length ds" if "\<not> length ds < M8_FB16_DIRTY"
    using that by (intro best_from_bound) (auto simp: M8_FB16_DIRTY_def)
  with None assms update_covers show ?thesis by (auto simp: m8_fb16_add_def Let_def)
next
  case (Some es)
  with assms join_touching_covers [OF Some] show ?thesis by (auto simp: m8_fb16_add_def)
qed

lemma add_length:
  assumes "length ds \<le> M8_FB16_DIRTY" shows "length (m8_fb16_add n ds) \<le> M8_FB16_DIRTY"
  using assms join_touching_covers [of n ds]
  by (auto simp: m8_fb16_add_def Let_def split: option.splits)

lemma fold_add_covers:
  assumes "length ds \<le> M8_FB16_DIRTY"
  shows "length (fold m8_fb16_add ns ds) \<le> M8_FB16_DIRTY \<and>
    (covered ds x y \<or> covered ns x y \<longrightarrow> covered (fold m8_fb16_add ns ds) x y)"
  using assms
proof (induction ns arbitrary: ds)
  case (Cons n ns)
  have "length (m8_fb16_add n ds) \<le> M8_FB16_DIRTY" by (rule add_length) (rule Cons.prems)
  note ih = Cons.IH [OF this]
  have "covered ds x y \<or> inside n x y \<Longrightarrow> covered (m8_fb16_add n ds) x y" by (rule add_covers) (rule Cons.prems)
  with ih show ?case by auto
qed simp

subsection \<open>The loop over the major axis\<close>

lemma div32: "32 * ((x :: int) div 32) \<le> x" "x < 32 * (x div 32) + 32"
proof -
  obtain q r where "x div 32 = q" "x = 32 * q + r" "0 \<le> r" "r < 32"
    using that [of "x div 32" "x mod 32"] by simp
  then show "32 * (x div 32) \<le> x" "x < 32 * (x div 32) + 32" by simp_all
qed

definition strips :: "(int \<Rightarrow> M8_FB16_RECT) \<Rightarrow> int \<Rightarrow> nat \<Rightarrow> M8_FB16_RECT list" where
  "strips strip lo n = map (\<lambda>k. strip (lo + 32 * int k)) [0..<n]"

lemma strips_Suc: "strips strip lo (Suc n) = strip lo # strips strip (lo + 32) n"
  by (simp add: strips_def upt_conv_Cons map_Suc_upt [symmetric] algebra_simps del: upt_Suc)

lemma segment_loop_returns:
  assumes "- 32768 \<le> m" "n = nat ((hi - m) div 32 + 1)" "m + 32 * int n \<le> 32767"
  shows "segment_loop strip hi m = Some (strips strip m n)"
  using assms
proof (induction n arbitrary: m)
  case 0
  then have "hi < m" by linarith
  then show ?case by (subst segment_loop.simps) (simp add: strips_def)
next
  case (Suc n)
  then have "m \<le> hi" by linarith
  moreover have "(hi - (m + 32)) div 32 = (hi - m) div 32 - 1" by simp
  then have "segment_loop strip hi (m + 32) = Some (strips strip (m + 32) n)"
    using Suc.prems by (intro Suc.IH) (auto simp: algebra_simps)
  moreover have "s16 (m + M8_FB16_SEG) = m + 32" using Suc.prems by (simp add: M8_FB16_SEG_def s16_id)
  ultimately show ?case by (subst segment_loop.simps) (simp add: strips_Suc)
qed

text \<open>When no value congruent to the start lies between \<open>hi\<close> and the end of the range, the loop comes
  round for ever.\<close>

lemma segment_loop_never:
  assumes inv: "\<And>m. P m \<Longrightarrow> m \<le> hi \<and> P (s16 (m + M8_FB16_SEG))" and "P m"
  shows "segment_loop strip hi m = None"
proof (cases "segment_loop strip hi m")
  case (Some y)
  have "h = hi \<longrightarrow> \<not> P m" if "segment_loop s h m = Some y" for s h m y
  proof (rule segment_loop.raw_induct [where P = "\<lambda>s h m y. h = hi \<longrightarrow> \<not> P m", OF _ that])
    fix loop s h m y
    assume ih: "\<And>s h m y. loop s h m = Some y \<Longrightarrow> h = hi \<longrightarrow> \<not> P m"
      and e: "(if m \<le> h then loop s h (s16 (m + M8_FB16_SEG)) \<bind> (\<lambda>rs. Some (s m # rs)) else Some []) = Some y"
    show "h = hi \<longrightarrow> \<not> P m"
    proof (intro impI notI)
      assume h: "h = hi" and p: "P m"
      from inv [OF p] h e obtain rs where "loop s h (s16 (m + M8_FB16_SEG)) = Some rs"
        by (cases "loop s h (s16 (m + M8_FB16_SEG))") auto
      from ih [OF this] inv [OF p] h show False by blast
    qed
  qed
  with Some assms(2) show ?thesis by blast
qed

lemma segment_loop_returns_iff:
  assumes "- 32768 \<le> lo" "lo \<le> hi" "hi \<le> 32767"
  shows "segment_loop strip hi lo \<noteq> None \<longleftrightarrow> lo + 32 * ((hi - lo) div 32 + 1) \<le> 32767"
proof
  assume "lo + 32 * ((hi - lo) div 32 + 1) \<le> 32767"
  moreover have "0 \<le> (hi - lo) div 32" using assms(2) by simp
  ultimately show "segment_loop strip hi lo \<noteq> None"
    using segment_loop_returns [of lo "nat ((hi - lo) div 32 + 1)" hi strip] assms(1) by simp
next
  assume ret: "segment_loop strip hi lo \<noteq> None"
  show "lo + 32 * ((hi - lo) div 32 + 1) \<le> 32767"
  proof (rule ccontr)
    assume far: "\<not> lo + 32 * ((hi - lo) div 32 + 1) \<le> 32767"
    define P where "P m \<longleftrightarrow> - 32768 \<le> m \<and> m \<le> hi \<and> m mod 32 = lo mod 32" for m :: int
    have "m \<le> hi \<and> P (s16 (m + M8_FB16_SEG))" if "P m" for m
    proof -
      have m: "- 32768 \<le> m" "m \<le> hi" "m mod 32 = lo mod 32" using that by (auto simp: P_def)
      then obtain k where k: "m = lo + 32 * k" by (metis mod_eqE)
      define q where "q = (hi - lo) div 32"
      have top: "32767 < lo + 32 * (q + 1)" using far by (simp add: q_def)
      have hi: "32735 < hi" using top div32(1) [of "hi - lo", folded q_def] by presburger
      show ?thesis
      proof (cases "m + 32 \<le> 32767")
        case True
        then have e: "s16 (m + M8_FB16_SEG) = m + 32" using m(1) by (simp add: M8_FB16_SEG_def s16_id)
        have "32 * k < 32 * q" using True top k by (simp add: algebra_simps)
        then have "k + 1 \<le> q" by simp
        then have "m + 32 \<le> hi" using k div32(1) [of "hi - lo", folded q_def] by linarith
        with m e show ?thesis by (simp add: P_def)
      next
        case False
        have "(m + 32 + 32768) mod 65536 = m + 32 + 32768 - 65536"
          using False m(2) assms(3) by (intro int_mod_pos_eq [of _ _ 1]) auto
        then have e: "s16 (m + M8_FB16_SEG) = m + 32 * (1 - 2048)" by (simp add: M8_FB16_SEG_def s16_def)
        have "(m + 32 * (1 - 2048)) mod 32 = m mod 32" by (simp only: mod_mult_self2)
        with m e hi False assms(3) show ?thesis by (simp add: P_def)
      qed
    qed
    moreover have "P lo" using assms by (simp add: P_def)
    ultimately have "segment_loop strip hi lo = None" by (rule segment_loop_never)
    with ret show False by simp
  qed
qed

subsection \<open>Strips of a line\<close>

text \<open>\<open>near s y d D\<close>: at distance \<open>s\<close> along the major axis (\<open>D\<close> long) the pixel \<open>y\<close> is within one of the ideal
  line that rises by \<open>d\<close>.\<close>

lemma trunc_bounds:
  fixes p D :: int
  assumes "0 < D"
  shows "0 \<le> p \<Longrightarrow> (p sdiv D) * D \<le> p \<and> p < (p sdiv D) * D + D"
    and "p \<le> 0 \<Longrightarrow> p \<le> (p sdiv D) * D \<and> (p sdiv D) * D < p + D"
proof -
  show "0 \<le> p \<Longrightarrow> (p sdiv D) * D \<le> p \<and> p < (p sdiv D) * D + D"
  proof -
    assume "0 \<le> p"
    then have "p sdiv D = p div D" using assms by (simp add: signed_divide_int_def sgn_if)
    moreover have "p = D * (p div D) + p mod D" "0 \<le> p mod D" "p mod D < D" using assms by simp_all
    ultimately show ?thesis by (simp only: mult.commute [of _ D]) linarith
  qed
  show "p \<le> 0 \<Longrightarrow> p \<le> (p sdiv D) * D \<and> (p sdiv D) * D < p + D"
  proof -
    assume p: "p \<le> 0"
    then have "p sdiv D = - ((- p) div D)" using assms by (simp add: signed_divide_int_def sgn_if)
    moreover have "- p = D * ((- p) div D) + (- p) mod D" "0 \<le> (- p) mod D" "(- p) mod D < D" using assms by simp_all
    moreover have "(p sdiv D) * D = - (D * ((- p) div D))" using calculation(1) by simp
    ultimately show ?thesis by linarith
  qed
qed

text \<open>Between two places on the line the rounded minor coordinates bracket every pixel within one.\<close>

lemma strip_brackets:
  fixes s u v d D y :: int
  assumes D: "0 < D" and s: "u \<le> s" "s \<le> v" and u: "0 \<le> u"
    and near: "\<bar>y * D - s * d\<bar> \<le> D"
  shows "min ((u * d) sdiv D) ((v * d) sdiv D) - 1 \<le> y \<and> y \<le> max ((u * d) sdiv D) ((v * d) sdiv D) + 1"
proof (cases "0 \<le> d")
  case True
  have o: "u * d \<le> s * d" "s * d \<le> v * d" using s True by (auto intro: mult_right_mono)
  have z: "0 \<le> u * d" "0 \<le> v * d" using u s True by auto
  define p q where "p = (u * d) sdiv D" "q = (v * d) sdiv D"
  have pq: "p * D \<le> u * d" "v * d < q * D + D"
    using trunc_bounds(1) [OF D] z by (auto simp: p_q_def)
  have "p * D - D \<le> y * D" "y * D < q * D + 2 * D" using near o pq by linarith+
  then have "(p - 1) * D \<le> y * D" "y * D < (q + 2) * D" by (simp_all add: algebra_simps)
  then have "p - 1 \<le> y" "y < q + 2" using D by (auto simp: mult_le_cancel_right mult_less_cancel_right)
  then show ?thesis unfolding p_q_def by linarith
next
  case False
  then have d: "d \<le> 0" by simp
  have o: "s * d \<le> u * d" "v * d \<le> s * d" using s d by (auto intro: mult_right_mono_neg)
  have z: "u * d \<le> 0" "v * d \<le> 0" using u s d by (auto simp: mult_nonneg_nonpos)
  define p q where "p = (u * d) sdiv D" "q = (v * d) sdiv D"
  have pq: "u * d \<le> p * D" "q * D < v * d + D"
    using trunc_bounds(2) [OF D] z by (auto simp: p_q_def)
  have "q * D - 2 * D < y * D" "y * D \<le> p * D + D" using near o pq by linarith+
  then have "(q - 2) * D < y * D" "y * D \<le> (p + 1) * D" by (simp_all add: algebra_simps)
  then have "q - 2 < y" "y \<le> p + 1" using D by (auto simp: mult_le_cancel_right mult_less_cancel_right)
  then show ?thesis unfolding p_q_def by linarith
qed


lemma sdiv_swap: "((- p) sdiv (- q) :: int) = p sdiv q"
  by (simp add: signed_divide_int_def sgn_if)

text \<open>Where the code's arithmetic stays in range.\<close>

definition small :: "int \<Rightarrow> bool" where
  "small x \<longleftrightarrow> - 16384 < x \<and> x < 16383"

lemma sdiv_bound:
  fixes p q d :: int
  assumes "q \<noteq> 0" "\<bar>p\<bar> \<le> \<bar>q\<bar> * \<bar>d\<bar>" shows "\<bar>p sdiv q\<bar> \<le> \<bar>d\<bar>"
proof -
  have "\<bar>p\<bar> div \<bar>q\<bar> \<le> (\<bar>q\<bar> * \<bar>d\<bar>) div \<bar>q\<bar>" using assms by (intro zdiv_mono1) auto
  then have "\<bar>p\<bar> div \<bar>q\<bar> \<le> \<bar>d\<bar>" using assms(1) by simp
  moreover have "0 \<le> \<bar>p\<bar> div \<bar>q\<bar>" using assms(1) by (simp add: pos_imp_zdiv_nonneg_iff)
  ultimately show ?thesis by (auto simp: signed_divide_int_def sgn_if abs_if)
qed

lemma sdiv_between:
  fixes u d q :: int
  assumes "q \<noteq> 0" "min 0 q \<le> u" "u \<le> max 0 q"
  shows "min 0 d \<le> (u * d) sdiv q \<and> (u * d) sdiv q \<le> max 0 d"
proof -
  have pos: "min 0 d \<le> (u * d) sdiv D \<and> (u * d) sdiv D \<le> max 0 d" if "0 < D" "0 \<le> u" "u \<le> D" for u D :: int
  proof -
    have b: "\<bar>(u * d) sdiv D\<bar> \<le> \<bar>d\<bar>"
      using that mult_right_mono [of u D "\<bar>d\<bar>"] by (intro sdiv_bound) (auto simp: abs_mult)
    show ?thesis
    proof (cases "0 \<le> d")
      case True
      then have "0 \<le> (u * d) sdiv D" using that by (simp add: signed_divide_int_def sgn_if pos_imp_zdiv_nonneg_iff)
      with b True show ?thesis by auto
    next
      case False
      then have "0 \<le> - ((u * d) sdiv D)"
        using that mult_nonneg_nonpos [of u d] by (auto simp: signed_divide_int_def sgn_if pos_imp_zdiv_nonneg_iff)
      with b False show ?thesis by auto
    qed
  qed
  show ?thesis
  proof (cases "0 < q")
    case True then show ?thesis using assms by (intro pos) auto
  next
    case False
    have "((- u) * d) sdiv (- q) = (u * d) sdiv q" using sdiv_swap [of "u * d" q] by simp
    moreover have "min 0 d \<le> ((- u) * d) sdiv (- q) \<and> ((- u) * d) sdiv (- q) \<le> max 0 d"
      using False assms by (intro pos) auto
    ultimately show ?thesis by simp
  qed
qed

lemma minor_at_exact:
  assumes sm: "small M0" "small M1" "small n0" "small n1" and ne: "M1 - M0 \<noteq> 0"
    and a: "min M0 M1 \<le> a" "a \<le> max M0 M1"
  shows "minor_at M0 n0 (M1 - M0) (n1 - n0) a = n0 + ((a - M0) * (n1 - n0)) sdiv (M1 - M0)"
    and "min n0 n1 \<le> minor_at M0 n0 (M1 - M0) (n1 - n0) a \<and> minor_at M0 n0 (M1 - M0) (n1 - n0) a \<le> max n0 n1"
proof -
  have am: "\<bar>a - M0\<bar> \<le> \<bar>M1 - M0\<bar>" using a by (auto simp: min_def max_def split: if_splits)
  have "\<bar>M1 - M0\<bar> * \<bar>n1 - n0\<bar> \<le> 32768 * 32768" using sm by (intro mult_mono) (auto simp: small_def)
  moreover have p: "\<bar>(a - M0) * (n1 - n0)\<bar> \<le> \<bar>M1 - M0\<bar> * \<bar>n1 - n0\<bar>"
    unfolding abs_mult by (rule mult_right_mono [OF am]) simp
  ultimately have f: "s32 ((a - M0) * (n1 - n0)) = (a - M0) * (n1 - n0)"
    by (intro s32_id) linarith+
  have g: "s32 (a - M0) = a - M0" using a sm by (intro s32_id) (auto simp: small_def)
  have q: "min 0 (n1 - n0) \<le> ((a - M0) * (n1 - n0)) sdiv (M1 - M0) \<and> ((a - M0) * (n1 - n0)) sdiv (M1 - M0) \<le> max 0 (n1 - n0)"
    using a by (intro sdiv_between [OF ne]) auto
  have "s32 (n0 + ((a - M0) * (n1 - n0)) sdiv (M1 - M0)) = n0 + ((a - M0) * (n1 - n0)) sdiv (M1 - M0)"
    using q sm by (intro s32_id) (auto simp: small_def)
  then show e: "minor_at M0 n0 (M1 - M0) (n1 - n0) a = n0 + ((a - M0) * (n1 - n0)) sdiv (M1 - M0)"
    by (simp add: minor_at_def f g)
  show "min n0 n1 \<le> minor_at M0 n0 (M1 - M0) (n1 - n0) a \<and> minor_at M0 n0 (M1 - M0) (n1 - n0) a \<le> max n0 n1"
    unfolding e using q by (auto simp: min_def max_def split: if_splits)
qed

text \<open>The rows (or columns) of a strip hold every pixel within one of the line.\<close>

lemma strip_minor:
  assumes sm: "small M0" "small M1" "small n0" "small n1" and ne: "M1 - M0 \<noteq> 0"
    and ab: "min M0 M1 \<le> a" "a \<le> X" "X \<le> b" "b \<le> max M0 M1"
    and near: "\<bar>(Y - n0) * (M1 - M0) - (X - M0) * (n1 - n0)\<bar> \<le> \<bar>M1 - M0\<bar>"
  defines "p \<equiv> minor_at M0 n0 (M1 - M0) (n1 - n0) a" and "q \<equiv> minor_at M0 n0 (M1 - M0) (n1 - n0) b"
  shows "min p q - 1 \<le> Y \<and> Y \<le> max p q + 1 \<and> small (min p q) \<and> small (max p q)"
proof -
  let ?d = "n1 - n0" and ?D = "M1 - M0"
  have e: "p = n0 + ((a - M0) * ?d) sdiv ?D" "q = n0 + ((b - M0) * ?d) sdiv ?D"
    unfolding p_def q_def using ab by (intro minor_at_exact(1) [OF sm ne]; linarith)+
  have l: "min n0 n1 \<le> p \<and> p \<le> max n0 n1" "min n0 n1 \<le> q \<and> q \<le> max n0 n1"
    unfolding p_def q_def using ab by (intro minor_at_exact(2) [OF sm ne]; linarith)+
  have r: "small (min p q)" "small (max p q)" using l sm by (auto simp: small_def min_def max_def split: if_splits)
  have "min p q - 1 \<le> Y \<and> Y \<le> max p q + 1"
  proof (cases "0 < ?D")
    case True
    have "min (((a - M0) * ?d) sdiv ?D) (((b - M0) * ?d) sdiv ?D) - 1 \<le> Y - n0 \<and>
        Y - n0 \<le> max (((a - M0) * ?d) sdiv ?D) (((b - M0) * ?d) sdiv ?D) + 1"
      using True ab near by (intro strip_brackets [where s = "X - M0"]) auto
    then show ?thesis unfolding e by linarith
  next
    case False
    have sw: "((M0 - c) * ?d) sdiv (M0 - M1) = ((c - M0) * ?d) sdiv ?D" for c
      using sdiv_swap [of "(c - M0) * ?d" ?D] by (simp add: algebra_simps)
    have "(Y - n0) * (M0 - M1) - (M0 - X) * ?d = - ((Y - n0) * ?D - (X - M0) * ?d)" by (simp add: algebra_simps)
    then have "\<bar>(Y - n0) * (M0 - M1) - (M0 - X) * ?d\<bar> \<le> M0 - M1" using near False by linarith
    then have "min (((M0 - b) * ?d) sdiv (M0 - M1)) (((M0 - a) * ?d) sdiv (M0 - M1)) - 1 \<le> Y - n0 \<and>
        Y - n0 \<le> max (((M0 - b) * ?d) sdiv (M0 - M1)) (((M0 - a) * ?d) sdiv (M0 - M1)) + 1"
      using False ne ab by (intro strip_brackets [where s = "M0 - X"]) auto
    then show ?thesis unfolding e sw by linarith
  qed
  with r show ?thesis by simp
qed

subsection \<open>Segments\<close>

text \<open>The pixels a segment can draw: inside the box of its end points, within one of the ideal line on
  the minor axis, its end point not among them.\<close>

definition drawn :: "int \<Rightarrow> int \<Rightarrow> int \<Rightarrow> int \<Rightarrow> int \<Rightarrow> int \<Rightarrow> bool" where
  "drawn x0 y0 x1 y1 x y \<longleftrightarrow>
     min x0 x1 \<le> x \<and> x \<le> max x0 x1 \<and> min y0 y1 \<le> y \<and> y \<le> max y0 y1 \<and> (x, y) \<noteq> (x1, y1) \<and>
     \<bar>(y - y0) * (x1 - x0) - (x - x0) * (y1 - y0)\<bar> \<le> max \<bar>x1 - x0\<bar> \<bar>y1 - y0\<bar>"

lemma segment_strip_inside:
  assumes sm: "small x0" "small y0" "small x1" "small y1"
    and maj: "xmajor \<longleftrightarrow> \<bar>x1 - x0\<bar> \<ge> \<bar>y1 - y0\<bar>" and ne: "(if xmajor then y1 - y0 else x1 - x0) \<noteq> 0"
    and d: "drawn x0 y0 x1 y1 x y"
    and hi: "hi = (if xmajor then max x0 x1 else max y0 y1)"
    and m: "(if xmajor then min x0 x1 else min y0 y1) \<le> m" "m \<le> (if xmajor then x else y)" "(if xmajor then x else y) < m + 32"
  shows "inside (segment_strip xmajor x0 y0 (x1 - x0) (y1 - y0) hi m) x y"
proof -
  define b where "b = (if s16 (m + M8_FB16_SEG - 1) < hi then s16 (m + M8_FB16_SEG - 1) else hi)"
  have hm: "m \<le> hi" "hi < 16383" "- 16384 < m" using m hi d sm by (auto simp: drawn_def small_def split: if_splits)
  then have "s16 (m + M8_FB16_SEG - 1) = m + 31" by (simp add: M8_FB16_SEG_def s16_id)
  then have b: "b = min (m + 31) hi" by (simp add: b_def)
  have bx: "(if xmajor then x else y) \<le> b" using m d hi by (auto simp: b drawn_def)
  have sb: "s16 (b + 1) = b + 1" using hm b by (intro s16_id) auto
  have r: "s16 (s32 (min p q - 1)) = min p q - 1 \<and> s16 (s16 (s32 (max p q + 1)) + 1) = max p q + 2"
    if "small (min p q)" "small (max p q)" for p q
  proof -
    have "s32 (min p q - 1) = min p q - 1" "s32 (max p q + 1) = max p q + 1"
      using that by (auto simp: small_def intro!: s32_id)
    moreover have "s16 (min p q - 1) = min p q - 1" "s16 (max p q + 1) = max p q + 1" "s16 (max p q + 1 + 1) = max p q + 1 + 1"
      using that by (intro s16_id; auto simp: small_def)+
    ultimately show ?thesis by simp
  qed
  show ?thesis
  proof (cases xmajor)
    case True
    define p q where "p = minor_at x0 y0 (x1 - x0) (y1 - y0) m" "q = minor_at x0 y0 (x1 - x0) (y1 - y0) b"
    have ne': "x1 - x0 \<noteq> 0" using True maj ne by auto
    have near: "\<bar>(y - y0) * (x1 - x0) - (x - x0) * (y1 - y0)\<bar> \<le> \<bar>x1 - x0\<bar>" using d True maj by (auto simp: drawn_def)
    have "min p q - 1 \<le> y \<and> y \<le> max p q + 1 \<and> small (min p q) \<and> small (max p q)"
      unfolding p_q_def using True m bx b hi by (intro strip_minor [OF sm(1) sm(3) sm(2) sm(4) ne' _ _ _ _ near]) auto
    with r [of p q] True m bx sb show ?thesis
      by (simp add: segment_strip_def b_def [symmetric] p_q_def [symmetric] inside_def Let_def)
  next
    case False
    define p q where "p = minor_at y0 x0 (y1 - y0) (x1 - x0) m" "q = minor_at y0 x0 (y1 - y0) (x1 - x0) b"
    have ne': "y1 - y0 \<noteq> 0" using False maj ne by auto
    have "(x - x0) * (y1 - y0) - (y - y0) * (x1 - x0) = - ((y - y0) * (x1 - x0) - (x - x0) * (y1 - y0))" by simp
    moreover have "\<bar>(y - y0) * (x1 - x0) - (x - x0) * (y1 - y0)\<bar> \<le> \<bar>y1 - y0\<bar>" using d False maj by (auto simp: drawn_def)
    ultimately have near: "\<bar>(x - x0) * (y1 - y0) - (y - y0) * (x1 - x0)\<bar> \<le> \<bar>y1 - y0\<bar>"
      by (simp only: abs_minus_cancel)
    have "min p q - 1 \<le> x \<and> x \<le> max p q + 1 \<and> small (min p q) \<and> small (max p q)"
      unfolding p_q_def using False m bx b hi by (intro strip_minor [OF sm(2) sm(4) sm(1) sm(3) ne' _ _ _ _ near]) auto
    with r [of p q] False m bx sb show ?thesis
      by (simp add: segment_strip_def b_def [symmetric] p_q_def [symmetric] inside_def Let_def)
  qed
qed

lemma segment_covers:
  assumes sm: "small x0" "small y0" "small x1" "small y1"
  shows "\<exists>rs. m8_fb16_segment x0 y0 x1 y1 = Some rs \<and> (\<forall>x y. drawn x0 y0 x1 y1 x y \<longrightarrow> covered rs x y)"
proof -
  define xmajor where "xmajor \<longleftrightarrow> \<bar>x1 - x0\<bar> \<ge> \<bar>y1 - y0\<bar>"
  define lo where "lo = (if xmajor then min x0 x1 else min y0 y1)"
  define hi where "hi = (if xmajor then max x0 x1 else max y0 y1)"
  define st where "st = segment_strip xmajor x0 y0 (x1 - x0) (y1 - y0) hi"
  show ?thesis
  proof (cases "(if xmajor then y1 - y0 else x1 - x0) = 0")
    case True
    have w: "s16 (x1 + 1) = x1 + 1" "s16 (x0 + 1) = x0 + 1" "s16 (y1 + 1) = y1 + 1" "s16 (y0 + 1) = y0 + 1"
      using sm by (auto simp: small_def intro!: s16_id)
    show ?thesis
    proof (cases xmajor)
      case xm: True
      then have "y1 = y0" using True by simp
      then show ?thesis
        using xm by (simp add: m8_fb16_segment_def Let_def xmajor_def [symmetric] w)
          (auto simp: inside_def drawn_def)
    next
      case xm: False
      then have "x1 = x0" using True by simp
      then show ?thesis
        using xm by (simp add: m8_fb16_segment_def Let_def xmajor_def [symmetric] w)
          (auto simp: inside_def drawn_def)
    qed
  next
    case False
    define n where "n = nat ((hi - lo) div 32 + 1)"
    have lh: "lo \<le> hi" "hi < 16383" "- 16384 < lo" using sm by (auto simp: lo_def hi_def small_def)
    then have n: "int n = (hi - lo) div 32 + 1" by (simp add: n_def)
    have "lo + 32 * int n \<le> 32767" unfolding n using lh div32(1) [of "hi - lo"] by (simp only: distrib_left)
    then have ret: "m8_fb16_segment x0 y0 x1 y1 = Some (strips st lo n)"
      using False lh segment_loop_returns [of lo n hi st]
      by (simp add: m8_fb16_segment_def Let_def xmajor_def [symmetric] lo_def [symmetric] hi_def [symmetric] st_def [symmetric] n_def)
    have "covered (strips st lo n) x y" if d: "drawn x0 y0 x1 y1 x y" for x y
    proof -
      define X where "X = (if xmajor then x else y)"
      have X: "lo \<le> X" "X \<le> hi" using d by (auto simp: X_def lo_def hi_def drawn_def)
      define k where "k = nat ((X - lo) div 32)"
      have k: "int k = (X - lo) div 32" using X by (simp add: k_def)
      have "(X - lo) div 32 \<le> (hi - lo) div 32" using X by (intro zdiv_mono1) auto
      then have "int k < int n" unfolding k n by simp
      then have kn: "k < n" by simp
      have m: "lo + 32 * int k \<le> X" "X < lo + 32 * int k + 32" using div32 [of "X - lo"] by (simp_all only: k)
      have "inside (st (lo + 32 * int k)) x y"
        unfolding st_def using d m False
        by (intro segment_strip_inside [OF sm]) (auto simp: xmajor_def lo_def hi_def X_def split: if_splits)
      with kn show ?thesis by (auto simp: covered_def strips_def)
    qed
    with ret show ?thesis by blast
  qed
qed


subsection \<open>Polylines\<close>

lemma short_box_inside:
  assumes "small (fst p)" "small (snd p)" "small (fst q)" "small (snd q)"
    and "drawn (fst p) (snd p) (fst q) (snd q) x y"
  shows "inside (short_box (fst q - fst p) (snd q - snd p) p q) x y"
proof -
  have "s16 (fst p + 1) = fst p + 1" "s16 (fst q + 1) = fst q + 1" "s16 (snd p + 1) = snd p + 1" "s16 (snd q + 1) = snd q + 1"
    using assms(1-4) by (auto simp: small_def intro!: s16_id)
  with assms(5) show ?thesis by (auto simp: inside_def short_box_def drawn_def)
qed

lemma polyline_loop_covers:
  assumes "small (fst p)" "small (snd p)" "\<forall>q \<in> List.set qs. small (fst q) \<and> small (snd q)"
  shows "\<exists>rs. polyline_loop p qs box = Some rs \<and>
    (\<forall>x y. covered (closed_box box) x y \<longrightarrow> covered rs x y) \<and>
    (\<forall>i < length qs. \<forall>x y. drawn (fst ((p # qs) ! i)) (snd ((p # qs) ! i)) (fst (qs ! i)) (snd (qs ! i)) x y \<longrightarrow>
       covered rs x y)"
  using assms
proof (induction p qs box rule: polyline_loop.induct)
  case (1 p box) then show ?case by simp
next
  case (2 p q qs box)
  have sm: "small (fst q)" "small (snd q)" "\<forall>q \<in> List.set qs. small (fst q) \<and> small (snd q)" using "2.prems" by auto
  define dx where "dx = fst q - fst p"
  define dy where "dy = snd q - snd p"
  have w: "s16 (fst q - fst p) = dx" "s16 (snd q - snd p) = dy"
    using "2.prems"(1,2) sm by (auto simp: small_def dx_def dy_def intro!: s16_id)
  have split_i: "(\<forall>i < length (q # qs). P i) \<longleftrightarrow> P 0 \<and> (\<forall>i < length qs. P (Suc i))" for P
    by (simp add: All_less_Suc2)
  show ?case
  proof (cases "dx < - M8_FB16_SHORT \<or> dx > M8_FB16_SHORT \<or> dy < - M8_FB16_SHORT \<or> dy > M8_FB16_SHORT")
    case True
    obtain ss where ss: "m8_fb16_segment (fst p) (snd p) (fst q) (snd q) = Some ss"
      "\<forall>x y. drawn (fst p) (snd p) (fst q) (snd q) x y \<longrightarrow> covered ss x y"
      using segment_covers "2.prems"(1,2) sm by blast
    from "2.IH"(1) [OF w [symmetric] True ss(1) sm] obtain rs where
      "polyline_loop q qs None = Some rs"
      "\<forall>i < length qs. \<forall>x y. drawn (fst ((q # qs) ! i)) (snd ((q # qs) ! i)) (fst (qs ! i)) (snd (qs ! i)) x y \<longrightarrow> covered rs x y"
      by blast
    with True ss show ?thesis unfolding split_i by (simp add: w Let_def)
  next
    case False
    define n where "n = short_box dx dy p q"
    have n: "inside n x y" if "drawn (fst p) (snd p) (fst q) (snd q) x y" for x y
      using short_box_inside "2.prems"(1,2) sm(1,2) that unfolding n_def dx_def dy_def by blast
    show ?thesis
    proof (cases box)
      case None
      from "2.IH"(2) [OF w [symmetric] False n_def None sm] obtain rs where
        "polyline_loop q qs (Some n) = Some rs" "\<forall>x y. covered (closed_box (Some n)) x y \<longrightarrow> covered rs x y"
        "\<forall>i < length qs. \<forall>x y. drawn (fst ((q # qs) ! i)) (snd ((q # qs) ! i)) (fst (qs ! i)) (snd (qs ! i)) x y \<longrightarrow> covered rs x y"
        by blast
      with False None n show ?thesis unfolding split_i by (simp add: w Let_def n_def [symmetric] closed_box_def)
    next
      case (Some b)
      show ?thesis
      proof (cases "m8_fb16_area (m8_fb16_union b n) > M8_FB16_GATHER")
        case big: True
        from "2.IH"(3) [OF w [symmetric] False n_def Some big sm] obtain rs where
          "polyline_loop q qs (Some n) = Some rs" "\<forall>x y. covered (closed_box (Some n)) x y \<longrightarrow> covered rs x y"
          "\<forall>i < length qs. \<forall>x y. drawn (fst ((q # qs) ! i)) (snd ((q # qs) ! i)) (fst (qs ! i)) (snd (qs ! i)) x y \<longrightarrow> covered rs x y"
          by blast
        with False Some big n show ?thesis unfolding split_i by (simp add: w Let_def n_def [symmetric] closed_box_def)
      next
        case fits: False
        from "2.IH"(4) [OF w [symmetric] False n_def Some fits sm] obtain rs where
          "polyline_loop q qs (Some (m8_fb16_union b n)) = Some rs"
          "\<forall>x y. covered (closed_box (Some (m8_fb16_union b n))) x y \<longrightarrow> covered rs x y"
          "\<forall>i < length qs. \<forall>x y. drawn (fst ((q # qs) ! i)) (snd ((q # qs) ! i)) (fst (qs ! i)) (snd (qs ! i)) x y \<longrightarrow> covered rs x y"
          by blast
        with False Some fits n union_inside [of b _ _ n] show ?thesis
          unfolding split_i by (simp add: w Let_def n_def [symmetric] closed_box_def)
      qed
    qed
  qed
qed


subsection \<open>Shapes\<close>

lemma shape_box_min:
  assumes "q \<in> List.set (p # ps)"
  shows "rc_l (shape_box p ps) \<le> fst q"
proof -
  have m: "rc_l (fold (\<lambda>(x, y) lim. rect
      (if x < rc_l lim then x else rc_l lim) (if y < rc_t lim then y else rc_t lim)
      (if x > rc_r lim then x else rc_r lim) (if y > rc_b lim then y else rc_b lim)) ps r) \<le> rc_l r" for ps r
  proof (induction ps arbitrary: r)
    case (Cons a ps)
    obtain x y where "a = (x, y)" by fastforce
    then show ?case by (auto intro: order_trans [OF Cons.IH])
  qed simp
  have q: "rc_l (fold (\<lambda>(x, y) lim. rect
      (if x < rc_l lim then x else rc_l lim) (if y < rc_t lim then y else rc_t lim)
      (if x > rc_r lim then x else rc_r lim) (if y > rc_b lim then y else rc_b lim)) ps r) \<le> fst q"
    if "q \<in> List.set ps" for ps r
    using that
  proof (induction ps arbitrary: r)
    case (Cons a ps)
    obtain x y where a: "a = (x, y)" by fastforce
    show ?case
    proof (cases "q = a")
      case True
      then show ?thesis by (auto simp: a intro: order_trans [OF m])
    next
      case False
      with Cons.prems have "q \<in> List.set ps" by simp
      then show ?thesis by (simp add: Cons.IH)
    qed
  qed simp
  show ?thesis
  proof (cases "q = p")
    case True
    then show ?thesis using m [of ps "rect (fst p) (snd p) (fst p) (snd p)"] by (simp add: shape_box_def)
  next
    case False
    then show ?thesis using assms q [of ps] by (simp add: shape_box_def)
  qed
qed

lemma shape_box_in_range:
  assumes "\<forall>q \<in> List.set (p # ps). - 32768 \<le> fst q"
  shows "- 32768 \<le> rc_l (shape_box p ps)"
proof -
  have "- 32768 \<le> rc_l (fold (\<lambda>(x, y) lim. rect
      (if x < rc_l lim then x else rc_l lim) (if y < rc_t lim then y else rc_t lim)
      (if x > rc_r lim then x else rc_r lim) (if y > rc_b lim then y else rc_b lim)) ps r)"
    if "- 32768 \<le> rc_l r" "\<forall>q \<in> List.set ps. - 32768 \<le> fst q" for r
    using that by (induction ps arbitrary: r) auto
  with assms show ?thesis by (simp add: shape_box_def)
qed

subsection \<open>The properties\<close>

text \<open>C16: The dirty list keeps every pixel of every rectangle an access call names, in never more than its
  four slots, whatever the rectangles and in whatever order they come (the areas it compares may
  wrap: that only chooses where a rectangle goes).\<close>

theorem mach8_dirty_covers:
  "length (fold m8_fb16_add ns []) \<le> M8_FB16_DIRTY \<and>
   {(x, y). covered ns x y} \<subseteq> {(x, y). covered (fold m8_fb16_add ns []) x y}"
  using fold_add_covers [of "[]" ns] by (auto simp: M8_FB16_DIRTY_def)

text \<open>C38: The loop that cuts a sloping line in strips returns exactly when the first step past the line's
  far end is still a 16-bit integer: a line that reaches 32736 or beyond on its major axis can make the
  counter wrap below the line and the loop run for ever.\<close>

theorem mach8_line_returns_iff:
  assumes "- 32768 \<le> x0" "x0 \<le> 32767" "- 32768 \<le> y0" "y0 \<le> 32767"
    and "- 32768 \<le> x1" "x1 \<le> 32767" "- 32768 \<le> y1" "y1 \<le> 32767"
    and "(if \<bar>x1 - x0\<bar> \<ge> \<bar>y1 - y0\<bar> then y1 - y0 else x1 - x0) \<noteq> 0"
    and "lo = (if \<bar>x1 - x0\<bar> \<ge> \<bar>y1 - y0\<bar> then min x0 x1 else min y0 y1)"
    and "hi = (if \<bar>x1 - x0\<bar> \<ge> \<bar>y1 - y0\<bar> then max x0 x1 else max y0 y1)"
  shows "m8_fb16_segment x0 y0 x1 y1 \<noteq> None \<longleftrightarrow> lo + 32 * ((hi - lo) div 32 + 1) \<le> 32767"
proof -
  have "- 32768 \<le> lo" "lo \<le> hi" "hi \<le> 32767" using assms by auto
  note r = segment_loop_returns_iff [OF this]
  show ?thesis using assms(9) unfolding m8_fb16_segment_def Let_def assms(10,11) [symmetric] by (simp only: if_False r)
qed

theorem mach8_line_returns_iff_witness:
  "(m8_fb16_segment 0 0 32767 1 \<noteq> None \<longleftrightarrow> (0 :: int) + 32 * ((32767 - 0) div 32 + 1) \<le> 32767) \<and>
   m8_fb16_segment 0 0 32767 1 = None"
  using mach8_line_returns_iff [of 0 0 32767 1 0 32767] by simp

text \<open>C13: Every pixel the segments of a polyline can draw (inside the box of the end points, within one of
  the ideal line, the end point left out) lies in one of the rectangles sent, for coordinates in the
  range where the code's sums and products fit; and the routine returns.\<close>

theorem mach8_polyline_covers:
  assumes "\<forall>q \<in> List.set ps. small (fst q) \<and> small (snd q)"
    and "Suc i < length ps" "drawn (fst (ps ! i)) (snd (ps ! i)) (fst (ps ! Suc i)) (snd (ps ! Suc i)) x y"
  shows "\<exists>rs. m8_fb16_polyline_sent ps = Some rs \<and> covered rs x y"
proof (cases ps)
  case (Cons p qs)
  then show ?thesis
    using assms polyline_loop_covers [of p qs None] by (auto simp: m8_fb16_polyline_sent_def)
qed (use assms in simp)

theorem mach8_polyline_covers_witness:
  "\<exists>rs. m8_fb16_polyline_sent [(10, 10), (13, 12), (113, 52)] = Some rs \<and> covered rs 63 32"
  by (rule mach8_polyline_covers [where i = 1]) (simp_all add: small_def drawn_def)

text \<open>C39: A shape with a point at the far left of the coordinate space is not sent at all: widening the box
  for the pen wraps its left edge to the far right, so what the DIB Engine then names is cut to nothing.\<close>

theorem mach8_far_left_shape_is_lost:
  assumes "q \<in> List.set (p # ps)" "fst q \<le> - 32767" "\<forall>q \<in> List.set (p # ps). - 32768 \<le> fst q"
    and "rc_r n \<le> 32766"
  shows "no_area (limited (shape_lim p ps) n)"
proof -
  have l: "rc_l (shape_box p ps) \<le> - 32767" "- 32768 \<le> rc_l (shape_box p ps)"
    using shape_box_min [OF assms(1)] assms(2) shape_box_in_range [OF assms(3)] by auto
  then have "rc_l (shape_box p ps) = - 32767 \<or> rc_l (shape_box p ps) = - 32768" by linarith
  then have "32766 \<le> s16 (rc_l (shape_box p ps) - 2)" by (auto simp: s16_def)
  with assms(4) show ?thesis by (auto simp: no_area_def limited_def shape_lim_def Let_def)
qed

theorem mach8_far_left_shape_is_lost_witness:
  "no_area (limited (shape_lim (100, 50) [(-32767, 80), (200, 120)]) (begin_rect 0 50 200 120))"
  by (rule mach8_far_left_shape_is_lost [where q = "(-32767, 80)"]) (simp_all add: begin_rect_def Let_def s16_id)

end
