(* ===== verification/Mach8_Frame.thy ===== *)
theory Mach8_Frame
  imports Mach8_Palette Mach8_Cover
begin

text \<open>
  The 16 bits per pixel mode of the Mach8 driver (\<open>drivers/mach8_display/src/fb16.c\<close>), third part: GDI draws
  in a 5-6-5 frame buffer in RAM; what the open access calls touched goes to the card when the
  outermost one ends, dithered, and fingerprints of 32-pixel pieces keep pixels from being sent
  that the card already shows. The calls of \<open>m8hw.c\<close> and \<open>screen.c\<close> that draw on the card are commands
  appended to a log. The frame buffers are words per selector; a pixel is word
  \<open>y * m8_scr_x + x\<close>. The shared scratch rows \<open>m8_fb16_src\<close> and \<open>m8_fb16_band\<close> are the local lists they
  hold within one call. The DIB Engine's drawing is a parameter, a function on the state.
\<close>

subsection \<open>The card's commands\<close>

text \<open>\<open>Lift\<close> is \<open>m8_cur_lift\<close> (the pointer off l, t, r, b), \<open>Leave\<close> is \<open>m8_leave\<close> (it may come back); \<open>Fill\<close> is
  \<open>m8_hw_fill\<close> (x, y, w, h, colour), \<open>Copy\<close> is \<open>m8_hw_copy\<close> (from sx, sy to dx, dy, w by h), \<open>Put\<close> is
  \<open>m8_hw_write_rect\<close> (x, y, w, h and the rows it reads), \<open>Spans\<close> is \<open>m8_hw_scan_spans\<close> (colour, and the
  spans it draws as x0, y0, x1, y1), \<open>Page_zero\<close> the write to the page register, and the others are
  \<open>m8_hw_set_palette\<close>, \<open>m8_cur_reset\<close> and \<open>m8_hw_forget\<close>.\<close>

datatype card_cmd =
    Lift int int int int
  | Leave
  | Fill int int int int u8
  | Copy int int int int int int
  | Put int int int int "u8 list list"
  | Spans u8 "(int \<times> int \<times> int \<times> int) list"
  | Page_zero
  | Load_palette
  | Reset_pointer
  | Forget_registers

record fb16 =
  m8_scr_x :: int
  m8_scr_y :: int
  ram :: "u16 \<Rightarrow> nat \<Rightarrow> u16"
  m8_fb16_sel :: u16
  m8_fb16_msel :: u16
  m8_fb16_bsel :: u16
  m8_fb16_bmem :: bool
  m8_fb16_hash :: "(nat \<Rightarrow> u32) option"
  m8_fb16_whole :: bool
  m8_fb16_sending :: int
  m8_fb16_reenter :: u32
  m8_fb16_depth :: int
  m8_fb16_dirty :: "M8_FB16_RECT list"
  m8_fb16_lim_on :: bool
  m8_fb16_lim :: M8_FB16_RECT
  m8_fb16_flushing :: bool
  m8_fb16_stat :: "nat \<Rightarrow> u32"
  card_log :: "card_cmd list"

definition emit :: "card_cmd \<Rightarrow> fb16 \<Rightarrow> fb16" where
  "emit c s = s\<lparr>card_log := card_log s @ [c]\<rparr>"

definition count_stat :: "nat \<Rightarrow> u32 \<Rightarrow> fb16 \<Rightarrow> fb16" where
  "count_stat k n s = s\<lparr>m8_fb16_stat := (m8_fb16_stat s)(k := m8_fb16_stat s k + n)\<rparr>"

subsection \<open>Pixels of the frame buffer\<close>

definition pixel_at :: "fb16 \<Rightarrow> int \<Rightarrow> int \<Rightarrow> u16" where
  "pixel_at s x y = ram s (m8_fb16_sel s) (nat (y * m8_scr_x s + x))"

text \<open>\<open>m8_fb16_row\<close>: columns \<open>l\<close> to \<open>r - 1\<close> of row \<open>y\<close>, dithered.\<close>

definition m8_fb16_row :: "fb16 \<Rightarrow> int \<Rightarrow> int \<Rightarrow> int \<Rightarrow> u8 list" where
  "m8_fb16_row s y l r =
     (if r \<le> l then [] else m8_fb16_conv (map (\<lambda>x. pixel_at s x y) [l..r - 1]) (nat y) (nat l))"

definition m8_fb16_same :: "fb16 \<Rightarrow> int \<Rightarrow> int \<Rightarrow> int \<Rightarrow> u16 \<Rightarrow> bool" where
  "m8_fb16_same s y l r v \<longleftrightarrow> list_all (\<lambda>x. pixel_at s x y = v) [l..r - 1]"

subsection \<open>Fingerprints\<close>

definition M8_FB16_SEG_W :: int where "M8_FB16_SEG_W = 32"
definition M8_FB16_HASH_MIN :: int where "M8_FB16_HASH_MIN = 1024"
definition m8_fb16_nseg :: int where "m8_fb16_nseg = 800 div M8_FB16_SEG_W"

definition hash_at :: "int \<Rightarrow> int \<Rightarrow> nat" where
  "hash_at y s = nat (y * m8_fb16_nseg + s)"

text \<open>Little-endian dwords of a piece, and one step of the hash.\<close>

fun dwords :: "u16 list \<Rightarrow> u32 list" where
  "dwords (a # b # ws) = (ucast a OR push_bit 16 (ucast b)) # dwords ws"
| "dwords ws = []"

definition hash_step :: "u32 \<Rightarrow> u32 \<Rightarrow> u32" where
  "hash_step d h = (let h = h + d; h = h + push_bit 10 h in h XOR drop_bit 6 h)"

definition raw_hash :: "u16 list \<Rightarrow> u32" where
  "raw_hash ws = fold hash_step (dwords ws) 0x811C9DC5"

definition piece_hash :: "u16 list \<Rightarrow> u32" where
  "piece_hash ws = (if raw_hash ws \<noteq> 0 then raw_hash ws else 1)"

definition m8_fb16_hash_colour :: "u16 \<Rightarrow> u32" where
  "m8_fb16_hash_colour c =
     (let d = ucast c OR push_bit 16 (ucast c);
          h = (hash_step d ^^ 16) 0x811C9DC5
      in if h \<noteq> 0 then h else 1)"

text \<open>Pieces \<open>s0\<close> to \<open>s1\<close> of rows \<open>t\<close> to \<open>b - 1\<close> set to one value.\<close>

definition set_pieces :: "int \<Rightarrow> int \<Rightarrow> int \<Rightarrow> int \<Rightarrow> u32 \<Rightarrow> (nat \<Rightarrow> u32) \<Rightarrow> nat \<Rightarrow> u32" where
  "set_pieces s0 s1 t b v = fold (\<lambda>y. fold (\<lambda>s h. h(hash_at y s := v)) [s0..s1]) [t..b - 1]"

definition m8_fb16_forget :: "int \<Rightarrow> int \<Rightarrow> int \<Rightarrow> int \<Rightarrow> fb16 \<Rightarrow> fb16" where
  "m8_fb16_forget l t r b s =
     (case m8_fb16_hash s of
        None \<Rightarrow> s
      | Some h \<Rightarrow>
          (let l = max 0 l; t = max 0 t; r = min (m8_scr_x s) r; b = min (m8_scr_y s) b in
           if r \<le> l \<or> b \<le> t then s
           else s\<lparr>m8_fb16_hash := Some (set_pieces (l div M8_FB16_SEG_W) ((r - 1) div M8_FB16_SEG_W) t b 0 h)\<rparr>))"

definition m8_fb16_known :: "int \<Rightarrow> int \<Rightarrow> int \<Rightarrow> int \<Rightarrow> u16 \<Rightarrow> fb16 \<Rightarrow> fb16" where
  "m8_fb16_known l t r b c s =
     (if m8_fb16_hash s = None then s
      else let f0 = (l + M8_FB16_SEG_W - 1) div M8_FB16_SEG_W; f1 = r div M8_FB16_SEG_W in
        if f1 \<le> f0 then m8_fb16_forget l t r b s
        else let s = m8_fb16_forget (f1 * M8_FB16_SEG_W) t r b (m8_fb16_forget l t (f0 * M8_FB16_SEG_W) b s)
             in s\<lparr>m8_fb16_hash := map_option (set_pieces f0 (f1 - 1) t b (m8_fb16_hash_colour c)) (m8_fb16_hash s)\<rparr>)"

text \<open>\<open>M8_FB16_ROWDIFF\<close> (\<open>fb16cv.asm\<close>): \<open>count\<close> pieces against their fingerprints; the changed ones' are
  updated; the first (-1 if none) and the last changed.\<close>

definition rowdiff_piece :: "(nat \<Rightarrow> u16) \<Rightarrow> nat \<Rightarrow> nat \<Rightarrow> nat \<Rightarrow> (nat \<Rightarrow> u32) \<times> int \<times> int \<Rightarrow> (nat \<Rightarrow> u32) \<times> int \<times> int" where
  "rowdiff_piece mem off ht dx = (\<lambda>(h, first, la).
     (let e = piece_hash (map (\<lambda>i. mem (off + 32 * dx + i)) [0..<32]) in
      if e = h (ht + dx) then (h, first, la)
      else (h(ht + dx := e), if first = - 1 then int dx else first, int dx)))"

definition M8_FB16_ROWDIFF :: "(nat \<Rightarrow> u16) \<Rightarrow> nat \<Rightarrow> nat \<Rightarrow> nat \<Rightarrow> (nat \<Rightarrow> u32) \<Rightarrow> (nat \<Rightarrow> u32) \<times> int \<times> int" where
  "M8_FB16_ROWDIFF mem off ht count h = fold (rowdiff_piece mem off ht) [0..<count] (h, - 1, - 1)"

text \<open>\<open>m8_fb16_changed\<close>: the changed span of a row, \<open>None\<close> if nothing in it changed.\<close>

definition m8_fb16_changed :: "int \<Rightarrow> int \<Rightarrow> int \<Rightarrow> (nat \<Rightarrow> u32) \<Rightarrow> fb16 \<Rightarrow> (nat \<Rightarrow> u32) \<times> (int \<times> int) option" where
  "m8_fb16_changed y l r h s =
     (let s0 = l div M8_FB16_SEG_W;
          s1 = (r - 1) div M8_FB16_SEG_W;
          (h', first, la) = M8_FB16_ROWDIFF (ram s (m8_fb16_sel s)) (nat (y * m8_scr_x s + s0 * M8_FB16_SEG_W))
                              (hash_at y s0) (nat (s1 - s0 + 1)) h
      in if first < 0 then (h', None)
         else (h', Some (max ((s0 + first) * M8_FB16_SEG_W) l, min ((s0 + la + 1) * M8_FB16_SEG_W) r)))"

subsection \<open>Sending\<close>

definition even_down :: "int \<Rightarrow> int" where "even_down x = x - x mod 2"
definition even_up :: "int \<Rightarrow> int" where "even_up x = even_down (x + 1)"

definition m8_fb16_entered :: "fb16 \<Rightarrow> fb16" where
  "m8_fb16_entered s = s\<lparr>m8_fb16_reenter := (if m8_fb16_sending s \<noteq> 0 then m8_fb16_reenter s + 1 else m8_fb16_reenter s),
     m8_fb16_sending := m8_fb16_sending s + 1\<rparr>"

definition left_send :: "fb16 \<Rightarrow> fb16" where
  "left_send s = (emit Leave s)\<lparr>m8_fb16_sending := m8_fb16_sending s - 1\<rparr>"

definition M8_FB16_BAND :: int where "M8_FB16_BAND = 4096"

text \<open>The bands of a send without fingerprints: first row and rows of each. \<open>n\<close> is never 0 on a screen of
  at most 4096 columns; with 0 the code's loop would not move on.\<close>

function bands :: "int \<Rightarrow> int \<Rightarrow> int \<Rightarrow> (int \<times> int) list" where
  "bands y b n = (if y < b \<and> 0 < n then (let n' = min n (b - y) in (y, n') # bands (y + n') b n') else [])"
  by pat_completeness auto
termination by (relation "measure (\<lambda>(y, b, n). nat (b - y))") (auto simp: min_def)

declare bands.simps [simp del]

definition send_band :: "int \<Rightarrow> int \<Rightarrow> int \<times> int \<Rightarrow> fb16 \<Rightarrow> fb16" where
  "send_band l r = (\<lambda>(y, n) s. emit (Put l y (r - l) n (map (\<lambda>k. m8_fb16_row s (y + k) l r) [0..n - 1])) s)"

definition send_whole :: "int \<Rightarrow> int \<Rightarrow> int \<Rightarrow> int \<Rightarrow> fb16 \<Rightarrow> fb16" where
  "send_whole l t r b s = fold (send_band l r) (bands t b (M8_FB16_BAND div (r - l))) s"

text \<open>Rows whose changed span is the same go out together: the open band is its columns, first row, and the
  rows collected.\<close>

record band =
  bd_l :: int
  bd_r :: int
  bd_y :: int
  bd_rows :: "u8 list list"

definition put_band :: "band \<Rightarrow> fb16 \<Rightarrow> fb16" where
  "put_band d s = (let w = bd_r d - bd_l d; n = int (length (bd_rows d)) in
     count_stat 2 (of_int (w * n)) (emit (Put (bd_l d) (bd_y d) w n (bd_rows d)) s))"

definition send_row :: "int \<Rightarrow> int \<Rightarrow> int \<Rightarrow> (nat \<Rightarrow> u32) \<times> band \<times> fb16 \<Rightarrow> (nat \<Rightarrow> u32) \<times> band \<times> fb16" where
  "send_row l r y = (\<lambda>(h, d, s).
     (let (h', ch) = m8_fb16_changed y l r h s;
          (cl, cr) = (case ch of None \<Rightarrow> (0, 0) | Some (cl, cr) \<Rightarrow> (even_down cl, even_up cr));
          bn = int (length (bd_rows d));
          full = (bn > 0 \<and> (cl \<noteq> bd_l d \<or> cr \<noteq> bd_r d \<or> (bn + 1) * (bd_r d - bd_l d) > M8_FB16_BAND));
          s = (if full then put_band d s else s);
          d = (if full then d\<lparr>bd_rows := []\<rparr> else d)
      in if cr \<le> cl then (h', d, s)
         else let d = (if bd_rows d = [] then d\<lparr>bd_l := cl, bd_r := cr, bd_y := y\<rparr> else d)
              in (h', d\<lparr>bd_rows := bd_rows d @ [m8_fb16_row s y (bd_l d) (bd_r d)]\<rparr>, s)))"

definition send_changed :: "int \<Rightarrow> int \<Rightarrow> int \<Rightarrow> int \<Rightarrow> (nat \<Rightarrow> u32) \<Rightarrow> fb16 \<Rightarrow> fb16" where
  "send_changed l t r b h s =
     (let (h', d, s) = fold (send_row l r) [t..b - 1] (h, \<lparr>bd_l = 0, bd_r = 0, bd_y = 0, bd_rows = []\<rparr>, s);
          s = (if bd_rows d \<noteq> [] then put_band d s else s)
      in s\<lparr>m8_fb16_hash := Some h'\<rparr>)"

definition m8_fb16_send :: "int \<Rightarrow> int \<Rightarrow> int \<Rightarrow> int \<Rightarrow> fb16 \<Rightarrow> fb16" where
  "m8_fb16_send l t r b s =
     (let l = even_down (max 0 l); t = max 0 t;
          r = even_up (min (m8_scr_x s) r); b = min (m8_scr_y s) b;
          w = s16 (r - l)
      in if w \<le> 0 \<or> b \<le> t then s
         else let s = emit (Lift l t r b) (m8_fb16_entered (count_stat 1 1 s));
                  whole = (m8_fb16_whole s \<or> w * (b - t) < M8_FB16_HASH_MIN);
                  s = (if whole then m8_fb16_forget l t r b s else s)
              in case m8_fb16_hash s of
                   Some h \<Rightarrow>
                     if whole then left_send (send_whole l t r b (count_stat 2 (of_int (w * (b - t))) s))
                     else left_send (send_changed l t r b h s)
                 | None \<Rightarrow> left_send (send_whole l t r b (count_stat 2 (of_int (w * (b - t))) s)))"

subsection \<open>One colour\<close>

definition M8_FB16_SOLID_MIN :: int where "M8_FB16_SOLID_MIN = 64"

definition m8_fb16_uniform :: "int \<Rightarrow> int \<Rightarrow> int \<Rightarrow> int \<Rightarrow> fb16 \<Rightarrow> u16 option" where
  "m8_fb16_uniform l t r b s =
     (let v = pixel_at s l t in
      if list_all (\<lambda>y. m8_fb16_same s y l r v) [t..b - 1] then Some v else None)"

text \<open>The doubling copies: how much is done, and how much the next copy adds.\<close>

function doubling :: "int \<Rightarrow> int \<Rightarrow> (int \<times> int) list" where
  "doubling done w = (if done < w \<and> 0 < done then (let n = min (w - done) done in (done, n) # doubling (done + n) w) else [])"
  by pat_completeness auto
termination by (relation "measure (\<lambda>(d, w). nat (w - d))") (auto simp: min_def)

declare doubling.simps [simp del]

definition solid_block :: "int \<Rightarrow> int \<Rightarrow> int \<Rightarrow> int \<Rightarrow> u16 \<Rightarrow> u8 list list" where
  "solid_block l t bw bh c = map (\<lambda>k. m8_fb16_conv (replicate (nat bw) c) (nat (t + k)) (nat l)) [0..bh - 1]"

definition one_index :: "u8 list list \<Rightarrow> bool" where
  "one_index blk \<longleftrightarrow> list_all (list_all (\<lambda>p. p = hd (hd blk))) blk"

definition m8_fb16_solid :: "int \<Rightarrow> int \<Rightarrow> int \<Rightarrow> int \<Rightarrow> u16 \<Rightarrow> fb16 \<Rightarrow> fb16" where
  "m8_fb16_solid l t r b c s =
     (let w = r - l; h = b - t;
          bw = min w 4; bh = min h 4;
          blk = solid_block l t bw bh c;
          s = emit (Lift l t r b) (count_stat 3 1 s)
      in if one_index blk
         then m8_fb16_known l t r b c (emit Leave (emit (Fill l t w h (hd (hd blk))) s))
         else let s = (if odd bw
                       then fold (\<lambda>k. emit (Fill (l + k mod bw) (t + k div bw) 1 1 (blk ! nat (k div bw) ! nat (k mod bw))))
                              [0..bw * bh - 1] s
                       else emit (Put l t bw bh blk) s);
                  s = fold (\<lambda>(done, n). emit (Copy l t (l + done) t n bh)) (doubling bw w) s;
                  s = fold (\<lambda>(done, n). emit (Copy l t l (t + done) w n)) (doubling bh h) s
              in m8_fb16_known l t r b c (emit Leave s))"

subsection \<open>Rectangles to the card\<close>

definition m8_fb16_flush :: "M8_FB16_RECT \<Rightarrow> fb16 \<Rightarrow> fb16" where
  "m8_fb16_flush d s =
     (let l = max 0 (rc_l d); t = max 0 (rc_t d); r = min (m8_scr_x s) (rc_r d); b = min (m8_scr_y s) (rc_b d) in
      if r \<le> l \<or> b \<le> t then s
      else if (r - l) * (b - t) \<ge> M8_FB16_SOLID_MIN
           then (case m8_fb16_uniform l t r b s of
                   Some c \<Rightarrow> m8_fb16_solid l t r b c s
                 | None \<Rightarrow> m8_fb16_send l t r b s)
           else m8_fb16_send l t r b s)"

definition m8_fb16_send_rect :: "int \<Rightarrow> int \<Rightarrow> int \<Rightarrow> int \<Rightarrow> int \<Rightarrow> fb16 \<Rightarrow> fb16" where
  "m8_fb16_send_rect l t r b solid s =
     (if solid = 2 then (m8_fb16_send l t r b (s\<lparr>m8_fb16_whole := True\<rparr>))\<lparr>m8_fb16_whole := False\<rparr>
      else if solid \<noteq> 0 then
        (let l = max 0 l; t = max 0 t; r = min (m8_scr_x s) r; b = min (m8_scr_y s) b in
         if r > l \<and> b > t then m8_fb16_solid l t r b (pixel_at s l t) s else s)
      else m8_fb16_flush (rect l t r b) s)"

definition m8_fb16_copy_rect :: "int \<Rightarrow> int \<Rightarrow> int \<Rightarrow> int \<Rightarrow> int \<Rightarrow> int \<Rightarrow> fb16 \<Rightarrow> fb16" where
  "m8_fb16_copy_rect sx sy l t r b s =
     (let w = s16 (r - l); h = s16 (b - t) in
      if w \<le> 0 \<or> h \<le> 0 then s
      else if (sx - l) mod 4 = 0 \<and> (sy - t) mod 4 = 0 \<and> l \<ge> 0 \<and> t \<ge> 0 \<and> sx \<ge> 0 \<and> sy \<ge> 0 \<and>
              r \<le> m8_scr_x s \<and> b \<le> m8_scr_y s \<and> s16 (sx + w) \<le> m8_scr_x s \<and> s16 (sy + h) \<le> m8_scr_y s
           then emit Leave (emit (Copy sx sy l t w h)
                  (emit (Lift (min l sx) (min t sy) (max r (s16 (sx + w))) (max b (s16 (sy + h))))
                    (m8_fb16_forget l t r b (count_stat 3 1 s))))
           else m8_fb16_flush (rect l t r b) s)"

subsection \<open>Access calls\<close>

text \<open>\<open>m8_fb16_begin\<close>, the DIB Engine's own part left out; \<open>m8_fb16_stat[4]\<close> is set while page 1 is shown.\<close>

definition m8_fb16_begin :: "u16 \<Rightarrow> u16 \<Rightarrow> u16 \<Rightarrow> u16 \<Rightarrow> fb16 \<Rightarrow> fb16" where
  "m8_fb16_begin wLeft wTop wRight wBottom s =
     (let s = count_stat 0 1 s;
          s = (if m8_fb16_flushing s then s\<lparr>m8_fb16_reenter := m8_fb16_reenter s + 1\<rparr> else s);
          s = (if m8_fb16_stat s 4 \<noteq> 0 then emit Page_zero (s\<lparr>m8_fb16_stat := (m8_fb16_stat s)(4 := 0)\<rparr>) else s);
          s = s\<lparr>m8_fb16_depth := m8_fb16_depth s + 1\<rparr>;
          n = begin_rect wLeft wTop wRight wBottom
      in if m8_fb16_lim_on s
         then (let n = limited (m8_fb16_lim s) n in
               if no_area n then s else s\<lparr>m8_fb16_dirty := m8_fb16_add n (m8_fb16_dirty s)\<rparr>)
         else s\<lparr>m8_fb16_dirty := m8_fb16_add n (m8_fb16_dirty s)\<rparr>)"

definition m8_fb16_end :: "fb16 \<Rightarrow> fb16" where
  "m8_fb16_end s =
     (if m8_fb16_depth s > 0 then
        (let s = s\<lparr>m8_fb16_depth := m8_fb16_depth s - 1\<rparr> in
         if m8_fb16_depth s = 0 then
           (let s = (if m8_fb16_sel s = m8_fb16_msel s
                     then (fold m8_fb16_flush (m8_fb16_dirty s) (s\<lparr>m8_fb16_flushing := True\<rparr>))\<lparr>m8_fb16_flushing := False\<rparr>
                     else s)
            in s\<lparr>m8_fb16_dirty := []\<rparr>)
         else s)
      else s)"

subsection \<open>Drawing calls\<close>

datatype os_style = OS_SCANLINES | OS_POLYSCANLINE | OS_POLYLINE | OS_POLYMARKER | OS_BEGINNSCAN | OS_ENDNSCAN | OS_SHAPE

text \<open>A scanline list: per record its rows and the columns in pairs.\<close>

fun poly_records :: "nat \<Rightarrow> int list \<Rightarrow> (int \<times> int \<times> int list) list" where
  "poly_records 0 p = []"
| "poly_records (Suc k) p =
     (let n = nat (p ! 0 mod 65536) in (p ! 1, p ! 2, take n (drop 3 p)) # poly_records k (drop (n + 4) p))"

definition scan_records :: "os_style \<Rightarrow> nat \<Rightarrow> int list \<Rightarrow> (int \<times> int \<times> int list) list" where
  "scan_records style wCount w =
     (if style = OS_POLYSCANLINE then poly_records wCount w
      else [(w ! 1, w ! 1 + 1, take ((wCount - 1) * 2 mod 65536) (drop 2 w))])"

fun pairs :: "int list \<Rightarrow> (int \<times> int) list" where
  "pairs (a # b # xs) = (a, b) # pairs xs"
| "pairs xs = []"

definition record_spans :: "M8_FB16_RECT \<Rightarrow> int \<times> int \<times> int list \<Rightarrow> (int \<times> int \<times> int \<times> int) list" where
  "record_spans clip = (\<lambda>(y0, y1, xs).
     (let y0 = max (rc_t clip) y0; y1 = min (rc_b clip) y1 in
      if y0 < y1
      then filter (\<lambda>(x0, _, x1, _). x0 < x1) (map (\<lambda>(a, b). (max (rc_l clip) a, y0, min (rc_r clip) b, y1)) (pairs xs))
      else []))"

definition scan_clip :: "M8_FB16_RECT option \<Rightarrow> fb16 \<Rightarrow> M8_FB16_RECT" where
  "scan_clip clip s = (case clip of
      None \<Rightarrow> rect 0 0 (m8_scr_x s) (m8_scr_y s)
    | Some c \<Rightarrow> rect (max 0 (rc_l c)) (max 0 (rc_t c)) (min (m8_scr_x s) (rc_r c)) (min (m8_scr_y s) (rc_b c)))"

definition spans_box :: "(int \<times> int \<times> int \<times> int) list \<Rightarrow> M8_FB16_RECT" where
  "spans_box spans = (case spans of
      [] \<Rightarrow> rect 0 0 0 0
    | (x0, y0, x1, y1) # rest \<Rightarrow>
        fold (\<lambda>(x0, y0, x1, y1) b. rect (min x0 (rc_l b)) (min y0 (rc_t b)) (max x1 (rc_r b)) (max y1 (rc_b b)))
          rest (rect x0 y0 x1 y1))"

text \<open>\<open>m8_fb16_flat\<close>: the index a colour dithers to at every phase, or \<open>None\<close> for -1 (the answer it keeps is the
  answer for the same colour).\<close>

definition m8_fb16_flat :: "u16 \<Rightarrow> u8 option" where
  "m8_fb16_flat c =
     (let px = concat (map (\<lambda>y. m8_fb16_conv (replicate 4 c) y 0) [0..<4]) in
      if list_all (\<lambda>p. p = hd px) px then Some (hd px) else None)"

definition m8_fb16_scan_sent :: "os_style \<Rightarrow> nat \<Rightarrow> int list \<Rightarrow> M8_FB16_RECT option \<Rightarrow> fb16 \<Rightarrow> fb16" where
  "m8_fb16_scan_sent style wCount w clip s =
     (let spans = concat (map (record_spans (scan_clip clip s)) (scan_records style wCount w)) in
      case spans of
        [] \<Rightarrow> s
      | (x0, y0, _, _) # _ \<Rightarrow>
          (let c = pixel_at s x0 y0;
               one = list_all (\<lambda>(x0, y0, x1, y1). list_all (\<lambda>y. m8_fb16_same s y x0 x1 c) [y0..y1 - 1]) spans;
               box = spans_box spans
           in case (if one then m8_fb16_flat c else None) of
                None \<Rightarrow> m8_fb16_flush box s
              | Some ix \<Rightarrow>
                  m8_fb16_forget (rc_l box) (rc_t box) (rc_r box) (rc_b box)
                    (emit Leave (emit (Spans ix spans)
                      (emit (Lift (rc_l box) (rc_t box) (rc_r box) (rc_b box)) s)))))"

text \<open>The DIB Engine called with the limit \<open>lim\<close>; \<open>no_lim s\<close> is the limit under which nothing is marked
  (\<open>m8_fb16_lim.l = m8_fb16_lim.r = 0\<close>, top and bottom as they were).\<close>

definition with_lim :: "M8_FB16_RECT \<Rightarrow> (fb16 \<Rightarrow> fb16) \<Rightarrow> fb16 \<Rightarrow> fb16" where
  "with_lim lim engine s = (engine (s\<lparr>m8_fb16_lim := lim, m8_fb16_lim_on := True\<rparr>))\<lparr>m8_fb16_lim_on := False\<rparr>"

definition no_lim :: "fb16 \<Rightarrow> M8_FB16_RECT" where
  "no_lim s = (m8_fb16_lim s)\<lparr>rc_l := 0, rc_r := 0\<rparr>"

text \<open>\<open>m8_fb16_output\<close>; \<open>pts\<close> is the memory from \<open>lpPoints\<close> on. \<open>None\<close>: it does not return.\<close>

definition m8_fb16_output ::
  "os_style \<Rightarrow> nat \<Rightarrow> point list option \<Rightarrow> M8_FB16_RECT option \<Rightarrow> bool \<Rightarrow> (fb16 \<Rightarrow> fb16) \<Rightarrow> fb16 \<Rightarrow> fb16 option" where
  "m8_fb16_output style wCount pts clip to_screen engine s =
     (case pts of
        None \<Rightarrow> Some ((engine s)\<lparr>m8_fb16_lim_on := False\<rparr>)
      | Some ps \<Rightarrow>
          if style \<in> {OS_SCANLINES, OS_POLYSCANLINE} \<and> wCount \<ge> 1 \<and> m8_fb16_depth s = 0 \<and> to_screen \<and>
             m8_fb16_sel s = m8_fb16_msel s
          then Some (m8_fb16_scan_sent style wCount (concat (map (\<lambda>(x, y). [x, y]) ps)) clip
                       (with_lim (no_lim s) engine s))
          else if style = OS_POLYLINE \<and> wCount \<ge> 2 \<and> m8_fb16_depth s = 0 \<and> to_screen
          then map_option (\<lambda>rs. fold (\<lambda>d. m8_fb16_flush (strip_clip clip d)) rs (with_lim (no_lim s) engine s))
                 (m8_fb16_polyline_sent (take wCount ps))
          else if wCount > 0 \<and> style \<notin> {OS_SCANLINES, OS_POLYMARKER, OS_BEGINNSCAN, OS_ENDNSCAN}
          then Some (with_lim (shape_lim (hd ps) (tl (take wCount ps))) engine s)
          else Some ((engine s)\<lparr>m8_fb16_lim_on := False\<rparr>))"

definition m8_fb16_bitblt ::
  "bool \<Rightarrow> u16 \<Rightarrow> u16 \<Rightarrow> bool \<Rightarrow> u16 \<Rightarrow> u16 \<Rightarrow> u16 \<Rightarrow> u16 \<Rightarrow> u32 \<Rightarrow> (fb16 \<Rightarrow> fb16) \<Rightarrow> fb16 \<Rightarrow> fb16" where
  "m8_fb16_bitblt to_screen wDestX wDestY from_screen wSrcX wSrcY wXext wYext dwRop3 engine s =
     (if to_screen \<and> from_screen \<and> m8_fb16_sel s = m8_fb16_msel s \<and> dwRop3 = 0x00CC0020 \<and> m8_fb16_depth s = 0 \<and>
         sint wXext > 0 \<and> sint wYext > 0 \<and> (wSrcX - wDestX) AND 3 = 0 \<and> (wSrcY - wDestY) AND 3 = 0
      then m8_fb16_copy_rect (sint wSrcX) (sint wSrcY) (sint wDestX) (sint wDestY)
             (s16 (sint wDestX + sint wXext)) (s16 (sint wDestY + sint wYext)) (with_lim (no_lim s) engine s)
      else if \<not> to_screen then with_lim (no_lim s) engine s
      else with_lim (rect (sint wDestX) (sint wDestY) (s16 (sint wDestX + sint wXext)) (s16 (sint wDestY + sint wYext))) engine s)"

text \<open>No draw mode: a get.\<close>

definition m8_fb16_pixel :: "bool \<Rightarrow> (fb16 \<Rightarrow> fb16) \<Rightarrow> fb16 \<Rightarrow> fb16" where
  "m8_fb16_pixel draw_mode engine s =
     (if \<not> draw_mode then with_lim (no_lim s) engine s else (engine s)\<lparr>m8_fb16_lim_on := False\<rparr>)"

subsection \<open>Set-up, DirectDraw and the check\<close>

definition m8_fb16_clear :: "fb16 \<Rightarrow> fb16" where
  "m8_fb16_clear s =
     (if m8_fb16_msel s \<noteq> 0
      then s\<lparr>ram := (ram s)(m8_fb16_msel s := (\<lambda>i. if i < 800 * 600 then 0 else ram s (m8_fb16_msel s) i))\<rparr>
      else s)"

text \<open>\<open>m8_fb16_alloc\<close>: \<open>mem\<close> and \<open>hmem\<close> are what the system's allocator gives (\<open>None\<close>: no memory).\<close>

definition m8_fb16_alloc :: "u16 option \<Rightarrow> bool \<Rightarrow> fb16 \<Rightarrow> bool \<times> fb16" where
  "m8_fb16_alloc mem hmem s =
     (if m8_fb16_sel s \<noteq> 0 then (True, s)
      else case mem of
             None \<Rightarrow> (False, s)
           | Some sel \<Rightarrow>
               (let s = s\<lparr>m8_fb16_sel := sel, m8_fb16_msel := sel, ram := (ram s)(sel := (\<lambda>_. 0))\<rparr> in
                (True, if hmem \<and> 600 * m8_fb16_nseg * 4 < 0x10000 then s\<lparr>m8_fb16_hash := Some (\<lambda>_. 0)\<rparr> else s)))"

text \<open>An entry: op, l, t, r, b, arg.\<close>

datatype batch_op = Batch int u16 u16 u16 u16 u16

text \<open>One entry of \<open>m8_fb16_batch\<close>; \<open>mem\<close> is what allocating the back buffer would give.\<close>

definition batch_step :: "u16 option \<Rightarrow> batch_op \<Rightarrow> fb16 \<Rightarrow> fb16" where
  "batch_step mem e s =
     (case e of Batch op el et er eb arg \<Rightarrow>
       (let l = max 0 (sint el); t = max 0 (sint et); r = min (m8_scr_x s) (sint er); b = min (m8_scr_y s) (sint eb) in
        if op = 0 then m8_fb16_send_rect l t r b (sint arg) s
        else if op = 1 then (if r > l \<and> b > t then m8_fb16_solid l t r b arg s else s)
        else if op = 2 then s\<lparr>m8_fb16_sel := (if arg \<noteq> 0 \<and> m8_fb16_bsel s \<noteq> 0 then m8_fb16_bsel s else m8_fb16_msel s)\<rparr>
        else if op = 3 then
          (if \<not> m8_fb16_bmem s
           then (case mem of None \<Rightarrow> s | Some sel \<Rightarrow> s\<lparr>m8_fb16_bmem := True, m8_fb16_bsel := sel\<rparr>)
           else s)
        else if op = 4 then
          (let s = s\<lparr>m8_fb16_sel := m8_fb16_msel s\<rparr> in
           if m8_fb16_bmem s then s\<lparr>m8_fb16_bmem := False, m8_fb16_bsel := 0\<rparr> else s)
        else if op = 5 then (if r > l \<and> b > t then m8_fb16_forget l t r b s else s)
        else s))"

definition m8_fb16_batch :: "u16 option \<Rightarrow> batch_op list \<Rightarrow> fb16 \<Rightarrow> fb16" where
  "m8_fb16_batch mem es s = fold (batch_step mem) es (emit Forget_registers s)"

definition m8_fb16_send_all :: "fb16 \<Rightarrow> fb16" where
  "m8_fb16_send_all s =
     (let s = emit (Fill 0 0 (m8_scr_x s) (m8_scr_y s) 0) (emit Reset_pointer (emit Load_palette s));
          s = m8_fb16_forget 0 0 (m8_scr_x s) (m8_scr_y s) s
      in m8_fb16_send 0 0 (m8_scr_x s) (m8_scr_y s) s)"

text \<open>\<open>m8_fb16_check\<close>: the card, read back as \<open>have\<close>, against the reference dither: the count and the box of the
  pixels that differ.\<close>

definition check_pixel :: "(int \<Rightarrow> int \<Rightarrow> u8) \<Rightarrow> int \<Rightarrow> u8 list \<Rightarrow> int \<Rightarrow> nat \<times> M8_FB16_RECT \<Rightarrow> nat \<times> M8_FB16_RECT" where
  "check_pixel have_at y want x = (\<lambda>(n, d).
     if want ! nat x \<noteq> have_at x y
     then (n + 1, rect (if x < rc_l d then x else rc_l d) (if y < rc_t d then y else rc_t d)
                    (if x \<ge> rc_r d then x + 1 else rc_r d) (if y \<ge> rc_b d then y + 1 else rc_b d))
     else (n, d))"

definition m8_fb16_check :: "(int \<Rightarrow> int \<Rightarrow> u8) \<Rightarrow> fb16 \<Rightarrow> nat \<times> M8_FB16_RECT" where
  "m8_fb16_check have_at s =
     fold (\<lambda>y. let want = m8_fb16_row_ref (map (\<lambda>x. pixel_at s x y) [0..m8_scr_x s - 1]) (nat y) 0
               in fold (check_pixel have_at y want) [0..m8_scr_x s - 1])
       [0..m8_scr_y s - 1] (0, rect (m8_scr_x s) (m8_scr_y s) 0 0)"

end
