(* ===== verification/Mach8_Send.thy ===== *)
theory Mach8_Send
  imports Mach8_Frame
begin

text \<open>
  What a send leaves on the card. \<open>paint\<close> is the documented effect of a card command on the picture;
  the picture after a call is the commands of its log painted in order. A send makes its rectangle
  show the frame buffer, touches nothing else, and keeps the fingerprints true of the picture.
\<close>

subsection \<open>The picture\<close>

type_synonym picture = "int \<Rightarrow> int \<Rightarrow> u8"

definition in_area :: "int \<Rightarrow> int \<Rightarrow> int \<Rightarrow> int \<Rightarrow> int \<Rightarrow> int \<Rightarrow> bool" where
  "in_area x y w h X Y \<longleftrightarrow> x \<le> X \<and> X < x + w \<and> y \<le> Y \<and> Y < y + h"

fun paint :: "card_cmd \<Rightarrow> picture \<Rightarrow> picture" where
  "paint (Fill x y w h c) p = (\<lambda>X Y. if in_area x y w h X Y then c else p X Y)"
| "paint (Copy sx sy dx dy w h) p = (\<lambda>X Y. if in_area dx dy w h X Y then p (X - dx + sx) (Y - dy + sy) else p X Y)"
| "paint (Put x y w h rows) p = (\<lambda>X Y. if in_area x y w h X Y then rows ! nat (Y - y) ! nat (X - x) else p X Y)"
| "paint (Spans c spans) p =
     fold (\<lambda>(x0, y0, x1, y1) p X Y. if in_area x0 y0 (x1 - x0) (y1 - y0) X Y then c else p X Y) spans p"
| "paint (Lift l t r b) p = p"
| "paint Leave p = p"
| "paint Page_zero p = p"
| "paint Load_palette p = p"
| "paint Reset_pointer p = p"
| "paint Forget_registers p = p"

definition screen :: "picture \<Rightarrow> fb16 \<Rightarrow> picture" where
  "screen p0 s = fold paint (card_log s) p0"

lemma screen_emit [simp]: "screen p0 (emit c s) = paint c (screen p0 s)"
  by (simp add: screen_def emit_def)

lemma screen_log: "card_log s' = card_log s \<Longrightarrow> screen p0 s' = screen p0 s"
  by (simp add: screen_def)

text \<open>The index that colour \<open>c\<close> has at a place.\<close>

definition shade :: "int \<Rightarrow> int \<Rightarrow> u16 \<Rightarrow> u8" where
  "shade x y c = ref_pixel (m8_fb16_bayer ! (nat y mod 4) ! (nat x mod 4)) c"

lemma conv_nth:
  assumes "i < length src"
  shows "m8_fb16_conv src y l ! i = ref_pixel (m8_fb16_bayer ! (y mod 4) ! ((l + i) mod 4)) (src ! i)"
  using assms by (simp add: conv_row_ref m8_fb16_row_ref_def)

lemma length_conv [simp]: "length (m8_fb16_conv src y l) = length src"
  by (simp add: conv_row_ref m8_fb16_row_ref_def)

lemma upto_nth: "k < nat (b - a + 1) \<Longrightarrow> [a..b] ! k = a + int k"
  by (simp add: nth_upto)

lemma row_nth:
  assumes "0 \<le> l" "0 \<le> y" "l \<le> x" "x < r"
  shows "m8_fb16_row s y l r ! nat (x - l) = shade x y (pixel_at s x y)"
proof -
  have k: "nat (x - l) < nat (r - l)" and e: "[l..r - 1] ! nat (x - l) = x" "nat l + nat (x - l) = nat x"
    using assms by (simp_all add: nth_upto)
  then show ?thesis using assms by (simp add: m8_fb16_row_def conv_nth shade_def)
qed

lemma length_row [simp]: "length (m8_fb16_row s y l r) = nat (r - l)"
  by (simp add: m8_fb16_row_def)

text \<open>What the calls here leave alone.\<close>

definition same_buffer :: "fb16 \<Rightarrow> fb16 \<Rightarrow> bool" where
  "same_buffer s s' \<longleftrightarrow> ram s' = ram s \<and> m8_fb16_sel s' = m8_fb16_sel s \<and> m8_fb16_msel s' = m8_fb16_msel s \<and>
     m8_scr_x s' = m8_scr_x s \<and> m8_scr_y s' = m8_scr_y s \<and> m8_fb16_whole s' = m8_fb16_whole s \<and>
     m8_fb16_dirty s' = m8_fb16_dirty s \<and> m8_fb16_depth s' = m8_fb16_depth s \<and> m8_fb16_lim_on s' = m8_fb16_lim_on s"

lemma same_buffer_refl [simp]: "same_buffer s s"
  by (simp add: same_buffer_def)

lemma same_buffer_trans: "same_buffer s s' \<Longrightarrow> same_buffer s' s'' \<Longrightarrow> same_buffer s s''"
  by (simp add: same_buffer_def)

lemma same_buffer_simps [simp]:
  "same_buffer s (emit c s') \<longleftrightarrow> same_buffer s s'"
  "same_buffer s (count_stat k n s') \<longleftrightarrow> same_buffer s s'"
  "same_buffer s (s'\<lparr>m8_fb16_hash := h\<rparr>) \<longleftrightarrow> same_buffer s s'"
  "same_buffer s (m8_fb16_entered s') \<longleftrightarrow> same_buffer s s'"
  "same_buffer s (left_send s') \<longleftrightarrow> same_buffer s s'"
  by (simp_all add: same_buffer_def emit_def count_stat_def m8_fb16_entered_def left_send_def)

lemma pixel_at_same: "same_buffer s s' \<Longrightarrow> pixel_at s' = pixel_at s"
  by (simp add: same_buffer_def pixel_at_def fun_eq_iff)

lemma row_same: "same_buffer s s' \<Longrightarrow> m8_fb16_row s' y l r = m8_fb16_row s y l r"
  by (simp add: m8_fb16_row_def pixel_at_same)

lemma screen_simps [simp]:
  "screen p0 (count_stat k n s) = screen p0 s"
  "screen p0 (s\<lparr>m8_fb16_hash := h\<rparr>) = screen p0 s"
  "screen p0 (m8_fb16_entered s) = screen p0 s"
  "screen p0 (left_send s) = screen p0 s"
  "screen p0 (s\<lparr>m8_fb16_whole := w\<rparr>) = screen p0 s"
  "screen p0 (s\<lparr>m8_fb16_flushing := f\<rparr>) = screen p0 s"
  "screen p0 (s\<lparr>m8_fb16_depth := d\<rparr>) = screen p0 s"
  "screen p0 (s\<lparr>m8_fb16_dirty := ds\<rparr>) = screen p0 s"
  by (simp_all add: screen_def emit_def count_stat_def m8_fb16_entered_def left_send_def)

lemma hash_simps [simp]:
  "m8_fb16_hash (emit c s) = m8_fb16_hash s"
  "m8_fb16_hash (count_stat k n s) = m8_fb16_hash s"
  "m8_fb16_hash (m8_fb16_entered s) = m8_fb16_hash s"
  "m8_fb16_hash (left_send s) = m8_fb16_hash s"
  by (simp_all add: emit_def count_stat_def m8_fb16_entered_def left_send_def)

lemma size_simps [simp]:
  "m8_scr_x (emit c s) = m8_scr_x s" "m8_scr_y (emit c s) = m8_scr_y s"
  "m8_scr_x (count_stat k n s) = m8_scr_x s" "m8_scr_y (count_stat k n s) = m8_scr_y s"
  "m8_scr_x (m8_fb16_entered s) = m8_scr_x s" "m8_scr_y (m8_fb16_entered s) = m8_scr_y s"
  "m8_fb16_whole (emit c s) = m8_fb16_whole s" "m8_fb16_whole (count_stat k n s) = m8_fb16_whole s"
  "m8_fb16_whole (m8_fb16_entered s) = m8_fb16_whole s"
  by (simp_all add: emit_def count_stat_def m8_fb16_entered_def)

subsection \<open>Fingerprint cells\<close>

definition mode_ok :: "fb16 \<Rightarrow> bool" where
  "mode_ok s \<longleftrightarrow> (m8_scr_x s, m8_scr_y s) \<in> {(640, 480), (800, 600)}"

lemma nseg: "m8_fb16_nseg = 25"
  by (simp add: m8_fb16_nseg_def M8_FB16_SEG_W_def)

lemma hash_at_inj:
  assumes "0 \<le> y" "0 \<le> k" "k < 25" "0 \<le> y'" "0 \<le> k'" "k' < 25"
  shows "hash_at y k = hash_at y' k' \<longleftrightarrow> y = y' \<and> k = k'"
proof
  assume "hash_at y k = hash_at y' k'"
  then have e: "y * 25 + k = y' * 25 + k'" using assms by (simp add: hash_at_def nseg eq_nat_nat_iff)
  have "(y * 25 + k) div 25 = y" "(y' * 25 + k') div 25 = y'" using assms by simp_all
  with e show "y = y' \<and> k = k'" by simp
qed simp

lemma inner_pieces: "fold (\<lambda>k h. h(hash_at y k := v)) ks h i = (if \<exists>k \<in> List.set ks. i = hash_at y k then v else h i)"
  by (induction ks arbitrary: h) auto

lemma set_pieces_fold:
  "fold (\<lambda>y. fold (\<lambda>k h. h(hash_at y k := v)) ks) ys h i =
     (if \<exists>y \<in> List.set ys. \<exists>k \<in> List.set ks. i = hash_at y k then v else h i)"
  by (induction ys arbitrary: h) (auto simp: inner_pieces)

lemma set_pieces_at:
  assumes "0 \<le> t" "0 \<le> s0" "s1 < 25" "0 \<le> y" "0 \<le> k" "k < 25"
  shows "set_pieces s0 s1 t b v h (hash_at y k) = (if t \<le> y \<and> y < b \<and> s0 \<le> k \<and> k \<le> s1 then v else h (hash_at y k))"
proof -
  have "(\<exists>y' \<in> List.set [t..b - 1]. \<exists>k' \<in> List.set [s0..s1]. hash_at y k = hash_at y' k') \<longleftrightarrow>
      t \<le> y \<and> y < b \<and> s0 \<le> k \<and> k \<le> s1" (is "?L = ?R")
  proof
    assume ?L
    then obtain y' k' where p: "t \<le> y'" "y' < b" "s0 \<le> k'" "k' \<le> s1" and e: "hash_at y k = hash_at y' k'" by auto
    have "hash_at y k = hash_at y' k' \<longleftrightarrow> y = y' \<and> k = k'" by (rule hash_at_inj) (use assms p in auto)
    with p e show ?R by simp
  next
    assume ?R
    then show ?L by (intro bexI [of _ y] bexI [of _ k]) auto
  qed
  then show ?thesis unfolding set_pieces_def set_pieces_fold by simp
qed


subsection \<open>Fingerprints true of the picture\<close>

definition piece :: "fb16 \<Rightarrow> int \<Rightarrow> int \<Rightarrow> u16 list" where
  "piece s y k = map (\<lambda>i. pixel_at s (32 * k + i) y) [0..31]"

definition shows_piece :: "picture \<Rightarrow> int \<Rightarrow> int \<Rightarrow> u16 list \<Rightarrow> bool" where
  "shows_piece c y k P \<longleftrightarrow> length P = 32 \<and> (\<forall>i \<in> {0..31}. c (32 * k + i) y = shade (32 * k + i) y (P ! nat i))"

text \<open>\<open>snt y k\<close> are the pixels last sent for a piece (a history variable: the code keeps only their
  fingerprint).\<close>

type_synonym history = "int \<Rightarrow> int \<Rightarrow> u16 list"

definition true_cell :: "(nat \<Rightarrow> u32) \<Rightarrow> picture \<Rightarrow> history \<Rightarrow> int \<Rightarrow> int \<Rightarrow> bool" where
  "true_cell h c snt y k \<longleftrightarrow>
     (h (hash_at y k) \<noteq> 0 \<longrightarrow> shows_piece c y k (snt y k) \<and> piece_hash (snt y k) = h (hash_at y k))"

definition on_card :: "fb16 \<Rightarrow> int \<Rightarrow> int \<Rightarrow> bool" where
  "on_card s y k \<longleftrightarrow> 0 \<le> y \<and> y < m8_scr_y s \<and> 0 \<le> k \<and> k < m8_scr_x s div 32"

definition true_cells :: "fb16 \<Rightarrow> (nat \<Rightarrow> u32) \<Rightarrow> picture \<Rightarrow> history \<Rightarrow> bool" where
  "true_cells s h c snt \<longleftrightarrow> (\<forall>y k. on_card s y k \<longrightarrow> true_cell h c snt y k)"

text \<open>The invariant: each fingerprint that is not 0 is that of the pixels last sent for its piece, and the card
  shows those.\<close>

definition true_prints :: "picture \<Rightarrow> fb16 \<Rightarrow> history \<Rightarrow> bool" where
  "true_prints p0 s snt \<longleftrightarrow> (case m8_fb16_hash s of None \<Rightarrow> True | Some h \<Rightarrow> true_cells s h (screen p0 s) snt)"

lemma shows_piece_cong:
  assumes "\<forall>i \<in> {0..31}. c' (32 * k + i) y = c (32 * k + i) y"
  shows "shows_piece c' y k P \<longleftrightarrow> shows_piece c y k P"
  using assms by (auto simp: shows_piece_def)

lemma true_cell_cong:
  assumes "\<forall>i \<in> {0..31}. c' (32 * k + i) y = c (32 * k + i) y" "h' (hash_at y k) = h (hash_at y k) \<or> h' (hash_at y k) = 0"
    "true_cell h c snt y k" "snt' y k = snt y k"
  shows "true_cell h' c' snt' y k"
  using assms shows_piece_cong [of c' k y c] by (auto simp: true_cell_def)

lemma piece_nth: "0 \<le> i \<Longrightarrow> i \<le> 31 \<Longrightarrow> piece s y k ! nat i = pixel_at s (32 * k + i) y"
proof -
  assume "0 \<le> i" "i \<le> 31"
  moreover from this have "[0..31] ! nat i = i" by (subst nth_upto) auto
  ultimately show ?thesis by (simp add: piece_def)
qed

lemma length_piece [simp]: "length (piece s y k) = 32"
  by (simp add: piece_def)

lemma piece_same: "same_buffer s s' \<Longrightarrow> piece s' = piece s"
  by (simp add: piece_def pixel_at_same fun_eq_iff)

definition right :: "fb16 \<Rightarrow> picture \<Rightarrow> int \<Rightarrow> int \<Rightarrow> bool" where
  "right s c x y \<longleftrightarrow> c x y = shade x y (pixel_at s x y)"

lemma shows_ram_iff: "shows_piece c y k (piece s y k) \<longleftrightarrow> (\<forall>i \<in> {0..31}. right s c (32 * k + i) y)"
  by (auto simp: shows_piece_def right_def piece_nth)

lemma right_same: "same_buffer s s' \<Longrightarrow> right s' = right s"
  by (simp add: right_def pixel_at_same fun_eq_iff)

text \<open>The pixels last sent and those in RAM do not collide.\<close>

definition no_collision :: "fb16 \<Rightarrow> history \<Rightarrow> int \<Rightarrow> int \<Rightarrow> bool" where
  "no_collision s snt y k \<longleftrightarrow> (piece_hash (snt y k) = piece_hash (piece s y k) \<longrightarrow> snt y k = piece s y k)"

lemma raw_hash_pos: "piece_hash P \<noteq> 0"
  by (simp add: piece_hash_def)

lemma unchanged_right:
  assumes "true_cell h c snt y k" "no_collision s snt y k" "h (hash_at y k) = piece_hash (piece s y k)" "0 \<le> i" "i \<le> 31"
  shows "right s c (32 * k + i) y"
  using assms raw_hash_pos [of "piece s y k"] shows_ram_iff [of c y k s]
  by (auto simp: true_cell_def no_collision_def)

subsection \<open>Rows against their fingerprints\<close>

lemma rowdiff_upto:
  "fold (rowdiff_piece mem off ht) [0..<n] (h, - 1, - 1) = (h', first, la) \<Longrightarrow>
   (let e = \<lambda>j. piece_hash (map (\<lambda>i. mem (off + 32 * j + i)) [0..<32]) in
    (\<forall>i. h' i = (if ht \<le> i \<and> i < ht + n then e (i - ht) else h i)) \<and>
    - 1 \<le> first \<and> (first = - 1 \<longleftrightarrow> (\<forall>j < n. h (ht + j) = e j)) \<and>
    (\<forall>j < n. h (ht + j) \<noteq> e j \<longrightarrow> first \<le> int j \<and> int j \<le> la))"
proof (induction n arbitrary: h' first la)
  case (Suc n)
  obtain h1 f1 l1 where s: "fold (rowdiff_piece mem off ht) [0..<n] (h, - 1, - 1) = (h1, f1, l1)" by (metis prod_cases3)
  define e where "e = (\<lambda>j. piece_hash (map (\<lambda>i. mem (off + 32 * j + i)) [0..<32]))"
  note ih = Suc.IH [OF s, folded e_def, unfolded Let_def]
  have st: "rowdiff_piece mem off ht n (h1, f1, l1) = (h', first, la)" using Suc.prems by (simp add: s)
  have hn: "h1 (ht + n) = h (ht + n)" using ih by simp
  show ?case
  proof (cases "e n = h (ht + n)")
    case True
    then have "(h', first, la) = (h1, f1, l1)" using st hn by (simp add: rowdiff_piece_def e_def Let_def)
    with ih True show ?thesis unfolding Let_def e_def [symmetric] by (auto simp: less_Suc_eq)
  next
    case False
    then have "(h', first, la) = (h1(ht + n := e n), if f1 = - 1 then int n else f1, int n)"
      using st hn by (simp add: rowdiff_piece_def e_def Let_def)
    then have r: "h' = h1(ht + n := e n)" "first = (if f1 = - 1 then int n else f1)" "la = int n" by simp_all
    have "\<forall>i. h' i = (if ht \<le> i \<and> i < ht + Suc n then e (i - ht) else h i)" using ih by (auto simp: r(1))
    moreover have "- 1 \<le> first \<and> (first = - 1 \<longleftrightarrow> (\<forall>j < Suc n. h (ht + j) = e j))"
      using ih False by (auto simp: r(2) less_Suc_eq)
    moreover have "\<forall>j < Suc n. h (ht + j) \<noteq> e j \<longrightarrow> first \<le> int j \<and> int j \<le> la"
      using ih by (auto simp: r less_Suc_eq dest: spec)
    ultimately show ?thesis unfolding Let_def e_def [symmetric] by blast
  qed
qed auto

lemma changed_spec:
  assumes mode: "mode_ok s" and lr: "0 \<le> l" "l < r" "r \<le> m8_scr_x s" and y: "0 \<le> y"
    and e: "m8_fb16_changed y l r h s = (h', ch)"
  shows "\<And>y' k. 0 \<le> y' \<Longrightarrow> 0 \<le> k \<Longrightarrow> k < 25 \<Longrightarrow> h' (hash_at y' k) =
      (if y' = y \<and> l div 32 \<le> k \<and> k \<le> (r - 1) div 32 then piece_hash (piece s y k) else h (hash_at y' k))"
    and "\<And>x. l \<le> x \<Longrightarrow> x < r \<Longrightarrow> h (hash_at y (x div 32)) \<noteq> piece_hash (piece s y (x div 32)) \<Longrightarrow>
      \<exists>cl cr. ch = Some (cl, cr) \<and> cl \<le> x \<and> x < cr"
    and "\<And>cl cr. ch = Some (cl, cr) \<Longrightarrow> l \<le> cl \<and> cr \<le> r"
    and "(\<And>k. l div 32 \<le> k \<Longrightarrow> k \<le> (r - 1) div 32 \<Longrightarrow> h (hash_at y k) = piece_hash (piece s y k)) \<Longrightarrow> ch = None"
proof -
  define s0 where "s0 = l div 32"
  define s1 where "s1 = (r - 1) div 32"
  define n where "n = nat (s1 - s0 + 1)"
  have s01: "0 \<le> s0" "s0 \<le> s1" "s1 < 25"
  proof -
    show "0 \<le> s0" using lr by (simp add: s0_def)
    show "s0 \<le> s1" unfolding s0_def s1_def using lr by (intro zdiv_mono1) auto
    have "r - 1 \<le> 799" using mode lr by (auto simp: mode_ok_def)
    then have "s1 \<le> 799 div 32" unfolding s1_def by (intro zdiv_mono1) auto
    then show "s1 < 25" by simp
  qed
  obtain f la where rd: "M8_FB16_ROWDIFF (ram s (m8_fb16_sel s)) (nat (y * m8_scr_x s + s0 * 32)) (hash_at y s0) n h = (h', f, la)"
    and ch: "ch = (if f < 0 then None else Some (max ((s0 + f) * 32) l, min ((s0 + la + 1) * 32) r))"
    using e by (auto simp: m8_fb16_changed_def Let_def M8_FB16_SEG_W_def s0_def [symmetric] s1_def [symmetric] n_def [symmetric]
        split: prod.splits if_splits)
  have pe: "piece_hash (map (\<lambda>i. ram s (m8_fb16_sel s) (nat (y * m8_scr_x s + s0 * 32) + 32 * j + i)) [0..<32]) =
      piece_hash (piece s y (s0 + int j))" for j
  proof -
    have "map (\<lambda>i. ram s (m8_fb16_sel s) (nat (y * m8_scr_x s + s0 * 32) + 32 * j + i)) [0..<32] = piece s y (s0 + int j)"
    proof (rule nth_equalityI)
      fix i assume "i < length (map (\<lambda>i. ram s (m8_fb16_sel s) (nat (y * m8_scr_x s + s0 * 32) + 32 * j + i)) [0..<32])"
      then have i: "i < 32" by simp
      have nn: "0 \<le> y * m8_scr_x s" using y mode by (auto simp: mode_ok_def)
      have "nat (y * m8_scr_x s + s0 * 32) + 32 * j + i = nat (y * m8_scr_x s + (32 * (s0 + int j) + int i))"
        using nn s01(1) by (simp add: nat_eq_iff algebra_simps)
      then show "map (\<lambda>i. ram s (m8_fb16_sel s) (nat (y * m8_scr_x s + s0 * 32) + 32 * j + i)) [0..<32] ! i = piece s y (s0 + int j) ! i"
        using i piece_nth [of "int i" s y "s0 + int j"] by (simp add: pixel_at_def)
    qed simp
    then show ?thesis by simp
  qed
  note sp = rowdiff_upto [OF rd [unfolded M8_FB16_ROWDIFF_def], unfolded Let_def pe]
  have ht: "hash_at y s0 + j = hash_at y (s0 + int j)" for j
    using y s01(1) by (simp add: hash_at_def nseg nat_eq_iff)
  have h': "\<forall>i. h' i = (if hash_at y s0 \<le> i \<and> i < hash_at y s0 + n then piece_hash (piece s y (s0 + int (i - hash_at y s0))) else h i)"
    and f: "- 1 \<le> f" "f = - 1 \<longleftrightarrow> (\<forall>j < n. h (hash_at y (s0 + int j)) = piece_hash (piece s y (s0 + int j)))"
    and fl: "\<forall>j < n. h (hash_at y (s0 + int j)) \<noteq> piece_hash (piece s y (s0 + int j)) \<longrightarrow> f \<le> int j \<and> int j \<le> la"
    using sp unfolding ht by blast+
  show "h' (hash_at y' k) = (if y' = y \<and> l div 32 \<le> k \<and> k \<le> (r - 1) div 32 then piece_hash (piece s y k) else h (hash_at y' k))"
    if "0 \<le> y'" "0 \<le> k" "k < 25" for y' k
  proof -
    have "hash_at y s0 \<le> hash_at y' k \<and> hash_at y' k < hash_at y s0 + n \<longleftrightarrow> (\<exists>j < n. hash_at y' k = hash_at y (s0 + int j))"
      unfolding ht [symmetric] by (metis add_less_cancel_left le_add1 le_iff_add)
    also have "\<dots> \<longleftrightarrow> (\<exists>j < n. y' = y \<and> k = s0 + int j)"
    proof (rule ex_cong1, rule conj_cong)
      fix j assume "j < n"
      then have "s0 + int j < 25" using s01 by (simp add: n_def)
      then show "hash_at y' k = hash_at y (s0 + int j) \<longleftrightarrow> y' = y \<and> k = s0 + int j"
        using that y s01(1) by (intro hash_at_inj) auto
    qed simp
    also have "\<dots> \<longleftrightarrow> y' = y \<and> s0 \<le> k \<and> k \<le> s1"
      using s01 by (auto simp: n_def intro!: exI [of _ "nat (k - s0)"])
    finally have c: "hash_at y s0 \<le> hash_at y' k \<and> hash_at y' k < hash_at y s0 + n \<longleftrightarrow> y' = y \<and> s0 \<le> k \<and> k \<le> s1" .
    have "s0 + int (hash_at y k - hash_at y s0) = k" if "s0 \<le> k"
      using that y s01(1) by (simp add: hash_at_def nseg)
    then show ?thesis using c h' by (auto simp: s0_def [symmetric] s1_def [symmetric])
  qed
  show "\<exists>cl cr. ch = Some (cl, cr) \<and> cl \<le> x \<and> x < cr"
    if "l \<le> x" "x < r" and ne: "h (hash_at y (x div 32)) \<noteq> piece_hash (piece s y (x div 32))" for x
  proof -
    define j where "j = nat (x div 32 - s0)"
    have "s0 \<le> x div 32" "x div 32 \<le> s1" unfolding s0_def s1_def using that by (auto intro: zdiv_mono1)
    then have j: "j < n" "s0 + int j = x div 32" by (auto simp: j_def n_def)
    then have "f \<noteq> - 1" "f \<le> int j" "int j \<le> la" using f(2) fl ne by metis+
    moreover have "32 * (x div 32) \<le> x" "x < 32 * (x div 32) + 32" by (rule div32)+
    ultimately show ?thesis using f(1) that(1,2) j(2) by (auto simp: ch)
  qed
  show "l \<le> cl \<and> cr \<le> r" if "ch = Some (cl, cr)" for cl cr
    using that by (auto simp: ch split: if_splits)
  show "ch = None" if eq: "\<And>k. l div 32 \<le> k \<Longrightarrow> k \<le> (r - 1) div 32 \<Longrightarrow> h (hash_at y k) = piece_hash (piece s y k)"
  proof -
    have "h (hash_at y (s0 + int j)) = piece_hash (piece s y (s0 + int j))" if "j < n" for j
      using that by (intro eq) (auto simp: s0_def [symmetric] s1_def [symmetric] n_def)
    then have "f = - 1" using f(2) by blast
    then show ?thesis by (simp add: ch)
  qed
qed


subsection \<open>The rows that changed\<close>

definition band_paint :: "band \<Rightarrow> picture \<Rightarrow> picture" where
  "band_paint d c = (if bd_rows d = [] then c
     else paint (Put (bd_l d) (bd_y d) (bd_r d - bd_l d) (int (length (bd_rows d))) (bd_rows d)) c)"

lemma band_paint_empty [simp]: "bd_rows d = [] \<Longrightarrow> band_paint d c = c"
  by (simp add: band_paint_def)

lemma band_paint_append:
  "band_paint (d\<lparr>bd_rows := bd_rows d @ [row]\<rparr>) c =
    (\<lambda>X Y. if bd_l d \<le> X \<and> X < bd_r d \<and> Y = bd_y d + int (length (bd_rows d)) then row ! nat (X - bd_l d)
           else band_paint d c X Y)"
proof (intro ext)
  fix X Y
  consider "Y = bd_y d + int (length (bd_rows d))" | "bd_y d \<le> Y" "Y < bd_y d + int (length (bd_rows d))"
    | "Y < bd_y d \<or> Y > bd_y d + int (length (bd_rows d))" by linarith
  then show "band_paint (d\<lparr>bd_rows := bd_rows d @ [row]\<rparr>) c X Y =
    (if bd_l d \<le> X \<and> X < bd_r d \<and> Y = bd_y d + int (length (bd_rows d)) then row ! nat (X - bd_l d)
     else band_paint d c X Y)"
  proof cases
    case 2
    then have "nat (Y - bd_y d) < length (bd_rows d)" by linarith
    with 2 show ?thesis by (auto simp: band_paint_def in_area_def nth_append)
  qed (auto simp: band_paint_def in_area_def)
qed

lemma put_band_screen: "bd_rows d \<noteq> [] \<Longrightarrow> screen p0 (put_band d s) = band_paint d (screen p0 s)"
  by (simp add: put_band_def Let_def band_paint_def)

lemma put_band_same [simp]: "same_buffer s (put_band d s') \<longleftrightarrow> same_buffer s s'"
  by (simp add: put_band_def Let_def)

lemma changed_same: "same_buffer s s' \<Longrightarrow> m8_fb16_changed y l r h s' = m8_fb16_changed y l r h s"
  by (simp add: same_buffer_def m8_fb16_changed_def)

definition band_ok :: "fb16 \<Rightarrow> int \<Rightarrow> int \<Rightarrow> int \<Rightarrow> int \<Rightarrow> band \<Rightarrow> bool" where
  "band_ok s l r t y d \<longleftrightarrow> bd_rows d = [] \<or>
     (l \<le> bd_l d \<and> bd_l d < bd_r d \<and> bd_r d \<le> r \<and> t \<le> bd_y d \<and> bd_y d + int (length (bd_rows d)) = y)"

definition sent_upto :: "picture \<Rightarrow> fb16 \<Rightarrow> (nat \<Rightarrow> u32) \<Rightarrow> int \<Rightarrow> int \<Rightarrow> int \<Rightarrow> int \<Rightarrow> (nat \<Rightarrow> u32) \<times> band \<times> fb16 \<Rightarrow> bool" where
  "sent_upto p0 s0 h0 l r t y = (\<lambda>(h, d, s). same_buffer s0 s \<and> band_ok s0 l r t y d \<and> m8_fb16_hash s = m8_fb16_hash s0 \<and>
     (\<forall>X Y. band_paint d (screen p0 s) X Y =
        (if l \<le> X \<and> X < r \<and> t \<le> Y \<and> Y < y then shade X Y (pixel_at s0 X Y) else screen p0 s0 X Y)) \<and>
     (\<forall>Y k. 0 \<le> Y \<longrightarrow> 0 \<le> k \<longrightarrow> k < 25 \<longrightarrow> h (hash_at Y k) =
        (if t \<le> Y \<and> Y < y \<and> l div 32 \<le> k \<and> k \<le> (r - 1) div 32 then piece_hash (piece s0 Y k) else h0 (hash_at Y k))))"

lemma even_down_le: "even_down x \<le> x" "even l \<Longrightarrow> l \<le> x \<Longrightarrow> l \<le> even_down x"
  by (simp_all add: even_down_def) presburger

lemma even_up_ge: "x \<le> even_up x" "even r \<Longrightarrow> x \<le> r \<Longrightarrow> even_up x \<le> r"
  by (simp_all add: even_up_def even_down_def) presburger+

lemma send_row_step:
  assumes mode: "mode_ok s0" and lr: "0 \<le> l" "l < r" "r \<le> m8_scr_x s0" "even l" "even r" and ty: "0 \<le> t" "t \<le> y"
    and cells: "\<And>k. l div 32 \<le> k \<Longrightarrow> k \<le> (r - 1) div 32 \<Longrightarrow>
      true_cell h0 (screen p0 s0) snt y k \<and> no_collision s0 snt y k"
    and inv: "sent_upto p0 s0 h0 l r t y (h, d, s)"
  shows "sent_upto p0 s0 h0 l r t (y + 1) (send_row l r y (h, d, s))"
proof -
  have y: "0 \<le> y" using ty by simp
  have sb: "same_buffer s0 s" and bo: "band_ok s0 l r t y d" and hs: "m8_fb16_hash s = m8_fb16_hash s0"
    and pic: "\<And>X Y. band_paint d (screen p0 s) X Y =
        (if l \<le> X \<and> X < r \<and> t \<le> Y \<and> Y < y then shade X Y (pixel_at s0 X Y) else screen p0 s0 X Y)"
    and hh: "\<And>Y k. 0 \<le> Y \<Longrightarrow> 0 \<le> k \<Longrightarrow> k < 25 \<Longrightarrow> h (hash_at Y k) =
        (if t \<le> Y \<and> Y < y \<and> l div 32 \<le> k \<and> k \<le> (r - 1) div 32 then piece_hash (piece s0 Y k) else h0 (hash_at Y k))"
    using inv unfolding sent_upto_def by auto
  obtain h' ch where ch: "m8_fb16_changed y l r h s0 = (h', ch)" by fastforce
  note sp = changed_spec [OF mode lr(1-3) y ch]
  obtain cl cr where c: "(case ch of None \<Rightarrow> (0, 0) | Some (cl, cr) \<Rightarrow> (even_down cl, even_up cr)) = (cl, cr)" by fastforce
  have k_range: "0 \<le> x div 32" "x div 32 < 25" "l div 32 \<le> x div 32" "x div 32 \<le> (r - 1) div 32" if "l \<le> x" "x < r" for x
  proof -
    show "l div 32 \<le> x div 32" "x div 32 \<le> (r - 1) div 32" using that by (auto intro: zdiv_mono1)
    show "0 \<le> x div 32" using that lr by simp
    have "x \<le> 799" using that lr mode by (auto simp: mode_ok_def)
    then have "x div 32 \<le> 799 div 32" by (intro zdiv_mono1) auto
    then show "x div 32 < 25" by simp
  qed
  have outside: "right s0 (screen p0 s0) x y" if x: "l \<le> x" "x < r" and o: "\<not> (cl \<le> x \<and> x < cr)" for x
  proof -
    have "h (hash_at y (x div 32)) = piece_hash (piece s0 y (x div 32))"
    proof (rule ccontr)
      assume "h (hash_at y (x div 32)) \<noteq> piece_hash (piece s0 y (x div 32))"
      then obtain a b where "ch = Some (a, b)" "a \<le> x" "x < b" using sp(2) x by blast
      with c have "cl = even_down a" "cr = even_up b" by auto
      with o \<open>a \<le> x\<close> \<open>x < b\<close> show False using even_down_le(1) [of a] even_up_ge(1) [of b] by linarith
    qed
    then have e: "h0 (hash_at y (x div 32)) = piece_hash (piece s0 y (x div 32))" using hh [of y "x div 32"] y k_range [OF x] by simp
    have "right s0 (screen p0 s0) (32 * (x div 32) + x mod 32) y"
      using cells [of "x div 32"] k_range [OF x] e by (intro unchanged_right [where h = h0]) auto
    then show ?thesis by simp
  qed
  have span: "l \<le> cl \<and> cr \<le> r" if "cl < cr"
  proof (cases ch)
    case None
    with c that show ?thesis by simp
  next
    case (Some a)
    then obtain u v where "ch = Some (u, v)" by (cases a) auto
    with c sp(3) [of u v] lr(4,5) show ?thesis using even_down_le(2) [of l u] even_up_ge(2) [of r v] by auto
  qed
  define full where "full \<longleftrightarrow> int (length (bd_rows d)) > 0 \<and>
     (cl \<noteq> bd_l d \<or> cr \<noteq> bd_r d \<or> (int (length (bd_rows d)) + 1) * (bd_r d - bd_l d) > M8_FB16_BAND)"
  define s1 where "s1 = (if full then put_band d s else s)"
  define d1 where "d1 = (if full then d\<lparr>bd_rows := []\<rparr> else d)"
  define d2 where "d2 = (if bd_rows d1 = [] then d1\<lparr>bd_l := cl, bd_r := cr, bd_y := y\<rparr> else d1)"
  have step: "send_row l r y (h, d, s) =
    (if cr \<le> cl then (h', d1, s1) else (h', d2\<lparr>bd_rows := bd_rows d2 @ [m8_fb16_row s1 y (bd_l d2) (bd_r d2)]\<rparr>, s1))"
    by (simp only: send_row_def prod.case changed_same [OF sb] ch c Let_def full_def s1_def d1_def d2_def)
  have sb1: "same_buffer s0 s1" and hs1: "m8_fb16_hash s1 = m8_fb16_hash s0"
    using sb hs by (auto simp: s1_def put_band_def Let_def)
  have pic1: "band_paint d1 (screen p0 s1) = band_paint d (screen p0 s)"
  proof (cases full)
    case True
    then have "bd_rows d \<noteq> []" by (auto simp: full_def)
    with True show ?thesis by (simp add: s1_def d1_def put_band_screen)
  qed (simp add: s1_def d1_def)
  have pic2: "band_paint d2 (screen p0 s1) = band_paint d (screen p0 s)"
    unfolding pic1 [symmetric] by (auto simp: d2_def band_paint_def)
  have kept: "bd_l d1 = cl \<and> bd_r d1 = cr \<and> d1 = d" if "bd_rows d1 \<noteq> []"
    using that by (auto simp: d1_def full_def split: if_splits)
  have hh': "h' (hash_at Y k) = (if t \<le> Y \<and> Y < y + 1 \<and> l div 32 \<le> k \<and> k \<le> (r - 1) div 32 then piece_hash (piece s0 Y k) else h0 (hash_at Y k))"
    if "0 \<le> Y" "0 \<le> k" "k < 25" for Y k
    using sp(1) [OF that] hh [OF that] ty by auto
  show ?thesis
  proof (cases "cr \<le> cl")
    case True
    have "bd_rows d1 = []"
    proof (rule ccontr)
      assume "bd_rows d1 \<noteq> []"
      with kept bo True show False by (auto simp: band_ok_def)
    qed
    moreover have "band_paint d (screen p0 s) X Y =
        (if l \<le> X \<and> X < r \<and> t \<le> Y \<and> Y < y + 1 then shade X Y (pixel_at s0 X Y) else screen p0 s0 X Y)" for X Y
      using pic [of X Y] outside [of X] True by (auto simp: right_def)
    ultimately show ?thesis
      unfolding step sent_upto_def using True sb1 hs1 hh' pic1 by (auto simp: band_ok_def)
  next
    case False
    define d3 where "d3 = d2\<lparr>bd_rows := bd_rows d2 @ [m8_fb16_row s1 y (bd_l d2) (bd_r d2)]\<rparr>"
    have b2: "bd_l d2 = cl" "bd_r d2 = cr" "bd_y d2 + int (length (bd_rows d2)) = y" "t \<le> bd_y d2"
      using kept bo ty by (auto simp: d2_def band_ok_def)
    have row: "m8_fb16_row s1 y cl cr ! nat (X - cl) = shade X y (pixel_at s0 X y)" if "cl \<le> X" "X < cr" for X
      using that span False lr(1) y by (simp add: row_same [OF sb1] row_nth)
    have "band_paint d3 (screen p0 s1) X Y =
        (if l \<le> X \<and> X < r \<and> t \<le> Y \<and> Y < y + 1 then shade X Y (pixel_at s0 X Y) else screen p0 s0 X Y)" for X Y
      unfolding d3_def band_paint_append pic2 pic b2 using outside [of X] row [of X] span False ty by (auto simp: right_def)
    moreover have "band_ok s0 l r t (y + 1) d3" using span False b2 by (auto simp: band_ok_def d3_def)
    ultimately show ?thesis
      unfolding step sent_upto_def d3_def [symmetric] using False sb1 hs1 hh' by auto
  qed
qed

lemma send_rows:
  assumes mode: "mode_ok s0" and lr: "0 \<le> l" "l < r" "r \<le> m8_scr_x s0" "even l" "even r" and t: "0 \<le> t"
    and cells: "\<And>y k. t \<le> y \<Longrightarrow> y < t + int n \<Longrightarrow> l div 32 \<le> k \<Longrightarrow> k \<le> (r - 1) div 32 \<Longrightarrow>
      true_cell h0 (screen p0 s0) snt y k \<and> no_collision s0 snt y k"
  shows "sent_upto p0 s0 h0 l r t (t + int n)
    (fold (send_row l r) [t..t + int n - 1] (h0, \<lparr>bd_l = 0, bd_r = 0, bd_y = 0, bd_rows = []\<rparr>, s0))"
  using cells
proof (induction n)
  case 0
  show ?case by (auto simp: sent_upto_def band_ok_def)
next
  case (Suc n)
  have e: "[t..t + int (Suc n) - 1] = [t..t + int n - 1] @ [t + int n]"
    using upto_rec2 [of t "t + int n"] by (simp add: algebra_simps)
  obtain h d s where f: "fold (send_row l r) [t..t + int n - 1] (h0, \<lparr>bd_l = 0, bd_r = 0, bd_y = 0, bd_rows = []\<rparr>, s0) = (h, d, s)"
    by (metis prod_cases3)
  have "sent_upto p0 s0 h0 l r t (t + int n) (h, d, s)" unfolding f [symmetric] by (rule Suc.IH) (use Suc.prems in auto)
  then have "sent_upto p0 s0 h0 l r t (t + int n + 1) (send_row l r (t + int n) (h, d, s))"
    by (intro send_row_step [OF mode lr t, where snt = snt]) (use Suc.prems in auto)
  then show ?case unfolding e by (simp add: f algebra_simps)
qed


text \<open>The send over fingerprints: its rectangle shows the frame buffer, the rest is as it was, and the pieces it
  looked at have the frame buffer's fingerprints.\<close>

lemma send_changed_spec:
  assumes mode: "mode_ok s" and lr: "0 \<le> l" "l < r" "r \<le> m8_scr_x s" "even l" "even r" and tb: "0 \<le> t" "t \<le> b"
    and cells: "\<And>y k. t \<le> y \<Longrightarrow> y < b \<Longrightarrow> l div 32 \<le> k \<Longrightarrow> k \<le> (r - 1) div 32 \<Longrightarrow>
      true_cell h (screen p0 s) snt y k \<and> no_collision s snt y k"
  shows "same_buffer s (send_changed l t r b h s)"
    and "screen p0 (send_changed l t r b h s) X Y =
      (if l \<le> X \<and> X < r \<and> t \<le> Y \<and> Y < b then shade X Y (pixel_at s X Y) else screen p0 s X Y)"
    and "\<exists>h'. m8_fb16_hash (send_changed l t r b h s) = Some h' \<and>
      (\<forall>Y k. 0 \<le> Y \<longrightarrow> 0 \<le> k \<longrightarrow> k < 25 \<longrightarrow> h' (hash_at Y k) =
        (if t \<le> Y \<and> Y < b \<and> l div 32 \<le> k \<and> k \<le> (r - 1) div 32 then piece_hash (piece s Y k) else h (hash_at Y k)))"
proof -
  obtain h' d s' where f: "fold (send_row l r) [t..b - 1] (h, \<lparr>bd_l = 0, bd_r = 0, bd_y = 0, bd_rows = []\<rparr>, s) = (h', d, s')"
    by (metis prod_cases3)
  have n: "t + int (nat (b - t)) = b" using tb by simp
  have "sent_upto p0 s h l r t b (h', d, s')"
    using send_rows [OF mode lr tb(1), where n = "nat (b - t)" and ?p0.0 = p0 and ?h0.0 = h] cells unfolding n f by blast
  then have i: "same_buffer s s'" "band_paint d (screen p0 s') X Y =
        (if l \<le> X \<and> X < r \<and> t \<le> Y \<and> Y < b then shade X Y (pixel_at s X Y) else screen p0 s X Y)"
     "\<forall>Y k. 0 \<le> Y \<longrightarrow> 0 \<le> k \<longrightarrow> k < 25 \<longrightarrow> h' (hash_at Y k) =
        (if t \<le> Y \<and> Y < b \<and> l div 32 \<le> k \<and> k \<le> (r - 1) div 32 then piece_hash (piece s Y k) else h (hash_at Y k))" for X Y
    by (auto simp: sent_upto_def)
  have e: "send_changed l t r b h s = (if bd_rows d \<noteq> [] then put_band d s' else s')\<lparr>m8_fb16_hash := Some h'\<rparr>"
    by (simp add: send_changed_def f)
  show "same_buffer s (send_changed l t r b h s)" using i(1) by (simp add: e)
  show "screen p0 (send_changed l t r b h s) X Y =
      (if l \<le> X \<and> X < r \<and> t \<le> Y \<and> Y < b then shade X Y (pixel_at s X Y) else screen p0 s X Y)"
    unfolding i(2) [symmetric] by (simp add: e put_band_screen)
  show "\<exists>h'. m8_fb16_hash (send_changed l t r b h s) = Some h' \<and>
      (\<forall>Y k. 0 \<le> Y \<longrightarrow> 0 \<le> k \<longrightarrow> k < 25 \<longrightarrow> h' (hash_at Y k) =
        (if t \<le> Y \<and> Y < b \<and> l div 32 \<le> k \<and> k \<le> (r - 1) div 32 then piece_hash (piece s Y k) else h (hash_at Y k)))"
    using i(3) by (simp add: e)
qed

subsection \<open>The send without fingerprints\<close>

lemma put_rows_screen:
  assumes "0 \<le> l" "0 \<le> y"
  shows "paint (Put l y (r - l) n (map (\<lambda>k. m8_fb16_row s (y + k) l r) [0..n - 1])) c X Y =
    (if l \<le> X \<and> X < r \<and> y \<le> Y \<and> Y < y + n then shade X Y (pixel_at s X Y) else c X Y)"
proof (cases "in_area l y (r - l) n X Y")
  case True
  then have i: "l \<le> X" "X < r" "y \<le> Y" "Y < y + n" by (auto simp: in_area_def)
  then have "map (\<lambda>k. m8_fb16_row s (y + k) l r) [0..n - 1] ! nat (Y - y) = m8_fb16_row s Y l r"
    by (simp add: nth_upto)
  with True i assms show ?thesis by (simp add: row_nth)
qed (auto simp: in_area_def)

lemma bands_spec:
  assumes "0 \<le> l" "l < r" "0 \<le> y" "0 < n \<or> b \<le> y"
  shows "same_buffer s (fold (send_band l r) (bands y b n) s)
    \<and> m8_fb16_hash (fold (send_band l r) (bands y b n) s) = m8_fb16_hash s
    \<and> (\<forall>X Y. screen p0 (fold (send_band l r) (bands y b n) s) X Y =
      (if l \<le> X \<and> X < r \<and> y \<le> Y \<and> Y < b then shade X Y (pixel_at s X Y) else screen p0 s X Y))"
  using assms(3,4)
proof (induction y b n arbitrary: s rule: bands.induct)
  case (1 y b n)
  show ?case
  proof (cases "y < b")
    case True
    define n' where "n' = min n (b - y)"
    define s' where "s' = send_band l r (y, n') s"
    have n: "0 < n" "0 < n'" "n' \<le> b - y" using True "1.prems" by (auto simp: n'_def)
    have b: "bands y b n = (y, n') # bands (y + n') b n'" using True n(1) by (subst bands.simps) (simp add: n'_def Let_def)
    have sb: "same_buffer s s'" "m8_fb16_hash s' = m8_fb16_hash s" by (simp_all add: s'_def send_band_def)
    have c: "y < b \<and> 0 < n" using True n by simp
    note ih = "1.IH" [OF c n'_def, of s']
    have "screen p0 s' X Y = (if l \<le> X \<and> X < r \<and> y \<le> Y \<and> Y < y + n' then shade X Y (pixel_at s X Y) else screen p0 s X Y)" for X Y
      using put_rows_screen [OF assms(1) "1.prems"(1)] by (simp add: s'_def send_band_def)
    with ih show ?thesis
      using n "1.prems"(1) sb same_buffer_trans [OF sb(1)] pixel_at_same [OF sb(1)] by (auto simp: b s'_def [symmetric])
  qed (auto simp: bands.simps [of y b n])
qed

lemma band_rows_pos: "0 < w \<Longrightarrow> w \<le> 800 \<Longrightarrow> 0 < M8_FB16_BAND div w"
  by (simp add: M8_FB16_BAND_def pos_imp_zdiv_pos_iff)

lemma send_whole_spec:
  assumes "mode_ok s" "0 \<le> l" "l < r" "r \<le> m8_scr_x s" "0 \<le> t"
  shows "same_buffer s (send_whole l t r b s)" "m8_fb16_hash (send_whole l t r b s) = m8_fb16_hash s"
    "screen p0 (send_whole l t r b s) X Y =
      (if l \<le> X \<and> X < r \<and> t \<le> Y \<and> Y < b then shade X Y (pixel_at s X Y) else screen p0 s X Y)"
proof -
  have "0 < M8_FB16_BAND div (r - l)" using assms by (intro band_rows_pos) (auto simp: mode_ok_def)
  with bands_spec [OF assms(2,3,5), of "M8_FB16_BAND div (r - l)" b s p0] show
    "same_buffer s (send_whole l t r b s)" "m8_fb16_hash (send_whole l t r b s) = m8_fb16_hash s"
    "screen p0 (send_whole l t r b s) X Y =
      (if l \<le> X \<and> X < r \<and> t \<le> Y \<and> Y < b then shade X Y (pixel_at s X Y) else screen p0 s X Y)"
    by (auto simp: send_whole_def)
qed

subsection \<open>Forgetting and knowing\<close>

lemma forget_same [simp]: "same_buffer s (m8_fb16_forget l t r b s') \<longleftrightarrow> same_buffer s s'"
  by (simp add: m8_fb16_forget_def Let_def split: option.splits)

lemma forget_screen [simp]: "screen p0 (m8_fb16_forget l t r b s) = screen p0 s"
  by (simp add: m8_fb16_forget_def Let_def split: option.splits)

lemma forget_hash:
  assumes "m8_fb16_hash s = Some h" "mode_ok s"
  shows "\<exists>h'. m8_fb16_hash (m8_fb16_forget l t r b s) = Some h' \<and>
    (\<forall>Y k. 0 \<le> Y \<longrightarrow> 0 \<le> k \<longrightarrow> k < 25 \<longrightarrow> h' (hash_at Y k) =
      (if max 0 l < min (m8_scr_x s) r \<and> max 0 t < min (m8_scr_y s) b \<and> max 0 t \<le> Y \<and> Y < min (m8_scr_y s) b \<and>
          max 0 l div 32 \<le> k \<and> k \<le> (min (m8_scr_x s) r - 1) div 32 then 0 else h (hash_at Y k)))"
proof -
  define L R T B where "L = max 0 l" "R = min (m8_scr_x s) r" "T = max 0 t" "B = min (m8_scr_y s) b"
  have "R - 1 \<le> 799" using assms(2) by (auto simp: mode_ok_def L_R_T_B_def)
  then have "(R - 1) div 32 \<le> 799 div 32" by (intro zdiv_mono1) auto
  then have top: "(R - 1) div 32 < 25" by simp
  have bot: "0 \<le> L div 32" "0 \<le> T" by (simp_all add: L_R_T_B_def pos_imp_zdiv_nonneg_iff)
  have "m8_fb16_forget l t r b s = (if R \<le> L \<or> B \<le> T then s
      else s\<lparr>m8_fb16_hash := Some (set_pieces (L div 32) ((R - 1) div 32) T B 0 h)\<rparr>)"
    using assms(1) by (simp only: m8_fb16_forget_def Let_def option.case M8_FB16_SEG_W_def L_R_T_B_def)
  then show ?thesis
    unfolding L_R_T_B_def [symmetric] using assms(1) bot top
    by (cases "R \<le> L \<or> B \<le> T") (auto simp: set_pieces_at)
qed

lemma forget_none: "m8_fb16_hash s = None \<Longrightarrow> m8_fb16_forget l t r b s = s"
  by (simp add: m8_fb16_forget_def)


subsection \<open>A send\<close>

text \<open>What a send of l, t .. r, b over fingerprints needs: no collision in the pieces it looks at, and the card
  already right in what those pieces hold beside the rectangle.\<close>

definition sendable :: "fb16 \<Rightarrow> picture \<Rightarrow> history \<Rightarrow> int \<Rightarrow> int \<Rightarrow> int \<Rightarrow> int \<Rightarrow> bool" where
  "sendable s c snt l t r b \<longleftrightarrow> (\<forall>y k. t \<le> y \<and> y < b \<and> l div 32 \<le> k \<and> k \<le> (r - 1) div 32 \<longrightarrow>
     no_collision s snt y k \<and> (\<forall>i \<in> {0..31}. \<not> (l \<le> 32 * k + i \<and> 32 * k + i < r) \<longrightarrow> right s c (32 * k + i) y))"

lemma even_down_div32: "even_down l div 32 = l div 32"
proof -
  have "even_down l = 2 * (l div 2)" by (simp add: even_down_def minus_mod_eq_mult_div)
  then have "even_down l div 32 = (2 * (l div 2)) div (2 * 16)" by simp
  also have "\<dots> = l div 2 div 16" by (subst div_mult_mult1) auto
  also have "\<dots> = l div 32" by (simp add: zdiv_zmult2_eq [symmetric])
  finally show ?thesis .
qed

lemma even_up_div32: "(even_up r - 1) div 32 = (r - 1) div 32"
proof (cases "even r")
  case True
  then show ?thesis by (simp add: even_up_def even_down_def mod_2_eq_odd)
next
  case False
  then obtain m where m: "r = 2 * m + 1" by (auto elim: oddE)
  have "x div 32 = x div 2 div 16" for x :: int by (simp add: zdiv_zmult2_eq [symmetric])
  then have "(2 * m + 1) div 32 = (2 * m) div 32" by simp
  then show ?thesis by (simp add: m even_up_def even_down_def)
qed

lemma even_edges:
  assumes "mode_ok s" "0 \<le> l" "l < r" "r \<le> m8_scr_x s"
  shows "0 \<le> even_down l" "even_down l < even_up r" "even_up r \<le> m8_scr_x s" "even (even_down l)" "even (even_up r)"
    "even_down l \<le> l" "r \<le> even_up r"
proof -
  have "even (m8_scr_x s)" using assms(1) by (auto simp: mode_ok_def)
  then show "even_up r \<le> m8_scr_x s" using assms(4) by (rule even_up_ge(2))
  show "0 \<le> even_down l" using assms(2) even_down_le(2) [of 0 l] by simp
  show "even_down l \<le> l" "r \<le> even_up r" by (rule even_down_le even_up_ge)+
  then show "even_down l < even_up r" using assms(3) by linarith
  show "even (even_down l)" "even (even_up r)" by (simp_all add: even_down_def even_up_def)
qed

lemma on_card_range: "mode_ok s \<Longrightarrow> on_card s y k \<Longrightarrow> 0 \<le> y \<and> 0 \<le> k \<and> k < 25"
  by (auto simp: mode_ok_def on_card_def)

lemma k_on_card:
  assumes "mode_ok s" "0 \<le> l" "r \<le> m8_scr_x s" "0 \<le> y" "y < m8_scr_y s" "l div 32 \<le> k" "k \<le> (r - 1) div 32"
  shows "on_card s y k"
proof -
  have "0 \<le> l div 32" using assms(2) by (simp add: pos_imp_zdiv_nonneg_iff)
  moreover have "(r - 1) div 32 \<le> (m8_scr_x s - 1) div 32" using assms(3) by (intro zdiv_mono1) auto
  moreover have "(m8_scr_x s - 1) div 32 < m8_scr_x s div 32" using assms(1) by (auto simp: mode_ok_def)
  ultimately show ?thesis using assms by (simp add: on_card_def)
qed

lemma piece_column: "l \<le> 32 * k + i \<Longrightarrow> 32 * k + i < r \<Longrightarrow> 0 \<le> i \<Longrightarrow> i \<le> (31 :: int) \<Longrightarrow> l div 32 \<le> k \<and> k \<le> (r - 1) div 32"
proof -
  assume a: "l \<le> 32 * k + i" "32 * k + i < r" "0 \<le> i" "i \<le> 31"
  have "l div 32 \<le> (32 * k + i) div 32" "(32 * k + i) div 32 \<le> (r - 1) div 32" using a by (auto intro: zdiv_mono1)
  moreover have "(32 * k + i) div 32 = k" using a by simp
  ultimately show ?thesis by simp
qed

text \<open>A picture that changed only inside an area whose pieces are forgotten keeps the fingerprints true.\<close>

lemma true_cells_forgotten:
  assumes "mode_ok s" "true_cells s h c snt"
    and pic: "\<And>X Y. \<not> (l \<le> X \<and> X < r \<and> t \<le> Y \<and> Y < b) \<Longrightarrow> c' X Y = c X Y"
    and cells: "\<And>Y k. on_card s Y k \<Longrightarrow> h' (hash_at Y k) = (if t \<le> Y \<and> Y < b \<and> l div 32 \<le> k \<and> k \<le> (r - 1) div 32 then 0 else h (hash_at Y k))"
  shows "true_cells s h' c' snt"
  unfolding true_cells_def
proof (intro allI impI)
  fix Y k assume o: "on_card s Y k"
  show "true_cell h' c' snt Y k"
  proof (cases "t \<le> Y \<and> Y < b \<and> l div 32 \<le> k \<and> k \<le> (r - 1) div 32")
    case True
    with cells [OF o] show ?thesis by (simp add: true_cell_def)
  next
    case False
    then have "\<forall>i \<in> {0..31}. c' (32 * k + i) Y = c (32 * k + i) Y" using piece_column [of l k _ r] by (auto intro!: pic)
    with False cells [OF o] assms(2) o show ?thesis by (intro true_cell_cong [of c' k Y c h' h snt]) (auto simp: true_cells_def)
  qed
qed

lemma send_unfold:
  assumes "mode_ok s" "0 \<le> l" "l < r" "r \<le> m8_scr_x s" "0 \<le> t" "t < b" "b \<le> m8_scr_y s"
  defines "L \<equiv> even_down l" and "R \<equiv> even_up r"
  defines "s1 \<equiv> emit (Lift L t R b) (m8_fb16_entered (count_stat 1 1 s))"
  defines "n \<equiv> of_int ((R - L) * (b - t))"
  defines "whole \<equiv> m8_fb16_whole s \<or> (R - L) * (b - t) < M8_FB16_HASH_MIN"
  shows "m8_fb16_send l t r b s =
    (case m8_fb16_hash s of
       None \<Rightarrow> left_send (send_whole L t R b (count_stat 2 n s1))
     | Some h \<Rightarrow> if whole then left_send (send_whole L t R b (count_stat 2 n (m8_fb16_forget L t R b s1)))
                else left_send (send_changed L t R b h s1))"
proof -
  note e = even_edges [OF assms(1-4), folded L_def R_def]
  have sx: "m8_scr_x s \<le> 800" using assms(1) by (auto simp: mode_ok_def)
  have w: "s16 (R - L) = R - L" "0 < R - L" using e sx by (auto intro!: s16_id)
  have L: "even_down (max 0 l) = L" "even_up (min (m8_scr_x s) r) = R" "max 0 t = t" "min (m8_scr_y s) b = b"
    using assms(2-7) by (simp_all add: L_def R_def)
  have wh: "(m8_fb16_whole s1 \<or> (R - L) * (b - t) < M8_FB16_HASH_MIN) = whole" by (simp add: s1_def whole_def)
  have ne: "\<not> (R - L \<le> 0 \<or> b \<le> t)" using w assms(6) by simp
  show ?thesis
  proof (cases "m8_fb16_hash s")
    case None
    then have "m8_fb16_hash s1 = None" by (simp add: s1_def)
    then show ?thesis
      unfolding m8_fb16_send_def Let_def L w(1) if_not_P [OF ne] s1_def [symmetric] wh n_def [symmetric] by (simp add: None forget_none)
  next
    case (Some h)
    then have h: "m8_fb16_hash s1 = Some h" by (simp add: s1_def)
    then have "m8_fb16_hash (m8_fb16_forget L t R b s1) \<noteq> None" by (simp add: m8_fb16_forget_def Let_def)
    then show ?thesis
      unfolding m8_fb16_send_def Let_def L w(1) if_not_P [OF ne] s1_def [symmetric] wh n_def [symmetric]
      by (auto simp: Some h split: option.splits)
  qed
qed

lemma mode_same: "same_buffer s s' \<Longrightarrow> mode_ok s' = mode_ok s"
  by (simp add: same_buffer_def mode_ok_def)

lemma on_card_same: "same_buffer s s' \<Longrightarrow> on_card s' = on_card s"
  by (simp add: same_buffer_def on_card_def fun_eq_iff)

lemma true_cells_same: "same_buffer s s' \<Longrightarrow> true_cells s' = true_cells s"
  by (simp add: true_cells_def on_card_same fun_eq_iff)

lemma left_send_sizes [simp]: "m8_scr_x (left_send s) = m8_scr_x s" "m8_scr_y (left_send s) = m8_scr_y s"
  by (simp_all add: left_send_def emit_def)

lemma true_cells_left [simp]: "true_cells (left_send s) = true_cells s"
  by (simp add: true_cells_def on_card_def fun_eq_iff)

lemma send_spec:
  assumes mode: "mode_ok s" and lr: "0 \<le> l" "l < r" "r \<le> m8_scr_x s" and tb: "0 \<le> t" "t < b" "b \<le> m8_scr_y s"
    and true: "true_prints p0 s snt" and ok: "sendable s (screen p0 s) snt l t r b"
  shows "same_buffer s (m8_fb16_send l t r b s) \<and>
    (\<exists>snt'. true_prints p0 (m8_fb16_send l t r b s) snt' \<and>
       (\<forall>Y k. snt' Y k = snt Y k \<or> (t \<le> Y \<and> Y < b \<and> l div 32 \<le> k \<and> k \<le> (r - 1) div 32) \<and> snt' Y k = piece s Y k)) \<and>
    (\<forall>X Y. screen p0 (m8_fb16_send l t r b s) X Y =
      (if even_down l \<le> X \<and> X < even_up r \<and> t \<le> Y \<and> Y < b then shade X Y (pixel_at s X Y) else screen p0 s X Y))"
proof -
  define L R where "L = even_down l" "R = even_up r"
  note e = even_edges [OF mode lr, folded L_R_def]
  define s1 where "s1 = emit (Lift L t R b) (m8_fb16_entered (count_stat 1 1 s))"
  define n :: u32 where "n = of_int ((R - L) * (b - t))"
  define whole where "whole \<longleftrightarrow> m8_fb16_whole s \<or> (R - L) * (b - t) < M8_FB16_HASH_MIN"
  note unf = send_unfold [OF mode lr tb, folded L_R_def, folded s1_def n_def whole_def]
  have s1: "same_buffer s s1" "screen p0 s1 = screen p0 s" "m8_fb16_hash s1 = m8_fb16_hash s" by (simp_all add: s1_def)
  have div: "L div 32 = l div 32" "(R - 1) div 32 = (r - 1) div 32" by (simp_all add: L_R_def even_down_div32 even_up_div32)
  show ?thesis
  proof (cases "m8_fb16_hash s")
    case None
    define s2 where "s2 = count_stat 2 n s1"
    have s2: "same_buffer s s2" "screen p0 s2 = screen p0 s" "m8_fb16_hash s2 = None" using s1 None by (simp_all add: s2_def)
    note w = send_whole_spec [of s2 L R t, unfolded mode_same [OF s2(1)] pixel_at_same [OF s2(1)] s2(2), OF mode e(1,2) _ tb(1), where b = b]
    have r: "R \<le> m8_scr_x s2" using e(3) s2(1) by (simp add: same_buffer_def)
    have send: "m8_fb16_send l t r b s = left_send (send_whole L t R b s2)" unfolding unf None by (simp add: s2_def)
    show ?thesis
      unfolding send L_R_def [symmetric] using w [OF r] s2 same_buffer_trans [OF s2(1)]
      by (auto simp: true_prints_def s2 intro!: exI [of _ snt])
  next
    case (Some h)
    have cells: "true_cells s h (screen p0 s) snt" using true Some by (simp add: true_prints_def)
    show ?thesis
    proof (cases whole)
      case True
      define s2 where "s2 = count_stat 2 n (m8_fb16_forget L t R b s1)"
      have s2: "same_buffer s s2" "screen p0 s2 = screen p0 s" using s1 by (simp_all add: s2_def)
      have r: "R \<le> m8_scr_x s2" using e(3) s2(1) by (simp add: same_buffer_def)
      note w = send_whole_spec [of s2 L R t, unfolded mode_same [OF s2(1)] pixel_at_same [OF s2(1)] s2(2), OF mode e(1,2) r tb(1), where b = b]
      have send: "m8_fb16_send l t r b s = left_send (send_whole L t R b s2)" unfolding unf Some using True by (simp add: s2_def)
      have mm: "max 0 L = L" "min (m8_scr_x s1) R = R" "max 0 t = t" "min (m8_scr_y s1) b = b"
        using e tb s1(1) by (auto simp: same_buffer_def)
      obtain h' where h': "m8_fb16_hash s2 = Some h'" "\<And>Y k. 0 \<le> Y \<Longrightarrow> 0 \<le> k \<Longrightarrow> k < 25 \<Longrightarrow> h' (hash_at Y k) =
          (if t \<le> Y \<and> Y < b \<and> L div 32 \<le> k \<and> k \<le> (R - 1) div 32 then 0 else h (hash_at Y k))"
        using forget_hash [of s1 h L t R b] e(2) tb(2) Some s1(3) mode_same [OF s1(1)] mode unfolding mm by (auto simp: s2_def)
      have "true_cells s h' (screen p0 (send_whole L t R b s2)) snt"
        by (rule true_cells_forgotten [OF mode cells, of L R t b]) (use w(3) s2(2) h'(2) on_card_range [OF mode] in auto)
      then have "true_prints p0 (left_send (send_whole L t R b s2)) snt"
        using w(1,2) h'(1) true_cells_same [OF same_buffer_trans [OF s2(1) w(1)]]
        by (simp add: true_prints_def)
      then show ?thesis
        unfolding send L_R_def [symmetric] using w s2(2) same_buffer_trans [OF s2(1) w(1)] by (auto intro!: exI [of _ snt])
    next
      case False
      have r: "R \<le> m8_scr_x s1" using e(3) s1(1) by (simp add: same_buffer_def)
      have m1: "mode_ok s1" using mode mode_same [OF s1(1)] by simp
      have need: "true_cell h (screen p0 s1) snt y k \<and> no_collision s1 snt y k"
        if "t \<le> y" "y < b" "L div 32 \<le> k" "k \<le> (R - 1) div 32" for y k
      proof -
        have "on_card s y k" using that div lr tb by (intro k_on_card [OF mode, of l r]) auto
        then have "true_cell h (screen p0 s) snt y k" using cells by (simp add: true_cells_def)
        moreover have "no_collision s snt y k" using ok that div by (simp add: sendable_def)
        ultimately show ?thesis by (simp add: s1(2) no_collision_def piece_same [OF s1(1)])
      qed
      have tb': "t \<le> b" using tb by simp
      note w = send_changed_spec [OF m1 e(1,2) r e(4,5) tb(1) tb' need, unfolded pixel_at_same [OF s1(1)] s1(2) piece_same [OF s1(1)]]
      have send: "m8_fb16_send l t r b s = left_send (send_changed L t R b h s1)" unfolding unf Some using False by simp
      obtain h' where h': "m8_fb16_hash (send_changed L t R b h s1) = Some h'" "\<And>Y k. 0 \<le> Y \<Longrightarrow> 0 \<le> k \<Longrightarrow> k < 25 \<Longrightarrow> h' (hash_at Y k) =
          (if t \<le> Y \<and> Y < b \<and> L div 32 \<le> k \<and> k \<le> (R - 1) div 32 then piece_hash (piece s Y k) else h (hash_at Y k))"
        using w(3) by blast
      define c' where "c' = screen p0 (send_changed L t R b h s1)"
      have c': "c' X Y = (if L \<le> X \<and> X < R \<and> t \<le> Y \<and> Y < b then shade X Y (pixel_at s X Y) else screen p0 s X Y)" for X Y
        unfolding c'_def by (rule w(2))
      define snt' where "snt' = (\<lambda>Y k. if t \<le> Y \<and> Y < b \<and> l div 32 \<le> k \<and> k \<le> (r - 1) div 32 then piece s Y k else snt Y k)"
      have "true_cells s h' c' snt'"
        unfolding true_cells_def
      proof (intro allI impI)
        fix Y k assume o: "on_card s Y k"
        note rng = on_card_range [OF mode o]
        show "true_cell h' c' snt' Y k"
        proof (cases "t \<le> Y \<and> Y < b \<and> L div 32 \<le> k \<and> k \<le> (R - 1) div 32")
          case True
          have "right s c' (32 * k + i) Y" if "i \<in> {0..31}" for i
          proof (cases "L \<le> 32 * k + i \<and> 32 * k + i < R")
            case inR: True
            with True show ?thesis by (simp add: right_def c')
          next
            case out: False
            then have "\<not> (l \<le> 32 * k + i \<and> 32 * k + i < r)" using e(6,7) by linarith
            with ok True that div have "right s (screen p0 s) (32 * k + i) Y" by (auto simp: sendable_def)
            with out show ?thesis by (auto simp: right_def c')
          qed
          then have "shows_piece c' Y k (piece s Y k)" by (simp add: shows_ram_iff)
          with True h'(2) [of Y k] rng show ?thesis by (auto simp: true_cell_def snt'_def div)
        next
          case out: False
          then have "\<forall>i \<in> {0..31}. c' (32 * k + i) Y = screen p0 s (32 * k + i) Y" using piece_column [of L k _ R] by (auto simp: c')
          with out h'(2) [of Y k] rng cells o show ?thesis by (intro true_cell_cong [of c' k Y "screen p0 s" h' h snt]) (auto simp: true_cells_def snt'_def div)
        qed
      qed
      then have "true_prints p0 (left_send (send_changed L t R b h s1)) snt'"
        using h'(1) true_cells_same [OF same_buffer_trans [OF s1(1) w(1)]] by (simp add: true_prints_def c'_def)
      then show ?thesis
        unfolding send L_R_def [symmetric] using w(2) same_buffer_trans [OF s1(1) w(1)]
        by (auto simp: snt'_def intro!: exI [of _ snt'] split: if_splits)
    qed
  qed
qed

end
