(* ===== verification/Mach8_Solid.thy ===== *)
theory Mach8_Solid
  imports Mach8_Send
begin

text \<open>
  One-colour rectangles and the card's own copies. The dither repeats every four pixels both
  ways, so a 4x4 block doubled by copies at multiples of four, and a copy of the screen by a multiple
  of four, leave what a send pixel by pixel would.
\<close>

subsection \<open>The period of the dither\<close>

lemma shade_period:
  assumes "0 \<le> x" "0 \<le> y" "0 \<le> x'" "0 \<le> y'" "x mod 4 = x' mod 4" "y mod 4 = y' mod 4"
  shows "shade x y c = shade x' y' c"
proof -
  have m: "nat z mod 4 = nat (z mod 4)" if "0 \<le> z" for z :: int
    using that nat_mod_distrib [of z 4] by simp
  have "nat x mod 4 = nat x' mod 4" "nat y mod 4 = nat y' mod 4"
    using assms by (simp_all only: m)
  then show ?thesis by (simp add: shade_def)
qed

lemma solid_block_nth:
  assumes "0 \<le> l" "0 \<le> t" "0 \<le> j" "j < bw" "0 \<le> k" "k < bh"
  shows "solid_block l t bw bh c ! nat k ! nat j = shade (l + j) (t + k) c"
  using assms by (simp add: solid_block_def nth_upto conv_nth shade_def nat_add_distrib)

lemma solid_block_rows:
  assumes "0 < bw" "0 < bh"
  shows "length (solid_block l t bw bh c) = nat bh" "row \<in> List.set (solid_block l t bw bh c) \<Longrightarrow> length row = nat bw"
  using assms by (auto simp: solid_block_def)

lemma in_block:
  assumes "l \<le> X" "X < l + w" "b = min w (4 :: int)" "0 \<le> l"
  shows "0 \<le> (X - l) mod 4 \<and> (X - l) mod 4 < b \<and> (l + (X - l) mod 4) mod 4 = X mod 4"
proof -
  have "(l + (X - l) mod 4) mod 4 = (l + (X - l)) mod 4" by (simp only: mod_add_right_eq)
  moreover have "(X - l) mod 4 < b"
  proof (cases "w < 4")
    case True
    with assms show ?thesis by simp
  next
    case False
    with assms(3) show ?thesis by simp
  qed
  ultimately show ?thesis by simp
qed

lemma one_index_solid:
  assumes "0 \<le> l" "0 \<le> t" "0 < w" "0 < h" "one_index (solid_block l t (min w 4) (min h 4) c)"
    and "l \<le> X" "X < l + w" "t \<le> Y" "Y < t + h"
  shows "shade X Y c = hd (hd (solid_block l t (min w 4) (min h 4) c))"
proof -
  define blk where "blk = solid_block l t (min w 4) (min h 4) c"
  define j where "j = (X - l) mod 4"
  define k where "k = (Y - t) mod 4"
  have j: "0 \<le> j" "j < min w 4" "(l + j) mod 4 = X mod 4"
    using in_block [of l X w "min w 4"] assms unfolding j_def by auto
  have k: "0 \<le> k" "k < min h 4" "(t + k) mod 4 = Y mod 4"
    using in_block [of t Y h "min h 4"] assms unfolding k_def by auto
  have "length blk = nat (min h 4)" using solid_block_rows(1) [of "min w 4" "min h 4" l t c] assms(3,4) by (simp add: blk_def)
  then have "nat k < length blk" using k by simp
  then have "blk ! nat k \<in> List.set blk" by simp
  moreover from this have "nat j < length (blk ! nat k)"
    using j assms(3,4) solid_block_rows(2) [of "min w 4" "min h 4" "blk ! nat k" l t c] by (simp add: blk_def)
  ultimately have "blk ! nat k ! nat j = hd (hd blk)"
    using assms(5) by (auto simp: one_index_def list_all_iff blk_def)
  moreover have "blk ! nat k ! nat j = shade (l + j) (t + k) c"
    unfolding blk_def using assms j k by (intro solid_block_nth) auto
  moreover have "shade (l + j) (t + k) c = shade X Y c" using assms j k by (intro shade_period) auto
  ultimately show ?thesis by (simp add: blk_def)
qed

subsection \<open>Doubling\<close>

definition solid_in :: "int \<Rightarrow> int \<Rightarrow> int \<Rightarrow> int \<Rightarrow> u16 \<Rightarrow> picture \<Rightarrow> picture" where
  "solid_in l t w h c p = (\<lambda>X Y. if in_area l t w h X Y then shade X Y c else p X Y)"

definition copy_across :: "int \<Rightarrow> int \<Rightarrow> int \<Rightarrow> int \<times> int \<Rightarrow> fb16 \<Rightarrow> fb16" where
  "copy_across l t bh = (\<lambda>(dn, n). emit (Copy l t (l + dn) t n bh))"

definition copy_down :: "int \<Rightarrow> int \<Rightarrow> int \<Rightarrow> int \<times> int \<Rightarrow> fb16 \<Rightarrow> fb16" where
  "copy_down l t w = (\<lambda>(dn, n). emit (Copy l t l (t + dn) w n))"

lemma copy_across_step:
  assumes "0 \<le> l" "0 \<le> t" "0 < n" "n \<le> dn" "dn mod 4 = 0"
  shows "paint (Copy l t (l + dn) t n bh) (solid_in l t dn bh c p) = solid_in l t (dn + n) bh c p"
proof (intro ext)
  fix X Y
  show "paint (Copy l t (l + dn) t n bh) (solid_in l t dn bh c p) X Y = solid_in l t (dn + n) bh c p X Y"
  proof (cases "in_area (l + dn) t n bh X Y")
    case True
    then have "shade (X - dn) Y c = shade X Y c"
      using assms by (intro shade_period) (auto simp: in_area_def mod_diff_eq [of X 4 dn, symmetric])
    with True assms show ?thesis by (auto simp: solid_in_def in_area_def)
  qed (use assms in \<open>auto simp: solid_in_def in_area_def\<close>)
qed

lemma copy_down_step:
  assumes "0 \<le> l" "0 \<le> t" "0 < n" "n \<le> dn" "dn mod 4 = 0"
  shows "paint (Copy l t l (t + dn) w n) (solid_in l t w dn c p) = solid_in l t w (dn + n) c p"
proof (intro ext)
  fix X Y
  show "paint (Copy l t l (t + dn) w n) (solid_in l t w dn c p) X Y = solid_in l t w (dn + n) c p X Y"
  proof (cases "in_area l (t + dn) w n X Y")
    case True
    then have "shade X (Y - dn) c = shade X Y c"
      using assms by (intro shade_period) (auto simp: in_area_def mod_diff_eq [of Y 4 dn, symmetric])
    with True assms show ?thesis by (auto simp: solid_in_def in_area_def)
  qed (use assms in \<open>auto simp: solid_in_def in_area_def\<close>)
qed

text \<open>Both loops: from a part whose extent is a multiple of four (or the whole) to the whole.\<close>

lemma doubling_fold:
  assumes step: "\<And>dn n s. 0 < n \<Longrightarrow> n \<le> dn \<Longrightarrow> dn mod 4 = 0 \<Longrightarrow> Q dn s \<Longrightarrow> Q (dn + n) (f (dn, n) s)"
    and "0 < dn" "dn \<le> w" "dn mod 4 = 0 \<or> dn = w" "Q dn s"
  shows "Q w (fold f (doubling dn w) s)"
  using assms(2-5)
proof (induction dn w arbitrary: s rule: doubling.induct)
  case (1 dn w)
  show ?case
  proof (cases "dn < w")
    case True
    define n where "n = min (w - dn) dn"
    have n: "0 < n" "n \<le> dn" "dn + n \<le> w" using True "1.prems" by (auto simp: n_def)
    have d: "doubling dn w = (dn, n) # doubling (dn + n) w"
      using True "1.prems" by (subst doubling.simps) (simp add: n_def Let_def)
    have q: "Q (dn + n) (f (dn, n) s)" using step n "1.prems" True by auto
    have m: "(dn + n) mod 4 = 0 \<or> dn + n = w"
      using "1.prems"(3) True unfolding n_def min_def by (auto simp: mod_add_eq [symmetric])
    have "Q w (fold f (doubling (dn + n) w) (f (dn, n) s))"
      using True "1.prems" n q m by (intro "1.IH" [OF _ n_def]) auto
    then show ?thesis by (simp add: d)
  next
    case False
    then have "dn = w" using "1.prems" by simp
    then show ?thesis using "1.prems" by (simp add: doubling.simps [of w w])
  qed
qed

text \<open>An odd-width block goes a pixel at a time.\<close>

lemma pixel_fills:
  assumes "\<And>k. k \<in> List.set ks \<Longrightarrow> v k = g (l + k mod bw) (t + k div bw)"
  shows "screen p0 (fold (\<lambda>k. emit (Fill (l + k mod bw) (t + k div bw) 1 1 (v k))) ks s) X Y =
    (if \<exists>k \<in> List.set ks. X = l + k mod bw \<and> Y = t + k div bw then g X Y else screen p0 s X Y)"
  using assms
proof (induction ks arbitrary: s)
  case (Cons k ks)
  have "v k = g (l + k mod bw) (t + k div bw)" using Cons.prems by simp
  then show ?case
    using Cons by (simp add: in_area_def) (auto simp: order_antisym_conv)
qed simp

lemma block_index:
  fixes bw bh X Y l t :: int
  assumes "0 < bw"
  shows "(\<exists>k \<in> {0..bw * bh - 1}. X = l + k mod bw \<and> Y = t + k div bw) \<longleftrightarrow> in_area l t bw bh X Y"
proof
  assume "\<exists>k \<in> {0..bw * bh - 1}. X = l + k mod bw \<and> Y = t + k div bw"
  then obtain k where k: "0 \<le> k" "k < bw * bh" "X = l + k mod bw" "Y = t + k div bw" by auto
  have "k div bw < bh"
  proof (rule ccontr)
    assume "\<not> k div bw < bh"
    then have "bw * bh \<le> bw * (k div bw)" using assms by (intro mult_left_mono) auto
    moreover have "bw * (k div bw) = k - k mod bw" by (rule minus_mod_eq_mult_div [symmetric])
    moreover have "0 \<le> k mod bw" using assms by simp
    ultimately show False using k(2) by linarith
  qed
  moreover have "0 \<le> k div bw" using k assms by (simp add: pos_imp_zdiv_nonneg_iff)
  ultimately show "in_area l t bw bh X Y" using k assms by (auto simp: in_area_def)
next
  assume a: "in_area l t bw bh X Y"
  define k where "k = (Y - t) * bw + (X - l)"
  have "(Y - t) * bw \<le> (bh - 1) * bw" using a assms by (intro mult_right_mono) (auto simp: in_area_def)
  then have "k \<le> bw * bh - 1" using a assms by (auto simp: k_def in_area_def algebra_simps)
  moreover have "0 \<le> (Y - t) * bw" using a assms by (simp add: in_area_def)
  then have "0 \<le> k" using a by (simp add: k_def in_area_def)
  moreover have "k mod bw = X - l" "k div bw = Y - t" using a assms by (auto simp: k_def in_area_def)
  ultimately show "\<exists>k \<in> {0..bw * bh - 1}. X = l + k mod bw \<and> Y = t + k div bw"
    by (intro bexI [of _ k]) auto
qed


subsection \<open>What is known after a fill\<close>

lemma dwords_replicate: "dwords (replicate (2 * n) c) = replicate n (ucast c OR push_bit 16 (ucast c))"
  by (induction n) simp_all

lemma hash_colour: "m8_fb16_hash_colour c = piece_hash (replicate 32 c)"
  using dwords_replicate [of 16 c] by (simp add: m8_fb16_hash_colour_def piece_hash_def raw_hash_def Let_def fold_replicate)

lemma known_same [simp]: "same_buffer s (m8_fb16_known l t r b c s') \<longleftrightarrow> same_buffer s s'"
  by (simp add: m8_fb16_known_def Let_def)

lemma known_screen [simp]: "screen p0 (m8_fb16_known l t r b c s) = screen p0 s"
  by (simp add: m8_fb16_known_def Let_def)

lemma known_hash:
  assumes mode: "mode_ok s" and h: "m8_fb16_hash s = Some h" and lr: "0 \<le> l" "l < r" "r \<le> m8_scr_x s"
    and tb: "0 \<le> t" "t < b" "b \<le> m8_scr_y s"
  shows "\<exists>h'. m8_fb16_hash (m8_fb16_known l t r b c s) = Some h' \<and>
    (\<forall>Y k. 0 \<le> Y \<longrightarrow> 0 \<le> k \<longrightarrow> k < 25 \<longrightarrow> h' (hash_at Y k) =
      (if t \<le> Y \<and> Y < b \<and> l div 32 \<le> k \<and> k \<le> (r - 1) div 32
       then (if l \<le> 32 * k \<and> 32 * k + 32 \<le> r then piece_hash (replicate 32 c) else 0)
       else h (hash_at Y k)))"
proof -
  define f0 where "f0 = (l + 32 - 1) div 32"
  define f1 where "f1 = r div 32"
  have sx: "m8_scr_x s \<le> 800" using mode by (auto simp: mode_ok_def)
  have whole: "l \<le> 32 * k \<longleftrightarrow> f0 \<le> k" "32 * k + 32 \<le> r \<longleftrightarrow> k < f1" for k
    unfolding f0_def f1_def using div32 [of "l + 32 - 1"] div32 [of r] by linarith+
  have mx: "max 0 l = l" "min (m8_scr_x s) r = r" "max 0 t = t" "min (m8_scr_y s) b = b" using lr tb by auto
  have unf: "m8_fb16_known l t r b c s = (if f1 \<le> f0 then m8_fb16_forget l t r b s
      else let s = m8_fb16_forget (f1 * 32) t r b (m8_fb16_forget l t (f0 * 32) b s)
           in s\<lparr>m8_fb16_hash := map_option (set_pieces f0 (f1 - 1) t b (m8_fb16_hash_colour c)) (m8_fb16_hash s)\<rparr>)"
    by (simp only: m8_fb16_known_def h option.distinct if_False Let_def M8_FB16_SEG_W_def f0_def f1_def)
  show ?thesis
  proof (cases "f1 \<le> f0")
    case True
    then have "\<not> (l \<le> 32 * k \<and> 32 * k + 32 \<le> r)" for k by (simp add: whole)
    then show ?thesis
      using forget_hash [OF h mode, of l t r b] True lr tb unfolding unf mx by auto
  next
    case False
    define s1 where "s1 = m8_fb16_forget l t (f0 * 32) b s"
    define s2 where "s2 = m8_fb16_forget (f1 * 32) t r b s1"
    have fr: "0 \<le> f0" "f0 * 32 \<le> r" "f1 * 32 \<le> r" "l \<le> f0 * 32" "f1 \<le> 25" "0 \<le> f1 * 32"
      unfolding f0_def f1_def using div32 [of "l + 32 - 1"] div32 [of r] lr sx False by (auto simp: f0_def f1_def)
    have sb: "same_buffer s s1" by (simp add: s1_def)
    have sz: "m8_scr_x s1 = m8_scr_x s" "m8_scr_y s1 = m8_scr_y s" using sb by (simp_all add: same_buffer_def)
    obtain h1 where h1: "m8_fb16_hash s1 = Some h1" "\<And>Y k. 0 \<le> Y \<Longrightarrow> 0 \<le> k \<Longrightarrow> k < 25 \<Longrightarrow> h1 (hash_at Y k) =
        (if l < f0 * 32 \<and> t \<le> Y \<and> Y < b \<and> l div 32 \<le> k \<and> k \<le> (f0 * 32 - 1) div 32 then 0 else h (hash_at Y k))"
      using forget_hash [OF h mode, of l t "f0 * 32" b] fr lr tb unfolding s1_def [symmetric] mx by (auto simp: min_absorb2)
    obtain h2 where h2: "m8_fb16_hash s2 = Some h2" "\<And>Y k. 0 \<le> Y \<Longrightarrow> 0 \<le> k \<Longrightarrow> k < 25 \<Longrightarrow> h2 (hash_at Y k) =
        (if f1 * 32 < r \<and> t \<le> Y \<and> Y < b \<and> (f1 * 32) div 32 \<le> k \<and> k \<le> (r - 1) div 32 then 0 else h1 (hash_at Y k))"
      using forget_hash [OF h1(1), of "f1 * 32" t r b] mode mode_same [OF sb] fr lr tb
      unfolding s2_def [symmetric] sz mx by (auto simp: max_absorb2)
    have e: "m8_fb16_hash (m8_fb16_known l t r b c s) = Some (set_pieces f0 (f1 - 1) t b (m8_fb16_hash_colour c) h2)"
      using False h2(1) unfolding unf by (simp add: s1_def [symmetric] s2_def [symmetric])
    have "set_pieces f0 (f1 - 1) t b (m8_fb16_hash_colour c) h2 (hash_at Y k) =
      (if t \<le> Y \<and> Y < b \<and> l div 32 \<le> k \<and> k \<le> (r - 1) div 32
       then (if l \<le> 32 * k \<and> 32 * k + 32 \<le> r then piece_hash (replicate 32 c) else 0)
       else h (hash_at Y k))" if p: "0 \<le> Y" "0 \<le> k" "k < 25" for Y k
    proof -
      have a: "l div 32 \<le> k \<longleftrightarrow> l < 32 * k + 32" "k \<le> (r - 1) div 32 \<longleftrightarrow> 32 * k < r"
        using div32 [of l] div32 [of "r - 1"] by linarith+
      have b1: "k \<le> (f0 * 32 - 1) div 32 \<longleftrightarrow> k < f0" by linarith
      have "set_pieces f0 (f1 - 1) t b (m8_fb16_hash_colour c) h2 (hash_at Y k) =
          (if t \<le> Y \<and> Y < b \<and> f0 \<le> k \<and> k \<le> f1 - 1 then m8_fb16_hash_colour c else h2 (hash_at Y k))"
        using p fr tb by (intro set_pieces_at) auto
      then show ?thesis
        using h1(2) [OF p] h2(2) [OF p] whole [of k] fr lr by (auto simp: hash_colour a b1)
    qed
    with e show ?thesis by blast
  qed
qed

definition full_piece :: "int \<Rightarrow> int \<Rightarrow> int \<Rightarrow> int \<Rightarrow> int \<Rightarrow> int \<Rightarrow> bool" where
  "full_piece l t r b Y k \<longleftrightarrow> t \<le> Y \<and> Y < b \<and> l div 32 \<le> k \<and> k \<le> (r - 1) div 32 \<and> l \<le> 32 * k \<and> 32 * k + 32 \<le> r"

lemma known_true:
  assumes mode: "mode_ok s" and lr: "0 \<le> l" "l < r" "r \<le> m8_scr_x s" and tb: "0 \<le> t" "t < b" "b \<le> m8_scr_y s"
    and h: "\<And>h. m8_fb16_hash s = Some h \<Longrightarrow> true_cells s h p snt"
    and pic: "screen p0 s = solid_in l t (r - l) (b - t) c p"
  shows "\<exists>snt'. true_prints p0 (m8_fb16_known l t r b c s) snt' \<and>
    (\<forall>Y k. snt' Y k = snt Y k \<or> full_piece l t r b Y k \<and> snt' Y k = replicate 32 c)"
proof (cases "m8_fb16_hash s")
  case None
  then show ?thesis by (auto simp: true_prints_def m8_fb16_known_def)
next
  case (Some h)
  obtain h' where h': "m8_fb16_hash (m8_fb16_known l t r b c s) = Some h'" "\<And>Y k. 0 \<le> Y \<Longrightarrow> 0 \<le> k \<Longrightarrow> k < 25 \<Longrightarrow> h' (hash_at Y k) =
      (if t \<le> Y \<and> Y < b \<and> l div 32 \<le> k \<and> k \<le> (r - 1) div 32
       then (if l \<le> 32 * k \<and> 32 * k + 32 \<le> r then piece_hash (replicate 32 c) else 0)
       else h (hash_at Y k))"
    using known_hash [OF mode Some lr tb] by blast
  have cells: "true_cells s h p snt" by (rule assms(8)) (rule Some)
  define snt' where "snt' = (\<lambda>Y k. if full_piece l t r b Y k then replicate 32 c else snt Y k)"
  have "true_cells s h' (screen p0 s) snt'"
    unfolding true_cells_def
  proof (intro allI impI)
    fix Y k assume o: "on_card s Y k"
    note rng = on_card_range [OF mode o]
    show "true_cell h' (screen p0 s) snt' Y k"
    proof (cases "t \<le> Y \<and> Y < b \<and> l div 32 \<le> k \<and> k \<le> (r - 1) div 32")
      case True
      show ?thesis
      proof (cases "l \<le> 32 * k \<and> 32 * k + 32 \<le> r")
        case full: True
        have "shows_piece (screen p0 s) Y k (replicate 32 c)"
          using full True by (auto simp: shows_piece_def pic solid_in_def in_area_def)
        with True full h'(2) [of Y k] rng show ?thesis by (auto simp: true_cell_def snt'_def full_piece_def)
      qed (use True h'(2) [of Y k] rng in \<open>auto simp: true_cell_def\<close>)
    next
      case False
      then have "\<forall>i \<in> {0..31}. screen p0 s (32 * k + i) Y = p (32 * k + i) Y"
        using piece_column [of l k _ r] by (auto simp: pic solid_in_def in_area_def)
      with False h'(2) [of Y k] rng cells o show ?thesis
        by (intro true_cell_cong [of "screen p0 s" k Y p h' h snt]) (auto simp: true_cells_def snt'_def full_piece_def)
    qed
  qed
  moreover have "same_buffer s (m8_fb16_known l t r b c s)" by simp
  ultimately have "true_prints p0 (m8_fb16_known l t r b c s) snt'"
    using true_cells_same [of s "m8_fb16_known l t r b c s"] by (simp add: true_prints_def h'(1))
  then show ?thesis by (auto simp: snt'_def intro!: exI [of _ snt'] split: if_splits)
qed

subsection \<open>A solid rectangle\<close>

lemma solid_spec:
  assumes mode: "mode_ok s" and lr: "0 \<le> l" "l < r" "r \<le> m8_scr_x s" and tb: "0 \<le> t" "t < b" "b \<le> m8_scr_y s"
    and true: "true_prints p0 s snt"
  shows "same_buffer s (m8_fb16_solid l t r b c s) \<and>
    (\<exists>snt'. true_prints p0 (m8_fb16_solid l t r b c s) snt' \<and>
       (\<forall>Y k. snt' Y k = snt Y k \<or> full_piece l t r b Y k \<and> snt' Y k = replicate 32 c)) \<and>
    screen p0 (m8_fb16_solid l t r b c s) = solid_in l t (r - l) (b - t) c (screen p0 s)"
proof -
  define w h where "w = r - l" "h = b - t"
  define bw bh where "bw = min w 4" "bh = min h 4"
  define blk where "blk = solid_block l t bw bh c"
  define s1 where "s1 = emit (Lift l t r b) (count_stat 3 1 s)"
  have wh: "0 < w" "0 < h" "0 < bw" "0 < bh" using lr tb by (auto simp: w_h_def bw_bh_def)
  have s1: "same_buffer s s1" "screen p0 s1 = screen p0 s" "m8_fb16_hash s1 = m8_fb16_hash s" by (simp_all add: s1_def)
  have cells: "true_cells s h (screen p0 s) snt" if "m8_fb16_hash s = Some h" for h using true that by (simp add: true_prints_def)
  have fin: "same_buffer s (m8_fb16_known l t r b c (emit Leave s')) \<and>
      (\<exists>snt'. true_prints p0 (m8_fb16_known l t r b c (emit Leave s')) snt' \<and>
         (\<forall>Y k. snt' Y k = snt Y k \<or> full_piece l t r b Y k \<and> snt' Y k = replicate 32 c)) \<and>
      screen p0 (m8_fb16_known l t r b c (emit Leave s')) = solid_in l t (r - l) (b - t) c (screen p0 s)"
    if "same_buffer s s'" "m8_fb16_hash s' = m8_fb16_hash s" "screen p0 s' = solid_in l t w h c (screen p0 s)" for s'
  proof -
    have sb: "same_buffer s (emit Leave s')" using that by simp
    have sz: "m8_scr_x (emit Leave s') = m8_scr_x s" "m8_scr_y (emit Leave s') = m8_scr_y s" using sb by (simp_all only: same_buffer_def)
    have "\<exists>snt'. true_prints p0 (m8_fb16_known l t r b c (emit Leave s')) snt' \<and>
         (\<forall>Y k. snt' Y k = snt Y k \<or> full_piece l t r b Y k \<and> snt' Y k = replicate 32 c)"
    proof (rule known_true)
      show "mode_ok (emit Leave s')" using mode mode_same [OF sb] by simp
      show "true_cells (emit Leave s') h (screen p0 s) snt" if "m8_fb16_hash (emit Leave s') = Some h" for h
        using cells [of h] that \<open>m8_fb16_hash s' = m8_fb16_hash s\<close> true_cells_same [OF sb] by simp
      show "screen p0 (emit Leave s') = solid_in l t (r - l) (b - t) c (screen p0 s)" using that by (simp add: w_h_def)
    qed (use lr tb sz in auto)
    with that show ?thesis by (simp add: w_h_def)
  qed
  show ?thesis
  proof (cases "one_index blk")
    case True
    define s' where "s' = emit (Fill l t w h (hd (hd blk))) s1"
    have "m8_fb16_solid l t r b c s = m8_fb16_known l t r b c (emit Leave s')"
      using True unfolding m8_fb16_solid_def Let_def w_h_def [symmetric] bw_bh_def [symmetric] blk_def [symmetric] s1_def [symmetric] s'_def
      by (simp only: if_True)
    moreover have "screen p0 s' = solid_in l t w h c (screen p0 s)"
      using one_index_solid [OF lr(1) tb(1) wh(1,2), of c] True
      by (auto simp: s'_def s1(2) solid_in_def in_area_def fun_eq_iff blk_def bw_bh_def)
    ultimately show ?thesis using fin [of s'] s1 by (simp add: s'_def)
  next
    case False
    define s2 where "s2 = (if odd bw
        then fold (\<lambda>k. emit (Fill (l + k mod bw) (t + k div bw) 1 1 (blk ! nat (k div bw) ! nat (k mod bw)))) [0..bw * bh - 1] s1
        else emit (Put l t bw bh blk) s1)"
    define s3 where "s3 = fold (copy_across l t bh) (doubling bw w) s2"
    define s4 where "s4 = fold (copy_down l t w) (doubling bh h) s3"
    have "m8_fb16_solid l t r b c s = m8_fb16_known l t r b c (emit Leave s4)"
      using False unfolding m8_fb16_solid_def Let_def w_h_def [symmetric] bw_bh_def [symmetric] blk_def [symmetric] s1_def [symmetric]
        s2_def [symmetric] copy_across_def [symmetric] s3_def [symmetric] copy_down_def [symmetric] s4_def [symmetric]
      by (simp only: if_False)
    moreover have q2: "same_buffer s s2 \<and> m8_fb16_hash s2 = m8_fb16_hash s \<and> screen p0 s2 = solid_in l t bw bh c (screen p0 s)"
    proof (cases "odd bw")
      case True
      have f: "same_buffer s (fold (\<lambda>k. emit (v k)) ks s1) \<and> m8_fb16_hash (fold (\<lambda>k. emit (v k)) ks s1) = m8_fb16_hash s" for v and ks :: "int list"
        using s1(1,3) by (induction ks arbitrary: s1) simp_all
      have "screen p0 s2 X Y = (if \<exists>k \<in> List.set [0..bw * bh - 1]. X = l + k mod bw \<and> Y = t + k div bw
          then blk ! nat (Y - t) ! nat (X - l) else screen p0 s1 X Y)" for X Y
        unfolding s2_def if_P [OF True] by (rule pixel_fills [where g = "\<lambda>X Y. blk ! nat (Y - t) ! nat (X - l)"]) simp
      then have "screen p0 s2 X Y = (if in_area l t bw bh X Y then blk ! nat (Y - t) ! nat (X - l) else screen p0 s1 X Y)" for X Y
        using block_index [OF wh(3)] by simp
      then have "screen p0 s2 = solid_in l t bw bh c (screen p0 s)"
        using solid_block_nth [OF lr(1) tb(1)] by (auto simp: fun_eq_iff solid_in_def in_area_def s1(2) blk_def)
      with f True show ?thesis by (simp add: s2_def)
    next
      case False
      have "screen p0 s2 = solid_in l t bw bh c (screen p0 s)"
        using False solid_block_nth [OF lr(1) tb(1)] by (auto simp: s2_def fun_eq_iff solid_in_def in_area_def s1(2) blk_def)
      with False s1 show ?thesis by (simp add: s2_def)
    qed
    moreover have q3: "same_buffer s s3 \<and> m8_fb16_hash s3 = m8_fb16_hash s \<and> screen p0 s3 = solid_in l t w bh c (screen p0 s)"
      unfolding s3_def
      by (rule doubling_fold [where Q = "\<lambda>d u. same_buffer s u \<and> m8_fb16_hash u = m8_fb16_hash s \<and> screen p0 u = solid_in l t d bh c (screen p0 s)"])
        (use wh q2 copy_across_step [OF lr(1) tb(1)] in \<open>auto simp: copy_across_def bw_bh_def simp del: paint.simps\<close>)
    have "same_buffer s s4 \<and> m8_fb16_hash s4 = m8_fb16_hash s \<and> screen p0 s4 = solid_in l t w h c (screen p0 s)"
      unfolding s4_def
      by (rule doubling_fold [where Q = "\<lambda>d u. same_buffer s u \<and> m8_fb16_hash u = m8_fb16_hash s \<and> screen p0 u = solid_in l t w d c (screen p0 s)"])
        (use wh q3 copy_down_step [OF lr(1) tb(1)] in \<open>auto simp: copy_down_def bw_bh_def simp del: paint.simps\<close>)
    ultimately show ?thesis using fin [of s4] by simp
  qed
qed

end
