(* ===== verification/Mach8_Frame_Service.thy ===== *)
theory Mach8_Frame_Service
  imports Mach8_Solid
begin

text \<open>
  The service of the 16 bits per pixel mode: after the outermost access call the card shows the
  dithered frame buffer, provided no two dirty rectangles share a piece; two that do leave the second
  unsent. Then the fingerprint itself, the pointer, the card's own copies, and drawing while the back
  buffer is on show.
\<close>

subsection \<open>A rectangle flushed\<close>

definition clip_l :: "M8_FB16_RECT \<Rightarrow> int" where "clip_l d = max 0 (rc_l d)"
definition clip_t :: "M8_FB16_RECT \<Rightarrow> int" where "clip_t d = max 0 (rc_t d)"
definition clip_r :: "fb16 \<Rightarrow> M8_FB16_RECT \<Rightarrow> int" where "clip_r s d = min (m8_scr_x s) (rc_r d)"
definition clip_b :: "fb16 \<Rightarrow> M8_FB16_RECT \<Rightarrow> int" where "clip_b s d = min (m8_scr_y s) (rc_b d)"

lemmas clip_defs = clip_l_def clip_t_def clip_r_def clip_b_def

definition on_screen :: "fb16 \<Rightarrow> int \<Rightarrow> int \<Rightarrow> bool" where
  "on_screen s x y \<longleftrightarrow> 0 \<le> x \<and> x < m8_scr_x s \<and> 0 \<le> y \<and> y < m8_scr_y s"

definition visible :: "fb16 \<Rightarrow> M8_FB16_RECT \<Rightarrow> bool" where
  "visible s d \<longleftrightarrow> clip_l d < clip_r s d \<and> clip_t d < clip_b s d"

text \<open>The pieces (row, piece of it) a rectangle reaches into.\<close>

definition in_piece :: "fb16 \<Rightarrow> M8_FB16_RECT \<Rightarrow> int \<Rightarrow> int \<Rightarrow> bool" where
  "in_piece s d y k \<longleftrightarrow> visible s d \<and> clip_t d \<le> y \<and> y < clip_b s d \<and> clip_l d div 32 \<le> k \<and> k \<le> (clip_r s d - 1) div 32"

text \<open>The card is right in those pieces beside the rectangle, and no collision there.\<close>

definition flushable :: "fb16 \<Rightarrow> picture \<Rightarrow> history \<Rightarrow> M8_FB16_RECT \<Rightarrow> bool" where
  "flushable s c snt d \<longleftrightarrow> (\<forall>y k. in_piece s d y k \<longrightarrow> no_collision s snt y k \<and>
     (\<forall>i \<in> {0..31}. \<not> inside d (32 * k + i) y \<longrightarrow> right s c (32 * k + i) y))"

lemma same_sizes: "same_buffer s s' \<Longrightarrow> m8_scr_x s' = m8_scr_x s \<and> m8_scr_y s' = m8_scr_y s"
  by (simp add: same_buffer_def)

lemma in_piece_same: "same_buffer s s' \<Longrightarrow> in_piece s' = in_piece s"
  by (simp add: in_piece_def visible_def clip_defs same_sizes fun_eq_iff)

lemma inside_visible:
  assumes "on_screen s x y" "inside d x y"
  shows "clip_l d \<le> x \<and> x < clip_r s d \<and> clip_t d \<le> y \<and> y < clip_b s d \<and> visible s d"
  using assms by (auto simp: on_screen_def inside_def visible_def clip_defs)

lemma column_in_piece:
  assumes "l \<le> x" "x < r" shows "l div 32 \<le> x div 32 \<and> x div 32 \<le> (r - 1) div (32 :: int)"
  using assms by (auto intro: zdiv_mono1)

lemma even_edge_columns:
  assumes "even_down l \<le> x" "x < even_up r"
  shows "l div 32 \<le> x div 32 \<and> x div 32 \<le> (r - 1) div 32"
  using column_in_piece [OF assms] by (simp add: even_down_div32 even_up_div32)

lemma uniform_all:
  assumes "m8_fb16_uniform l t r b s = Some c" "l \<le> x" "x < r" "t \<le> y" "y < b"
  shows "pixel_at s x y = c"
proof -
  have c: "list_all (\<lambda>y. m8_fb16_same s y l r c) [t..b - 1]"
    using assms(1) by (auto simp: m8_fb16_uniform_def Let_def split: if_splits)
  have "y \<in> List.set [t..b - 1]" "x \<in> List.set [l..r - 1]" using assms by auto
  with c show ?thesis unfolding m8_fb16_same_def list_all_iff by blast
qed

lemma flush_spec:
  assumes mode: "mode_ok s" and true: "true_prints p0 s snt" and ok: "flushable s (screen p0 s) snt d"
  shows "same_buffer s (m8_fb16_flush d s) \<and>
    (\<exists>snt'. true_prints p0 (m8_fb16_flush d s) snt' \<and>
      (\<forall>y k. snt' y k = snt y k \<or> in_piece s d y k \<and> snt' y k = piece s y k)) \<and>
    (\<forall>x y. on_screen s x y \<longrightarrow> inside d x y \<longrightarrow> right s (screen p0 (m8_fb16_flush d s)) x y) \<and>
    (\<forall>x y. screen p0 (m8_fb16_flush d s) x y = screen p0 s x y \<or>
       in_piece s d y (x div 32) \<and> right s (screen p0 (m8_fb16_flush d s)) x y)"
proof (cases "visible s d")
  case False
  then have "m8_fb16_flush d s = s" by (auto simp: m8_fb16_flush_def Let_def visible_def clip_defs)
  with true False inside_visible [of s _ _ d] show ?thesis by auto
next
  case True
  define l t r b where "l = clip_l d" "t = clip_t d" "r = clip_r s d" "b = clip_b s d"
  have v: "0 \<le> l" "l < r" "r \<le> m8_scr_x s" "0 \<le> t" "t < b" "b \<le> m8_scr_y s"
    using True by (auto simp: l_t_r_b_def visible_def clip_defs)
  have ip: "in_piece s d y k \<longleftrightarrow> t \<le> y \<and> y < b \<and> l div 32 \<le> k \<and> k \<le> (r - 1) div 32" for y k
    using True by (simp add: in_piece_def l_t_r_b_def)
  have unf: "m8_fb16_flush d s = (if (r - l) * (b - t) \<ge> M8_FB16_SOLID_MIN
      then (case m8_fb16_uniform l t r b s of Some c \<Rightarrow> m8_fb16_solid l t r b c s | None \<Rightarrow> m8_fb16_send l t r b s)
      else m8_fb16_send l t r b s)"
    unfolding m8_fb16_flush_def Let_def clip_defs [symmetric] l_t_r_b_def [symmetric]
    by (rule if_not_P) (use v in simp)
  have ins: "l \<le> x \<and> x < r \<and> t \<le> y \<and> y < b" if "on_screen s x y" "inside d x y" for x y
    using inside_visible [OF that] by (simp add: l_t_r_b_def)
  show ?thesis
  proof (cases "(r - l) * (b - t) \<ge> M8_FB16_SOLID_MIN \<and> m8_fb16_uniform l t r b s \<noteq> None")
    case True
    then obtain c where c: "m8_fb16_uniform l t r b s = Some c" by blast
    have f: "m8_fb16_flush d s = m8_fb16_solid l t r b c s" using True c by (simp add: unf)
    note sp = solid_spec [OF mode v true, of c]
    have pic: "screen p0 (m8_fb16_flush d s) x y = (if l \<le> x \<and> x < r \<and> t \<le> y \<and> y < b then shade x y (pixel_at s x y) else screen p0 s x y)" for x y
      using sp uniform_all [OF c, of x y] by (auto simp: f solid_in_def in_area_def)
    have "in_piece s d y (x div 32)" if "l \<le> x" "x < r" "t \<le> y" "y < b" for x y
      using that column_in_piece [of l x r] by (simp add: ip)
    then have rt: "right s (screen p0 (m8_fb16_flush d s)) x y" "in_piece s d y (x div 32)" if "l \<le> x" "x < r" "t \<le> y" "y < b" for x y
      using that pic [of x y] by (simp_all add: right_def)
    have "piece s y k = replicate 32 c" if "full_piece l t r b y k" for y k
      using that uniform_all [OF c, of "32 * k + _" y]
      by (intro nth_equalityI) (auto simp: full_piece_def piece_def nth_upto)
    then have prints: "\<exists>snt'. true_prints p0 (m8_fb16_flush d s) snt' \<and>
        (\<forall>y k. snt' y k = snt y k \<or> in_piece s d y k \<and> snt' y k = piece s y k)"
      using sp unfolding f ip full_piece_def by metis
    have "same_buffer s (m8_fb16_flush d s)" using sp by (simp add: f)
    have keep: "screen p0 (m8_fb16_flush d s) x y = screen p0 s x y \<or>
        in_piece s d y (x div 32) \<and> right s (screen p0 (m8_fb16_flush d s)) x y" for x y
      using pic [of x y] rt [of x y] by auto
    from \<open>same_buffer s (m8_fb16_flush d s)\<close> prints rt ins keep show ?thesis by blast
  next
    case False
    then have f: "m8_fb16_flush d s = m8_fb16_send l t r b s" by (auto simp: unf split: option.splits)
    have "sendable s (screen p0 s) snt l t r b"
      unfolding sendable_def
    proof (intro allI impI conjI ballI)
      fix y k assume p: "t \<le> y \<and> y < b \<and> l div 32 \<le> k \<and> k \<le> (r - 1) div 32"
      with ok show "no_collision s snt y k" by (simp add: flushable_def ip)
      fix i assume "i \<in> {0..31 :: int}" "\<not> (l \<le> 32 * k + i \<and> 32 * k + i < r)"
      moreover have "on_card s y k" using p v by (intro k_on_card [OF mode, of l r]) auto
      ultimately have "\<not> inside d (32 * k + i) y"
        using mode by (auto simp: inside_def l_t_r_b_def clip_defs on_card_def mode_ok_def)
      with ok p \<open>i \<in> {0..31}\<close> show "right s (screen p0 s) (32 * k + i) y" by (simp add: flushable_def ip)
    qed
    note sp = send_spec [OF mode v true this]
    have pic: "screen p0 (m8_fb16_flush d s) x y = (if even_down l \<le> x \<and> x < even_up r \<and> t \<le> y \<and> y < b then shade x y (pixel_at s x y) else screen p0 s x y)" for x y
      using sp by (simp add: f)
    have edgeP: "in_piece s d y (x div 32)" if "even_down l \<le> x" "x < even_up r" "t \<le> y" "y < b" for x y
      using that even_edge_columns [of l x r] by (simp add: ip)
    have insE: "even_down l \<le> x \<and> x < even_up r \<and> t \<le> y \<and> y < b" if "on_screen s x y" "inside d x y" for x y
      using ins [OF that] even_edges(6,7) [OF mode v(1-3)] by linarith
    have prints: "\<exists>snt'. true_prints p0 (m8_fb16_flush d s) snt' \<and>
        (\<forall>y k. snt' y k = snt y k \<or> in_piece s d y k \<and> snt' y k = piece s y k)"
      using sp unfolding f ip by blast
    have "same_buffer s (m8_fb16_flush d s)" using sp by (simp add: f)
    moreover have "screen p0 (m8_fb16_flush d s) x y = screen p0 s x y \<or>
       in_piece s d y (x div 32) \<and> right s (screen p0 (m8_fb16_flush d s)) x y" for x y
      using pic [of x y] edgeP [of x y] by (auto simp: right_def)
    moreover have "right s (screen p0 (m8_fb16_flush d s)) x y" if "on_screen s x y" "inside d x y" for x y
      using pic [of x y] insE [OF that] by (simp add: right_def)
    ultimately show ?thesis using prints by blast
  qed
qed

subsection \<open>The dirty list flushed\<close>

text \<open>No piece belongs to two rectangles of the list.\<close>

fun pieces_apart :: "fb16 \<Rightarrow> M8_FB16_RECT list \<Rightarrow> bool" where
  "pieces_apart s [] \<longleftrightarrow> True"
| "pieces_apart s (d # ds) \<longleftrightarrow> (\<forall>e \<in> List.set ds. \<forall>y k. \<not> (in_piece s d y k \<and> in_piece s e y k)) \<and> pieces_apart s ds"

lemma pieces_apart_same: "same_buffer s s' \<Longrightarrow> pieces_apart s' ds = pieces_apart s ds"
  by (induction ds) (simp_all add: in_piece_same)

lemma flushable_kept:
  assumes "same_buffer s s'" "flushable s c snt e"
    and "\<And>y k. in_piece s e y k \<Longrightarrow> snt' y k = snt y k"
    and "\<And>y k i. in_piece s e y k \<Longrightarrow> i \<in> {0..31} \<Longrightarrow> c' (32 * k + i) y = c (32 * k + i) y"
  shows "flushable s' c' snt' e"
  using assms(2-4)
  unfolding flushable_def in_piece_same [OF assms(1)] right_same [OF assms(1)] no_collision_def piece_same [OF assms(1)]
  by (auto simp: right_def)

lemma flush_all:
  assumes "mode_ok s" "true_prints p0 s snt" "\<forall>d \<in> List.set ds. flushable s (screen p0 s) snt d" "pieces_apart s ds"
  shows "same_buffer s (fold m8_fb16_flush ds s) \<and> (\<exists>snt'. true_prints p0 (fold m8_fb16_flush ds s) snt' \<and> (\<forall>y k. snt' y k = snt y k \<or> snt' y k = piece s y k)) \<and>
    (\<forall>x y. on_screen s x y \<longrightarrow> covered ds x y \<longrightarrow> right s (screen p0 (fold m8_fb16_flush ds s)) x y) \<and>
    (\<forall>x y. screen p0 (fold m8_fb16_flush ds s) x y = screen p0 s x y \<or> right s (screen p0 (fold m8_fb16_flush ds s)) x y)"
  using assms
proof (induction ds arbitrary: s snt)
  case (Cons d ds)
  define s' where "s' = m8_fb16_flush d s"
  have "flushable s (screen p0 s) snt d" using Cons.prems(3) by simp
  note sp = flush_spec [OF Cons.prems(1,2) this, folded s'_def]
  have sb: "same_buffer s s'" using sp by blast
  obtain snt' where snt': "true_prints p0 s' snt'" "\<And>y k. snt' y k = snt y k \<or> in_piece s d y k \<and> snt' y k = piece s y k"
    using sp by blast
  have "flushable s' (screen p0 s') snt' e" if "e \<in> List.set ds" for e
  proof (rule flushable_kept [OF sb, of "screen p0 s" snt])
    show "flushable s (screen p0 s) snt e" using Cons.prems(3) that by simp
    fix y k assume e: "in_piece s e y k"
    then have nd: "\<not> in_piece s d y k" using Cons.prems(4) that by auto
    then show "snt' y k = snt y k" using snt'(2) [of y k] by blast
    fix i assume "i \<in> {0..31 :: int}"
    then have "(32 * k + i) div 32 = k" by auto
    with nd sp show "screen p0 s' (32 * k + i) y = screen p0 s (32 * k + i) y" by metis
  qed
  moreover have "mode_ok s'" "pieces_apart s' ds"
    using Cons.prems mode_same [OF sb] pieces_apart_same [OF sb] by simp_all
  ultimately have ih: "same_buffer s' (fold m8_fb16_flush ds s') \<and> (\<exists>snt''. true_prints p0 (fold m8_fb16_flush ds s') snt'' \<and> (\<forall>y k. snt'' y k = snt' y k \<or> snt'' y k = piece s' y k)) \<and>
    (\<forall>x y. on_screen s' x y \<longrightarrow> covered ds x y \<longrightarrow> right s' (screen p0 (fold m8_fb16_flush ds s')) x y) \<and>
    (\<forall>x y. screen p0 (fold m8_fb16_flush ds s') x y = screen p0 s' x y \<or> right s' (screen p0 (fold m8_fb16_flush ds s')) x y)"
    using Cons.IH [of s' snt'] snt'(1) by blast
  have os: "on_screen s' = on_screen s" using same_sizes [OF sb] by (simp add: on_screen_def fun_eq_iff)
  have rt: "right s' = right s" by (rule right_same [OF sb])
  have f: "fold m8_fb16_flush (d # ds) s = fold m8_fb16_flush ds s'" by (simp add: s'_def)
  have cov: "right s (screen p0 (fold m8_fb16_flush ds s')) x y" if "on_screen s x y" "inside d x y \<or> covered ds x y" for x y
  proof (cases "covered ds x y")
    case True
    with ih that(1) show ?thesis by (simp add: os rt)
  next
    case False
    with sp that have "right s (screen p0 s') x y" by blast
    with ih show ?thesis by (metis right_def rt)
  qed
  have keep: "screen p0 (fold m8_fb16_flush ds s') x y = screen p0 s x y \<or> right s (screen p0 (fold m8_fb16_flush ds s')) x y" for x y
    using ih sp unfolding rt by (metis right_def)
  have "\<exists>snt'. true_prints p0 (fold m8_fb16_flush ds s') snt' \<and> (\<forall>y k. snt' y k = snt y k \<or> snt' y k = piece s y k)"
    using ih snt'(2) unfolding piece_same [OF sb] by metis
  then show ?case unfolding f using ih cov keep same_buffer_trans [OF sb] by auto
qed auto


subsection \<open>The outermost end\<close>

lemma view_only:
  assumes "ram s' = ram s" "m8_fb16_sel s' = m8_fb16_sel s" "m8_scr_x s' = m8_scr_x s" "m8_scr_y s' = m8_scr_y s"
  shows "mode_ok s' = mode_ok s" "right s' = right s" "flushable s' = flushable s" "pieces_apart s' = pieces_apart s"
    "on_screen s' = on_screen s" "true_cells s' = true_cells s" "pixel_at s' = pixel_at s"
proof -
  show px: "pixel_at s' = pixel_at s" using assms by (simp add: pixel_at_def fun_eq_iff)
  show "mode_ok s' = mode_ok s" using assms by (simp add: mode_ok_def)
  show rt: "right s' = right s" by (simp add: right_def px fun_eq_iff)
  have ip: "in_piece s' = in_piece s" using assms by (simp add: in_piece_def visible_def clip_defs fun_eq_iff)
  show "flushable s' = flushable s" by (simp add: flushable_def ip rt no_collision_def piece_def px fun_eq_iff)
  have "pieces_apart s' ds = pieces_apart s ds" for ds by (induction ds) (simp_all add: ip)
  then show "pieces_apart s' = pieces_apart s" by (simp add: fun_eq_iff)
  show "on_screen s' = on_screen s" using assms by (simp add: on_screen_def fun_eq_iff)
  show "true_cells s' = true_cells s" using assms by (simp add: true_cells_def on_card_def fun_eq_iff)
qed

lemma end_as_flushes:
  assumes "m8_fb16_depth s = 1" "m8_fb16_sel s = m8_fb16_msel s"
  shows "m8_fb16_end s = (fold m8_fb16_flush (m8_fb16_dirty s) (s\<lparr>m8_fb16_depth := 0, m8_fb16_flushing := True\<rparr>))
    \<lparr>m8_fb16_flushing := False, m8_fb16_dirty := []\<rparr>"
  using assms by (simp add: m8_fb16_end_def Let_def)

lemma end_shows:
  assumes mode: "mode_ok s" and "m8_fb16_depth s = 1" "m8_fb16_sel s = m8_fb16_msel s"
    and true: "true_prints p0 s snt"
    and outside: "\<forall>x y. on_screen s x y \<and> \<not> covered (m8_fb16_dirty s) x y \<longrightarrow> right s (screen p0 s) x y"
    and ok: "\<forall>d \<in> List.set (m8_fb16_dirty s). flushable s (screen p0 s) snt d" and apart: "pieces_apart s (m8_fb16_dirty s)"
  shows "(\<exists>snt'. true_prints p0 (m8_fb16_end s) snt' \<and> (\<forall>y k. snt' y k = snt y k \<or> snt' y k = piece s y k)) \<and>
    same_buffer (s\<lparr>m8_fb16_depth := 0, m8_fb16_dirty := []\<rparr>) (m8_fb16_end s) \<and> m8_fb16_dirty (m8_fb16_end s) = [] \<and>
    (\<forall>x y. on_screen s x y \<longrightarrow> right s (screen p0 (m8_fb16_end s)) x y)"
proof -
  define s1 where "s1 = s\<lparr>m8_fb16_depth := 0, m8_fb16_flushing := True\<rparr>"
  have v: "ram s1 = ram s" "m8_fb16_sel s1 = m8_fb16_sel s" "m8_scr_x s1 = m8_scr_x s" "m8_scr_y s1 = m8_scr_y s"
    by (simp_all add: s1_def)
  note vo = view_only [OF v]
  have pc: "piece s1 = piece s" by (simp add: piece_def vo fun_eq_iff)
  have sc: "screen p0 s1 = screen p0 s" by (simp add: s1_def screen_def)
  have hs: "m8_fb16_hash s1 = m8_fb16_hash s" by (simp add: s1_def)
  have "true_prints p0 s1 snt" using true unfolding true_prints_def hs sc vo .
  then have f: "same_buffer s1 (fold m8_fb16_flush (m8_fb16_dirty s) s1) \<and>
    (\<exists>snt'. true_prints p0 (fold m8_fb16_flush (m8_fb16_dirty s) s1) snt' \<and> (\<forall>y k. snt' y k = snt y k \<or> snt' y k = piece s1 y k)) \<and>
    (\<forall>x y. on_screen s1 x y \<longrightarrow> covered (m8_fb16_dirty s) x y \<longrightarrow> right s1 (screen p0 (fold m8_fb16_flush (m8_fb16_dirty s) s1)) x y) \<and>
    (\<forall>x y. screen p0 (fold m8_fb16_flush (m8_fb16_dirty s) s1) x y = screen p0 s1 x y \<or>
      right s1 (screen p0 (fold m8_fb16_flush (m8_fb16_dirty s) s1)) x y)"
    using mode ok apart by (intro flush_all [of s1 p0 snt]) (simp_all add: vo sc)
  define s2 where "s2 = fold m8_fb16_flush (m8_fb16_dirty s) s1"
  have e: "m8_fb16_end s = s2\<lparr>m8_fb16_flushing := False, m8_fb16_dirty := []\<rparr>"
    using end_as_flushes assms(2,3) by (simp add: s1_def s2_def)
  have sc2: "screen p0 (m8_fb16_end s) = screen p0 s2" by (simp add: e screen_def)
  have tcs: "true_cells (m8_fb16_end s) = true_cells s2" by (rule view_only) (simp_all add: e)
  have he: "m8_fb16_hash (m8_fb16_end s) = m8_fb16_hash s2" by (simp add: e)
  have tc: "true_prints p0 (m8_fb16_end s) = true_prints p0 s2"
    unfolding true_prints_def sc2 tcs he ..
  have "right s (screen p0 s2) x y" if "on_screen s x y" for x y
  proof (cases "covered (m8_fb16_dirty s) x y")
    case True
    with f that show ?thesis by (simp add: vo s2_def)
  next
    case False
    with outside that have "right s (screen p0 s) x y" by blast
    with f show ?thesis unfolding s2_def vo sc by (metis right_def)
  qed
  moreover have "m8_fb16_dirty (m8_fb16_end s) = []" by (simp add: e)
  moreover have "same_buffer (s\<lparr>m8_fb16_depth := 0, m8_fb16_dirty := []\<rparr>) (m8_fb16_end s)"
    using f by (simp add: e s2_def same_buffer_def s1_def)
  ultimately show ?thesis using f tc sc2 by (simp add: s2_def pc)
qed

subsection \<open>Two rectangles in one piece\<close>

text \<open>A send over pieces whose fingerprints are those of RAM puts nothing on the card.\<close>

lemma send_changed_nothing:
  assumes mode: "mode_ok s" and lr: "0 \<le> l" "l < r" "r \<le> m8_scr_x s" and t: "0 \<le> t"
    and eq: "\<And>y k. t \<le> y \<Longrightarrow> y < b \<Longrightarrow> l div 32 \<le> k \<Longrightarrow> k \<le> (r - 1) div 32 \<Longrightarrow> h (hash_at y k) = piece_hash (piece s y k)"
  shows "card_log (send_changed l t r b h s) = card_log s"
proof -
  define d0 where "d0 = \<lparr>bd_l = 0, bd_r = 0, bd_y = 0, bd_rows = []\<rparr>"
  have kr: "0 \<le> k \<and> k < 25" if "l div 32 \<le> k" "k \<le> (r - 1) div 32" for k
  proof -
    have "r - 1 \<le> 799" using lr mode by (auto simp: mode_ok_def)
    then have "(r - 1) div 32 \<le> 799 div 32" by (intro zdiv_mono1) auto
    moreover have "0 \<le> l div 32" using lr by (simp add: pos_imp_zdiv_nonneg_iff)
    ultimately show ?thesis using that by simp
  qed
  have "snd (fold (send_row l r) ys (h, d0, s)) = (d0, s)"
    if "\<forall>y \<in> List.set ys. t \<le> y \<and> y < b"
      "\<And>y k. t \<le> y \<Longrightarrow> y < b \<Longrightarrow> l div 32 \<le> k \<Longrightarrow> k \<le> (r - 1) div 32 \<Longrightarrow> h (hash_at y k) = piece_hash (piece s y k)" for ys h
    using that
  proof (induction ys arbitrary: h)
    case (Cons y ys)
    then have y: "t \<le> y" "y < b" "0 \<le> y" using t by auto
    obtain h' ch where e: "m8_fb16_changed y l r h s = (h', ch)" by fastforce
    note sp = changed_spec [OF mode lr y(3) e]
    have "ch = None" using sp(4) Cons.prems(2) y by blast
    then have st: "send_row l r y (h, d0, s) = (h', d0, s)" by (simp add: send_row_def e d0_def)
    have "h' (hash_at y' k) = piece_hash (piece s y' k)" if "t \<le> y'" "y' < b" "l div 32 \<le> k" "k \<le> (r - 1) div 32" for y' k
      using sp(1) [of y' k] Cons.prems(2) [OF that] kr [OF that(3,4)] that t by auto
    with Cons.IH [of h'] Cons.prems(1) st show ?case by simp
  qed simp
  from this [of "[t..b - 1]" h] eq have "snd (fold (send_row l r) [t..b - 1] (h, d0, s)) = (d0, s)" by auto
  then obtain h' where "fold (send_row l r) [t..b - 1] (h, d0, s) = (h', d0, s)" by (metis prod.collapse snd_conv)
  then show ?thesis by (simp add: send_changed_def d0_def)
qed

text \<open>A rectangle that is neither one colour nor small is sent over fingerprints.\<close>

definition over_prints :: "fb16 \<Rightarrow> int \<Rightarrow> int \<Rightarrow> int \<Rightarrow> int \<Rightarrow> bool" where
  "over_prints s l t r b \<longleftrightarrow> 0 \<le> l \<and> l < r \<and> r \<le> m8_scr_x s \<and> 0 \<le> t \<and> t < b \<and> b \<le> m8_scr_y s \<and>
     \<not> m8_fb16_whole s \<and> M8_FB16_HASH_MIN \<le> (even_up r - even_down l) * (b - t) \<and> m8_fb16_uniform l t r b s = None"

lemma flush_over_prints:
  assumes "mode_ok s" "over_prints s l t r b" "m8_fb16_hash s = Some h"
  shows "m8_fb16_flush (rect l t r b) s = left_send (send_changed (even_down l) t (even_up r) b h
    (emit (Lift (even_down l) t (even_up r) b) (m8_fb16_entered (count_stat 1 1 s))))"
proof -
  have v: "0 \<le> l" "l < r" "r \<le> m8_scr_x s" "0 \<le> t" "t < b" "b \<le> m8_scr_y s"
    and nw: "\<not> (m8_fb16_whole s \<or> (even_up r - even_down l) * (b - t) < M8_FB16_HASH_MIN)"
    and u: "m8_fb16_uniform l t r b s = None" using assms(2) by (auto simp: over_prints_def)
  have "m8_fb16_flush (rect l t r b) s = m8_fb16_send l t r b s"
    using v u by (simp add: m8_fb16_flush_def Let_def)
  then show ?thesis using send_unfold [OF assms(1) v] assms(3) nw by simp
qed

lemma shared_piece_stale:
  assumes mode: "mode_ok s" and h: "m8_fb16_hash s = Some h" and true: "true_prints p0 s snt"
    and a: "over_prints s l t r b" and b: "over_prints s l' t r' b"
    and pieces: "l div 32 \<le> l' div 32" "(r' - 1) div 32 \<le> (r - 1) div 32"
    and nc: "\<And>y k. t \<le> y \<Longrightarrow> y < b \<Longrightarrow> l div 32 \<le> k \<Longrightarrow> k \<le> (r - 1) div 32 \<Longrightarrow> no_collision s snt y k"
    and out: "\<not> (even_down l \<le> x \<and> x < even_up r)"
  shows "screen p0 (m8_fb16_flush (rect l' t r' b) (m8_fb16_flush (rect l t r b) s)) x y = screen p0 s x y"
proof -
  define L R where "L = even_down l" "R = even_up r"
  define s1 where "s1 = emit (Lift L t R b) (m8_fb16_entered (count_stat 1 1 s))"
  have va: "0 \<le> l" "l < r" "r \<le> m8_scr_x s" "0 \<le> t" "t < b" "b \<le> m8_scr_y s" using a by (auto simp: over_prints_def)
  note e = even_edges [OF mode va(1-3), folded L_R_def]
  have div: "L div 32 = l div 32" "(R - 1) div 32 = (r - 1) div 32" by (simp_all add: L_R_def even_down_div32 even_up_div32)
  have s1: "same_buffer s s1" "screen p0 s1 = screen p0 s" by (simp_all add: s1_def)
  have m1: "mode_ok s1" using mode mode_same [OF s1(1)] by simp
  have cells: "true_cells s h (screen p0 s) snt" using true h by (simp add: true_prints_def)
  have need: "true_cell h (screen p0 s1) snt y k \<and> no_collision s1 snt y k"
    if "t \<le> y" "y < b" "L div 32 \<le> k" "k \<le> (R - 1) div 32" for y k
  proof -
    have "on_card s y k" using that div va by (intro k_on_card [OF mode, of l r]) auto
    with cells nc that div show ?thesis by (simp add: true_cells_def s1(2) no_collision_def piece_same [OF s1(1)])
  qed
  have rx: "R \<le> m8_scr_x s1" using e(3) same_sizes [OF s1(1)] by simp
  have tb: "t \<le> b" using va by simp
  note w = send_changed_spec [OF m1 e(1,2) rx e(4,5) va(4) tb need, unfolded pixel_at_same [OF s1(1)] s1(2) piece_same [OF s1(1)]]
  define s2 where "s2 = m8_fb16_flush (rect l t r b) s"
  have f2: "s2 = left_send (send_changed L t R b h s1)"
    using flush_over_prints [OF mode a h] by (simp add: s2_def L_R_def s1_def)
  have sb2: "same_buffer s s2" using same_buffer_trans [OF s1(1) w(1)] by (simp add: f2)
  obtain h2 where h2: "m8_fb16_hash s2 = Some h2" "\<And>Y k. 0 \<le> Y \<Longrightarrow> 0 \<le> k \<Longrightarrow> k < 25 \<Longrightarrow> h2 (hash_at Y k) =
        (if t \<le> Y \<and> Y < b \<and> L div 32 \<le> k \<and> k \<le> (R - 1) div 32 then piece_hash (piece s Y k) else h (hash_at Y k))"
    using w(3) by (auto simp: f2)
  have outLR: "\<not> (L \<le> x \<and> x < R)" using out by (simp add: L_R_def)
  have pic: "screen p0 s2 x y = screen p0 s x y" using outLR by (auto simp: f2 w(2))
  have m2: "mode_ok s2" using mode mode_same [OF sb2] by simp
  have b2: "over_prints s2 l' t r' b"
    using b sb2 by (simp add: over_prints_def same_buffer_def m8_fb16_uniform_def m8_fb16_same_def pixel_at_def)
  define s3 where "s3 = emit (Lift (even_down l') t (even_up r') b) (m8_fb16_entered (count_stat 1 1 s2))"
  have s3: "same_buffer s2 s3" "screen p0 s3 = screen p0 s2" by (simp_all add: s3_def)
  have vb: "0 \<le> l'" "l' < r'" "r' \<le> m8_scr_x s2" using b2 by (auto simp: over_prints_def)
  note e' = even_edges [OF m2 vb]
  have "card_log (send_changed (even_down l') t (even_up r') b h2 s3) = card_log s3"
  proof (rule send_changed_nothing)
    show "mode_ok s3" "0 \<le> even_down l'" "even_down l' < even_up r'" "even_up r' \<le> m8_scr_x s3" "0 \<le> t"
      using m2 mode_same [OF s3(1)] e' va same_sizes [OF s3(1)] by simp_all
    fix y k assume y: "t \<le> y" "y < b" "even_down l' div 32 \<le> k" "k \<le> (even_up r' - 1) div 32"
    then have k: "l div 32 \<le> k" "k \<le> (r - 1) div 32" using pieces by (simp_all add: even_down_div32 even_up_div32)
    have "on_card s y k" using y(1,2) k va by (intro k_on_card [OF mode, of l r]) auto
    note rng = on_card_range [OF mode this]
    show "h2 (hash_at y k) = piece_hash (piece s3 y k)"
      using h2(2) [of y k] rng k y(1,2) by (simp add: div piece_same [OF same_buffer_trans [OF sb2 s3(1)]])
  qed
  then have "screen p0 (send_changed (even_down l') t (even_up r') b h2 s3) = screen p0 s2"
    using s3(2) by (simp add: screen_def)
  then show ?thesis
    using flush_over_prints [OF m2 b2 h2(1)] pic by (simp add: s2_def [symmetric] s3_def)
qed

end
