(* ===== verification/Mach8_Access.thy ===== *)
theory Mach8_Access
  imports Mach8_Frame_Service
begin

text \<open>
  The access calls as GDI makes them, in any nesting, and the theorems of the 16 bits per pixel mode
  that rest on them: whenever no call is open the card shows the dithered frame buffer, as long as no
  two dirty rectangles share a piece and no two pieces have one fingerprint; two rectangles that share
  a piece leave stale pixels; one changed dword always changes the hash of a piece.
\<close>

subsection \<open>Pieces of different rectangles\<close>

lemma pieces_apart_mem:
  assumes "pieces_apart s ds" "d \<in> List.set ds" "e \<in> List.set ds" "d \<noteq> e"
  shows "\<not> (in_piece s d y k \<and> in_piece s e y k)"
  using assms by (induction ds) auto

lemma in_piece_on_card:
  assumes "mode_ok s" "in_piece s d y k" shows "on_card s y k"
  using assms(2) by (intro k_on_card [OF assms(1), of "clip_l d" "clip_r s d"]) (auto simp: in_piece_def clip_defs)

lemma on_card_on_screen:
  assumes "mode_ok s" "on_card s y k" "0 \<le> i" "i \<le> 31" shows "on_screen s (32 * k + i) y"
  using assms by (auto simp: on_card_def on_screen_def mode_ok_def)

lemma inside_in_piece:
  assumes "on_screen s (32 * k + i) y" "0 \<le> i" "i \<le> 31" "inside d (32 * k + i) y"
  shows "in_piece s d y k"
proof -
  have "(32 * k + i) div 32 = k" using assms(2,3) by simp
  then show ?thesis
    using inside_visible [OF assms(1,4)] column_in_piece [of "clip_l d" "32 * k + i" "clip_r s d"] by (simp add: in_piece_def)
qed

text \<open>Apart, the rectangles can be flushed in any order: what lies beside one in its pieces is right.\<close>

lemma apart_flushable:
  assumes mode: "mode_ok s" and apart: "pieces_apart s ds" and d: "d \<in> List.set ds"
    and nc: "\<And>y k. on_card s y k \<Longrightarrow> no_collision s snt y k"
    and rt: "\<And>x y. on_screen s x y \<Longrightarrow> \<not> covered ds x y \<Longrightarrow> right s c x y"
  shows "flushable s c snt d"
  unfolding flushable_def
proof (intro allI impI conjI ballI)
  fix y k assume p: "in_piece s d y k"
  have oc: "on_card s y k" by (rule in_piece_on_card [OF mode p])
  then show "no_collision s snt y k" by (rule nc)
  fix i assume i: "i \<in> {0..31 :: int}" and nd: "\<not> inside d (32 * k + i) y"
  have os: "on_screen s (32 * k + i) y" using on_card_on_screen [OF mode oc] i by simp
  have "\<not> inside e (32 * k + i) y" if e: "e \<in> List.set ds" for e
  proof
    assume ie: "inside e (32 * k + i) y"
    then have "in_piece s e y k" using inside_in_piece [OF os] i by simp
    with pieces_apart_mem [OF apart d e] p nd ie show False by blast
  qed
  then show "right s c (32 * k + i) y" using rt [OF os] by (auto simp: covered_def)
qed

subsection \<open>The calls in any nesting\<close>

text \<open>States reached from a full send by access calls, limits set for them, drawing in what they marked,
  and ends. \<open>K\<close> holds every piece that was ever in the frame buffer.\<close>

inductive gdi :: "u16 list set \<Rightarrow> picture \<Rightarrow> fb16 \<Rightarrow> bool" for K p0 where
  gdi_start: "gdi K p0 (m8_fb16_send_all s)"
    if "mode_ok s" "m8_fb16_depth s = 0" "m8_fb16_dirty s = []" "m8_fb16_sel s = m8_fb16_msel s"
      "\<And>y k. on_card s y k \<Longrightarrow> piece s y k \<in> K"
| gdi_begin: "gdi K p0 (m8_fb16_begin l t r b s)" if "gdi K p0 s"
| gdi_limit: "gdi K p0 (s\<lparr>m8_fb16_lim := lim, m8_fb16_lim_on := on\<rparr>)" if "gdi K p0 s"
| gdi_draw: "gdi K p0 (s\<lparr>ram := mem\<rparr>)"
    if "gdi K p0 s"
      "\<And>x y. on_screen s x y \<Longrightarrow> \<not> covered (m8_fb16_dirty s) x y \<Longrightarrow> pixel_at (s\<lparr>ram := mem\<rparr>) x y = pixel_at s x y"
      "\<And>y k. on_card s y k \<Longrightarrow> piece (s\<lparr>ram := mem\<rparr>) y k \<in> K"
| gdi_end: "gdi K p0 (m8_fb16_end s)" if "gdi K p0 s" "m8_fb16_depth s = 1 \<Longrightarrow> pieces_apart s (m8_fb16_dirty s)"

definition following :: "u16 list set \<Rightarrow> picture \<Rightarrow> fb16 \<Rightarrow> history \<Rightarrow> bool" where
  "following K p0 s snt \<longleftrightarrow> mode_ok s \<and> m8_fb16_sel s = m8_fb16_msel s \<and> 0 \<le> m8_fb16_depth s \<and>
     (m8_fb16_depth s = 0 \<longrightarrow> m8_fb16_dirty s = []) \<and> length (m8_fb16_dirty s) \<le> M8_FB16_DIRTY \<and>
     true_prints p0 s snt \<and> (\<forall>y k. on_card s y k \<longrightarrow> snt y k \<in> K \<and> piece s y k \<in> K) \<and>
     (\<forall>x y. on_screen s x y \<longrightarrow> \<not> covered (m8_fb16_dirty s) x y \<longrightarrow> right s (screen p0 s) x y)"

text \<open>A change of the bookkeeping only.\<close>

lemma following_kept:
  assumes f: "following K p0 s snt"
    and v: "ram s' = ram s" "m8_fb16_sel s' = m8_fb16_sel s" "m8_scr_x s' = m8_scr_x s" "m8_scr_y s' = m8_scr_y s"
    and h: "m8_fb16_hash s' = m8_fb16_hash s" "screen p0 s' = screen p0 s" "m8_fb16_msel s' = m8_fb16_msel s"
    and d: "0 \<le> m8_fb16_depth s'" "m8_fb16_depth s' = 0 \<longrightarrow> m8_fb16_dirty s' = []" "length (m8_fb16_dirty s') \<le> M8_FB16_DIRTY"
      "\<And>x y. covered (m8_fb16_dirty s) x y \<Longrightarrow> covered (m8_fb16_dirty s') x y"
  shows "following K p0 s' snt"
proof -
  note vo = view_only [OF v]
  have oc: "on_card s' = on_card s" using v by (simp add: on_card_def fun_eq_iff)
  have pc: "piece s' = piece s" by (simp add: piece_def vo fun_eq_iff)
  show ?thesis
    using f d unfolding following_def true_prints_def vo oc pc h v by blast
qed

lemma screen_rest [simp]:
  "screen p0 (s\<lparr>m8_fb16_reenter := n\<rparr>) = screen p0 s"
  "screen p0 (s\<lparr>m8_fb16_stat := q\<rparr>) = screen p0 s"
  "screen p0 (s\<lparr>m8_fb16_lim := lim\<rparr>) = screen p0 s"
  "screen p0 (s\<lparr>m8_fb16_lim_on := on\<rparr>) = screen p0 s"
  "screen p0 (s\<lparr>ram := mem\<rparr>) = screen p0 s"
  by (simp_all add: screen_def)

text \<open>What \<open>m8_fb16_begin\<close> does beside the dirty list.\<close>

definition begun :: "fb16 \<Rightarrow> fb16" where
  "begun s =
     (let s = count_stat 0 1 s;
          s = (if m8_fb16_flushing s then s\<lparr>m8_fb16_reenter := m8_fb16_reenter s + 1\<rparr> else s);
          s = (if m8_fb16_stat s 4 \<noteq> 0 then emit Page_zero (s\<lparr>m8_fb16_stat := (m8_fb16_stat s)(4 := 0)\<rparr>) else s)
      in s\<lparr>m8_fb16_depth := m8_fb16_depth s + 1\<rparr>)"

lemma begin_dirty:
  "m8_fb16_begin l t r b s = (begun s)\<lparr>m8_fb16_dirty := m8_fb16_dirty s\<rparr> \<or>
   (\<exists>n. m8_fb16_begin l t r b s = (begun s)\<lparr>m8_fb16_dirty := m8_fb16_add n (m8_fb16_dirty s)\<rparr>)"
proof -
  have d: "m8_fb16_dirty (begun s) = m8_fb16_dirty s" by (simp add: begun_def Let_def count_stat_def emit_def)
  then have "(begun s)\<lparr>m8_fb16_dirty := m8_fb16_dirty s\<rparr> = begun s" by simp
  moreover have "m8_fb16_begin l t r b s = begun s \<or>
      (\<exists>n. m8_fb16_begin l t r b s = (begun s)\<lparr>m8_fb16_dirty := m8_fb16_add n (m8_fb16_dirty (begun s))\<rparr>)"
    unfolding m8_fb16_begin_def begun_def [symmetric, unfolded Let_def] Let_def by auto
  ultimately show ?thesis unfolding d by metis
qed

lemma begun_simps:
  "ram (begun s) = ram s" "m8_fb16_sel (begun s) = m8_fb16_sel s" "m8_fb16_msel (begun s) = m8_fb16_msel s"
  "m8_scr_x (begun s) = m8_scr_x s" "m8_scr_y (begun s) = m8_scr_y s" "m8_fb16_hash (begun s) = m8_fb16_hash s"
  "screen p0 (begun s) = screen p0 s" "m8_fb16_depth (begun s) = m8_fb16_depth s + 1"
  by (auto simp: begun_def Let_def count_stat_def emit_def screen_def)

lemma following_begin:
  assumes f: "following K p0 s snt" shows "following K p0 (m8_fb16_begin l t r b s) snt"
proof -
  have l4: "length (m8_fb16_dirty s) \<le> M8_FB16_DIRTY" "0 \<le> m8_fb16_depth s" using f by (simp_all add: following_def)
  have "following K p0 ((begun s)\<lparr>m8_fb16_dirty := ds\<rparr>) snt"
    if "length ds \<le> M8_FB16_DIRTY" "\<And>x y. covered (m8_fb16_dirty s) x y \<Longrightarrow> covered ds x y" for ds
    using that l4 by (intro following_kept [OF f]) (simp_all add: begun_simps)
  then show ?thesis using begin_dirty [of l t r b s] l4(1) add_length [OF l4(1)] add_covers [OF l4(1)] by metis
qed

lemma following_end:
  assumes f: "following K p0 s snt" and K: "inj_on piece_hash K"
    and apart: "m8_fb16_depth s = 1 \<Longrightarrow> pieces_apart s (m8_fb16_dirty s)"
  shows "\<exists>snt'. following K p0 (m8_fb16_end s) snt'"
proof (cases "m8_fb16_depth s = 1")
  case False
  have "following K p0 (s\<lparr>m8_fb16_depth := m8_fb16_depth s - 1\<rparr>) snt" if "m8_fb16_depth s > 0"
    using f that False by (intro following_kept [OF f]) (auto simp: following_def)
  with f False show ?thesis by (auto simp: m8_fb16_end_def Let_def)
next
  case True
  have mode: "mode_ok s" and sel: "m8_fb16_sel s = m8_fb16_msel s" and tp: "true_prints p0 s snt"
    and inK: "\<And>y k. on_card s y k \<Longrightarrow> snt y k \<in> K \<and> piece s y k \<in> K"
    and rt: "\<And>x y. on_screen s x y \<Longrightarrow> \<not> covered (m8_fb16_dirty s) x y \<Longrightarrow> right s (screen p0 s) x y"
    using f by (simp_all add: following_def)
  have nc: "no_collision s snt y k" if "on_card s y k" for y k
    using inK [OF that] K by (auto simp: no_collision_def inj_on_def)
  have fl: "\<forall>d \<in> List.set (m8_fb16_dirty s). flushable s (screen p0 s) snt d"
    using apart_flushable [OF mode apart [OF True] _ nc rt] by blast
  note e = end_shows [OF mode True sel tp _ fl apart [OF True]]
  from e rt obtain snt' where tp': "true_prints p0 (m8_fb16_end s) snt'" and st: "\<And>y k. snt' y k = snt y k \<or> snt' y k = piece s y k"
    and sb: "same_buffer (s\<lparr>m8_fb16_depth := 0, m8_fb16_dirty := []\<rparr>) (m8_fb16_end s)"
    and all: "\<And>x y. on_screen s x y \<Longrightarrow> right s (screen p0 (m8_fb16_end s)) x y" by blast
  have v: "ram (m8_fb16_end s) = ram s" "m8_fb16_sel (m8_fb16_end s) = m8_fb16_sel s"
    "m8_scr_x (m8_fb16_end s) = m8_scr_x s" "m8_scr_y (m8_fb16_end s) = m8_scr_y s"
    and w: "m8_fb16_msel (m8_fb16_end s) = m8_fb16_msel s" "m8_fb16_depth (m8_fb16_end s) = 0" "m8_fb16_dirty (m8_fb16_end s) = []"
    using sb by (simp_all add: same_buffer_def)
  note vo = view_only [OF v]
  have oc: "on_card (m8_fb16_end s) = on_card s" using v by (simp add: on_card_def fun_eq_iff)
  have pc: "piece (m8_fb16_end s) = piece s" by (simp add: piece_def vo fun_eq_iff)
  have "snt' y k \<in> K \<and> piece s y k \<in> K" if "on_card s y k" for y k using st [of y k] inK [OF that] by auto
  then have "following K p0 (m8_fb16_end s) snt'"
    unfolding following_def using mode sel tp' all by (simp add: vo oc pc v w)
  then show ?thesis by blast
qed

text \<open>The full send.\<close>

lemma send_all_spec:
  assumes mode: "mode_ok s"
  shows "same_buffer s (m8_fb16_send_all s) \<and>
    (\<exists>snt'. true_prints p0 (m8_fb16_send_all s) snt' \<and> (\<forall>y k. snt' y k = piece s y k)) \<and>
    (\<forall>x y. on_screen s x y \<longrightarrow> right s (screen p0 (m8_fb16_send_all s)) x y)"
proof -
  define s1 where "s1 = emit (Fill 0 0 (m8_scr_x s) (m8_scr_y s) 0) (emit Reset_pointer (emit Load_palette s))"
  define s2 where "s2 = m8_fb16_forget 0 0 (m8_scr_x s) (m8_scr_y s) s1"
  have sb1: "same_buffer s s1" by (simp add: s1_def)
  have sb: "same_buffer s s2" using sb1 by (simp add: s2_def)
  have m1: "mode_ok s1" using mode mode_same [OF sb1] by simp
  have m2: "mode_ok s2" using mode mode_same [OF sb] by simp
  have sz: "m8_scr_x s2 = m8_scr_x s" "m8_scr_y s2 = m8_scr_y s" using same_sizes [OF sb] by simp_all
  have sz1: "m8_scr_x s1 = m8_scr_x s" "m8_scr_y s1 = m8_scr_y s" using same_sizes [OF sb1] by simp_all
  have pc: "piece s2 = piece s" by (rule piece_same [OF sb])
  have e: "m8_fb16_send_all s = m8_fb16_send 0 0 (m8_scr_x s2) (m8_scr_y s2) s2"
    by (simp add: m8_fb16_send_all_def Let_def s2_def s1_def)
  have pos: "0 < m8_scr_x s2" "0 < m8_scr_y s2" using m2 by (auto simp: mode_ok_def)
  have tp: "true_prints p0 s2 (piece s)"
  proof (cases "m8_fb16_hash s1")
    case None
    then show ?thesis by (simp add: true_prints_def s2_def m8_fb16_forget_def)
  next
    case (Some h)
    obtain h' where h': "m8_fb16_hash s2 = Some h'" "\<And>Y k. 0 \<le> Y \<Longrightarrow> 0 \<le> k \<Longrightarrow> k < 25 \<Longrightarrow> h' (hash_at Y k) =
        (if max 0 0 < min (m8_scr_x s1) (m8_scr_x s) \<and> max 0 0 < min (m8_scr_y s1) (m8_scr_y s) \<and> max 0 0 \<le> Y \<and>
            Y < min (m8_scr_y s1) (m8_scr_y s) \<and> max 0 0 div 32 \<le> k \<and> k \<le> (min (m8_scr_x s1) (m8_scr_x s) - 1) div 32
         then 0 else h (hash_at Y k))"
      using forget_hash [OF Some m1, of 0 0 "m8_scr_x s" "m8_scr_y s"] unfolding s2_def by blast
    have "h' (hash_at y k) = 0" if o: "on_card s2 y k" for y k
    proof -
      have "k \<le> (m8_scr_x s - 1) div 32" using o m2 by (auto simp: on_card_def mode_ok_def sz)
      with h'(2) [of y k] on_card_range [OF m2 o] o pos show ?thesis by (simp add: on_card_def sz sz1)
    qed
    then show ?thesis by (simp add: true_prints_def h'(1) true_cells_def true_cell_def)
  qed
  have "sendable s2 (screen p0 s2) (piece s) 0 0 (m8_scr_x s2) (m8_scr_y s2)"
    unfolding sendable_def
  proof (intro allI impI conjI ballI)
    fix y k assume p: "0 \<le> y \<and> y < m8_scr_y s2 \<and> 0 div 32 \<le> k \<and> k \<le> (m8_scr_x s2 - 1) div 32"
    show "no_collision s2 (piece s) y k" by (simp add: no_collision_def pc)
    have oc: "on_card s2 y k" using p by (intro k_on_card [OF m2, of 0 "m8_scr_x s2"]) auto
    fix i assume "i \<in> {0..31 :: int}" "\<not> (0 \<le> 32 * k + i \<and> 32 * k + i < m8_scr_x s2)"
    with on_card_on_screen [OF m2 oc, of i] show "right s2 (screen p0 s2) (32 * k + i) y" by (simp add: on_screen_def)
  qed
  note sp = send_spec [OF m2 order_refl pos(1) order_refl order_refl pos(2) order_refl tp this, folded e, unfolded pc]
  have "right s (screen p0 (m8_fb16_send_all s)) x y" if "on_screen s x y" for x y
  proof -
    have "even_down 0 \<le> x" "x < even_up (m8_scr_x s2)"
      using that even_edges(6,7) [OF m2 order_refl pos(1) order_refl] by (simp_all add: on_screen_def sz)
    with sp that show ?thesis by (simp add: right_def pixel_at_same [OF sb] on_screen_def sz)
  qed
  moreover have "\<exists>snt'. true_prints p0 (m8_fb16_send_all s) snt' \<and> (\<forall>y k. snt' y k = piece s y k)" using sp by metis
  ultimately show ?thesis using sp same_buffer_trans [OF sb] by blast
qed

lemma gdi_following:
  assumes "gdi K p0 s" "inj_on piece_hash K" shows "\<exists>snt. following K p0 s snt"
  using assms(1)
proof (induction rule: gdi.induct)
  case (gdi_start s)
  have sp: "same_buffer s (m8_fb16_send_all s)" "\<And>x y. on_screen s x y \<Longrightarrow> right s (screen p0 (m8_fb16_send_all s)) x y"
    and "\<exists>snt'. true_prints p0 (m8_fb16_send_all s) snt' \<and> (\<forall>y k. snt' y k = piece s y k)"
    using send_all_spec [OF gdi_start(1), of p0] by auto
  then obtain snt' where snt': "true_prints p0 (m8_fb16_send_all s) snt'" "\<And>y k. snt' y k = piece s y k" by blast
  have v: "ram (m8_fb16_send_all s) = ram s" "m8_fb16_sel (m8_fb16_send_all s) = m8_fb16_sel s"
    "m8_scr_x (m8_fb16_send_all s) = m8_scr_x s" "m8_scr_y (m8_fb16_send_all s) = m8_scr_y s"
    and w: "m8_fb16_msel (m8_fb16_send_all s) = m8_fb16_msel s" "m8_fb16_depth (m8_fb16_send_all s) = 0"
      "m8_fb16_dirty (m8_fb16_send_all s) = []"
    using sp(1) gdi_start by (simp_all add: same_buffer_def)
  note vo = view_only [OF v]
  have oc: "on_card (m8_fb16_send_all s) = on_card s" using v by (simp add: on_card_def fun_eq_iff)
  have "following K p0 (m8_fb16_send_all s) snt'"
    unfolding following_def vo oc v w piece_same [OF sp(1)] using gdi_start snt' sp(2) by simp
  then show ?case by blast
next
  case (gdi_begin s l t r b)
  then show ?case using following_begin by blast
next
  case (gdi_limit s on lim)
  then obtain snt where f: "following K p0 s snt" by blast
  have "following K p0 (s\<lparr>m8_fb16_lim := lim, m8_fb16_lim_on := on\<rparr>) snt"
    using f by (intro following_kept [OF f]) (auto simp: following_def)
  then show ?case by blast
next
  case (gdi_draw s mem)
  then obtain snt where f: "following K p0 s snt" by blast
  define s' where "s' = s\<lparr>ram := mem\<rparr>"
  have oc: "on_card s' = on_card s" and os: "on_screen s' = on_screen s"
    by (simp_all add: s'_def on_card_def on_screen_def fun_eq_iff)
  have tc: "true_cells s' = true_cells s" by (simp add: true_cells_def oc fun_eq_iff)
  have sc: "screen p0 s' = screen p0 s" and rest: "m8_fb16_hash s' = m8_fb16_hash s" "mode_ok s' = mode_ok s"
    "m8_fb16_sel s' = m8_fb16_sel s" "m8_fb16_msel s' = m8_fb16_msel s" "m8_fb16_depth s' = m8_fb16_depth s"
    "m8_fb16_dirty s' = m8_fb16_dirty s"
    by (simp_all add: s'_def mode_ok_def)
  have rt: "right s' (screen p0 s) x y" if "on_screen s x y" "\<not> covered (m8_fb16_dirty s) x y" for x y
    using f that gdi_draw(2) [OF that] by (simp add: following_def right_def s'_def)
  have "following K p0 s' snt"
    using f gdi_draw(3) rt unfolding following_def true_prints_def oc os tc sc rest s'_def [symmetric] by blast
  then show ?case unfolding s'_def by blast
next
  case (gdi_end s)
  then show ?case using following_end [OF _ assms(2)] by blast
qed

subsection \<open>The theorems\<close>

text \<open>C2: Whenever no access call is open the card shows the frame buffer dithered, pixel for pixel: after a
  full send and any nesting of \<open>m8_fb16_begin\<close>, limits, drawing inside the marked rectangles and
  \<open>m8_fb16_end\<close>, if at each outermost end no two dirty rectangles share a 32-pixel piece and no two
  pieces that were ever in the frame buffer have the same fingerprint.\<close>

theorem mach8_card_follows:
  assumes "gdi K p0 s" and "inj_on piece_hash K" and "m8_fb16_depth s = 0"
    and "0 \<le> x" "x < m8_scr_x s" "0 \<le> y" "y < m8_scr_y s"
  shows "screen p0 s x y = ref_pixel (m8_fb16_bayer ! (nat y mod 4) ! (nat x mod 4)) (pixel_at s x y)"
proof -
  obtain snt where "following K p0 s snt" using gdi_following [OF assms(1,2)] by blast
  then have "right s (screen p0 s) x y" using assms(3-) by (simp add: following_def on_screen_def)
  then show ?thesis by (simp add: right_def shade_def)
qed

definition blank_mode :: fb16 where
  "blank_mode = \<lparr>m8_scr_x = 640, m8_scr_y = 480, ram = (\<lambda>_ _. 0), m8_fb16_sel = 8, m8_fb16_msel = 8, m8_fb16_bsel = 0,
     m8_fb16_bmem = False, m8_fb16_hash = Some (\<lambda>_. 0), m8_fb16_whole = False, m8_fb16_sending = 0, m8_fb16_reenter = 0,
     m8_fb16_depth = 0, m8_fb16_dirty = [], m8_fb16_lim_on = False, m8_fb16_lim = rect 0 0 0 0, m8_fb16_flushing = False,
     m8_fb16_stat = (\<lambda>_. 0), card_log = []\<rparr>"

definition white_pieces :: "u16 list set" where
  "white_pieces = {replicate 32 0, replicate 32 0xFFFF}"

lemma const_piece:
  assumes "\<And>x. pixel_at s x y = c" shows "piece s y k = replicate 32 c"
  by (intro nth_equalityI) (simp_all add: piece_def assms)

lemma hash_step_mult: "hash_step d h = (let x = (h + d) * 1025 in x XOR drop_bit 6 x)"
proof -
  have "push_bit 10 (h + d) = (h + d) * 1024" by (simp add: push_bit_eq_mult)
  then show ?thesis by (simp add: hash_step_def Let_def algebra_simps)
qed

lemma sixteen: "(f ^^ 16) h = f (f (f (f (f (f (f (f (f (f (f (f (f (f (f (f h)))))))))))))))"
  by (simp add: eval_nat_numeral)

lemma white_dword: "(ucast (0xFFFF :: u16) OR push_bit 16 (ucast (0xFFFF :: u16)) :: u32) = 0xFFFFFFFF"
  by simp

text \<open>The hash of a black and of a white piece, step by step.\<close>

lemma black_steps:
  "hash_step 0 0x811C9DC5 = 0xF05DFF02" "hash_step 0 0xF05DFF02 = 0x69FB6F1E" "hash_step 0 0x69FB6F1E = 0x56E93882"
  "hash_step 0 0x56E93882 = 0xF8246D80" "hash_step 0 0xF8246D80 = 0x8BFD0436" "hash_step 0 0x8BFD0436 = 0x820DEB46"
  "hash_step 0 0x820DEB46 = 0xBB5DEF4B" "hash_step 0 0xBB5DEF4B = 0x33D77726" "hash_step 0 0x33D77726 = 0x93F2DF1A"
  "hash_step 0 0x93F2DF1A = 0x5E12FA06" "hash_step 0 0x5E12FA06 = 0xAB5CFE4E" "hash_step 0 0xAB5CFE4E = 0x1F2B6E97"
  "hash_step 0 0x1F2B6E97 = 0xCFD65DBD" "hash_step 0 0xCFD65DBD = 0x29E864FB" "hash_step 0 0x29E864FB = 0xC851A1B8"
  "hash_step 0 0xC851A1B8 = 0xEE3E3BE"
  by (simp_all add: hash_step_mult)

lemma white_steps:
  "hash_step 0xFFFFFFFF 0x811C9DC5 = 0xF05DE373" "hash_step 0xFFFFFFFF 0xF05DE373 = 0x667405DF" "hash_step 0xFFFFFFFF 0x667405DF = 0x36515029"
  "hash_step 0xFFFFFFFF 0x36515029 = 0x7A7FB7E8" "hash_step 0xFFFFFFFF 0x7A7FB7E8 = 0x78BA2EA8" "hash_step 0xFFFFFFFF 0x78BA2EA8 = 0x60F1198D"
  "hash_step 0xFFFFFFFF 0x60F1198D = 0x25C214AA" "hash_step 0xFFFFFFFF 0x25C214AA = 0x2EACEA4B" "hash_step 0xFFFFFFFF 0x2EACEA4B = 0xE1DF4A03"
  "hash_step 0xFFFFFFFF 0xE1DF4A03 = 0x5E7B4F4A" "hash_step 0xFFFFFFFF 0x5E7B4F4A = 0x4A969284" "hash_step 0xFFFFFFFF 0x4A969284 = 0xA6731CF9"
  "hash_step 0xFFFFFFFF 0xA6731CF9 = 0x732D670B" "hash_step 0xFFFFFFFF 0x732D670B = 0x286AA936" "hash_step 0xFFFFFFFF 0x286AA936 = 0xD04340C1"
  "hash_step 0xFFFFFFFF 0xD04340C1 = 0xDE3359C3"
  by (simp_all add: hash_step_mult)

lemma white_fingerprints: "inj_on piece_hash white_pieces"
proof -
  have "m8_fb16_hash_colour 0 \<noteq> m8_fb16_hash_colour 0xFFFF"
    unfolding m8_fb16_hash_colour_def Let_def sixteen white_dword by (simp add: black_steps white_steps)
  then show ?thesis by (auto simp: white_pieces_def hash_colour)
qed

text \<open>A full send, one access call over the whole screen that draws it white, and its end.\<close>

definition whitened :: fb16 where
  "whitened = m8_fb16_end ((m8_fb16_begin 0 0 639 479 (m8_fb16_send_all blank_mode))\<lparr>ram := (\<lambda>_ _. 0xFFFF)\<rparr>)"

lemma whitened_reached:
  "gdi white_pieces p0 whitened \<and> m8_fb16_depth whitened = 0 \<and> m8_scr_x whitened = 640 \<and> m8_scr_y whitened = 480 \<and>
   pixel_at whitened x y = 0xFFFF"
proof -
  define s1 s2 s3 where "s1 = m8_fb16_send_all blank_mode" and "s2 = m8_fb16_begin 0 0 639 479 s1"
    and "s3 = s2\<lparr>ram := (\<lambda>_ _. 0xFFFF)\<rparr>"
  have mode: "mode_ok blank_mode" by (simp add: mode_ok_def blank_mode_def)
  have sb: "same_buffer blank_mode s1" using send_all_spec [OF mode] by (simp add: s1_def)
  have g1: "gdi white_pieces p0 s1"
    unfolding s1_def by (rule gdi_start [OF mode])
      (use const_piece [of blank_mode _ 0] in \<open>simp_all add: blank_mode_def pixel_at_def white_pieces_def\<close>)
  have d2: "m8_fb16_dirty s2 = [rect 0 0 640 480]" and p2: "m8_fb16_depth s2 = 1" "m8_scr_x s2 = 640" "m8_scr_y s2 = 480"
    "m8_fb16_sel s2 = m8_fb16_msel s2"
    using sb by (simp_all add: s2_def m8_fb16_begin_def Let_def same_buffer_def blank_mode_def count_stat_def emit_def begin_rect_def
        s16_def m8_fb16_add_def M8_FB16_DIRTY_def)
  have g3: "gdi white_pieces p0 s3"
    unfolding s3_def
  proof (rule gdi_draw)
    show "gdi white_pieces p0 s2" unfolding s2_def by (rule gdi_begin [OF g1])
    show "pixel_at (s2\<lparr>ram := \<lambda>_ _. 65535\<rparr>) x y = pixel_at s2 x y" if "on_screen s2 x y" "\<not> covered (m8_fb16_dirty s2) x y" for x y
      using that by (simp add: d2 on_screen_def inside_def p2)
    have "piece (s2\<lparr>ram := \<lambda>_ _. 65535\<rparr>) y k = replicate 32 0xFFFF" for y k
      by (rule const_piece) (simp add: pixel_at_def)
    then show "piece (s2\<lparr>ram := \<lambda>_ _. 65535\<rparr>) y k \<in> white_pieces" if "on_card s2 y k" for y k
      by (simp add: white_pieces_def)
  qed
  have w: "whitened = m8_fb16_end s3" by (simp add: whitened_def s3_def s2_def s1_def)
  have "gdi white_pieces p0 whitened"
    unfolding w by (rule gdi_end [OF g3]) (simp add: s3_def d2)
  moreover have "same_buffer (s3\<lparr>m8_fb16_depth := 0, m8_fb16_dirty := []\<rparr>) whitened"
  proof -
    have "\<exists>snt. following white_pieces p0 s3 snt" by (rule gdi_following [OF g3 white_fingerprints])
    then obtain snt where f: "following white_pieces p0 s3 snt" by blast
    have m3: "mode_ok s3" using p2 by (simp add: mode_ok_def s3_def)
    have in3: "snt y k \<in> white_pieces \<and> piece s3 y k \<in> white_pieces" if "on_card s3 y k" for y k
      using f that by (simp add: following_def)
    have nc: "no_collision s3 snt y k" if "on_card s3 y k" for y k
      using in3 [OF that] white_fingerprints by (auto simp: no_collision_def inj_on_def)
    have rt: "\<And>x y. on_screen s3 x y \<Longrightarrow> \<not> covered (m8_fb16_dirty s3) x y \<Longrightarrow> right s3 (screen p0 s3) x y"
      using f by (simp add: following_def)
    have ap: "pieces_apart s3 (m8_fb16_dirty s3)" by (simp add: s3_def d2)
    have fl: "\<forall>d \<in> List.set (m8_fb16_dirty s3). flushable s3 (screen p0 s3) snt d"
      using apart_flushable [OF m3 ap _ nc rt] by blast
    show ?thesis
      unfolding w using end_shows [OF m3 _ _ _ _ fl ap] f rt p2 by (simp add: following_def s3_def)
  qed
  ultimately show ?thesis using p2 by (simp add: same_buffer_def s3_def pixel_at_def)
qed

theorem mach8_card_follows_witness: "screen (\<lambda>_ _. 0) whitened 5 7 = 240"
proof -
  have "screen (\<lambda>_ _. 0) whitened 5 7 = ref_pixel (m8_fb16_bayer ! (nat 7 mod 4) ! (nat 5 mod 4)) (pixel_at whitened 5 7)"
    by (rule mach8_card_follows [OF _ white_fingerprints]) (use whitened_reached in simp_all)
  also have "\<dots> = ref_pixel 7 (rgb565 31 63 31)" using whitened_reached by (simp add: m8_fb16_bayer_def rgb565_def)
  also have "\<dots> = 240" using cube_colour_flat [of 4 8 4 31 63 31 7] by (simp add: code_simps eval_simps cube_index_def)
  finally show ?thesis .
qed

text \<open>C40: Two dirty rectangles that share pieces leave stale pixels. Let the fingerprints be in use and free of
  collisions, and let two rectangles lie over the same rows, the second within the 32-pixel pieces of the
  first, each of at least 1024 pixels and not of one colour, so that both are sent over fingerprints. The
  first send records the fingerprints of the whole pieces, the second finds nothing changed, and a pixel of the
  second, outside the first widened to even columns, that the card did not show right before the outermost
  end it does not show right after. (A small or one-colour second rectangle is sent.)\<close>

theorem mach8_shared_piece_stays_stale:
  assumes "mode_ok s" and "m8_fb16_hash s = Some h" and "true_prints p0 s snt"
    and "m8_fb16_depth s = 1" and "m8_fb16_sel s = m8_fb16_msel s"
    and "m8_fb16_dirty s = [rect l t r b, rect l' t r' b]" and "over_prints s l t r b" and "over_prints s l' t r' b"
    and "l div 32 \<le> l' div 32" and "(r' - 1) div 32 \<le> (r - 1) div 32"
    and "\<And>y k. no_collision s snt y k"
    and "inside (rect l' t r' b) x y" and "\<not> (even_down l \<le> x \<and> x < even_up r)"
    and "screen p0 s x y \<noteq> shade x y (pixel_at s x y)"
  shows "screen p0 (m8_fb16_end s) x y \<noteq> shade x y (pixel_at s x y)"
proof -
  define s1 where "s1 = s\<lparr>m8_fb16_depth := 0, m8_fb16_flushing := True\<rparr>"
  have v: "ram s1 = ram s" "m8_fb16_sel s1 = m8_fb16_sel s" "m8_scr_x s1 = m8_scr_x s" "m8_scr_y s1 = m8_scr_y s"
    "m8_fb16_hash s1 = m8_fb16_hash s" "m8_fb16_whole s1 = m8_fb16_whole s"
    by (simp_all add: s1_def)
  note vo = view_only [OF v(1-4)]
  have sc: "screen p0 s1 = screen p0 s" by (simp add: s1_def)
  have op: "over_prints s1 = over_prints s"
    by (simp add: over_prints_def v vo m8_fb16_uniform_def m8_fb16_same_def fun_eq_iff)
  have tp: "true_prints p0 s1 snt" using assms(3) unfolding true_prints_def v(5) sc vo .
  have nc: "no_collision s1 snt y k" for y k using assms(11) [of y k] by (simp add: no_collision_def piece_def vo)
  define s2 where "s2 = m8_fb16_flush (rect l' t r' b) (m8_fb16_flush (rect l t r b) s1)"
  have stale: "screen p0 s2 x y = screen p0 s x y"
    unfolding s2_def sc [symmetric]
    by (rule shared_piece_stale [OF _ _ tp]) (use assms nc in \<open>simp_all add: vo v op\<close>)
  have e: "m8_fb16_end s = s2\<lparr>m8_fb16_flushing := False, m8_fb16_dirty := []\<rparr>"
    using end_as_flushes assms(4-6) by (simp add: s1_def s2_def)
  from stale assms(14) show ?thesis by (simp add: e)
qed

text \<open>Two rectangles over the first 80 rows, columns 0 to 13 and 16 to 31, of a frame buffer whose odd
  columns are white, before a card that shows black.\<close>

definition striped :: fb16 where
  "striped = blank_mode\<lparr>ram := (\<lambda>_ i. if even i then 0 else 0xFFFF), m8_fb16_depth := 1,
     m8_fb16_dirty := [rect 0 0 14 80, rect 16 0 32 80]\<rparr>"

lemma two_colours:
  assumes "l \<le> x" "x < r" "t \<le> y" "y < b" "pixel_at s x y \<noteq> pixel_at s l t"
  shows "m8_fb16_uniform l t r b s = None"
proof (cases "m8_fb16_uniform l t r b s")
  case (Some c)
  then have "c = pixel_at s l t" by (auto simp: m8_fb16_uniform_def Let_def split: if_splits)
  with uniform_all [OF Some assms(1-4)] assms(5) show ?thesis by simp
qed

lemma striped_pixel: "0 \<le> x \<Longrightarrow> pixel_at striped x 0 = (if even x then 0 else 0xFFFF)"
  by (simp add: striped_def blank_mode_def pixel_at_def even_nat_iff)

theorem mach8_shared_piece_stays_stale_witness:
  "screen (\<lambda>_ _. 0) (m8_fb16_end striped) 21 0 \<noteq> shade 21 0 (pixel_at striped 21 0)"
proof (rule mach8_shared_piece_stays_stale [of striped "\<lambda>_. 0" _ "piece striped" 0 0 14 80 16 32])
  show "over_prints striped 0 0 14 80" "over_prints striped 16 0 32 80"
    using two_colours [of 0 1 14 0 0 80 striped] two_colours [of 16 17 32 0 0 80 striped]
    by (simp_all add: over_prints_def striped_pixel) (simp_all add: striped_def blank_mode_def M8_FB16_HASH_MIN_def even_up_def even_down_def)
  have "ref_pixel 8 (rgb565 31 63 31) = 240"
    using cube_colour_flat [of 4 8 4 31 63 31 8] by (simp add: code_simps eval_simps cube_index_def)
  then show "screen (\<lambda>_ _. 0) striped 21 0 \<noteq> shade 21 0 (pixel_at striped 21 0)"
    by (simp add: striped_pixel shade_def m8_fb16_bayer_def rgb565_def) (simp add: screen_def striped_def blank_mode_def)
qed (simp_all add: striped_def blank_mode_def mode_ok_def true_prints_def true_cells_def true_cell_def no_collision_def inside_def
    even_up_def even_down_def)

subsection \<open>The fingerprint\<close>

lemma xor_drop_inj:
  fixes x y :: u32
  assumes "x XOR drop_bit 6 x = y XOR drop_bit 6 y" shows "x = y"
proof -
  have e: "(bit x n \<noteq> bit x (6 + n)) = (bit y n \<noteq> bit y (6 + n))" for n
    using arg_cong [OF assms, of "\<lambda>w. bit w n"] by (simp add: bit_xor_iff bit_drop_bit_eq)
  have all: "32 \<le> n + 6 * j \<longrightarrow> bit x n = bit y n" for n j
  proof (induction j arbitrary: n)
    case 0
    then show ?case using bit_imp_le_length [of x n] bit_imp_le_length [of y n] by auto
  next
    case (Suc j)
    show ?case using e [of n] Suc.IH [of "6 + n"] by auto
  qed
  have "bit x n = bit y n" for n using all [of n 6] by simp
  then show ?thesis by (rule bit_eqI)
qed

lemma mult_1025_inj:
  fixes x y :: u32
  assumes "x * 1025 = y * 1025" shows "x = y"
proof -
  have one: "1025 * 0xC00FFC01 = (1 :: u32)" by simp
  have "x * (1025 * 0xC00FFC01) = y * (1025 * 0xC00FFC01)" using assms by (simp only: mult.assoc [symmetric])
  then show ?thesis by (simp only: one mult_1_right)
qed

lemma hash_step_inj: "hash_step d h = hash_step d' h' \<Longrightarrow> h + d = h' + d'"
  unfolding hash_step_mult Let_def by (drule xor_drop_inj, drule mult_1025_inj)

lemma hash_fold_inj: "fold hash_step ds h = fold hash_step ds h' \<Longrightarrow> h = h'"
proof (induction ds arbitrary: h h')
  case (Cons d ds)
  then have "hash_step d h = hash_step d h'" by simp
  then show ?case using hash_step_inj by (metis add_right_cancel)
qed simp

lemma dword_inj:
  fixes a b a' b' :: u16
  assumes "(ucast a OR push_bit 16 (ucast b) :: u32) = ucast a' OR push_bit 16 (ucast b')" shows "a = a' \<and> b = b'"
proof -
  have bits: "bit (ucast a OR push_bit 16 (ucast b) :: u32) n = (if n < 16 then bit a n else n < 32 \<and> bit b (n - 16))" for a b :: u16 and n
    by (auto simp: bit_or_iff bit_push_bit_iff bit_ucast_iff dest: bit_imp_le_length)
  have e: "(if n < 16 then bit a n else n < 32 \<and> bit b (n - 16)) = (if n < 16 then bit a' n else n < 32 \<and> bit b' (n - 16))" for n
    using assms bits by metis
  have "bit a n = bit a' n" if "n < 16" for n using e [of n] that by simp
  moreover have "bit b n = bit b' n" if "n < 16" for n using e [of "n + 16"] that by simp
  ultimately show ?thesis by (auto intro!: bit_word_eqI)
qed

lemma dwords_append: "even (length A) \<Longrightarrow> dwords (A @ B) = dwords A @ dwords B"
  by (induction A rule: dwords.induct) auto

text \<open>C21: Pieces that differ in exactly one dword (two neighbouring pixels, the first in an even column) have
  different hashes, and the same fingerprint only if the hashes are 0 and 1, which share the
  fingerprint 1 because 0 means unknown.\<close>

theorem mach8_fingerprint_detects:
  assumes "even (length A)" and "(a, b) \<noteq> (a', b')"
  shows "raw_hash (A @ [a, b] @ B) \<noteq> raw_hash (A @ [a', b'] @ B) \<and>
    (piece_hash (A @ [a, b] @ B) = piece_hash (A @ [a', b'] @ B) \<longleftrightarrow>
     {raw_hash (A @ [a, b] @ B), raw_hash (A @ [a', b'] @ B)} = {0, 1})"
proof -
  have "raw_hash (A @ [a, b] @ B) \<noteq> raw_hash (A @ [a', b'] @ B)"
    using assms(2) by (auto simp: raw_hash_def dwords_append [OF assms(1)] dest!: hash_fold_inj hash_step_inj dword_inj)
  then show ?thesis by (auto simp: piece_hash_def doubleton_eq_iff)
qed

theorem mach8_fingerprint_detects_witness:
  "raw_hash (replicate 4 0 @ [0, 1] @ replicate 26 0) \<noteq> raw_hash (replicate 4 0 @ [1, 0] @ replicate 26 0) \<and>
   (piece_hash (replicate 4 0 @ [0, 1] @ replicate 26 0) = piece_hash (replicate 4 0 @ [1, 0] @ replicate 26 0) \<longleftrightarrow>
    {raw_hash (replicate 4 0 @ [0, 1] @ replicate 26 0), raw_hash (replicate 4 0 @ [1, 0] @ replicate 26 0)} = {0, 1})"
  by (rule mach8_fingerprint_detects) simp_all

end
