(* ===== verification/Spec2Isabelle.thy ===== *)
theory Spec2Isabelle
  imports Pit_Bus Pic_Service Dma_Refresh Timer_Run Inboard_Service Io_Service Pit_Service Kbc_Service Epat_Service Bpck_Service Mach8_Access
begin

text \<open>
  A model of the Inboard 386/PC project's core C code, with the theorems that make it correct. The
  repository holds a fork of the 86Box emulator (\<open>86box_full/src\<close>) that runs an IBM PC/XT with an
  Intel Inboard 386/PC accelerator, drivers for Windows 95 on that machine (\<open>drivers\<close>), and tools
  and documents. Paths below are relative to \<open>src\<close>, and to \<open>86box_full/src\<close> where the file is the
  emulator's.

  \<^bold>\<open>The parts and how they meet.\<close> The processor reaches the devices through the port bus (\<open>io.c\<close>): a
  chain of handlers per port, with traps laid over them. The interval timer (\<open>pit.c\<close>, whose counters are
  \<open>pit_exact.c\<close>) raises interrupt line 0, clocks the speaker and, through counter 1, the DRAM refresh of
  the DMA controller (\<open>dma.c\<close>); the interrupt controllers (\<open>pic.c\<close>) turn request lines into the vector
  the processor fetches. Anything that happens later hangs on the event timers (\<open>timer.c\<close>), a sorted
  list whose head sets the one time stamp the processor's loop compares. The Inboard
  (\<open>device/inboard386.c\<close>) sits between processor and bus: it watches the keyboard port for the A20 gate,
  shadows the BIOS, and charges wait states. Keys travel from the host through \<open>device/keyboard.c\<close> and
  \<open>device/kbc_xt.c\<close> to port 0x60 and line 1. On the parallel port hang two bridges to ATAPI drives,
  \<open>device/lpt_epat.c\<close> and \<open>drivers/microsolutions_backpack/86box/lpt_bpck.c\<close>.
  The display driver of the ATI Mach8 card (\<open>drivers/mach8_display/src\<close>) stands apart from the emulator:
  its 16 bits per pixel mode (\<open>fb16.c\<close>, with the inner loops in \<open>fb16cv.asm\<close>) keeps a frame buffer in RAM
  that GDI draws in, and sends what changed to a card of 8 bits per pixel, dithered.


  \<^bold>\<open>Which theory models what.\<close> A C struct is a record of the same fields, an enum a datatype, an
  integer a word of its width where its wrap-around can matter and an \<open>int\<close> or \<open>nat\<close> where it is a
  bounded index; a function that changes state takes the state last and returns it; what C leaves undefined (a
  NULL pointer followed, an array left) is a value of \<open>fault\<close> or \<open>None\<close>. Function names are the source's;
  a definition for a part of a function is mapped to the lines of that part.

    \<^item> \<open>Prelude86\<close>: the integer types, bit masks, byte halves of a word, the collections of simplification
      rules, and the locale \<open>byte_pair_port\<close> of a 16-bit register behind an 8-bit port. \<open>Priority\<close>: the
      locale \<open>priority_order\<close> of a rotating search, interpreted for the interrupt and the DMA controllers.
    \<^item> \<open>Pit_Exact\<close> models \<open>pit_exact.c\<close>. \<open>Pit_Timing\<close>: the wave forms of the modes as functions of the
      clock. \<open>Pit_Bus\<close>: the counters seen from their ports, the invariant of every operation, and a whole
      programming sequence. \<open>Pit\<close> models \<open>pit.c\<close>; \<open>Pit_Service\<close> shows its public registers to mirror
      the core and counter 1 to pace the refresh.
    \<^item> \<open>Pic\<close> models \<open>pic.c\<close>; \<open>Pic_Service\<close>: the request picked is the one of highest rotated priority,
      acknowledge and end of interrupt are inverse, requests reach the processor, shared lines are the
      OR of their devices; and two states in which the code follows a NULL pointer or shifts too far.
    \<^item> \<open>Dma\<close> models the XT path of \<open>dma.c\<close>. \<open>Dma_Transfer\<close>: where the bytes of a transfer go, that it
      ends, that the forced XT path stays below 1 MB. \<open>Dma_Refresh\<close>: the byte ports and the handshake
      of the DRAM refresh.
    \<^item> \<open>Timer\<close> models \<open>timer.c\<close> over an explicit store of list nodes. \<open>Timer_List\<close>: the store as a list
      of addresses, enabling as sorted insertion. \<open>Timer_Order\<close>: time stamps compared by signed distance,
      and the invariant that no due timer is missed. \<open>Timer_Run\<close>: \<open>timer_process\<close> returns.
    \<^item> \<open>Inboard\<close> models \<open>device/inboard386.c\<close>, the A20 functions of \<open>mem/mem.c\<close> and the charging of
      \<open>cpu/386_dynarec.c\<close>; \<open>Inboard_Service\<close> its A20, shadow and wait state behaviour.
    \<^item> \<open>Io\<close> models \<open>io.c\<close>; \<open>Io_Service\<close>: registration and traps, wide accesses as byte accesses.
    \<^item> \<open>Keyboard\<close> and \<open>Kbc_Xt\<close> model \<open>device/keyboard.c\<close> and \<open>device/kbc_xt.c\<close>; \<open>Keyboard_Service\<close> and
      \<open>Kbc_Service\<close>: modifiers, order and delay of key codes, capacity and reset.
    \<^item> \<open>Packet_Drive\<close>: the drive as the parallel port bridges see it, and faults. \<open>Byte_Stream\<close>: the
      locales \<open>byte_source\<close> and \<open>byte_sink\<close> of a device moved byte by byte. \<open>Epat\<close> models
      \<open>device/lpt_epat.c\<close>, \<open>Epat_Service\<close> its wire protocol. \<open>Bpck\<close> models \<open>lpt_bpck.c\<close>; \<open>Bpck_Wire\<close> shows
      all its protocols to reach the same registers (locale \<open>register_port\<close>, which is a byte source and
      a byte sink), \<open>Bpck_Service\<close> the knock, the EEPROM, packet commands, and the agreement of the two
      bridges' packet engines.
    \<^item> \<open>Mach8_Dither\<close>, \<open>Mach8_Dirty\<close> and \<open>Mach8_Frame\<close> model \<open>fb16.c\<close> and \<open>fb16cv.asm\<close>: palette and dither, the
      dirty rectangles and the strips of lines, fingerprints, sends and the drawing calls; what goes to the card is
      a log of commands. \<open>Mach8_Palette\<close>: the assembly row converter is the reference one, the colours and the
      mean of the dither. \<open>Mach8_Cover\<close>: nothing drawn is left out of the rectangles, and where lines hang.
      \<open>Mach8_Send\<close> and \<open>Mach8_Solid\<close>: what a send and a solid rectangle leave on the card, and that they keep
      the fingerprints true. \<open>Mach8_Frame_Service\<close>: a rectangle and the dirty list flushed.
      \<open>Mach8_Access\<close>: the access calls in any nesting keep card and frame buffer the same, unless two rectangles
      share a piece.


  \<^bold>\<open>What the groups of theorems are.\<close> Invariants say what every operation keeps, from the initial state
  on (\<open>..._keep_invariant\<close>, \<open>..._in_range\<close>, \<open>reached\<close> relations). Refinements relate a detailed state to a
  specification (a sorted list of timers, a bank with a shadow, the OR of the last requests).
  Functional theorems follow a guest or a host through a whole exchange: programming a counter, a block
  transfer, a key, a packet command over a cable. Error theorems state exactly when the code
  overflows, loses a byte, follows NULL or does not return; the manifest's findings name them.
  Theorems of that kind that are not properties of the manifest (one-shot and strobe modes, ICW
  sequences, the refresh handshake and others) stand beside them.

  \<^bold>\<open>Bounds and fuel.\<close> No definition uses fuel. Loops over data are structural; the six that may not end
  (\<open>block_loop\<close> of the DMA controller, the four list walks of the timers and \<open>segment_loop\<close> of the display
  driver) are partial functions into \<open>option\<close>, so
  that not returning is \<open>None\<close>, and that they return is a theorem (\<open>software_request_returns\<close>,
  \<open>timer_process_returns\<close>, \<open>timer_enable_inserts\<close>, \<open>mach8_line_returns_iff\<close>). 52 polls bound the delivery of a key because a
  byte that is not acknowledged blocks the interface for 50 polls and more.

  \<^bold>\<open>Parameters.\<close> What lies outside a component is an argument of its definitions: the memory and devices
  behind a DMA channel, the callbacks of timers and the wiring of counter outputs, the scan code
  tables, the clock and its tick constants, the adapter's request slot of the 8088, the drive behind a
  bridge (\<open>drive_ops\<close>, the function pointers of \<open>scsi_device_t\<close>) with, where a theorem needs it, the
  hypotheses that it answers a command and completes when told to stop; \<open>demo_...\<close> definitions
  instantiate them in the witnesses.

  \<^bold>\<open>Not modelled.\<close> The processor cores and recompilers, and the page tables of the memory system, are far
  larger than this development and enter only where a device touches them. Other machines' chipsets,
  video and sound cards, disks and networks, the AT keyboard controllers, and the graphical interface
  are not part of this machine. Logging, registration of handlers with the device framework and
  configuration are left out of the modelled files. The AT, PS/2 and bus master paths of \<open>dma.c\<close> are not
  reached while the XT path is active. The Windows drivers in assembly are another language.
 Of the
  Mach8 driver the framework code, the engine code behind the command log, DirectDraw and Direct3D are left out.
\<close>

end
